(* ===== verification/Prelude.thy ===== *)
theory Prelude
  imports Main "HOL-Library.Word"
begin

text \<open>
  What every component of the model shares: the machine types of the 32 bit Arm build, the
  outcome of a kernel function (a value, an exit of the whole system, or behaviour C leaves
  undefined) with its sequencing, the fact collections of the development, and generic lemmas
  on lists and words.
\<close>

unbundle bit_operations_syntax

section \<open>Machine types\<close>

type_synonym byte = "8 word"
type_synonym u16 = "16 word"
type_synonym u32 = "32 word"
type_synonym u64 = "64 word"

text \<open>\<open>size_t\<close>, pointers and general registers are 32 bits wide on Arm and Thumb.\<close>

type_synonym size_t = "32 word"

abbreviation SIZE_MAX :: size_t where
  "SIZE_MAX \<equiv> - 1"

text \<open>The NULL pointer.\<close>

abbreviation NULL :: size_t where
  "NULL \<equiv> 0"

text \<open>A C bool as it is returned in a register.\<close>

definition of_bool32 :: "bool \<Rightarrow> size_t" where
  "of_bool32 b = (if b then 1 else 0)"

section \<open>Outcomes\<close>

text \<open>
  A kernel function returns with a value and a new state, or ends the whole system
  (\<open>k_exit\<close> and failed assertions never return), or never comes back properly: it runs into
  behaviour that C leaves undefined (an access outside an object, a NULL dereference) or loops
  for ever.
\<close>

datatype ('a, 's) outcome = Ret 'a 's | Exit int 's | Undef

fun obind :: "('a, 's) outcome \<Rightarrow> ('a \<Rightarrow> 's \<Rightarrow> ('b, 's) outcome) \<Rightarrow> ('b, 's) outcome" where
  "obind (Ret a s) f = f a s"
| "obind (Exit n s) f = Exit n s"
| "obind Undef f = Undef"

named_theorems frame \<open>fields that an operation leaves alone\<close>
named_theorems inv_intros \<open>operations preserve the kernel invariant\<close>
named_theorems mem_simps \<open>reads after writes of the byte memory\<close>

lemma obind_eq_Ret: "obind m f = Ret b s' \<longleftrightarrow> (\<exists>a s. m = Ret a s \<and> f a s = Ret b s')"
  by (cases m) auto

lemma obind_eq_Exit:
  "obind m f = Exit n s' \<longleftrightarrow> m = Exit n s' \<or> (\<exists>a s. m = Ret a s \<and> f a s = Exit n s')"
  by (cases m) auto

lemma obind_eq_Undef: "obind m f = Undef \<longleftrightarrow> m = Undef \<or> (\<exists>a s. m = Ret a s \<and> f a s = Undef)"
  by (cases m) auto

lemma obind_assoc: "obind (obind m f) g = obind m (\<lambda>a s. obind (f a s) g)"
  by (cases m) auto

lemma obind_Ret_right [simp]: "obind m Ret = m"
  by (cases m) auto

text \<open>What holds of the state whenever a function returns, or ends the system.\<close>

definition ret_state :: "('a, 's) outcome \<Rightarrow> ('s \<Rightarrow> bool) \<Rightarrow> bool" where
  "ret_state m P \<longleftrightarrow> (case m of Ret a s \<Rightarrow> P s | _ \<Rightarrow> True)"

lemma ret_state_simps [simp]:
  "ret_state (Ret a s) P \<longleftrightarrow> P s" "ret_state (Exit n s) P" "ret_state Undef P"
  by (simp_all add: ret_state_def)

lemma ret_stateD: "ret_state m P \<Longrightarrow> m = Ret a s \<Longrightarrow> P s"
  by simp

lemma ret_state_bind:
  "ret_state m Q \<Longrightarrow> (\<And>a s. m = Ret a s \<Longrightarrow> Q s \<Longrightarrow> ret_state (f a s) P) \<Longrightarrow> ret_state (obind m f) P"
  by (cases m) auto

lemma ret_state_iff: "ret_state m P \<longleftrightarrow> (\<forall>a s. m = Ret a s \<longrightarrow> P s)"
  by (cases m) auto

section \<open>Lists\<close>

lemma list_update_cong_nth: "i < length xs \<Longrightarrow> y = f (xs ! i) \<Longrightarrow> xs[i := y] = xs[i := f (xs ! i)]"
  by simp

lemma nth_list_update_if: "i < length xs \<Longrightarrow> xs[i := x] ! j = (if j = i then x else xs ! j)"
  by auto

lemma all_nth_update:
  "i < length xs \<Longrightarrow> (\<forall>j < length xs. P j (xs[i := x] ! j)) \<longleftrightarrow>
     P i x \<and> (\<forall>j < length xs. j \<noteq> i \<longrightarrow> P j (xs ! j))"
  by (auto simp: nth_list_update)

lemma find_None_upt: "find P [0..<n] = None \<longleftrightarrow> (\<forall>i<n. \<not> P i)"
  by (auto simp: find_None_iff)

lemma find_Some_upt:
  "find P [0..<n] = Some i \<longleftrightarrow> i < n \<and> P i \<and> (\<forall>j<i. \<not> P j)"
  by (auto simp: find_Some_iff)

section \<open>Words\<close>

lemma unat_of_nat32 [simp]: "i < 2 ^ 32 \<Longrightarrow> unat (of_nat i :: size_t) = i"
  by (simp add: unat_of_nat take_bit_nat_eq_self)

lemma unat_lt32: "unat (x :: size_t) < 2 ^ 32"
  using unsigned_less [of x] by simp

lemma unat_lt32_numeral [simp]: "unat (x :: size_t) < 4294967296"
  using unat_lt32 [of x] by simp

lemma of_nat_unat32 [simp]: "of_nat (unat x) = (x :: size_t)"
  by simp

lemma unat_add32: "unat a + unat b < 2 ^ 32 \<Longrightarrow> unat (a + b :: size_t) = unat a + unat b"
  by (simp add: unat_word_ariths)

lemma unat_minus32: "(a :: size_t) \<noteq> 0 \<Longrightarrow> unat (- a) = 2 ^ 32 - unat a"
  using unat_sub_if' [of 0 a] by (simp add: unat_eq_zero)

lemma unat_SIZE_MAX [simp]: "unat SIZE_MAX = 2 ^ 32 - 1"
  by (simp add: unsigned_minus_1_eq_mask mask_eq_exp_minus_1)

lemma word_and_le_self: "(x AND y :: 'a::len word) \<le> x"
  by (metis word_and_le2)

lemma bit_subset_trans:
  fixes a b c :: "'a::len word"
  assumes "a AND b = a" and "b AND c = b"
  shows "a AND c = a"
  using assms by (metis and.assoc)

text \<open>A mask of flags without some of them is a subset of the mask.\<close>

lemma and_not_subset: "(a AND NOT b) AND a = (a AND NOT b :: 'a::len word)"
  by (simp add: and.assoc and.commute and.left_commute)

end
