(* ===== verification/Memory.thy ===== *)
theory Memory
  imports Prelude
begin

text \<open>
  The byte addressed memory that user and kernel code share: thread stacks, the heap, code pages
  and the objects user pointers refer to. A read or a write of several bytes is a closed form
  over the addresses modulo \<open>2 ^ 32\<close>, so that aliasing is decided by the addresses alone.
\<close>

type_synonym mem = "size_t \<Rightarrow> byte"

section \<open>Byte strings\<close>

definition load_bytes :: "mem \<Rightarrow> size_t \<Rightarrow> nat \<Rightarrow> byte list" where
  "load_bytes m a n = map (\<lambda>i. m (a + of_nat i)) [0..<n]"

definition store_bytes :: "mem \<Rightarrow> size_t \<Rightarrow> byte list \<Rightarrow> mem" where
  "store_bytes m a bs = (\<lambda>x. if unat (x - a) < length bs then bs ! unat (x - a) else m x)"

text \<open>Two regions share no byte.\<close>

definition apart :: "size_t \<Rightarrow> nat \<Rightarrow> size_t \<Rightarrow> nat \<Rightarrow> bool" where
  "apart a n b k \<longleftrightarrow> n \<le> unat (b - a) \<and> k \<le> unat (a - b)"

lemma apart_commute: "apart a n b k \<longleftrightarrow> apart b k a n"
  by (auto simp: apart_def)

lemma length_load_bytes [simp]: "length (load_bytes m a n) = n"
  by (simp add: load_bytes_def)

lemma nth_load_bytes [simp]: "i < n \<Longrightarrow> load_bytes m a n ! i = m (a + of_nat i)"
  by (simp add: load_bytes_def)

lemma load_bytes_0 [simp]: "load_bytes m a 0 = []"
  by (simp add: load_bytes_def)

lemma load_bytes_Suc: "load_bytes m a (Suc n) = m a # load_bytes m (a + 1) n"
  by (rule nth_equalityI) (auto simp: nth_Cons split: nat.splits, simp add: add.assoc)

lemma load_bytes_add:
  "load_bytes m a (n + k) = load_bytes m a n @ load_bytes m (a + of_nat n) k"
  by (rule nth_equalityI) (auto simp: nth_append add.assoc simp flip: of_nat_add)

lemma store_bytes_Nil [simp]: "store_bytes m a [] = m"
  by (simp add: store_bytes_def)

lemma store_bytes_at:
  "i < length bs \<Longrightarrow> i < 2 ^ 32 \<Longrightarrow> store_bytes m a bs (a + of_nat i) = bs ! i"
  by (simp add: store_bytes_def)

lemma apart_offset:
  assumes "apart a n b k" and "i < k"
  shows "n \<le> unat (b + of_nat i - a)"
proof (cases "b = a")
  case True
  with assms show ?thesis by (auto simp: apart_def)
next
  case False
  let ?d = "unat (b - a)"
  have "unat (a - b) = 2 ^ 32 - ?d"
    using unat_minus32 [of "b - a"] False by simp
  moreover have "?d < 2 ^ 32"
    using unsigned_less [of "b - a"] by simp
  ultimately have lt: "?d + i < 2 ^ 32"
    using assms unfolding apart_def by linarith
  have "unat (b + of_nat i - a) = unat ((b - a) + of_nat i)"
    by (simp add: algebra_simps)
  also have "\<dots> = ?d + i"
    using lt by (subst unat_add32) auto
  finally show ?thesis
    using assms(1) by (simp add: apart_def)
qed

lemma store_bytes_apart:
  assumes "apart a (length bs) b k" and "i < k"
  shows "store_bytes m a bs (b + of_nat i) = m (b + of_nat i)"
  using apart_offset [OF assms] by (simp add: store_bytes_def)

lemma store_bytes_commute:
  assumes "apart a (length as) b (length bs)"
  shows "store_bytes (store_bytes m b bs) a as = store_bytes (store_bytes m a as) b bs"
proof
  fix x
  have "length as \<le> unat (x - a)" if "unat (x - b) < length bs"
    using apart_offset [OF assms that] by simp
  then show "store_bytes (store_bytes m b bs) a as x = store_bytes (store_bytes m a as) b bs x"
    by (auto simp: store_bytes_def)
qed

lemma load_store_bytes_same [mem_simps]:
  "length bs \<le> 2 ^ 32 \<Longrightarrow> n = length bs \<Longrightarrow> load_bytes (store_bytes m a bs) a n = bs"
  by (rule nth_equalityI) (auto simp: store_bytes_at)

lemma load_store_bytes_apart [mem_simps]:
  "apart a (length bs) b k \<Longrightarrow> load_bytes (store_bytes m a bs) b k = load_bytes m b k"
  by (rule nth_equalityI) (auto simp: store_bytes_apart)

lemma store_load_same [simp]: "store_bytes m a (load_bytes m a n) = m"
  by (rule ext) (simp add: store_bytes_def)

text \<open>A loop that writes one byte after the other writes the whole string.\<close>

lemma store_bytes_Cons:
  assumes "length bs < 2 ^ 32"
  shows "store_bytes (m(a := b)) (a + 1) bs = store_bytes m a (b # bs)"
proof
  fix x :: size_t
  show "store_bytes (m(a := b)) (a + 1) bs x = store_bytes m a (b # bs) x"
  proof (cases "x = a")
    case True
    from assms True show ?thesis by (simp add: store_bytes_def)
  next
    case False
    then have "x - a \<noteq> 0" by simp
    then have "unat (x - a - 1) = unat (x - a) - 1" and "unat (x - a) \<noteq> 0"
      by (simp_all add: unat_minus_one unat_eq_zero)
    then have "unat (x - a) = Suc (unat (x - (a + 1)))"
      by (simp add: diff_diff_eq)
    with False show ?thesis unfolding store_bytes_def by simp
  qed
qed

text \<open>Writes and reads inside a region that has just been written.\<close>

lemma unat_diff_offset:
  fixes a x :: size_t
  assumes "k < 2 ^ 32"
  shows "unat (x - (a + of_nat k)) =
    (if k \<le> unat (x - a) then unat (x - a) - k else unat (x - a) + 2 ^ 32 - k)"
proof -
  have "unat (x - (a + of_nat k)) = unat ((x - a) - of_nat k)"
    by (simp add: algebra_simps)
  also have "\<dots> = (if k \<le> unat (x - a) then unat (x - a) - k else unat (x - a) + 2 ^ 32 - k)"
    using unat_sub_if' [of "x - a" "of_nat k"] assms by simp
  finally show ?thesis .
qed

lemma store_bytes_within:
  assumes "k + length cs \<le> length bs" and "length bs < 2 ^ 32"
  shows "store_bytes (store_bytes m a bs) (a + of_nat k) cs
       = store_bytes m a (take k bs @ cs @ drop (k + length cs) bs)"
proof
  fix x
  have k: "k < 2 ^ 32" using assms by simp
  show "store_bytes (store_bytes m a bs) (a + of_nat k) cs x
      = store_bytes m a (take k bs @ cs @ drop (k + length cs) bs) x"
    using assms unat_lt32 [of "x - a"]
    by (auto simp: store_bytes_def unat_diff_offset [OF k] nth_append)
qed

lemma load_bytes_within [mem_simps]:
  assumes "k + n \<le> length bs" and "length bs < 2 ^ 32"
  shows "load_bytes (store_bytes m a bs) (a + of_nat k) n = take n (drop k bs)"
proof (rule nth_equalityI)
  fix i assume i: "i < length (load_bytes (store_bytes m a bs) (a + of_nat k) n)"
  with assms store_bytes_at [of "k + i" bs m a]
  show "load_bytes (store_bytes m a bs) (a + of_nat k) n ! i = take n (drop k bs) ! i"
    by (simp add: add.assoc)
qed (use assms in simp)

lemma store_bytes_append:
  assumes "length xs + length ys \<le> 2 ^ 32" and "length xs < 2 ^ 32"
  shows "store_bytes (store_bytes m a xs) (a + of_nat (length xs)) ys = store_bytes m a (xs @ ys)"
proof
  fix x
  show "store_bytes (store_bytes m a xs) (a + of_nat (length xs)) ys x = store_bytes m a (xs @ ys) x"
    using assms unat_lt32 [of "x - a"]
    by (auto simp: store_bytes_def unat_diff_offset [OF assms(2)] nth_append)
qed

section \<open>Words in memory, little endian\<close>

definition bytes32 :: "u32 \<Rightarrow> byte list" where
  "bytes32 v = [ucast v, ucast (drop_bit 8 v), ucast (drop_bit 16 v), ucast (drop_bit 24 v)]"

definition word32_of :: "byte list \<Rightarrow> u32" where
  "word32_of bs = ucast (bs ! 0) OR push_bit 8 (ucast (bs ! 1)) OR push_bit 16 (ucast (bs ! 2))
     OR push_bit 24 (ucast (bs ! 3))"

definition bytes16 :: "u16 \<Rightarrow> byte list" where
  "bytes16 v = [ucast v, ucast (drop_bit 8 v)]"

definition word16_of :: "byte list \<Rightarrow> u16" where
  "word16_of bs = ucast (bs ! 0) OR push_bit 8 (ucast (bs ! 1))"

definition load32 :: "mem \<Rightarrow> size_t \<Rightarrow> u32" where
  "load32 m a = word32_of (load_bytes m a 4)"

definition store32 :: "mem \<Rightarrow> size_t \<Rightarrow> u32 \<Rightarrow> mem" where
  "store32 m a v = store_bytes m a (bytes32 v)"

definition load16 :: "mem \<Rightarrow> size_t \<Rightarrow> u16" where
  "load16 m a = word16_of (load_bytes m a 2)"

definition store16 :: "mem \<Rightarrow> size_t \<Rightarrow> u16 \<Rightarrow> mem" where
  "store16 m a v = store_bytes m a (bytes16 v)"

lemma length_bytes32 [simp]: "length (bytes32 v) = 4"
  by (simp add: bytes32_def)

lemma length_bytes16 [simp]: "length (bytes16 v) = 2"
  by (simp add: bytes16_def)

lemma word32_of_bytes32 [simp]: "word32_of (bytes32 v) = v"
proof -
  have "bit (word32_of (bytes32 v)) n = bit v n" if n: "n < 32" for n
  proof -
    consider "n < 8" | "8 \<le> n" "n < 16" | "16 \<le> n" "n < 24" | "24 \<le> n" "n < 32"
      using n by (metis not_le)
    then show ?thesis
      by cases (auto simp: word32_of_def bytes32_def bit_simps)
  qed
  then show ?thesis by (intro bit_eqI) auto
qed

lemma word16_of_bytes16 [simp]: "word16_of (bytes16 v) = v"
  unfolding word16_of_def bytes16_def
  by (rule bit_eqI) (auto simp: bit_simps)

lemma load32_store32_same [mem_simps]: "load32 (store32 m a v) a = v"
  by (simp add: load32_def store32_def mem_simps)

lemma load16_store16_same [mem_simps]: "load16 (store16 m a v) a = v"
  by (simp add: load16_def store16_def mem_simps)

lemma load32_store32_apart [mem_simps]:
  "apart a 4 b 4 \<Longrightarrow> load32 (store32 m a v) b = load32 m b"
  by (simp add: load32_def store32_def mem_simps)

lemma load32_store_bytes_apart [mem_simps]:
  "apart a (length bs) b 4 \<Longrightarrow> load32 (store_bytes m a bs) b = load32 m b"
  by (simp add: load32_def mem_simps)

lemma load_bytes_store32_apart [mem_simps]:
  "apart a 4 b n \<Longrightarrow> load_bytes (store32 m a v) b n = load_bytes m b n"
  by (simp add: store32_def mem_simps)

section \<open>Regions and single bytes\<close>

text \<open>Two places in one object, and a part of one of two regions that are apart.\<close>

lemma apart_offsets:
  fixes a :: size_t
  assumes "x + n \<le> y" and "0 < n" and "y + k \<le> 2 ^ 32" and "0 < k"
  shows "apart (a + of_nat x) n (a + of_nat y) k" and "apart (a + of_nat y) k (a + of_nat x) n"
proof -
  have d: "a + of_nat y - (a + of_nat x) = (of_nat (y - x) :: size_t)"
    using assms by (simp add: of_nat_diff)
  have u: "unat (a + of_nat y - (a + of_nat x)) = y - x"
    unfolding d by (rule unat_of_nat32) (use assms in simp)
  then have "a + of_nat y - (a + of_nat x) \<noteq> 0" using assms by auto
  then have "unat (a + of_nat x - (a + of_nat y)) = 2 ^ 32 - (y - x)"
    using unat_minus32 [of "a + of_nat y - (a + of_nat x)"] u by simp
  with u assms show "apart (a + of_nat x) n (a + of_nat y) k" unfolding apart_def by linarith
  then show "apart (a + of_nat y) k (a + of_nat x) n" by (simp add: apart_commute)
qed

lemma byte_store: "m(a := v) = store_bytes m a [v]"
proof
  fix x
  show "(m(a := v)) x = store_bytes m a [v] x"
    by (cases "x = a") (auto simp: store_bytes_def unat_eq_zero)
qed

lemma load_byte_store32: "apart a 4 b 1 \<Longrightarrow> store32 m a v b = m b"
  using store_bytes_apart [of a "bytes32 v" b 1 0 m] by (simp add: store32_def)

lemma load32_byte_apart: "apart a 1 b 4 \<Longrightarrow> load32 (m(a := v)) b = load32 m b"
  using load32_store_bytes_apart [of a "[v]" b m] by (simp add: byte_store)

lemma apart_part:
  assumes "apart a n b k" and "off + k' \<le> k" and "0 < k'"
  shows "apart a n (b + of_nat off) k'"
proof -
  have "n \<le> unat (b + of_nat off - a)" using assms by (intro apart_offset) auto
  moreover have "k \<le> unat (a - b)" using assms(1) by (simp add: apart_def)
  moreover have "off < 2 ^ 32" using assms calculation(2) unat_lt32 [of "a - b"] by linarith
  moreover have "unat (a - (b + of_nat off)) = unat (a - b) - off"
  proof -
    have eq: "a - (b + of_nat off) = (a - b) - of_nat off" by (simp add: algebra_simps)
    show ?thesis
      unfolding eq using unat_sub_if' [of "a - b" "of_nat off"] calculation assms by simp
  qed
  ultimately show ?thesis using assms unfolding apart_def by linarith
qed

lemma load32_zero [simp]: "load32 (\<lambda>_. 0) a = 0"
  by (simp add: load32_def load_bytes_def word32_of_def upt_rec)

text \<open>A word inside a region that has just been written, and regions with the same bytes.\<close>

lemma load32_within:
  "k + 4 \<le> length bs \<Longrightarrow> length bs < 2 ^ 32 \<Longrightarrow> load32 (store_bytes m a bs) (a + of_nat k) = word32_of (take 4 (drop k bs))"
  by (simp add: load32_def load_bytes_within)

lemma load_bytes_cong: "(\<And>i. i < n \<Longrightarrow> m (p + of_nat i) = m' (p + of_nat i)) \<Longrightarrow> load_bytes m p n = load_bytes m' p n"
  by (simp add: load_bytes_def)

end
