(* ===== verification/Libc.thy ===== *)
theory Libc
  imports Memory
begin

text \<open>
  The C library functions of \<open>src/common/libc.c\<close>, loop by loop, over the byte memory. Functions
  that return their destination pointer are modelled by the memory they leave. A loop that looks
  for a terminator is a partial function: None is a search that never ends.
\<close>

section \<open>Character and integer helpers\<close>

definition EOF :: int where
  "EOF = - 1"

definition isdigit :: "int \<Rightarrow> bool" where
  "isdigit c = (if c = EOF then False
     else (let chr = word_of_int c :: byte in 48 \<le> chr \<and> chr \<le> 57))"

text \<open>\<open>x * -1\<close> wraps for the smallest int, as the generated code does.\<close>

definition abs_c :: "u32 \<Rightarrow> u32" where
  "abs_c x = (if 0 < sint x then x else x * - 1)"

section \<open>Strings\<close>

partial_function (option) strlen_loop :: "mem \<Rightarrow> size_t \<Rightarrow> size_t \<Rightarrow> size_t option" where
  "strlen_loop m s len = (if m s \<noteq> 0 then strlen_loop m (s + 1) (len + 1) else Some len)"

definition strlen :: "mem \<Rightarrow> size_t \<Rightarrow> size_t option" where
  "strlen m s = strlen_loop m s 0"

partial_function (option) strcmp :: "mem \<Rightarrow> size_t \<Rightarrow> size_t \<Rightarrow> int option" where
  "strcmp m s1 s2 = (if m s1 = m s2 \<and> m s1 \<noteq> 0 \<and> m s2 \<noteq> 0 then strcmp m (s1 + 1) (s2 + 1)
     else Some (uint (m s1) - uint (m s2)))"

fun strncmp :: "mem \<Rightarrow> size_t \<Rightarrow> size_t \<Rightarrow> nat \<Rightarrow> int" where
  "strncmp m s1 s2 0 = 0"
| "strncmp m s1 s2 (Suc len) =
     (if m s1 \<noteq> m s2 then uint (m s1) - uint (m s2)
      else if m s1 = 0 then 0
      else strncmp m (s1 + 1) (s2 + 1) len)"

function strncpy_loop :: "mem \<Rightarrow> size_t \<Rightarrow> size_t \<Rightarrow> nat \<Rightarrow> nat \<Rightarrow> mem \<times> nat" where
  "strncpy_loop m dst src num i =
     (if i < num \<and> m (src + of_nat i) \<noteq> 0
      then strncpy_loop (m(dst + of_nat i := m (src + of_nat i))) dst src num (Suc i)
      else (m, i))"
  by pat_completeness auto
termination
  by (relation "measure (\<lambda>(m, dst, src, num, i). num - i)") auto

declare strncpy_loop.simps [simp del]

definition strncpy :: "mem \<Rightarrow> size_t \<Rightarrow> size_t \<Rightarrow> size_t \<Rightarrow> mem" where
  "strncpy m dst src num =
     (let (m', i) = strncpy_loop m dst src (unat num) 0
      in if i < unat num then m'(dst + of_nat i := 0) else m')"

section \<open>Blocks of memory\<close>

fun memset_loop :: "mem \<Rightarrow> size_t \<Rightarrow> byte \<Rightarrow> nat \<Rightarrow> mem" where
  "memset_loop m d ch 0 = m"
| "memset_loop m d ch (Suc len) = memset_loop (m(d := ch)) (d + 1) ch len"

definition memset :: "mem \<Rightarrow> size_t \<Rightarrow> u32 \<Rightarrow> size_t \<Rightarrow> mem" where
  "memset m dst ch len = memset_loop m dst (ucast ch) (unat len)"

definition bzero :: "mem \<Rightarrow> size_t \<Rightarrow> size_t \<Rightarrow> mem" where
  "bzero m dst len = memset m dst 0 len"

fun copy_forward :: "mem \<Rightarrow> size_t \<Rightarrow> size_t \<Rightarrow> nat \<Rightarrow> mem" where
  "copy_forward m d s 0 = m"
| "copy_forward m d s (Suc len) = copy_forward (m(d := m s)) (d + 1) (s + 1) len"

definition memcpy :: "mem \<Rightarrow> size_t \<Rightarrow> size_t \<Rightarrow> size_t \<Rightarrow> mem" where
  "memcpy m dst src len = copy_forward m dst src (unat len)"

fun copy_backward :: "mem \<Rightarrow> size_t \<Rightarrow> size_t \<Rightarrow> nat \<Rightarrow> mem" where
  "copy_backward m d s 0 = m"
| "copy_backward m d s (Suc len) = copy_backward (m(d - 1 := m (s - 1))) (d - 1) (s - 1) len"

definition memmove :: "mem \<Rightarrow> size_t \<Rightarrow> size_t \<Rightarrow> size_t \<Rightarrow> mem" where
  "memmove m dst src len =
     (if len = 0 \<or> dst = src then m
      else if src < dst then copy_backward m (dst + len) (src + len) (unat len)
      else if dst < src then copy_forward m dst src (unat len)
      else m)"

section \<open>Strings in memory\<close>

text \<open>The bytes of a C string stand at an address, terminator included.\<close>

definition cstr :: "mem \<Rightarrow> size_t \<Rightarrow> byte list \<Rightarrow> bool" where
  "cstr m s bs \<longleftrightarrow> length bs < 2 ^ 32 \<and> 0 \<notin> set bs \<and> load_bytes m s (Suc (length bs)) = bs @ [0]"

lemma cstr_Nil: "cstr m s [] \<longleftrightarrow> m s = 0"
  by (auto simp: cstr_def load_bytes_Suc)

lemma cstr_Cons: "cstr m s (b # bs) \<longleftrightarrow> Suc (length bs) < 2 ^ 32 \<and> b \<noteq> 0 \<and> m s = b \<and> cstr m (s + 1) bs"
  by (auto simp: cstr_def load_bytes_Suc)

lemma strlen_loop_cstr: "cstr m s bs \<Longrightarrow> strlen_loop m s len = Some (len + of_nat (length bs))"
proof (induction bs arbitrary: s len)
  case Nil
  then show ?case by (simp add: cstr_Nil strlen_loop.simps)
next
  case (Cons b bs)
  then show ?case by (subst strlen_loop.simps) (simp add: cstr_Cons algebra_simps)
qed

lemma strlen_cstr [simp]: "cstr m s bs \<Longrightarrow> strlen m s = Some (of_nat (length bs))"
  by (simp add: strlen_def strlen_loop_cstr)

text \<open>The string comparison decides equality, and its sign is that of the first difference.\<close>

lemma strcmp_cstr:
  "cstr m a xs \<Longrightarrow> cstr m b ys \<Longrightarrow> \<exists>r. strcmp m a b = Some r \<and> (r = 0 \<longleftrightarrow> xs = ys)"
proof (induction xs arbitrary: a b ys)
  case Nil
  then show ?case
    by (cases ys) (auto simp: cstr_Nil cstr_Cons strcmp.simps uint_0_iff)
next
  case (Cons x xs)
  show ?case
  proof (cases ys)
    case Nil
    with Cons.prems show ?thesis by (auto simp: cstr_Nil cstr_Cons strcmp.simps uint_0_iff)
  next
    case (Cons y ys')
    show ?thesis
    proof (cases "x = y")
      case True
      with Cons Cons.prems obtain r where "strcmp m (a + 1) (b + 1) = Some r"
        and "r = 0 \<longleftrightarrow> xs = ys'"
        using Cons.IH [of "a + 1" "b + 1" ys'] by (auto simp: cstr_Cons)
      with True Cons Cons.prems show ?thesis
        by (subst strcmp.simps) (auto simp: cstr_Cons)
    next
      case False
      with Cons Cons.prems show ?thesis
        by (subst strcmp.simps) (auto simp: cstr_Cons word_uint_eq_iff)
    qed
  qed
qed

section \<open>The loops in closed form\<close>

lemma load_bytes_upd_outside:
  "(\<And>i. i < n \<Longrightarrow> s + of_nat i \<noteq> x) \<Longrightarrow> load_bytes (m(x := b)) s n = load_bytes m s n"
  by (rule nth_equalityI) auto

lemma memset_loop_eq:
  "n < 2 ^ 32 \<Longrightarrow> memset_loop m d ch n = store_bytes m d (replicate n ch)"
  by (induction n arbitrary: m d) (simp_all add: store_bytes_Cons)

lemma memset_eq: "memset m d ch len = store_bytes m d (replicate (unat len) (ucast ch))"
  using unat_lt32 [of len] by (simp add: memset_def memset_loop_eq)

text \<open>
  A forward copy is right unless the destination starts inside the source, which the copy would
  then overwrite before it is read.
\<close>

lemma copy_forward_eq:
  assumes "n \<le> unat (d - s) \<or> d = s" and "n < 2 ^ 32"
  shows "copy_forward m d s n = store_bytes m d (load_bytes m s n)"
  using assms
proof (induction n arbitrary: m d s)
  case 0
  then show ?case by simp
next
  case (Suc n)
  have "load_bytes (m(d := m s)) (s + 1) n = load_bytes m (s + 1) n"
  proof (cases "d = s")
    case True
    then show ?thesis by simp
  next
    case False
    with Suc.prems have le: "Suc n \<le> unat (d - s)" by simp
    show ?thesis
    proof (rule load_bytes_upd_outside)
      fix i assume "i < n"
      show "s + 1 + of_nat i \<noteq> d"
      proof
        assume "s + 1 + of_nat i = d"
        then have "d - s = of_nat (Suc i)" by (auto simp: algebra_simps)
        then have "unat (d - s) = Suc i"
          using \<open>i < n\<close> Suc.prems(2) by (metis Suc_lessD Suc_mono less_trans unat_of_nat32)
        with le \<open>i < n\<close> show False by simp
      qed
    qed
  qed
  moreover have "n \<le> unat (d + 1 - (s + 1)) \<or> d + 1 = s + 1"
    using Suc.prems(1) by auto
  ultimately show ?case
    using Suc by (simp add: store_bytes_Cons load_bytes_Suc)
qed

lemma store_bytes_snoc:
  assumes "length bs < 2 ^ 32"
  shows "store_bytes (m(a + of_nat (length bs) := b)) a bs = store_bytes m a (bs @ [b])"
proof
  fix x :: size_t
  have "unat (x - a) = length bs \<longleftrightarrow> x = a + of_nat (length bs)"
    using assms by (metis add_diff_cancel_left' diff_add_cancel add.commute unat_of_nat32 of_nat_unat32)
  then show "store_bytes (m(a + of_nat (length bs) := b)) a bs x = store_bytes m a (bs @ [b]) x"
    by (auto simp: store_bytes_def nth_append)
qed

lemma copy_backward_eq:
  assumes "n \<le> unat (s - d) \<or> d = s" and "n < 2 ^ 32"
  shows "copy_backward m (d + of_nat n) (s + of_nat n) n = store_bytes m d (load_bytes m s n)"
  using assms
proof (induction n arbitrary: m)
  case 0
  then show ?case by simp
next
  case (Suc n)
  let ?m = "m(d + of_nat n := m (s + of_nat n))"
  have "load_bytes ?m s n = load_bytes m s n"
  proof (cases "d = s")
    case True
    then show ?thesis by simp
  next
    case False
    with Suc.prems have le: "Suc n \<le> unat (s - d)" by simp
    show ?thesis
    proof (rule load_bytes_upd_outside)
      fix i assume i: "i < n"
      show "s + of_nat i \<noteq> d + of_nat n"
      proof
        assume "s + of_nat i = d + of_nat n"
        then have "s - d = of_nat (n - i)"
          using i by (simp add: of_nat_diff algebra_simps)
        then have "unat (s - d) = n - i"
          using Suc.prems(2) i unat_of_nat32 [of "n - i"] by (simp del: unat_of_nat32)
        with le show False by simp
      qed
    qed
  qed
  moreover have "load_bytes m s (Suc n) = load_bytes m s n @ [m (s + of_nat n)]"
    using load_bytes_add [of m s n 1] by (simp add: load_bytes_Suc)
  moreover have "copy_backward m (d + of_nat (Suc n)) (s + of_nat (Suc n)) (Suc n) =
      copy_backward ?m (d + of_nat n) (s + of_nat n) n"
    by (simp add: algebra_simps)
  ultimately show ?case
    using Suc store_bytes_snoc [of "load_bytes m s n" m d "m (s + of_nat n)"] by auto
qed

lemma memcpy_eq:
  "unat len \<le> unat (d - s) \<or> d = s \<Longrightarrow> memcpy m d s len = store_bytes m d (load_bytes m s (unat len))"
  using unat_lt32 [of len] by (simp add: memcpy_def copy_forward_eq)

lemma memcpy_apart:
  "apart s (unat len) d (unat len) \<Longrightarrow> memcpy m d s len = store_bytes m d (load_bytes m s (unat len))"
  by (rule memcpy_eq) (simp add: apart_def)

text \<open>
  \<open>memmove\<close> is right for any two regions that do not wrap around the end of the address space,
  overlapping or not.
\<close>

lemma memmove_eq:
  assumes "unat s + unat len \<le> 2 ^ 32" and "unat d + unat len \<le> 2 ^ 32"
  shows "memmove m d s len = store_bytes m d (load_bytes m s (unat len))"
proof -
  have lt: "unat len < 2 ^ 32" by simp
  consider "len = 0" | "d = s" "len \<noteq> 0" | "s < d" "len \<noteq> 0" | "d < s" "len \<noteq> 0"
    by (metis linorder_less_linear)
  then show ?thesis
  proof cases
    case 1
    then show ?thesis by (simp add: memmove_def)
  next
    case 2
    then show ?thesis
      by (simp add: memmove_def store_load_same)
  next
    case 3
    then have "unat (s - d) = 2 ^ 32 + unat s - unat d"
      using unat_sub_if' [of s d] by (simp add: word_less_nat_alt)
    with assms have "unat len \<le> unat (s - d)" by linarith
    with copy_backward_eq [of "unat len" s d m] lt 3 show ?thesis
      by (simp add: memmove_def)
  next
    case 4
    then have "unat (d - s) = 2 ^ 32 + unat d - unat s"
      using unat_sub_if' [of d s] by (simp add: word_less_nat_alt)
    with assms have "unat len \<le> unat (d - s)" by linarith
    with copy_forward_eq [of "unat len" d s m] lt 4 show ?thesis
      by (auto simp: memmove_def)
  qed
qed

end
