(* ===== verification/Print.thy ===== *)
theory Print
  imports Prelude
begin

text \<open>
  The formatted output of \<open>src/common/print.cpp\<close>: number to string conversion, the width and
  precision parser, the format interpreter behind \<open>printf\<close> and \<open>sprintf\<close>, and thread names as
  the logs show them. A string is the list of its characters without the terminator, and the
  output of a call is the list of characters it writes. \<open>None\<close> is behaviour C leaves undefined: an
  argument of another kind than the formatter asks for, a local buffer overrun, a read past the
  end of the format string.
\<close>

section \<open>Numbers\<close>

definition base_of :: "char \<Rightarrow> u64" where
  "base_of fmt = (if fmt = CHR ''u'' then 10 else 16)"

definition digit_char :: "char \<Rightarrow> u64 \<Rightarrow> char" where
  "digit_char fmt digit =
     (let hex_a_char = (if fmt = CHR ''X'' then 65 else 97);
          new_char = (if digit \<ge> 10 then hex_a_char else 48)
      in char_of (new_char + unat (digit mod 10) :: nat))"

text \<open>The digits as the loop writes them, least significant first.\<close>

function digit_loop :: "char \<Rightarrow> u64 \<Rightarrow> string" where
  "digit_loop fmt num =
     (if num \<noteq> 0 then digit_char fmt (num mod base_of fmt) # digit_loop fmt (num div base_of fmt)
      else [])"
  by pat_completeness auto
termination
proof (relation "measure (\<lambda>(fmt, num). unat num)")
  fix fmt :: char and num :: u64
  assume "num \<noteq> 0"
  then have "0 < unat num" by (simp add: unat_gt_0)
  then have "unat num div unat (base_of fmt) < unat num"
    by (simp add: base_of_def)
  then show "((fmt, num div base_of fmt), (fmt, num)) \<in> measure (\<lambda>(fmt, num). unat num)"
    by (simp add: unat_div)
qed simp

declare digit_loop.simps [simp del]

text \<open>The loop that reverses the digits in place, from both ends to the middle.\<close>

function reverse_loop :: "string \<Rightarrow> nat \<Rightarrow> nat \<Rightarrow> string" where
  "reverse_loop out len idx =
     (if idx < len div 2
      then reverse_loop (out[idx := out ! (len - 1 - idx), len - 1 - idx := out ! idx]) len (Suc idx)
      else out)"
  by pat_completeness auto
termination
  by (relation "measure (\<lambda>(out, len, idx). len div 2 - idx)") auto

declare reverse_loop.simps [simp del]

definition uint_to_str :: "u64 \<Rightarrow> char \<Rightarrow> string" where
  "uint_to_str num fmt =
     (if num \<noteq> 0 then (let ds = digit_loop fmt num in reverse_loop ds (length ds) 0)
      else ''0'')"

function pow_loop :: "size_t \<Rightarrow> nat \<Rightarrow> size_t \<Rightarrow> size_t" where
  "pow_loop base pw ret = (if 1 < pw then pow_loop base (pw - 1) (ret * base) else ret)"
  by pat_completeness auto
termination
  by (relation "measure (\<lambda>(base, pw, ret). pw)") auto

declare pow_loop.simps [simp del]

text \<open>The helper multiplies once less than its name says: its result for \<open>power\<close> is
  \<open>base ^ (power - 1)\<close>, the weight of the first of \<open>power\<close> digits.\<close>

definition pow :: "size_t \<Rightarrow> nat \<Rightarrow> size_t" where
  "pow base pw = (if pw = 0 then 1 else pow_loop base pw 1)"

definition is_digit :: "char \<Rightarrow> bool" where
  "is_digit c \<longleftrightarrow> 48 \<le> (of_char c :: nat) \<and> of_char c \<le> (57 :: nat)"

fun digits_value :: "string \<Rightarrow> size_t \<Rightarrow> size_t \<Rightarrow> size_t" where
  "digits_value [] num multiplier = num"
| "digits_value (c # cs) num multiplier =
     digits_value cs (num + (of_char c - 48) * multiplier) (multiplier div 10)"

text \<open>An unsigned number at the start of the input and the input behind it; \<open>SIZE_MAX\<close> and the
  input as it was when there is none.\<close>

definition consume_uint :: "string \<Rightarrow> size_t \<times> string" where
  "consume_uint inp =
     (let ds = takeWhile is_digit inp
      in if ds = [] then (SIZE_MAX, inp)
         else (digits_value ds 0 (pow 10 (length ds)), dropWhile is_digit inp))"

section \<open>The format interpreter\<close>

text \<open>A variadic argument: a string or NULL, or a 32 bit number.\<close>

datatype va_arg = VStr "string option" | VNum u32

definition putstr :: "string \<Rightarrow> size_t \<Rightarrow> string" where
  "putstr str num = (if num = SIZE_MAX then str else take (unat num) str)"

definition pad :: "char \<Rightarrow> size_t \<Rightarrow> nat \<Rightarrow> string" where
  "pad c padding_len len = (if len < unat padding_len then replicate (unat padding_len - len) c else [])"

definition parse_padding :: "string \<Rightarrow> va_arg list \<Rightarrow> (size_t \<times> string \<times> va_arg list) option" where
  "parse_padding fmt args =
     (if fmt \<noteq> [] \<and> hd fmt = CHR ''*''
      then (case args of VNum n # args' \<Rightarrow> Some (if 0 < sint n then n else 0, tl fmt, args') | _ \<Rightarrow> None)
      else (let (n, fmt') = consume_uint fmt in Some (if n = SIZE_MAX then 0 else n, fmt', args)))"

definition parse_precision :: "string \<Rightarrow> va_arg list \<Rightarrow> (size_t \<times> string \<times> va_arg list) option" where
  "parse_precision fmt args =
     (if fmt \<noteq> [] \<and> hd fmt = CHR ''.''
      then (let fmt = tl fmt
            in if fmt \<noteq> [] \<and> hd fmt = CHR ''*''
               then (case args of VNum n # args' \<Rightarrow>
                       Some (if 0 \<le> sint n then n else SIZE_MAX, tl fmt, args') | _ \<Rightarrow> None)
               else (let (n, fmt') = consume_uint fmt in Some (n, fmt', args)))
      else Some (SIZE_MAX, fmt, args))"

text \<open>The local buffers for numbers hold 16 characters and the terminator.\<close>

definition NUM_STR_SIZE :: nat where
  "NUM_STR_SIZE = 17"

definition conv_string :: "size_t \<Rightarrow> size_t \<Rightarrow> string option \<Rightarrow> string" where
  "conv_string padding_len precision arg =
     (let str = (case arg of None \<Rightarrow> ''(null)'' | Some str \<Rightarrow> str);
          str_len = (if of_nat (length str) > precision then unat precision else length str)
      in pad CHR '' '' padding_len str_len @ putstr str precision)"

definition conv_int :: "size_t \<Rightarrow> u32 \<Rightarrow> string option" where
  "conv_int padding_len n =
     (let sign = (if sint n < 0 then ''-'' else []);
          num = (if sint n < 0 then (if 0 < sint n then n else n * - 1) else n);
          int_str = uint_to_str (scast num) CHR ''u''
      in if length int_str < NUM_STR_SIZE
         then Some (sign @ pad CHR ''0'' padding_len (length int_str) @ int_str) else None)"

definition conv_uint :: "size_t \<Rightarrow> u32 \<Rightarrow> char \<Rightarrow> string option" where
  "conv_uint padding_len n fmt =
     (let num_str = uint_to_str (ucast n) fmt
      in if length num_str < NUM_STR_SIZE
         then Some (pad CHR ''0'' padding_len (length num_str) @ num_str) else None)"

text \<open>\<open>inp\<close> is the format from the percent sign on. The result is the text written, the format
  behind the formatter, and the arguments left.\<close>

definition handle_format_char :: "string \<Rightarrow> va_arg list \<Rightarrow> (string \<times> string \<times> va_arg list) option" where
  "handle_format_char inp args0 =
     (case parse_padding (tl inp) args0 of None \<Rightarrow> None | Some (padding_len, fmt1, args1) \<Rightarrow>
      case parse_precision fmt1 args1 of None \<Rightarrow> None | Some (precision, fmt, args) \<Rightarrow>
      case fmt of [] \<Rightarrow> None | c # rest \<Rightarrow>
        if c = CHR ''s'' then
          (case args of VStr str # args' \<Rightarrow> Some (conv_string padding_len precision str, rest, args')
                      | _ \<Rightarrow> None)
        else if c = CHR ''i'' then
          (case args of VNum n # args' \<Rightarrow> map_option (\<lambda>out. (out, rest, args')) (conv_int padding_len n)
                      | _ \<Rightarrow> None)
        else if c = CHR ''u'' \<or> c = CHR ''x'' \<or> c = CHR ''X'' then
          (case args of VNum n # args' \<Rightarrow> map_option (\<lambda>out. (out, rest, args')) (conv_uint padding_len n c)
                      | _ \<Rightarrow> None)
        else if c = CHR ''%'' then Some (''%'', rest, args)
        else Some (take (length inp - length rest) inp, rest, args))"

partial_function (option) vprintf :: "string \<Rightarrow> va_arg list \<Rightarrow> string option" where
  "vprintf fmt args =
     (case fmt of [] \<Rightarrow> Some []
      | c # rest \<Rightarrow>
          if c = CHR ''%''
          then (case handle_format_char fmt args of None \<Rightarrow> None
                | Some (out, fmt', args') \<Rightarrow> Option.bind (vprintf fmt' args') (\<lambda>more. Some (out @ more)))
          else Option.bind (vprintf rest args) (\<lambda>more. Some (c # more)))"

text \<open>\<open>sprintf\<close> runs the same loop over a buffer and ends it with a terminator.\<close>

definition sprintf :: "string \<Rightarrow> va_arg list \<Rightarrow> string option" where
  "sprintf fmt args = vprintf fmt args"

section \<open>Names and colours\<close>

definition THREAD_NAME_SIZE :: nat where
  "THREAD_NAME_SIZE = 13"

definition THREAD_NAME_MAX_LEN :: nat where
  "THREAD_NAME_MAX_LEN = THREAD_NAME_SIZE - 1"

definition shown_name :: "int \<Rightarrow> string option \<Rightarrow> string" where
  "shown_name tid name =
     (case name of
        Some (c # cs) \<Rightarrow> c # cs
      | _ \<Rightarrow> if tid = - 1 then ''<HIDDEN>'' else uint_to_str (ucast (word_of_int tid :: u32)) CHR ''u'')"

definition format_thread_name :: "int \<Rightarrow> string option \<Rightarrow> string" where
  "format_thread_name tid name =
     conv_string (of_nat THREAD_NAME_MAX_LEN) SIZE_MAX (Some (shown_name tid name))"

datatype TextColour = eReset | eYellow

definition text_colour :: "TextColour \<Rightarrow> string" where
  "text_colour colour = (case colour of eReset \<Rightarrow> CHR 0x1B # ''[0m'' | eYellow \<Rightarrow> CHR 0x1B # ''[0;33m'')"

section \<open>Numbers are printed exactly\<close>

lemma length_reverse_loop [simp]: "length (reverse_loop out len idx) = length out"
  by (induction out len idx rule: reverse_loop.induct) (subst reverse_loop.simps, simp)

text \<open>After the loop has passed \<open>idx\<close>, both ends up to there are exchanged.\<close>

lemma reverse_loop_nth:
  "length out = len \<Longrightarrow> j < len \<Longrightarrow> idx \<le> len div 2 \<Longrightarrow>
     reverse_loop out len idx ! j = (if idx \<le> j \<and> j < len - idx then out ! (len - 1 - j) else out ! j)"
proof (induction out len idx rule: reverse_loop.induct)
  case (1 out len idx)
  show ?case
  proof (cases "idx < len div 2")
    case True
    let ?out = "out[idx := out ! (len - 1 - idx), len - 1 - idx := out ! idx]"
    have "reverse_loop out len idx ! j = reverse_loop ?out len (Suc idx) ! j"
      using True by (subst reverse_loop.simps) simp
    also have "\<dots> = (if Suc idx \<le> j \<and> j < len - Suc idx then ?out ! (len - 1 - j) else ?out ! j)"
      using 1 True by auto
    also have "\<dots> = (if idx \<le> j \<and> j < len - idx then out ! (len - 1 - j) else out ! j)"
      using True "1.prems" by (auto simp: nth_list_update)
    finally show ?thesis .
  next
    case False
    with "1.prems" have "idx = len div 2" by simp
    with "1.prems" show ?thesis
      by (subst reverse_loop.simps) (auto intro!: arg_cong [where f = "nth out"])
  qed
qed

lemma reverse_loop_rev: "reverse_loop out (length out) 0 = rev out"
  by (rule nth_equalityI) (simp_all add: reverse_loop_nth rev_nth)

lemma uint_to_str_eq: "num \<noteq> 0 \<Longrightarrow> uint_to_str num fmt = rev (digit_loop fmt num)"
  by (simp add: uint_to_str_def reverse_loop_rev Let_def)

text \<open>The value of a digit, and of a string of digits, in a base.\<close>

definition char_digit :: "char \<Rightarrow> nat" where
  "char_digit c = (let n = of_char c in if n < 58 then n - 48 else if n < 71 then n - 55 else n - 87)"

definition str_value :: "nat \<Rightarrow> string \<Rightarrow> nat" where
  "str_value b cs = foldl (\<lambda>v c. v * b + char_digit c) 0 cs"

lemma str_value_snoc: "str_value b (cs @ [c]) = str_value b cs * b + char_digit c"
  by (simp add: str_value_def)

lemma char_digit_digit_char:
  assumes "d < 16"
  shows "char_digit (digit_char fmt d) = unat d"
proof -
  have "unat d < 16" using assms by (simp add: word_less_nat_alt)
  moreover have "10 \<le> d \<longleftrightarrow> 10 \<le> unat d" by (simp add: word_le_nat_alt)
  moreover have "unat (d mod 10) = unat d mod 10" by (simp add: unat_mod)
  moreover have "unat d mod 10 = (if 10 \<le> unat d then unat d - 10 else unat d)"
    using \<open>unat d < 16\<close> by (simp add: mod_if)
  ultimately show ?thesis
    by (auto simp: char_digit_def digit_char_def Let_def)
qed

lemma base_of_cases: "unat (base_of fmt) = 10 \<or> unat (base_of fmt) = 16"
  by (simp add: base_of_def)

lemma mod_base_of: "num mod base_of fmt < 16"
  using base_of_cases [of fmt] mod_less_divisor [of "unat (base_of fmt)" "unat num"]
  by (auto simp: word_less_nat_alt unat_mod)

lemma digit_loop_value: "str_value (unat (base_of fmt)) (rev (digit_loop fmt num)) = unat num"
proof (induction fmt num rule: digit_loop.induct)
  case (1 fmt num)
  show ?case
  proof (cases "num = 0")
    case True
    then show ?thesis by (subst digit_loop.simps) (simp add: str_value_def)
  next
    case False
    with 1 have "str_value (unat (base_of fmt)) (rev (digit_loop fmt (num div base_of fmt)))
        = unat num div unat (base_of fmt)"
      by (simp add: unat_div)
    with False show ?thesis
      by (subst digit_loop.simps)
        (simp add: str_value_snoc char_digit_digit_char mod_base_of unat_mod mult.commute)
  qed
qed

lemma digit_loop_length: "unat num < unat (base_of fmt) ^ k \<Longrightarrow> length (digit_loop fmt num) \<le> k"
proof (induction fmt num arbitrary: k rule: digit_loop.induct)
  case (1 fmt num)
  show ?case
  proof (cases "num = 0")
    case True
    then show ?thesis by (subst digit_loop.simps) simp
  next
    case False
    then have "0 < unat num" by (simp add: unat_gt_0)
    with "1.prems" obtain k' where k: "k = Suc k'" by (cases k) auto
    have "0 < unat (base_of fmt)" using base_of_cases [of fmt] by auto
    with "1.prems" k have "unat num div unat (base_of fmt) < unat (base_of fmt) ^ k'"
      by (simp add: div_less_iff_less_mult mult.commute)
    with False "1.IH" [of k'] k show ?thesis
      by (subst digit_loop.simps) (simp add: unat_div)
  qed
qed

lemma uint_to_str_length: "0 < k \<Longrightarrow> unat num < unat (base_of fmt) ^ k \<Longrightarrow> length (uint_to_str num fmt) \<le> k"
  using digit_loop_length [of num fmt k] uint_to_str_eq [of num fmt]
  by (cases "num = 0") (auto simp: uint_to_str_def)

lemma uint_to_str_nonempty: "uint_to_str num fmt \<noteq> []"
proof (cases "num = 0")
  case True
  then show ?thesis by (simp add: uint_to_str_def)
next
  case False
  then show ?thesis by (simp add: uint_to_str_eq) (subst digit_loop.simps, simp)
qed

lemma length_conv_string:
  "length (conv_string padding_len SIZE_MAX (Some str)) = max (unat padding_len) (length str)"
  if "length str < 2 ^ 32"
  using that unat_of_nat32 [of "length str"]
  by (auto simp: conv_string_def pad_def putstr_def word_less_nat_alt Let_def simp del: unat_of_nat32)

end
