(* ===== verification/Kernel_State.thy ===== *)
theory Kernel_State
  imports Libc Print
begin

text \<open>
  The data of the kernel: the structures of \<open>include/common/thread.h\<close> and
  \<open>include/kernel/thread.h\<close>, the kernel's global variables as one record, the checks on thread
  ids, and the kernel's log output. The number of threads, code backing pages and heap blocks is
  the length of the lists that hold them, so every build configuration is covered; a build
  without code pages has \<open>CODE_PAGE_SIZE\<close> 0.
\<close>

section \<open>Constants\<close>

definition INVALID_THREAD :: int where
  "INVALID_THREAD = - 1"

definition CURRENT_THREAD :: int where
  "CURRENT_THREAD = INVALID_THREAD"

definition THREAD_MSG_QUEUE_SIZE :: nat where
  "THREAD_MSG_QUEUE_SIZE = 5"

definition STACK_CANARY :: u64 where
  "STACK_CANARY = 0xcafebeefdeadf00d"

text \<open>\<open>1024 * STACK_SIZE\<close>, with the build's \<open>STACK_SIZE\<close> of 2.\<close>

definition THREAD_STACK_SIZE :: size_t where
  "THREAD_STACK_SIZE = 2048"

definition KCFG_DESTROY_ON_STACK_ERR :: u32 where "KCFG_DESTROY_ON_STACK_ERR = 1"
definition KCFG_LOG_SCHEDULER :: u32 where "KCFG_LOG_SCHEDULER = 2"
definition KCFG_LOG_THREADS :: u32 where "KCFG_LOG_THREADS = 4"
definition KCFG_COLOUR_OUTPUT :: u32 where "KCFG_COLOUR_OUTPUT = 8"
definition KCFG_LOG_FAILED_ERRNO :: u32 where "KCFG_LOG_FAILED_ERRNO = 16"

definition TPERM_NONE :: u16 where "TPERM_NONE = 0"
definition TPERM_ALL :: u16 where "TPERM_ALL = 0xFFFF"
definition TPERM_CREATE :: u16 where "TPERM_CREATE = 1"
definition TPERM_FILE :: u16 where "TPERM_FILE = 2"
definition TPERM_ALLOC :: u16 where "TPERM_ALLOC = 4"
definition TPERM_KCONFIG :: u16 where "TPERM_KCONFIG = 8"
definition TPERM_TCONFIG :: u16 where "TPERM_TCONFIG = 16"
definition TPERM_TCONFIG_OTHER :: u16 where "TPERM_TCONFIG_OTHER = 32"

definition E_PERM :: int where "E_PERM = 1"
definition E_INVALID_ID :: int where "E_INVALID_ID = 2"
definition E_NO_PAGE :: int where "E_NO_PAGE = 3"
definition E_INVALID_ARGS :: int where "E_INVALID_ARGS = 4"

lemmas perm_defs = TPERM_NONE_def TPERM_ALL_def TPERM_CREATE_def TPERM_FILE_def TPERM_ALLOC_def
  TPERM_KCONFIG_def TPERM_TCONFIG_def TPERM_TCONFIG_OTHER_def

lemmas kcfg_defs = KCFG_DESTROY_ON_STACK_ERR_def KCFG_LOG_SCHEDULER_def KCFG_LOG_THREADS_def
  KCFG_COLOUR_OUTPUT_def KCFG_LOG_FAILED_ERRNO_def

definition strerror :: "int \<Rightarrow> string" where
  "strerror errnum =
     (if errnum = E_PERM then ''permission denied''
      else if errnum = E_INVALID_ID then ''invalid thread ID''
      else if errnum = E_NO_PAGE then ''no free code page''
      else if errnum = E_INVALID_ARGS then ''invalid arguments''
      else ''<unknown errno>'')"

section \<open>Threads\<close>

datatype ThreadState = init | running | suspended | waiting | finished | cancelled

fun state_num :: "ThreadState \<Rightarrow> u32" where
  "state_num init = 0"
| "state_num running = 1"
| "state_num suspended = 2"
| "state_num waiting = 3"
| "state_num finished = 4"
| "state_num cancelled = 5"

text \<open>The states are ordered by the values of the C enumeration.\<close>

instantiation ThreadState :: linorder
begin

definition less_eq_ThreadState :: "ThreadState \<Rightarrow> ThreadState \<Rightarrow> bool" where
  "less_eq_ThreadState a b \<longleftrightarrow> state_num a \<le> state_num b"

definition less_ThreadState :: "ThreadState \<Rightarrow> ThreadState \<Rightarrow> bool" where
  "less_ThreadState a b \<longleftrightarrow> state_num a < state_num b"

instance
proof
  fix a b c :: ThreadState
  show "a < b \<longleftrightarrow> a \<le> b \<and> \<not> b \<le> a"
    by (auto simp: less_eq_ThreadState_def less_ThreadState_def)
  show "a \<le> a" by (simp add: less_eq_ThreadState_def)
  show "a \<le> b \<Longrightarrow> b \<le> c \<Longrightarrow> a \<le> c" by (simp add: less_eq_ThreadState_def)
  show "a \<le> b \<Longrightarrow> b \<le> a \<Longrightarrow> a = b"
    by (cases a; cases b) (auto simp: less_eq_ThreadState_def word_le_nat_alt)
  show "a \<le> b \<or> b \<le> a" by (auto simp: less_eq_ThreadState_def)
qed

end

text \<open>The two ints of a message, at their width.\<close>

record Message =
  msg_src :: u32
  msg_content :: u32

record ThreadArgs =
  a1 :: size_t
  a2 :: size_t
  a3 :: size_t
  a4 :: size_t

definition make_args :: "size_t \<Rightarrow> size_t \<Rightarrow> size_t \<Rightarrow> size_t \<Rightarrow> ThreadArgs" where
  "make_args a b c d = \<lparr>a1 = a, a2 = b, a3 = c, a4 = d\<rparr>"

record ThreadFlags =
  is_file :: bool
  remove_permissions :: u16

text \<open>
  One entry of \<open>all_threads\<close>. A pointer into the message buffer is the index it points to;
  \<open>t_stack\<close> is the address of the stack array, whose bytes are in the memory.
\<close>

record Thread =
  t_stack_ptr :: size_t
  t_state :: ThreadState
  t_signal_handler :: size_t
  t_pending_signals :: u32
  t_id :: int
  t_name :: "byte list"
  t_work :: size_t
  t_args :: ThreadArgs
  t_messages :: "Message list"
  t_next_msg :: nat
  t_end_msgs :: nat
  t_msgs_full :: bool
  t_parent :: int
  t_child :: int
  t_permissions :: u16
  t_err_no :: int
  t_in_code_page :: bool
  t_code_backing_page :: size_t
  t_bottom_canary :: u64
  t_stack :: size_t
  t_top_canary :: u64

record UserThreadInfo =
  u_id :: int
  u_name :: "byte list"
  u_kernel_config :: u32
  u_err_no :: int

record BlockTag =
  bt_tid :: u16
  bt_tag :: u16

text \<open>What the build and the linker fix: the size of the code page, the size of an enumeration, and
  the addresses of symbols, of string literals and of the local buffers of kernel functions.\<close>

record Build =
  b_code_page_size :: nat
  b_code_page :: size_t
  b_code_backing_pages :: size_t
  b_heap :: size_t
  b_thread_start :: size_t
  b_signal_handler_wrapper :: size_t
  b_signal_handler_wrapper_end :: size_t
  b_load_elf :: size_t
  b_setup :: size_t
  b_enum_size :: nat
  b_literal :: "string \<Rightarrow> size_t"
  b_locals :: size_t

text \<open>The kernel's global variables, the memory, what has been printed so far, and the semihosting
  calls made so far (operation and parameter block).\<close>

record kstate =
  all_threads :: "Thread list"
  current_thread :: "nat option"
  next_thread :: "nat option"
  user_thread_info :: UserThreadInfo
  kernel_config :: u32
  backing_refs :: "byte list"
  block_tags :: "BlockTag list"
  memory :: mem
  serial :: string
  host_calls :: "(size_t \<times> size_t list) list"
  build :: Build

text \<open>A kernel function as a whole: from a state to a value and a state, or no return.\<close>

type_synonym 'a kresult = "('a, kstate) outcome"

definition MAX_THREADS :: "kstate \<Rightarrow> nat" where
  "MAX_THREADS s = length (all_threads s)"

definition CODE_PAGE_SIZE :: "kstate \<Rightarrow> nat" where
  "CODE_PAGE_SIZE s = b_code_page_size (build s)"

definition CODE_BACKING_PAGES :: "kstate \<Rightarrow> nat" where
  "CODE_BACKING_PAGES s = length (backing_refs s)"

abbreviation thread_at :: "kstate \<Rightarrow> nat \<Rightarrow> Thread" where
  "thread_at s i \<equiv> all_threads s ! i"

definition upd_thread :: "nat \<Rightarrow> (Thread \<Rightarrow> Thread) \<Rightarrow> kstate \<Rightarrow> kstate" where
  "upd_thread i f s = s\<lparr>all_threads := (all_threads s)[i := f (thread_at s i)]\<rparr>"

definition set_errno :: "int \<Rightarrow> kstate \<Rightarrow> kstate" where
  "set_errno e s = s\<lparr>user_thread_info := (user_thread_info s)\<lparr>u_err_no := e\<rparr>\<rparr>"

definition set_memory :: "mem \<Rightarrow> kstate \<Rightarrow> kstate" where
  "set_memory m s = s\<lparr>memory := m\<rparr>"

text \<open>\<open>k_exit\<close> stops the system with a status (how it does so is modelled with the semihosting
  calls). A failed assertion prints and exits with status 1.\<close>

definition k_exit :: "int \<Rightarrow> kstate \<Rightarrow> 'a kresult" where
  "k_exit status s = Exit status s"

definition k_assert :: "bool \<Rightarrow> kstate \<Rightarrow> unit kresult" where
  "k_assert b s = (if b then Ret () s else Exit 1 s)"

text \<open>A dereference of \<open>current_thread\<close>, undefined when it is NULL.\<close>

definition on_current :: "kstate \<Rightarrow> (nat \<Rightarrow> 'a kresult) \<Rightarrow> 'a kresult" where
  "on_current s f = (case current_thread s of None \<Rightarrow> Undef | Some c \<Rightarrow> f c)"

section \<open>Checks\<close>

definition k_has_no_permission :: "u16 \<Rightarrow> kstate \<Rightarrow> bool" where
  "k_has_no_permission permission s =
     (case current_thread s of
        None \<Rightarrow> False
      | Some c \<Rightarrow> t_permissions (thread_at s c) AND permission = 0)"

definition k_set_kernel_config :: "u32 \<Rightarrow> u32 \<Rightarrow> kstate \<Rightarrow> kstate" where
  "k_set_kernel_config enable disable s =
     (if k_has_no_permission TPERM_KCONFIG s then s
      else s\<lparr>kernel_config := (kernel_config s OR enable) AND NOT disable\<rparr>)"

definition is_valid_thread :: "int \<Rightarrow> kstate \<Rightarrow> bool" where
  "is_valid_thread tid s \<longleftrightarrow> 0 \<le> tid \<and> tid < int (MAX_THREADS s) \<and>
     t_id (thread_at s (nat tid)) \<noteq> INVALID_THREAD"

definition can_schedule_thread :: "int \<Rightarrow> kstate \<Rightarrow> bool" where
  "can_schedule_thread tid s \<longleftrightarrow> is_valid_thread tid s \<and>
     (let st = t_state (thread_at s (nat tid)) in st = suspended \<or> st = init \<or> st = running)"

definition k_get_thread_id :: "kstate \<Rightarrow> int" where
  "k_get_thread_id s =
     (case current_thread s of Some c \<Rightarrow> t_id (thread_at s c) | None \<Rightarrow> INVALID_THREAD)"

section \<open>Names\<close>

text \<open>
  The string in a character array: the bytes before the terminator. Copying a string into an
  array with \<open>strncpy\<close> writes at most \<open>num\<close> bytes and one terminator when there is room for
  it; the bytes behind the terminator stay as they were.
\<close>

definition cname :: "byte list \<Rightarrow> byte list" where
  "cname = takeWhile (\<lambda>b. b \<noteq> 0)"

definition name_string :: "byte list \<Rightarrow> string" where
  "name_string nm = map (\<lambda>b. char_of (unat b)) (cname nm)"

definition strncpy_array :: "byte list \<Rightarrow> byte list \<Rightarrow> nat \<Rightarrow> byte list" where
  "strncpy_array dst src num =
     (let bs = take num (cname src)
      in bs @ (if length bs < num then 0 # drop (Suc (length bs)) dst else drop num dst))"

definition k_set_thread_name :: "byte list option \<Rightarrow> Thread \<Rightarrow> Thread" where
  "k_set_thread_name name thread =
     (case name of
        Some nm \<Rightarrow> thread\<lparr>t_name := (strncpy_array (t_name thread) nm THREAD_NAME_MAX_LEN)[THREAD_NAME_MAX_LEN := 0]\<rparr>
      | None \<Rightarrow> thread\<lparr>t_name := (t_name thread)[0 := 0]\<rparr>)"

section \<open>Logging\<close>

definition serial_print :: "string \<Rightarrow> kstate \<Rightarrow> kstate" where
  "serial_print str s = s\<lparr>serial := serial s @ str\<rparr>"

definition colour_on :: "kstate \<Rightarrow> bool" where
  "colour_on s \<longleftrightarrow> kernel_config s AND KCFG_COLOUR_OUTPUT \<noteq> 0"

text \<open>\<open>event\<close> is the text of the event with its arguments already put in.\<close>

definition k_log_event :: "string \<Rightarrow> kstate \<Rightarrow> kstate" where
  "k_log_event event s =
     (if kernel_config s AND KCFG_LOG_THREADS = 0 then s
      else (let name = map_option (\<lambda>c. name_string (t_name (thread_at s c))) (current_thread s);
                thread_name = format_thread_name (k_get_thread_id s) name
            in serial_print ((if colour_on s then text_colour eYellow else []) @ ''Thread '' @
                 thread_name @ '':'' @ (if colour_on s then text_colour eReset else []) @ '' '' @
                 event @ [CHR 0x0A]) s))"

definition log_scheduler_event :: "string \<Rightarrow> kstate \<Rightarrow> kstate" where
  "log_scheduler_event event s =
     (if kernel_config s AND KCFG_LOG_SCHEDULER \<noteq> 0
      then serial_print ((if colour_on s then text_colour eYellow else []) @ ''Thread  <scheduler>:'' @
             (if colour_on s then text_colour eReset else []) @ '' '' @ event @ [CHR 0x0A]) s
      else s)"

section \<open>Frame facts\<close>

lemma upd_thread_simps [simp]:
  "length (all_threads (upd_thread i f s)) = length (all_threads s)"
  "current_thread (upd_thread i f s) = current_thread s"
  "next_thread (upd_thread i f s) = next_thread s"
  "user_thread_info (upd_thread i f s) = user_thread_info s"
  "kernel_config (upd_thread i f s) = kernel_config s"
  "backing_refs (upd_thread i f s) = backing_refs s"
  "block_tags (upd_thread i f s) = block_tags s"
  "memory (upd_thread i f s) = memory s"
  "serial (upd_thread i f s) = serial s"
  "host_calls (upd_thread i f s) = host_calls s"
  "build (upd_thread i f s) = build s"
  by (simp_all add: upd_thread_def)

lemma thread_at_upd:
  "thread_at (upd_thread i f s) j =
     (if i = j \<and> i < length (all_threads s) then f (thread_at s i) else thread_at s j)"
  by (cases "i = j") (auto simp: upd_thread_def list_update_beyond not_less)

lemma set_errno_simps [simp]:
  "all_threads (set_errno e s) = all_threads s"
  "current_thread (set_errno e s) = current_thread s"
  "next_thread (set_errno e s) = next_thread s"
  "u_err_no (user_thread_info (set_errno e s)) = e"
  "kernel_config (set_errno e s) = kernel_config s"
  "backing_refs (set_errno e s) = backing_refs s"
  "block_tags (set_errno e s) = block_tags s"
  "memory (set_errno e s) = memory s"
  "serial (set_errno e s) = serial s"
  "host_calls (set_errno e s) = host_calls s"
  "build (set_errno e s) = build s"
  by (simp_all add: set_errno_def)

lemma set_memory_simps [simp]:
  "all_threads (set_memory m s) = all_threads s"
  "current_thread (set_memory m s) = current_thread s"
  "next_thread (set_memory m s) = next_thread s"
  "user_thread_info (set_memory m s) = user_thread_info s"
  "kernel_config (set_memory m s) = kernel_config s"
  "backing_refs (set_memory m s) = backing_refs s"
  "block_tags (set_memory m s) = block_tags s"
  "memory (set_memory m s) = m"
  "serial (set_memory m s) = serial s"
  "host_calls (set_memory m s) = host_calls s"
  "build (set_memory m s) = build s"
  by (simp_all add: set_memory_def)

lemma serial_print_simps [simp]:
  "all_threads (serial_print str s) = all_threads s"
  "current_thread (serial_print str s) = current_thread s"
  "next_thread (serial_print str s) = next_thread s"
  "user_thread_info (serial_print str s) = user_thread_info s"
  "kernel_config (serial_print str s) = kernel_config s"
  "backing_refs (serial_print str s) = backing_refs s"
  "block_tags (serial_print str s) = block_tags s"
  "memory (serial_print str s) = memory s"
  "serial (serial_print str s) = serial s @ str"
  "host_calls (serial_print str s) = host_calls s"
  "build (serial_print str s) = build s"
  by (simp_all add: serial_print_def)

text \<open>Logging changes nothing but the output.\<close>

lemma log_simps [simp]:
  "all_threads (k_log_event e s) = all_threads s"
  "current_thread (k_log_event e s) = current_thread s"
  "next_thread (k_log_event e s) = next_thread s"
  "user_thread_info (k_log_event e s) = user_thread_info s"
  "kernel_config (k_log_event e s) = kernel_config s"
  "backing_refs (k_log_event e s) = backing_refs s"
  "block_tags (k_log_event e s) = block_tags s"
  "memory (k_log_event e s) = memory s"
  "host_calls (k_log_event e s) = host_calls s"
  "build (k_log_event e s) = build s"
  "all_threads (log_scheduler_event e s) = all_threads s"
  "current_thread (log_scheduler_event e s) = current_thread s"
  "next_thread (log_scheduler_event e s) = next_thread s"
  "user_thread_info (log_scheduler_event e s) = user_thread_info s"
  "kernel_config (log_scheduler_event e s) = kernel_config s"
  "backing_refs (log_scheduler_event e s) = backing_refs s"
  "block_tags (log_scheduler_event e s) = block_tags s"
  "memory (log_scheduler_event e s) = memory s"
  "host_calls (log_scheduler_event e s) = host_calls s"
  "build (log_scheduler_event e s) = build s"
  by (simp_all add: k_log_event_def log_scheduler_event_def Let_def)

text \<open>The checks look at the thread table and the current thread only.\<close>

lemma checks_cong:
  assumes "all_threads s' = all_threads s" and "current_thread s' = current_thread s"
  shows "is_valid_thread tid s' = is_valid_thread tid s"
    and "can_schedule_thread tid s' = can_schedule_thread tid s"
    and "k_get_thread_id s' = k_get_thread_id s"
    and "k_has_no_permission p s' = k_has_no_permission p s"
    and "MAX_THREADS s' = MAX_THREADS s"
  using assms
  by (simp_all add: is_valid_thread_def can_schedule_thread_def k_get_thread_id_def
      k_has_no_permission_def MAX_THREADS_def split: option.split)

lemma MAX_THREADS_upd [simp]: "MAX_THREADS (upd_thread i f s) = MAX_THREADS s"
  by (simp add: MAX_THREADS_def)

lemma can_schedule_valid: "can_schedule_thread tid s \<Longrightarrow> is_valid_thread tid s"
  by (simp add: can_schedule_thread_def)

lemma is_valid_thread_int:
  "is_valid_thread (int i) s \<longleftrightarrow> i < MAX_THREADS s \<and> t_id (thread_at s i) \<noteq> INVALID_THREAD"
  by (simp add: is_valid_thread_def)

lemma is_valid_threadE:
  assumes "is_valid_thread tid s"
  obtains i where "tid = int i" "i < MAX_THREADS s" "t_id (thread_at s i) \<noteq> INVALID_THREAD"
  using assms by (metis is_valid_thread_def is_valid_thread_int nonneg_int_cases)

section \<open>Well-formed threads\<close>

text \<open>
  What holds of one entry of the thread table at all times: its message buffer and name have
  their declared sizes, the name is terminated, and its message pointers point into the buffer.
\<close>

definition thread_ok :: "Thread \<Rightarrow> bool" where
  "thread_ok t \<longleftrightarrow>
     length (t_name t) = THREAD_NAME_SIZE \<and> 0 \<in> set (t_name t) \<and>
     length (t_messages t) = THREAD_MSG_QUEUE_SIZE \<and>
     t_next_msg t < THREAD_MSG_QUEUE_SIZE \<and> t_end_msgs t < THREAD_MSG_QUEUE_SIZE \<and>
     (t_msgs_full t \<longrightarrow> t_next_msg t = t_end_msgs t)"

lemma length_cname_le: "length (cname nm) \<le> length nm"
  by (simp add: cname_def length_takeWhile_le)

lemma length_strncpy_array:
  "num \<le> length dst \<Longrightarrow> length (strncpy_array dst src num) = length dst"
  by (auto simp: strncpy_array_def Let_def)

lemma name_length_simps: "THREAD_NAME_SIZE = 13" "THREAD_NAME_MAX_LEN = 12"
  by (simp_all add: THREAD_NAME_SIZE_def THREAD_NAME_MAX_LEN_def)

text \<open>Setting a name keeps the thread well-formed, and the name is the first 12 bytes of it.\<close>

lemma k_set_thread_name_ok:
  assumes "length (t_name t) = THREAD_NAME_SIZE"
  shows "length (t_name (k_set_thread_name name t)) = THREAD_NAME_SIZE"
    and "0 \<in> set (t_name (k_set_thread_name name t))"
proof -
  show len: "length (t_name (k_set_thread_name name t)) = THREAD_NAME_SIZE"
    using assms by (auto simp: k_set_thread_name_def length_strncpy_array name_length_simps split: option.splits)
  show "0 \<in> set (t_name (k_set_thread_name name t))"
    using assms len
    by (auto simp: k_set_thread_name_def length_strncpy_array name_length_simps
        intro!: set_update_memI split: option.splits)
qed

lemma k_set_thread_name_simps [simp]:
  "t_stack_ptr (k_set_thread_name n t) = t_stack_ptr t"
  "t_state (k_set_thread_name n t) = t_state t"
  "t_signal_handler (k_set_thread_name n t) = t_signal_handler t"
  "t_pending_signals (k_set_thread_name n t) = t_pending_signals t"
  "t_id (k_set_thread_name n t) = t_id t"
  "t_work (k_set_thread_name n t) = t_work t"
  "t_args (k_set_thread_name n t) = t_args t"
  "t_messages (k_set_thread_name n t) = t_messages t"
  "t_next_msg (k_set_thread_name n t) = t_next_msg t"
  "t_end_msgs (k_set_thread_name n t) = t_end_msgs t"
  "t_msgs_full (k_set_thread_name n t) = t_msgs_full t"
  "t_parent (k_set_thread_name n t) = t_parent t"
  "t_child (k_set_thread_name n t) = t_child t"
  "t_permissions (k_set_thread_name n t) = t_permissions t"
  "t_err_no (k_set_thread_name n t) = t_err_no t"
  "t_in_code_page (k_set_thread_name n t) = t_in_code_page t"
  "t_code_backing_page (k_set_thread_name n t) = t_code_backing_page t"
  "t_bottom_canary (k_set_thread_name n t) = t_bottom_canary t"
  "t_stack (k_set_thread_name n t) = t_stack t"
  "t_top_canary (k_set_thread_name n t) = t_top_canary t"
  by (simp_all add: k_set_thread_name_def split: option.splits)

lemma cname_append: "0 \<notin> set bs \<Longrightarrow> cname (bs @ 0 # xs) = bs"
  by (induction bs) (auto simp: cname_def)

lemma zero_notin_cname [simp]: "0 \<notin> set (cname nm)"
  by (auto simp: cname_def dest: set_takeWhileD)

text \<open>The name that comes out of setting one is the string cut to 12 bytes.\<close>

lemma cname_k_set_thread_name:
  assumes "length (t_name t) = THREAD_NAME_SIZE"
  shows "cname (t_name (k_set_thread_name (Some nm) t)) = take THREAD_NAME_MAX_LEN (cname nm)"
proof -
  let ?bs = "take THREAD_NAME_MAX_LEN (cname nm)"
  have nz: "0 \<notin> set ?bs" by (meson in_set_takeD zero_notin_cname)
  have "\<exists>xs. t_name (k_set_thread_name (Some nm) t) = ?bs @ 0 # xs"
  proof (cases "length ?bs < THREAD_NAME_MAX_LEN")
    case True
    then have "length (cname nm) < THREAD_NAME_MAX_LEN" by (simp add: min_def split: if_splits)
    then show ?thesis
      by (simp add: k_set_thread_name_def strncpy_array_def Let_def list_update_append split: nat.split)
  next
    case False
    then have "length ?bs = THREAD_NAME_MAX_LEN" by simp
    moreover have "length (drop THREAD_NAME_MAX_LEN (t_name t)) = Suc 0"
      using assms by (simp add: name_length_simps)
    then obtain x where "drop THREAD_NAME_MAX_LEN (t_name t) = [x]"
      by (metis length_0_conv length_Suc_conv)
    ultimately show ?thesis
      by (simp add: k_set_thread_name_def strncpy_array_def Let_def list_update_append)
  qed
  with nz show ?thesis by (auto simp: cname_append)
qed

lemma cname_k_set_thread_name_None:
  "length (t_name t) = THREAD_NAME_SIZE \<Longrightarrow> cname (t_name (k_set_thread_name None t)) = []"
  by (cases "t_name t") (auto simp: k_set_thread_name_def cname_def name_length_simps)

end
