(* ===== verification/Demo.thy ===== *)
theory Demo
  imports Kernel_State
begin

text \<open>
  A small concrete system on which the properties are instantiated: three threads (the first one
  running, the second suspended, the third not started yet), an empty heap, no code pages. With
  \<open>demo_paged\<close> the same threads have code pages and two backing pages.
\<close>

definition demo_build :: Build where
  "demo_build = \<lparr>b_code_page_size = 0, b_code_page = 0x60000, b_code_backing_pages = 0x70000,
     b_heap = 0x20000, b_thread_start = 0x8000, b_signal_handler_wrapper = 0x8100,
     b_signal_handler_wrapper_end = 0x8108, b_load_elf = 0x8200, b_setup = 0x8300, b_enum_size = 1,
     b_literal = (\<lambda>_. 0x9000), b_locals = 0xA000\<rparr>"

definition demo_thread :: "nat \<Rightarrow> ThreadState \<Rightarrow> Thread" where
  "demo_thread i st = \<lparr>t_stack_ptr = of_nat (0x10000 + i * 0x1000 + 0x700), t_state = st,
     t_signal_handler = 0x8400, t_pending_signals = 0, t_id = int i,
     t_name = replicate THREAD_NAME_SIZE 0, t_work = 0x8500, t_args = make_args 0 0 0 0,
     t_messages = replicate THREAD_MSG_QUEUE_SIZE \<lparr>msg_src = 0, msg_content = 0\<rparr>, t_next_msg = 0,
     t_end_msgs = 0, t_msgs_full = False, t_parent = - 1, t_child = - 1, t_permissions = 0xFFFF,
     t_err_no = 0, t_in_code_page = False, t_code_backing_page = 123456,
     t_bottom_canary = STACK_CANARY, t_stack = of_nat (0x10000 + i * 0x1000), t_top_canary = STACK_CANARY\<rparr>"

definition demo_state :: kstate where
  "demo_state = \<lparr>all_threads = [demo_thread 0 running, demo_thread 1 suspended, demo_thread 2 init],
     current_thread = Some 0, next_thread = None,
     user_thread_info = \<lparr>u_id = 0, u_name = replicate THREAD_NAME_SIZE 0, u_kernel_config = 0, u_err_no = 0\<rparr>,
     kernel_config = 0, backing_refs = [], block_tags = replicate 64 \<lparr>bt_tid = 0, bt_tag = 0\<rparr>,
     memory = (\<lambda>_. 0), serial = [], host_calls = [], build = demo_build\<rparr>"

definition demo_paged :: kstate where
  "demo_paged = demo_state\<lparr>build := demo_build\<lparr>b_code_page_size := 256\<rparr>, backing_refs := [0, 0]\<rparr>"

lemma demo_build_simps [simp]:
  "b_code_page_size demo_build = 0" "b_code_page demo_build = 0x60000"
  "b_code_backing_pages demo_build = 0x70000" "b_heap demo_build = 0x20000"
  "b_signal_handler_wrapper demo_build = 0x8100" "b_signal_handler_wrapper_end demo_build = 0x8108"
  "b_thread_start demo_build = 0x8000"
  by (simp_all add: demo_build_def)

lemma demo_thread_simps [simp]:
  "t_stack_ptr (demo_thread i st) = of_nat (0x10000 + i * 0x1000 + 0x700)"
  "t_state (demo_thread i st) = st" "t_signal_handler (demo_thread i st) = 0x8400"
  "t_pending_signals (demo_thread i st) = 0" "t_id (demo_thread i st) = int i"
  "t_name (demo_thread i st) = replicate THREAD_NAME_SIZE 0"
  "t_messages (demo_thread i st) = replicate THREAD_MSG_QUEUE_SIZE \<lparr>msg_src = 0, msg_content = 0\<rparr>"
  "t_next_msg (demo_thread i st) = 0" "t_end_msgs (demo_thread i st) = 0" "t_msgs_full (demo_thread i st) = False"
  "t_parent (demo_thread i st) = - 1" "t_child (demo_thread i st) = - 1"
  "t_permissions (demo_thread i st) = 0xFFFF" "t_code_backing_page (demo_thread i st) = 123456"
  "t_in_code_page (demo_thread i st) = False"
  "t_stack (demo_thread i st) = of_nat (0x10000 + i * 0x1000)"
  "t_bottom_canary (demo_thread i st) = STACK_CANARY" "t_top_canary (demo_thread i st) = STACK_CANARY"
  by (simp_all add: demo_thread_def)

lemma demo_state_simps [simp]:
  "all_threads demo_state = [demo_thread 0 running, demo_thread 1 suspended, demo_thread 2 init]"
  "current_thread demo_state = Some 0" "next_thread demo_state = None"
  "kernel_config demo_state = 0" "backing_refs demo_state = []"
  "block_tags demo_state = replicate 64 \<lparr>bt_tid = 0, bt_tag = 0\<rparr>"
  "memory demo_state = (\<lambda>_. 0)" "host_calls demo_state = []" "build demo_state = demo_build"
  "u_err_no (user_thread_info demo_state) = 0"
  by (simp_all add: demo_state_def)

lemma demo_thread_at [simp]:
  "thread_at demo_state 0 = demo_thread 0 running" "thread_at demo_state (Suc 0) = demo_thread 1 suspended"
  "thread_at demo_state 2 = demo_thread 2 init"
  by simp_all

lemma demo_MAX [simp]: "MAX_THREADS demo_state = 3"
  by (simp add: MAX_THREADS_def)

lemma demo_pages [simp]: "CODE_PAGE_SIZE demo_state = 0" "CODE_BACKING_PAGES demo_state = 0"
  by (simp_all add: CODE_PAGE_SIZE_def CODE_BACKING_PAGES_def)

lemma demo_thread_ok [simp]: "thread_ok (demo_thread i st)"
  by (simp add: thread_ok_def THREAD_NAME_SIZE_def THREAD_MSG_QUEUE_SIZE_def)

lemma demo_permission [simp]:
  "k_has_no_permission p demo_state \<longleftrightarrow> p AND 0xFFFF = 0"
  by (simp add: k_has_no_permission_def and.commute)

lemma demo_thread_id [simp]: "k_get_thread_id demo_state = 0"
  by (simp add: k_get_thread_id_def)

lemma demo_id: "i < 3 \<Longrightarrow> t_id (thread_at demo_state i) = int i"
  by (auto simp: less_Suc_eq numeral_3_eq_3)

lemma demo_valid [simp]:
  "is_valid_thread 0 demo_state" "is_valid_thread 1 demo_state" "is_valid_thread 2 demo_state"
  using demo_id [of 0] demo_id [of 1] demo_id [of 2]
  by (simp_all add: is_valid_thread_def INVALID_THREAD_def)

end
