(* ===== verification/Alloc.thy ===== *)
theory Alloc
  imports Demo
begin

text \<open>
  The heap, \<open>src/kernel/alloc.c\<close>: 2048 bytes in 64 blocks, with a tag per block. The tag of the
  first block of an allocation holds its length in blocks and its thread; every other tag is 0.
  \<open>SIZE_MAX\<close> as a tag index (the walk has ended, nothing was found) is \<open>None\<close>.
\<close>

section \<open>Operations\<close>

definition BLOCK_SIZE :: nat where "BLOCK_SIZE = 32"
definition HEAP_SIZE :: nat where "HEAP_SIZE = 2048"
definition NUM_BLOCKS :: nat where "NUM_BLOCKS = HEAP_SIZE div BLOCK_SIZE"

lemma heap_consts: "BLOCK_SIZE = 32" "HEAP_SIZE = 2048" "NUM_BLOCKS = 64"
  by (simp_all add: BLOCK_SIZE_def HEAP_SIZE_def NUM_BLOCKS_def)

definition heap_end :: "kstate \<Rightarrow> size_t" where
  "heap_end s = b_heap (build s) + of_nat HEAP_SIZE"

definition tag_at :: "BlockTag list \<Rightarrow> nat \<Rightarrow> nat" where
  "tag_at tags i = unat (bt_tag (tags ! i))"

definition next_tag :: "BlockTag list \<Rightarrow> nat \<Rightarrow> nat option" where
  "next_tag tags idx =
     (let idx = (if bt_tag (tags ! idx) \<noteq> 0 then idx + unat (bt_tag (tags ! idx)) else idx + 1)
      in if idx < NUM_BLOCKS then Some idx else None)"

lemma next_tag_less: "next_tag tags i = Some j \<Longrightarrow> i < j \<and> j < NUM_BLOCKS"
  by (auto simp: next_tag_def Let_def unat_gt_0 split: if_splits)

function find_free_loop :: "BlockTag list \<Rightarrow> nat \<Rightarrow> nat \<Rightarrow> nat \<Rightarrow> nat \<Rightarrow> nat option" where
  "find_free_loop tags num_blocks free_found start_idx current_idx =
     (if bt_tag (tags ! current_idx) \<noteq> 0 then
        (case next_tag tags current_idx of
           None \<Rightarrow> None
         | Some idx \<Rightarrow> find_free_loop tags num_blocks 0 idx idx)
      else if Suc free_found = num_blocks then Some start_idx
      else
        (case next_tag tags current_idx of
           None \<Rightarrow> None
         | Some idx \<Rightarrow> find_free_loop tags num_blocks (Suc free_found) start_idx idx))"
  by pat_completeness auto
termination
  by (relation "measure (\<lambda>(tags, n, ff, st, cur). NUM_BLOCKS - cur)") (auto dest!: next_tag_less)

declare find_free_loop.simps [simp del]

definition find_free_space :: "BlockTag list \<Rightarrow> size_t \<Rightarrow> nat option" where
  "find_free_space tags num_blocks = find_free_loop tags (unat num_blocks) 0 0 0"

definition pointer_to_tag_idx :: "size_t \<Rightarrow> kstate \<Rightarrow> nat" where
  "pointer_to_tag_idx ptr s = unat ((ptr - b_heap (build s)) div of_nat BLOCK_SIZE)"

definition to_blocks :: "size_t \<Rightarrow> size_t" where
  "to_blocks sz = (sz + of_nat BLOCK_SIZE - 1) div of_nat BLOCK_SIZE"

definition to_heap_ptr :: "nat \<Rightarrow> kstate \<Rightarrow> size_t" where
  "to_heap_ptr tag_idx s = b_heap (build s) + of_nat (tag_idx * BLOCK_SIZE)"

definition set_tag :: "nat \<Rightarrow> u16 \<Rightarrow> kstate \<Rightarrow> kstate" where
  "set_tag i tag s = s\<lparr>block_tags := (block_tags s)[i := (block_tags s ! i)\<lparr>bt_tag := tag\<rparr>]\<rparr>"

definition set_tid :: "nat \<Rightarrow> u16 \<Rightarrow> kstate \<Rightarrow> kstate" where
  "set_tid i tid s = s\<lparr>block_tags := (block_tags s)[i := (block_tags s ! i)\<lparr>bt_tid := tid\<rparr>]\<rparr>"

definition k_malloc :: "size_t \<Rightarrow> kstate \<Rightarrow> size_t kresult" where
  "k_malloc sz s =
     (if k_has_no_permission TPERM_ALLOC s then Ret NULL s
      else (let num_blocks = to_blocks sz in
        case find_free_space (block_tags s) num_blocks of
          Some alloc_idx \<Rightarrow>
            (let s = set_tag alloc_idx (ucast num_blocks) s;
                 s = set_tid alloc_idx (word_of_int (k_get_thread_id s)) s
             in Ret (to_heap_ptr alloc_idx s) s)
        | None \<Rightarrow> Ret NULL s))"

text \<open>The last test reads the tag of the block the pointer is in, which is undefined when there is
  no such block: the pointer may lie below the heap.\<close>

definition can_realloc_free :: "size_t \<Rightarrow> kstate \<Rightarrow> bool kresult" where
  "can_realloc_free ptr s =
     (let tag_idx = pointer_to_tag_idx ptr s in
      if ptr = NULL \<or> ptr \<ge> heap_end s then Ret False s
      else if tag_idx \<ge> length (block_tags s) then Undef
      else Ret (sint (bt_tid (block_tags s ! tag_idx)) = k_get_thread_id s) s)"

definition k_realloc :: "size_t \<Rightarrow> size_t \<Rightarrow> kstate \<Rightarrow> size_t kresult" where
  "k_realloc ptr sz s =
     (if k_has_no_permission TPERM_ALLOC s then Ret NULL s
      else if ptr = NULL then k_malloc sz s
      else obind (can_realloc_free ptr s) (\<lambda>can s.
        if \<not> can then Ret ptr s
        else (let num_blocks = to_blocks sz;
                  tag_idx = pointer_to_tag_idx ptr s;
                  old_tag = bt_tag (block_tags s ! tag_idx);
                  s = set_tag tag_idx 0 s
              in case find_free_space (block_tags s) num_blocks of
                   Some alloc_idx \<Rightarrow>
                     (let old_size = ucast old_tag * of_nat BLOCK_SIZE;
                          copy_size = (if sz < old_size then sz else old_size);
                          new_ptr = to_heap_ptr alloc_idx s;
                          s = set_memory (memcpy (memory s) new_ptr ptr copy_size) s;
                          s = set_tag alloc_idx (ucast num_blocks) s;
                          s = set_tid alloc_idx (word_of_int (k_get_thread_id s)) s
                      in Ret new_ptr s)
                 | None \<Rightarrow> Ret NULL (set_tag tag_idx old_tag s))))"

function free_all_loop :: "int \<Rightarrow> nat \<Rightarrow> BlockTag list \<Rightarrow> BlockTag list" where
  "free_all_loop tid current_idx tags =
     (let tags = (if bt_tag (tags ! current_idx) \<noteq> 0 \<and> sint (bt_tid (tags ! current_idx)) = tid
                  then tags[current_idx := (tags ! current_idx)\<lparr>bt_tag := 0\<rparr>] else tags)
      in case next_tag tags current_idx of None \<Rightarrow> tags | Some idx \<Rightarrow> free_all_loop tid idx tags)"
  by pat_completeness auto
termination
  by (relation "measure (\<lambda>(tid, cur, tags). NUM_BLOCKS - cur)") (auto dest!: next_tag_less)

declare free_all_loop.simps [simp del]

definition k_free_all :: "int \<Rightarrow> kstate \<Rightarrow> kstate" where
  "k_free_all tid s = s\<lparr>block_tags := free_all_loop tid 0 (block_tags s)\<rparr>"

definition k_free :: "size_t \<Rightarrow> kstate \<Rightarrow> unit kresult" where
  "k_free ptr s =
     (if k_has_no_permission TPERM_ALLOC s then Ret () s
      else obind (can_realloc_free ptr s) (\<lambda>can s.
        if \<not> can then Ret () s
        else (let tag_idx = pointer_to_tag_idx ptr s
              in Ret () (set_tid tag_idx 0 (set_tag tag_idx 0 s)))))"

section \<open>The heap in terms of allocations\<close>

text \<open>
  An allocation ends inside the heap and no tag inside it is set, so allocations do not overlap.
\<close>

definition heap_ok :: "BlockTag list \<Rightarrow> bool" where
  "heap_ok tags \<longleftrightarrow> length tags = NUM_BLOCKS \<and>
     (\<forall>i < NUM_BLOCKS. tag_at tags i \<noteq> 0 \<longrightarrow> i + tag_at tags i \<le> NUM_BLOCKS \<and>
        (\<forall>j. i < j \<and> j < i + tag_at tags i \<longrightarrow> tag_at tags j = 0))"

lemma heap_okI:
  assumes "length tags = NUM_BLOCKS"
    and "\<And>i. i < NUM_BLOCKS \<Longrightarrow> tag_at tags i \<noteq> 0 \<Longrightarrow> i + tag_at tags i \<le> NUM_BLOCKS"
    and "\<And>i j. i < NUM_BLOCKS \<Longrightarrow> tag_at tags i \<noteq> 0 \<Longrightarrow> i < j \<Longrightarrow> j < i + tag_at tags i \<Longrightarrow> tag_at tags j = 0"
  shows "heap_ok tags"
  using assms unfolding heap_ok_def by blast

lemma heap_okD:
  assumes "heap_ok tags"
  shows "length tags = NUM_BLOCKS"
    and "i < NUM_BLOCKS \<Longrightarrow> tag_at tags i \<noteq> 0 \<Longrightarrow> i + tag_at tags i \<le> NUM_BLOCKS"
    and "i < NUM_BLOCKS \<Longrightarrow> tag_at tags i \<noteq> 0 \<Longrightarrow> i < j \<Longrightarrow> j < i + tag_at tags i \<Longrightarrow> tag_at tags j = 0"
  using assms unfolding heap_ok_def by blast+

text \<open>The allocations of the heap: from the first block to the length and the thread.\<close>

definition allocs :: "BlockTag list \<Rightarrow> nat \<rightharpoonup> nat \<times> int" where
  "allocs tags i = (if i < length tags \<and> tag_at tags i \<noteq> 0
     then Some (tag_at tags i, sint (bt_tid (tags ! i))) else None)"

definition used :: "BlockTag list \<Rightarrow> nat \<Rightarrow> bool" where
  "used tags j \<longleftrightarrow> (\<exists>i \<le> j. i < length tags \<and> tag_at tags i \<noteq> 0 \<and> j < i + tag_at tags i)"

definition free_run :: "BlockTag list \<Rightarrow> nat \<Rightarrow> nat \<Rightarrow> bool" where
  "free_run tags i n \<longleftrightarrow> i + n \<le> NUM_BLOCKS \<and> (\<forall>j. i \<le> j \<and> j < i + n \<longrightarrow> \<not> used tags j)"

lemma used_tag: "tag_at tags i \<noteq> 0 \<Longrightarrow> i < length tags \<Longrightarrow> i \<le> j \<Longrightarrow> j < i + tag_at tags i \<Longrightarrow> used tags j"
  by (auto simp: used_def)

lemma bt_tag_0: "bt_tag (tags ! i) = 0 \<longleftrightarrow> tag_at tags i = 0"
  by (simp add: tag_at_def unat_eq_zero)

text \<open>The search returns the first place with enough free blocks, and finds one if there is one.\<close>

definition boundary :: "BlockTag list \<Rightarrow> nat \<Rightarrow> bool" where
  "boundary tags c \<longleftrightarrow> (\<forall>i < c. tag_at tags i \<noteq> 0 \<longrightarrow> i + tag_at tags i \<le> c)"

lemma boundary_unused: "boundary tags c \<Longrightarrow> tag_at tags c = 0 \<Longrightarrow> \<not> used tags c"
  unfolding boundary_def used_def by (metis le_neq_implies_less linorder_not_le)

lemma next_boundary:
  assumes ok: "heap_ok tags" and "boundary tags c" and c: "c < NUM_BLOCKS" and nt: "next_tag tags c = Some d"
  shows "boundary tags d"
  unfolding boundary_def
proof (intro allI impI)
  fix i assume i: "i < d" "tag_at tags i \<noteq> 0"
  have d: "d = (if tag_at tags c \<noteq> 0 then c + tag_at tags c else c + 1)"
    using nt by (auto simp: next_tag_def Let_def bt_tag_0 tag_at_def [symmetric] split: if_splits)
  consider "i < c" | "i = c" | "c < i" by linarith
  then show "i + tag_at tags i \<le> d"
  proof cases
    case 1
    then have "i + tag_at tags i \<le> c" using assms(2) i by (auto simp: boundary_def)
    then show ?thesis using next_tag_less [OF nt] by simp
  next
    case 2
    then show ?thesis using d i by simp
  next
    case 3
    have nz: "tag_at tags c \<noteq> 0"
    proof
      assume "tag_at tags c = 0"
      then have "d = c + 1" using d by simp
      with i(1) 3 show False by linarith
    qed
    then have "i < c + tag_at tags c" using d i(1) by (simp only: if_True simp_thms)
    then have "tag_at tags i = 0" using ok c 3 nz unfolding heap_ok_def by blast
    then show ?thesis using i by simp
  qed
qed

lemma find_free_loop_spec:
  assumes "heap_ok tags" and "0 < n" and "cur < NUM_BLOCKS" and "cur = st + ff" and "ff < n"
    and "boundary tags cur" and "\<forall>j. st \<le> j \<and> j < cur \<longrightarrow> \<not> used tags j"
    and "\<forall>i < st. \<not> free_run tags i n"
  shows "case find_free_loop tags n ff st cur of
      Some i \<Rightarrow> free_run tags i n \<and> (\<forall>i' < i. \<not> free_run tags i' n)
    | None \<Rightarrow> \<forall>i. \<not> free_run tags i n"
  using assms
proof (induction tags n ff st cur rule: find_free_loop.induct)
  case (1 tags n ff st cur)
  have len: "length tags = NUM_BLOCKS" using "1.prems" by (simp add: heap_ok_def)
  show ?case
  proof (cases "tag_at tags cur = 0")
    case False
    define d where "d = cur + tag_at tags cur"
    have no: "\<not> free_run tags i n" if i: "i < d" for i
    proof (cases "i < st")
      case True
      then show ?thesis using "1.prems" by blast
    next
      case le: False
      have "used tags (max i cur)"
        by (rule used_tag [OF False]) (use i "1.prems" False d_def len in auto)
      moreover have "i \<le> max i cur \<and> max i cur < i + n" using le "1.prems" by auto
      ultimately show ?thesis unfolding free_run_def by (meson max.cobounded1)
    qed
    show ?thesis
    proof (cases "next_tag tags cur")
      case None
      then have "NUM_BLOCKS \<le> d" using False
        by (auto simp: next_tag_def Let_def bt_tag_0 d_def tag_at_def split: if_splits)
      with no "1.prems"(2) have "\<forall>i. \<not> free_run tags i n"
        by (metis add_leD1 add_lessD1 free_run_def le_less_trans less_add_same_cancel1 linorder_not_less)
      with None False show ?thesis by (subst find_free_loop.simps) (simp add: bt_tag_0)
    next
      case (Some e)
      then have e: "e = d" using False
        by (auto simp: next_tag_def Let_def bt_tag_0 d_def tag_at_def split: if_splits)
      have "boundary tags e" using next_boundary [OF "1.prems"(1,6,3) Some] .
      with "1.IH"(1) [OF _ Some] "1.prems" False e no next_tag_less [OF Some]
      show ?thesis using Some by (subst find_free_loop.simps) (simp add: bt_tag_0)
    qed
  next
    case True
    have unused: "\<not> used tags cur" using boundary_unused "1.prems"(6) True by blast
    have free: "\<forall>j. st \<le> j \<and> j < Suc cur \<longrightarrow> \<not> used tags j"
      using unused "1.prems"(7) less_Suc_eq by auto
    show ?thesis
    proof (cases "Suc ff = n")
      case eq: True
      with free "1.prems" have "free_run tags st n" by (auto simp: free_run_def)
      with eq True "1.prems" show ?thesis by (subst find_free_loop.simps) (simp add: bt_tag_0)
    next
      case ne: False
      show ?thesis
      proof (cases "next_tag tags cur")
        case None
        then have "NUM_BLOCKS \<le> Suc cur" using True
          by (auto simp: next_tag_def Let_def bt_tag_0 split: if_splits)
        have "\<not> free_run tags i n" for i
        proof (cases "i < st")
          case True
          then show ?thesis using "1.prems" by blast
        next
          case False
          then have "NUM_BLOCKS < i + n" using \<open>NUM_BLOCKS \<le> Suc cur\<close> ne "1.prems" by linarith
          then show ?thesis by (simp add: free_run_def)
        qed
        with None True ne show ?thesis by (subst find_free_loop.simps) (simp add: bt_tag_0)
      next
        case (Some e)
        then have e: "e = Suc cur" using True
          by (auto simp: next_tag_def Let_def bt_tag_0 split: if_splits)
        have "boundary tags e" using next_boundary [OF "1.prems"(1,6,3) Some] .
        with "1.IH"(2) [OF _ ne Some] "1.prems" True e free ne next_tag_less [OF Some]
        show ?thesis using Some by (subst find_free_loop.simps) (simp add: bt_tag_0)
      qed
    qed
  qed
qed

lemma find_free_loop_0: "find_free_loop tags 0 ff st cur = None"
proof (induction tags "0::nat" ff st cur rule: find_free_loop.induct)
  case (1 tags ff st cur)
  then show ?case
    by (subst find_free_loop.simps) (auto split: option.split)
qed

lemma find_free_space_0: "find_free_space tags 0 = None"
  by (simp add: find_free_space_def find_free_loop_0)

lemma find_free_space_spec:
  assumes "heap_ok tags" and "n \<noteq> 0"
  shows "case find_free_space tags n of
      Some i \<Rightarrow> free_run tags i (unat n) \<and> (\<forall>i' < i. \<not> free_run tags i' (unat n))
    | None \<Rightarrow> \<forall>i. \<not> free_run tags i (unat n)"
  unfolding find_free_space_def
  by (rule find_free_loop_spec)
    (use assms in \<open>auto simp: boundary_def heap_consts unat_gt_0\<close>)

lemma find_free_space_Some:
  assumes "heap_ok tags" and "find_free_space tags n = Some i"
  shows "n \<noteq> 0" and "free_run tags i (unat n)" and "i + unat n \<le> NUM_BLOCKS" and "i < NUM_BLOCKS"
    and "\<forall>i' < i. \<not> free_run tags i' (unat n)"
proof -
  show n: "n \<noteq> 0" using assms(2) by (auto simp: find_free_space_0)
  show f: "free_run tags i (unat n)" and "\<forall>i' < i. \<not> free_run tags i' (unat n)"
    using find_free_space_spec [OF assms(1) n] assms(2) by auto
  show le: "i + unat n \<le> NUM_BLOCKS" using f by (simp add: free_run_def)
  have "0 < unat n" using n by (simp add: unat_gt_0)
  with le show "i < NUM_BLOCKS" by linarith
qed

lemma allocs_Some:
  "allocs tags i = Some (k, t) \<longleftrightarrow>
     i < length tags \<and> k = tag_at tags i \<and> k \<noteq> 0 \<and> t = sint (bt_tid (tags ! i))"
  by (auto simp: allocs_def)

lemma used_allocs: "used tags j \<longleftrightarrow> (\<exists>i k t. allocs tags i = Some (k, t) \<and> i \<le> j \<and> j < i + k)"
  by (auto simp: used_def allocs_Some)

text \<open>A free run keeps clear of every allocation.\<close>

lemma free_run_clear:
  assumes "heap_ok tags" and "free_run tags i n" and "0 < n" and "allocs tags j = Some (k, t)"
  shows "j + k \<le> i \<or> i + n \<le> j"
proof (rule ccontr)
  assume "\<not> (j + k \<le> i \<or> i + n \<le> j)"
  moreover have "0 < k" using assms(4) by (simp add: allocs_Some)
  ultimately have "i \<le> max i j \<and> max i j < i + n" and "j \<le> max i j \<and> max i j < j + k"
    using assms(3) by auto
  with assms(2,4) show False unfolding free_run_def used_allocs by blast
qed

section \<open>The interface of a block heap\<close>

text \<open>
  What the callers of the heap rely on: a search returns blocks that no allocation has, claiming
  them adds exactly that allocation and freeing takes exactly that one away. \<open>abs\<close> is the map
  from first blocks to lengths and owners.
\<close>

datatype heap_op = Malloc nat | Free nat

locale block_heap =
  fixes find_space :: "'h \<Rightarrow> nat \<Rightarrow> nat option"
    and claim :: "nat \<Rightarrow> nat \<Rightarrow> int \<Rightarrow> 'h \<Rightarrow> 'h"
    and release :: "nat \<Rightarrow> 'h \<Rightarrow> 'h"
    and abs :: "'h \<Rightarrow> nat \<rightharpoonup> nat \<times> int"
    and ok :: "'h \<Rightarrow> bool"
    and owner_ok :: "int \<Rightarrow> bool"
    and capacity :: nat
  assumes find_clear: "ok h \<Longrightarrow> find_space h n = Some i \<Longrightarrow> abs h j = Some (k, t) \<Longrightarrow> j + k \<le> i \<or> i + n \<le> j"
    and find_bound: "ok h \<Longrightarrow> find_space h n = Some i \<Longrightarrow> 0 < n \<and> i + n \<le> capacity"
    and claim_ok: "ok h \<Longrightarrow> find_space h n = Some i \<Longrightarrow> ok (claim i n t h)"
    and claim_abs: "ok h \<Longrightarrow> find_space h n = Some i \<Longrightarrow> owner_ok t \<Longrightarrow>
      abs (claim i n t h) = (abs h)(i \<mapsto> (n, t))"
    and release_ok: "ok h \<Longrightarrow> ok (release i h)"
    and release_abs: "ok h \<Longrightarrow> abs (release i h) = (abs h)(i := None)"
    and abs_pos: "ok h \<Longrightarrow> abs h i = Some (n, t) \<Longrightarrow> 0 < n"
begin

definition disjoint :: "(nat \<rightharpoonup> nat \<times> int) \<Rightarrow> bool" where
  "disjoint m \<longleftrightarrow> (\<forall>i j n k t u. m i = Some (n, t) \<longrightarrow> m j = Some (k, u) \<longrightarrow> i \<noteq> j \<longrightarrow>
     i + n \<le> j \<or> j + k \<le> i)"

fun step :: "int \<times> heap_op \<Rightarrow> 'h \<Rightarrow> 'h" where
  "step (t, Malloc n) h = (case find_space h n of Some i \<Rightarrow> claim i n t h | None \<Rightarrow> h)"
| "step (t, Free i) h =
     (case abs h i of Some (n, u) \<Rightarrow> if u = t then release i h else h | None \<Rightarrow> h)"

lemma step_ok: "ok h \<Longrightarrow> ok (step (t, c) h)"
  by (cases c) (auto simp: claim_ok release_ok split: option.split)

lemma disjoint_release: "disjoint m \<Longrightarrow> disjoint (m(i := None))"
  by (auto simp: disjoint_def)

lemma disjoint_claim:
  assumes "disjoint m" and "\<And>j k u. m j = Some (k, u) \<Longrightarrow> j + k \<le> i \<or> i + n \<le> j"
  shows "disjoint (m(i \<mapsto> (n, t)))"
  unfolding disjoint_def
proof (intro allI impI)
  fix a b x y p q
  assume a: "(m(i \<mapsto> (n, t))) a = Some (x, p)" and b: "(m(i \<mapsto> (n, t))) b = Some (y, q)" and ne: "a \<noteq> b"
  consider "a = i" | "b = i" | "a \<noteq> i" "b \<noteq> i" by blast
  then show "a + x \<le> b \<or> b + y \<le> a"
  proof cases
    case 1
    with a b ne assms(2) [of b y q] show ?thesis by auto
  next
    case 2
    with a b ne assms(2) [of a x p] show ?thesis by auto
  next
    case 3
    with a b ne assms(1) show ?thesis unfolding disjoint_def by auto
  qed
qed

lemma step_disjoint:
  "ok h \<Longrightarrow> owner_ok t \<Longrightarrow> disjoint (abs h) \<Longrightarrow> disjoint (abs (step (t, c) h))"
proof (cases c)
  case (Malloc n)
  assume "ok h" "owner_ok t" "disjoint (abs h)"
  with Malloc show ?thesis
    by (auto simp: claim_abs split: option.split intro!: disjoint_claim dest: find_clear)
next
  case (Free i)
  assume "ok h" "owner_ok t" "disjoint (abs h)"
  with Free show ?thesis by (auto simp: release_abs disjoint_release split: option.split)
qed

text \<open>What others do leaves an allocation where it is.\<close>

lemma step_keeps:
  assumes "ok h" and "owner_ok t" and "abs h i = Some (n, u)" and "u \<noteq> t"
  shows "abs (step (t, c) h) i = Some (n, u)"
proof (cases c)
  case (Malloc k)
  show ?thesis
  proof (cases "find_space h k")
    case (Some j)
    with find_clear [OF assms(1) Some assms(3)] find_bound [OF assms(1) Some] abs_pos [OF assms(1,3)]
    have "j \<noteq> i" by auto
    with Some Malloc assms show ?thesis by (simp add: claim_abs)
  next
    case None
    with Malloc assms show ?thesis by simp
  qed
next
  case (Free j)
  with assms show ?thesis by (cases "i = j") (auto simp: release_abs split: option.split)
qed

lemma run_ok: "ok h \<Longrightarrow> ok (fold step cs h)"
  by (induction cs arbitrary: h) (auto simp: step_ok)

lemma run_keeps:
  "ok h \<Longrightarrow> (\<And>t c. (t, c) \<in> set cs \<Longrightarrow> owner_ok t \<and> t \<noteq> u) \<Longrightarrow> abs h i = Some (n, u) \<Longrightarrow>
   abs (fold step cs h) i = Some (n, u)"
proof (induction cs arbitrary: h)
  case Nil
  then show ?case by simp
next
  case (Cons x cs)
  obtain t c where x: "x = (t, c)" by (cases x)
  with Cons.prems(2) [of t c] have "owner_ok t" "u \<noteq> t" by auto
  then have "ok (step x h)" and "abs (step x h) i = Some (n, u)"
    using Cons.prems x by (simp_all add: step_ok step_keeps)
  moreover have "owner_ok t' \<and> t' \<noteq> u" if "(t', c') \<in> set cs" for t' c'
    using Cons.prems(2) [of t' c'] that by simp
  ultimately show ?case using Cons.IH [of "step x h"] by simp
qed

end

section \<open>The block tags provide it\<close>

definition claim_tags :: "nat \<Rightarrow> nat \<Rightarrow> int \<Rightarrow> BlockTag list \<Rightarrow> BlockTag list" where
  "claim_tags i n t tags = tags[i := \<lparr>bt_tid = word_of_int t, bt_tag = of_nat n\<rparr>]"

definition release_tags :: "nat \<Rightarrow> BlockTag list \<Rightarrow> BlockTag list" where
  "release_tags i tags = tags[i := (tags ! i)\<lparr>bt_tag := 0\<rparr>]"

text \<open>Thread ids that a tag can hold.\<close>

definition tid16 :: "int \<Rightarrow> bool" where
  "tid16 t \<longleftrightarrow> - 32768 \<le> t \<and> t < 32768"

lemma sint_of_tid16: "tid16 t \<Longrightarrow> sint (word_of_int t :: u16) = t"
  by (simp add: tid16_def sint_sbintrunc' signed_take_bit_int_eq_self)

lemma tag_at_claim:
  "n < 65536 \<Longrightarrow> i < length tags \<Longrightarrow> tag_at (claim_tags i n t tags) j = (if j = i then n else tag_at tags j)"
  by (auto simp: tag_at_def claim_tags_def unat_of_nat take_bit_nat_eq_self)

lemma tag_at_release:
  "tag_at (release_tags i tags) j = (if j = i \<and> i < length tags then 0 else tag_at tags j)"
  by (cases "i < length tags") (auto simp: tag_at_def release_tags_def list_update_beyond)

lemma bt_tid_claim:
  "i < length tags \<Longrightarrow> bt_tid (claim_tags i n t tags ! j) = (if j = i then word_of_int t else bt_tid (tags ! j))"
  by (simp add: claim_tags_def nth_list_update_if)

lemma bt_tid_release [simp]: "bt_tid (release_tags i tags ! j) = bt_tid (tags ! j)"
  by (cases "i < length tags") (simp_all add: release_tags_def list_update_beyond nth_list_update_if)

lemma length_claim_release [simp]:
  "length (claim_tags i n t tags) = length tags" "length (release_tags i tags) = length tags"
  by (simp_all add: claim_tags_def release_tags_def)

lemma heap_ok_claim:
  assumes ok: "heap_ok tags" and free: "free_run tags i n" and n: "0 < n"
  shows "heap_ok (claim_tags i n t tags)"
proof -
  have len: "length tags = NUM_BLOCKS" using ok by (simp add: heap_ok_def)
  have b: "i + n \<le> NUM_BLOCKS" using free by (simp add: free_run_def)
  then have i: "i < length tags" and n16: "n < 65536" using n len by (auto simp: heap_consts)
  have tag: "tag_at (claim_tags i n t tags) j = (if j = i then n else tag_at tags j)" for j
    using tag_at_claim [OF n16 i] .
  have inner: "tag_at tags j = 0" if "i \<le> j" "j < i + n" for j
    using free that used_tag [of tags j j] b len by (force simp: free_run_def)
  have outer: "\<not> (i' < i \<and> i < i' + tag_at tags i')" for i'
    using free n used_tag [of tags i' i] i by (force simp: free_run_def)
  show ?thesis
  proof (rule heap_okI)
    fix j assume j: "j < NUM_BLOCKS" "tag_at (claim_tags i n t tags) j \<noteq> 0"
    show "j + tag_at (claim_tags i n t tags) j \<le> NUM_BLOCKS"
      using j b heap_okD(2) [OF ok] by (cases "j = i") (simp_all add: tag)
    fix k assume k: "j < k" "k < j + tag_at (claim_tags i n t tags) j"
    show "tag_at (claim_tags i n t tags) k = 0"
    proof (cases "j = i")
      case True
      with k inner [of k] show ?thesis by (simp add: tag)
    next
      case False
      with j k have k': "k < j + tag_at tags j" "tag_at tags j \<noteq> 0" by (simp_all add: tag)
      have "k \<noteq> i" using outer [of j] k(1) k'(1) by blast
      with heap_okD(3) [OF ok j(1) k'(2) k(1) k'(1)] show ?thesis by (simp add: tag)
    qed
  qed (use len in simp)
qed

lemma allocs_claim:
  assumes "heap_ok tags" and "free_run tags i n" and "0 < n" and "tid16 t"
  shows "allocs (claim_tags i n t tags) = (allocs tags)(i \<mapsto> (n, t))"
proof -
  have b: "i + n \<le> NUM_BLOCKS" and len: "length tags = NUM_BLOCKS"
    using assms by (auto simp: free_run_def heap_ok_def)
  then have i: "i < length tags" and n16: "n < 65536" using assms(3) by (auto simp: heap_consts)
  show ?thesis
    using i assms(3,4)
    by (simp add: allocs_def tag_at_claim [OF n16 i] bt_tid_claim [OF i] fun_eq_iff sint_of_tid16)
qed

lemma heap_ok_release: "heap_ok (release_tags i tags)" if "heap_ok tags"
proof (rule heap_okI)
  note ok = that
  show "length (release_tags i tags) = NUM_BLOCKS" using heap_okD(1) [OF ok] by simp
  fix j assume j: "j < NUM_BLOCKS" "tag_at (release_tags i tags) j \<noteq> 0"
  have tag: "tag_at (release_tags i tags) j = tag_at tags j"
  proof (rule ccontr)
    assume ne: "tag_at (release_tags i tags) j \<noteq> tag_at tags j"
    then have "tag_at (release_tags i tags) j = 0" by (metis tag_at_release)
    with j(2) show False by simp
  qed
  with j(2) have nz: "tag_at tags j \<noteq> 0" by simp
  show "j + tag_at (release_tags i tags) j \<le> NUM_BLOCKS" using heap_okD(2) [OF ok j(1) nz] tag by simp
  fix k assume k: "j < k" "k < j + tag_at (release_tags i tags) j"
  show "tag_at (release_tags i tags) k = 0"
    using heap_okD(3) [OF ok j(1) nz k(1)] k(2) tag by (simp add: tag_at_release)
qed

lemma heap_ok_cong:
  assumes len: "length tags' = length tags" and tag: "\<And>j. tag_at tags' j = tag_at tags j"
    and ok: "heap_ok tags"
  shows "heap_ok tags'"
  using ok unfolding heap_ok_def len tag .

lemma allocs_release: "allocs (release_tags i tags) = (allocs tags)(i := None)"
  by (simp add: allocs_def tag_at_release fun_eq_iff)

lemma of_nat_blocks: "n \<le> NUM_BLOCKS \<Longrightarrow> unat (of_nat n :: size_t) = n"
  by (simp add: heap_consts)

text \<open>The search for as many blocks as fit into a size.\<close>

definition find_blocks :: "BlockTag list \<Rightarrow> nat \<Rightarrow> nat option" where
  "find_blocks tags n = (if n < 2 ^ 32 then find_free_space tags (of_nat n) else None)"

lemma find_blocks_unat [simp]: "find_blocks tags (unat n) = find_free_space tags n"
  by (simp add: find_blocks_def)

lemma find_blocks_run:
  assumes "heap_ok tags" and "find_blocks tags n = Some i"
  shows "free_run tags i n \<and> 0 < n"
  using assms find_free_space_Some [OF assms(1), of "of_nat n" i]
  by (auto simp: find_blocks_def simp flip: unat_gt_0 split: if_splits)

interpretation bh: block_heap find_blocks claim_tags release_tags allocs heap_ok tid16 NUM_BLOCKS
proof unfold_locales
  fix h n i j k t
  assume ok: "heap_ok h" and f: "find_blocks h n = Some i"
  note run = find_blocks_run [OF ok f]
  show "0 < n \<and> i + n \<le> NUM_BLOCKS" using run by (simp add: free_run_def)
  show "heap_ok (claim_tags i n t h)" using run ok heap_ok_claim by blast
  show "tid16 t \<Longrightarrow> allocs (claim_tags i n t h) = (allocs h)(i \<mapsto> (n, t))"
    using run ok allocs_claim by blast
  show "allocs h j = Some (k, t) \<Longrightarrow> j + k \<le> i \<or> i + n \<le> j"
    using run ok free_run_clear by blast
qed (auto simp: heap_ok_release allocs_release allocs_Some)

lemma heap_disjoint: "heap_ok tags \<Longrightarrow> bh.disjoint (allocs tags)"
  unfolding bh.disjoint_def heap_ok_def allocs_Some
  by (metis leI less_imp_le_nat linorder_neqE_nat)

section \<open>The calls in terms of allocations\<close>

definition with_tags :: "(BlockTag list \<Rightarrow> BlockTag list) \<Rightarrow> kstate \<Rightarrow> kstate" where
  "with_tags f s = s\<lparr>block_tags := f (block_tags s)\<rparr>"

lemma with_tags_simps [simp]:
  "all_threads (with_tags f s) = all_threads s"
  "current_thread (with_tags f s) = current_thread s"
  "next_thread (with_tags f s) = next_thread s"
  "user_thread_info (with_tags f s) = user_thread_info s"
  "kernel_config (with_tags f s) = kernel_config s"
  "backing_refs (with_tags f s) = backing_refs s"
  "block_tags (with_tags f s) = f (block_tags s)"
  "memory (with_tags f s) = memory s"
  "serial (with_tags f s) = serial s"
  "host_calls (with_tags f s) = host_calls s"
  "build (with_tags f s) = build s"
  "k_get_thread_id (with_tags f s) = k_get_thread_id s"
  "k_has_no_permission p (with_tags f s) = k_has_no_permission p s"
  by (simp_all add: with_tags_def k_get_thread_id_def k_has_no_permission_def split: option.split)

lemma with_tags_comp: "with_tags f (with_tags g s) = with_tags (f \<circ> g) s"
  by (simp add: with_tags_def)

lemma set_tag_simps [simp]:
  "k_get_thread_id (set_tag i x s) = k_get_thread_id s"
  "build (set_tag i x s) = build s" "memory (set_tag i x s) = memory s"
  by (simp_all add: set_tag_def k_get_thread_id_def split: option.split)

lemma k_get_thread_id_set_memory [simp]: "k_get_thread_id (set_memory m s) = k_get_thread_id s"
  by (simp add: k_get_thread_id_def split: option.split)

lemma bt_record: "(t :: BlockTag)\<lparr>bt_tag := a, bt_tid := b\<rparr> = \<lparr>bt_tid = b, bt_tag = a\<rparr>"
  by (cases t) simp

lemma set_tag_tid:
  assumes "i < length (block_tags s)"
  shows "set_tid i (word_of_int t) (set_tag i (ucast (n :: size_t)) s) = with_tags (claim_tags i (unat n) t) s"
  using assms
  by (simp add: set_tag_def set_tid_def with_tags_def claim_tags_def bt_record)

lemma set_tag_release: "set_tag i 0 s = with_tags (release_tags i) s"
  by (simp add: set_tag_def with_tags_def release_tags_def)

lemma to_heap_ptr_tags [simp]:
  "to_heap_ptr i (set_tid j x s) = to_heap_ptr i s" "to_heap_ptr i (set_tag j y s) = to_heap_ptr i s"
  "to_heap_ptr i (with_tags f s) = to_heap_ptr i s"
  by (simp_all add: to_heap_ptr_def set_tid_def set_tag_def)

lemma k_malloc_eq:
  assumes "heap_ok (block_tags s)"
  shows "k_malloc sz s =
    (if k_has_no_permission TPERM_ALLOC s then Ret NULL s
     else case find_free_space (block_tags s) (to_blocks sz) of
       None \<Rightarrow> Ret NULL s
     | Some i \<Rightarrow> Ret (to_heap_ptr i s)
         (with_tags (claim_tags i (unat (to_blocks sz)) (k_get_thread_id s)) s))"
proof -
  have "i < length (block_tags s)" if "find_free_space (block_tags s) (to_blocks sz) = Some i" for i
    using find_free_space_Some [OF assms that] heap_okD(1) [OF assms] by simp
  then show ?thesis
    by (auto simp: k_malloc_def Let_def set_tag_tid split: option.split)
qed

text \<open>The heap is a region of the address space that does not include the NULL pointer.\<close>

definition heap_region :: "Build \<Rightarrow> bool" where
  "heap_region b \<longleftrightarrow> b_heap b \<noteq> 0 \<and> unat (b_heap b) + HEAP_SIZE < 2 ^ 32"

lemma unat_of_nat_times: "i \<le> NUM_BLOCKS \<Longrightarrow> unat (of_nat (i * BLOCK_SIZE) :: size_t) = i * BLOCK_SIZE"
  by (rule unat_of_nat32) (simp add: heap_consts)

lemma unat_heap_ptr:
  assumes "heap_region (build s)" and "i \<le> NUM_BLOCKS"
  shows "unat (to_heap_ptr i s) = unat (b_heap (build s)) + i * BLOCK_SIZE"
proof -
  have "i * BLOCK_SIZE \<le> HEAP_SIZE" using assms(2) by (simp add: heap_consts)
  then show ?thesis
    using assms unat_of_nat_times [OF assms(2)] unfolding to_heap_ptr_def heap_region_def
    by (subst unat_add32) linarith+
qed

lemma pointer_to_tag_idx_ptr [simp]:
  assumes "i < NUM_BLOCKS"
  shows "pointer_to_tag_idx (to_heap_ptr i s) s = i"
  using assms unat_of_nat_times [of i]
  by (simp add: pointer_to_tag_idx_def to_heap_ptr_def unat_div heap_consts del: of_nat_mult)

lemma heap_ptr_bounds:
  assumes "heap_region (build s)" and "i < NUM_BLOCKS"
  shows "to_heap_ptr i s \<noteq> NULL" and "to_heap_ptr i s < heap_end s"
proof -
  have "unat (heap_end s) = unat (b_heap (build s)) + 2048"
    using assms by (simp add: heap_end_def heap_region_def heap_consts unat_add32)
  then show "to_heap_ptr i s < heap_end s"
    using unat_heap_ptr [of s i] assms by (simp add: word_less_nat_alt heap_consts)
  show "to_heap_ptr i s \<noteq> NULL"
    using unat_heap_ptr [of s i] assms unat_eq_zero [of "b_heap (build s)"]
    by (auto simp: heap_region_def)
qed

lemma can_realloc_free_ptr:
  assumes "heap_ok (block_tags s)" and "heap_region (build s)" and "i < NUM_BLOCKS"
  shows "can_realloc_free (to_heap_ptr i s) s =
    Ret (sint (bt_tid (block_tags s ! i)) = k_get_thread_id s) s"
  using assms heap_ptr_bounds [OF assms(2,3)] heap_okD(1) [OF assms(1)]
  by (auto simp: can_realloc_free_def Let_def not_le)

lemma k_free_ptr:
  assumes "heap_ok (block_tags s)" and "heap_region (build s)" and "allocs (block_tags s) i = Some (n, t)"
  shows "k_free (to_heap_ptr i s) s =
    (if k_has_no_permission TPERM_ALLOC s \<or> t \<noteq> k_get_thread_id s then Ret () s
     else Ret () (with_tags (\<lambda>tags. tags[i := \<lparr>bt_tid = 0, bt_tag = 0\<rparr>]) s))"
proof -
  have i: "i < NUM_BLOCKS" "i < length (block_tags s)" "sint (bt_tid (block_tags s ! i)) = t"
    using assms by (auto simp: allocs_Some heap_okD(1))
  then have "pointer_to_tag_idx (to_heap_ptr i s) s = i" by simp
  then show ?thesis
    using i can_realloc_free_ptr [OF assms(1,2) i(1)]
    by (simp add: k_free_def Let_def set_tag_def set_tid_def with_tags_def bt_record)
qed

section \<open>Reallocation\<close>

lemma released_unused:
  assumes "heap_ok tags" and "allocs tags i = Some (n, t)" and "i \<le> x" and "x < i + n"
  shows "\<not> used (release_tags i tags) x"
proof
  assume "used (release_tags i tags) x"
  then obtain j k u where j: "allocs tags j = Some (k, u)" "j \<noteq> i" "j \<le> x" "x < j + k"
    by (auto simp: used_allocs allocs_release split: if_splits)
  with heap_disjoint [OF assms(1)] assms(2) have "i + n \<le> j \<or> j + k \<le> i"
    unfolding bh.disjoint_def by blast
  with j assms show False by linarith
qed

text \<open>With first fit, the new place is the old one, before it, or behind all of it.\<close>

lemma realloc_place:
  assumes "heap_ok tags" and "allocs tags i = Some (n, t)"
    and "find_free_space (release_tags i tags) m = Some j"
  shows "j \<le> i \<or> i + n \<le> j"
proof (rule ccontr)
  assume "\<not> (j \<le> i \<or> i + n \<le> j)"
  then have between: "i < j" "j < i + n" by auto
  note f = find_free_space_Some [OF heap_ok_release [OF assms(1)] assms(3)]
  have "free_run (release_tags i tags) i (unat m)"
    unfolding free_run_def
  proof (intro conjI allI impI)
    show "i + unat m \<le> NUM_BLOCKS" using f(3) between by simp
    fix x assume "i \<le> x \<and> x < i + unat m"
    then show "\<not> used (release_tags i tags) x"
    proof (cases "x < j")
      case True
      with \<open>i \<le> x \<and> x < i + unat m\<close> between show ?thesis
        by (intro released_unused [OF assms(1,2)]) auto
    next
      case False
      with \<open>i \<le> x \<and> x < i + unat m\<close> between have "j \<le> x \<and> x < j + unat m" by linarith
      with f(2) show ?thesis unfolding free_run_def by blast
    qed
  qed
  with f(5) between show False by blast
qed

lemma ptr_diff:
  assumes "i < NUM_BLOCKS" and "j < NUM_BLOCKS"
  shows "unat (to_heap_ptr j s - to_heap_ptr i s) =
    (if i \<le> j then (j - i) * BLOCK_SIZE else 2 ^ 32 - (i - j) * BLOCK_SIZE)"
proof -
  have "unat (to_heap_ptr j s - to_heap_ptr i s) = unat (of_nat (j * BLOCK_SIZE) - of_nat (i * BLOCK_SIZE) :: size_t)"
    by (simp add: to_heap_ptr_def)
  also have "\<dots> = (if i * BLOCK_SIZE \<le> j * BLOCK_SIZE then j * BLOCK_SIZE - i * BLOCK_SIZE
      else j * BLOCK_SIZE + 2 ^ 32 - i * BLOCK_SIZE)"
    using assms unat_of_nat_times [of i] unat_of_nat_times [of j] by (subst unat_sub_if') simp
  also have "\<dots> = (if i \<le> j then (j - i) * BLOCK_SIZE else 2 ^ 32 - (i - j) * BLOCK_SIZE)"
    using assms by (auto simp: heap_consts)
  finally show ?thesis .
qed

lemma k_realloc_ptr:
  assumes ok: "heap_ok (block_tags s)" and reg: "heap_region (build s)"
    and al: "allocs (block_tags s) i = Some (n, k_get_thread_id s)"
    and perm: "\<not> k_has_no_permission TPERM_ALLOC s"
  shows "k_realloc (to_heap_ptr i s) sz s =
    (case find_free_space (release_tags i (block_tags s)) (to_blocks sz) of
       None \<Rightarrow> Ret NULL s
     | Some j \<Rightarrow> Ret (to_heap_ptr j s)
         (set_memory (store_bytes (memory s) (to_heap_ptr j s)
              (load_bytes (memory s) (to_heap_ptr i s) (min (unat sz) (n * BLOCK_SIZE))))
           (with_tags (claim_tags j (unat (to_blocks sz)) (k_get_thread_id s) \<circ> release_tags i) s)))"
proof -
  let ?tags = "block_tags s" and ?t = "k_get_thread_id s" and ?p = "to_heap_ptr i s"
  let ?old = "bt_tag (?tags ! i)"
  have i: "i < NUM_BLOCKS" "i < length ?tags" "sint (bt_tid (?tags ! i)) = ?t" "n = tag_at ?tags i" "n \<noteq> 0"
    using al heap_okD(1) [OF ok] by (auto simp: allocs_Some)
  have n: "i + n \<le> NUM_BLOCKS" using heap_okD(2) [OF ok i(1)] i(4,5) by simp
  have idx: "pointer_to_tag_idx ?p s = i" using i(1) by simp
  have restore: "set_tag i ?old (set_tag i 0 s) = s"
    using i(2) by (simp add: set_tag_def)
  have old: "unat (ucast ?old * of_nat BLOCK_SIZE :: size_t) = n * BLOCK_SIZE"
  proof -
    have "ucast ?old = (of_nat n :: size_t)" using i(4) by (simp add: tag_at_def)
    then show ?thesis using unat_of_nat_times [of n] n by (simp flip: of_nat_mult)
  qed
  have size: "unat (if sz < ucast ?old * of_nat BLOCK_SIZE then sz else ucast ?old * of_nat BLOCK_SIZE)
      = min (unat sz) (n * BLOCK_SIZE)"
    using old by (simp add: word_less_nat_alt min_def)
  have copy: "memcpy (memory s) (to_heap_ptr j s) ?p
        (if sz < ucast ?old * of_nat BLOCK_SIZE then sz else ucast ?old * of_nat BLOCK_SIZE)
      = store_bytes (memory s) (to_heap_ptr j s) (load_bytes (memory s) ?p (min (unat sz) (n * BLOCK_SIZE)))"
    and j_len: "j < length (release_tags i ?tags)"
    if j: "find_free_space (release_tags i ?tags) (to_blocks sz) = Some j" for j
  proof -
    have jn: "j < NUM_BLOCKS" using find_free_space_Some(4) [OF heap_ok_release [OF ok] j] .
    then show "j < length (release_tags i ?tags)" using heap_okD(1) [OF ok] by simp
    have "min (unat sz) (n * BLOCK_SIZE) \<le> unat (to_heap_ptr j s - ?p) \<or> to_heap_ptr j s = ?p"
      using realloc_place [OF ok al j] n jn i(1) by (auto simp: ptr_diff heap_consts)
    then show "memcpy (memory s) (to_heap_ptr j s) ?p
        (if sz < ucast ?old * of_nat BLOCK_SIZE then sz else ucast ?old * of_nat BLOCK_SIZE)
      = store_bytes (memory s) (to_heap_ptr j s) (load_bytes (memory s) ?p (min (unat sz) (n * BLOCK_SIZE)))"
      using memcpy_eq size by metis
  qed
  have can: "can_realloc_free ?p s = Ret True s" and p0: "?p \<noteq> NULL"
    using heap_ptr_bounds [OF reg i(1)] can_realloc_free_ptr [OF ok reg i(1)] i(3) by simp_all
  show ?thesis
  proof (cases "find_free_space (release_tags i ?tags) (to_blocks sz)")
    case None
    then show ?thesis
      using perm can p0 restore by (simp add: k_realloc_def Let_def idx) (simp add: set_tag_release idx)
  next
    case (Some j)
    then show ?thesis
      using perm can p0 copy [OF Some] j_len [OF Some]
        set_tag_tid [of j "set_memory _ (with_tags (release_tags i) s)" ?t "to_blocks sz"]
      by (simp add: k_realloc_def Let_def idx set_tag_release)
  qed
qed

section \<open>Freeing everything a thread owns\<close>

definition tag_step :: "BlockTag list \<Rightarrow> nat \<Rightarrow> nat" where
  "tag_step tags i = (if tag_at tags i = 0 then i + 1 else i + tag_at tags i)"

lemma next_tag_eq:
  "next_tag tags i = (if tag_step tags i < NUM_BLOCKS then Some (tag_step tags i) else None)"
  by (simp add: next_tag_def tag_step_def Let_def bt_tag_0) (simp add: tag_at_def)

lemma next_tag_skip:
  assumes "heap_ok tags" and "cur < NUM_BLOCKS" and "cur < i" and "i < NUM_BLOCKS"
    and "next_tag tags cur = None \<or> (\<exists>d. next_tag tags cur = Some d \<and> i < d)"
  shows "tag_at tags i = 0"
proof -
  have "i < tag_step tags cur" using assms(3-5) by (auto simp: next_tag_eq split: if_splits)
  then show ?thesis
    using heap_okD(3) [OF assms(1,2) _ assms(3)] assms(3) by (simp add: tag_step_def split: if_splits)
qed

text \<open>The allocations without those of a thread from a block on.\<close>

definition drop_owned :: "int \<Rightarrow> nat \<Rightarrow> (nat \<rightharpoonup> nat \<times> int) \<Rightarrow> nat \<rightharpoonup> nat \<times> int" where
  "drop_owned tid c m i = (case m i of
     Some (n, t) \<Rightarrow> if c \<le> i \<and> t = tid then None else Some (n, t) | None \<Rightarrow> None)"

lemma free_all_loop_spec:
  "heap_ok tags \<Longrightarrow> cur < NUM_BLOCKS \<Longrightarrow>
   heap_ok (free_all_loop tid cur tags) \<and>
   allocs (free_all_loop tid cur tags) = drop_owned tid cur (allocs tags)"
proof (induction tid cur tags rule: free_all_loop.induct)
  case (1 tid cur tags)
  note ok = "1.prems"(1) and cur = "1.prems"(2)
  define tags' where "tags' = (if bt_tag (tags ! cur) \<noteq> 0 \<and> sint (bt_tid (tags ! cur)) = tid
    then tags[cur := (tags ! cur)\<lparr>bt_tag := 0\<rparr>] else tags)"
  have len: "length tags = NUM_BLOCKS" using heap_okD(1) [OF ok] .
  have ok': "heap_ok tags'" using ok heap_ok_release [OF ok, of cur] by (simp add: tags'_def release_tags_def)
  have al': "allocs tags' i = (if i = cur then drop_owned tid cur (allocs tags) i else allocs tags i)" for i
  proof (cases "bt_tag (tags ! cur) \<noteq> 0 \<and> sint (bt_tid (tags ! cur)) = tid")
    case True
    then have "tags' = release_tags cur tags" by (simp add: tags'_def release_tags_def)
    with True show ?thesis by (simp add: allocs_release drop_owned_def allocs_def)
  next
    case False
    then have "tags' = tags" unfolding tags'_def by (rule if_not_P)
    with False show ?thesis
      by (auto simp: drop_owned_def allocs_def bt_tag_0)
  qed
  have skip: "allocs tags i = None"
    if "cur < i" "next_tag tags' cur = None \<or> (\<exists>d. next_tag tags' cur = Some d \<and> i < d)" for i
  proof (cases "i < NUM_BLOCKS")
    case True
    then have "allocs tags' i = None"
      using next_tag_skip [OF ok' cur that(1) True that(2)] by (simp add: allocs_def)
    then show ?thesis using that(1) al' [of i] by simp
  qed (simp add: allocs_def len)
  have loop: "free_all_loop tid cur tags =
      (case next_tag tags' cur of None \<Rightarrow> tags' | Some d \<Rightarrow> free_all_loop tid d tags')"
    by (subst free_all_loop.simps) (simp only: tags'_def Let_def)
  have below: "drop_owned tid c m i = m i" if "i < c" for c i and m :: "nat \<rightharpoonup> nat \<times> int"
    using that by (simp add: drop_owned_def split: option.split)
  show ?case
  proof (cases "next_tag tags' cur")
    case None
    have "allocs tags' i = drop_owned tid cur (allocs tags) i" for i
      using al' [of i] below [of i cur] skip [of i] None
      by (cases i cur rule: linorder_cases) (simp_all add: drop_owned_def)
    with loop None ok' show ?thesis by (simp add: fun_eq_iff)
  next
    case (Some d)
    have d: "cur < d" "d < NUM_BLOCKS" using next_tag_less [OF Some] by auto
    have IH: "heap_ok (free_all_loop tid d tags') \<and>
        allocs (free_all_loop tid d tags') = drop_owned tid d (allocs tags')"
      by (rule "1.IH" [OF tags'_def Some ok' d(2)])
    have "drop_owned tid d (allocs tags') i = drop_owned tid cur (allocs tags) i" for i
    proof (cases "i < d")
      case True
      then show ?thesis
        using al' [of i] below [of i] skip [of i] Some
        by (cases i cur rule: linorder_cases) (simp_all add: drop_owned_def)
    next
      case False
      then show ?thesis using al' [of i] d by (simp add: drop_owned_def split: option.split)
    qed
    with IH loop Some show ?thesis by (simp add: fun_eq_iff)
  qed
qed

lemma k_free_all_allocs:
  assumes "heap_ok (block_tags s)"
  shows "heap_ok (block_tags (k_free_all tid s))"
    and "allocs (block_tags (k_free_all tid s)) = drop_owned tid 0 (allocs (block_tags s))"
  using free_all_loop_spec [OF assms, of 0 tid] by (simp_all add: k_free_all_def heap_consts)

lemma k_free_all_simps [simp]:
  "all_threads (k_free_all tid s) = all_threads s"
  "current_thread (k_free_all tid s) = current_thread s"
  "next_thread (k_free_all tid s) = next_thread s"
  "user_thread_info (k_free_all tid s) = user_thread_info s"
  "kernel_config (k_free_all tid s) = kernel_config s"
  "backing_refs (k_free_all tid s) = backing_refs s"
  "memory (k_free_all tid s) = memory s"
  "serial (k_free_all tid s) = serial s"
  "host_calls (k_free_all tid s) = host_calls s"
  "build (k_free_all tid s) = build s"
  by (simp_all add: k_free_all_def)

section \<open>Properties\<close>

lemma to_blocks_enough:
  assumes "to_blocks sz \<noteq> 0"
  shows "unat sz \<le> unat (to_blocks sz) * BLOCK_SIZE"
proof (cases "unat sz + 31 < 2 ^ 32")
  case True
  have u32: "unat (32 :: size_t) = 32" by simp
  have "unat (sz + 31) = unat sz + 31" using True by (subst unat_add32) simp_all
  moreover have "to_blocks sz = (sz + 31) div 32" by (simp add: to_blocks_def heap_consts add.commute)
  ultimately have "unat (to_blocks sz) = (unat sz + 31) div 32" by (simp only: unat_div u32)
  then show ?thesis by (simp add: heap_consts)
next
  case False
  have u31: "unat (31 :: size_t) = 31" and u32: "unat (32 :: size_t) = 32" by simp_all
  have "unat (sz + 31) = (unat sz + 31) mod 2 ^ 32"
    using unat_word_ariths(1) [of sz "31 :: size_t"] u31 by simp
  also have "\<dots> = unat sz + 31 - 2 ^ 32"
  proof -
    have p: "(2 :: nat) ^ 32 = 4294967296" by simp
    have "unat sz + 31 - 2 ^ 32 < 2 ^ 32" using unat_lt32 [of sz] unfolding p by linarith
    moreover have "2 ^ 32 \<le> unat sz + 31" using False by linarith
    ultimately show ?thesis by (simp only: le_mod_geq mod_less)
  qed
  finally have "unat (sz + 31) < 32" using unat_lt32 [of sz] by linarith
  moreover have "to_blocks sz = (sz + 31) div 32" by (simp add: to_blocks_def heap_consts add.commute)
  ultimately have "unat (to_blocks sz) = 0" by (simp only: unat_div u32 div_less)
  with assms show ?thesis by (simp add: unat_eq_zero)
qed

text \<open>C1: An allocation succeeds exactly when a run of enough free blocks exists for a size that is
  not zero; it then owns the first such run, which is big enough and disjoint from every other
  allocation, and nothing but the tags changes. Otherwise the result is NULL and nothing
  changes.\<close>

theorem k_malloc_correct:
  assumes "heap_ok (block_tags s)" and "\<not> k_has_no_permission TPERM_ALLOC s"
    and "tid16 (k_get_thread_id s)"
  shows "(\<exists>i n. k_malloc sz s = Ret (to_heap_ptr i s)
             (with_tags (claim_tags i n (k_get_thread_id s)) s) \<and>
           n = unat (to_blocks sz) \<and> 0 < n \<and> unat sz \<le> n * BLOCK_SIZE \<and> free_run (block_tags s) i n \<and>
           (\<forall>i' < i. \<not> free_run (block_tags s) i' n) \<and>
           heap_ok (claim_tags i n (k_get_thread_id s) (block_tags s)) \<and>
           allocs (claim_tags i n (k_get_thread_id s) (block_tags s)) =
             (allocs (block_tags s))(i \<mapsto> (n, k_get_thread_id s)) \<and>
           (\<forall>j k t. allocs (block_tags s) j = Some (k, t) \<longrightarrow> j + k \<le> i \<or> i + n \<le> j)) \<or>
         (k_malloc sz s = Ret NULL s \<and>
           (to_blocks sz = 0 \<or> (\<forall>i. \<not> free_run (block_tags s) i (unat (to_blocks sz)))))"
proof (cases "find_free_space (block_tags s) (to_blocks sz)")
  case None
  then have "k_malloc sz s = Ret NULL s" using k_malloc_eq [OF assms(1)] by simp
  moreover have "to_blocks sz = 0 \<or> (\<forall>i. \<not> free_run (block_tags s) i (unat (to_blocks sz)))"
    using find_free_space_spec [OF assms(1), of "to_blocks sz"] None by auto
  ultimately show ?thesis by blast
next
  case (Some i)
  let ?n = "unat (to_blocks sz)"
  note f = find_free_space_Some [OF assms(1) Some]
  have n: "0 < ?n" using f(1) by (simp add: unat_gt_0)
  have "k_malloc sz s = Ret (to_heap_ptr i s) (with_tags (claim_tags i ?n (k_get_thread_id s)) s)"
    using k_malloc_eq [OF assms(1)] Some assms(2) by simp
  with f n to_blocks_enough [OF f(1)] heap_ok_claim [OF assms(1) f(2) n] allocs_claim [OF assms(1) f(2) n assms(3)]
    free_run_clear [OF assms(1) f(2) n]
  show ?thesis by blast
qed

text \<open>C10: Freeing the start of an allocation removes exactly that allocation when the caller owns it
  and may allocate; another thread's call, or one without the permission, changes nothing.\<close>

theorem k_free_correct:
  assumes "heap_ok (block_tags s)" and "heap_region (build s)" and "allocs (block_tags s) i = Some (n, t)"
  shows "\<exists>s'. k_free (to_heap_ptr i s) s = Ret () s' \<and> heap_ok (block_tags s') \<and>
    (if t = k_get_thread_id s \<and> \<not> k_has_no_permission TPERM_ALLOC s
     then allocs (block_tags s') = (allocs (block_tags s))(i := None) else s' = s)"
proof -
  let ?f = "\<lambda>tags :: BlockTag list. tags[i := \<lparr>bt_tid = 0, bt_tag = 0\<rparr>]"
  have f: "tag_at (?f tags) j = tag_at (release_tags i tags) j" for tags j
    by (cases "i < length tags"; cases "j = i") (simp_all add: tag_at_def release_tags_def list_update_beyond)
  have ok: "heap_ok (?f (block_tags s))"
    by (rule heap_ok_cong [OF _ _ heap_ok_release [OF assms(1), of i]]) (simp_all add: f)
  have "allocs (?f (block_tags s)) = allocs (release_tags i (block_tags s))"
    by (rule ext) (auto simp: allocs_def f tag_at_release)
  with ok show ?thesis
    using k_free_ptr [OF assms] assms(1) by (auto simp: allocs_release)
qed

text \<open>C11: Reallocation of an allocation the caller owns either finds no space, returns NULL and
  changes nothing, or moves the allocation: the new one has room for the new size, the old one
  is gone (unless it is in the same place), the others stay, and its first bytes, as many as both
  sizes have, are the old ones, even when the two places overlap; no other byte changes.\<close>

theorem k_realloc_correct:
  assumes "heap_ok (block_tags s)" and "heap_region (build s)"
    and "allocs (block_tags s) i = Some (n, k_get_thread_id s)"
    and "\<not> k_has_no_permission TPERM_ALLOC s" and "tid16 (k_get_thread_id s)"
  shows "k_realloc (to_heap_ptr i s) sz s = Ret NULL s \<or>
    (\<exists>j s'. k_realloc (to_heap_ptr i s) sz s = Ret (to_heap_ptr j s) s' \<and> heap_ok (block_tags s') \<and>
       unat sz \<le> unat (to_blocks sz) * BLOCK_SIZE \<and>
       allocs (block_tags s') =
         (allocs (block_tags s))(i := None, j \<mapsto> (unat (to_blocks sz), k_get_thread_id s)) \<and>
       (\<forall>j' k t. j' \<noteq> i \<longrightarrow> allocs (block_tags s) j' = Some (k, t) \<longrightarrow>
          j' + k \<le> j \<or> j + unat (to_blocks sz) \<le> j') \<and>
       memory s' = store_bytes (memory s) (to_heap_ptr j s)
         (load_bytes (memory s) (to_heap_ptr i s) (min (unat sz) (n * BLOCK_SIZE))))"
proof (cases "find_free_space (release_tags i (block_tags s)) (to_blocks sz)")
  case None
  then show ?thesis using k_realloc_ptr [OF assms(1-4)] by simp
next
  case (Some j)
  have ok: "heap_ok (release_tags i (block_tags s))" by (rule heap_ok_release [OF assms(1)])
  note f = find_free_space_Some [OF ok Some]
  have n: "0 < unat (to_blocks sz)" using f(1) by (simp add: unat_gt_0)
  show ?thesis
    using k_realloc_ptr [OF assms(1-4), of sz] Some to_blocks_enough [OF f(1)]
      heap_ok_claim [OF ok f(2) n] allocs_claim [OF ok f(2) n assms(5)] free_run_clear [OF ok f(2) n]
    by (intro disjI2 exI [of _ j]) (simp add: allocs_release)
qed

text \<open>Freeing everything of a thread removes exactly the allocations that thread owns, wherever
  they are, and keeps those of all other threads.\<close>

theorem k_free_all_correct:
  assumes "heap_ok (block_tags s)"
  shows "heap_ok (block_tags (k_free_all tid s)) \<and>
    allocs (block_tags (k_free_all tid s)) i =
      (case allocs (block_tags s) i of
         Some (n, t) \<Rightarrow> if t = tid then None else Some (n, t) | None \<Rightarrow> None)"
  using k_free_all_allocs [OF assms] by (simp add: drop_owned_def split: option.split)

section \<open>Properties at a concrete heap\<close>

lemma demo_heap_ok: "heap_ok (block_tags demo_state)"
  by (rule heap_okI) (auto simp: tag_at_def heap_consts)

lemma demo_heap_region: "heap_region demo_build"
  by (simp add: heap_region_def heap_consts)

text \<open>The first thread has 64 bytes from the first block on.\<close>

definition demo_alloc :: kstate where
  "demo_alloc = with_tags (claim_tags 0 2 0) demo_state"

lemma demo_alloc_simps [simp]:
  "k_get_thread_id demo_alloc = 0" "k_has_no_permission p demo_alloc = k_has_no_permission p demo_state"
  "build demo_alloc = demo_build"
  by (simp_all add: demo_alloc_def)

lemma demo_free_run: "free_run (block_tags demo_state) 0 2"
  by (auto simp: free_run_def heap_consts used_def tag_at_def)

lemma demo_alloc_ok: "heap_ok (block_tags demo_alloc)"
  using heap_ok_claim [OF demo_heap_ok demo_free_run, of 0] by (simp add: demo_alloc_def)

lemma demo_alloc_allocs: "allocs (block_tags demo_alloc) = [0 \<mapsto> (2, 0)]"
proof -
  have "allocs (block_tags demo_state) = Map.empty"
    by (rule ext) (simp add: allocs_def tag_at_def)
  then show ?thesis
    using allocs_claim [OF demo_heap_ok demo_free_run, of 0] by (simp add: demo_alloc_def tid16_def)
qed

theorem k_malloc_witness:
  "(\<exists>i n. k_malloc 100 demo_state = Ret (to_heap_ptr i demo_state)
      (with_tags (claim_tags i n (k_get_thread_id demo_state)) demo_state)) \<or>
   k_malloc 100 demo_state = Ret NULL demo_state"
  using k_malloc_correct [OF demo_heap_ok, of 100] by (auto simp: TPERM_ALLOC_def tid16_def)

theorem k_free_witness:
  "\<exists>s'. k_free (to_heap_ptr 0 demo_alloc) demo_alloc = Ret () s' \<and> allocs (block_tags s') = Map.empty"
  using k_free_correct [OF demo_alloc_ok, of 0 2 0] demo_heap_region
  by (auto simp: demo_alloc_allocs TPERM_ALLOC_def)

theorem k_realloc_witness:
  "k_realloc (to_heap_ptr 0 demo_alloc) 100 demo_alloc = Ret NULL demo_alloc \<or>
   (\<exists>j s'. k_realloc (to_heap_ptr 0 demo_alloc) 100 demo_alloc = Ret (to_heap_ptr j demo_alloc) s' \<and>
      heap_ok (block_tags s'))"
  using k_realloc_correct [OF demo_alloc_ok, of 0 2 100] demo_heap_region
  by (auto simp: demo_alloc_allocs TPERM_ALLOC_def tid16_def)

theorem k_free_all_witness: "allocs (block_tags (k_free_all 0 demo_alloc)) 0 = None"
  using k_free_all_correct [OF demo_alloc_ok, of 0 0] by (simp add: demo_alloc_allocs)

end
