(* ===== verification/Signals.thy ===== *)
theory Signals
  imports Demo
begin

text \<open>
  Register contexts on thread stacks and signal delivery: \<open>src/kernel/signal_handling.c\<close> with the
  context layout of \<open>include/port/arm.h\<close> and the platform hook of \<open>src/hw/arm_virt/port.c\<close>. A
  context is 16 words at the thread's stack pointer.
\<close>

section \<open>Register contexts\<close>

definition REGISTER_CONTEXT_SIZE :: size_t where "REGISTER_CONTEXT_SIZE = 64"

text \<open>Offsets of the fields: the argument registers r0 to r3, r8 with the syscall number, pc, cpsr.\<close>

definition CTX_ARG0 :: size_t where "CTX_ARG0 = 0"
definition CTX_ARG1 :: size_t where "CTX_ARG1 = 4"
definition CTX_ARG2 :: size_t where "CTX_ARG2 = 8"
definition CTX_ARG3 :: size_t where "CTX_ARG3 = 12"
definition CTX_SYSCALL_NUM :: size_t where "CTX_SYSCALL_NUM = 32"
definition CTX_PC :: size_t where "CTX_PC = 56"
definition CTX_CPSR :: size_t where "CTX_CPSR = 60"

lemmas ctx_defs = REGISTER_CONTEXT_SIZE_def CTX_ARG0_def CTX_ARG1_def CTX_ARG2_def CTX_ARG3_def
  CTX_SYSCALL_NUM_def CTX_PC_def CTX_CPSR_def

definition PC_ADD_MODE :: "size_t \<Rightarrow> size_t" where
  "PC_ADD_MODE pc = pc"

definition PC_REMOVE_MODE :: "size_t \<Rightarrow> size_t" where
  "PC_REMOVE_MODE pc = pc"

text \<open>8 byte alignment.\<close>

definition ALIGN_STACK_PTR :: "size_t \<Rightarrow> size_t" where
  "ALIGN_STACK_PTR ptr = ptr AND NOT 7"

definition platform_init_register_context :: "mem \<Rightarrow> size_t \<Rightarrow> mem" where
  "platform_init_register_context m regs = store32 m (regs + CTX_CPSR) 0x10"

definition init_register_context :: "nat \<Rightarrow> kstate \<Rightarrow> kstate" where
  "init_register_context i s =
     (let sp = t_stack_ptr (thread_at s i) - REGISTER_CONTEXT_SIZE;
          m = memset (memory s) sp 0 REGISTER_CONTEXT_SIZE;
          m = store32 m (sp + CTX_PC) (b_thread_start (build s))
      in set_memory (platform_init_register_context m sp)
           (upd_thread i (\<lambda>t. t\<lparr>t_stack_ptr := sp\<rparr>) s))"

section \<open>Signals\<close>

definition install_signal_handler :: "nat \<Rightarrow> u32 \<Rightarrow> kstate \<Rightarrow> kstate" where
  "install_signal_handler i signal s0 =
     (let s = init_register_context i s0;
          handler_ctx = t_stack_ptr (thread_at s i);
          m = store32 (memory s) (handler_ctx + CTX_PC) (b_signal_handler_wrapper (build s));
          m = store32 m (handler_ctx + CTX_ARG0) signal;
          m = store32 m (handler_ctx + CTX_ARG1) (t_signal_handler (thread_at s i))
      in set_memory m s)"

function next_signal_loop :: "u32 \<Rightarrow> nat \<Rightarrow> u32" where
  "next_signal_loop pending_signals i =
     (if i < 32
      then if pending_signals AND push_bit i 1 \<noteq> 0 then of_nat i + 1
           else next_signal_loop pending_signals (Suc i)
      else 0)"
  by pat_completeness auto
termination
  by (relation "measure (\<lambda>(p, i). 32 - i)") auto

declare next_signal_loop.simps [simp del]

definition next_signal :: "u32 \<Rightarrow> u32" where
  "next_signal pending_signals = next_signal_loop pending_signals 0"

definition check_signals :: "nat \<Rightarrow> kstate \<Rightarrow> kstate" where
  "check_signals i s0 =
     (let s = (if load32 (memory s0) (t_stack_ptr (thread_at s0 i) + CTX_PC)
                    = PC_REMOVE_MODE (b_signal_handler_wrapper_end (build s0))
               then upd_thread i (\<lambda>t. t\<lparr>t_stack_ptr := t_stack_ptr t + REGISTER_CONTEXT_SIZE\<rparr>) s0
               else s0)
      in if t_pending_signals (thread_at s i) \<noteq> 0 then
           (let signal = next_signal (t_pending_signals (thread_at s i)) in
            if t_signal_handler (thread_at s i) \<noteq> 0 then
              upd_thread i (\<lambda>t. t\<lparr>t_pending_signals :=
                  t_pending_signals t AND NOT (push_bit (unat (signal - 1)) 1)\<rparr>)
                (install_signal_handler i signal s)
            else upd_thread i (\<lambda>t. t\<lparr>t_pending_signals := 0\<rparr>) s)
         else s)"

section \<open>The lowest pending signal\<close>

lemma and_push_bit_1: "(p AND push_bit i 1 \<noteq> (0 :: u32)) \<longleftrightarrow> i < 32 \<and> bit p i"
proof
  assume "p AND push_bit i 1 \<noteq> 0"
  then obtain n where "bit (p AND push_bit i 1) n" using bit_eqI [of "p AND push_bit i 1" 0] by auto
  then show "i < 32 \<and> bit p i" by (auto simp: bit_simps)
next
  assume "i < 32 \<and> bit p i"
  then have "bit (p AND push_bit i 1) i" by (auto simp: bit_simps)
  then show "p AND push_bit i 1 \<noteq> 0" by force
qed

lemma next_signal_loop_eq:
  "next_signal_loop p i =
     (if \<exists>n. i \<le> n \<and> n < 32 \<and> bit p n then of_nat (LEAST n. i \<le> n \<and> bit p n) + 1 else 0)"
proof (induction p i rule: next_signal_loop.induct)
  case (1 p i)
  show ?case
  proof (cases "i < 32 \<and> bit p i")
    case True
    then have "(LEAST n. i \<le> n \<and> bit p n) = i" by (intro Least_equality) auto
    moreover have "\<exists>n. i \<le> n \<and> n < 32 \<and> bit p n" using True by blast
    ultimately show ?thesis
      using True and_push_bit_1 [of p i] by (subst next_signal_loop.simps) simp
  next
    case False
    show ?thesis
    proof (cases "i < 32")
      case True
      with False have nb: "\<not> bit p i" by simp
      have "i \<le> n \<and> bit p n \<longleftrightarrow> Suc i \<le> n \<and> bit p n" for n
        using nb by (metis Suc_leD Suc_leI le_neq_implies_less)
      moreover have "i \<le> n \<and> n < 32 \<and> bit p n \<longleftrightarrow> Suc i \<le> n \<and> n < 32 \<and> bit p n" for n
        using nb by (metis Suc_leD Suc_leI le_neq_implies_less)
      ultimately show ?thesis
        using True nb and_push_bit_1 [of p i] 1 by (subst next_signal_loop.simps) auto
    next
      case False
      then show ?thesis by (subst next_signal_loop.simps) auto
    qed
  qed
qed

lemma ex_bit: "p \<noteq> (0 :: u32) \<Longrightarrow> \<exists>n < 32. bit p n"
proof (rule ccontr)
  assume nz: "p \<noteq> 0" and "\<not> (\<exists>n < 32. bit p n)"
  then have "p = 0" by (intro bit_eqI) auto
  with nz show False by simp
qed

text \<open>The number of the lowest set bit.\<close>

definition low_bit :: "u32 \<Rightarrow> nat" where
  "low_bit p = unat (next_signal p - 1)"

lemma next_signal_0 [simp]: "next_signal 0 = 0"
  by (simp add: next_signal_def next_signal_loop_eq)

lemma next_signal_spec:
  assumes "p \<noteq> 0"
  shows "low_bit p < 32" and "bit p (low_bit p)" and "\<And>n. n < low_bit p \<Longrightarrow> \<not> bit p n"
    and "next_signal p = of_nat (low_bit p) + 1"
proof -
  obtain n where n: "n < 32" "bit p n" using ex_bit [OF assms] by blast
  let ?l = "LEAST n. bit p n"
  have l: "?l < 32" using n by (meson Least_le le_less_trans)
  have eq: "next_signal p = of_nat ?l + 1"
    using n by (auto simp: next_signal_def next_signal_loop_eq)
  then have low: "low_bit p = ?l" using l by (simp add: low_bit_def)
  show "low_bit p < 32" using l low by simp
  show "bit p (low_bit p)" using n(2) low by (metis LeastI)
  show "\<And>n. n < low_bit p \<Longrightarrow> \<not> bit p n" using low not_less_Least by auto
  show "next_signal p = of_nat (low_bit p) + 1" using eq low by simp
qed

text \<open>Marking the signal as handled clears exactly that bit.\<close>

definition clear_low :: "u32 \<Rightarrow> u32" where
  "clear_low p = p AND NOT (push_bit (low_bit p) 1)"

lemma bit_clear_low: "bit (clear_low p) n \<longleftrightarrow> bit p n \<and> n \<noteq> low_bit p"
  by (auto simp: clear_low_def bit_simps dest: bit_imp_le_length)

section \<open>What delivery does\<close>

lemma init_register_context_simps [simp]:
  "length (all_threads (init_register_context i s)) = length (all_threads s)"
  "current_thread (init_register_context i s) = current_thread s"
  "next_thread (init_register_context i s) = next_thread s"
  "user_thread_info (init_register_context i s) = user_thread_info s"
  "kernel_config (init_register_context i s) = kernel_config s"
  "backing_refs (init_register_context i s) = backing_refs s"
  "block_tags (init_register_context i s) = block_tags s"
  "serial (init_register_context i s) = serial s"
  "host_calls (init_register_context i s) = host_calls s"
  "build (init_register_context i s) = build s"
  by (simp_all add: init_register_context_def Let_def)

lemma thread_at_init_register_context:
  "thread_at (init_register_context i s) j =
     (if i = j \<and> i < length (all_threads s)
      then (thread_at s i)\<lparr>t_stack_ptr := t_stack_ptr (thread_at s i) - REGISTER_CONTEXT_SIZE\<rparr>
      else thread_at s j)"
  by (simp add: init_register_context_def Let_def thread_at_upd)

text \<open>
  A fresh context is all zero but for the entry point and the user mode setting; the context
  that runs the signal handler enters the wrapper with the signal and the handler as arguments.
\<close>

definition fresh_context :: "Build \<Rightarrow> byte list" where
  "fresh_context b = replicate 56 0 @ bytes32 (b_thread_start b) @ bytes32 0x10"

definition handler_context :: "Build \<Rightarrow> u32 \<Rightarrow> size_t \<Rightarrow> byte list" where
  "handler_context b signal handler =
     bytes32 signal @ bytes32 handler @ replicate 48 0 @ bytes32 (b_signal_handler_wrapper b) @ bytes32 0x10"

lemma length_fresh_context [simp]: "length (fresh_context b) = 64"
  by (simp add: fresh_context_def)

lemma length_handler_context [simp]: "length (handler_context b sig h) = 64"
  by (simp add: handler_context_def)

lemma init_register_context_memory:
  "memory (init_register_context i s) =
     store_bytes (memory s) (t_stack_ptr (thread_at s i) - 64) (fresh_context (build s))"
proof -
  let ?sp = "t_stack_ptr (thread_at s i) - 64"
  have "replicate 64 (0 :: byte) = replicate 56 0 @ replicate 4 0 @ replicate 4 0"
    by (simp flip: replicate_add)
  then show ?thesis
    using store_bytes_within [of 56 "bytes32 (b_thread_start (build s))" "replicate 64 0" "memory s" ?sp]
      store_bytes_within [of 60 "bytes32 0x10" "replicate 56 0 @ bytes32 (b_thread_start (build s)) @ replicate 4 0"
        "memory s" ?sp]
    by (simp add: init_register_context_def Let_def memset_eq ctx_defs fresh_context_def store32_def
        platform_init_register_context_def)
qed

lemma install_signal_handler_eq:
  assumes "i < length (all_threads s)"
  shows "install_signal_handler i signal s =
    set_memory (store_bytes (memory s) (t_stack_ptr (thread_at s i) - 64)
        (handler_context (build s) signal (t_signal_handler (thread_at s i))))
      (upd_thread i (\<lambda>t. t\<lparr>t_stack_ptr := t_stack_ptr t - 64\<rparr>) s)"
proof -
  let ?sp = "t_stack_ptr (thread_at s i) - 64" and ?h = "t_signal_handler (thread_at s i)"
  let ?w = "b_signal_handler_wrapper (build s)"
  have r: "replicate 56 (0 :: byte) = replicate 4 0 @ replicate 4 0 @ replicate 48 0"
    by (simp flip: replicate_add)
  show ?thesis
    using store_bytes_within [of 56 "bytes32 ?w" "fresh_context (build s)" "memory s" ?sp]
      store_bytes_within [of 0 "bytes32 signal" "replicate 56 0 @ bytes32 ?w @ bytes32 0x10" "memory s" ?sp]
      store_bytes_within [of 4 "bytes32 ?h" "bytes32 signal @ replicate 4 0 @ replicate 48 0 @ bytes32 ?w @ bytes32 0x10" "memory s" ?sp]
    using assms
    by (simp add: install_signal_handler_def Let_def init_register_context_memory
        thread_at_init_register_context ctx_defs handler_context_def store32_def r fresh_context_def)
      (simp add: init_register_context_def Let_def set_memory_def upd_thread_def ctx_defs)
qed

section \<open>Delivering all signals\<close>

text \<open>The pending signals in ascending order, by bit number.\<close>

definition pending_bits :: "u32 \<Rightarrow> nat list" where
  "pending_bits p = filter (bit p) [0..<32]"

lemma pending_bits_0 [simp]: "pending_bits 0 = []"
  by (simp add: pending_bits_def)

lemma pending_bits_Cons:
  assumes "p \<noteq> 0"
  shows "pending_bits p = low_bit p # pending_bits (clear_low p)"
proof -
  let ?l = "low_bit p"
  note l = next_signal_spec [OF assms]
  have split: "[0..<32] = [0..<?l] @ ?l # [Suc ?l..<32]"
    using l(1) upt_add_eq_append [of 0 ?l "32 - ?l"] by (simp add: upt_conv_Cons)
  have low: "filter (bit p) [0..<?l] = []" "filter (bit (clear_low p)) [0..<?l] = []"
    using l(3) by (auto simp: filter_empty_conv bit_clear_low)
  have high: "filter (bit (clear_low p)) [Suc ?l..<32] = filter (bit p) [Suc ?l..<32]"
    by (rule filter_cong) (auto simp: bit_clear_low)
  show ?thesis
    unfolding pending_bits_def split using low high l(2) by (simp add: bit_clear_low)
qed

text \<open>
  A thread at rest: its interrupted context \<open>B\<close> is at \<open>sp0\<close>, and it is either the one to resume,
  or below it there is the context of a handler that has just finished.
\<close>

definition at_rest :: "nat \<Rightarrow> size_t \<Rightarrow> byte list \<Rightarrow> kstate \<Rightarrow> bool" where
  "at_rest i sp0 B s \<longleftrightarrow> i < length (all_threads s) \<and> load_bytes (memory s) sp0 64 = B \<and>
     load32 (memory s) (sp0 + 56) \<noteq> b_signal_handler_wrapper_end (build s) \<and>
     (t_stack_ptr (thread_at s i) = sp0 \<or>
      t_stack_ptr (thread_at s i) = sp0 - 64 \<and>
        load32 (memory s) (sp0 - 64 + 56) = b_signal_handler_wrapper_end (build s))"

lemma upd_thread_twice: "upd_thread i f (upd_thread i g s) = upd_thread i (\<lambda>t. f (g t)) s"
  by (cases "i < length (all_threads s)") (simp_all add: upd_thread_def list_update_beyond)

lemma upd_set_memory: "upd_thread i f (set_memory m s) = set_memory m (upd_thread i f s)"
  by (simp add: upd_thread_def set_memory_def)

lemma upd_thread_id: "f (thread_at s i) = thread_at s i \<Longrightarrow> upd_thread i f s = s"
  by (simp add: upd_thread_def)

lemma upd_thread_sp_same:
  assumes "t_stack_ptr (thread_at s i) = sp"
  shows "upd_thread i (\<lambda>t. t\<lparr>t_stack_ptr := sp\<rparr>) s = s"
  by (rule upd_thread_id) (simp flip: assms)

lemma upd_thread_cong_at:
  "f (thread_at s i) = g (thread_at s i) \<Longrightarrow> upd_thread i f s = upd_thread i g s"
  by (simp add: upd_thread_def)

text \<open>From rest, with nothing pending the thread is set to resume its context; otherwise the lowest
  signal's handler context is put right below it, and the signal's bit is cleared.\<close>

lemma check_signals_rest:
  assumes rest: "at_rest i sp0 B s" and h: "t_signal_handler (thread_at s i) \<noteq> 0"
  shows "check_signals i s =
    (if t_pending_signals (thread_at s i) = 0 then upd_thread i (\<lambda>t. t\<lparr>t_stack_ptr := sp0\<rparr>) s
     else set_memory (store_bytes (memory s) (sp0 - 64) (handler_context (build s)
              (next_signal (t_pending_signals (thread_at s i))) (t_signal_handler (thread_at s i))))
            (upd_thread i (\<lambda>t. t\<lparr>t_stack_ptr := sp0 - 64,
               t_pending_signals := clear_low (t_pending_signals t)\<rparr>) s))"
proof -
  let ?t = "thread_at s i"
  let ?s = "upd_thread i (\<lambda>t. t\<lparr>t_stack_ptr := sp0\<rparr>) s"
  have i: "i < length (all_threads s)" using rest by (simp add: at_rest_def)
  have pop: "(if load32 (memory s) (t_stack_ptr ?t + CTX_PC) = PC_REMOVE_MODE (b_signal_handler_wrapper_end (build s))
      then upd_thread i (\<lambda>t. t\<lparr>t_stack_ptr := t_stack_ptr t + REGISTER_CONTEXT_SIZE\<rparr>) s else s) = ?s"
  proof (cases "t_stack_ptr ?t = sp0")
    case True
    then show ?thesis
      using rest i upd_thread_sp_same [OF True] by (simp add: at_rest_def ctx_defs PC_REMOVE_MODE_def)
  next
    case False
    then have sp: "t_stack_ptr ?t = sp0 - 64"
      and pc: "load32 (memory s) (sp0 - 64 + 56) = b_signal_handler_wrapper_end (build s)"
      using rest by (auto simp: at_rest_def)
    have "upd_thread i (\<lambda>t. t\<lparr>t_stack_ptr := t_stack_ptr t + REGISTER_CONTEXT_SIZE\<rparr>) s = ?s"
      by (rule upd_thread_cong_at) (simp add: sp ctx_defs)
    then show ?thesis using sp pc by (simp add: ctx_defs PC_REMOVE_MODE_def)
  qed
  have low: "t_pending_signals ?t AND NOT (push_bit (unat (next_signal (t_pending_signals ?t) - 1)) 1) =
      clear_low (t_pending_signals ?t)"
    by (simp add: clear_low_def low_bit_def)
  show ?thesis
  proof (cases "t_pending_signals ?t = 0")
    case True
    have "t_pending_signals (thread_at ?s i) = 0" using True i by (simp add: thread_at_upd)
    then show ?thesis
      unfolding check_signals_def Let_def pop using True by (simp only: simp_thms if_False if_True not_True_eq_False)
  next
    case False
    have inst: "install_signal_handler i (next_signal (t_pending_signals ?t)) ?s =
      set_memory (store_bytes (memory s) (sp0 - 64) (handler_context (build s)
          (next_signal (t_pending_signals ?t)) (t_signal_handler ?t)))
        (upd_thread i (\<lambda>t. t\<lparr>t_stack_ptr := sp0 - 64\<rparr>) s)"
      using install_signal_handler_eq [of i ?s "next_signal (t_pending_signals ?t)"] i
      by (simp add: thread_at_upd upd_thread_twice)
    have "check_signals i s = upd_thread i (\<lambda>t. t\<lparr>t_pending_signals :=
          t_pending_signals t AND NOT (push_bit (unat (next_signal (t_pending_signals ?t) - 1)) 1)\<rparr>)
        (install_signal_handler i (next_signal (t_pending_signals ?t)) ?s)"
      unfolding check_signals_def Let_def pop using False h i by (simp add: thread_at_upd)
    moreover have "upd_thread i (\<lambda>t. t\<lparr>t_pending_signals :=
          t_pending_signals t AND NOT (push_bit (unat (next_signal (t_pending_signals ?t) - 1)) 1)\<rparr>)
        (upd_thread i (\<lambda>t. t\<lparr>t_stack_ptr := sp0 - 64\<rparr>) s) =
      upd_thread i (\<lambda>t. t\<lparr>t_stack_ptr := sp0 - 64, t_pending_signals := clear_low (t_pending_signals t)\<rparr>) s"
    proof -
      have keep: "t_pending_signals (t\<lparr>t_stack_ptr := x\<rparr>) = t_pending_signals t" for t :: Thread and x
        by simp
      show ?thesis unfolding upd_thread_twice by (rule upd_thread_cong_at) (simp only: keep low)
    qed
    ultimately show ?thesis
      using False by (simp only: inst upd_set_memory if_False)
  qed
qed

text \<open>
  A whole delivery: whenever a handler has been entered, it runs to its end, which is seen as its
  context with the program counter behind the wrapper; the run lists the signals handed over.
\<close>

fun signal_run :: "nat \<Rightarrow> nat \<Rightarrow> kstate \<Rightarrow> u32 list \<times> kstate" where
  "signal_run 0 i s = ([], s)"
| "signal_run (Suc k) i s =
     (let s1 = check_signals i s; sp = t_stack_ptr (thread_at s1 i) in
      if t_pending_signals (thread_at s i) = 0 then ([], s1)
      else
        (let (sigs, s2) = signal_run k i (set_memory (store32 (memory s1) (sp + CTX_PC)
               (b_signal_handler_wrapper_end (build s1))) s1)
         in (load32 (memory s1) (sp + CTX_ARG0) # sigs, s2)))"

lemma sp_offset_apart:
  fixes sp :: size_t
  shows "apart (sp - 64) 64 sp 64" and "apart (sp - 64 + 56) 4 sp 64"
  by (simp_all add: apart_def)

lemma load32_of_bytes: "load32 m (a + 56) = word32_of (take 4 (drop 56 (load_bytes m a 64)))"
proof -
  have "take 4 (drop 56 (load_bytes m a 64)) = load_bytes m (a + 56) 4"
    by (rule nth_equalityI) (simp_all add: add.assoc)
  then show ?thesis by (simp add: load32_def)
qed

lemma signal_run_rest:
  assumes "at_rest i sp0 B s" and "t_signal_handler (thread_at s i) \<noteq> 0"
    and "length (pending_bits (t_pending_signals (thread_at s i))) < k"
  shows "\<exists>s'. signal_run k i s = (map (\<lambda>n. of_nat n + 1) (pending_bits (t_pending_signals (thread_at s i))), s') \<and>
    thread_at s' i = (thread_at s i)\<lparr>t_stack_ptr := sp0, t_pending_signals := 0\<rparr> \<and>
    load_bytes (memory s') sp0 64 = B"
  using assms
proof (induction k arbitrary: s)
  case 0
  then show ?case by simp
next
  case (Suc k)
  let ?t = "thread_at s i" and ?p = "t_pending_signals (thread_at s i)"
  have i: "i < length (all_threads s)" using Suc.prems(1) by (simp add: at_rest_def)
  note cs = check_signals_rest [OF Suc.prems(1,2)]
  show ?case
  proof (cases "?p = 0")
    case True
    then show ?thesis
      using Suc.prems(1) i cs by (simp add: thread_at_upd at_rest_def)
  next
    case False
    let ?H = "handler_context (build s) (next_signal ?p) (t_signal_handler ?t)"
    let ?m = "store_bytes (memory s) (sp0 - 64) ?H"
    let ?s1 = "set_memory ?m (upd_thread i (\<lambda>t. t\<lparr>t_stack_ptr := sp0 - 64,
        t_pending_signals := clear_low (t_pending_signals t)\<rparr>) s)"
    have s1: "check_signals i s = ?s1" using cs False by simp
    have sp: "t_stack_ptr (thread_at ?s1 i) = sp0 - 64" using i by (simp add: thread_at_upd)
    let ?m2 = "store32 ?m (sp0 - 64 + 56) (b_signal_handler_wrapper_end (build s))"
    let ?s2 = "set_memory ?m2 ?s1"
    have ctx: "load_bytes ?m2 sp0 64 = load_bytes (memory s) sp0 64"
      using sp_offset_apart [of sp0] by (simp add: store32_def mem_simps)
    have pc0: "load32 ?m2 (sp0 + 56) = load32 (memory s) (sp0 + 56)"
      using ctx by (simp add: load32_of_bytes)
    have rest2: "at_rest i sp0 B ?s2"
      using Suc.prems(1) ctx pc0 i by (simp add: at_rest_def thread_at_upd load32_store32_same)
    have t2: "thread_at ?s2 i = ?t\<lparr>t_stack_ptr := sp0 - 64, t_pending_signals := clear_low ?p\<rparr>"
      using i by (simp add: thread_at_upd)
    have "length (pending_bits (clear_low ?p)) < k"
      using Suc.prems(3) pending_bits_Cons [OF False] by simp
    with Suc.IH [OF rest2] t2 Suc.prems(2) obtain s' where IH:
      "signal_run k i ?s2 = (map (\<lambda>n. of_nat n + 1) (pending_bits (clear_low ?p)), s')"
      "thread_at s' i = ?t\<lparr>t_stack_ptr := sp0, t_pending_signals := 0\<rparr>" "load_bytes (memory s') sp0 64 = B"
      by auto
    have "load32 ?m (sp0 - 64) = next_signal ?p"
    proof -
      have "load_bytes ?m (sp0 - 64 + of_nat 0) 4 = take 4 (drop 0 ?H)"
        by (rule load_bytes_within) simp_all
      then show ?thesis by (simp add: load32_def handler_context_def)
    qed
    then have "load32 ?m (sp0 - 64) = of_nat (low_bit ?p) + 1"
      using next_signal_spec(4) [OF False] by simp
    then show ?thesis
      using IH False s1 sp pending_bits_Cons [OF False]
      by (simp add: Let_def ctx_defs)
  qed
qed

section \<open>Properties\<close>

text \<open>C9: Signals interrupt a thread without a trace: when a thread that is not in a handler is
  switched to, every pending signal is delivered exactly once, in ascending order, each handler
  being entered with its signal; then the thread resumes the very context it was interrupted in,
  at the stack pointer it had, with nothing pending.\<close>

theorem signals_delivered:
  assumes "i < length (all_threads s)" and "t_signal_handler (thread_at s i) \<noteq> 0"
    and "load32 (memory s) (t_stack_ptr (thread_at s i) + 56) \<noteq> b_signal_handler_wrapper_end (build s)"
  shows "\<exists>s'. signal_run 33 i s =
      (map (\<lambda>n. of_nat n + 1) (filter (bit (t_pending_signals (thread_at s i))) [0..<32]), s') \<and>
    t_stack_ptr (thread_at s' i) = t_stack_ptr (thread_at s i) \<and> t_pending_signals (thread_at s' i) = 0 \<and>
    load_bytes (memory s') (t_stack_ptr (thread_at s i)) 64 =
      load_bytes (memory s) (t_stack_ptr (thread_at s i)) 64"
proof -
  have "length (pending_bits p) < 33" for p
    using length_filter_le [of "bit p" "[0..<32]"] by (simp add: pending_bits_def)
  moreover have "at_rest i (t_stack_ptr (thread_at s i))
      (load_bytes (memory s) (t_stack_ptr (thread_at s i)) 64) s"
    using assms by (simp add: at_rest_def)
  ultimately obtain s' where "signal_run 33 i s =
      (map (\<lambda>n. of_nat n + 1) (pending_bits (t_pending_signals (thread_at s i))), s')"
    "thread_at s' i = (thread_at s i)\<lparr>t_stack_ptr := t_stack_ptr (thread_at s i), t_pending_signals := 0\<rparr>"
    "load_bytes (memory s') (t_stack_ptr (thread_at s i)) 64 =
      load_bytes (memory s) (t_stack_ptr (thread_at s i)) 64"
    using signal_run_rest assms(2) by blast
  then show ?thesis by (simp add: pending_bits_def)
qed

definition demo_signals :: kstate where
  "demo_signals = upd_thread 1 (\<lambda>t. t\<lparr>t_pending_signals := 0x80000005\<rparr>) demo_state"

theorem signals_delivered_witness:
  "\<exists>s'. signal_run 33 1 demo_signals = ([1, 3, 32], s') \<and>
     t_stack_ptr (thread_at s' 1) = 0x11700 \<and> t_pending_signals (thread_at s' 1) = 0"
proof -
  have t: "thread_at demo_signals 1 = (demo_thread 1 suspended)\<lparr>t_pending_signals := 0x80000005\<rparr>"
    "build demo_signals = demo_build" "memory demo_signals = (\<lambda>_. 0)" "length (all_threads demo_signals) = 3"
    by (simp_all add: demo_signals_def thread_at_upd)
  have bits: "filter (bit (0x80000005 :: u32)) [0..<32] = [0, 2, 31]"
    by code_simp
  have "load32 (\<lambda>_. 0) a = 0" for a
    by (simp add: load32_def load_bytes_def word32_of_def upt_rec)
  then show ?thesis
    using signals_delivered [of 1 demo_signals] t bits by auto
qed

text \<open>Signals sent to a thread that has no handler are dropped when it is switched to: they do
  not accumulate for a handler set later, and nothing else changes.\<close>

theorem signals_dropped:
  assumes "i < length (all_threads s)" and "t_signal_handler (thread_at s i) = 0"
    and "load32 (memory s) (t_stack_ptr (thread_at s i) + 56) \<noteq> b_signal_handler_wrapper_end (build s)"
  shows "check_signals i s = upd_thread i (\<lambda>t. t\<lparr>t_pending_signals := 0\<rparr>) s"
proof (cases "t_pending_signals (thread_at s i) = 0")
  case True
  then have "upd_thread i (\<lambda>t. t\<lparr>t_pending_signals := 0\<rparr>) s = s"
    by (intro upd_thread_id) (simp flip: True)
  then show ?thesis using True assms by (simp add: check_signals_def Let_def ctx_defs PC_REMOVE_MODE_def)
next
  case False
  then show ?thesis using assms by (simp add: check_signals_def Let_def ctx_defs PC_REMOVE_MODE_def)
qed

theorem signals_dropped_witness:
  "t_pending_signals (thread_at (check_signals 1
     (upd_thread 1 (\<lambda>t. t\<lparr>t_signal_handler := 0\<rparr>) demo_signals)) 1) = 0"
proof -
  have "load32 (\<lambda>_. 0) a = 0" for a
    by (simp add: load32_def load_bytes_def word32_of_def upt_rec)
  then show ?thesis
    by (subst signals_dropped) (simp_all add: demo_signals_def thread_at_upd)
qed

end
