(* ===== verification/Scheduler.thy ===== *)
theory Scheduler
  imports Alloc Signals
begin

text \<open>
  The scheduler and what changes the state of a thread: the second part of
  \<open>src/kernel/thread.c\<close>, from swapping code pages to yielding, waiting, waking and cancelling.
  The lemmas show when a thread is chosen and what a switch does to the thread table.
\<close>

section \<open>Code pages\<close>

definition INVALID_PAGE :: size_t where
  "INVALID_PAGE = 123456"

text \<open>The data of a backing page, behind its reference count in the packed structure.\<close>

definition backing_data :: "size_t \<Rightarrow> kstate \<Rightarrow> size_t" where
  "backing_data page s =
     b_code_backing_pages (build s) + page * (of_nat (CODE_PAGE_SIZE s) + 1) + 1"

text \<open>Copies between the code page and a backing page, undefined for a page that does not exist.\<close>

definition page_in :: "size_t \<Rightarrow> kstate \<Rightarrow> unit kresult" where
  "page_in page s =
     (if unat page < CODE_BACKING_PAGES s
      then Ret () (set_memory (memcpy (memory s) (b_code_page (build s)) (backing_data page s)
             (of_nat (CODE_PAGE_SIZE s))) s)
      else Undef)"

definition page_out :: "size_t \<Rightarrow> kstate \<Rightarrow> unit kresult" where
  "page_out page s =
     (if unat page < CODE_BACKING_PAGES s
      then Ret () (set_memory (memcpy (memory s) (backing_data page s) (b_code_page (build s))
             (of_nat (CODE_PAGE_SIZE s))) s)
      else Undef)"

definition swap_paged_threads :: "nat option \<Rightarrow> nat option \<Rightarrow> kstate \<Rightarrow> unit kresult" where
  "swap_paged_threads current next s0 =
     (if current = next then Ret () s0
      else case (current, next) of
        (Some c, None) \<Rightarrow> page_in (t_code_backing_page (thread_at s0 c)) s0
      | (_, Some n) \<Rightarrow>
          obind (case current of
                   Some c \<Rightarrow>
                     if t_code_backing_page (thread_at s0 c) \<noteq> INVALID_PAGE
                     then page_out (t_code_backing_page (thread_at s0 c)) s0 else Ret () s0
                 | None \<Rightarrow> Ret () s0)
            (\<lambda>_ s. if t_code_backing_page (thread_at s n) \<noteq> INVALID_PAGE
                   then page_in (t_code_backing_page (thread_at s n)) s else Ret () s)
      | (None, None) \<Rightarrow> Undef)"

section \<open>Choosing a thread\<close>

definition next_possible_thread_idx :: "nat option \<Rightarrow> kstate \<Rightarrow> nat" where
  "next_possible_thread_idx cur s =
     (case cur of
        Some c \<Rightarrow>
          (let child = t_child (thread_at s c); parent = t_parent (thread_at s c) in
           if is_valid_thread child s \<and> can_schedule_thread child s then nat child
           else if is_valid_thread parent s \<and> can_schedule_thread parent s then nat parent
           else c + 1)
      | None \<Rightarrow> 0)"

definition k_printf :: "string \<Rightarrow> va_arg list \<Rightarrow> kstate \<Rightarrow> unit kresult" where
  "k_printf fmt args s =
     (case sprintf fmt args of Some str \<Rightarrow> Ret () (serial_print str s) | None \<Rightarrow> Undef)"

function choose_loop :: "nat \<Rightarrow> nat \<Rightarrow> kstate \<Rightarrow> nat option kresult" where
  "choose_loop idx max_thread_idx s =
     (if idx < max_thread_idx then
        (let ix = idx mod MAX_THREADS s in
         if \<not> can_schedule_thread (int ix) s then choose_loop (Suc idx) max_thread_idx s
         else if (word_of_int (t_id (thread_at s ix)) :: size_t) \<noteq> of_nat ix then
           obind (k_printf (''thread ID %u and position %u inconsistent!'' @ [CHR 0x0A])
                    [VNum (of_nat ix), VNum (word_of_int (t_id (thread_at s ix)))] s)
             (\<lambda>_ s. k_exit 1 s)
         else Ret (Some ix)
           (log_scheduler_event ''next thread chosen'' (log_scheduler_event ''scheduling new thread'' s)))
      else Ret None s)"
  by pat_completeness auto
termination
  by (relation "measure (\<lambda>(idx, m, s). m - idx)") auto

declare choose_loop.simps [simp del]

definition choose_next_thread :: "kstate \<Rightarrow> nat option kresult" where
  "choose_next_thread s =
     (let start_thread_idx = next_possible_thread_idx (current_thread s) s
      in choose_loop start_thread_idx (start_thread_idx + MAX_THREADS s) s)"

definition k_update_user_thread_info :: "nat \<Rightarrow> kstate \<Rightarrow> kstate" where
  "k_update_user_thread_info i s0 =
     (let s = (case current_thread s0 of
                 Some c \<Rightarrow> upd_thread c (\<lambda>t. t\<lparr>t_err_no := u_err_no (user_thread_info s0)\<rparr>) s0
               | None \<Rightarrow> s0)
      in s\<lparr>user_thread_info :=
             \<lparr>u_id = t_id (thread_at s i), u_name = t_name (thread_at s i),
              u_kernel_config = kernel_config s, u_err_no = t_err_no (thread_at s i)\<rparr>\<rparr>)"

section \<open>The scheduler\<close>

text \<open>The part of the scheduler that settles on a thread.\<close>

definition pick_next :: "kstate \<Rightarrow> nat kresult" where
  "pick_next s0 =
     obind (case next_thread s0 of
              None \<Rightarrow> choose_next_thread s0
            | Some n \<Rightarrow> Ret (Some n) s0)
       (\<lambda>n s. case n of
          Some n \<Rightarrow> Ret n (s\<lparr>next_thread := Some n\<rparr>)
        | None \<Rightarrow>
            if can_schedule_thread (k_get_thread_id s) s
            then on_current s (\<lambda>c. Ret c (s\<lparr>next_thread := Some c\<rparr>))
            else k_exit 0 (log_scheduler_event ''all threads finished'' (s\<lparr>next_thread := None\<rparr>)))"

text \<open>The part that switches to it.\<close>

definition switch_states :: "nat \<Rightarrow> kstate \<Rightarrow> kstate" where
  "switch_states n s0 =
     (let s = (case current_thread s0 of
                 Some c \<Rightarrow> if t_state (thread_at s0 c) = running
                           then upd_thread c (\<lambda>t. t\<lparr>t_state := suspended\<rparr>) s0 else s0
               | None \<Rightarrow> s0)
      in upd_thread n (\<lambda>t. t\<lparr>t_state := running\<rparr>) s)"

definition do_scheduler :: "kstate \<Rightarrow> unit kresult" where
  "do_scheduler s0 =
     obind (pick_next s0) (\<lambda>n s.
     let s = switch_states n s in
     obind (if 0 < CODE_BACKING_PAGES s
            then swap_paged_threads (current_thread s) (next_thread s) s else Ret () s) (\<lambda>_ s.
     Ret () (k_update_user_thread_info n (check_signals n s))))"

section \<open>Thread states\<close>

definition set_thread_state :: "int \<Rightarrow> ThreadState \<Rightarrow> kstate \<Rightarrow> bool \<times> kstate" where
  "set_thread_state tid state s =
     (if is_valid_thread tid s
      then (True, upd_thread (nat tid) (\<lambda>t. t\<lparr>t_state := state\<rparr>) s)
      else (False, s))"

definition k_thread_wake :: "int \<Rightarrow> kstate \<Rightarrow> bool kresult" where
  "k_thread_wake tid s = (let (set, s') = set_thread_state tid suspended s in Ret set s')"

text \<open>The reference count of a backing page is decremented unless it is 0.\<close>

definition dec_ref :: "size_t \<Rightarrow> kstate \<Rightarrow> kstate" where
  "dec_ref page s =
     (if backing_refs s ! unat page \<noteq> 0
      then s\<lparr>backing_refs := (backing_refs s)[unat page := backing_refs s ! unat page - 1]\<rparr> else s)"

definition cleanup_thread :: "nat \<Rightarrow> kstate \<Rightarrow> unit kresult" where
  "cleanup_thread i s0 =
     (let s = k_free_all (t_id (thread_at s0 i)) s0 in
      if CODE_PAGE_SIZE s = 0 then Ret () s
      else
        (let s = upd_thread i (\<lambda>t. t\<lparr>t_in_code_page := False\<rparr>) s;
             backing_page = t_code_backing_page (thread_at s i) in
         if CODE_BACKING_PAGES s = 0 \<or> backing_page = INVALID_PAGE then Ret () s
         else if unat backing_page \<ge> CODE_BACKING_PAGES s then Undef
         else Ret () (upd_thread i (\<lambda>t. t\<lparr>t_code_backing_page := INVALID_PAGE\<rparr>) (dec_ref backing_page s))))"

definition k_thread_cancel :: "int \<Rightarrow> kstate \<Rightarrow> bool kresult" where
  "k_thread_cancel tid0 s0 =
     obind (if tid0 = CURRENT_THREAD
            then on_current s0 (\<lambda>c. Ret (t_id (thread_at s0 c)) s0) else Ret tid0 s0) (\<lambda>tid s.
     let (set, s) = set_thread_state tid cancelled s in
     if set then
       obind (cleanup_thread (nat tid) s) (\<lambda>_ s.
       on_current s (\<lambda>c.
         if tid = t_id (thread_at s c)
         then obind (do_scheduler s) (\<lambda>_ s. Ret True s)
         else Ret set s))
     else Ret set s)"

section \<open>Yielding and waiting\<close>

definition YIELD_ANY :: int where "YIELD_ANY = 0"
definition YIELD_TO :: int where "YIELD_TO = 1"

definition k_do_yield :: "nat option \<Rightarrow> kstate \<Rightarrow> bool kresult" where
  "k_do_yield target s =
     obind (do_scheduler (s\<lparr>next_thread := target\<rparr>)) (\<lambda>_ s.
     Ret (next_thread s \<noteq> None \<and> next_thread s \<noteq> current_thread s) s)"

definition k_yield :: "int \<Rightarrow> int \<Rightarrow> kstate \<Rightarrow> bool kresult" where
  "k_yield tid kind s =
     (if kind = YIELD_ANY then
        obind (k_assert (tid = INVALID_THREAD) s) (\<lambda>_ s. k_do_yield None s)
      else if kind = YIELD_TO then
        (if \<not> can_schedule_thread tid s then Ret False s else k_do_yield (Some (nat tid)) s)
      else obind (k_assert False s) (\<lambda>_ s. Undef))"

definition k_thread_wait :: "kstate \<Rightarrow> unit kresult" where
  "k_thread_wait s =
     on_current s (\<lambda>c. do_scheduler (upd_thread c (\<lambda>t. t\<lparr>t_state := waiting\<rparr>) s))"

end
