(* ===== verification/Ring.thy ===== *)
theory Ring
  imports Kernel_State
begin

text \<open>
  Bounded first-in first-out queues. The kernel has two: the message buffer of a thread and the
  waiting list of a condition variable. Both are circular arrays with a read position, a write
  position and a flag that tells full from empty. The locale states what a client of such a
  queue relies on, and what follows for any sequence of its operations; the lemmas on
  \<open>ring_list\<close> are shared by the two providers.
\<close>

section \<open>The interface\<close>

locale bounded_queue =
  fixes enq :: "'a \<Rightarrow> 'q \<Rightarrow> 'q"
    and deq :: "'q \<Rightarrow> 'q"
    and front :: "'q \<Rightarrow> 'a"
    and elems :: "'q \<Rightarrow> 'a list"
    and ok :: "'q \<Rightarrow> bool"
    and capacity :: "'q \<Rightarrow> nat"
  assumes elems_enq: "ok q \<Longrightarrow> length (elems q) < capacity q \<Longrightarrow> elems (enq x q) = elems q @ [x]"
    and elems_deq: "ok q \<Longrightarrow> elems q \<noteq> [] \<Longrightarrow> elems q = front q # elems (deq q)"
    and ok_enq: "ok q \<Longrightarrow> length (elems q) < capacity q \<Longrightarrow> ok (enq x q)"
    and ok_deq: "ok q \<Longrightarrow> elems q \<noteq> [] \<Longrightarrow> ok (deq q)"
    and capacity_enq: "capacity (enq x q) = capacity q"
    and capacity_deq: "capacity (deq q) = capacity q"
    and bounded: "ok q \<Longrightarrow> length (elems q) \<le> capacity q"
begin

text \<open>
  A client puts elements in (\<open>Some x\<close>, dropped when the queue is full) and takes them out
  (\<open>None\<close>, nothing when it is empty). The run returns what was accepted, what was delivered and
  the queue at the end.
\<close>

fun run :: "'a option list \<Rightarrow> 'q \<Rightarrow> 'a list \<times> 'a list \<times> 'q" where
  "run [] q = ([], [], q)"
| "run (Some x # cs) q =
     (if length (elems q) < capacity q
      then (let (acc, del, q') = run cs (enq x q) in (x # acc, del, q'))
      else run cs q)"
| "run (None # cs) q =
     (if elems q = [] then run cs q
      else (let (acc, del, q') = run cs (deq q) in (acc, front q # del, q')))"

text \<open>Nothing is lost, duplicated or reordered.\<close>

lemma run_fifo:
  "ok q \<Longrightarrow> run cs q = (acc, del, q') \<Longrightarrow> elems q @ acc = del @ elems q' \<and> ok q'"
proof (induction cs q arbitrary: acc del q' rule: run.induct)
  case (1 q)
  then show ?case by simp
next
  case (2 x cs q)
  then show ?case
    by (auto simp: elems_enq ok_enq split: if_splits prod.splits)
next
  case (3 cs q)
  show ?case
  proof (cases "elems q = []")
    case True
    with 3 show ?thesis by simp
  next
    case False
    with "3.prems" elems_deq [of q] obtain del' where del: "del = front q # del'"
      and run: "run cs (deq q) = (acc, del', q')"
      by (auto split: prod.splits)
    from "3.IH"(2) [OF False _ run] "3.prems"(1) False
    have "elems (deq q) @ acc = del' @ elems q' \<and> ok q'" by (simp add: ok_deq)
    with del elems_deq [of q] "3.prems"(1) False show ?thesis
      by (metis append_Cons)
  qed
qed

lemma run_bounded: "ok q \<Longrightarrow> run cs q = (acc, del, q') \<Longrightarrow> length (elems q') \<le> capacity q'"
  using run_fifo bounded by blast

end

section \<open>Circular arrays\<close>

text \<open>\<open>f\<close> is the read position, \<open>l\<close> the write position.\<close>

definition ring_ok :: "'a list \<Rightarrow> nat \<Rightarrow> nat \<Rightarrow> bool \<Rightarrow> bool" where
  "ring_ok xs f l full \<longleftrightarrow> f < length xs \<and> l < length xs \<and> (full \<longrightarrow> f = l)"

definition ring_count :: "nat \<Rightarrow> nat \<Rightarrow> nat \<Rightarrow> bool \<Rightarrow> nat" where
  "ring_count n f l full = (if full then n else if f \<le> l then l - f else n + l - f)"

definition ring_list :: "'a list \<Rightarrow> nat \<Rightarrow> nat \<Rightarrow> bool \<Rightarrow> 'a list" where
  "ring_list xs f l full =
     map (\<lambda>i. xs ! ((f + i) mod length xs)) [0..<ring_count (length xs) f l full]"

lemma length_ring_list [simp]: "length (ring_list xs f l full) = ring_count (length xs) f l full"
  by (simp add: ring_list_def)

lemma ring_list_empty:
  "ring_ok xs f l full \<Longrightarrow> ring_list xs f l full = [] \<longleftrightarrow> \<not> full \<and> f = l"
  by (auto simp: ring_list_def ring_ok_def ring_count_def split: if_splits)

lemma ring_count_le: "ring_ok xs f l full \<Longrightarrow> ring_count (length xs) f l full \<le> length xs"
  by (auto simp: ring_ok_def ring_count_def)

lemma ring_full: "ring_ok xs f l full \<Longrightarrow> ring_count (length xs) f l full = length xs \<longleftrightarrow> full"
  by (auto simp: ring_ok_def ring_count_def)

lemma ring_mod:
  "f < n \<Longrightarrow> i < n \<Longrightarrow> (f + i) mod n = (if f + i < n then f + i else f + i - n)" for n :: nat
  by (simp add: mod_if)

lemma Suc_mod_if: "l < n \<Longrightarrow> Suc l mod n = (if Suc l = n then 0 else Suc l)"
  by simp

lemma ring_enq:
  assumes "ring_ok xs f l False"
  shows "ring_list (xs[l := x]) f (Suc l mod length xs) (f = Suc l mod length xs)
       = ring_list xs f l False @ [x]"
    and "ring_ok (xs[l := x]) f (Suc l mod length xs) (f = Suc l mod length xs)"
proof -
  let ?n = "ring_count (length xs) f l False"
  have less: "f < length xs" "l < length xs" using assms by (auto simp: ring_ok_def)
  have count: "ring_count (length xs) f (Suc l mod length xs) (f = Suc l mod length xs) = Suc ?n"
    using less by (auto simp: ring_count_def Suc_mod_if)
  have pos: "(f + ?n) mod length xs = l"
    using less by (auto simp: ring_count_def mod_if)
  have lt: "?n < length xs" using less by (auto simp: ring_count_def)
  show "ring_list (xs[l := x]) f (Suc l mod length xs) (f = Suc l mod length xs)
       = ring_list xs f l False @ [x]"
  proof (rule nth_equalityI)
    show "length (ring_list (xs[l := x]) f (Suc l mod length xs) (f = Suc l mod length xs))
        = length (ring_list xs f l False @ [x])"
      using count by simp
  next
    fix i
    assume "i < length (ring_list (xs[l := x]) f (Suc l mod length xs) (f = Suc l mod length xs))"
    then have i: "i \<le> ?n" using count by simp
    show "ring_list (xs[l := x]) f (Suc l mod length xs) (f = Suc l mod length xs) ! i
        = (ring_list xs f l False @ [x]) ! i"
    proof (cases "i = ?n")
      case True
      then show ?thesis
        using pos less count by (simp add: ring_list_def nth_append)
    next
      case False
      with i have "i < ?n" by simp
      moreover have "(f + i) mod length xs \<noteq> l"
        using \<open>i < ?n\<close> less by (auto simp: ring_count_def ring_mod split: if_splits)
      ultimately show ?thesis
        using count by (simp add: ring_list_def nth_append)
    qed
  qed
  show "ring_ok (xs[l := x]) f (Suc l mod length xs) (f = Suc l mod length xs)"
    using less by (auto simp: ring_ok_def intro!: mod_less_divisor)
qed

lemma ring_deq:
  assumes "ring_ok xs f l full" and "full \<or> f \<noteq> l"
  shows "ring_list xs f l full = xs ! f # ring_list xs (Suc f mod length xs) l False"
    and "ring_ok xs (Suc f mod length xs) l False"
proof -
  let ?n = "length xs"
  have less: "f < ?n" "l < ?n" using assms by (auto simp: ring_ok_def)
  have count: "ring_count ?n f l full = Suc (ring_count ?n (Suc f mod ?n) l False)"
    using assms less by (auto simp: ring_count_def Suc_mod_if ring_ok_def split: if_splits)
  have shift: "Suc (f + i) mod ?n = (Suc f mod ?n + i) mod ?n" for i
    by (metis add_Suc mod_add_left_eq)
  show "ring_list xs f l full = xs ! f # ring_list xs (Suc f mod ?n) l False"
    unfolding ring_list_def count upt_conv_Cons [OF zero_less_Suc]
    using less by (simp add: shift map_Suc_upt [symmetric] del: upt_Suc map_Suc_upt)
  show "ring_ok xs (Suc f mod ?n) l False"
    using less by (auto simp: ring_ok_def intro!: mod_less_divisor)
qed

end
