(* ===== verification/Messages.thy ===== *)
theory Messages
  imports Ring Demo
begin

text \<open>
  Message passing, \<open>src/kernel/message.c\<close>: every thread has a circular buffer of five messages
  with a read and a write pointer into it.
\<close>

section \<open>Operations\<close>

definition inc_msg_pointer :: "nat \<Rightarrow> nat" where
  "inc_msg_pointer p = (let p' = Suc p in if p' = THREAD_MSG_QUEUE_SIZE then 0 else p')"

definition k_get_msg :: "size_t \<Rightarrow> size_t \<Rightarrow> kstate \<Rightarrow> bool kresult" where
  "k_get_msg sender message s =
     (if sender = NULL \<or> message = NULL then Ret False (set_errno E_INVALID_ARGS s)
      else on_current s (\<lambda>c.
        let t = thread_at s c in
        if t_next_msg t \<noteq> t_end_msgs t \<or> t_msgs_full t then
          (let m = t_messages t ! t_next_msg t;
               mem1 = store32 (memory s) sender (msg_src m);
               mem2 = store32 mem1 message (msg_content m)
           in Ret True
                (upd_thread c (\<lambda>t. t\<lparr>t_next_msg := inc_msg_pointer (t_next_msg t), t_msgs_full := False\<rparr>)
                  (set_memory mem2 s)))
        else Ret False s))"

definition k_send_msg :: "int \<Rightarrow> u32 \<Rightarrow> kstate \<Rightarrow> bool kresult" where
  "k_send_msg destination message s =
     (if destination \<ge> int (MAX_THREADS s) \<or> destination < 0 \<or>
         t_id (thread_at s (nat destination)) = INVALID_THREAD \<or>
         t_msgs_full (thread_at s (nat destination))
      then Ret False s
      else Ret True (upd_thread (nat destination) (\<lambda>dest.
             let our_msg = t_end_msgs dest;
                 dest = dest\<lparr>t_messages := (t_messages dest)[our_msg :=
                   \<lparr>msg_src = word_of_int (k_get_thread_id s), msg_content = message\<rparr>]\<rparr>;
                 dest = dest\<lparr>t_end_msgs := inc_msg_pointer (t_end_msgs dest)\<rparr>
             in dest\<lparr>t_msgs_full := (t_next_msg dest = t_end_msgs dest)\<rparr>) s))"

section \<open>The buffer is a queue\<close>

text \<open>The messages waiting for a thread, oldest first, and what the two calls do to one thread.\<close>

definition msgs :: "Thread \<Rightarrow> Message list" where
  "msgs t = ring_list (t_messages t) (t_next_msg t) (t_end_msgs t) (t_msgs_full t)"

definition push_msg :: "Message \<Rightarrow> Thread \<Rightarrow> Thread" where
  "push_msg m t =
     (let e = inc_msg_pointer (t_end_msgs t)
      in t\<lparr>t_messages := (t_messages t)[t_end_msgs t := m], t_end_msgs := e,
           t_msgs_full := (t_next_msg t = e)\<rparr>)"

definition pop_msg :: "Thread \<Rightarrow> Thread" where
  "pop_msg t = t\<lparr>t_next_msg := inc_msg_pointer (t_next_msg t), t_msgs_full := False\<rparr>"

lemma thread_ok_ring:
  "thread_ok t \<Longrightarrow> ring_ok (t_messages t) (t_next_msg t) (t_end_msgs t) (t_msgs_full t)"
  by (auto simp: thread_ok_def ring_ok_def)

lemma inc_msg_pointer_mod: "p < THREAD_MSG_QUEUE_SIZE \<Longrightarrow> inc_msg_pointer p = Suc p mod THREAD_MSG_QUEUE_SIZE"
  by (simp add: inc_msg_pointer_def)

lemma msgs_empty: "thread_ok t \<Longrightarrow> msgs t = [] \<longleftrightarrow> \<not> (t_next_msg t \<noteq> t_end_msgs t \<or> t_msgs_full t)"
  using ring_list_empty [OF thread_ok_ring, of t] by (auto simp: msgs_def)

lemma msgs_length_le: "thread_ok t \<Longrightarrow> length (msgs t) \<le> THREAD_MSG_QUEUE_SIZE"
  using ring_count_le [OF thread_ok_ring, of t] by (simp add: msgs_def thread_ok_def)

lemma msgs_full: "thread_ok t \<Longrightarrow> t_msgs_full t \<longleftrightarrow> length (msgs t) = THREAD_MSG_QUEUE_SIZE"
  using ring_full [OF thread_ok_ring, of t] by (simp add: msgs_def thread_ok_def)

lemma msgs_not_full: "thread_ok t \<Longrightarrow> length (msgs t) < THREAD_MSG_QUEUE_SIZE \<longleftrightarrow> \<not> t_msgs_full t"
  using msgs_length_le [of t] msgs_full [of t] by auto

lemma push_msg_msgs:
  assumes "thread_ok t" and "\<not> t_msgs_full t"
  shows "msgs (push_msg m t) = msgs t @ [m]" and "thread_ok (push_msg m t)"
proof -
  have r: "ring_ok (t_messages t) (t_next_msg t) (t_end_msgs t) False"
    using thread_ok_ring [OF assms(1)] assms(2) by (auto simp: ring_ok_def)
  have e: "inc_msg_pointer (t_end_msgs t) = Suc (t_end_msgs t) mod length (t_messages t)"
    using assms(1) by (simp add: thread_ok_def inc_msg_pointer_mod)
  show "msgs (push_msg m t) = msgs t @ [m]"
    using ring_enq(1) [OF r, of m] assms(2) by (simp add: msgs_def push_msg_def e Let_def)
  show "thread_ok (push_msg m t)"
    using ring_enq(2) [OF r, of m] assms by (simp add: thread_ok_def push_msg_def e Let_def ring_ok_def)
qed

lemma pop_msg_msgs:
  assumes "thread_ok t" and "msgs t \<noteq> []"
  shows "msgs t = t_messages t ! t_next_msg t # msgs (pop_msg t)" and "thread_ok (pop_msg t)"
proof -
  have ne: "t_msgs_full t \<or> t_next_msg t \<noteq> t_end_msgs t"
    using msgs_empty [OF assms(1)] assms(2) by auto
  have e: "inc_msg_pointer (t_next_msg t) = Suc (t_next_msg t) mod length (t_messages t)"
    using assms(1) by (simp add: thread_ok_def inc_msg_pointer_mod)
  show "msgs t = t_messages t ! t_next_msg t # msgs (pop_msg t)"
    using ring_deq(1) [OF thread_ok_ring [OF assms(1)] ne] by (simp add: msgs_def pop_msg_def e)
  show "thread_ok (pop_msg t)"
    using ring_deq(2) [OF thread_ok_ring [OF assms(1)] ne] assms(1)
    by (simp add: thread_ok_def pop_msg_def e ring_ok_def)
qed

interpretation mq: bounded_queue push_msg pop_msg "\<lambda>t. t_messages t ! t_next_msg t" msgs thread_ok
    "\<lambda>t. THREAD_MSG_QUEUE_SIZE"
  by unfold_locales
    (simp_all add: push_msg_msgs pop_msg_msgs(2) pop_msg_msgs(1) [symmetric] msgs_not_full msgs_length_le)

section \<open>The calls in terms of the queue\<close>

lemma k_send_msg_eq:
  "k_send_msg d m s =
     (if is_valid_thread d s \<and> \<not> t_msgs_full (thread_at s (nat d))
      then Ret True (upd_thread (nat d)
             (push_msg \<lparr>msg_src = word_of_int (k_get_thread_id s), msg_content = m\<rparr>) s)
      else Ret False s)"
  by (auto simp: k_send_msg_def is_valid_thread_def push_msg_def Let_def upd_thread_def)

lemma k_get_msg_eq:
  assumes "current_thread s = Some c" and "thread_ok (thread_at s c)" and "a \<noteq> NULL" and "b \<noteq> NULL"
  shows "k_get_msg a b s =
     (case msgs (thread_at s c) of
        [] \<Rightarrow> Ret False s
      | m # _ \<Rightarrow> Ret True (upd_thread c pop_msg
          (set_memory (store32 (store32 (memory s) a (msg_src m)) b (msg_content m)) s)))"
proof (cases "msgs (thread_at s c)")
  case Nil
  with assms msgs_empty [OF assms(2)] show ?thesis
    by (simp add: k_get_msg_def on_current_def Let_def)
next
  case (Cons m ms)
  with pop_msg_msgs(1) [OF assms(2)] have "m = t_messages (thread_at s c) ! t_next_msg (thread_at s c)"
    by simp
  with Cons assms msgs_empty [OF assms(2)] show ?thesis
    by (simp add: k_get_msg_def on_current_def Let_def upd_thread_def pop_msg_def)
qed

section \<open>Conversations\<close>

text \<open>
  A conversation with one thread \<open>d\<close>: other threads send to it and it receives, in any order. The
  run makes the calls one after the other, each from the thread that makes it, and collects the
  messages that \<open>k_send_msg\<close> accepted and those that \<open>k_get_msg\<close> stored for the receiver.
\<close>

datatype msg_call = Send nat u32 | Receive

fun run_calls :: "nat \<Rightarrow> size_t \<Rightarrow> size_t \<Rightarrow> msg_call list \<Rightarrow> kstate \<Rightarrow>
    (Message list \<times> Message list \<times> kstate) option" where
  "run_calls d a b [] s = Some ([], [], s)"
| "run_calls d a b (Send c m # cs) s =
     (case k_send_msg (int d) m (s\<lparr>current_thread := Some c\<rparr>) of
        Ret sent s' \<Rightarrow>
          map_option (\<lambda>(acc, del, s). (if sent then \<lparr>msg_src = word_of_int (t_id (thread_at s' c)), msg_content = m\<rparr> # acc
            else acc, del, s)) (run_calls d a b cs s')
      | _ \<Rightarrow> None)"
| "run_calls d a b (Receive # cs) s =
     (case k_get_msg a b (s\<lparr>current_thread := Some d\<rparr>) of
        Ret got s' \<Rightarrow>
          map_option (\<lambda>(acc, del, s). (acc, if got
            then \<lparr>msg_src = load32 (memory s') a, msg_content = load32 (memory s') b\<rparr> # del else del, s))
            (run_calls d a b cs s')
      | _ \<Rightarrow> None)"

lemma thread_at_current [simp]: "thread_at (s\<lparr>current_thread := p\<rparr>) i = thread_at s i"
  by simp

lemma push_msg_id [simp]: "t_id (push_msg m t) = t_id t"
  by (simp add: push_msg_def Let_def)

lemma pop_msg_id [simp]: "t_id (pop_msg t) = t_id t"
  by (simp add: pop_msg_def)

lemma upd_thread_current: "upd_thread i f (s\<lparr>current_thread := p\<rparr>) = (upd_thread i f s)\<lparr>current_thread := p\<rparr>"
  by (simp add: upd_thread_def)

text \<open>Each call does to the thread what the queue operation does.\<close>

definition to_cmd :: "kstate \<Rightarrow> msg_call \<Rightarrow> Message option" where
  "to_cmd s c = (case c of Send i m \<Rightarrow> Some \<lparr>msg_src = word_of_int (t_id (thread_at s i)), msg_content = m\<rparr>
     | Receive \<Rightarrow> None)"

lemma to_cmd_cong:
  "(\<And>i. t_id (thread_at s' i) = t_id (thread_at s i)) \<Longrightarrow> to_cmd s' c = to_cmd s c"
  by (simp add: to_cmd_def split: msg_call.split)

lemma run_calls_queue:
  assumes "d < MAX_THREADS s" and "t_id (thread_at s d) \<noteq> INVALID_THREAD" and "thread_ok (thread_at s d)"
    and ab: "a \<noteq> NULL" "b \<noteq> NULL" "apart b 4 a 4"
  shows "\<exists>s'. run_calls d a b cs s = Some (fst (mq.run (map (to_cmd s) cs) (thread_at s d)),
      fst (snd (mq.run (map (to_cmd s) cs) (thread_at s d))), s') \<and>
    thread_at s' d = snd (snd (mq.run (map (to_cmd s) cs) (thread_at s d)))"
  using assms(1-3)
proof (induction cs arbitrary: s)
  case Nil
  then show ?case by simp
next
  case (Cons c cs)
  note prems = Cons.prems and IH = Cons.IH
  let ?t = "thread_at s d"
  have valid: "is_valid_thread (int d) s'" if "length (all_threads s') = length (all_threads s)"
      "t_id (thread_at s' d) = t_id ?t" for s'
    using prems that by (simp add: is_valid_thread_int MAX_THREADS_def)
  have d: "d < length (all_threads s)" using prems by (simp add: MAX_THREADS_def)
  show ?case
  proof (cases c)
    case (Send i m)
    let ?s = "s\<lparr>current_thread := Some i\<rparr>"
    let ?m = "\<lparr>msg_src = word_of_int (t_id (thread_at s i)), msg_content = m\<rparr>"
    have id: "k_get_thread_id ?s = t_id (thread_at s i)" by (simp add: k_get_thread_id_def)
    show ?thesis
    proof (cases "t_msgs_full ?t")
      case True
      with Send valid [of ?s] Cons.IH [of ?s] prems d msgs_not_full [of ?t] show ?thesis
        by (simp add: k_send_msg_eq to_cmd_def MAX_THREADS_def cong: msg_call.case_cong)
    next
      case False
      let ?s' = "upd_thread d (push_msg ?m) ?s"
      have send: "k_send_msg (int d) m ?s = Ret True ?s'"
        using valid [of ?s] False id by (simp add: k_send_msg_eq)
      have ids: "t_id (thread_at ?s' j) = t_id (thread_at s j)" for j by (simp add: thread_at_upd)
      have t: "thread_at ?s' d = push_msg ?m ?t" using d by (simp add: thread_at_upd)
      have tc: "to_cmd ?s' = to_cmd s" by (rule ext) (rule to_cmd_cong [OF ids])
      have p: "d < MAX_THREADS ?s'" "t_id (thread_at ?s' d) \<noteq> INVALID_THREAD" "thread_ok (thread_at ?s' d)"
        using prems push_msg_msgs(2) [of ?t ?m] False unfolding t by (simp_all add: MAX_THREADS_def)
      obtain s'' where R: "run_calls d a b cs ?s' = Some (fst (mq.run (map (to_cmd s) cs) (push_msg ?m ?t)),
          fst (snd (mq.run (map (to_cmd s) cs) (push_msg ?m ?t))), s'')"
        "thread_at s'' d = snd (snd (mq.run (map (to_cmd s) cs) (push_msg ?m ?t)))"
        using Cons.IH [OF p] unfolding tc t by blast
      have "length (msgs ?t) < THREAD_MSG_QUEUE_SIZE" using msgs_not_full prems(3) False by blast
      moreover have "to_cmd s c = Some ?m" using Send by (simp add: to_cmd_def)
      ultimately show ?thesis
        using R send Send ids by (simp add: split_beta)
    qed
  next
    case Receive
    let ?s = "s\<lparr>current_thread := Some d\<rparr>"
    have get: "k_get_msg a b ?s = (case msgs ?t of [] \<Rightarrow> Ret False ?s
      | m # _ \<Rightarrow> Ret True (upd_thread d pop_msg
          (set_memory (store32 (store32 (memory s) a (msg_src m)) b (msg_content m)) ?s)))"
      using k_get_msg_eq [of ?s d a b] prems(3) ab by (simp split: list.split)
    have cmd: "to_cmd s c = None" using Receive by (simp add: to_cmd_def)
    show ?thesis
    proof (cases "msgs ?t")
      case Nil
      have "to_cmd ?s = to_cmd s" by (rule ext) (rule to_cmd_cong, simp)
      with Nil get IH [of ?s] prems Receive cmd show ?thesis
        by (auto simp: MAX_THREADS_def)
    next
      case (Cons m ms)
      let ?m2 = "store32 (store32 (memory s) a (msg_src m)) b (msg_content m)"
      let ?s' = "upd_thread d pop_msg (set_memory ?m2 ?s)"
      have ids: "t_id (thread_at ?s' j) = t_id (thread_at s j)" for j by (simp add: thread_at_upd)
      have t: "thread_at ?s' d = pop_msg ?t" using d by (simp add: thread_at_upd)
      have front: "m = t_messages ?t ! t_next_msg ?t" using Cons pop_msg_msgs(1) [OF prems(3)] by simp
      have mem: "load32 (memory ?s') a = msg_src m" "load32 (memory ?s') b = msg_content m"
        using ab(3) by (simp_all add: mem_simps)
      have tc: "to_cmd ?s' = to_cmd s" by (rule ext) (rule to_cmd_cong [OF ids])
      have p: "d < MAX_THREADS ?s'" "t_id (thread_at ?s' d) \<noteq> INVALID_THREAD" "thread_ok (thread_at ?s' d)"
        using prems pop_msg_msgs(2) [of ?t] local.Cons unfolding t by (simp_all add: MAX_THREADS_def)
      obtain s'' where R: "run_calls d a b cs ?s' = Some (fst (mq.run (map (to_cmd s) cs) (pop_msg ?t)),
          fst (snd (mq.run (map (to_cmd s) cs) (pop_msg ?t))), s'')"
        "thread_at s'' d = snd (snd (mq.run (map (to_cmd s) cs) (pop_msg ?t)))"
        using IH [OF p] unfolding tc t by blast
      have "k_get_msg a b ?s = Ret True ?s'" using get local.Cons by simp
      with R Receive cmd local.Cons front mem show ?thesis by (simp add: split_beta)
    qed
  qed
qed

section \<open>Properties\<close>



text \<open>Sending fails, changing nothing, exactly when the destination is not a live thread or its
  queue is full; otherwise the message is appended with the caller's id, and no other thread is
  touched. Receiving with no message waiting returns false and changes nothing.\<close>

theorem send_get_results:
  assumes "current_thread s = Some c" and "thread_ok (thread_at s c)"
    and "\<forall>i < MAX_THREADS s. thread_ok (thread_at s i)"
  shows "(if is_valid_thread d s \<and> length (msgs (thread_at s (nat d))) < THREAD_MSG_QUEUE_SIZE
      then \<exists>s'. k_send_msg d m s = Ret True s' \<and>
        msgs (thread_at s' (nat d)) = msgs (thread_at s (nat d)) @
          [\<lparr>msg_src = word_of_int (t_id (thread_at s c)), msg_content = m\<rparr>] \<and>
        (\<forall>j. j \<noteq> nat d \<longrightarrow> thread_at s' j = thread_at s j) \<and> memory s' = memory s
      else k_send_msg d m s = Ret False s) \<and>
    (msgs (thread_at s c) = [] \<longrightarrow> a \<noteq> NULL \<longrightarrow> b \<noteq> NULL \<longrightarrow> k_get_msg a b s = Ret False s)"
proof -
  have len: "nat d < MAX_THREADS s" if "is_valid_thread d s" using that by (auto simp: is_valid_thread_def)
  have "length (msgs (thread_at s (nat d))) < THREAD_MSG_QUEUE_SIZE \<longleftrightarrow> \<not> t_msgs_full (thread_at s (nat d))"
    if "is_valid_thread d s"
    using msgs_not_full len [OF that] assms(3) by blast
  moreover have "k_get_thread_id s = t_id (thread_at s c)" using assms(1) by (simp add: k_get_thread_id_def)
  moreover have "msgs (push_msg x (thread_at s (nat d))) = msgs (thread_at s (nat d)) @ [x]"
    if "is_valid_thread d s" "\<not> t_msgs_full (thread_at s (nat d))" for x
    using push_msg_msgs(1) len [OF that(1)] that(2) assms(3) by blast
  ultimately show ?thesis
    using k_get_msg_eq [OF assms(1,2), of a b] len
    by (auto simp: k_send_msg_eq thread_at_upd MAX_THREADS_def)
qed

theorem send_get_results_witness:
  "\<exists>s'. k_send_msg 1 7 demo_state = Ret True s' \<and>
     msgs (thread_at s' 1) = [\<lparr>msg_src = 0, msg_content = 7\<rparr>] \<and> k_get_msg 0x100 0x104 demo_state = Ret False demo_state"
proof -
  have ok: "\<forall>i < MAX_THREADS demo_state. thread_ok (thread_at demo_state i)"
    by (auto simp: less_Suc_eq numeral_3_eq_3)
  have "msgs (demo_thread i st) = []" for i st by (simp add: msgs_empty)
  moreover have "(0 :: nat) < THREAD_MSG_QUEUE_SIZE" by (simp add: THREAD_MSG_QUEUE_SIZE_def)
  ultimately show ?thesis
    using send_get_results [of demo_state 0 1 7 "0x100" "0x104"] ok by auto
qed

end
