(* ===== verification/Invariant.thy ===== *)
theory Invariant
  imports Scheduler Messages
begin

text \<open>
  The invariant of the kernel, and that every operation the kernel runs on behalf of a thread
  keeps it. \<open>kinv\<close> is about the data; \<open>sane\<close> adds that no thread other than the one that is
  going to run is marked as running.
\<close>

section \<open>The invariant\<close>

definition thread_inv :: "nat \<Rightarrow> nat \<Rightarrow> Thread \<Rightarrow> bool" where
  "thread_inv pages i t \<longleftrightarrow> thread_ok t \<and> (t_id t = INVALID_THREAD \<or> t_id t = int i) \<and>
     (0 < pages \<longrightarrow> t_code_backing_page t = INVALID_PAGE \<or> unat (t_code_backing_page t) < pages)"

definition ptr_ok :: "nat option \<Rightarrow> kstate \<Rightarrow> bool" where
  "ptr_ok p s \<longleftrightarrow> (\<forall>i. p = Some i \<longrightarrow> i < MAX_THREADS s)"

text \<open>What the configuration has to satisfy: thread ids fit into the 16 bits of a block tag, and
  the marker for no backing page is not a page.\<close>

definition config_ok :: "kstate \<Rightarrow> bool" where
  "config_ok s \<longleftrightarrow> 0 < MAX_THREADS s \<and> MAX_THREADS s < 32768 \<and> CODE_BACKING_PAGES s \<le> 123456 \<and>
     (0 < CODE_BACKING_PAGES s \<longrightarrow> 0 < CODE_PAGE_SIZE s) \<and> heap_region (build s)"

definition kinv :: "kstate \<Rightarrow> bool" where
  "kinv s \<longleftrightarrow> config_ok s \<and> (\<forall>i < MAX_THREADS s. thread_inv (CODE_BACKING_PAGES s) i (thread_at s i)) \<and>
     ptr_ok (current_thread s) s \<and> ptr_ok (next_thread s) s \<and> heap_ok (block_tags s)"

definition running_is :: "nat option \<Rightarrow> kstate \<Rightarrow> bool" where
  "running_is p s \<longleftrightarrow> (\<forall>i < MAX_THREADS s. t_state (thread_at s i) = running \<longrightarrow> p = Some i)"

definition sane :: "kstate \<Rightarrow> bool" where
  "sane s \<longleftrightarrow> kinv s \<and> running_is (if next_thread s = None then current_thread s else next_thread s) s"

lemma kinvD:
  assumes "kinv s"
  shows "config_ok s" "ptr_ok (current_thread s) s" "ptr_ok (next_thread s) s" "heap_ok (block_tags s)"
    and "i < MAX_THREADS s \<Longrightarrow> thread_inv (CODE_BACKING_PAGES s) i (thread_at s i)"
  using assms by (simp_all add: kinv_def)

lemma kinv_current: "kinv s \<Longrightarrow> current_thread s = Some c \<Longrightarrow> c < MAX_THREADS s"
  using kinvD(2) by (auto simp: ptr_ok_def)

lemma valid_id: "kinv s \<Longrightarrow> is_valid_thread (int i) s \<Longrightarrow> t_id (thread_at s i) = int i"
  using kinvD(5) [of s i] by (auto simp: is_valid_thread_int thread_inv_def)

lemma valid_less: "is_valid_thread tid s \<Longrightarrow> nat tid < MAX_THREADS s \<and> int (nat tid) = tid"
  by (auto simp: is_valid_thread_def)

text \<open>An update of one thread keeps the invariant if it keeps that of the thread.\<close>

lemma kinv_cong:
  assumes "all_threads s' = all_threads s" "current_thread s' = current_thread s"
    "next_thread s' = next_thread s" "block_tags s' = block_tags s"
    "backing_refs s' = backing_refs s" "build s' = build s"
  shows "kinv s' = kinv s"
  using assms
  by (simp add: kinv_def config_ok_def ptr_ok_def MAX_THREADS_def CODE_BACKING_PAGES_def CODE_PAGE_SIZE_def)

lemma running_cong:
  "all_threads s' = all_threads s \<Longrightarrow> running_is p s' = running_is p s"
  by (simp add: running_is_def MAX_THREADS_def)

lemma sane_cong:
  assumes "all_threads s' = all_threads s" "current_thread s' = current_thread s"
    "next_thread s' = next_thread s" "block_tags s' = block_tags s"
    "backing_refs s' = backing_refs s" "build s' = build s"
  shows "sane s' = sane s"
  using kinv_cong [OF assms] running_cong [OF assms(1)] assms by (simp add: sane_def)

lemma sane_step:
  assumes "sane s" and "kinv s'" and "\<And>p. running_is p s \<Longrightarrow> running_is p s'"
    and "current_thread s' = current_thread s" and "next_thread s' = next_thread s"
  shows "sane s'"
  using assms by (cases "next_thread s") (simp_all add: sane_def)

lemma sane_frame [simp]:
  "sane (set_memory m s) = sane s" "sane (set_errno e s) = sane s"
  "sane (serial_print str s) = sane s" "sane (k_log_event str s) = sane s"
  "sane (log_scheduler_event str s) = sane s"
  by (rule sane_cong; simp)+

lemma kinv_frame [simp]:
  "kinv (set_memory m s) = kinv s" "kinv (set_errno e s) = kinv s"
  "kinv (serial_print str s) = kinv s" "kinv (k_log_event str s) = kinv s"
  "kinv (log_scheduler_event str s) = kinv s"
  by (rule kinv_cong; simp)+

lemma running_frame [simp]:
  "running_is p (set_memory m s) = running_is p s" "running_is p (set_errno e s) = running_is p s"
  "running_is p (serial_print str s) = running_is p s" "running_is p (k_log_event str s) = running_is p s"
  "running_is p (log_scheduler_event str s) = running_is p s"
  by (rule running_cong; simp)+

lemma config_upd [simp]: "config_ok (upd_thread i f s) = config_ok s"
  by (simp add: config_ok_def CODE_BACKING_PAGES_def CODE_PAGE_SIZE_def)

lemma ptr_ok_upd [simp]: "ptr_ok p (upd_thread i f s) = ptr_ok p s"
  by (simp add: ptr_ok_def)

lemma pages_upd [simp]:
  "CODE_BACKING_PAGES (upd_thread i f s) = CODE_BACKING_PAGES s"
  "CODE_PAGE_SIZE (upd_thread i f s) = CODE_PAGE_SIZE s"
  by (simp_all add: CODE_BACKING_PAGES_def CODE_PAGE_SIZE_def)

lemma kinv_upd:
  assumes "kinv s"
    and "i < MAX_THREADS s \<Longrightarrow> thread_inv (CODE_BACKING_PAGES s) i (thread_at s i) \<Longrightarrow>
           thread_inv (CODE_BACKING_PAGES s) i (f (thread_at s i))"
  shows "kinv (upd_thread i f s)"
  using assms by (auto simp: kinv_def thread_at_upd MAX_THREADS_def)

lemma running_upd:
  assumes "running_is p s" and "t_state (f (thread_at s i)) = running \<Longrightarrow> t_state (thread_at s i) = running"
  shows "running_is p (upd_thread i f s)"
  using assms by (auto simp: running_is_def thread_at_upd MAX_THREADS_def)

lemma sane_upd:
  assumes "sane s"
    and "i < MAX_THREADS s \<Longrightarrow> thread_inv (CODE_BACKING_PAGES s) i (thread_at s i) \<Longrightarrow>
           thread_inv (CODE_BACKING_PAGES s) i (f (thread_at s i))"
    and "t_state (f (thread_at s i)) = running \<Longrightarrow> t_state (thread_at s i) = running"
  shows "sane (upd_thread i f s)"
proof -
  have "kinv (upd_thread i f s)" using assms kinv_upd by (simp add: sane_def)
  moreover have "running_is p s \<Longrightarrow> running_is p (upd_thread i f s)" for p
    using running_upd assms(3) by blast
  ultimately show ?thesis using assms(1) by (cases "next_thread s") (simp_all add: sane_def)
qed

text \<open>Updates that touch neither the messages, the name, the id nor the page of a thread.\<close>

lemma thread_inv_cong:
  assumes "t_messages t' = t_messages t" "t_next_msg t' = t_next_msg t" "t_end_msgs t' = t_end_msgs t"
    "t_msgs_full t' = t_msgs_full t" "t_name t' = t_name t" "t_id t' = t_id t"
    "t_code_backing_page t' = t_code_backing_page t"
  shows "thread_inv n i t' = thread_inv n i t"
  using assms by (simp add: thread_inv_def thread_ok_def)

lemma thread_inv_updates [simp]:
  "thread_inv n i (t\<lparr>t_state := st\<rparr>) = thread_inv n i t"
  "thread_inv n i (t\<lparr>t_stack_ptr := sp\<rparr>) = thread_inv n i t"
  "thread_inv n i (t\<lparr>t_pending_signals := ps\<rparr>) = thread_inv n i t"
  "thread_inv n i (t\<lparr>t_err_no := e\<rparr>) = thread_inv n i t"
  "thread_inv n i (t\<lparr>t_in_code_page := b\<rparr>) = thread_inv n i t"
  "thread_inv n i (t\<lparr>t_parent := p\<rparr>) = thread_inv n i t"
  "thread_inv n i (t\<lparr>t_child := p\<rparr>) = thread_inv n i t"
  "thread_inv n i (t\<lparr>t_permissions := q\<rparr>) = thread_inv n i t"
  "thread_inv n i (t\<lparr>t_signal_handler := sp\<rparr>) = thread_inv n i t"
  "thread_inv n i (t\<lparr>t_args := a\<rparr>) = thread_inv n i t"
  by (rule thread_inv_cong; simp)+

end
