(* ===== verification/Scheduling.thy ===== *)
theory Scheduling
  imports Invariant
begin

text \<open>
  What the scheduler guarantees: which thread it chooses, that it fails only when no thread can
  run, that a switch keeps the invariant and leaves at most the chosen thread running, and that
  a thread that can run is reached after at most as many switches as there are threads.
\<close>

section \<open>The choice\<close>

definition chosen_log :: "kstate \<Rightarrow> kstate" where
  "chosen_log s = log_scheduler_event ''next thread chosen'' (log_scheduler_event ''scheduling new thread'' s)"

text \<open>The first position from \<open>start\<close> on, around the table, with a thread that can be scheduled.\<close>

definition first_from :: "nat \<Rightarrow> kstate \<Rightarrow> nat option" where
  "first_from start s =
     map_option (\<lambda>k. (start + k) mod MAX_THREADS s)
       (find (\<lambda>k. can_schedule_thread (int ((start + k) mod MAX_THREADS s)) s) [0..<MAX_THREADS s])"

lemma can_schedule_id:
  assumes "kinv s" and "can_schedule_thread (int i) s"
  shows "t_id (thread_at s i) = int i"
  using valid_id [OF assms(1) can_schedule_valid [OF assms(2)]] .

lemma id_consistent:
  assumes "kinv s" and "can_schedule_thread (int i) s"
  shows "(word_of_int (t_id (thread_at s i)) :: size_t) = of_nat i"
  using can_schedule_id [OF assms] by simp

lemma choose_loop_eq:
  "kinv s \<Longrightarrow> choose_loop (start + k) (start + n) s =
     (case find (\<lambda>k. can_schedule_thread (int ((start + k) mod MAX_THREADS s)) s) [k..<n] of
        Some j \<Rightarrow> Ret (Some ((start + j) mod MAX_THREADS s)) (chosen_log s)
      | None \<Rightarrow> Ret None s)"
proof (induction "n - k" arbitrary: k)
  case 0
  then show ?case by (subst choose_loop.simps) simp
next
  case (Suc d)
  then have k: "k < n" by simp
  have IH: "choose_loop (start + Suc k) (start + n) s =
     (case find (\<lambda>k. can_schedule_thread (int ((start + k) mod MAX_THREADS s)) s) [Suc k..<n] of
        Some j \<Rightarrow> Ret (Some ((start + j) mod MAX_THREADS s)) (chosen_log s)
      | None \<Rightarrow> Ret None s)"
    using Suc by (intro Suc.hyps(1)) auto
  show ?case
  proof (cases "can_schedule_thread (int ((start + k) mod MAX_THREADS s)) s")
    case True
    then show ?thesis
      using k id_consistent [OF Suc.prems True]
      by (subst choose_loop.simps) (simp add: upt_conv_Cons Let_def chosen_log_def)
  next
    case False
    then show ?thesis
      using k IH by (subst choose_loop.simps) (simp add: upt_conv_Cons Let_def)
  qed
qed

lemma choose_next_eq:
  assumes "kinv s"
  shows "choose_next_thread s =
    (case first_from (next_possible_thread_idx (current_thread s) s) s of
       Some n \<Rightarrow> Ret (Some n) (chosen_log s) | None \<Rightarrow> Ret None s)"
  using choose_loop_eq [OF assms, of "next_possible_thread_idx (current_thread s) s" 0 "MAX_THREADS s"]
  by (simp add: choose_next_thread_def Let_def first_from_def split: option.split)

lemma first_from_None:
  assumes "0 < MAX_THREADS s"
  shows "first_from start s = None \<longleftrightarrow> (\<forall>i < MAX_THREADS s. \<not> can_schedule_thread (int i) s)"
proof -
  let ?n = "MAX_THREADS s"
  have "\<exists>k < ?n. (start + k) mod ?n = i" if "i < ?n" for i
  proof -
    let ?k = "(i + ?n - start mod ?n) mod ?n"
    have "(start + ?k) mod ?n = (start mod ?n + (i + ?n - start mod ?n)) mod ?n"
      by (metis mod_add_eq mod_mod_trivial)
    also have "start mod ?n + (i + ?n - start mod ?n) = i + ?n"
      using assms mod_less_divisor [of ?n start] by linarith
    finally show ?thesis using that assms by (metis mod_add_self2 mod_less mod_less_divisor)
  qed
  moreover have "(start + k) mod ?n < ?n" for k using assms by simp
  ultimately show ?thesis
    unfolding first_from_def by (simp add: find_None_upt) metis
qed

lemma first_from_Some:
  assumes "first_from start s = Some n"
  shows "can_schedule_thread (int n) s"
    and "\<exists>k < MAX_THREADS s. n = (start + k) mod MAX_THREADS s \<and>
      (\<forall>j < k. \<not> can_schedule_thread (int ((start + j) mod MAX_THREADS s)) s)"
  using assms by (auto simp: first_from_def find_Some_upt)

lemma can_schedule_less: "can_schedule_thread (int i) s \<Longrightarrow> i < MAX_THREADS s"
  using can_schedule_valid is_valid_thread_int by blast

section \<open>The switch\<close>

lemma chosen_log_simps [simp]:
  "all_threads (chosen_log s) = all_threads s" "current_thread (chosen_log s) = current_thread s"
  "next_thread (chosen_log s) = next_thread s" "memory (chosen_log s) = memory s"
  "block_tags (chosen_log s) = block_tags s" "backing_refs (chosen_log s) = backing_refs s"
  "build (chosen_log s) = build s" "kernel_config (chosen_log s) = kernel_config s"
  "user_thread_info (chosen_log s) = user_thread_info s"
  by (simp_all add: chosen_log_def)

lemma next_thread_update_kinv:
  "kinv s \<Longrightarrow> ptr_ok p s \<Longrightarrow> kinv (s\<lparr>next_thread := p\<rparr>)"
  by (simp add: kinv_def config_ok_def ptr_ok_def MAX_THREADS_def CODE_BACKING_PAGES_def CODE_PAGE_SIZE_def)

lemma kinv_chosen_log [simp]: "kinv (chosen_log s) = kinv s"
  by (simp add: chosen_log_def)

text \<open>How the scheduler settles on a thread, as an equation.\<close>

lemma pick_next_eq:
  assumes "kinv s"
  shows "pick_next s =
    (case next_thread s of
       Some n \<Rightarrow> Ret n s
     | None \<Rightarrow>
        (case first_from (next_possible_thread_idx (current_thread s) s) s of
           Some n \<Rightarrow> Ret n ((chosen_log s)\<lparr>next_thread := Some n\<rparr>)
         | None \<Rightarrow> Exit 0 (log_scheduler_event ''all threads finished'' (s\<lparr>next_thread := None\<rparr>))))"
proof (cases "next_thread s")
  case None
  show ?thesis
  proof (cases "first_from (next_possible_thread_idx (current_thread s) s) s")
    case first: None
    have pos: "0 < MAX_THREADS s" using kinvD(1) [OF assms] by (simp add: config_ok_def)
    have "\<not> can_schedule_thread (k_get_thread_id s) s"
      using first_from_None [OF pos] first
      by (metis can_schedule_thread_def is_valid_threadE)
    then show ?thesis
      using None first choose_next_eq [OF assms] by (simp add: pick_next_def k_exit_def)
  next
    case (Some n)
    then show ?thesis using None choose_next_eq [OF assms] by (simp add: pick_next_def)
  qed
next
  case (Some n)
  then have "s\<lparr>next_thread := Some n\<rparr> = s" by simp
  with Some show ?thesis by (simp add: pick_next_def)
qed

lemma switch_states_simps [simp]:
  "length (all_threads (switch_states n s)) = length (all_threads s)"
  "current_thread (switch_states n s) = current_thread s"
  "next_thread (switch_states n s) = next_thread s"
  "user_thread_info (switch_states n s) = user_thread_info s"
  "kernel_config (switch_states n s) = kernel_config s"
  "backing_refs (switch_states n s) = backing_refs s"
  "block_tags (switch_states n s) = block_tags s"
  "memory (switch_states n s) = memory s"
  "build (switch_states n s) = build s"
  by (simp_all add: switch_states_def Let_def split: option.split)

lemma switch_states_kinv: "kinv s \<Longrightarrow> kinv (switch_states n s)"
  by (auto simp: switch_states_def Let_def intro!: kinv_upd split: option.split)

text \<open>Afterwards the chosen thread runs, and no other.\<close>

lemma switch_states_state:
  assumes "j < MAX_THREADS s" and "current_thread s = Some c \<Longrightarrow> c < MAX_THREADS s"
    and "n < MAX_THREADS s"
  shows "t_state (thread_at (switch_states n s) j) =
    (if j = n then running
     else if current_thread s = Some j \<and> t_state (thread_at s j) = running then suspended
     else t_state (thread_at s j))"
  using assms by (auto simp: switch_states_def Let_def thread_at_upd MAX_THREADS_def split: option.split)

lemma switch_states_running:
  assumes "running_is (current_thread s) s" and "n < MAX_THREADS s"
  shows "running_is (Some n) (switch_states n s)"
  using assms
  by (auto simp: running_is_def switch_states_def Let_def thread_at_upd MAX_THREADS_def split: option.split)

text \<open>Signal delivery changes the stack pointer, the pending signals and the memory.\<close>

lemma install_signal_handler_simps [simp]:
  "current_thread (install_signal_handler i g s) = current_thread s"
  "next_thread (install_signal_handler i g s) = next_thread s"
  "user_thread_info (install_signal_handler i g s) = user_thread_info s"
  "kernel_config (install_signal_handler i g s) = kernel_config s"
  "backing_refs (install_signal_handler i g s) = backing_refs s"
  "block_tags (install_signal_handler i g s) = block_tags s"
  "build (install_signal_handler i g s) = build s"
  "length (all_threads (install_signal_handler i g s)) = length (all_threads s)"
  by (simp_all add: install_signal_handler_def Let_def)

lemma thread_at_install_signal_handler:
  "thread_at (install_signal_handler i g s) j =
     (if i = j \<and> i < length (all_threads s)
      then (thread_at s i)\<lparr>t_stack_ptr := t_stack_ptr (thread_at s i) - REGISTER_CONTEXT_SIZE\<rparr>
      else thread_at s j)"
  by (simp add: install_signal_handler_def Let_def thread_at_init_register_context)

lemma check_signals_simps [simp]:
  "current_thread (check_signals i s) = current_thread s"
  "next_thread (check_signals i s) = next_thread s"
  "user_thread_info (check_signals i s) = user_thread_info s"
  "kernel_config (check_signals i s) = kernel_config s"
  "backing_refs (check_signals i s) = backing_refs s"
  "block_tags (check_signals i s) = block_tags s"
  "build (check_signals i s) = build s"
  "length (all_threads (check_signals i s)) = length (all_threads s)"
  by (simp_all add: check_signals_def Let_def)

lemma thread_at_check_signals:
  "\<exists>sp ps. thread_at (check_signals i s) j =
     (if i = j \<and> i < length (all_threads s)
      then (thread_at s j)\<lparr>t_stack_ptr := sp, t_pending_signals := ps\<rparr> else thread_at s j)"
proof (cases "i = j \<and> i < length (all_threads s)")
  case True
  have t: "\<exists>sp ps. t = t\<lparr>t_stack_ptr := sp, t_pending_signals := ps\<rparr>" for t :: Thread
    by (intro exI [of _ "t_stack_ptr t"] exI [of _ "t_pending_signals t"]) simp
  have t2: "\<exists>sp ps. t\<lparr>t_stack_ptr := x\<rparr> = t\<lparr>t_stack_ptr := sp, t_pending_signals := ps\<rparr>" for t :: Thread and x
    by (intro exI [of _ x] exI [of _ "t_pending_signals t"]) simp
  have t3: "\<exists>sp ps. t\<lparr>t_pending_signals := x\<rparr> = t\<lparr>t_stack_ptr := sp, t_pending_signals := ps\<rparr>" for t :: Thread and x
    by (intro exI [of _ "t_stack_ptr t"] exI [of _ x]) simp
  from True show ?thesis
    by (auto simp: check_signals_def Let_def thread_at_upd thread_at_install_signal_handler intro: t t2 t3)
next
  case False
  then show ?thesis
    by (auto simp: check_signals_def Let_def thread_at_upd thread_at_install_signal_handler)
qed

lemma check_signals_thread:
  "t_state (thread_at (check_signals i s) j) = t_state (thread_at s j)"
  "thread_inv n j (thread_at (check_signals i s) j) = thread_inv n j (thread_at s j)"
  "t_permissions (thread_at (check_signals i s) j) = t_permissions (thread_at s j)"
  "t_id (thread_at (check_signals i s) j) = t_id (thread_at s j)"
  using thread_at_check_signals [of i s j] by (auto split: if_splits)

lemma kinv_of_threads:
  assumes "kinv s" and "length (all_threads s') = length (all_threads s)"
    and "\<And>j. j < MAX_THREADS s \<Longrightarrow> thread_inv (CODE_BACKING_PAGES s) j (thread_at s' j)"
    and "current_thread s' = current_thread s" "next_thread s' = next_thread s"
    and "block_tags s' = block_tags s" "length (backing_refs s') = length (backing_refs s)" "build s' = build s"
  shows "kinv s'"
  using assms
  by (simp add: kinv_def config_ok_def ptr_ok_def MAX_THREADS_def CODE_BACKING_PAGES_def CODE_PAGE_SIZE_def)

lemma check_signals_kinv: "kinv s \<Longrightarrow> kinv (check_signals i s)"
  by (rule kinv_of_threads [of s]) (auto simp: check_signals_thread dest: kinvD(5))

lemma check_signals_running: "running_is p (check_signals i s) = running_is p s"
  by (simp add: running_is_def check_signals_thread MAX_THREADS_def)

lemma update_info_simps [simp]:
  "current_thread (k_update_user_thread_info i s) = current_thread s"
  "next_thread (k_update_user_thread_info i s) = next_thread s"
  "kernel_config (k_update_user_thread_info i s) = kernel_config s"
  "backing_refs (k_update_user_thread_info i s) = backing_refs s"
  "block_tags (k_update_user_thread_info i s) = block_tags s"
  "memory (k_update_user_thread_info i s) = memory s"
  "build (k_update_user_thread_info i s) = build s"
  "length (all_threads (k_update_user_thread_info i s)) = length (all_threads s)"
  by (simp_all add: k_update_user_thread_info_def Let_def split: option.split)

lemma update_info_thread:
  "\<exists>e. thread_at (k_update_user_thread_info i s) j = (thread_at s j)\<lparr>t_err_no := e\<rparr>"
  by (cases "current_thread s")
    (auto simp: k_update_user_thread_info_def Let_def thread_at_upd, (rule exI [of _ "t_err_no (thread_at s j)"], simp)+)

lemma update_info_kinv: "kinv s \<Longrightarrow> kinv (k_update_user_thread_info i s)"
proof (rule kinv_of_threads [of s])
  fix j assume "kinv s" "j < MAX_THREADS s"
  then show "thread_inv (CODE_BACKING_PAGES s) j (thread_at (k_update_user_thread_info i s) j)"
    using update_info_thread [of i s j] kinvD(5) [of s j] by auto
qed simp_all

lemma update_info_running: "running_is p (k_update_user_thread_info i s) = running_is p s"
proof -
  have "t_state (thread_at (k_update_user_thread_info i s) j) = t_state (thread_at s j)" for j
    using update_info_thread [of i s j] by auto
  then show ?thesis by (simp add: running_is_def MAX_THREADS_def)
qed

text \<open>Swapping code pages changes the memory only, and does not go wrong.\<close>

definition same_but_memory :: "kstate \<Rightarrow> kstate \<Rightarrow> bool" where
  "same_but_memory s s' \<longleftrightarrow> (\<exists>m. s' = set_memory m s)"

lemma same_but_memory_refl [simp]: "same_but_memory s s"
  unfolding same_but_memory_def by (rule exI [of _ "memory s"]) (simp add: set_memory_def)

lemma set_memory_twice [simp]: "set_memory m (set_memory m' s) = set_memory m s"
  by (simp add: set_memory_def)

lemma page_in_Ret: "unat p < CODE_BACKING_PAGES s \<Longrightarrow> \<exists>m. page_in p s = Ret () (set_memory m s)"
  by (auto simp: page_in_def)

lemma page_out_Ret: "unat p < CODE_BACKING_PAGES s \<Longrightarrow> \<exists>m. page_out p s = Ret () (set_memory m s)"
  by (auto simp: page_out_def)

lemma pages_set_memory [simp]: "CODE_BACKING_PAGES (set_memory m s) = CODE_BACKING_PAGES s"
  by (simp add: CODE_BACKING_PAGES_def)

lemma kinv_page:
  "kinv s \<Longrightarrow> i < MAX_THREADS s \<Longrightarrow> 0 < CODE_BACKING_PAGES s \<Longrightarrow>
   t_code_backing_page (thread_at s i) \<noteq> INVALID_PAGE \<Longrightarrow>
   unat (t_code_backing_page (thread_at s i)) < CODE_BACKING_PAGES s"
  using kinvD(5) [of s i] by (auto simp: thread_inv_def)

lemma swap_Ret:
  assumes "kinv s" and "0 < CODE_BACKING_PAGES s" and "n < MAX_THREADS s"
  shows "\<exists>m. swap_paged_threads (current_thread s) (Some n) s = Ret () (set_memory m s)"
proof (cases "current_thread s = Some n")
  case True
  then show ?thesis
    by (intro exI [of _ "memory s"]) (simp add: swap_paged_threads_def set_memory_def)
next
  case False
  let ?pn = "t_code_backing_page (thread_at s n)"
  have id: "\<exists>m'. set_memory m s = set_memory m' s" for m by blast
  have id0: "\<exists>m'. s = set_memory m' s" by (rule exI [of _ "memory s"]) (simp add: set_memory_def)
  have in_page: "\<exists>m'. (if ?pn \<noteq> INVALID_PAGE then page_in ?pn (set_memory m s) else Ret () (set_memory m s))
      = Ret () (set_memory m' s)" for m
    using page_in_Ret [of ?pn "set_memory m s"] kinv_page [OF assms(1,3,2)] by auto
  have out: "\<exists>m'. (case current_thread s of
        Some c \<Rightarrow> if t_code_backing_page (thread_at s c) \<noteq> INVALID_PAGE
                  then page_out (t_code_backing_page (thread_at s c)) s else Ret () s
      | None \<Rightarrow> Ret () s) = Ret () (set_memory m' s)"
    using page_out_Ret kinv_page [OF assms(1) _ assms(2)] kinv_current [OF assms(1)] id0
    by (auto split: option.split)
  then obtain m where m: "(case current_thread s of
        Some c \<Rightarrow> if t_code_backing_page (thread_at s c) \<noteq> INVALID_PAGE
                  then page_out (t_code_backing_page (thread_at s c)) s else Ret () s
      | None \<Rightarrow> Ret () s) = Ret () (set_memory m s)" by blast
  from in_page [of m] False m show ?thesis
    by (cases "current_thread s") (auto simp: swap_paged_threads_def)
qed

section \<open>The scheduler as a whole\<close>

lemma do_scheduler_from:
  assumes "kinv s" and "pick_next s0 = Ret n s" and "next_thread s = Some n" and "n < MAX_THREADS s"
  shows "\<exists>m. do_scheduler s0 =
    Ret () (k_update_user_thread_info n (check_signals n (set_memory m (switch_states n s))))"
proof (cases "0 < CODE_BACKING_PAGES s")
  case True
  have "kinv (switch_states n s)" using switch_states_kinv [OF assms(1)] .
  moreover have "0 < CODE_BACKING_PAGES (switch_states n s)" using True by (simp add: CODE_BACKING_PAGES_def)
  moreover have "n < MAX_THREADS (switch_states n s)" using assms(4) by (simp add: MAX_THREADS_def)
  ultimately obtain m where
    "swap_paged_threads (current_thread (switch_states n s)) (Some n) (switch_states n s) =
      Ret () (set_memory m (switch_states n s))"
    using swap_Ret by blast
  then show ?thesis
    using True assms(2,3) by (intro exI [of _ m]) (simp add: do_scheduler_def Let_def CODE_BACKING_PAGES_def)
next
  case False
  then show ?thesis
    using assms(2,3)
    by (intro exI [of _ "memory s"]) (simp add: do_scheduler_def Let_def CODE_BACKING_PAGES_def set_memory_def switch_states_def upd_thread_def split: option.split)
qed

lemma pick_next_Ret:
  assumes "kinv s0" and "pick_next s0 = Ret n s"
  shows "kinv s" and "next_thread s = Some n" and "n < MAX_THREADS s"
    and "all_threads s = all_threads s0" and "current_thread s = current_thread s0"
proof -
  have "kinv s \<and> next_thread s = Some n \<and> n < MAX_THREADS s \<and> all_threads s = all_threads s0 \<and>
      current_thread s = current_thread s0"
  proof (cases "next_thread s0")
    case None
    then obtain m where first: "first_from (next_possible_thread_idx (current_thread s0) s0) s0 = Some m"
      and s: "s = (chosen_log s0)\<lparr>next_thread := Some m\<rparr>" and "m = n"
      using assms(2) pick_next_eq [OF assms(1)] by (auto split: option.splits)
    moreover have "m < MAX_THREADS s0" using can_schedule_less first_from_Some(1) [OF first] by blast
    moreover have "MAX_THREADS (chosen_log s0) = MAX_THREADS s0" by (simp add: MAX_THREADS_def)
    ultimately show ?thesis
      using next_thread_update_kinv [of "chosen_log s0" "Some m"] assms(1)
      by (simp add: ptr_ok_def MAX_THREADS_def)
  next
    case (Some m)
    then show ?thesis using assms pick_next_eq [OF assms(1)] kinvD(3) [OF assms(1)] by (simp add: ptr_ok_def)
  qed
  then show "kinv s" and "next_thread s = Some n" and "n < MAX_THREADS s"
    and "all_threads s = all_threads s0" and "current_thread s = current_thread s0" by auto
qed

text \<open>The scheduler returns with the invariant, or ends the system with status 0.\<close>

lemma do_scheduler_sane:
  assumes "kinv s" and "running_is (current_thread s) s"
  shows "(\<exists>s' n. do_scheduler s = Ret () s' \<and> sane s' \<and> next_thread s' = Some n \<and> n < MAX_THREADS s' \<and>
           t_state (thread_at s' n) = running \<and> current_thread s' = current_thread s) \<or>
         (\<exists>s'. do_scheduler s = Exit 0 s')"
proof (cases "pick_next s")
  case (Ret n s1)
  note p = pick_next_Ret [OF assms(1) Ret]
  obtain m where m: "do_scheduler s =
      Ret () (k_update_user_thread_info n (check_signals n (set_memory m (switch_states n s1))))"
    using do_scheduler_from [OF p(1) Ret p(2,3)] by blast
  let ?s2 = "set_memory m (switch_states n s1)"
  let ?s' = "k_update_user_thread_info n (check_signals n ?s2)"
  have run: "running_is (Some n) (switch_states n s1)"
    using switch_states_running [of s1 n] running_cong [OF p(4)] assms(2) p(3,5) by simp
  have "sane ?s'"
    unfolding sane_def using p(2) run switch_states_kinv [OF p(1)]
    by (simp add: update_info_kinv check_signals_kinv update_info_running check_signals_running)
  moreover have "t_state (thread_at ?s' n) = running"
    using update_info_thread [of n "check_signals n ?s2" n] switch_states_state [OF p(3) _ p(3)] kinv_current [OF p(1)]
    by (auto simp: check_signals_thread)
  moreover have "next_thread ?s' = Some n" "n < MAX_THREADS ?s'" "current_thread ?s' = current_thread s"
    using p by (simp_all add: MAX_THREADS_def)
  ultimately show ?thesis using m by blast
next
  case (Exit x s1)
  then show ?thesis
    using pick_next_eq [OF assms(1)] by (auto simp: do_scheduler_def split: option.splits)
next
  case Undef
  then show ?thesis using pick_next_eq [OF assms(1)] by (auto split: option.splits)
qed

section \<open>Properties\<close>

lemma next_idx_cases:
  assumes "kinv s" and "current_thread s = Some c"
  shows "next_possible_thread_idx (current_thread s) s =
    (if can_schedule_thread (t_child (thread_at s c)) s then nat (t_child (thread_at s c))
     else if can_schedule_thread (t_parent (thread_at s c)) s then nat (t_parent (thread_at s c))
     else c + 1)"
  using assms can_schedule_valid by (auto simp: next_possible_thread_idx_def Let_def)

lemma first_from_here:
  assumes "can_schedule_thread tid s"
  shows "first_from (nat tid) s = Some (nat tid)"
proof -
  have v: "nat tid < MAX_THREADS s" "int (nat tid) = tid"
    using valid_less [OF can_schedule_valid [OF assms]] by auto
  then have "[0..<MAX_THREADS s] = 0 # [1..<MAX_THREADS s]" by (simp add: upt_conv_Cons)
  with v assms show ?thesis by (simp add: first_from_def)
qed

lemma do_scheduler_Ret:
  assumes "kinv s" and "next_thread s = None" and "do_scheduler s = Ret u s'"
  obtains n where "first_from (next_possible_thread_idx (current_thread s) s) s = Some n"
    and "next_thread s' = Some n" and "n < MAX_THREADS s"
    and "\<And>j. j < MAX_THREADS s \<Longrightarrow> t_state (thread_at s' j) =
      (if j = n then running
       else if current_thread s = Some j \<and> t_state (thread_at s j) = running then suspended
       else t_state (thread_at s j))"
    and "\<And>j. t_id (thread_at s' j) = t_id (thread_at s j) \<and> t_child (thread_at s' j) = t_child (thread_at s j) \<and>
      t_parent (thread_at s' j) = t_parent (thread_at s j) \<and>
      t_permissions (thread_at s' j) = t_permissions (thread_at s j)"
    and "current_thread s' = current_thread s" and "MAX_THREADS s' = MAX_THREADS s"
proof -
  obtain n s1 where pick: "pick_next s = Ret n s1"
    using assms(3) by (auto simp: do_scheduler_def obind_eq_Ret)
  note p = pick_next_Ret [OF assms(1) pick]
  have first: "first_from (next_possible_thread_idx (current_thread s) s) s = Some n"
    using pick pick_next_eq [OF assms(1)] assms(2) by (auto split: option.splits)
  obtain m where m: "do_scheduler s =
      Ret () (k_update_user_thread_info n (check_signals n (set_memory m (switch_states n s1))))"
    using do_scheduler_from [OF p(1) pick p(2,3)] by blast
  let ?s2 = "check_signals n (set_memory m (switch_states n s1))"
  have s': "s' = k_update_user_thread_info n ?s2" using m assms(3) by simp
  have MT: "MAX_THREADS s1 = MAX_THREADS s" using p(4) by (simp add: MAX_THREADS_def)
  show ?thesis
  proof (rule that [OF first])
    show "next_thread s' = Some n" "n < MAX_THREADS s" "current_thread s' = current_thread s"
      "MAX_THREADS s' = MAX_THREADS s"
      using s' p MT by (simp_all add: MAX_THREADS_def)
    fix j
    show "t_state (thread_at s' j) =
      (if j = n then running
       else if current_thread s = Some j \<and> t_state (thread_at s j) = running then suspended
       else t_state (thread_at s j))" if "j < MAX_THREADS s"
      using update_info_thread [of n ?s2 j] check_signals_thread(1) [of n "set_memory m (switch_states n s1)" j]
        switch_states_state [of j s1 n] kinv_current [OF p(1)] that p(3-5) MT
      by (auto simp: s')
    obtain e where e: "thread_at s' j = (thread_at ?s2 j)\<lparr>t_err_no := e\<rparr>"
      using update_info_thread [of n ?s2 j] s' by auto
    obtain sp ps where sp: "thread_at ?s2 j = (thread_at (switch_states n s1) j)\<lparr>t_stack_ptr := sp, t_pending_signals := ps\<rparr> \<or>
        thread_at ?s2 j = thread_at (switch_states n s1) j"
      using thread_at_check_signals [of n "set_memory m (switch_states n s1)" j] by (auto split: if_splits)
    have "\<exists>st. thread_at (switch_states n s1) j = (thread_at s1 j)\<lparr>t_state := st\<rparr>"
    proof -
      have "\<exists>st. t\<lparr>t_state := x\<rparr> = t\<lparr>t_state := st\<rparr>" "\<exists>st. t = t\<lparr>t_state := st\<rparr>" for t :: Thread and x
        by (rule exI [of _ x], simp) (rule exI [of _ "t_state t"], simp)
      then show ?thesis by (auto simp: switch_states_def Let_def thread_at_upd split: option.split)
    qed
    then show "t_id (thread_at s' j) = t_id (thread_at s j) \<and> t_child (thread_at s' j) = t_child (thread_at s j) \<and>
      t_parent (thread_at s' j) = t_parent (thread_at s j) \<and>
      t_permissions (thread_at s' j) = t_permissions (thread_at s j)"
      using e sp p(4) by auto
  qed
qed

lemma do_scheduler_runs:
  assumes "kinv s" and "next_thread s = None"
    and "first_from (next_possible_thread_idx (current_thread s) s) s = Some n"
  shows "\<exists>s'. do_scheduler s = Ret () s'"
proof -
  have p: "pick_next s = Ret n ((chosen_log s)\<lparr>next_thread := Some n\<rparr>)"
    using pick_next_eq [OF assms(1)] assms(2,3) by simp
  show ?thesis
    using do_scheduler_from [OF pick_next_Ret(1) [OF assms(1) p] p pick_next_Ret(2,3) [OF assms(1) p]] by blast
qed

text \<open>C4: When the scheduler has to choose, it takes a thread that can run: the child of the current
  thread if that can run, else the parent if that can run, else the first one behind the current
  thread around the table. That thread is then the only one running; the current thread, if it
  was running, is suspended, and no other thread changes state.\<close>

theorem do_scheduler_choice:
  assumes "kinv s" and "next_thread s = None" and "current_thread s = Some c"
    and "do_scheduler s = Ret () s'"
  shows "\<exists>n. next_thread s' = Some n \<and> can_schedule_thread (int n) s \<and>
    (if can_schedule_thread (t_child (thread_at s c)) s then int n = t_child (thread_at s c)
     else if can_schedule_thread (t_parent (thread_at s c)) s then int n = t_parent (thread_at s c)
     else \<exists>k < MAX_THREADS s. n = (c + 1 + k) mod MAX_THREADS s \<and>
       (\<forall>j < k. \<not> can_schedule_thread (int ((c + 1 + j) mod MAX_THREADS s)) s)) \<and>
    (\<forall>j < MAX_THREADS s. t_state (thread_at s' j) =
      (if j = n then running
       else if j = c \<and> t_state (thread_at s j) = running then suspended
       else t_state (thread_at s j)))"
proof -
  obtain n where n: "first_from (next_possible_thread_idx (current_thread s) s) s = Some n"
    "next_thread s' = Some n"
    "\<And>j. j < MAX_THREADS s \<Longrightarrow> t_state (thread_at s' j) =
      (if j = n then running
       else if current_thread s = Some j \<and> t_state (thread_at s j) = running then suspended
       else t_state (thread_at s j))"
    by (rule do_scheduler_Ret [OF assms(1,2,4)]) blast
  have sched: "can_schedule_thread (int n) s" using first_from_Some(1) [OF n(1)] .
  have nonneg: "can_schedule_thread t s \<Longrightarrow> int (nat t) = t" for t
    using valid_less can_schedule_valid by blast
  have child: "int n = t_child (thread_at s c)" if "can_schedule_thread (t_child (thread_at s c)) s"
  proof -
    have "n = nat (t_child (thread_at s c))"
      using n(1) next_idx_cases [OF assms(1,3)] that first_from_here [OF that] by simp
    then show ?thesis using nonneg [OF that] by simp
  qed
  have parent: "int n = t_parent (thread_at s c)"
    if "\<not> can_schedule_thread (t_child (thread_at s c)) s" "can_schedule_thread (t_parent (thread_at s c)) s"
  proof -
    have "n = nat (t_parent (thread_at s c))"
      using n(1) next_idx_cases [OF assms(1,3)] that first_from_here [OF that(2)] by simp
    then show ?thesis using nonneg [OF that(2)] by simp
  qed
  have walk: "\<exists>k < MAX_THREADS s. n = (c + 1 + k) mod MAX_THREADS s \<and>
       (\<forall>j < k. \<not> can_schedule_thread (int ((c + 1 + j) mod MAX_THREADS s)) s)"
    if "\<not> can_schedule_thread (t_child (thread_at s c)) s" "\<not> can_schedule_thread (t_parent (thread_at s c)) s"
    by (rule first_from_Some(2)) (use n(1) next_idx_cases [OF assms(1,3)] that in simp)
  have "if can_schedule_thread (t_child (thread_at s c)) s then int n = t_child (thread_at s c)
     else if can_schedule_thread (t_parent (thread_at s c)) s then int n = t_parent (thread_at s c)
     else \<exists>k < MAX_THREADS s. n = (c + 1 + k) mod MAX_THREADS s \<and>
       (\<forall>j < k. \<not> can_schedule_thread (int ((c + 1 + j) mod MAX_THREADS s)) s)"
    using child parent walk by (simp split: if_split)
  with n sched assms(3) show ?thesis by auto
qed

text \<open>C5: The scheduler never gets stuck and never meets an inconsistent thread table: when some
  thread can run it returns; when none can, it ends the system with status 0, so the system stops
  only when every thread is finished, cancelled, waiting or gone.\<close>

theorem do_scheduler_total:
  assumes "kinv s" and "running_is (current_thread s) s" and "next_thread s = None"
  shows "if \<exists>i < MAX_THREADS s. can_schedule_thread (int i) s
    then \<exists>s'. do_scheduler s = Ret () s' else \<exists>s'. do_scheduler s = Exit 0 s'"
proof -
  let ?first = "first_from (next_possible_thread_idx (current_thread s) s) s"
  have pos: "0 < MAX_THREADS s" using kinvD(1) [OF assms(1)] by (simp add: config_ok_def)
  show ?thesis
  proof (cases ?first)
    case None
    then have "pick_next s = Exit 0 (log_scheduler_event ''all threads finished'' (s\<lparr>next_thread := None\<rparr>))"
      using pick_next_eq [OF assms(1)] assms(3) by simp
    with None first_from_None [OF pos] show ?thesis by (simp add: do_scheduler_def)
  next
    case (Some n)
    then have "can_schedule_thread (int n) s" "n < MAX_THREADS s"
      using first_from_Some(1) can_schedule_less by blast+
    moreover have "\<exists>s'. do_scheduler s = Ret () s'" using do_scheduler_runs [OF assms(1,3) Some] .
    ultimately show ?thesis by auto
  qed
qed

section \<open>Properties at a concrete state\<close>

lemma demo_kinv: "kinv demo_state"
proof -
  have "thread_inv 0 i (thread_at demo_state i)" if "i < 3" for i
    using that by (auto simp: thread_inv_def less_Suc_eq numeral_3_eq_3)
  then show ?thesis
    using demo_heap_ok demo_heap_region by (simp add: kinv_def config_ok_def ptr_ok_def)
qed

lemma demo_running: "running_is (Some 0) demo_state"
  by (auto simp: running_is_def less_Suc_eq numeral_3_eq_3)

lemma demo_can_schedule [simp]:
  "can_schedule_thread 0 demo_state" "can_schedule_thread 1 demo_state" "can_schedule_thread 2 demo_state"
  "\<not> can_schedule_thread (- 1) demo_state"
  by (simp_all add: can_schedule_thread_def) (simp add: is_valid_thread_def)

theorem do_scheduler_total_witness: "\<exists>s'. do_scheduler demo_state = Ret () s'"
  using do_scheduler_total [OF demo_kinv] demo_running
  by (auto split: if_splits dest!: spec [of _ 0])

lemma demo_scheduled: "\<exists>s'. do_scheduler demo_state = Ret () s'"
proof -
  have "first_from (next_possible_thread_idx (current_thread demo_state) demo_state) demo_state = Some 1"
    using next_idx_cases [OF demo_kinv demo_state_simps(2)] first_from_here [of 1 demo_state] by simp
  then show ?thesis using do_scheduler_runs [OF demo_kinv] by simp
qed

theorem do_scheduler_choice_witness:
  "\<exists>s'. do_scheduler demo_state = Ret () s' \<and> next_thread s' = Some 1"
proof -
  obtain s' where s': "do_scheduler demo_state = Ret () s'" using demo_scheduled by blast
  have "n = 1" if "k < 3" "n = (1 + k) mod 3" "\<forall>j < k. \<not> can_schedule_thread (int ((1 + j) mod 3)) demo_state" for n k :: nat
    using that by (cases k) (auto dest!: spec [of _ 0])
  with do_scheduler_choice [OF demo_kinv demo_state_simps(3,2) s'] s' show ?thesis by auto
qed

end
