(* ===== verification/Threads.thy ===== *)
theory Threads
  imports Scheduler
begin

text \<open>
  Creation and restart of threads, \<open>src/kernel/thread.c\<close>: the initial state of an entry of the
  thread table, finding a free entry, inheriting permissions and code pages, and preparing a
  thread that loads a program from a file.
\<close>

section \<open>Initial state\<close>

text \<open>
  A pointer to arguments is what it reads from the memory when it is read: a user's pointer reads
  the memory, an object of the kernel does not change.
\<close>

type_synonym args_ptr = "mem \<Rightarrow> ThreadArgs"

definition load_args :: "size_t \<Rightarrow> args_ptr" where
  "load_args p m = make_args (load32 m p) (load32 m (p + 4)) (load32 m (p + 8)) (load32 m (p + 12))"

definition no_args :: ThreadArgs where
  "no_args = make_args 0 0 0 0"

definition args_bytes :: "ThreadArgs \<Rightarrow> byte list" where
  "args_bytes a = bytes32 (a1 a) @ bytes32 (a2 a) @ bytes32 (a3 a) @ bytes32 (a4 a)"

definition SIZEOF_ThreadArgs :: size_t where
  "SIZEOF_ThreadArgs = 16"

definition init_thread ::
  "nat \<Rightarrow> int \<Rightarrow> byte list option \<Rightarrow> size_t \<Rightarrow> args_ptr \<Rightarrow> u16 \<Rightarrow> kstate \<Rightarrow> kstate" where
  "init_thread i tid name do_work args perms s0 =
     (let m = memory s0;
          s = upd_thread i (\<lambda>t. t\<lparr>t_work := do_work, t_signal_handler := NULL, t_state := init,
                t_pending_signals := 0, t_id := tid, t_args := args m,
                t_parent := INVALID_THREAD, t_child := INVALID_THREAD,
                t_permissions := perms, t_err_no := 0\<rparr>) s0;
          s = upd_thread i (k_set_thread_name name) s;
          s = upd_thread i (\<lambda>t. t\<lparr>t_next_msg := 0, t_end_msgs := 0, t_msgs_full := False\<rparr>) s;
          s = (if CODE_PAGE_SIZE s = 0 then s
               else upd_thread i (\<lambda>t. t\<lparr>t_in_code_page := False\<rparr>) s);
          s = (if CODE_PAGE_SIZE s = 0 \<or> CODE_BACKING_PAGES s = 0 then s
               else upd_thread i (\<lambda>t. t\<lparr>t_code_backing_page := INVALID_PAGE\<rparr>) s);
          s = upd_thread i (\<lambda>t. t\<lparr>t_bottom_canary := STACK_CANARY, t_top_canary := STACK_CANARY\<rparr>) s;
          stack_ptr = t_stack (thread_at s i) + THREAD_STACK_SIZE
      in init_register_context i (upd_thread i (\<lambda>t. t\<lparr>t_stack_ptr := ALIGN_STACK_PTR stack_ptr\<rparr>) s))"

definition init_threads :: "kstate \<Rightarrow> kstate" where
  "init_threads s =
     fold (\<lambda>idx. init_thread idx INVALID_THREAD None NULL (\<lambda>_. no_args) TPERM_NONE) [0..<MAX_THREADS s] s"

section \<open>Code pages of new threads\<close>

definition find_free_backing_page :: "kstate \<Rightarrow> size_t" where
  "find_free_backing_page s =
     (case find (\<lambda>i. backing_refs s ! i = 0) [0..<CODE_BACKING_PAGES s] of
        Some i \<Rightarrow> of_nat i | None \<Rightarrow> INVALID_PAGE)"

definition code_page_in_use_by :: "kstate \<Rightarrow> int" where
  "code_page_in_use_by s =
     (case find (\<lambda>i. t_in_code_page (thread_at s i)) [0..<MAX_THREADS s] of
        Some i \<Rightarrow> t_id (thread_at s i) | None \<Rightarrow> INVALID_THREAD)"

definition inc_ref :: "size_t \<Rightarrow> kstate \<Rightarrow> kstate" where
  "inc_ref page s = s\<lparr>backing_refs := (backing_refs s)[unat page := backing_refs s ! unat page + 1]\<rparr>"

definition setup_code_page :: "nat \<Rightarrow> kstate \<Rightarrow> unit kresult" where
  "setup_code_page idx s =
     (if 0 < CODE_BACKING_PAGES s then
        (case current_thread s of
           Some cur \<Rightarrow>
             (let page = t_code_backing_page (thread_at s cur) in
              if page = INVALID_PAGE then Ret () s
              else if unat page \<ge> CODE_BACKING_PAGES s then Undef
              else Ret () (inc_ref page (upd_thread idx (\<lambda>t. t\<lparr>t_code_backing_page := page\<rparr>) s)))
         | None \<Rightarrow> Ret () s)
      else
        (case current_thread s of
           Some cur \<Rightarrow>
             if t_in_code_page (thread_at s cur)
             then Ret () (upd_thread idx (\<lambda>t. t\<lparr>t_in_code_page := True\<rparr>) s) else Ret () s
         | None \<Rightarrow> Ret () s))"

section \<open>New threads\<close>

definition slot_free :: "Thread \<Rightarrow> bool" where
  "slot_free t \<longleftrightarrow> t_id t = INVALID_THREAD \<or> t_state t = cancelled \<or> t_state t = finished"

definition k_add_named_thread_with_args ::
  "size_t \<Rightarrow> byte list option \<Rightarrow> args_ptr \<Rightarrow> u16 \<Rightarrow> kstate \<Rightarrow> int kresult" where
  "k_add_named_thread_with_args worker name args remove_perms s =
     (case find (\<lambda>idx. slot_free (thread_at s idx)) [0..<MAX_THREADS s] of
        Some idx \<Rightarrow>
          (let perms = (case current_thread s of
                          Some c \<Rightarrow> t_permissions (thread_at s c) | None \<Rightarrow> TPERM_ALL);
               perms = perms AND NOT remove_perms;
               s = init_thread idx (int idx) name worker args perms s
           in obind (if CODE_PAGE_SIZE s = 0 then Ret () s else setup_code_page idx s)
                (\<lambda>_ s. Ret (int idx) s))
      | None \<Rightarrow> Ret INVALID_THREAD s)"

text \<open>Moves the frame down, and puts the arguments and the file name at the top of the stack.\<close>

definition prepare_loader_stack :: "nat \<Rightarrow> size_t \<Rightarrow> args_ptr \<Rightarrow> kstate \<Rightarrow> unit kresult" where
  "prepare_loader_stack tid filename args s =
     (case strlen (memory s) filename of
        None \<Rightarrow> Undef
      | Some len \<Rightarrow>
          (let filename_len = len + 1;
               stack_ptr = t_stack_ptr (thread_at s tid);
               new_stack_ptr = ALIGN_STACK_PTR (stack_ptr - filename_len - SIZEOF_ThreadArgs);
               s = set_memory (memmove (memory s) new_stack_ptr stack_ptr REGISTER_CONTEXT_SIZE) s;
               s = upd_thread tid (\<lambda>t. t\<lparr>t_stack_ptr := new_stack_ptr\<rparr>) s;
               args_dest = t_stack (thread_at s tid) + THREAD_STACK_SIZE - SIZEOF_ThreadArgs;
               s = set_memory (store_bytes (memory s) args_dest (args_bytes (args (memory s)))) s;
               s = upd_thread tid (\<lambda>t. t\<lparr>t_args := (t_args t)\<lparr>a3 := args_dest\<rparr>\<rparr>) s;
               filename_dest = args_dest - filename_len;
               s = set_memory (memcpy (memory s) filename_dest filename filename_len) s
           in Ret () (upd_thread tid (\<lambda>t. t\<lparr>t_args := (t_args t)\<lparr>a4 := filename_dest\<rparr>\<rparr>) s)))"

definition k_add_thread_from_file_with_args :: "size_t \<Rightarrow> args_ptr \<Rightarrow> u16 \<Rightarrow> kstate \<Rightarrow> int kresult" where
  "k_add_thread_from_file_with_args filename args remove_perms s =
     (let backing = 0 < CODE_BACKING_PAGES s;
          free_page = find_free_backing_page s in
      if (if backing then free_page = INVALID_PAGE else code_page_in_use_by s \<noteq> INVALID_THREAD)
      then Ret INVALID_THREAD (if current_thread s \<noteq> None then set_errno E_NO_PAGE s else s)
      else
        (let dest = (if backing then backing_data free_page s else b_code_page (build s));
             load_arguments = make_args dest (ucast remove_perms) NULL NULL in
         obind (k_add_named_thread_with_args (b_load_elf (build s)) (Some (map of_char ''loader''))
                  (\<lambda>_. load_arguments) 0 s) (\<lambda>tid s.
         if tid = INVALID_THREAD then Ret INVALID_THREAD s
         else obind (prepare_loader_stack (nat tid) filename args s) (\<lambda>_ s.
           Ret tid (if backing
             then inc_ref free_page (upd_thread (nat tid) (\<lambda>t. t\<lparr>t_code_backing_page := free_page\<rparr>) s)
             else upd_thread (nat tid) (\<lambda>t. t\<lparr>t_in_code_page := True\<rparr>) s)))))"

section \<open>The calls\<close>

text \<open>A name argument: \<open>strncpy\<close> reads at most \<open>THREAD_NAME_MAX_LEN\<close> bytes of it.\<close>

definition name_arg :: "mem \<Rightarrow> size_t \<Rightarrow> byte list option" where
  "name_arg m p = (if p = NULL then None else Some (load_bytes m p THREAD_NAME_MAX_LEN))"

definition load_flags :: "mem \<Rightarrow> size_t \<Rightarrow> ThreadFlags" where
  "load_flags m p = \<lparr>is_file = (m p \<noteq> 0), remove_permissions = load16 m (p + 2)\<rparr>"

definition k_restart :: "size_t \<Rightarrow> size_t \<Rightarrow> size_t \<Rightarrow> u16 \<Rightarrow> kstate \<Rightarrow> unit kresult" where
  "k_restart worker name args remove_perms s0 =
     on_current s0 (\<lambda>c.
       let t0 = thread_at s0 c;
           s = init_thread c (t_id t0) (name_arg (memory s0) name) worker (load_args args)
                 (t_permissions t0 AND NOT remove_perms) s0;
           s = upd_thread c (\<lambda>t. t\<lparr>t_parent := t_parent t0\<rparr>) s;
           s = (if CODE_PAGE_SIZE s = 0 then s
                else upd_thread c (\<lambda>t. t\<lparr>t_in_code_page := t_in_code_page t0\<rparr>) s);
           s = (if CODE_PAGE_SIZE s = 0 \<or> CODE_BACKING_PAGES s = 0 then s
                else upd_thread c (\<lambda>t. t\<lparr>t_code_backing_page := t_code_backing_page t0\<rparr>) s)
       in if CODE_BACKING_PAGES s = 0 then Ret () s
          else swap_paged_threads (current_thread s) None s)"

definition k_add_thread :: "size_t \<Rightarrow> size_t \<Rightarrow> size_t \<Rightarrow> size_t \<Rightarrow> kstate \<Rightarrow> int kresult" where
  "k_add_thread name args worker flags s =
     (if flags = NULL then Ret INVALID_THREAD (set_errno E_INVALID_ARGS s)
      else if k_has_no_permission TPERM_CREATE s then Ret INVALID_THREAD s
      else
        (let args_p = (if args = NULL then (\<lambda>_. no_args) else load_args args);
             fl = load_flags (memory s) flags in
         if is_file fl then
           (if CODE_PAGE_SIZE s = 0 then obind (k_assert False s) (\<lambda>_ s. Undef)
            else k_add_thread_from_file_with_args worker args_p (remove_permissions fl) s)
         else k_add_named_thread_with_args worker (name_arg (memory s) name) args_p
                (remove_permissions fl) s))"

text \<open>
  The end of \<open>thread_start\<close>, after the thread's own function has returned. It runs in the
  thread, not in the kernel; \<open>event\<close> is what its log call prints.
\<close>

definition thread_start_end :: "string \<Rightarrow> kstate \<Rightarrow> unit kresult" where
  "thread_start_end event s =
     on_current s (\<lambda>c. obind (cleanup_thread c s) (\<lambda>_ s.
       let s = serial_print event s in
       on_current s (\<lambda>c. Ret () (upd_thread c (\<lambda>t. t\<lparr>t_state := finished\<rparr>) s))))"

end
