(* ===== verification/Mutex.thy ===== *)
theory Mutex
  imports Demo
begin

text \<open>
  Mutexes, \<open>src/kernel/mutex.c\<close>: an int in the memory of the user that holds the id of the thread
  that has locked it, or \<open>INVALID_THREAD\<close>.
\<close>

section \<open>Operations\<close>

definition MUTEX_INIT :: u32 where "MUTEX_INIT = 0"
definition MUTEX_LOCK :: u32 where "MUTEX_LOCK = 1"
definition MUTEX_UNLOCK :: u32 where "MUTEX_UNLOCK = 2"

lemmas mutex_ops = MUTEX_INIT_def MUTEX_LOCK_def MUTEX_UNLOCK_def

text \<open>The owner that the memory holds.\<close>

definition mutex_owner :: "size_t \<Rightarrow> kstate \<Rightarrow> int" where
  "mutex_owner m s = sint (load32 (memory s) m)"

definition set_owner :: "size_t \<Rightarrow> int \<Rightarrow> kstate \<Rightarrow> kstate" where
  "set_owner m owner s = set_memory (store32 (memory s) m (word_of_int owner)) s"

definition k_init_mutex :: "size_t \<Rightarrow> kstate \<Rightarrow> bool \<times> kstate" where
  "k_init_mutex m s = (True, set_owner m INVALID_THREAD s)"

definition k_unlock_mutex :: "size_t \<Rightarrow> kstate \<Rightarrow> bool \<times> kstate" where
  "k_unlock_mutex m s =
     (if k_get_thread_id s = mutex_owner m s then (True, set_owner m INVALID_THREAD s) else (False, s))"

definition k_lock_mutex :: "size_t \<Rightarrow> kstate \<Rightarrow> bool \<times> kstate" where
  "k_lock_mutex m s =
     (let id = k_get_thread_id s in
      if mutex_owner m s = INVALID_THREAD then (True, set_owner m id s) else (False, s))"

definition k_mutex :: "u32 \<Rightarrow> size_t \<Rightarrow> kstate \<Rightarrow> bool kresult" where
  "k_mutex op m s =
     (let mutex_fn = (if op = MUTEX_INIT then Some k_init_mutex
                      else if op = MUTEX_LOCK then Some k_lock_mutex
                      else if op = MUTEX_UNLOCK then Some k_unlock_mutex
                      else None)
      in case mutex_fn of
           None \<Rightarrow> Ret False (set_errno E_INVALID_ARGS s)
         | Some fn \<Rightarrow>
             if m = NULL then Ret False (set_errno E_INVALID_ARGS s)
             else (let (res, s') = fn m s in Ret res s'))"

section \<open>One owner at a time\<close>

definition int32 :: "int \<Rightarrow> bool" where
  "int32 n \<longleftrightarrow> - 2147483648 \<le> n \<and> n < 2147483648"

lemma sint_of_int32: "int32 n \<Longrightarrow> sint (word_of_int n :: u32) = n"
  by (simp add: int32_def sint_sbintrunc' signed_take_bit_int_eq_self)

lemma mutex_owner_set [simp]: "int32 n \<Longrightarrow> mutex_owner m (set_owner m n s) = n"
  by (simp add: mutex_owner_def set_owner_def mem_simps sint_of_int32)

lemma int32_invalid [simp]: "int32 INVALID_THREAD"
  by (simp add: int32_def INVALID_THREAD_def)

lemma set_owner_simps [simp]:
  "all_threads (set_owner m n s) = all_threads s" "current_thread (set_owner m n s) = current_thread s"
  by (simp_all add: set_owner_def)

lemma k_mutex_frame:
  "k_mutex op m s = Ret b s' \<Longrightarrow> all_threads s' = all_threads s \<and> current_thread s' = current_thread s \<and>
     block_tags s' = block_tags s \<and> backing_refs s' = backing_refs s \<and> build s' = build s \<and>
     next_thread s' = next_thread s"
  by (auto simp: k_mutex_def Let_def k_init_mutex_def k_lock_mutex_def k_unlock_mutex_def set_owner_def
      split: if_splits prod.splits)

section \<open>Sequences of calls\<close>

text \<open>Threads lock and unlock one mutex in any order; the run keeps the calls that succeeded.\<close>

datatype mutex_call = Lock nat | Unlock nat

fun caller :: "mutex_call \<Rightarrow> nat" where
  "caller (Lock i) = i"
| "caller (Unlock i) = i"

fun mutex_op :: "mutex_call \<Rightarrow> u32" where
  "mutex_op (Lock i) = MUTEX_LOCK"
| "mutex_op (Unlock i) = MUTEX_UNLOCK"

fun mutex_run :: "size_t \<Rightarrow> mutex_call list \<Rightarrow> kstate \<Rightarrow> mutex_call list" where
  "mutex_run m [] s = []"
| "mutex_run m (c # cs) s =
     (case k_mutex (mutex_op c) m (s\<lparr>current_thread := Some (caller c)\<rparr>) of
        Ret ok s' \<Rightarrow> (if ok then [c] else []) @ mutex_run m cs s'
      | _ \<Rightarrow> [])"

text \<open>Locks and unlocks alternate, and each unlock is by the thread that has the lock.\<close>

fun alternates :: "nat option \<Rightarrow> mutex_call list \<Rightarrow> bool" where
  "alternates h [] = True"
| "alternates h (Lock i # cs) = (h = None \<and> alternates (Some i) cs)"
| "alternates h (Unlock i # cs) = (h = Some i \<and> alternates None cs)"

definition owner_of :: "nat option \<Rightarrow> int" where
  "owner_of h = (case h of None \<Rightarrow> INVALID_THREAD | Some i \<Rightarrow> int i)"

lemma int_not_invalid: "int i \<noteq> INVALID_THREAD" "INVALID_THREAD \<noteq> int i"
  by (simp_all add: INVALID_THREAD_def)

lemma owner_of_eq [simp]:
  "owner_of h = INVALID_THREAD \<longleftrightarrow> h = None" "int i = owner_of h \<longleftrightarrow> h = Some i"
  by (auto simp: owner_of_def INVALID_THREAD_def split: option.splits)

lemma k_mutex_lock:
  "m \<noteq> NULL \<Longrightarrow> k_mutex MUTEX_LOCK m s =
     (if mutex_owner m s = INVALID_THREAD then Ret True (set_owner m (k_get_thread_id s) s) else Ret False s)"
  by (simp add: k_mutex_def mutex_ops k_lock_mutex_def Let_def)

lemma k_mutex_unlock:
  "m \<noteq> NULL \<Longrightarrow> k_mutex MUTEX_UNLOCK m s =
     (if mutex_owner m s = k_get_thread_id s then Ret True (set_owner m INVALID_THREAD s) else Ret False s)"
  by (auto simp: k_mutex_def mutex_ops k_unlock_mutex_def Let_def)

lemma mutex_owner_current [simp]: "mutex_owner m (s\<lparr>current_thread := p\<rparr>) = mutex_owner m s"
  by (simp add: mutex_owner_def)

lemma mutex_run_alternates:
  assumes "m \<noteq> NULL" and "\<And>c. c \<in> set cs \<Longrightarrow> t_id (thread_at s (caller c)) = int (caller c) \<and> int32 (int (caller c))"
    and "mutex_owner m s = owner_of h"
  shows "alternates h (mutex_run m cs s)"
  using assms(2,3)
proof (induction cs arbitrary: s h)
  case Nil
  then show ?case by simp
next
  case (Cons c cs)
  let ?s = "s\<lparr>current_thread := Some (caller c)\<rparr>"
  have id: "k_get_thread_id ?s = int (caller c)" and i32: "int32 (int (caller c))"
    using Cons.prems(1) [of c] by (simp_all add: k_get_thread_id_def)
  have rest: "alternates h' (mutex_run m cs s')" if "all_threads s' = all_threads s" "mutex_owner m s' = owner_of h'" for s' h'
    using Cons.IH [of s' h'] Cons.prems(1) that by simp
  show ?case
  proof (cases c)
    case (Lock i)
    then show ?thesis
      using rest [of ?s h] rest [of "set_owner m (int i) ?s" "Some i"] Cons.prems(2) id i32 assms(1)
      by (cases h) (auto simp: k_mutex_lock owner_of_def int_not_invalid split: if_splits)
  next
    case (Unlock i)
    then show ?thesis
      using rest [of ?s h] rest [of "set_owner m INVALID_THREAD ?s" None] Cons.prems(2) id assms(1)
      by (cases h) (auto simp: k_mutex_unlock owner_of_def int_not_invalid)
  qed
qed

section \<open>Properties\<close>

text \<open>C2: Mutual exclusion: starting from an unlocked mutex, in any sequence of lock and unlock calls
  by any threads the successful ones alternate: a lock succeeds only when nobody holds the mutex,
  and only the thread that holds it can unlock it.\<close>

theorem mutex_exclusion:
  assumes "m \<noteq> NULL" and "mutex_owner m s = INVALID_THREAD"
    and "\<forall>c \<in> set cs. t_id (thread_at s (caller c)) = int (caller c) \<and> int32 (int (caller c))"
  shows "alternates None (mutex_run m cs s)"
  by (rule mutex_run_alternates [OF assms(1)]) (use assms in \<open>auto simp: owner_of_def\<close>)

theorem mutex_exclusion_witness:
  "alternates None (mutex_run 0x100 [Lock 0, Lock 1, Unlock 1, Unlock 0, Lock 1]
     (set_owner 0x100 INVALID_THREAD demo_state))"
proof (rule mutex_exclusion)
  show "\<forall>c \<in> set [Lock 0, Lock 1, Unlock 1, Unlock 0, Lock 1].
      t_id (thread_at (set_owner 0x100 INVALID_THREAD demo_state) (caller c)) = int (caller c) \<and>
      int32 (int (caller c))"
    using demo_id [of 0] demo_id [of 1] by (simp add: int32_def)
qed simp_all

text \<open>The calls on a mutex, on every path: initialising frees it whatever it held; locking it
  succeeds exactly when it is free and makes the caller its owner; unlocking succeeds exactly for
  the owner and frees it; an unknown operation or a NULL mutex fails with the error for invalid
  arguments and leaves the mutex alone.\<close>

theorem mutex_results:
  assumes "int32 (k_get_thread_id s)"
  shows "if op \<notin> {MUTEX_INIT, MUTEX_LOCK, MUTEX_UNLOCK} \<or> m = NULL
      then k_mutex op m s = Ret False (set_errno E_INVALID_ARGS s)
    else if op = MUTEX_INIT
      then \<exists>s'. k_mutex op m s = Ret True s' \<and> mutex_owner m s' = INVALID_THREAD
    else if op = MUTEX_LOCK
      then (if mutex_owner m s = INVALID_THREAD
            then \<exists>s'. k_mutex op m s = Ret True s' \<and> mutex_owner m s' = k_get_thread_id s
            else k_mutex op m s = Ret False s)
    else (if mutex_owner m s = k_get_thread_id s
            then \<exists>s'. k_mutex op m s = Ret True s' \<and> mutex_owner m s' = INVALID_THREAD
            else k_mutex op m s = Ret False s)"
  using assms
  by (auto simp: k_mutex_def mutex_ops k_init_mutex_def k_lock_mutex_def k_unlock_mutex_def Let_def)

theorem mutex_results_witness:
  "k_mutex 7 0x100 demo_state = Ret False (set_errno E_INVALID_ARGS demo_state)"
  using mutex_results [of demo_state 7 "0x100"] by (simp add: int32_def mutex_ops)

end
