(* ===== verification/Condition_Variable.thy ===== *)
theory Condition_Variable
  imports Scheduler Ring Mutex
begin

text \<open>
  Condition variables, \<open>src/kernel/condition_variable.c\<close>: a structure in the memory of the user
  with a circular array of waiting threads. \<open>load_cv\<close> reads the whole structure; the operations
  read and write its fields one by one, as the code does.
\<close>

section \<open>The structure\<close>

record ConditionVariable =
  cv_waiting :: "int list"
  cv_first :: size_t
  cv_last :: size_t
  cv_full :: bool

definition cv_waiting_at :: "size_t \<Rightarrow> size_t \<Rightarrow> size_t" where
  "cv_waiting_at cv i = cv + 4 * i"

definition cv_first_at :: "size_t \<Rightarrow> kstate \<Rightarrow> size_t" where
  "cv_first_at cv s = cv + 4 * of_nat (MAX_THREADS s)"

definition cv_last_at :: "size_t \<Rightarrow> kstate \<Rightarrow> size_t" where
  "cv_last_at cv s = cv + 4 * of_nat (MAX_THREADS s) + 4"

definition cv_full_at :: "size_t \<Rightarrow> kstate \<Rightarrow> size_t" where
  "cv_full_at cv s = cv + 4 * of_nat (MAX_THREADS s) + 8"

definition get_first :: "size_t \<Rightarrow> kstate \<Rightarrow> size_t" where
  "get_first cv s = load32 (memory s) (cv_first_at cv s)"

definition get_last :: "size_t \<Rightarrow> kstate \<Rightarrow> size_t" where
  "get_last cv s = load32 (memory s) (cv_last_at cv s)"

definition get_full :: "size_t \<Rightarrow> kstate \<Rightarrow> bool" where
  "get_full cv s = (memory s (cv_full_at cv s) \<noteq> 0)"

definition get_waiting :: "size_t \<Rightarrow> size_t \<Rightarrow> kstate \<Rightarrow> int" where
  "get_waiting cv i s = sint (load32 (memory s) (cv_waiting_at cv i))"

definition set_first :: "size_t \<Rightarrow> size_t \<Rightarrow> kstate \<Rightarrow> kstate" where
  "set_first cv v s = set_memory (store32 (memory s) (cv_first_at cv s) v) s"

definition set_last :: "size_t \<Rightarrow> size_t \<Rightarrow> kstate \<Rightarrow> kstate" where
  "set_last cv v s = set_memory (store32 (memory s) (cv_last_at cv s) v) s"

definition set_full :: "size_t \<Rightarrow> bool \<Rightarrow> kstate \<Rightarrow> kstate" where
  "set_full cv b s = set_memory ((memory s)(cv_full_at cv s := if b then 1 else 0)) s"

definition set_waiting :: "size_t \<Rightarrow> size_t \<Rightarrow> int \<Rightarrow> kstate \<Rightarrow> kstate" where
  "set_waiting cv i v s = set_memory (store32 (memory s) (cv_waiting_at cv i) (word_of_int v)) s"

definition load_cv :: "size_t \<Rightarrow> kstate \<Rightarrow> ConditionVariable" where
  "load_cv cv s = \<lparr>cv_waiting = map (\<lambda>i. get_waiting cv (of_nat i) s) [0..<MAX_THREADS s],
     cv_first = get_first cv s, cv_last = get_last cv s, cv_full = get_full cv s\<rparr>"

section \<open>Operations\<close>

definition CONDITION_VARIABLE_INIT :: u32 where "CONDITION_VARIABLE_INIT = 0"
definition CONDITION_VARIABLE_SIGNAL :: u32 where "CONDITION_VARIABLE_SIGNAL = 1"
definition CONDITION_VARIABLE_BROADCAST :: u32 where "CONDITION_VARIABLE_BROADCAST = 2"
definition CONDITION_VARIABLE_WAIT :: u32 where "CONDITION_VARIABLE_WAIT = 3"

lemmas cv_ops = CONDITION_VARIABLE_INIT_def CONDITION_VARIABLE_SIGNAL_def
  CONDITION_VARIABLE_BROADCAST_def CONDITION_VARIABLE_WAIT_def

definition k_init_condition_variable :: "size_t \<Rightarrow> kstate \<Rightarrow> bool kresult" where
  "k_init_condition_variable cv s = Ret True (set_full cv False (set_last cv 0 (set_first cv 0 s)))"

definition inc_mod :: "size_t \<Rightarrow> kstate \<Rightarrow> size_t" where
  "inc_mod v s = (v + 1) mod of_nat (MAX_THREADS s)"

definition k_signal :: "size_t \<Rightarrow> kstate \<Rightarrow> bool \<times> kstate" where
  "k_signal cv s =
     (if get_first cv s \<noteq> get_last cv s \<or> get_full cv s then
        (let (_, s) = set_thread_state (get_waiting cv (get_first cv s) s) suspended s;
             s = set_first cv (inc_mod (get_first cv s) s) s;
             s = set_full cv False s
         in (True, s))
      else (False, s))"

text \<open>The loop of a broadcast ends when nobody is left to signal.\<close>

partial_function (option) broadcast_loop :: "size_t \<Rightarrow> kstate \<Rightarrow> kstate option" where
  "broadcast_loop cv s =
     (let (signalled, s) = k_signal cv s in if signalled then broadcast_loop cv s else Some s)"

definition k_broadcast :: "size_t \<Rightarrow> kstate \<Rightarrow> bool kresult" where
  "k_broadcast cv s = (case broadcast_loop cv s of Some s \<Rightarrow> Ret True s | None \<Rightarrow> Undef)"

definition k_wait :: "size_t \<Rightarrow> kstate \<Rightarrow> bool kresult" where
  "k_wait cv s0 =
     (let s = set_waiting cv (get_last cv s0) (k_get_thread_id s0) s0;
          s = set_last cv (inc_mod (get_last cv s) s) s;
          s = set_full cv (get_first cv s = get_last cv s) s
      in obind (k_thread_wait s) (\<lambda>_ s. Ret True s))"

definition k_condition_variable :: "u32 \<Rightarrow> size_t \<Rightarrow> kstate \<Rightarrow> bool kresult" where
  "k_condition_variable op cv s =
     (let cv_func = (if op = CONDITION_VARIABLE_INIT then Some k_init_condition_variable
                     else if op = CONDITION_VARIABLE_SIGNAL
                       then Some (\<lambda>cv s. let (b, s) = k_signal cv s in Ret b s)
                     else if op = CONDITION_VARIABLE_BROADCAST then Some k_broadcast
                     else if op = CONDITION_VARIABLE_WAIT then Some k_wait
                     else None)
      in case cv_func of
           None \<Rightarrow> Ret False (set_errno E_INVALID_ARGS s)
         | Some fn \<Rightarrow> if cv = NULL then Ret False (set_errno E_INVALID_ARGS s) else fn cv s)"

end
