(* ===== verification/Thread_Property.thy ===== *)
theory Thread_Property
  imports Threads
begin

text \<open>
  Reading and changing the properties of a thread, \<open>src/kernel/thread_property.cpp\<close>. The value of
  a property is read from, or written to, the memory of the user at the property's own type.
\<close>

section \<open>Operations\<close>

definition TPROP_NAME :: size_t where "TPROP_NAME = 0"
definition TPROP_CHILD :: size_t where "TPROP_CHILD = 1"
definition TPROP_PARENT :: size_t where "TPROP_PARENT = 2"
definition TPROP_STATE :: size_t where "TPROP_STATE = 3"
definition TPROP_PERMISSIONS :: size_t where "TPROP_PERMISSIONS = 4"
definition TPROP_REGISTERS :: size_t where "TPROP_REGISTERS = 5"
definition TPROP_PENDING_SIGNALS :: size_t where "TPROP_PENDING_SIGNALS = 6"
definition TPROP_SIGNAL_HANDLER :: size_t where "TPROP_SIGNAL_HANDLER = 7"

lemmas tprop_defs = TPROP_NAME_def TPROP_CHILD_def TPROP_PARENT_def TPROP_STATE_def
  TPROP_PERMISSIONS_def TPROP_REGISTERS_def TPROP_PENDING_SIGNALS_def TPROP_SIGNAL_HANDLER_def

text \<open>The name as it is copied out: \<open>strncpy\<close>, and a terminator at its length.\<close>

definition write_name :: "mem \<Rightarrow> size_t \<Rightarrow> byte list \<Rightarrow> mem" where
  "write_name m dest nm =
     (let bs = take THREAD_NAME_MAX_LEN (cname nm);
          m = store_bytes m dest (bs @ (if length bs < THREAD_NAME_MAX_LEN then [0] else []))
      in m(dest + of_nat (length (cname nm)) := 0))"

definition do_get_thread_property :: "int \<Rightarrow> size_t \<Rightarrow> size_t \<Rightarrow> kstate \<Rightarrow> bool kresult" where
  "do_get_thread_property tid0 prop res s =
     (let tid = (if tid0 = CURRENT_THREAD then k_get_thread_id s else tid0) in
      if \<not> is_valid_thread tid s then Ret False (set_errno E_INVALID_ID s)
      else
        (let thread = thread_at s (nat tid); m = memory s in
         if prop = TPROP_NAME then Ret True (set_memory (write_name m res (t_name thread)) s)
         else if prop = TPROP_CHILD then
           Ret True (set_memory (store32 m res (word_of_int (t_child thread))) s)
         else if prop = TPROP_PARENT then
           Ret True (set_memory (store32 m res (word_of_int (t_parent thread))) s)
         else if prop = TPROP_STATE then
           Ret True (set_memory (store_bytes m res
             (take (b_enum_size (build s)) (bytes32 (state_num (t_state thread))))) s)
         else if prop = TPROP_PERMISSIONS then
           Ret True (set_memory (store16 m res (t_permissions thread)) s)
         else if prop = TPROP_REGISTERS then
           Ret True (set_memory (store_bytes m res
             (load_bytes m (t_stack_ptr thread) (unat REGISTER_CONTEXT_SIZE))) s)
         else Ret False (set_errno E_INVALID_ARGS s)))"

definition k_get_thread_property :: "int \<Rightarrow> size_t \<Rightarrow> size_t \<Rightarrow> kstate \<Rightarrow> bool kresult" where
  "k_get_thread_property tid prop res s =
     (if res = NULL then Ret False (set_errno E_INVALID_ARGS s)
      else do_get_thread_property tid prop res s)"

text \<open>A shift by 32 or more is undefined in C.\<close>

definition do_set_thread_property :: "int \<Rightarrow> size_t \<Rightarrow> size_t \<Rightarrow> kstate \<Rightarrow> bool kresult" where
  "do_set_thread_property tid0 prop val s =
     (if tid0 = CURRENT_THREAD \<and> k_has_no_permission TPERM_TCONFIG s \<or>
         tid0 \<noteq> CURRENT_THREAD \<and> k_has_no_permission TPERM_TCONFIG_OTHER s
      then Ret False (set_errno E_PERM s)
      else
        (let tid = (if tid0 = CURRENT_THREAD then k_get_thread_id s else tid0) in
         if \<not> is_valid_thread tid s then Ret False (set_errno E_INVALID_ID s)
         else
           (let i = nat tid; m = memory s in
            if prop = TPROP_CHILD then
              (let child = sint (load32 m val) in
               if is_valid_thread child s
               then Ret True (upd_thread (nat child) (\<lambda>t. t\<lparr>t_parent := tid\<rparr>)
                      (upd_thread i (\<lambda>t. t\<lparr>t_child := child\<rparr>) s))
               else Ret True s)
            else if prop = TPROP_NAME then
              Ret True (upd_thread i (k_set_thread_name (name_arg m val)) s)
            else if prop = TPROP_PERMISSIONS then
              Ret True (upd_thread i (\<lambda>t. t\<lparr>t_permissions := t_permissions t AND NOT (load16 m val)\<rparr>) s)
            else if prop = TPROP_REGISTERS then
              Ret True (set_memory (memcpy m (t_stack_ptr (thread_at s i)) val REGISTER_CONTEXT_SIZE) s)
            else if prop = TPROP_PENDING_SIGNALS then
              (let signal = load32 m val in
               if signal = 0 then Ret True s
               else if unat (signal - 1) \<ge> 32 then Undef
               else Ret True (upd_thread i (\<lambda>t. t\<lparr>t_pending_signals :=
                      t_pending_signals t OR push_bit (unat (signal - 1)) 1\<rparr>) s))
            else if prop = TPROP_SIGNAL_HANDLER then
              Ret True (upd_thread i (\<lambda>t. t\<lparr>t_signal_handler := load32 m val\<rparr>) s)
            else Ret False (set_errno E_INVALID_ARGS s))))"

definition k_set_thread_property :: "int \<Rightarrow> size_t \<Rightarrow> size_t \<Rightarrow> kstate \<Rightarrow> bool kresult" where
  "k_set_thread_property tid prop val s =
     (if val = NULL then Ret False (set_errno E_INVALID_ARGS s)
      else do_set_thread_property tid prop val s)"

end
