(* ===== verification/File.thy ===== *)
theory File
  imports Kernel_State
begin

text \<open>
  File access, \<open>src/kernel/file.c\<close>, by semihosting calls. The host is a parameter: given the calls
  made so far, the current one included, and the memory, it returns a result and the memory after
  the call. A build without semihosting is the host that always returns -1 and changes nothing.
\<close>

type_synonym host = "(size_t \<times> size_t list) list \<Rightarrow> mem \<Rightarrow> size_t \<times> mem"

section \<open>Semihosting\<close>

definition SYS_OPEN :: size_t where "SYS_OPEN = 0x01"
definition SYS_CLOSE :: size_t where "SYS_CLOSE = 0x02"
definition SYS_WRITE :: size_t where "SYS_WRITE = 0x05"
definition SYS_READ :: size_t where "SYS_READ = 0x06"
definition SYS_ISTTY :: size_t where "SYS_ISTTY = 0x09"
definition SYS_SEEK :: size_t where "SYS_SEEK = 0x0A"
definition SYS_FLEN :: size_t where "SYS_FLEN = 0x0C"
definition SYS_REMOVE :: size_t where "SYS_REMOVE = 0x0E"
definition SYS_SYSTEM :: size_t where "SYS_SYSTEM = 0x12"
definition SYS_EXIT :: size_t where "SYS_EXIT = 0x18"

definition generic_semihosting_call :: "host \<Rightarrow> size_t \<Rightarrow> size_t list \<Rightarrow> kstate \<Rightarrow> size_t \<times> kstate" where
  "generic_semihosting_call host operation parameters s =
     (let calls = host_calls s @ [(operation, parameters)];
          (r, m) = host calls (memory s)
      in (r, (set_memory m s)\<lparr>host_calls := calls\<rparr>))"

definition get_semihosting_event :: "int \<Rightarrow> size_t" where
  "get_semihosting_event status = (if status = 0 then 0x20026 else 0x20024)"

text \<open>What the host sees of an exit, on a 32 bit build.\<close>

definition exit_call :: "int \<Rightarrow> size_t \<times> size_t" where
  "exit_call status = (SYS_EXIT, get_semihosting_event status)"

section \<open>Files\<close>

definition O_RDONLY :: size_t where "O_RDONLY = 0"
definition O_WRONLY :: size_t where "O_WRONLY = 6"
definition SEEK_CUR :: size_t where "SEEK_CUR = 0"

text \<open>A call without the permission sets errno and returns a fixed value.\<close>

definition need_file :: "size_t \<Rightarrow> kstate \<Rightarrow> size_t kresult \<Rightarrow> size_t kresult" where
  "need_file denied s r =
     (if k_has_no_permission TPERM_FILE s then Ret denied (set_errno E_PERM s) else r)"

definition k_open :: "host \<Rightarrow> size_t \<Rightarrow> size_t \<Rightarrow> kstate \<Rightarrow> size_t kresult" where
  "k_open host path oflag s = need_file (- 1) s
     (case strlen (memory s) path of
        None \<Rightarrow> Undef
      | Some len \<Rightarrow> (let (r, s) = generic_semihosting_call host SYS_OPEN [path, oflag, len] s in Ret r s))"

definition k_read :: "host \<Rightarrow> size_t \<Rightarrow> size_t \<Rightarrow> size_t \<Rightarrow> kstate \<Rightarrow> size_t kresult" where
  "k_read host fildes buf nbyte s = need_file 0 s
     (let (r, s) = generic_semihosting_call host SYS_READ [fildes, buf, nbyte] s in Ret (nbyte - r) s)"

definition k_write :: "host \<Rightarrow> size_t \<Rightarrow> size_t \<Rightarrow> size_t \<Rightarrow> kstate \<Rightarrow> size_t kresult" where
  "k_write host filedes buf nbyte s = need_file 0 s
     (let (r, s) = generic_semihosting_call host SYS_WRITE [filedes, buf, nbyte] s in Ret (nbyte - r) s)"

definition k_lseek :: "host \<Rightarrow> size_t \<Rightarrow> size_t \<Rightarrow> size_t \<Rightarrow> kstate \<Rightarrow> size_t kresult" where
  "k_lseek host fd offset whence s =
     obind (k_assert (whence = SEEK_CUR) s) (\<lambda>_ s. need_file (- 1) s
     (let (got, s) = generic_semihosting_call host SYS_SEEK [fd, offset] s
      in Ret (if got = 0 then offset else - 1) s))"

definition k_remove :: "host \<Rightarrow> size_t \<Rightarrow> kstate \<Rightarrow> size_t kresult" where
  "k_remove host path s = need_file (- 1) s
     (case strlen (memory s) path of
        None \<Rightarrow> Undef
      | Some len \<Rightarrow> (let (r, s) = generic_semihosting_call host SYS_REMOVE [path, len] s in Ret r s))"

definition k_close :: "host \<Rightarrow> size_t \<Rightarrow> kstate \<Rightarrow> size_t kresult" where
  "k_close host filedes s = need_file (- 1) s
     (let (r, s) = generic_semihosting_call host SYS_CLOSE [filedes] s in Ret r s)"

definition k_isatty :: "host \<Rightarrow> size_t \<Rightarrow> kstate \<Rightarrow> size_t \<times> kstate" where
  "k_isatty host fd s = generic_semihosting_call host SYS_ISTTY [fd] s"

section \<open>The listing of a directory\<close>

text \<open>
  The command is written into a local buffer of 128 bytes, undefined when it does not fit; the
  assertion that it fits comes after.
\<close>

definition read_string :: "mem \<Rightarrow> size_t \<Rightarrow> string option" where
  "read_string m p = map_option (\<lambda>n. map (\<lambda>b. char_of (unat b)) (load_bytes m p (unat n))) (strlen m p)"

definition string_bytes :: "string \<Rightarrow> byte list" where
  "string_bytes str = map of_char str @ [0]"

definition CMD_SIZE :: nat where
  "CMD_SIZE = 128"

definition list_dir_cmd :: "mem \<Rightarrow> size_t \<Rightarrow> string option" where
  "list_dir_cmd m path =
     Option.bind (if path = NULL then Some None else map_option Some (read_string m path))
       (\<lambda>p. sprintf ''ls %s > %s'' [VStr p, VStr (Some ''__ls.out'')])"

text \<open>Reading the output back, once the host has run the command.\<close>

definition list_dir_read :: "host \<Rightarrow> size_t \<Rightarrow> size_t \<Rightarrow> kstate \<Rightarrow> size_t kresult" where
  "list_dir_read host out outsz s =
     obind (k_open host (b_literal (build s) ''__ls.out'') O_RDONLY s) (\<lambda>ls_fd s.
     obind (k_assert (ls_fd \<noteq> - 1) s) (\<lambda>_ s.
     let (ls_sz, s) = generic_semihosting_call host SYS_FLEN [ls_fd] s in
     obind (k_assert (ls_sz \<noteq> - 1 \<and> ls_sz < outsz) s) (\<lambda>_ s.
     obind (k_read host ls_fd out ls_sz s) (\<lambda>_ s.
     obind (k_close host ls_fd (set_memory ((memory s)(out + ls_sz := 0)) s)) (\<lambda>_ s.
     Ret 0 s)))))"

definition k_list_dir :: "host \<Rightarrow> size_t \<Rightarrow> size_t \<Rightarrow> size_t \<Rightarrow> kstate \<Rightarrow> size_t kresult" where
  "k_list_dir host path out outsz s = need_file (- 1) s
     (case list_dir_cmd (memory s) path of
        None \<Rightarrow> Undef
      | Some cmd \<Rightarrow>
          if CMD_SIZE \<le> length cmd then Undef
          else
            (let len = length cmd;
                 s = set_memory (store_bytes (memory s) (b_locals (build s)) (string_bytes cmd)) s in
             obind (k_assert (len < 127) s) (\<lambda>_ s.
             let (ret, s) = generic_semihosting_call host SYS_SYSTEM [b_locals (build s), of_nat len] s in
             if ret \<noteq> 0 then Ret ret s else list_dir_read host out outsz s)))"

section \<open>Is the output a terminal\<close>

definition MAGIC_LEN :: size_t where "MAGIC_LEN = 4"
definition SHFB_MAGIC :: "byte list" where "SHFB_MAGIC = [0x53, 0x48, 0x46, 0x42]"

definition k_host_supports_open_stdout :: "host \<Rightarrow> kstate \<Rightarrow> bool kresult" where
  "k_host_supports_open_stdout host s0 =
     obind (k_open host (b_literal (build s0) '':semihosting-features'') O_RDONLY s0) (\<lambda>fd s.
     if fd = - 1 then Ret False s
     else
       (let magic = b_locals (build s); feature_byte_1 = magic + MAGIC_LEN;
            s = set_memory (store_bytes (memory s) magic [0, 0, 0, 0]) s in
        obind (k_read host fd magic MAGIC_LEN s) (\<lambda>got s.
        if got \<noteq> MAGIC_LEN \<or> load_bytes (memory s) magic 4 \<noteq> SHFB_MAGIC
        then obind (k_close host fd s) (\<lambda>_ s. Ret False s)
        else obind (k_read host fd feature_byte_1 1 s) (\<lambda>got s.
          if got \<noteq> 1 then obind (k_close host fd s) (\<lambda>_ s. Ret False s)
          else obind (k_close host fd s) (\<lambda>_ s. Ret (memory s feature_byte_1 AND 2 \<noteq> 0) s)))))"

definition k_stdout_isatty :: "host \<Rightarrow> kstate \<Rightarrow> bool kresult" where
  "k_stdout_isatty host s =
     obind (k_host_supports_open_stdout host s) (\<lambda>supported s.
     if \<not> supported then Ret False s
     else obind (k_open host (b_literal (build s) '':tt'') O_WRONLY s) (\<lambda>stdout_fd s.
       if stdout_fd = - 1 then Ret False s
       else (let (istty, s) = k_isatty host stdout_fd s in Ret (istty = 1) s)))"

end
