(* ===== verification/Syscall.thy ===== *)
theory Syscall
  imports Threads Messages Condition_Variable Thread_Property File
begin

text \<open>
  The entry from user mode, \<open>src/kernel/syscall.c\<close>: checking the canaries of the calling thread's
  stack, decoding the call from its register context, running it, returning the result and
  reporting failures.
\<close>

section \<open>Syscall numbers\<close>

datatype Syscall = syscall_add_thread | syscall_get_thread_property | syscall_set_thread_property
  | syscall_set_kernel_config | syscall_yield | syscall_restart | syscall_get_msg | syscall_send_msg
  | syscall_thread_wait | syscall_thread_wake | syscall_thread_cancel | syscall_mutex
  | syscall_condition_variable | syscall_open | syscall_read | syscall_write | syscall_lseek
  | syscall_remove | syscall_close | syscall_exit | syscall_malloc | syscall_realloc | syscall_free
  | syscall_list_dir

text \<open>The enumeration in order: a syscall's number is its position.\<close>

definition all_syscalls :: "Syscall list" where
  "all_syscalls = [syscall_add_thread, syscall_get_thread_property, syscall_set_thread_property,
     syscall_set_kernel_config, syscall_yield, syscall_restart, syscall_get_msg, syscall_send_msg,
     syscall_thread_wait, syscall_thread_wake, syscall_thread_cancel, syscall_mutex,
     syscall_condition_variable, syscall_open, syscall_read, syscall_write, syscall_lseek,
     syscall_remove, syscall_close, syscall_exit, syscall_malloc, syscall_realloc, syscall_free,
     syscall_list_dir]"

definition syscall_of :: "size_t \<Rightarrow> Syscall option" where
  "syscall_of num = (if unat num < length all_syscalls then Some (all_syscalls ! unat num) else None)"

definition num_yield :: size_t where
  "num_yield = 4"

fun name_of_syscall :: "Syscall \<Rightarrow> string" where
  "name_of_syscall syscall_add_thread = ''add_thread''"
| "name_of_syscall syscall_get_thread_property = ''get_thread_property''"
| "name_of_syscall syscall_set_thread_property = ''set_thread_property''"
| "name_of_syscall syscall_set_kernel_config = ''set_kernel_config''"
| "name_of_syscall syscall_yield = ''yield''"
| "name_of_syscall syscall_restart = ''restart''"
| "name_of_syscall syscall_get_msg = ''get_msg''"
| "name_of_syscall syscall_send_msg = ''send_msg''"
| "name_of_syscall syscall_thread_wait = ''thread_wait''"
| "name_of_syscall syscall_thread_wake = ''thread_wake''"
| "name_of_syscall syscall_thread_cancel = ''thread_cancel''"
| "name_of_syscall syscall_mutex = ''mutex''"
| "name_of_syscall syscall_condition_variable = ''condition_variable''"
| "name_of_syscall syscall_open = ''open''"
| "name_of_syscall syscall_read = ''read''"
| "name_of_syscall syscall_write = ''write''"
| "name_of_syscall syscall_lseek = ''lseek''"
| "name_of_syscall syscall_remove = ''remove''"
| "name_of_syscall syscall_close = ''close''"
| "name_of_syscall syscall_exit = ''exit''"
| "name_of_syscall syscall_malloc = ''malloc''"
| "name_of_syscall syscall_realloc = ''realloc''"
| "name_of_syscall syscall_free = ''free''"
| "name_of_syscall syscall_list_dir = ''list_dir''"

definition syscall_name :: "size_t \<Rightarrow> string" where
  "syscall_name num =
     (case syscall_of num of Some c \<Rightarrow> name_of_syscall c | None \<Rightarrow> ''(unknown syscall)'')"

text \<open>Does the call have a result, and does it change the user's copy of the thread's data?\<close>

definition has_result :: "Syscall \<Rightarrow> bool" where
  "has_result c \<longleftrightarrow> c \<notin> {syscall_set_kernel_config, syscall_restart, syscall_thread_wait, syscall_exit, syscall_free}"

definition update_user_thread_info :: "Syscall \<Rightarrow> bool" where
  "update_user_thread_info c \<longleftrightarrow> c \<in> {syscall_set_thread_property, syscall_set_kernel_config, syscall_restart}"

section \<open>The stack check\<close>

definition check_stack :: "kstate \<Rightarrow> bool kresult" where
  "check_stack s =
     on_current s (\<lambda>c.
       let underflow = (t_top_canary (thread_at s c) \<noteq> STACK_CANARY);
           overflow = (t_bottom_canary (thread_at s c) \<noteq> STACK_CANARY) in
       if underflow \<or> overflow then
         (let s = upd_thread c (\<lambda>t. t\<lparr>t_id := INVALID_THREAD, t_name := (t_name t)[0 := 0]\<rparr>) s;
              s = (if underflow then k_log_event ''Stack underflow!'' s else s);
              s = (if overflow then k_log_event ''Stack overflow!'' s else s)
          in if kernel_config s AND KCFG_DESTROY_ON_STACK_ERR = 0 then k_exit 1 s else Ret False s)
       else Ret True s)"

section \<open>Running a call\<close>

text \<open>Results as they come back in a register.\<close>

definition ret_bool :: "bool kresult \<Rightarrow> size_t kresult" where
  "ret_bool m = obind m (\<lambda>b s. Ret (of_bool32 b) s)"

definition ret_int :: "int kresult \<Rightarrow> size_t kresult" where
  "ret_int m = obind m (\<lambda>n s. Ret (word_of_int n) s)"

definition ret_unit :: "unit kresult \<Rightarrow> size_t kresult" where
  "ret_unit m = obind m (\<lambda>_ s. Ret 0 s)"

text \<open>The call through the function pointer: registers are read at the type of the parameter.\<close>

fun call_syscall :: "host \<Rightarrow> Syscall \<Rightarrow> size_t \<Rightarrow> size_t \<Rightarrow> size_t \<Rightarrow> size_t \<Rightarrow> kstate \<Rightarrow> size_t kresult" where
  "call_syscall h syscall_add_thread a b c d s = ret_int (k_add_thread a b c d s)"
| "call_syscall h syscall_get_thread_property a b c d s = ret_bool (k_get_thread_property (sint a) b c s)"
| "call_syscall h syscall_set_thread_property a b c d s = ret_bool (k_set_thread_property (sint a) b c s)"
| "call_syscall h syscall_set_kernel_config a b c d s = Ret 0 (k_set_kernel_config a b s)"
| "call_syscall h syscall_yield a b c d s = ret_bool (k_yield (sint a) (sint b) s)"
| "call_syscall h syscall_restart a b c d s = ret_unit (k_restart a b c (ucast d) s)"
| "call_syscall h syscall_get_msg a b c d s = ret_bool (k_get_msg a b s)"
| "call_syscall h syscall_send_msg a b c d s = ret_bool (k_send_msg (sint a) b s)"
| "call_syscall h syscall_thread_wait a b c d s = ret_unit (k_thread_wait s)"
| "call_syscall h syscall_thread_wake a b c d s = ret_bool (k_thread_wake (sint a) s)"
| "call_syscall h syscall_thread_cancel a b c d s = ret_bool (k_thread_cancel (sint a) s)"
| "call_syscall h syscall_mutex a b c d s = ret_bool (k_mutex a b s)"
| "call_syscall h syscall_condition_variable a b c d s = ret_bool (k_condition_variable a b s)"
| "call_syscall h syscall_open a b c d s = k_open h a b s"
| "call_syscall h syscall_read a b c d s = k_read h a b c s"
| "call_syscall h syscall_write a b c d s = k_write h a b c s"
| "call_syscall h syscall_lseek a b c d s = k_lseek h a b c s"
| "call_syscall h syscall_remove a b c d s = k_remove h a s"
| "call_syscall h syscall_close a b c d s = k_close h a s"
| "call_syscall h syscall_exit a b c d s = k_exit (sint a) s"
| "call_syscall h syscall_malloc a b c d s = k_malloc a s"
| "call_syscall h syscall_realloc a b c d s = k_realloc a b s"
| "call_syscall h syscall_free a b c d s = ret_unit (k_free a s)"
| "call_syscall h syscall_list_dir a b c d s = k_list_dir h a b c s"

definition k_invalid_syscall :: "size_t \<Rightarrow> size_t \<Rightarrow> size_t \<Rightarrow> size_t \<Rightarrow> size_t \<Rightarrow> kstate \<Rightarrow> unit kresult" where
  "k_invalid_syscall arg1 arg2 arg3 arg4 num s =
     obind (k_printf (''Unknown syscall %u invoked!'' @ [CHR 0x0A]) [VNum num] s) (\<lambda>_ s.
     obind (k_printf (''arg1: %u, arg2: %u, arg3: %u, arg4: %u'' @ [CHR 0x0A])
              [VNum arg1, VNum arg2, VNum arg3, VNum arg4] s) (\<lambda>_ s. k_exit 1 s))"

text \<open>\<open>ctx\<close> is the address of the register context of the calling thread throughout.\<close>

definition decode_syscall :: "size_t \<Rightarrow> kstate \<Rightarrow> Syscall kresult" where
  "decode_syscall ctx s =
     (let m = memory s; num = load32 m (ctx + CTX_SYSCALL_NUM) in
      case syscall_of num of
        Some c \<Rightarrow> Ret c s
      | None \<Rightarrow> obind (k_invalid_syscall (load32 m (ctx + CTX_ARG0)) (load32 m (ctx + CTX_ARG1))
                  (load32 m (ctx + CTX_ARG2)) (load32 m (ctx + CTX_ARG3)) num s) (\<lambda>_ s. Undef))"

definition run_syscall :: "host \<Rightarrow> size_t \<Rightarrow> Syscall \<Rightarrow> kstate \<Rightarrow> unit kresult" where
  "run_syscall h ctx c s0 =
     (let m = memory s0 in
      obind (call_syscall h c (load32 m (ctx + CTX_ARG0)) (load32 m (ctx + CTX_ARG1))
               (load32 m (ctx + CTX_ARG2)) (load32 m (ctx + CTX_ARG3)) s0) (\<lambda>res s.
      Ret () (if has_result c then set_memory (store32 (memory s) (ctx + CTX_ARG0) res) s else s)))"

definition log_failed_syscall :: "size_t \<Rightarrow> int \<Rightarrow> kstate \<Rightarrow> unit kresult" where
  "log_failed_syscall ctx old_err_no s =
     (let err = u_err_no (user_thread_info s) in
      if err \<noteq> 0 then
        (case sprintf ''Syscall %s failed with errno %u (%s)!''
                [VStr (Some (syscall_name (load32 (memory s) (ctx + CTX_SYSCALL_NUM)))),
                 VNum (word_of_int err), VStr (Some (strerror err))] of
           Some event \<Rightarrow> Ret () (k_log_event event s)
         | None \<Rightarrow> Undef)
      else Ret () (set_errno old_err_no s))"

definition finish_syscall :: "Syscall \<Rightarrow> kstate \<Rightarrow> unit kresult" where
  "finish_syscall c s0 =
     (if next_thread s0 = None then
        on_current s0 (\<lambda>cur.
          let s = s0\<lparr>next_thread := Some cur\<rparr>
          in Ret () (if update_user_thread_info c then k_update_user_thread_info cur s else s))
      else Ret () s0)"

definition k_handle_syscall :: "host \<Rightarrow> kstate \<Rightarrow> unit kresult" where
  "k_handle_syscall h s0 =
     on_current s0 (\<lambda>cur0.
     let ctx = t_stack_ptr (thread_at s0 cur0) in
     obind (check_stack s0) (\<lambda>stack_ok s.
     let s = (if stack_ok then s
              else set_memory (store32 (store32 (store32 (memory s) (ctx + CTX_SYSCALL_NUM) num_yield)
                     (ctx + CTX_ARG1) (word_of_int YIELD_ANY)) (ctx + CTX_ARG0) (word_of_int INVALID_THREAD)) s) in
     obind (decode_syscall ctx s) (\<lambda>c s.
     let log_errno = (kernel_config s AND KCFG_LOG_FAILED_ERRNO \<noteq> 0);
         old_err_no = u_err_no (user_thread_info s);
         s = (if log_errno then set_errno 0 s else s) in
     obind (run_syscall h ctx c s) (\<lambda>_ s.
     obind (if log_errno then log_failed_syscall ctx old_err_no s else Ret () s) (\<lambda>_ s.
     finish_syscall c s)))))"

end
