(* ===== verification/Preservation.thy ===== *)
theory Preservation
  imports Scheduling Syscall
begin

text \<open>
  Every call a thread can make keeps the invariant, on every path on which it comes back: creating
  and restarting threads, properties, messages, locks, the heap, files, and the whole handler.
\<close>

section \<open>Calls that return in a sane state\<close>

definition keeps :: "'a kresult \<Rightarrow> kstate \<Rightarrow> bool" where
  "keeps m s \<longleftrightarrow> ret_state m (\<lambda>s'. sane s' \<and> current_thread s' = current_thread s)"

text \<open>The state in which a call starts: nobody has been chosen to run next.\<close>

definition entered :: "kstate \<Rightarrow> bool" where
  "entered s \<longleftrightarrow> sane s \<and> next_thread s = None"

lemma enteredD: "entered s \<Longrightarrow> sane s" "entered s \<Longrightarrow> kinv s" "entered s \<Longrightarrow> next_thread s = None"
  "entered s \<Longrightarrow> running_is (current_thread s) s"
  by (auto simp: entered_def sane_def)

lemma keeps_Ret [simp]: "keeps (Ret a s') s \<longleftrightarrow> sane s' \<and> current_thread s' = current_thread s"
  by (simp add: keeps_def)

lemma keeps_stop [simp]: "keeps (Exit n s') s" "keeps Undef s"
  by (simp_all add: keeps_def)

lemma keeps_bind:
  assumes "keeps m s" and "\<And>a s'. m = Ret a s' \<Longrightarrow> sane s' \<Longrightarrow> current_thread s' = current_thread s \<Longrightarrow> keeps (f a s') s"
  shows "keeps (obind m f) s"
  using assms by (cases m) auto

lemma keeps_assert [simp]: "keeps (k_assert b s') s \<longleftrightarrow> (b \<longrightarrow> sane s' \<and> current_thread s' = current_thread s)"
  by (simp add: k_assert_def)

lemma keeps_cong: "current_thread s1 = current_thread s2 \<Longrightarrow> keeps m s1 = keeps m s2"
  by (simp add: keeps_def)

lemma do_scheduler_keeps:
  assumes "kinv s" and "running_is (current_thread s) s"
  shows "keeps (do_scheduler s) s"
  using do_scheduler_sane [OF assms] by auto

section \<open>New threads\<close>

lemma running_init_thread:
  "running_is p s \<Longrightarrow> running_is p (init_thread i tid name work args perms s)"
  by (auto simp: running_is_def init_thread_def Let_def thread_at_upd thread_at_init_register_context MAX_THREADS_def)

lemma init_thread_simps [simp]:
  "length (all_threads (init_thread i tid name work args perms s)) = length (all_threads s)"
  "current_thread (init_thread i tid name work args perms s) = current_thread s"
  "next_thread (init_thread i tid name work args perms s) = next_thread s"
  "user_thread_info (init_thread i tid name work args perms s) = user_thread_info s"
  "kernel_config (init_thread i tid name work args perms s) = kernel_config s"
  "backing_refs (init_thread i tid name work args perms s) = backing_refs s"
  "block_tags (init_thread i tid name work args perms s) = block_tags s"
  "build (init_thread i tid name work args perms s) = build s"
  by (simp_all add: init_thread_def Let_def)

lemma MAX_THREADS_init_thread [simp]:
  "MAX_THREADS (init_thread i tid name work args perms s) = MAX_THREADS s"
  by (simp add: MAX_THREADS_def)

lemma pages_init_thread [simp]:
  "CODE_BACKING_PAGES (init_thread i tid name work args perms s) = CODE_BACKING_PAGES s"
  "CODE_PAGE_SIZE (init_thread i tid name work args perms s) = CODE_PAGE_SIZE s"
  by (simp_all add: CODE_BACKING_PAGES_def CODE_PAGE_SIZE_def)

text \<open>A thread as initialisation leaves it.\<close>

definition fresh_thread ::
  "kstate \<Rightarrow> int \<Rightarrow> byte list option \<Rightarrow> size_t \<Rightarrow> args_ptr \<Rightarrow> u16 \<Rightarrow> Thread \<Rightarrow> Thread" where
  "fresh_thread s tid name work args perms t =
     (k_set_thread_name name t)\<lparr>t_work := work, t_signal_handler := NULL, t_state := init,
        t_pending_signals := 0, t_id := tid, t_args := args (memory s),
        t_parent := INVALID_THREAD, t_child := INVALID_THREAD, t_permissions := perms, t_err_no := 0,
        t_next_msg := 0, t_end_msgs := 0, t_msgs_full := False,
        t_in_code_page := (if CODE_PAGE_SIZE s = 0 then t_in_code_page t else False),
        t_code_backing_page := (if CODE_PAGE_SIZE s = 0 \<or> CODE_BACKING_PAGES s = 0
                                then t_code_backing_page t else INVALID_PAGE),
        t_bottom_canary := STACK_CANARY, t_top_canary := STACK_CANARY,
        t_stack_ptr := ALIGN_STACK_PTR (t_stack t + THREAD_STACK_SIZE) - REGISTER_CONTEXT_SIZE\<rparr>"

lemma k_set_thread_name_commute:
  "k_set_thread_name name (t\<lparr>t_work := x1, t_signal_handler := x2, t_state := x3, t_pending_signals := x4,
     t_id := x5, t_args := x6, t_parent := x7, t_child := x8, t_permissions := x9, t_err_no := x10\<rparr>) =
   (k_set_thread_name name t)\<lparr>t_work := x1, t_signal_handler := x2, t_state := x3, t_pending_signals := x4,
     t_id := x5, t_args := x6, t_parent := x7, t_child := x8, t_permissions := x9, t_err_no := x10\<rparr>"
  by (cases t) (simp add: k_set_thread_name_def split: option.split)

lemma thread_at_init_thread:
  "thread_at (init_thread i tid name work args perms s) j =
     (if i = j \<and> i < length (all_threads s)
      then fresh_thread s tid name work args perms (thread_at s i) else thread_at s j)"
  by (auto simp: init_thread_def Let_def thread_at_upd thread_at_init_register_context fresh_thread_def
      k_set_thread_name_commute)

lemma fresh_thread_inv:
  assumes "thread_inv n i t" and "tid = INVALID_THREAD \<or> tid = int i" and "n = CODE_BACKING_PAGES s"
    and "config_ok s"
  shows "thread_inv n i (fresh_thread s tid name work args perms t)"
proof -
  have "length (t_name t) = THREAD_NAME_SIZE" "length (t_messages t) = THREAD_MSG_QUEUE_SIZE"
    using assms(1) by (simp_all add: thread_inv_def thread_ok_def)
  then show ?thesis
    using assms k_set_thread_name_ok [of t name]
    by (auto simp: thread_inv_def thread_ok_def fresh_thread_def THREAD_MSG_QUEUE_SIZE_def config_ok_def)
qed

lemma init_thread_kinv:
  assumes "kinv s" and "tid = INVALID_THREAD \<or> tid = int i"
  shows "kinv (init_thread i tid name work args perms s)"
proof (rule kinv_of_threads [OF assms(1)])
  fix j assume "j < MAX_THREADS s"
  then show "thread_inv (CODE_BACKING_PAGES s) j (thread_at (init_thread i tid name work args perms s) j)"
    using kinvD(5) [OF assms(1), of j] kinvD(1) [OF assms(1)] assms(2)
    by (auto simp: thread_at_init_thread fresh_thread_inv)
qed simp_all

lemma init_thread_sane:
  "sane s \<Longrightarrow> tid = INVALID_THREAD \<or> tid = int i \<Longrightarrow> sane (init_thread i tid name work args perms s)"
  by (rule sane_step [of s]) (simp_all add: init_thread_kinv running_init_thread sane_def)

text \<open>Reference counts.\<close>

lemma refs_update_sane:
  assumes "sane s" and "length r = length (backing_refs s)"
  shows "sane (s\<lparr>backing_refs := r\<rparr>)"
proof -
  have "kinv (s\<lparr>backing_refs := r\<rparr>)"
  proof (rule kinv_of_threads [of s])
    show "kinv s" using assms by (simp add: sane_def)
    then show "\<And>j. j < MAX_THREADS s \<Longrightarrow> thread_inv (CODE_BACKING_PAGES s) j (thread_at (s\<lparr>backing_refs := r\<rparr>) j)"
      using kinvD(5) by simp
  qed (use assms in simp_all)
  then show ?thesis using running_cong [of "s\<lparr>backing_refs := r\<rparr>" s] by (intro sane_step [OF assms(1)]) simp_all
qed

lemma inc_ref_sane: "sane s \<Longrightarrow> sane (inc_ref p s)"
  by (simp add: inc_ref_def refs_update_sane)

lemma inc_ref_simps [simp]:
  "all_threads (inc_ref p s) = all_threads s" "current_thread (inc_ref p s) = current_thread s"
  "next_thread (inc_ref p s) = next_thread s" "memory (inc_ref p s) = memory s"
  by (simp_all add: inc_ref_def)

lemma dec_ref_sane: "sane s \<Longrightarrow> sane (dec_ref p s)"
  by (simp add: dec_ref_def refs_update_sane)

lemma dec_ref_simps [simp]:
  "all_threads (dec_ref p s) = all_threads s" "current_thread (dec_ref p s) = current_thread s"
  "next_thread (dec_ref p s) = next_thread s"
  by (simp_all add: dec_ref_def)

lemma page_update_sane:
  assumes "sane s" and "unat p < CODE_BACKING_PAGES s \<or> p = INVALID_PAGE"
  shows "sane (upd_thread i (\<lambda>t. t\<lparr>t_code_backing_page := p\<rparr>) s)"
  using assms by (intro sane_upd) (auto simp: thread_inv_def thread_ok_def)

lemma setup_code_page_keeps:
  "sane s \<Longrightarrow> keeps (setup_code_page i s) s"
  by (auto simp: setup_code_page_def Let_def intro!: inc_ref_sane page_update_sane sane_upd split: option.split)

lemma setup_code_page_next:
  "setup_code_page i s = Ret a s' \<Longrightarrow> next_thread s' = next_thread s"
  by (auto simp: setup_code_page_def Let_def split: option.splits if_splits)

lemma find_slot_less:
  "find (\<lambda>idx. slot_free (thread_at s idx)) [0..<MAX_THREADS s] = Some idx \<Longrightarrow> idx < MAX_THREADS s"
  by (simp add: find_Some_upt)

lemma k_add_named_keeps:
  assumes "sane s"
  shows "keeps (k_add_named_thread_with_args worker name args rp s) s"
proof -
  have "keeps (setup_code_page idx s') s" if "sane s'" "current_thread s' = current_thread s" for idx s'
    using setup_code_page_keeps [OF that(1)] that(2) keeps_cong by metis
  then show ?thesis
    using assms
    by (auto simp: k_add_named_thread_with_args_def Let_def init_thread_sane split: option.split intro!: keeps_bind)
qed

lemma prepare_loader_stack_keeps:
  "sane s \<Longrightarrow> keeps (prepare_loader_stack i f args s) s"
  by (auto simp: prepare_loader_stack_def Let_def intro!: sane_upd split: option.split)

lemma free_backing_page:
  assumes "find_free_backing_page s \<noteq> INVALID_PAGE" and "CODE_BACKING_PAGES s \<le> 123456"
  shows "unat (find_free_backing_page s) < CODE_BACKING_PAGES s"
proof (cases "find (\<lambda>i. backing_refs s ! i = 0) [0..<CODE_BACKING_PAGES s]")
  case (Some i)
  then have "i < CODE_BACKING_PAGES s" by (simp add: find_Some_upt)
  with assms(2) Some show ?thesis by (simp add: find_free_backing_page_def)
qed (use assms in \<open>simp add: find_free_backing_page_def\<close>)

lemma k_add_named_pages:
  assumes "k_add_named_thread_with_args worker name args rp s = Ret tid s'"
  shows "CODE_BACKING_PAGES s' = CODE_BACKING_PAGES s" and "MAX_THREADS s' = MAX_THREADS s"
    and "tid = INVALID_THREAD \<or> 0 \<le> tid \<and> nat tid < MAX_THREADS s"
  using assms
  by (auto simp: k_add_named_thread_with_args_def Let_def setup_code_page_def inc_ref_def MAX_THREADS_def
      CODE_BACKING_PAGES_def find_Some_upt obind_eq_Ret split: option.splits if_splits)

lemma k_add_from_file_keeps:
  assumes "sane s"
  shows "keeps (k_add_thread_from_file_with_args f args rp s) s"
proof -
  have cfg: "CODE_BACKING_PAGES s \<le> 123456" using assms by (simp add: sane_def kinv_def config_ok_def)
  have last: "keeps (obind (prepare_loader_stack (nat tid) f args s') (\<lambda>_ s.
      Ret tid (if backing then inc_ref page (upd_thread (nat tid) (\<lambda>t. t\<lparr>t_code_backing_page := page\<rparr>) s)
        else upd_thread (nat tid) (\<lambda>t. t\<lparr>t_in_code_page := True\<rparr>) s))) s"
    if s': "sane s'" "current_thread s' = current_thread s" "CODE_BACKING_PAGES s' = CODE_BACKING_PAGES s"
      and page: "backing \<Longrightarrow> unat page < CODE_BACKING_PAGES s" for tid s' backing page
  proof (rule keeps_bind)
    show "keeps (prepare_loader_stack (nat tid) f args s') s"
      using prepare_loader_stack_keeps [OF s'(1)] keeps_cong s'(2) by metis
    fix u s2 assume p: "prepare_loader_stack (nat tid) f args s' = Ret u s2" "sane s2"
      "current_thread s2 = current_thread s"
    have "CODE_BACKING_PAGES s2 = CODE_BACKING_PAGES s"
      using p(1) s'(3)
      by (auto simp: prepare_loader_stack_def Let_def split: option.splits)
    with p page show "keeps (Ret tid (if backing
        then inc_ref page (upd_thread (nat tid) (\<lambda>t. t\<lparr>t_code_backing_page := page\<rparr>) s2)
        else upd_thread (nat tid) (\<lambda>t. t\<lparr>t_in_code_page := True\<rparr>) s2)) s"
      by (auto intro!: inc_ref_sane page_update_sane sane_upd)
  qed
  have add: "keeps (obind (k_add_named_thread_with_args (b_load_elf (build s)) (Some (map of_char ''loader''))
        (\<lambda>_. la) 0 s) (\<lambda>tid s.
      if tid = INVALID_THREAD then Ret INVALID_THREAD s
      else obind (prepare_loader_stack (nat tid) f args s) (\<lambda>_ s.
        Ret tid (if backing then inc_ref page (upd_thread (nat tid) (\<lambda>t. t\<lparr>t_code_backing_page := page\<rparr>) s)
          else upd_thread (nat tid) (\<lambda>t. t\<lparr>t_in_code_page := True\<rparr>) s)))) s"
    if "backing \<Longrightarrow> unat page < CODE_BACKING_PAGES s" for backing page la
    by (rule keeps_bind [OF k_add_named_keeps [OF assms]])
      (use last [OF _ _ k_add_named_pages(1) that] in \<open>simp split: if_split\<close>)
  have "0 < CODE_BACKING_PAGES s \<Longrightarrow> find_free_backing_page s \<noteq> INVALID_PAGE \<Longrightarrow>
      unat (find_free_backing_page s) < CODE_BACKING_PAGES s"
    using free_backing_page [OF _ cfg] by simp
  then show ?thesis
    using assms add [of "0 < CODE_BACKING_PAGES s"]
    by (auto simp: k_add_thread_from_file_with_args_def Let_def)
qed

lemma k_add_thread_keeps: "sane s \<Longrightarrow> keeps (k_add_thread a b c d s) s"
  by (auto simp: k_add_thread_def Let_def k_add_from_file_keeps k_add_named_keeps keeps_bind k_assert_def)

lemma swap_in_keeps: "sane s \<Longrightarrow> keeps (swap_paged_threads (current_thread s) None s) s"
  by (auto simp: swap_paged_threads_def page_in_def split: option.split)

lemma k_restart_keeps:
  assumes "sane s"
  shows "keeps (k_restart w nm args rp s) s"
proof (cases "current_thread s")
  case (Some c)
  then have c: "c < MAX_THREADS s" "thread_inv (CODE_BACKING_PAGES s) c (thread_at s c)"
    using kinv_current kinvD(5) assms by (auto simp: sane_def)
  let ?t0 = "thread_at s c"
  let ?s1 = "init_thread c (t_id ?t0) (name_arg (memory s) nm) w (load_args args) (t_permissions ?t0 AND NOT rp) s"
  have s1: "sane (upd_thread c (\<lambda>t. t\<lparr>t_parent := t_parent ?t0\<rparr>) ?s1)"
  proof -
    have "t_id ?t0 = INVALID_THREAD \<or> t_id ?t0 = int c" using c(2) by (simp add: thread_inv_def)
    from init_thread_sane [OF assms this] show ?thesis by (intro sane_upd) simp_all
  qed
  have s2: "sane (upd_thread c (\<lambda>t. t\<lparr>t_in_code_page := t_in_code_page ?t0\<rparr>) s')" if "sane s'" for s'
    using that by (intro sane_upd) auto
  have s3: "sane (upd_thread c (\<lambda>t. t\<lparr>t_code_backing_page := t_code_backing_page ?t0\<rparr>) s')"
    if "sane s'" "CODE_BACKING_PAGES s' = CODE_BACKING_PAGES s" "CODE_BACKING_PAGES s \<noteq> 0" for s'
    using that c(2) by (intro page_update_sane) (auto simp: thread_inv_def)
  have sw: "keeps (swap_paged_threads (current_thread s') None s') s"
    if "sane s'" "current_thread s' = current_thread s" for s'
    using swap_in_keeps [OF that(1)] that(2) keeps_cong by metis
  show ?thesis
    using Some s1 s2 s3 sw [unfolded Some]
    by (auto simp: k_restart_def on_current_def Let_def)
qed (simp add: k_restart_def on_current_def)

section \<open>Thread states\<close>

lemma set_thread_state_simps [simp]:
  "current_thread (snd (set_thread_state tid st s)) = current_thread s"
  "next_thread (snd (set_thread_state tid st s)) = next_thread s"
  "memory (snd (set_thread_state tid st s)) = memory s"
  "MAX_THREADS (snd (set_thread_state tid st s)) = MAX_THREADS s"
  by (simp_all add: set_thread_state_def)

lemma set_thread_state_sane: "sane s \<Longrightarrow> st \<noteq> running \<Longrightarrow> sane (snd (set_thread_state tid st s))"
  by (auto simp: set_thread_state_def intro!: sane_upd)

lemma k_thread_wake_keeps: "sane s \<Longrightarrow> keeps (k_thread_wake tid s) s"
  using set_thread_state_sane [of s suspended tid] by (simp add: k_thread_wake_def split_beta)

lemma sane_tags:
  assumes "sane s" and "heap_ok (f (block_tags s))"
  shows "sane (with_tags f s)"
proof -
  have "kinv (with_tags f s)"
    using assms
    by (simp add: sane_def kinv_def config_ok_def ptr_ok_def MAX_THREADS_def CODE_BACKING_PAGES_def
        CODE_PAGE_SIZE_def)
  then show ?thesis
    using running_cong [of "with_tags f s" s] by (intro sane_step [OF assms(1)]) simp_all
qed

lemma k_free_all_sane: "sane s \<Longrightarrow> sane (k_free_all tid s)"
proof -
  assume s: "sane s"
  then have "heap_ok (block_tags (k_free_all tid s))"
    using k_free_all_allocs(1) by (simp add: sane_def kinv_def)
  then show ?thesis
    using sane_tags [OF s, of "free_all_loop tid 0"] by (simp add: k_free_all_def with_tags_def)
qed

lemma pages_free_all [simp]:
  "CODE_BACKING_PAGES (k_free_all tid s) = CODE_BACKING_PAGES s"
  "CODE_PAGE_SIZE (k_free_all tid s) = CODE_PAGE_SIZE s"
  by (simp_all add: CODE_BACKING_PAGES_def CODE_PAGE_SIZE_def)

lemma cleanup_thread_keeps:
  assumes "sane s"
  shows "keeps (cleanup_thread i s) s"
proof -
  have "sane (upd_thread i (\<lambda>t. t\<lparr>t_in_code_page := False\<rparr>) (k_free_all (t_id (thread_at s i)) s))"
    by (intro sane_upd k_free_all_sane assms) simp_all
  then show ?thesis
    using k_free_all_sane [OF assms]
    by (auto simp: cleanup_thread_def Let_def intro!: page_update_sane dec_ref_sane)
qed

lemma cleanup_thread_next: "cleanup_thread i s = Ret u s' \<Longrightarrow> next_thread s' = next_thread s"
  by (auto simp: cleanup_thread_def Let_def split: if_splits)

lemma entered_scheduler: "entered s \<Longrightarrow> keeps (do_scheduler s) s"
  using do_scheduler_keeps enteredD by blast

lemma k_thread_cancel_keeps:
  assumes "entered s"
  shows "keeps (k_thread_cancel tid s) s"
proof -
  note s = enteredD [OF assms]
  have "keeps (let (set, s1) = set_thread_state tid' cancelled s in
      if set then obind (cleanup_thread (nat tid') s1) (\<lambda>_ s. on_current s (\<lambda>c.
          if tid' = t_id (thread_at s c) then obind (do_scheduler s) (\<lambda>_ s. Ret True s) else Ret set s))
      else Ret set s1) s" for tid'
  proof -
    let ?s1 = "snd (set_thread_state tid' cancelled s)"
    have s1: "sane ?s1" by (rule set_thread_state_sane) (use s in simp_all)
    have "keeps (obind (cleanup_thread (nat tid') ?s1) (\<lambda>_ s. on_current s (\<lambda>c.
          if tid' = t_id (thread_at s c) then obind (do_scheduler s) (\<lambda>_ s. Ret True s) else Ret b s))) s" for b
    proof (rule keeps_bind)
      show "keeps (cleanup_thread (nat tid') ?s1) s"
        using cleanup_thread_keeps [OF s1, of "nat tid'"] by (simp add: keeps_def)
      fix u s2 assume c: "cleanup_thread (nat tid') ?s1 = Ret u s2" "sane s2" "current_thread s2 = current_thread s"
      then have "entered s2" using cleanup_thread_next [OF c(1)] s(3) by (simp add: entered_def)
      then have "keeps (do_scheduler s2) s" using entered_scheduler keeps_cong c(3) by metis
      then show "keeps (on_current s2 (\<lambda>c. if tid' = t_id (thread_at s2 c)
          then obind (do_scheduler s2) (\<lambda>_ s. Ret True s) else Ret b s2)) s"
        using c by (auto simp: on_current_def intro: keeps_bind split: option.split)
    qed
    then show ?thesis using s1 by (simp add: split_beta)
  qed
  then show ?thesis
    by (auto simp: k_thread_cancel_def on_current_def split: option.split)
qed

section \<open>Yielding and waiting\<close>

lemma scheduler_to_keeps:
  assumes "entered s" and "ptr_ok p s"
  shows "keeps (do_scheduler (s\<lparr>next_thread := p\<rparr>)) s"
proof -
  have "kinv (s\<lparr>next_thread := p\<rparr>)" using next_thread_update_kinv enteredD(2) assms by blast
  moreover have "running_is (current_thread s) (s\<lparr>next_thread := p\<rparr>)"
    using enteredD(4) [OF assms(1)] running_cong [of "s\<lparr>next_thread := p\<rparr>" s] by simp
  ultimately have "keeps (do_scheduler (s\<lparr>next_thread := p\<rparr>)) (s\<lparr>next_thread := p\<rparr>)"
    by (intro do_scheduler_keeps) simp_all
  then show ?thesis by (simp add: keeps_def)
qed

lemma k_yield_keeps:
  assumes "entered s"
  shows "keeps (k_yield tid kind s) s"
proof -
  have "keeps (k_do_yield None s) s"
    using scheduler_to_keeps [OF assms, of None]
    by (auto simp: k_do_yield_def ptr_ok_def intro: keeps_bind)
  moreover have "keeps (k_do_yield (Some (nat tid)) s) s" if "can_schedule_thread tid s"
  proof -
    have "nat tid < MAX_THREADS s" using valid_less can_schedule_valid that by blast
    then show ?thesis
      using scheduler_to_keeps [OF assms, of "Some (nat tid)"]
      by (auto simp: k_do_yield_def ptr_ok_def intro: keeps_bind)
  qed
  ultimately show ?thesis
    using enteredD(1) [OF assms] by (auto simp: k_yield_def k_assert_def)
qed

lemma k_thread_wait_keeps:
  assumes "entered s"
  shows "keeps (k_thread_wait s) s"
proof (cases "current_thread s")
  case (Some c)
  have "entered (upd_thread c (\<lambda>t. t\<lparr>t_state := waiting\<rparr>) s)"
    using enteredD [OF assms] unfolding entered_def by (auto intro!: sane_upd)
  from entered_scheduler [OF this] Some show ?thesis
    by (simp add: k_thread_wait_def on_current_def keeps_def)
qed (simp add: k_thread_wait_def on_current_def)

section \<open>Messages and locks\<close>

lemma push_msg_state [simp]: "t_state (push_msg m t) = t_state t"
  by (simp add: push_msg_def Let_def)

lemma pop_msg_state [simp]: "t_state (pop_msg t) = t_state t"
  by (simp add: pop_msg_def)

lemma k_send_msg_keeps:
  assumes "sane s"
  shows "keeps (k_send_msg d m s) s"
proof -
  have "sane (upd_thread (nat d) (push_msg x) s)" if "\<not> t_msgs_full (thread_at s (nat d))" for x
    by (rule sane_upd [OF assms])
      (use that push_msg_msgs(2) [of "thread_at s (nat d)" x] in
        \<open>auto simp: thread_inv_def push_msg_def Let_def\<close>)
  then show ?thesis using assms by (simp add: k_send_msg_eq)
qed

lemma k_get_msg_keeps:
  assumes "sane s"
  shows "keeps (k_get_msg a b s) s"
proof (cases "current_thread s")
  case (Some c)
  then have c: "thread_ok (thread_at s c)"
    using assms kinv_current kinvD(5) by (auto simp: sane_def thread_inv_def)
  have "sane (upd_thread c pop_msg s')" if "msgs (thread_at s c) \<noteq> []" "sane s'" "all_threads s' = all_threads s" for s'
    by (rule sane_upd [OF that(2)])
      (use that pop_msg_msgs(2) [OF c that(1)] in \<open>auto simp: thread_inv_def pop_msg_def\<close>)
  then show ?thesis
    using assms Some k_get_msg_eq [OF Some c, of a b]
    by (cases "a = NULL \<or> b = NULL") (auto simp: k_get_msg_def split: list.split)
qed (use assms in \<open>auto simp: k_get_msg_def on_current_def\<close>)

lemma k_mutex_keeps: "sane s \<Longrightarrow> keeps (k_mutex op m s) s"
  by (auto simp: k_mutex_def Let_def k_init_mutex_def k_lock_mutex_def k_unlock_mutex_def set_owner_def
      split: option.split)

lemma cv_sets_sane [simp]:
  "sane (set_first cv v s) = sane s" "sane (set_last cv v s) = sane s" "sane (set_full cv b s) = sane s"
  "sane (set_waiting cv i w s) = sane s"
  by (simp_all add: set_first_def set_last_def set_full_def set_waiting_def)

lemma cv_sets_simps [simp]:
  "current_thread (set_first cv v s) = current_thread s" "current_thread (set_last cv v s) = current_thread s"
  "current_thread (set_full cv b s) = current_thread s" "current_thread (set_waiting cv i w s) = current_thread s"
  "next_thread (set_first cv v s) = next_thread s" "next_thread (set_last cv v s) = next_thread s"
  "next_thread (set_full cv b s) = next_thread s" "next_thread (set_waiting cv i w s) = next_thread s"
  "all_threads (set_first cv v s) = all_threads s" "all_threads (set_last cv v s) = all_threads s"
  "all_threads (set_full cv b s) = all_threads s" "all_threads (set_waiting cv i w s) = all_threads s"
  by (simp_all add: set_first_def set_last_def set_full_def set_waiting_def)

lemma k_signal_sane:
  "sane s \<Longrightarrow> sane (snd (k_signal cv s)) \<and> current_thread (snd (k_signal cv s)) = current_thread s \<and>
     next_thread (snd (k_signal cv s)) = next_thread s"
  using set_thread_state_sane [of s suspended] by (simp add: k_signal_def split_beta Let_def)

lemma broadcast_loop_sane:
  assumes "broadcast_loop cv s = Some s'"
  shows "sane s \<longrightarrow> sane s' \<and> current_thread s' = current_thread s"
proof (rule broadcast_loop.raw_induct [OF _ assms])
  fix bl cv s s'
  assume IH: "\<And>cv s s'. bl cv s = Some s' \<Longrightarrow> sane s \<longrightarrow> sane s' \<and> current_thread s' = current_thread s"
    and step: "(let (signalled, s) = k_signal cv s in if signalled then bl cv s else Some s) = Some s'"
  show "sane s \<longrightarrow> sane s' \<and> current_thread s' = current_thread s"
    using IH step k_signal_sane [of s cv] by (cases "k_signal cv s") (auto split: if_splits)
qed

lemma k_condition_variable_keeps:
  assumes "entered s"
  shows "keeps (k_condition_variable op cv s) s"
proof -
  note s = enteredD(1) [OF assms]
  have w: "keeps (k_wait cv s) s"
  proof -
    define s1 where "s1 = set_last cv (inc_mod (get_last cv (set_waiting cv (get_last cv s) (k_get_thread_id s) s))
      (set_waiting cv (get_last cv s) (k_get_thread_id s) s)) (set_waiting cv (get_last cv s) (k_get_thread_id s) s)"
    have "entered (set_full cv b s1)" and "current_thread (set_full cv b s1) = current_thread s" for b
      using s enteredD(3) [OF assms] by (simp_all add: entered_def s1_def)
    then have "keeps (k_thread_wait (set_full cv b s1)) s" for b
      using k_thread_wait_keeps keeps_cong by metis
    then show ?thesis by (auto simp: k_wait_def Let_def s1_def intro: keeps_bind)
  qed
  have b: "keeps (k_broadcast cv s) s"
    using broadcast_loop_sane [of cv s] s by (auto simp: k_broadcast_def split: option.split)
  show ?thesis
    using s w b k_signal_sane [OF s, of cv]
    by (auto simp: k_condition_variable_def Let_def k_init_condition_variable_def split_beta split: option.split)
qed

section \<open>Properties\<close>

lemma k_get_thread_property_keeps: "sane s \<Longrightarrow> keeps (k_get_thread_property tid p r s) s"
  by (auto simp: k_get_thread_property_def do_get_thread_property_def Let_def)

lemma set_name_inv:
  "thread_inv n i t \<Longrightarrow> thread_inv n i (k_set_thread_name nm t)"
  using k_set_thread_name_ok [of t nm] by (simp add: thread_inv_def thread_ok_def)

lemma k_set_thread_property_keeps:
  assumes "sane s"
  shows "keeps (k_set_thread_property tid p v s) s"
proof -
  have u: "sane (upd_thread i f s')"
    if "sane s'" "\<And>n i t. thread_inv n i t \<Longrightarrow> thread_inv n i (f t)" "\<And>t. t_state (f t) = t_state t" for i f s'
    using that by (intro sane_upd) simp_all
  have child: "sane (upd_thread j (\<lambda>t. t\<lparr>t_parent := a\<rparr>) (upd_thread i (\<lambda>t. t\<lparr>t_child := b\<rparr>) s))" for i j a b
    by (intro u assms) simp_all
  have name: "sane (upd_thread i (k_set_thread_name nm) s)" for i nm
    by (intro u assms) (simp_all add: set_name_inv)
  have perms: "sane (upd_thread i (\<lambda>t. t\<lparr>t_permissions := t_permissions t AND x\<rparr>) s)" for i x
    by (intro u assms) simp_all
  have sigs: "sane (upd_thread i (\<lambda>t. t\<lparr>t_pending_signals := t_pending_signals t OR x\<rparr>) s)" for i x
    by (intro u assms) simp_all
  have handler: "sane (upd_thread i (\<lambda>t. t\<lparr>t_signal_handler := x\<rparr>) s)" for i x
    by (intro u assms) simp_all
  show ?thesis
    using assms child name perms sigs handler
    by (simp add: k_set_thread_property_def do_set_thread_property_def Let_def)
qed

section \<open>The heap\<close>

lemma heap_ok_tid: "heap_ok (tags[i := (tags ! i)\<lparr>bt_tid := x\<rparr>]) = heap_ok tags"
proof -
  have "tag_at (tags[i := (tags ! i)\<lparr>bt_tid := x\<rparr>]) j = tag_at tags j" for j
    by (cases "i < length tags"; cases "j = i") (simp_all add: tag_at_def list_update_beyond)
  then show ?thesis by (simp add: heap_ok_def)
qed

lemma set_tid_eq: "set_tid i x s = with_tags (\<lambda>tags. tags[i := (tags ! i)\<lparr>bt_tid := x\<rparr>]) s"
  by (simp add: set_tid_def with_tags_def)

lemma set_tid_sane: "sane s \<Longrightarrow> sane (set_tid i x s)"
  unfolding set_tid_eq by (rule sane_tags) (simp_all add: heap_ok_tid sane_def kinv_def)

lemma release_sane: "sane s \<Longrightarrow> sane (set_tag i 0 s)"
  unfolding set_tag_release by (rule sane_tags) (auto simp: sane_def kinv_def heap_ok_release)

lemma set_tag_tid_simps [simp]:
  "current_thread (set_tag i x s) = current_thread s" "current_thread (set_tid i y s) = current_thread s"
  "current_thread (with_tags f s) = current_thread s"
  by (simp_all add: set_tag_def set_tid_def)

lemma claim_sane:
  assumes "sane s" and "find_free_space (block_tags s) n = Some i"
  shows "sane (set_tid i y (set_tag i (ucast n) s))"
proof (rule set_tid_sane)
  have ok: "heap_ok (block_tags s)" using assms(1) by (simp add: sane_def kinv_def)
  note f = find_free_space_Some [OF ok assms(2)]
  have "i < length (block_tags s)" using f(4) heap_okD(1) [OF ok] by simp
  then have "set_tag i (ucast n) s =
      with_tags (\<lambda>tags. (claim_tags i (unat n) 0 tags)[i := ((claim_tags i (unat n) 0 tags) ! i)\<lparr>bt_tid := bt_tid (tags ! i)\<rparr>]) s"
    by (cases "block_tags s ! i") (simp add: set_tag_def with_tags_def claim_tags_def)
  moreover have "heap_ok (claim_tags i (unat n) 0 (block_tags s))"
    by (rule heap_ok_claim [OF ok f(2)]) (use f(1) in \<open>simp add: unat_gt_0\<close>)
  ultimately show "sane (set_tag i (ucast n) s)"
    using sane_tags [OF assms(1)] heap_ok_tid [of "claim_tags i (unat n) 0 (block_tags s)"] by simp
qed

lemma k_malloc_keeps: "sane s \<Longrightarrow> keeps (k_malloc sz s) s"
  using claim_sane by (auto simp: k_malloc_def Let_def split: option.split)

lemma k_free_keeps: "sane s \<Longrightarrow> keeps (k_free p s) s"
  by (auto simp: k_free_def can_realloc_free_def Let_def set_tid_sane release_sane)

lemma k_realloc_keeps:
  assumes "sane s"
  shows "keeps (k_realloc p sz s) s"
proof -
  have restore: "set_tag i (bt_tag (block_tags s ! i)) (set_tag i 0 s) = s" if "i < length (block_tags s)" for i
    using that by (simp add: set_tag_def)
  have "sane (set_tid j y (set_tag j (ucast n) (set_memory m (set_tag i 0 s))))"
    if "find_free_space (block_tags (set_tag i 0 s)) n = Some j" for i j y n m
    by (rule claim_sane) (use that release_sane [OF assms] in simp_all)
  then show ?thesis
    using assms restore k_malloc_keeps
    by (auto simp: k_realloc_def can_realloc_free_def Let_def split: option.split)
qed

section \<open>Files\<close>

lemma host_frame [simp]: "sane (s\<lparr>host_calls := c\<rparr>) = sane s"
  by (rule sane_cong) simp_all

lemma semihosting_sane:
  "sane s \<Longrightarrow> sane (snd (generic_semihosting_call h op ps s))"
  "current_thread (snd (generic_semihosting_call h op ps s)) = current_thread s"
  "next_thread (snd (generic_semihosting_call h op ps s)) = next_thread s"
  "all_threads (snd (generic_semihosting_call h op ps s)) = all_threads s"
  by (simp_all add: generic_semihosting_call_def split_beta Let_def)

lemma keeps_trans: "keeps m s' \<Longrightarrow> current_thread s' = current_thread s \<Longrightarrow> keeps m s"
  by (simp add: keeps_def)

lemma file_keeps:
  assumes "sane s"
  shows "keeps (k_open h p fl s) s" "keeps (k_read h fd buf n s) s" "keeps (k_write h fd buf n s) s"
    "keeps (k_lseek h fd off wh s) s" "keeps (k_remove h p s) s" "keeps (k_close h fd s) s"
  using assms semihosting_sane
  by (auto simp: k_open_def k_read_def k_write_def k_lseek_def k_remove_def k_close_def need_file_def
      split_beta Let_def k_assert_def split: option.split)

lemma list_dir_read_keeps:
  assumes "sane s"
  shows "keeps (list_dir_read h out outsz s) s"
  unfolding list_dir_read_def
proof (intro keeps_bind [OF file_keeps(1) [OF assms]])
  fix fd s1 assume s1: "sane s1" "current_thread s1 = current_thread s"
  let ?r = "generic_semihosting_call h SYS_FLEN [fd] s1"
  have s2: "sane (snd ?r)" "current_thread (snd ?r) = current_thread s"
    using semihosting_sane s1 by simp_all
  have rest: "keeps (obind (k_read h fd out (fst ?r) (snd ?r)) (\<lambda>_ s.
      obind (k_close h fd (set_memory ((memory s)(out + fst ?r := 0)) s)) (\<lambda>_ s. Ret 0 s))) s"
  proof (rule keeps_bind)
    show "keeps (k_read h fd out (fst ?r) (snd ?r)) s"
      using file_keeps(2) [OF s2(1)] s2(2) by (rule keeps_trans)
    fix a s3 assume s3: "sane s3" "current_thread s3 = current_thread s"
    have "keeps (k_close h fd (set_memory m s3)) s" for m
      by (rule keeps_trans [OF file_keeps(6)]) (use s3 in simp_all)
    then show "keeps (obind (k_close h fd (set_memory ((memory s3)(out + fst ?r := 0)) s3)) (\<lambda>_ s. Ret 0 s)) s"
      by (rule keeps_bind) simp
  qed
  show "keeps (obind (k_assert (fd \<noteq> - 1) s1) (\<lambda>_ s.
      let (ls_sz, s) = generic_semihosting_call h SYS_FLEN [fd] s in
      obind (k_assert (ls_sz \<noteq> - 1 \<and> ls_sz < outsz) s) (\<lambda>_ s.
      obind (k_read h fd out ls_sz s) (\<lambda>_ s.
      obind (k_close h fd (set_memory ((memory s)(out + ls_sz := 0)) s)) (\<lambda>_ s. Ret 0 s))))) s"
    using s1 rest by (auto simp: k_assert_def split_beta)
qed

lemma k_list_dir_keeps:
  assumes "sane s"
  shows "keeps (k_list_dir h p out outsz s) s"
proof -
  have "keeps (list_dir_read h out outsz s') s" if "sane s'" "current_thread s' = current_thread s" for s'
    using list_dir_read_keeps [OF that(1)] that(2) by (rule keeps_trans)
  then show ?thesis
    using assms
    by (auto simp: k_list_dir_def need_file_def Let_def k_assert_def split_beta semihosting_sane split: option.split)
qed

section \<open>The handler\<close>

lemma k_set_kernel_config_simps [simp]:
  "sane (k_set_kernel_config e d s) = sane s"
  "current_thread (k_set_kernel_config e d s) = current_thread s"
proof -
  have "sane (s\<lparr>kernel_config := c\<rparr>) = sane s" for c by (rule sane_cong) simp_all
  then show "sane (k_set_kernel_config e d s) = sane s"
    by (simp add: k_set_kernel_config_def)
  show "current_thread (k_set_kernel_config e d s) = current_thread s"
    by (simp add: k_set_kernel_config_def)
qed

lemma keeps_ret [simp]:
  "keeps (ret_bool mb) s = keeps mb s" "keeps (ret_int mi) s = keeps mi s" "keeps (ret_unit mu) s = keeps mu s"
proof -
  show "keeps (ret_bool mb) s = keeps mb s" by (cases mb) (simp_all add: ret_bool_def)
  show "keeps (ret_int mi) s = keeps mi s" by (cases mi) (simp_all add: ret_int_def)
  show "keeps (ret_unit mu) s = keeps mu s" by (cases mu) (simp_all add: ret_unit_def)
qed

lemma call_syscall_keeps:
  assumes "entered s"
  shows "keeps (call_syscall h c w x y z s) s"
  using enteredD(1) [OF assms]
  by (cases c)
    (simp_all add: k_add_thread_keeps k_get_thread_property_keeps k_set_thread_property_keeps
      k_yield_keeps assms k_restart_keeps k_get_msg_keeps k_send_msg_keeps k_thread_wait_keeps k_thread_wake_keeps
      k_thread_cancel_keeps k_mutex_keeps k_condition_variable_keeps file_keeps k_malloc_keeps k_realloc_keeps
      k_free_keeps k_list_dir_keeps k_exit_def)

lemma check_stack_keeps:
  assumes "entered s"
  shows "ret_state (check_stack s) (\<lambda>s'. entered s' \<and> current_thread s' = current_thread s)"
proof (cases "current_thread s")
  case (Some c)
  have "sane (upd_thread c (\<lambda>t. t\<lparr>t_id := INVALID_THREAD, t_name := (t_name t)[0 := 0]\<rparr>) s)"
    by (rule sane_upd) (use enteredD(1) [OF assms] in \<open>auto simp: thread_inv_def thread_ok_def intro!: set_update_memI\<close>)
  then show ?thesis
    using assms Some
    by (auto simp: check_stack_def on_current_def Let_def k_exit_def entered_def)
qed (simp add: check_stack_def on_current_def)

lemma decode_syscall_Ret: "decode_syscall ctx s = Ret c s' \<Longrightarrow> s' = s"
  by (auto simp: decode_syscall_def Let_def obind_eq_Ret split: option.splits)

lemma run_syscall_keeps:
  assumes "entered s"
  shows "keeps (run_syscall h ctx c s) s"
  using call_syscall_keeps [OF assms]
  by (auto simp: run_syscall_def Let_def intro: keeps_bind)

lemma log_failed_keeps: "sane s \<Longrightarrow> keeps (log_failed_syscall ctx e s) s"
  by (auto simp: log_failed_syscall_def Let_def split: option.split)

lemma update_info_sane: "sane s \<Longrightarrow> sane (k_update_user_thread_info i s)"
  by (rule sane_step [of s]) (simp_all add: update_info_kinv update_info_running sane_def)

lemma finish_syscall_keeps:
  assumes "sane s"
  shows "ret_state (finish_syscall c s) (\<lambda>s'. sane s' \<and> current_thread s' = current_thread s \<and> next_thread s' \<noteq> None)"
proof (cases "next_thread s = None \<and> current_thread s \<noteq> None")
  case True
  then obtain i where i: "current_thread s = Some i" by blast
  have k: "kinv (s\<lparr>next_thread := Some i\<rparr>)"
    using assms kinv_current i by (intro next_thread_update_kinv) (auto simp: sane_def ptr_ok_def)
  have "sane (s\<lparr>next_thread := Some i\<rparr>)"
    using k assms True i running_cong [of "s\<lparr>next_thread := Some i\<rparr>" s] by (simp add: sane_def)
  with i True show ?thesis
    by (simp add: finish_syscall_def on_current_def Let_def update_info_sane)
next
  case False
  with assms show ?thesis
    by (auto simp: finish_syscall_def on_current_def split: option.split)
qed

text \<open>The handler as a whole: afterwards a thread has been chosen to go on.\<close>

lemma k_handle_syscall_sane:
  assumes "entered s"
  shows "ret_state (k_handle_syscall h s)
    (\<lambda>s'. sane s' \<and> current_thread s' = current_thread s \<and> next_thread s' \<noteq> None)"
proof (cases "current_thread s")
  case None
  then show ?thesis by (simp add: k_handle_syscall_def on_current_def)
next
  case (Some cur)
  let ?ctx = "t_stack_ptr (thread_at s cur)"
  have rest: "ret_state (obind (decode_syscall ?ctx s1) (\<lambda>c s.
      let log_errno = (kernel_config s AND KCFG_LOG_FAILED_ERRNO \<noteq> 0);
          old_err_no = u_err_no (user_thread_info s);
          s = (if log_errno then set_errno 0 s else s) in
      obind (run_syscall h ?ctx c s) (\<lambda>_ s.
      obind (if log_errno then log_failed_syscall ?ctx old_err_no s else Ret () s) (\<lambda>_ s. finish_syscall c s))))
    (\<lambda>s'. sane s' \<and> current_thread s' = current_thread s \<and> next_thread s' \<noteq> None)"
    if s1: "entered s1" "current_thread s1 = current_thread s" for s1
    unfolding Let_def
  proof (rule ret_state_bind [where Q = "\<lambda>s. entered s \<and> current_thread s = Some cur"])
    show "ret_state (decode_syscall ?ctx s1) (\<lambda>s. entered s \<and> current_thread s = Some cur)"
      using s1 Some decode_syscall_Ret by (auto simp: ret_state_iff)
  next
    fix c s2 assume s2: "entered s2 \<and> current_thread s2 = Some cur"
    let ?s3 = "if kernel_config s2 AND KCFG_LOG_FAILED_ERRNO \<noteq> 0 then set_errno 0 s2 else s2"
    have s3: "entered ?s3" "current_thread ?s3 = current_thread s" using s2 Some by (simp_all add: entered_def)
    show "ret_state (obind (run_syscall h ?ctx c ?s3) (\<lambda>_ s.
        obind (if kernel_config s2 AND KCFG_LOG_FAILED_ERRNO \<noteq> 0
               then log_failed_syscall ?ctx (u_err_no (user_thread_info s2)) s else Ret () s)
          (\<lambda>_ s. finish_syscall c s)))
      (\<lambda>s'. sane s' \<and> current_thread s' = current_thread s \<and> next_thread s' \<noteq> None)"
    proof (rule ret_state_bind [where Q = "\<lambda>s'. sane s' \<and> current_thread s' = current_thread s"])
      show "ret_state (run_syscall h ?ctx c ?s3) (\<lambda>s'. sane s' \<and> current_thread s' = current_thread s)"
        using run_syscall_keeps [OF s3(1)] s3(2) by (simp only: keeps_def)
    next
      fix u s4 assume s4: "sane s4 \<and> current_thread s4 = current_thread s"
      have fin: "ret_state (finish_syscall c s5)
          (\<lambda>s'. sane s' \<and> current_thread s' = current_thread s \<and> next_thread s' \<noteq> None)"
        if "sane s5" "current_thread s5 = current_thread s" for s5
        using finish_syscall_keeps [OF that(1), of c] that(2) by (simp add: ret_state_iff)
      show "ret_state (obind (if kernel_config s2 AND KCFG_LOG_FAILED_ERRNO \<noteq> 0
               then log_failed_syscall ?ctx (u_err_no (user_thread_info s2)) s4 else Ret () s4)
          (\<lambda>_ s. finish_syscall c s))
        (\<lambda>s'. sane s' \<and> current_thread s' = current_thread s \<and> next_thread s' \<noteq> None)"
        by (rule ret_state_bind [where Q = "\<lambda>s'. sane s' \<and> current_thread s' = current_thread s"])
          (use s4 log_failed_keeps [of s4 ?ctx] fin in \<open>auto simp: keeps_def\<close>)
    qed
  qed
  show ?thesis
    unfolding k_handle_syscall_def on_current_def Some option.case Let_def
  proof (rule ret_state_bind [OF check_stack_keeps [OF assms]])
    fix b s1 assume "entered s1 \<and> current_thread s1 = current_thread s"
    then have "entered (set_memory m s1)" "current_thread (set_memory m s1) = current_thread s"
      "entered s1" "current_thread s1 = current_thread s" for m
      by (simp_all add: entered_def)
    then show "ret_state (obind (decode_syscall ?ctx (if b then s1 else set_memory
          (store32 (store32 (store32 (memory s1) (?ctx + CTX_SYSCALL_NUM) num_yield)
             (?ctx + CTX_ARG1) (word_of_int YIELD_ANY)) (?ctx + CTX_ARG0) (word_of_int INVALID_THREAD)) s1)) (\<lambda>c s.
      obind (run_syscall h ?ctx c (if kernel_config s AND KCFG_LOG_FAILED_ERRNO \<noteq> 0 then set_errno 0 s else s)) (\<lambda>_ s'.
      obind (if kernel_config s AND KCFG_LOG_FAILED_ERRNO \<noteq> 0
             then log_failed_syscall ?ctx (u_err_no (user_thread_info s)) s' else Ret () s')
        (\<lambda>_ s. finish_syscall c s))))
      (\<lambda>s'. sane s' \<and> current_thread s' = Some cur \<and> next_thread s' \<noteq> None)"
      using rest [unfolded Let_def Some] using Some by (cases b) simp_all
  qed
qed

end
