(* ===== verification/Machine.thy ===== *)
theory Machine
  imports Preservation
begin

text \<open>
  The system from reset on: booting (\<open>entry\<close> in \<open>src/kernel/thread.c\<close>), the switch to user mode at
  the end of every exception (\<open>src/hw/arm_virt/yield.S\<close>), and the steps of the whole machine. What
  a thread does in user mode is left open: it may change the memory, its copy of errno, the
  canaries of its own stack (a stack overflow) and print; everything else goes through the kernel.
\<close>

section \<open>Exceptions\<close>

text \<open>The context of the interrupted thread is pushed on its stack, and its stack pointer kept.\<close>

definition save_current_thread :: "size_t \<Rightarrow> byte list \<Rightarrow> kstate \<Rightarrow> kstate" where
  "save_current_thread sp ctx s =
     (case current_thread s of
        Some c \<Rightarrow> set_memory (store_bytes (memory s) sp ctx) (upd_thread c (\<lambda>t. t\<lparr>t_stack_ptr := sp\<rparr>) s)
      | None \<Rightarrow> s)"

definition load_next_thread :: "kstate \<Rightarrow> unit kresult" where
  "load_next_thread s =
     obind (if next_thread s = None then do_scheduler s else Ret () s) (\<lambda>_ s.
     Ret () (s\<lparr>current_thread := next_thread s, next_thread := None\<rparr>))"

datatype event = ev_syscall size_t "byte list" | ev_thread_switch size_t "byte list"
  | ev_timer_control size_t "byte list" | ev_timer size_t "byte list"

text \<open>What the handlers do: the generic syscall, a direct switch, turning the timer on or off
  (which goes back to the current thread), and the timer's interrupt.\<close>

fun handle_event :: "host \<Rightarrow> event \<Rightarrow> kstate \<Rightarrow> unit kresult" where
  "handle_event h (ev_syscall sp ctx) s =
     obind (k_handle_syscall h (save_current_thread sp ctx s)) (\<lambda>_ s. load_next_thread s)"
| "handle_event h (ev_thread_switch sp ctx) s = load_next_thread (save_current_thread sp ctx s)"
| "handle_event h (ev_timer_control sp ctx) s =
     load_next_thread ((save_current_thread sp ctx s)\<lparr>next_thread := current_thread s\<rparr>)"
| "handle_event h (ev_timer sp ctx) s =
     load_next_thread ((save_current_thread sp ctx s)\<lparr>next_thread := None\<rparr>)"

section \<open>Booting\<close>

text \<open>The state the C startup code finds: everything zero, with the stacks of the threads at the
  given addresses. \<open>Message\<close> buffers and names are zeroed with their structures.\<close>

definition zero_thread :: "size_t \<Rightarrow> Thread" where
  "zero_thread stack = \<lparr>t_stack_ptr = 0, t_state = init, t_signal_handler = 0, t_pending_signals = 0,
     t_id = 0, t_name = replicate THREAD_NAME_SIZE 0, t_work = 0, t_args = no_args,
     t_messages = replicate THREAD_MSG_QUEUE_SIZE \<lparr>msg_src = 0, msg_content = 0\<rparr>, t_next_msg = 0,
     t_end_msgs = 0, t_msgs_full = False, t_parent = 0, t_child = 0, t_permissions = 0, t_err_no = 0,
     t_in_code_page = False, t_code_backing_page = 0, t_bottom_canary = 0, t_stack = stack,
     t_top_canary = 0\<rparr>"

definition reset_state :: "Build \<Rightarrow> size_t list \<Rightarrow> nat \<Rightarrow> mem \<Rightarrow> kstate" where
  "reset_state b stacks pages m =
     \<lparr>all_threads = map zero_thread stacks, current_thread = None, next_thread = None,
      user_thread_info = \<lparr>u_id = 0, u_name = replicate THREAD_NAME_SIZE 0, u_kernel_config = 0, u_err_no = 0\<rparr>,
      kernel_config = KCFG_LOG_THREADS, backing_refs = replicate pages 0,
      block_tags = replicate NUM_BLOCKS \<lparr>bt_tid = 0, bt_tag = 0\<rparr>, memory = m, serial = [],
      host_calls = [], build = b\<rparr>"

text \<open>\<open>startup_prog\<close> is the literal \<open>STARTUP_PROG\<close>, when the build has one.\<close>

definition start_program :: "string option \<Rightarrow> kstate \<Rightarrow> unit kresult" where
  "start_program startup_prog s0 =
     (let builtin = (\<lambda>s. obind (k_add_named_thread_with_args (b_setup (build s)) None (\<lambda>_. no_args) 0 s)
                          (\<lambda>_ s. Ret () s)) in
      case startup_prog of
        Some prog \<Rightarrow>
          if CODE_PAGE_SIZE s0 = 0 then builtin s0
          else
            (let s = k_log_event (''Loading program '' @ [CHR 0x22] @ prog @ [CHR 0x22]) s0 in
             if prog \<noteq> '''' then
               obind (k_add_thread_from_file_with_args (b_literal (build s) prog) (\<lambda>_. no_args) 0 s) (\<lambda>tid s.
               if tid = INVALID_THREAD
               then k_exit 1 (k_log_event (''Failed to load STARTUP_PROG '' @ [CHR 0x22] @ prog @ [CHR 0x22]) s)
               else Ret () s)
             else builtin s)
      | None \<Rightarrow> builtin s0)"

definition entry :: "host \<Rightarrow> string option \<Rightarrow> kstate \<Rightarrow> unit kresult" where
  "entry h startup_prog s =
     obind (k_stdout_isatty h (init_threads s)) (\<lambda>tty s.
     obind (start_program startup_prog
              (if tty then s\<lparr>kernel_config := kernel_config s OR KCFG_COLOUR_OUTPUT\<rparr> else s)) (\<lambda>_ s.
     load_next_thread s))"

section \<open>Steps\<close>

definition user_effect :: "mem \<Rightarrow> int \<Rightarrow> string \<Rightarrow> u64 \<Rightarrow> u64 \<Rightarrow> kstate \<Rightarrow> kstate" where
  "user_effect m err out lo hi s =
     (case current_thread s of
        Some c \<Rightarrow> upd_thread c (\<lambda>t. t\<lparr>t_bottom_canary := lo, t_top_canary := hi\<rparr>)
                    (serial_print out (set_errno err (set_memory m s)))
      | None \<Rightarrow> s)"

inductive kstep :: "host \<Rightarrow> kstate \<Rightarrow> kstate \<Rightarrow> bool" for h :: host where
  step_user: "kstep h s (user_effect m err out lo hi s)"
| step_finish: "thread_start_end out s = Ret () s' \<Longrightarrow> kstep h s s'"
| step_kernel: "handle_event h ev s = Ret () s' \<Longrightarrow> kstep h s s'"

inductive_cases kstepE: "kstep h s s'"

inductive reachable :: "host \<Rightarrow> string option \<Rightarrow> kstate \<Rightarrow> kstate \<Rightarrow> bool" for h prog s0 where
  reach_boot: "entry h prog s0 = Ret () s \<Longrightarrow> reachable h prog s0 s"
| reach_step: "reachable h prog s0 s \<Longrightarrow> kstep h s s' \<Longrightarrow> reachable h prog s0 s'"

section \<open>The invariant in user mode\<close>

definition user_mode :: "kstate \<Rightarrow> bool" where
  "user_mode s \<longleftrightarrow> kinv s \<and> next_thread s = None \<and> current_thread s \<noteq> None \<and> running_is (current_thread s) s"

lemma user_mode_entered: "user_mode s \<longleftrightarrow> entered s \<and> current_thread s \<noteq> None"
  by (auto simp: user_mode_def entered_def sane_def)

lemma load_next_user_mode:
  assumes "sane s"
  shows "ret_state (load_next_thread s) user_mode"
proof -
  have load: "user_mode (s'\<lparr>current_thread := Some n, next_thread := None\<rparr>)"
    if "sane s'" "next_thread s' = Some n" for s' n
  proof -
    let ?s = "s'\<lparr>current_thread := Some n, next_thread := None\<rparr>"
    have "kinv ?s"
      using that
      by (simp add: sane_def kinv_def config_ok_def ptr_ok_def MAX_THREADS_def CODE_BACKING_PAGES_def
          CODE_PAGE_SIZE_def)
    moreover have "running_is (Some n) ?s"
      using that running_cong [of ?s s'] by (simp add: sane_def)
    ultimately show ?thesis by (simp add: user_mode_def)
  qed
  show ?thesis
  proof (cases "next_thread s")
    case None
    then have "entered s" using assms by (simp add: entered_def)
    from do_scheduler_sane [OF enteredD(2) [OF this] enteredD(4) [OF this]]
    show ?thesis using None load by (auto simp: load_next_thread_def)
  next
    case (Some n)
    with assms load [of s n] show ?thesis by (simp add: load_next_thread_def)
  qed
qed

lemma save_entered:
  assumes "user_mode s"
  shows "entered (save_current_thread sp ctx s)"
    and "current_thread (save_current_thread sp ctx s) = current_thread s"
  using assms by (auto simp: save_current_thread_def user_mode_entered entered_def intro!: sane_upd split: option.split)

lemma next_update_sane:
  assumes "sane s" and "next_thread s = None" and "current_thread s = Some c"
  shows "sane (s\<lparr>next_thread := Some c\<rparr>)"
proof -
  have "kinv (s\<lparr>next_thread := Some c\<rparr>)"
    using assms kinv_current by (intro next_thread_update_kinv) (auto simp: sane_def ptr_ok_def)
  then show ?thesis
    using assms running_cong [of "s\<lparr>next_thread := Some c\<rparr>" s] by (simp add: sane_def)
qed

lemma handle_event_user_mode:
  assumes "user_mode s"
  shows "ret_state (handle_event h ev s) user_mode"
proof (cases ev)
  case (ev_syscall sp ctx)
  have "ret_state (k_handle_syscall h (save_current_thread sp ctx s)) sane"
    using k_handle_syscall_sane [OF save_entered(1) [OF assms]] by (simp add: ret_state_iff)
  then show ?thesis
    using load_next_user_mode ev_syscall by (auto intro: ret_state_bind)
next
  case (ev_thread_switch sp ctx)
  then show ?thesis using load_next_user_mode save_entered [OF assms] by (simp add: entered_def)
next
  case (ev_timer_control sp ctx)
  obtain c where "current_thread s = Some c" using assms by (auto simp: user_mode_def)
  then show ?thesis
    using load_next_user_mode next_update_sane save_entered [OF assms] ev_timer_control by (simp add: entered_def)
next
  case (ev_timer sp ctx)
  have e: "sane (save_current_thread sp ctx s)" "next_thread (save_current_thread sp ctx s) = None"
    using save_entered(1) [OF assms] by (simp_all add: entered_def)
  then have eq: "(save_current_thread sp ctx s)\<lparr>next_thread := None\<rparr> = save_current_thread sp ctx s"
    by simp
  show ?thesis
    unfolding ev_timer handle_event.simps eq by (rule load_next_user_mode [OF e(1)])
qed

lemma user_effect_user_mode:
  assumes "user_mode s"
  shows "user_mode (user_effect m err out lo hi s)"
proof -
  have "thread_inv n i (t\<lparr>t_bottom_canary := a, t_top_canary := b\<rparr>) = thread_inv n i t" for n i t a b
    by (rule thread_inv_cong) simp_all
  then show ?thesis
    using assms by (auto simp: user_effect_def user_mode_entered entered_def intro!: sane_upd split: option.split)
qed

lemma thread_start_end_user_mode:
  assumes "user_mode s"
  shows "ret_state (thread_start_end out s) user_mode"
proof (cases "current_thread s")
  case (Some c)
  have "ret_state (cleanup_thread c s) (\<lambda>s'. sane s' \<and> current_thread s' = Some c \<and> next_thread s' = None)"
    using cleanup_thread_keeps [of s c] cleanup_thread_next [of c s] assms Some
    by (auto simp: keeps_def ret_state_iff user_mode_entered entered_def)
  then show ?thesis
    unfolding thread_start_end_def on_current_def Some option.case
    by (rule ret_state_bind) (auto simp: Let_def user_mode_entered entered_def intro!: sane_upd)
qed (simp add: thread_start_end_def on_current_def)

lemma kstep_user_mode:
  assumes "kstep h s s'" and "user_mode s"
  shows "user_mode s'"
  using assms(1)
proof (cases rule: kstep.cases)
  case (step_user m err out lo hi)
  then show ?thesis using user_effect_user_mode [OF assms(2)] by simp
next
  case (step_finish out)
  then show ?thesis using thread_start_end_user_mode [OF assms(2), of out] by simp
next
  case (step_kernel ev)
  then show ?thesis using handle_event_user_mode [OF assms(2), of h ev] by simp
qed

section \<open>The boot establishes it\<close>

lemma zero_thread_simps [simp]:
  "t_name (zero_thread a) = replicate THREAD_NAME_SIZE 0"
  "t_messages (zero_thread a) = replicate THREAD_MSG_QUEUE_SIZE \<lparr>msg_src = 0, msg_content = 0\<rparr>"
  "t_state (zero_thread a) = init" "t_next_msg (zero_thread a) = 0" "t_end_msgs (zero_thread a) = 0"
  "t_msgs_full (zero_thread a) = False" "t_code_backing_page (zero_thread a) = 0"
  "t_in_code_page (zero_thread a) = False" "t_stack (zero_thread a) = a"
  by (simp_all add: zero_thread_def)

definition boot_config :: "Build \<Rightarrow> nat \<Rightarrow> nat \<Rightarrow> bool" where
  "boot_config b threads pages \<longleftrightarrow> 0 < threads \<and> threads < 32768 \<and> pages \<le> 123456 \<and>
     (0 < pages \<longrightarrow> 0 < b_code_page_size b) \<and> heap_region b"

lemma heap_ok_reset: "heap_ok (replicate NUM_BLOCKS \<lparr>bt_tid = 0, bt_tag = 0\<rparr>)"
  by (rule heap_okI) (auto simp: tag_at_def)

lemma init_threads_fold:
  "idxs = [0..<k] \<Longrightarrow> k \<le> MAX_THREADS s \<Longrightarrow>
   (let s' = fold (\<lambda>idx. init_thread idx INVALID_THREAD None NULL (\<lambda>_. no_args) TPERM_NONE) idxs s in
    MAX_THREADS s' = MAX_THREADS s \<and> CODE_BACKING_PAGES s' = CODE_BACKING_PAGES s \<and>
    CODE_PAGE_SIZE s' = CODE_PAGE_SIZE s \<and> build s' = build s \<and>
    block_tags s' = block_tags s \<and> backing_refs s' = backing_refs s \<and>
    current_thread s' = current_thread s \<and> next_thread s' = next_thread s \<and>
    (\<forall>j < k. \<exists>s2. CODE_BACKING_PAGES s2 = CODE_BACKING_PAGES s \<and> CODE_PAGE_SIZE s2 = CODE_PAGE_SIZE s \<and>
       thread_at s' j = fresh_thread s2 INVALID_THREAD None NULL (\<lambda>_. no_args) TPERM_NONE (thread_at s j)) \<and>
    (\<forall>j. k \<le> j \<longrightarrow> thread_at s' j = thread_at s j))"
proof (induction k arbitrary: idxs)
  case 0
  then show ?case by simp
next
  case (Suc k)
  let ?f = "\<lambda>idx. init_thread idx INVALID_THREAD None NULL (\<lambda>_. no_args) TPERM_NONE"
  let ?s' = "fold ?f [0..<k] s"
  have IH: "MAX_THREADS ?s' = MAX_THREADS s" "CODE_BACKING_PAGES ?s' = CODE_BACKING_PAGES s"
    "CODE_PAGE_SIZE ?s' = CODE_PAGE_SIZE s" "build ?s' = build s"
    "block_tags ?s' = block_tags s" "backing_refs ?s' = backing_refs s"
    "current_thread ?s' = current_thread s" "next_thread ?s' = next_thread s"
    "\<forall>j < k. \<exists>s2. CODE_BACKING_PAGES s2 = CODE_BACKING_PAGES s \<and> CODE_PAGE_SIZE s2 = CODE_PAGE_SIZE s \<and>
       thread_at ?s' j = fresh_thread s2 INVALID_THREAD None NULL (\<lambda>_. no_args) TPERM_NONE (thread_at s j)"
    "\<forall>j. k \<le> j \<longrightarrow> thread_at ?s' j = thread_at s j"
    using Suc.IH [OF refl] Suc.prems(2) by (simp_all add: Let_def)
  have fold: "fold ?f idxs s = ?f k ?s'" using Suc.prems by simp
  have k: "k < length (all_threads ?s')" using Suc.prems IH(1) by (simp add: MAX_THREADS_def)
  have th: "thread_at (?f k ?s') j = (if j = k
      then fresh_thread ?s' INVALID_THREAD None NULL (\<lambda>_. no_args) TPERM_NONE (thread_at s k)
      else thread_at ?s' j)" for j
    using k IH(10) by (auto simp: thread_at_init_thread)
  show ?case
    unfolding fold Let_def
  proof (intro conjI allI impI)
    fix j assume "j < Suc k"
    then show "\<exists>s2. CODE_BACKING_PAGES s2 = CODE_BACKING_PAGES s \<and> CODE_PAGE_SIZE s2 = CODE_PAGE_SIZE s \<and>
       thread_at (?f k ?s') j = fresh_thread s2 INVALID_THREAD None NULL (\<lambda>_. no_args) TPERM_NONE (thread_at s j)"
      using IH(2,3,9) th by (cases "j = k") auto
  qed (use IH th in simp_all)
qed

lemma init_threads_sane:
  assumes "boot_config b (length stacks) pages"
  shows "entered (init_threads (reset_state b stacks pages m))"
    and "current_thread (init_threads (reset_state b stacks pages m)) = None"
proof -
  let ?s = "reset_state b stacks pages m"
  let ?s' = "init_threads ?s"
  have cfg: "config_ok ?s"
    using assms by (simp add: config_ok_def boot_config_def reset_state_def MAX_THREADS_def
        CODE_BACKING_PAGES_def CODE_PAGE_SIZE_def)
  note F = init_threads_fold [OF refl order_refl, of ?s, folded init_threads_def, unfolded Let_def]
  have th: "thread_inv (CODE_BACKING_PAGES ?s) j (thread_at ?s' j) \<and> t_state (thread_at ?s' j) \<noteq> running"
    if j: "j < MAX_THREADS ?s" for j
  proof -
    obtain s2 where s2: "CODE_BACKING_PAGES s2 = CODE_BACKING_PAGES ?s" "CODE_PAGE_SIZE s2 = CODE_PAGE_SIZE ?s"
      "thread_at ?s' j = fresh_thread s2 INVALID_THREAD None NULL (\<lambda>_. no_args) TPERM_NONE (thread_at ?s j)"
      using F j by blast
    have z: "thread_at ?s j = zero_thread (stacks ! j)"
      using j by (simp add: reset_state_def MAX_THREADS_def)
    have "0 < CODE_BACKING_PAGES s2 \<Longrightarrow> 0 < CODE_PAGE_SIZE s2"
      using cfg s2 by (simp add: config_ok_def)
    then show ?thesis
      unfolding s2(3) z
      by (auto simp: fresh_thread_def thread_inv_def thread_ok_def k_set_thread_name_def s2(1)
          THREAD_NAME_SIZE_def THREAD_MSG_QUEUE_SIZE_def intro!: set_update_memI)
  qed
  have "kinv ?s'"
    using F th cfg heap_ok_reset
    by (simp add: kinv_def config_ok_def ptr_ok_def) (simp add: reset_state_def)
  moreover have "running_is p ?s'" for p
    using F th by (simp add: running_is_def)
  moreover have "current_thread ?s' = None" "next_thread ?s' = None"
    using F by (simp_all add: reset_state_def)
  ultimately show "entered ?s'" "current_thread ?s' = None"
    by (simp_all add: entered_def sane_def)
qed

lemma stdout_isatty_keeps:
  assumes "sane s"
  shows "keeps (k_stdout_isatty h s) s"
proof -
  have host: "keeps (k_host_supports_open_stdout h s) s"
    unfolding k_host_supports_open_stdout_def Let_def
  proof (rule keeps_bind [OF file_keeps(1) [OF assms]])
    fix fd s1 assume s1: "sane s1" "current_thread s1 = current_thread s"
    let ?m = "b_locals (build s1)"
    let ?s2 = "set_memory (store_bytes (memory s1) ?m [0, 0, 0, 0]) s1"
    have cl: "keeps (obind (k_close h fd s') (\<lambda>_ s. Ret (f s) s)) s"
      if "sane s'" "current_thread s' = current_thread s" for s' f
      by (rule keeps_bind [OF keeps_trans [OF file_keeps(6) [OF that(1)] that(2)]]) simp
    have rd: "keeps (k_read h fd p n s') s" if "sane s'" "current_thread s' = current_thread s" for s' p n
      using file_keeps(2) [OF that(1)] that(2) by (rule keeps_trans)
    show "keeps (if fd = - 1 then Ret False s1
      else obind (k_read h fd ?m MAGIC_LEN ?s2) (\<lambda>got s.
        if got \<noteq> MAGIC_LEN \<or> load_bytes (memory s) ?m 4 \<noteq> SHFB_MAGIC
        then obind (k_close h fd s) (\<lambda>_ s. Ret False s)
        else obind (k_read h fd (?m + MAGIC_LEN) 1 s) (\<lambda>got s.
          if got \<noteq> 1 then obind (k_close h fd s) (\<lambda>_ s. Ret False s)
          else obind (k_close h fd s) (\<lambda>_ s. Ret (memory s (?m + MAGIC_LEN) AND 2 \<noteq> 0) s)))) s"
      using s1 by (auto intro!: keeps_bind [OF rd] cl)
  qed
  show ?thesis
    unfolding k_stdout_isatty_def
  proof (rule keeps_bind [OF host])
    fix b s1 assume s1: "sane s1" "current_thread s1 = current_thread s"
    have op: "keeps (k_open h p fl s1) s" for p fl
      using file_keeps(1) [OF s1(1)] s1(2) by (rule keeps_trans)
    show "keeps (if \<not> b then Ret False s1
      else obind (k_open h (b_literal (build s1) '':tt'') O_WRONLY s1) (\<lambda>stdout_fd s.
        if stdout_fd = - 1 then Ret False s
        else (let (istty, s) = k_isatty h stdout_fd s in Ret (istty = 1) s))) s"
      using s1 by (auto simp: k_isatty_def split_beta semihosting_sane intro!: keeps_bind [OF op])
  qed
qed

lemma start_program_keeps:
  assumes "sane s"
  shows "keeps (start_program prog s) s"
proof -
  have b: "keeps (obind (k_add_named_thread_with_args w None a 0 s') (\<lambda>_ s. Ret () s)) s"
    if "sane s'" "current_thread s' = current_thread s" for w a s'
    by (rule keeps_bind [OF keeps_trans [OF k_add_named_keeps [OF that(1)] that(2)]]) simp
  have f: "keeps (k_add_thread_from_file_with_args p a 0 (k_log_event e s)) s" for p a e
    by (rule keeps_trans [OF k_add_from_file_keeps]) (use assms in simp_all)
  show ?thesis
    using assms
    by (auto simp: start_program_def Let_def k_exit_def intro!: b keeps_bind [OF f] split: option.split)
qed

lemma entry_user_mode:
  assumes "boot_config b (length stacks) pages"
  shows "ret_state (entry h prog (reset_state b stacks pages m)) user_mode"
proof -
  let ?s = "init_threads (reset_state b stacks pages m)"
  have s: "sane ?s" using init_threads_sane(1) [OF assms] by (simp add: entered_def)
  show ?thesis
    unfolding entry_def
  proof (rule ret_state_bind [where Q = sane])
    show "ret_state (k_stdout_isatty h ?s) sane"
      using stdout_isatty_keeps [OF s, of h] by (simp add: keeps_def ret_state_iff)
  next
    fix tty s1 assume "sane s1"
    then have "sane (if tty then s1\<lparr>kernel_config := kernel_config s1 OR KCFG_COLOUR_OUTPUT\<rparr> else s1)"
      using sane_cong [of "s1\<lparr>kernel_config := kernel_config s1 OR KCFG_COLOUR_OUTPUT\<rparr>" s1] by simp
    from start_program_keeps [OF this, of prog]
    show "ret_state (obind (start_program prog
        (if tty then s1\<lparr>kernel_config := kernel_config s1 OR KCFG_COLOUR_OUTPUT\<rparr> else s1))
        (\<lambda>_ s. load_next_thread s)) user_mode"
      by (intro ret_state_bind [where Q = sane]) (auto simp: keeps_def ret_state_iff intro: load_next_user_mode [unfolded ret_state_iff, rule_format])
  qed
qed

lemma reachable_user_mode:
  assumes "reachable h prog (reset_state b stacks pages m) s" and "boot_config b (length stacks) pages"
  shows "user_mode s"
  using assms(1)
proof (induction rule: reachable.induct)
  case (reach_boot s)
  then show ?case using entry_user_mode [OF assms(2), of h prog m] by simp
next
  case (reach_step s s')
  then show ?case using kstep_user_mode by blast
qed

end
