(* ===== verification/Authority.thy ===== *)
theory Authority
  imports Machine
begin

text \<open>
  What a thread may do is bounded by its permissions, whatever it calls: no step gives a thread a
  permission that neither it nor the thread that was running had, and without the permission to
  use files no step reaches the host.
\<close>

section \<open>The bound\<close>

definition subset_perm :: "u16 \<Rightarrow> u16 \<Rightarrow> bool" where
  "subset_perm p q \<longleftrightarrow> p AND q = p"

lemma subset_perm_refl [simp]: "subset_perm p p"
  by (simp add: subset_perm_def)

lemma subset_perm_trans: "subset_perm p q \<Longrightarrow> subset_perm q r \<Longrightarrow> subset_perm p r"
  unfolding subset_perm_def by (rule bit_subset_trans)

lemma subset_perm_drop [simp]: "subset_perm (p AND q) p"
  by (simp add: subset_perm_def and.commute and.left_commute)

definition perm_bound :: "kstate \<Rightarrow> kstate \<Rightarrow> nat \<Rightarrow> bool" where
  "perm_bound s s' i \<longleftrightarrow> subset_perm (t_permissions (thread_at s' i)) (t_permissions (thread_at s i)) \<or>
     (case current_thread s of
        Some c \<Rightarrow> subset_perm (t_permissions (thread_at s' i)) (t_permissions (thread_at s c))
      | None \<Rightarrow> True)"

definition bounded_by :: "kstate \<Rightarrow> kstate \<Rightarrow> bool" where
  "bounded_by s s' \<longleftrightarrow> MAX_THREADS s' = MAX_THREADS s \<and> current_thread s' = current_thread s \<and>
     (\<forall>i. perm_bound s s' i) \<and>
     (k_has_no_permission TPERM_FILE s \<longrightarrow> host_calls s' = host_calls s)"

lemma no_permission_mono:
  assumes "\<forall>i. perm_bound s s' i" and "current_thread s' = current_thread s" and "k_has_no_permission p s"
  shows "k_has_no_permission p s'"
proof (cases "current_thread s")
  case None
  with assms(3) show ?thesis by (simp add: k_has_no_permission_def)
next
  case (Some c)
  then have "subset_perm (t_permissions (thread_at s' c)) (t_permissions (thread_at s c))"
    using assms(1) by (auto simp: perm_bound_def dest: spec [of _ c])
  moreover have "t_permissions (thread_at s c) AND p = 0"
    using assms(3) Some by (simp add: k_has_no_permission_def)
  ultimately have "t_permissions (thread_at s' c) AND p = 0"
    unfolding subset_perm_def by (metis and.assoc and_zero_eq)
  with Some assms(2) show ?thesis by (simp add: k_has_no_permission_def)
qed

lemma bounded_refl [simp]: "bounded_by s s"
  by (simp add: bounded_by_def perm_bound_def)

lemma bounded_trans:
  assumes 1: "bounded_by s s1" and 2: "bounded_by s1 s2"
  shows "bounded_by s s2"
proof -
  have c: "current_thread s1 = current_thread s" "current_thread s2 = current_thread s"
    using assms by (simp_all add: bounded_by_def)
  have "perm_bound s s2 i" for i
  proof (cases "current_thread s")
    case (Some c)
    have own: "subset_perm (t_permissions (thread_at s1 c)) (t_permissions (thread_at s c))"
      using 1 Some by (auto simp: bounded_by_def perm_bound_def dest: spec [of _ c])
    have "perm_bound s s1 i" "perm_bound s1 s2 i" using assms by (simp_all add: bounded_by_def)
    with Some c own show ?thesis
      by (auto simp: perm_bound_def intro: subset_perm_trans)
  qed (simp add: perm_bound_def)
  moreover have "k_has_no_permission TPERM_FILE s \<Longrightarrow> host_calls s2 = host_calls s"
    using 1 2 no_permission_mono [of s s1 TPERM_FILE] c by (simp add: bounded_by_def)
  ultimately show ?thesis using assms by (simp add: bounded_by_def)
qed

definition within :: "'a kresult \<Rightarrow> kstate \<Rightarrow> bool" where
  "within m s \<longleftrightarrow> ret_state m (bounded_by s)"

lemma within_simps [simp]:
  "within (Ret a s') s \<longleftrightarrow> bounded_by s s'" "within (Exit n s') s" "within Undef s"
  by (simp_all add: within_def)

lemma within_bind:
  assumes "within m s" and "\<And>a s1. m = Ret a s1 \<Longrightarrow> within (f a s1) s1"
  shows "within (obind m f) s"
proof (cases m)
  case (Ret a s1)
  then have "bounded_by s s1" "within (f a s1) s1" using assms by auto
  with Ret show ?thesis by (cases "f a s1") (auto intro: bounded_trans)
qed simp_all

lemma within_after: "bounded_by s s1 \<Longrightarrow> within m s1 \<Longrightarrow> within m s"
  by (cases m) (auto intro: bounded_trans)

section \<open>Steps that touch no permission\<close>

definition same_auth :: "kstate \<Rightarrow> kstate \<Rightarrow> bool" where
  "same_auth s s' \<longleftrightarrow> MAX_THREADS s' = MAX_THREADS s \<and> current_thread s' = current_thread s \<and>
     (\<forall>i. t_permissions (thread_at s' i) = t_permissions (thread_at s i)) \<and> host_calls s' = host_calls s"

lemma same_auth_bounded: "same_auth s s' \<Longrightarrow> bounded_by s s'"
  by (simp add: same_auth_def bounded_by_def perm_bound_def)

lemma same_auth_refl [simp]: "same_auth s s"
  by (simp add: same_auth_def)

lemma same_auth_trans: "same_auth s s1 \<Longrightarrow> same_auth s1 s2 \<Longrightarrow> same_auth s s2"
  by (simp add: same_auth_def)

lemma same_auth_upd:
  "same_auth s0 s \<Longrightarrow> (\<And>t. t_permissions (f t) = t_permissions t) \<Longrightarrow> same_auth s0 (upd_thread i f s)"
  by (simp add: same_auth_def thread_at_upd MAX_THREADS_def)

lemma same_auth_cong:
  "all_threads s' = all_threads s \<Longrightarrow> current_thread s' = current_thread s \<Longrightarrow> host_calls s' = host_calls s \<Longrightarrow>
   same_auth s0 s' = same_auth s0 s"
  by (simp add: same_auth_def MAX_THREADS_def)

lemma same_auth_frame [simp]:
  "same_auth s0 (set_memory m s) = same_auth s0 s" "same_auth s0 (set_errno e s) = same_auth s0 s"
  "same_auth s0 (serial_print str s) = same_auth s0 s" "same_auth s0 (k_log_event str s) = same_auth s0 s"
  "same_auth s0 (log_scheduler_event str s) = same_auth s0 s" "same_auth s0 (with_tags g s) = same_auth s0 s"
  "same_auth s0 (s\<lparr>next_thread := p\<rparr>) = same_auth s0 s" "same_auth s0 (s\<lparr>backing_refs := r\<rparr>) = same_auth s0 s"
  "same_auth s0 (s\<lparr>kernel_config := k\<rparr>) = same_auth s0 s" "same_auth s0 (s\<lparr>user_thread_info := u\<rparr>) = same_auth s0 s"
  "same_auth s0 (k_free_all tid s) = same_auth s0 s" "same_auth s0 (set_tag i x s) = same_auth s0 s"
  "same_auth s0 (set_tid i y s) = same_auth s0 s" "same_auth s0 (chosen_log s) = same_auth s0 s"
  "same_auth s0 (set_first cv v s) = same_auth s0 s" "same_auth s0 (set_last cv v s) = same_auth s0 s"
  "same_auth s0 (set_full cv b s) = same_auth s0 s" "same_auth s0 (set_waiting cv j w s) = same_auth s0 s"
  "same_auth s0 (set_owner cv n s) = same_auth s0 s"
  by (rule same_auth_cong;
      simp add: chosen_log_def set_first_def set_last_def set_full_def set_waiting_def set_owner_def
        set_tag_def set_tid_def)+

lemma same_auth_inc_ref [simp]: "same_auth s0 (inc_ref p s) = same_auth s0 s"
  by (simp add: inc_ref_def)

lemma same_auth_dec_ref [simp]: "same_auth s0 (dec_ref p s) = same_auth s0 s"
  by (simp add: dec_ref_def)

definition quiet :: "'a kresult \<Rightarrow> kstate \<Rightarrow> bool" where
  "quiet m s \<longleftrightarrow> ret_state m (same_auth s)"

lemma quiet_simps [simp]:
  "quiet (Ret a s') s \<longleftrightarrow> same_auth s s'" "quiet (Exit n s') s" "quiet Undef s"
  by (simp_all add: quiet_def)

lemma quiet_within: "quiet m s \<Longrightarrow> within m s"
  by (cases m) (simp_all add: same_auth_bounded)

lemma quiet_bind:
  "quiet m s \<Longrightarrow> (\<And>a s1. m = Ret a s1 \<Longrightarrow> same_auth s s1 \<Longrightarrow> quiet (f a s1) s) \<Longrightarrow> quiet (obind m f) s"
  by (cases m) auto

lemma same_auth_init_register [simp]: "same_auth s0 (init_register_context i s) = same_auth s0 s"
  by (auto simp: same_auth_def thread_at_init_register_context MAX_THREADS_def)

lemma same_auth_check_signals: "same_auth s0 s \<Longrightarrow> same_auth s0 (check_signals i s)"
  by (auto simp: check_signals_def install_signal_handler_def Let_def intro!: same_auth_upd)

lemma same_auth_update_info: "same_auth s0 s \<Longrightarrow> same_auth s0 (k_update_user_thread_info i s)"
  by (auto simp: k_update_user_thread_info_def Let_def intro!: same_auth_upd split: option.split)

lemma same_auth_switch_states: "same_auth s0 s \<Longrightarrow> same_auth s0 (switch_states i s)"
  by (auto simp: switch_states_def Let_def intro!: same_auth_upd split: option.split)

lemma quiet_swap: "same_auth s0 s \<Longrightarrow> quiet (swap_paged_threads p q s) s0"
  by (auto simp: swap_paged_threads_def page_in_def page_out_def split: option.split)

lemma quiet_pick_next: "kinv s \<Longrightarrow> quiet (pick_next s) s"
  by (auto simp: pick_next_eq split: option.split)

lemma quiet_do_scheduler:
  assumes "kinv s"
  shows "quiet (do_scheduler s) s"
  unfolding do_scheduler_def Let_def
proof (rule quiet_bind [OF quiet_pick_next [OF assms]])
  fix n s1 assume s1: "same_auth s s1"
  have "same_auth s (switch_states n s1)" using s1 by (rule same_auth_switch_states)
  then show "quiet (obind (if 0 < CODE_BACKING_PAGES (switch_states n s1)
      then swap_paged_threads (current_thread (switch_states n s1)) (next_thread (switch_states n s1)) (switch_states n s1)
      else Ret () (switch_states n s1)) (\<lambda>_ s. Ret () (k_update_user_thread_info n (check_signals n s)))) s"
    by (intro quiet_bind) (auto simp: quiet_swap same_auth_check_signals same_auth_update_info)
qed

section \<open>Calls\<close>

lemma init_thread_bounded:
  assumes "\<And>c. current_thread s = Some c \<Longrightarrow> subset_perm perms (t_permissions (thread_at s c))"
  shows "bounded_by s (init_thread i tid name work args perms s)"
proof -
  have "host_calls (init_thread i tid name work args perms s) = host_calls s"
    by (simp add: init_thread_def Let_def)
  moreover have "t_permissions (fresh_thread s tid name work args perms t) = perms" for t
    by (simp add: fresh_thread_def)
  ultimately show ?thesis
    using assms by (auto simp: bounded_by_def perm_bound_def thread_at_init_thread split: option.split)
qed

lemma quiet_setup_code_page: "quiet (setup_code_page i s) s"
  by (auto simp: setup_code_page_def Let_def intro!: same_auth_upd split: option.split)

lemma within_add_named: "within (k_add_named_thread_with_args w nm args rp s) s"
proof (cases "find (\<lambda>idx. slot_free (thread_at s idx)) [0..<MAX_THREADS s]")
  case (Some i)
  let ?p = "(case current_thread s of Some c \<Rightarrow> t_permissions (thread_at s c) | None \<Rightarrow> TPERM_ALL) AND NOT rp"
  let ?s1 = "init_thread i (int i) nm w args ?p s"
  have "bounded_by s ?s1" by (rule init_thread_bounded) simp
  moreover have "within (obind (if CODE_PAGE_SIZE ?s1 = 0 then Ret () ?s1 else setup_code_page i ?s1)
      (\<lambda>_ s. Ret (int i) s)) ?s1"
    by (rule within_bind) (auto intro: quiet_within quiet_setup_code_page)
  ultimately show ?thesis
    using Some by (simp add: k_add_named_thread_with_args_def Let_def within_after)
qed (simp add: k_add_named_thread_with_args_def)

lemma quiet_prepare: "quiet (prepare_loader_stack i f args s) s"
  by (auto simp: prepare_loader_stack_def Let_def intro!: same_auth_upd split: option.split)

lemma within_add_from_file: "within (k_add_thread_from_file_with_args f args rp s) s"
proof -
  have paged: "within (obind (prepare_loader_stack i f args s1) (\<lambda>_ s.
      Ret tid (inc_ref pg (upd_thread i (\<lambda>t. t\<lparr>t_code_backing_page := pg\<rparr>) s)))) s1" for tid i s1 pg
    by (rule within_bind [OF quiet_within [OF quiet_prepare]])
      (auto intro!: same_auth_bounded same_auth_upd)
  have plain: "within (obind (prepare_loader_stack i f args s1) (\<lambda>_ s.
      Ret tid (upd_thread i (\<lambda>t. t\<lparr>t_in_code_page := True\<rparr>) s))) s1" for tid i s1
    by (rule within_bind [OF quiet_within [OF quiet_prepare]])
      (auto intro!: same_auth_bounded same_auth_upd)
  show ?thesis
    using paged plain
    by (auto simp: k_add_thread_from_file_with_args_def Let_def intro!: within_bind [OF within_add_named] same_auth_bounded)
qed

lemma within_add_thread: "within (k_add_thread a b c d s) s"
  by (auto simp: k_add_thread_def Let_def within_add_from_file within_add_named k_assert_def
      intro!: same_auth_bounded)

lemma within_restart: "within (k_restart w nm args rp s) s"
proof (cases "current_thread s")
  case (Some c)
  let ?t0 = "thread_at s c"
  let ?s1 = "init_thread c (t_id ?t0) (name_arg (memory s) nm) w (load_args args) (t_permissions ?t0 AND NOT rp) s"
  have "bounded_by s ?s1" by (rule init_thread_bounded) (use Some in simp)
  moreover have q: "within (if CODE_BACKING_PAGES s' = 0 then Ret () s' else swap_paged_threads p None s') ?s1"
    if "same_auth ?s1 s'" for s' p
    using that quiet_within [OF quiet_swap] same_auth_bounded by simp
  have "within (let s = upd_thread c (\<lambda>t. t\<lparr>t_parent := t_parent ?t0\<rparr>) ?s1;
           s = (if CODE_PAGE_SIZE s = 0 then s
                else upd_thread c (\<lambda>t. t\<lparr>t_in_code_page := t_in_code_page ?t0\<rparr>) s);
           s = (if CODE_PAGE_SIZE s = 0 \<or> CODE_BACKING_PAGES s = 0 then s
                else upd_thread c (\<lambda>t. t\<lparr>t_code_backing_page := t_code_backing_page ?t0\<rparr>) s)
       in if CODE_BACKING_PAGES s = 0 then Ret () s
          else swap_paged_threads (current_thread s) None s) ?s1"
    unfolding Let_def by (rule q) (auto intro!: same_auth_upd)
  ultimately show ?thesis
    using Some by (simp add: k_restart_def on_current_def within_after Let_def)
qed (simp add: k_restart_def on_current_def)

lemma same_auth_set_state: "same_auth s0 s \<Longrightarrow> same_auth s0 (snd (set_thread_state tid st s))"
  by (auto simp: set_thread_state_def intro: same_auth_upd)

lemma quiet_cleanup: "same_auth s0 s \<Longrightarrow> quiet (cleanup_thread i s) s0"
  by (auto simp: cleanup_thread_def Let_def intro!: same_auth_upd)

lemma quiet_mono: "quiet m s1 \<Longrightarrow> same_auth s s1 \<Longrightarrow> quiet m s"
  by (cases m) (auto intro: same_auth_trans)

lemma quiet_cancel:
  assumes "entered s"
  shows "quiet (k_thread_cancel tid s) s"
proof -
  note e = enteredD [OF assms]
  have "quiet (let (set, s1) = set_thread_state tid' cancelled s in
      if set then obind (cleanup_thread (nat tid') s1) (\<lambda>_ s. on_current s (\<lambda>c.
          if tid' = t_id (thread_at s c) then obind (do_scheduler s) (\<lambda>_ s. Ret True s) else Ret set s))
      else Ret set s1) s" for tid'
  proof -
    let ?s1 = "snd (set_thread_state tid' cancelled s)"
    have s1: "sane ?s1" "same_auth s ?s1"
      using set_thread_state_sane [of s cancelled tid'] e(1) same_auth_set_state by simp_all
    have "quiet (obind (cleanup_thread (nat tid') ?s1) (\<lambda>_ s. on_current s (\<lambda>c.
          if tid' = t_id (thread_at s c) then obind (do_scheduler s) (\<lambda>_ s. Ret True s) else Ret b s))) s" for b
    proof (rule quiet_bind [OF quiet_cleanup [OF s1(2)]])
      fix u s2 assume c: "cleanup_thread (nat tid') ?s1 = Ret u s2" "same_auth s s2"
      then have "kinv s2" using cleanup_thread_keeps [OF s1(1), of "nat tid'"] by (simp add: sane_def)
      then have "quiet (do_scheduler s2) s" using quiet_do_scheduler c(2) quiet_mono by blast
      then show "quiet (on_current s2 (\<lambda>c. if tid' = t_id (thread_at s2 c)
          then obind (do_scheduler s2) (\<lambda>_ s. Ret True s) else Ret b s2)) s"
        using c by (auto simp: on_current_def intro: quiet_bind split: option.split)
    qed
    then show ?thesis using s1 by (simp add: split_beta)
  qed
  then show ?thesis by (auto simp: k_thread_cancel_def on_current_def split: option.split)
qed

lemma quiet_scheduler_to:
  assumes "entered s" and "ptr_ok p s"
  shows "quiet (do_scheduler (s\<lparr>next_thread := p\<rparr>)) s"
proof -
  have "kinv (s\<lparr>next_thread := p\<rparr>)" using next_thread_update_kinv enteredD(2) assms by blast
  from quiet_mono [OF quiet_do_scheduler [OF this]] show ?thesis by simp
qed

lemma quiet_yield:
  assumes "entered s"
  shows "quiet (k_yield tid kind s) s"
proof -
  have "ptr_ok (Some (nat tid)) s" if "can_schedule_thread tid s"
    using valid_less [OF can_schedule_valid [OF that]] by (simp add: ptr_ok_def)
  then show ?thesis
    using quiet_scheduler_to [OF assms]
    by (auto simp: k_yield_def k_do_yield_def k_assert_def ptr_ok_def intro!: quiet_bind)
qed

lemma quiet_wait:
  assumes "entered s"
  shows "quiet (k_thread_wait s) s"
proof (cases "current_thread s")
  case (Some c)
  have "sane (upd_thread c (\<lambda>t. t\<lparr>t_state := waiting\<rparr>) s)"
    using enteredD(1) [OF assms] by (intro sane_upd) simp_all
  then have "kinv (upd_thread c (\<lambda>t. t\<lparr>t_state := waiting\<rparr>) s)" by (simp add: sane_def)
  then show ?thesis
    using Some quiet_mono [OF quiet_do_scheduler] same_auth_upd [of s s "\<lambda>t. t\<lparr>t_state := waiting\<rparr>" c]
    by (simp add: k_thread_wait_def on_current_def)
qed (simp add: k_thread_wait_def on_current_def)

lemma quiet_signal: "same_auth s (snd (k_signal cv s))"
  by (simp add: k_signal_def split_beta Let_def same_auth_set_state)

lemma quiet_broadcast:
  assumes "broadcast_loop cv s = Some s'"
  shows "same_auth s s'"
proof (rule broadcast_loop.raw_induct [OF _ assms])
  fix bl cv s s'
  assume IH: "\<And>cv s s'. bl cv s = Some s' \<Longrightarrow> same_auth s s'"
    and step: "(let (signalled, s) = k_signal cv s in if signalled then bl cv s else Some s) = Some s'"
  show "same_auth s s'"
    using IH step quiet_signal [of s cv] by (cases "k_signal cv s") (auto split: if_splits intro: same_auth_trans)
qed

lemma quiet_cv:
  assumes "entered s"
  shows "quiet (k_condition_variable op cv s) s"
proof -
  define s1 where "s1 b = set_full cv b (set_last cv (inc_mod (get_last cv (set_waiting cv (get_last cv s) (k_get_thread_id s) s))
      (set_waiting cv (get_last cv s) (k_get_thread_id s) s)) (set_waiting cv (get_last cv s) (k_get_thread_id s) s))" for b
  have "entered (s1 b)" "same_auth s (s1 b)" for b
    using enteredD(1,3) [OF assms] by (simp_all add: entered_def s1_def)
  then have "quiet (k_thread_wait (s1 b)) s" for b using quiet_wait quiet_mono by blast
  then have "quiet (k_wait cv s) s" by (auto simp: k_wait_def Let_def s1_def intro: quiet_bind)
  moreover have "quiet (k_broadcast cv s) s"
    using quiet_broadcast [of cv s] by (auto simp: k_broadcast_def split: option.split)
  ultimately show ?thesis
    using quiet_signal [of s cv]
    by (auto simp: k_condition_variable_def Let_def k_init_condition_variable_def split_beta split: option.split)
qed

lemma within_set_property: "within (k_set_thread_property tid p v s) s"
proof -
  have perm: "bounded_by s (upd_thread i (\<lambda>t. t\<lparr>t_permissions := t_permissions t AND x\<rparr>) s)" for i x
    by (auto simp: bounded_by_def perm_bound_def thread_at_upd)
  have child: "bounded_by s (upd_thread j (\<lambda>t. t\<lparr>t_parent := a\<rparr>) (upd_thread i (\<lambda>t. t\<lparr>t_child := b\<rparr>) s))" for i j a b
    by (intro same_auth_bounded same_auth_upd) simp_all
  have u: "bounded_by s (upd_thread i f s)" if "\<And>t. t_permissions (f t) = t_permissions t" for i f
    using that by (intro same_auth_bounded same_auth_upd) simp_all
  show ?thesis
    using perm child u [of "k_set_thread_name n" for n] u [of "\<lambda>t. t\<lparr>t_signal_handler := x\<rparr>" for x]
      u [of "\<lambda>t. t\<lparr>t_pending_signals := t_pending_signals t OR x\<rparr>" for x]
    by (simp add: k_set_thread_property_def do_set_thread_property_def Let_def same_auth_bounded)
qed

lemma quiet_get_property: "quiet (k_get_thread_property tid p v s) s"
  by (simp add: k_get_thread_property_def do_get_thread_property_def Let_def)

lemma quiet_messages: "quiet (k_get_msg a b s) s" "quiet (k_send_msg d m s) s"
  by (auto simp: k_get_msg_def k_send_msg_def on_current_def Let_def intro!: same_auth_upd split: option.split)

lemma quiet_mutex: "quiet (k_mutex op m s) s"
  by (auto simp: k_mutex_def Let_def k_init_mutex_def k_lock_mutex_def k_unlock_mutex_def split: option.split)

lemma quiet_heap: "quiet (k_malloc sz s) s" "quiet (k_realloc p sz s) s" "quiet (k_free p s) s"
  by (auto simp: k_malloc_def k_realloc_def k_free_def can_realloc_free_def Let_def split: option.split)

lemma semihosting_bounded:
  "\<not> k_has_no_permission TPERM_FILE s \<Longrightarrow> bounded_by s (snd (generic_semihosting_call h op ps s))"
  by (simp add: generic_semihosting_call_def split_beta Let_def bounded_by_def perm_bound_def MAX_THREADS_def)

lemma within_files:
  "within (k_open h p fl s) s" "within (k_read h fd buf n s) s" "within (k_write h fd buf n s) s"
  "within (k_lseek h fd off wh s) s" "within (k_remove h p s) s" "within (k_close h fd s) s"
  by (auto simp: k_open_def k_read_def k_write_def k_lseek_def k_remove_def k_close_def need_file_def
      split_beta Let_def k_assert_def semihosting_bounded same_auth_bounded split: option.split)

lemma within_list_dir_read: 
  assumes "\<not> k_has_no_permission TPERM_FILE s"
  shows "within (list_dir_read h out outsz s) s"
  unfolding list_dir_read_def
proof (rule within_bind [OF within_files(1)])
  fix fd s1 assume o: "k_open h (b_literal (build s) ''__ls.out'') O_RDONLY s = Ret fd s1"
  have p: "\<not> k_has_no_permission TPERM_FILE s1"
    using o assms
    by (auto simp: k_open_def need_file_def generic_semihosting_call_def Let_def split_beta
        k_has_no_permission_def split: option.splits)
  let ?r = "generic_semihosting_call h SYS_FLEN [fd] s1"
  have tail: "within (obind (k_read h fd out (fst ?r) (snd ?r)) (\<lambda>_ s.
      obind (k_close h fd (set_memory ((memory s)(out + fst ?r := 0)) s)) (\<lambda>_ s. Ret 0 s))) s1"
  proof (rule within_after [OF semihosting_bounded [OF p]], rule within_bind [OF within_files(2)])
    fix x s3
    show "within (obind (k_close h fd (set_memory ((memory s3)(out + fst ?r := 0)) s3)) (\<lambda>_ s. Ret 0 s)) s3"
      by (rule within_bind [OF within_after [OF _ within_files(6)]]) (simp_all add: same_auth_bounded)
  qed
  show "within (obind (k_assert (fd \<noteq> - 1) s1) (\<lambda>_ s.
      let (ls_sz, s) = generic_semihosting_call h SYS_FLEN [fd] s in
      obind (k_assert (ls_sz \<noteq> - 1 \<and> ls_sz < outsz) s) (\<lambda>_ s.
      obind (k_read h fd out ls_sz s) (\<lambda>_ s.
      obind (k_close h fd (set_memory ((memory s)(out + ls_sz := 0)) s)) (\<lambda>_ s. Ret 0 s))))) s1"
    using tail by (auto simp: k_assert_def split_beta)
qed

lemma within_list_dir: "within (k_list_dir h p out outsz s) s"
proof (cases "k_has_no_permission TPERM_FILE s")
  case False
  have host: "bounded_by s (snd (generic_semihosting_call h op ps (set_memory m s)))" for op ps m
    using False
    by (simp add: generic_semihosting_call_def split_beta Let_def bounded_by_def perm_bound_def MAX_THREADS_def)
  have p2: "\<not> k_has_no_permission TPERM_FILE (snd (generic_semihosting_call h op ps (set_memory m s)))" for op ps m
    using False
    by (simp add: generic_semihosting_call_def split_beta Let_def k_has_no_permission_def split: option.splits)
  have rd: "within (list_dir_read h out outsz (snd (generic_semihosting_call h op ps (set_memory m s)))) s" for op ps m
    using within_after [OF host within_list_dir_read [OF p2]] .
  show ?thesis
    using False host rd
    by (auto simp: k_list_dir_def need_file_def Let_def k_assert_def split_beta split: option.split)
qed (simp add: k_list_dir_def need_file_def same_auth_bounded)

lemma within_ret [simp]:
  "within (ret_bool mb) s = within mb s" "within (ret_int mi) s = within mi s" "within (ret_unit mu) s = within mu s"
proof -
  show "within (ret_bool mb) s = within mb s" by (cases mb) (simp_all add: ret_bool_def)
  show "within (ret_int mi) s = within mi s" by (cases mi) (simp_all add: ret_int_def)
  show "within (ret_unit mu) s = within mu s" by (cases mu) (simp_all add: ret_unit_def)
qed

lemma within_call:
  assumes "entered s"
  shows "within (call_syscall h c w x y z s) s"
proof -
  have cfg: "bounded_by s (k_set_kernel_config e d s)" for e d
    by (simp add: k_set_kernel_config_def same_auth_bounded)
  have wake: "quiet (k_thread_wake tid s) s" for tid
    by (simp add: k_thread_wake_def split_beta same_auth_set_state)
  show ?thesis
    using wake cfg quiet_yield [OF assms] quiet_wait [OF assms] quiet_cancel [OF assms] quiet_cv [OF assms]
    by (cases c)
      (simp_all add: within_add_thread quiet_within quiet_get_property within_set_property within_restart
        quiet_messages quiet_mutex within_files quiet_heap within_list_dir k_exit_def)
qed

section \<open>The handler and the steps\<close>

lemma within_check_stack: "within (check_stack s) s"
  by (auto simp: check_stack_def on_current_def Let_def k_exit_def intro!: same_auth_bounded same_auth_upd
      split: option.split)

lemma within_finish: "within (finish_syscall c s) s"
  by (auto simp: finish_syscall_def on_current_def Let_def
      intro!: same_auth_bounded same_auth_update_info split: option.split)

lemma within_handle_syscall:
  assumes "entered s"
  shows "within (k_handle_syscall h s) s"
proof (cases "current_thread s")
  case (Some cur)
  let ?ctx = "t_stack_ptr (thread_at s cur)"
  have rest: "within (obind (run_syscall h ?ctx c s3) (\<lambda>_ s.
        obind (if b then log_failed_syscall ?ctx e s else Ret () s) (\<lambda>_ s. finish_syscall c s))) s3"
    if s3: "entered s3" for s3 c b e
  proof (rule within_bind)
    show "within (run_syscall h ?ctx c s3) s3"
      unfolding run_syscall_def Let_def
      by (rule within_bind [OF within_call [OF s3]]) (simp add: same_auth_bounded)
    fix a s4
    have "within (log_failed_syscall ?ctx e s4) s4"
      by (auto simp: log_failed_syscall_def Let_def same_auth_bounded split: option.split)
    then show "within (obind (if b then log_failed_syscall ?ctx e s4 else Ret () s4) (\<lambda>_ s. finish_syscall c s)) s4"
      by (intro within_bind) (auto simp: within_finish)
  qed
  have dec: "within (obind (decode_syscall ?ctx s1) (\<lambda>c s.
      obind (run_syscall h ?ctx c (if kernel_config s AND KCFG_LOG_FAILED_ERRNO \<noteq> 0 then set_errno 0 s else s)) (\<lambda>_ s'.
      obind (if kernel_config s AND KCFG_LOG_FAILED_ERRNO \<noteq> 0
             then log_failed_syscall ?ctx (u_err_no (user_thread_info s)) s' else Ret () s')
        (\<lambda>_ s. finish_syscall c s)))) s1"
    if s1: "entered s1" for s1
  proof (rule within_bind)
    show "within (decode_syscall ?ctx s1) s1"
      by (cases "decode_syscall ?ctx s1") (auto dest: decode_syscall_Ret)
    fix c s2 assume d: "decode_syscall ?ctx s1 = Ret c s2"
    then have s2: "entered s2" using decode_syscall_Ret s1 by blast
    let ?s3 = "if kernel_config s2 AND KCFG_LOG_FAILED_ERRNO \<noteq> 0 then set_errno 0 s2 else s2"
    have "entered ?s3" "bounded_by s2 ?s3" using s2 by (simp_all add: entered_def same_auth_bounded)
    then show "within (obind (run_syscall h ?ctx c ?s3) (\<lambda>_ s'.
      obind (if kernel_config s2 AND KCFG_LOG_FAILED_ERRNO \<noteq> 0
             then log_failed_syscall ?ctx (u_err_no (user_thread_info s2)) s' else Ret () s')
        (\<lambda>_ s. finish_syscall c s))) s2"
      using rest within_after by blast
  qed
  show ?thesis
    unfolding k_handle_syscall_def on_current_def Some option.case Let_def
  proof (rule within_bind [OF within_check_stack])
    fix b s1 assume "check_stack s = Ret b s1"
    then have s1: "entered s1" using check_stack_keeps [OF assms] by simp
    let ?s2 = "if b then s1 else set_memory
          (store32 (store32 (store32 (memory s1) (?ctx + CTX_SYSCALL_NUM) num_yield)
             (?ctx + CTX_ARG1) (word_of_int YIELD_ANY)) (?ctx + CTX_ARG0) (word_of_int INVALID_THREAD)) s1"
    have "entered ?s2" "bounded_by s1 ?s2" using s1 by (simp_all add: entered_def same_auth_bounded)
    from within_after [OF this(2) dec [OF this(1)]]
    show "within (obind (decode_syscall ?ctx ?s2) (\<lambda>c s.
      obind (run_syscall h ?ctx c (if kernel_config s AND KCFG_LOG_FAILED_ERRNO \<noteq> 0 then set_errno 0 s else s)) (\<lambda>_ s'.
      obind (if kernel_config s AND KCFG_LOG_FAILED_ERRNO \<noteq> 0
             then log_failed_syscall ?ctx (u_err_no (user_thread_info s)) s' else Ret () s')
        (\<lambda>_ s. finish_syscall c s)))) s1" .
  qed
qed (simp add: k_handle_syscall_def on_current_def)

text \<open>A whole exception, the switch at its end included: all but the current thread is as before.\<close>

definition bounded_step :: "kstate \<Rightarrow> kstate \<Rightarrow> bool" where
  "bounded_step s s' \<longleftrightarrow> MAX_THREADS s' = MAX_THREADS s \<and> (\<forall>i. perm_bound s s' i) \<and>
     (k_has_no_permission TPERM_FILE s \<longrightarrow> host_calls s' = host_calls s)"

lemma bounded_by_step: "bounded_by s s' \<Longrightarrow> bounded_step s s'"
  by (simp add: bounded_by_def bounded_step_def)

lemma save_bounded: "bounded_by s (save_current_thread sp ctx s)"
  by (auto simp: save_current_thread_def intro!: same_auth_bounded same_auth_upd split: option.split)

lemma load_next_bounded:
  assumes "sane s"
  shows "ret_state (load_next_thread s) (bounded_step s)"
proof -
  have "bounded_step s (s'\<lparr>current_thread := p, next_thread := None\<rparr>)" if "same_auth s s'" for s' p
    using that by (simp add: same_auth_def bounded_step_def perm_bound_def MAX_THREADS_def)
  moreover have "quiet (do_scheduler s) s" using quiet_do_scheduler assms by (simp add: sane_def)
  ultimately show ?thesis
    by (cases "next_thread s"; cases "do_scheduler s") (auto simp: load_next_thread_def)
qed

lemma bounded_then_step: "bounded_by s s1 \<Longrightarrow> bounded_step s1 s2 \<Longrightarrow> bounded_step s s2"
proof -
  assume 1: "bounded_by s s1" and 2: "bounded_step s1 s2"
  have "bounded_by s1 (s2\<lparr>current_thread := current_thread s1\<rparr>)"
    using 2 by (simp add: bounded_step_def bounded_by_def perm_bound_def MAX_THREADS_def split: option.splits)
  from bounded_trans [OF 1 this] show ?thesis
    by (simp add: bounded_step_def bounded_by_def perm_bound_def MAX_THREADS_def split: option.splits)
qed

lemma event_bounded:
  assumes "user_mode s"
  shows "ret_state (handle_event h ev s) (bounded_step s)"
proof -
  have load: "ret_state (load_next_thread s1) (bounded_step s)" if "bounded_by s s1" "sane s1" for s1
    using load_next_bounded [OF that(2)] bounded_then_step [OF that(1)] by (auto simp: ret_state_iff)
  have save: "bounded_by s (save_current_thread sp ctx s)" "entered (save_current_thread sp ctx s)" for sp ctx
    using save_bounded save_entered(1) [OF assms] by blast+
  show ?thesis
  proof (cases ev)
    case (ev_syscall sp ctx)
    show ?thesis
      unfolding ev_syscall handle_event.simps
    proof (rule ret_state_bind [where Q = "\<lambda>s1. bounded_by s s1 \<and> sane s1"])
      show "ret_state (k_handle_syscall h (save_current_thread sp ctx s)) (\<lambda>s1. bounded_by s s1 \<and> sane s1)"
        using within_handle_syscall [OF save(2) [of sp ctx], of h] k_handle_syscall_sane [OF save(2) [of sp ctx], of h]
          bounded_trans [OF save(1) [of sp ctx]]
        by (simp add: within_def ret_state_iff)
    qed (use load in blast)
  next
    case (ev_thread_switch sp ctx)
    then show ?thesis using load [OF save(1)] save(2) by (simp add: entered_def)
  next
    case (ev_timer_control sp ctx)
    obtain c where c: "current_thread s = Some c" using assms by (auto simp: user_mode_def)
    let ?s1 = "(save_current_thread sp ctx s)\<lparr>next_thread := current_thread s\<rparr>"
    have "bounded_by s ?s1"
      using save(1) [of sp ctx] by (simp add: bounded_by_def perm_bound_def MAX_THREADS_def split: option.splits)
    moreover have "sane ?s1"
      using next_update_sane c save(2) save_entered(2) [OF assms] by (simp add: entered_def)
    ultimately show ?thesis using load ev_timer_control by simp
  next
    case (ev_timer sp ctx)
    have eq: "(save_current_thread sp ctx s)\<lparr>next_thread := None\<rparr> = save_current_thread sp ctx s"
      using save(2) [of sp ctx] by (simp add: entered_def)
    show ?thesis
      unfolding ev_timer handle_event.simps eq using load [OF save(1)] save(2) by (simp add: entered_def)
  qed
qed

lemma step_bounded:
  assumes "kstep h s s'" and "user_mode s"
  shows "bounded_step s s'"
  using assms(1)
proof (cases rule: kstep.cases)
  case (step_user m err out lo hi)
  then show ?thesis
    by (auto simp: user_effect_def intro!: bounded_by_step same_auth_bounded same_auth_upd split: option.split)
next
  case (step_finish out)
  have "quiet (thread_start_end out s) s"
    by (auto simp: thread_start_end_def on_current_def Let_def
        intro!: quiet_bind [OF quiet_cleanup] same_auth_upd split: option.split)
  with step_finish show ?thesis by (auto intro!: bounded_by_step same_auth_bounded)
next
  case (step_kernel ev)
  then show ?thesis using event_bounded [OF assms(2), of h ev] by simp
qed

section \<open>Properties\<close>

text \<open>C6: No step of the system gives a thread a permission out of nothing: after any step of a
  running system every thread's permissions are a subset of those it had before, or of those of
  the thread that was running (which is how a new thread gets its own). So a thread can only ever
  pass on what it has, and nothing a thread with reduced permissions does brings them back.\<close>

theorem permissions_never_grow:
  assumes "user_mode s" and "kstep h s s'" and "current_thread s = Some c" and "i < MAX_THREADS s"
  shows "t_permissions (thread_at s' i) AND t_permissions (thread_at s i) = t_permissions (thread_at s' i) \<or>
    t_permissions (thread_at s' i) AND t_permissions (thread_at s c) = t_permissions (thread_at s' i)"
  using step_bounded [OF assms(2,1)] assms(3) by (auto simp: bounded_step_def perm_bound_def subset_perm_def)


section \<open>Properties at a concrete step\<close>

lemma demo_user_mode: "user_mode demo_state"
  using demo_kinv demo_running by (simp add: user_mode_def)

definition demo_no_file :: kstate where
  "demo_no_file = upd_thread 0 (\<lambda>t. t\<lparr>t_permissions := 0xFFFD\<rparr>) demo_state"

lemma demo_no_file_user_mode: "user_mode demo_no_file"
  unfolding demo_no_file_def user_mode_entered entered_def
  using demo_user_mode by (auto simp: user_mode_entered entered_def intro!: sane_upd)

theorem permissions_never_grow_witness:
  "t_permissions (thread_at (user_effect (\<lambda>_. 1) 0 ''x'' 0 0 demo_state) 1) AND 0xFFFF =
     t_permissions (thread_at (user_effect (\<lambda>_. 1) 0 ''x'' 0 0 demo_state) 1)"
  using permissions_never_grow [OF demo_user_mode step_user, of 0 1] by simp


end
