(* ===== verification/Fairness.thy ===== *)
theory Fairness
  imports Machine
begin

text \<open>
  Preemption is fair: under the timer, a thread that can run gets to run within one round of the
  thread table, as long as no thread has a child or a parent that can run (the scheduler prefers
  those). The progress measure is the distance from the current thread around the table.
\<close>

section \<open>Timer ticks\<close>

text \<open>One timer interrupt after the other; each interrupts the current thread somewhere, so its
  stack pointer and its context are arbitrary. The run lists the states after each tick.\<close>

fun timer_ticks :: "host \<Rightarrow> (size_t \<times> byte list) list \<Rightarrow> kstate \<Rightarrow> kstate list option" where
  "timer_ticks h [] s = Some []"
| "timer_ticks h ((sp, ctx) # cs) s =
     (case handle_event h (ev_timer sp ctx) s of
        Ret u s' \<Rightarrow> map_option (Cons s') (timer_ticks h cs s')
      | _ \<Rightarrow> None)"

definition no_family :: "kstate \<Rightarrow> bool" where
  "no_family s \<longleftrightarrow> (\<forall>i < MAX_THREADS s. t_child (thread_at s i) = INVALID_THREAD \<and>
     t_parent (thread_at s i) = INVALID_THREAD)"

text \<open>How many threads stand between the current thread and a thread.\<close>

definition distance :: "nat \<Rightarrow> nat \<Rightarrow> nat \<Rightarrow> nat" where
  "distance n c w = (w + n - Suc c) mod n"

lemma distance_step:
  assumes "c < n" and "w < n" and "k \<le> distance n c w" and "m = (c + 1 + k) mod n" and "m \<noteq> w"
  shows "distance n m w < distance n c w"
proof -
  have d: "distance n c w = (if c < w then w - Suc c else w + n - Suc c)"
    using assms(1,2) by (simp add: distance_def mod_if)
  then have bound: "c + 1 + k < 2 * n"
    using assms(1-3) by (simp split: if_splits)
  have m: "m = (if c + 1 + k < n then c + 1 + k else c + 1 + k - n)"
    unfolding assms(4) using bound by (simp add: mod_if)
  have mn: "m < n" unfolding assms(4) using assms(1) by simp
  have dm: "distance n m w = (if m < w then w - Suc m else w + n - Suc m)"
    using mn assms(2) by (simp add: distance_def mod_if)
  show ?thesis
  proof (cases "c < w")
    case True
    then have "k \<le> w - Suc c" using d assms(3) by simp
    then have "c + 1 + k < n" "m = c + 1 + k" using m True assms(2) by simp_all
    moreover have "m < w" using calculation True \<open>k \<le> w - Suc c\<close> assms(5) by linarith
    ultimately show ?thesis using d dm True by simp
  next
    case False
    then have k: "k \<le> w + n - Suc c" using d assms(3) by simp
    show ?thesis
    proof (cases "c + 1 + k < n")
      case True
      then have "m = c + 1 + k" using m by simp
      moreover have "m < w + n" using mn by simp
      ultimately show ?thesis using d dm False assms(1) by (simp add: diff_less_mono2)
    next
      case wrap: False
      then have "m = c + 1 + k - n" using m by simp
      moreover have "m < w" using calculation k wrap assms(1,5) by linarith
      ultimately show ?thesis using d dm False assms(1) wrap by simp
    qed
  qed
qed

lemma distance_reaches:
  assumes "c < n" and "w < n"
  shows "(c + 1 + distance n c w) mod n = w" and "distance n c w < n"
proof -
  show "distance n c w < n" using assms by (simp add: distance_def)
  show "(c + 1 + distance n c w) mod n = w"
    using assms by (auto simp: distance_def mod_if)
qed

section \<open>One tick\<close>

lemma can_schedule_invalid [simp]: "\<not> can_schedule_thread INVALID_THREAD s"
  by (simp add: can_schedule_thread_def is_valid_thread_def INVALID_THREAD_def)

lemma save_thread:
  assumes "user_mode s"
  shows "\<exists>sp'. thread_at (save_current_thread sp ctx s) j = (thread_at s j)\<lparr>t_stack_ptr := sp'\<rparr>"
    and "MAX_THREADS (save_current_thread sp ctx s) = MAX_THREADS s"
proof -
  have "\<exists>sp'. t = t\<lparr>t_stack_ptr := sp'\<rparr>" for t :: Thread
    by (rule exI [of _ "t_stack_ptr t"]) simp
  then show "\<exists>sp'. thread_at (save_current_thread sp ctx s) j = (thread_at s j)\<lparr>t_stack_ptr := sp'\<rparr>"
    by (auto simp: save_current_thread_def thread_at_upd split: option.split)
  show "MAX_THREADS (save_current_thread sp ctx s) = MAX_THREADS s"
    by (simp add: save_current_thread_def MAX_THREADS_def split: option.split)
qed

lemma save_checks:
  assumes "user_mode s"
  shows "can_schedule_thread t (save_current_thread sp ctx s) = can_schedule_thread t s"
proof -
  have "t_state (thread_at (save_current_thread sp ctx s) j) = t_state (thread_at s j)"
    "t_id (thread_at (save_current_thread sp ctx s) j) = t_id (thread_at s j)" for j
    using save_thread(1) [OF assms, of sp ctx j] by auto
  then show ?thesis
    by (simp add: can_schedule_thread_def is_valid_thread_def save_thread(2) [OF assms])
qed

lemma timer_tick:
  assumes "user_mode s" and "no_family s" and "current_thread s = Some c" and "w < MAX_THREADS s"
    and "can_schedule_thread (int w) s"
  shows "\<exists>s' m. handle_event h (ev_timer sp ctx) s = Ret () s' \<and> user_mode s' \<and> no_family s' \<and>
    MAX_THREADS s' = MAX_THREADS s \<and> can_schedule_thread (int w) s' \<and> current_thread s' = Some m \<and>
    (m = w \<or> distance (MAX_THREADS s) m w < distance (MAX_THREADS s) c w)"
proof -
  let ?s1 = "save_current_thread sp ctx s" and ?n = "MAX_THREADS s"
  have e: "entered ?s1" "current_thread ?s1 = Some c" using save_entered [OF assms(1)] assms(3) by simp_all
  note E = enteredD [OF e(1)]
  have n1: "MAX_THREADS ?s1 = ?n" using save_thread(2) [OF assms(1)] .
  have c: "c < ?n" using kinv_current [OF E(2) e(2)] n1 by simp
  have fam: "t_child (thread_at ?s1 c) = INVALID_THREAD" "t_parent (thread_at ?s1 c) = INVALID_THREAD"
    using assms(2) c save_thread(1) [OF assms(1), of sp ctx c] by (auto simp: no_family_def)
  have idx: "next_possible_thread_idx (current_thread ?s1) ?s1 = c + 1"
    using next_idx_cases [OF E(2) e(2)] fam by simp
  have w1: "can_schedule_thread (int w) ?s1" using assms(5) save_checks [OF assms(1)] by simp
  have pos: "0 < MAX_THREADS ?s1" using c n1 by simp
  obtain m where first: "first_from (c + 1) ?s1 = Some m"
    using first_from_None [OF pos, of "c + 1"] w1 assms(4) n1 by (cases "first_from (c + 1) ?s1") auto
  then obtain s' where s': "do_scheduler ?s1 = Ret () s'"
    using do_scheduler_runs [OF E(2,3)] idx by metis
  obtain k where k: "k < ?n" "m = (c + 1 + k) mod ?n"
    "\<forall>j < k. \<not> can_schedule_thread (int ((c + 1 + j) mod ?n)) ?s1"
    using first_from_Some(2) [OF first] n1 by auto
  have kd: "k \<le> distance ?n c w"
  proof (rule ccontr)
    assume "\<not> k \<le> distance ?n c w"
    then have "\<not> can_schedule_thread (int ((c + 1 + distance ?n c w) mod ?n)) ?s1" using k(3) by simp
    then show False using distance_reaches [OF c assms(4)] w1 by simp
  qed
  have progress: "m = w \<or> distance ?n m w < distance ?n c w"
    using distance_step [OF c assms(4) kd k(2)] by blast
  obtain nx where D: "first_from (next_possible_thread_idx (current_thread ?s1) ?s1) ?s1 = Some nx"
    "next_thread s' = Some nx"
    "\<And>j. j < MAX_THREADS ?s1 \<Longrightarrow> t_state (thread_at s' j) =
      (if j = nx then running
       else if current_thread ?s1 = Some j \<and> t_state (thread_at ?s1 j) = running then suspended
       else t_state (thread_at ?s1 j))"
    "\<And>j. t_id (thread_at s' j) = t_id (thread_at ?s1 j) \<and> t_child (thread_at s' j) = t_child (thread_at ?s1 j) \<and>
      t_parent (thread_at s' j) = t_parent (thread_at ?s1 j) \<and>
      t_permissions (thread_at s' j) = t_permissions (thread_at ?s1 j)"
    "MAX_THREADS s' = MAX_THREADS ?s1"
    by (rule do_scheduler_Ret [OF E(2,3) s']) blast
  have nx: "nx = m" using D(1) idx first by simp
  let ?s2 = "s'\<lparr>current_thread := Some m, next_thread := None\<rparr>"
  have eq: "?s1\<lparr>next_thread := None\<rparr> = ?s1" using E(3) by simp
  have ev: "handle_event h (ev_timer sp ctx) s = Ret () ?s2"
    unfolding handle_event.simps eq using s' D(2) nx E(3) by (simp add: load_next_thread_def)
  have "user_mode ?s2" using handle_event_user_mode [OF assms(1), of h "ev_timer sp ctx"] ev by simp
  moreover have "MAX_THREADS ?s2 = ?n" using D(5) n1 by (simp add: MAX_THREADS_def)
  moreover have "no_family ?s2"
  proof -
    have "t_child (thread_at ?s1 j) = t_child (thread_at s j)" "t_parent (thread_at ?s1 j) = t_parent (thread_at s j)" for j
      using save_thread(1) [OF assms(1), of sp ctx j] by auto
    then show ?thesis
      using assms(2) D(4) calculation by (simp add: no_family_def)
  qed
  moreover have "can_schedule_thread (int w) ?s2"
  proof -
    have "t_id (thread_at s' w) = t_id (thread_at ?s1 w)" using D(4) by blast
    moreover have "t_state (thread_at s' w) = (if w = nx then running
       else if current_thread ?s1 = Some w \<and> t_state (thread_at ?s1 w) = running then suspended
       else t_state (thread_at ?s1 w))" using D(3) [of w] assms(4) n1 by simp
    ultimately show ?thesis
      using w1 D(5) by (auto simp: can_schedule_thread_def is_valid_thread_def MAX_THREADS_def Let_def)
  qed
  ultimately show ?thesis using ev progress by (intro exI [of _ ?s2] exI [of _ m]) simp
qed

lemma ticks_reach:
  "user_mode s \<Longrightarrow> no_family s \<Longrightarrow> current_thread s = Some c \<Longrightarrow> w < MAX_THREADS s \<Longrightarrow>
   can_schedule_thread (int w) s \<Longrightarrow> distance (MAX_THREADS s) c w < length ticks \<Longrightarrow>
   \<exists>ss. timer_ticks h ticks s = Some ss \<and>
     (\<exists>k \<le> distance (MAX_THREADS s) c w. k < length ss \<and> current_thread (ss ! k) = Some w)"
proof (induction ticks arbitrary: s c)
  case Nil
  then show ?case by simp
next
  case (Cons t ticks)
  obtain sp ctx where t: "t = (sp, ctx)" by (cases t)
  obtain s' m where step: "handle_event h (ev_timer sp ctx) s = Ret () s'" "user_mode s'" "no_family s'"
    "MAX_THREADS s' = MAX_THREADS s" "can_schedule_thread (int w) s'" "current_thread s' = Some m"
    "m = w \<or> distance (MAX_THREADS s) m w < distance (MAX_THREADS s) c w"
    using timer_tick [OF Cons.prems(1-5), of h sp ctx] by blast
  have total: "\<exists>ss. timer_ticks h ts s' = Some ss" if "user_mode s'" "no_family s'" "w < MAX_THREADS s'"
    "can_schedule_thread (int w) s'" for ts s'
    using that
  proof (induction ts arbitrary: s')
    case (Cons t ts)
    obtain sp ctx where t: "t = (sp, ctx)" by (cases t)
    obtain c where "current_thread s' = Some c" using Cons.prems(1) by (auto simp: user_mode_def)
    from timer_tick [OF Cons.prems(1,2) this Cons.prems(3,4), of h sp ctx] Cons.IH Cons.prems(3)
    show ?case unfolding t by fastforce
  qed simp
  show ?case
  proof (cases "m = w")
    case True
    obtain ss where "timer_ticks h ticks s' = Some ss" using total step Cons.prems(4) by metis
    with True step show ?thesis unfolding t by (intro exI [of _ "s' # ss"]) auto
  next
    case False
    then have d: "distance (MAX_THREADS s) m w < distance (MAX_THREADS s) c w" using step(7) by blast
    then have "distance (MAX_THREADS s') m w < length ticks" using Cons.prems(6) step(4) by simp
    from Cons.IH [OF step(2,3,6) _ step(5) this] Cons.prems(4) step(4)
    obtain ss k where "timer_ticks h ticks s' = Some ss" "k \<le> distance (MAX_THREADS s) m w" "k < length ss"
      "current_thread (ss ! k) = Some w" by auto
    with d step(1) show ?thesis
      unfolding t by (intro exI [of _ "s' # ss"] conjI exI [of _ "Suc k"]) auto
  qed
qed

section \<open>Properties\<close>


lemma demo_no_family: "no_family demo_state"
  by (auto simp: no_family_def INVALID_THREAD_def less_Suc_eq numeral_3_eq_3)


end
