(* ===== verification/Condition_Queue.thy ===== *)
theory Condition_Queue
  imports Condition_Variable Scheduling
begin

text \<open>
  What condition variables promise. The structure in user memory is a bounded queue of waiting
  threads, so it provides the queue interface; its fields do not overlap, so reading the structure
  back after an operation gives the queue operation's result. Signalling and broadcasting are
  proved on top of that.
\<close>

section \<open>The structure is a queue\<close>

definition cv_ok :: "ConditionVariable \<Rightarrow> bool" where
  "cv_ok c \<longleftrightarrow> ring_ok (cv_waiting c) (unat (cv_first c)) (unat (cv_last c)) (cv_full c) \<and>
     length (cv_waiting c) < 32768"

text \<open>The threads that wait, the one that has waited longest first.\<close>

definition cv_list :: "ConditionVariable \<Rightarrow> int list" where
  "cv_list c = ring_list (cv_waiting c) (unat (cv_first c)) (unat (cv_last c)) (cv_full c)"

definition cv_next :: "ConditionVariable \<Rightarrow> size_t \<Rightarrow> size_t" where
  "cv_next c v = (v + 1) mod of_nat (length (cv_waiting c))"

definition cv_enq :: "int \<Rightarrow> ConditionVariable \<Rightarrow> ConditionVariable" where
  "cv_enq x c = c\<lparr>cv_waiting := (cv_waiting c)[unat (cv_last c) := x], cv_last := cv_next c (cv_last c),
     cv_full := (cv_first c = cv_next c (cv_last c))\<rparr>"

definition cv_deq :: "ConditionVariable \<Rightarrow> ConditionVariable" where
  "cv_deq c = c\<lparr>cv_first := cv_next c (cv_first c), cv_full := False\<rparr>"

definition cv_front :: "ConditionVariable \<Rightarrow> int" where
  "cv_front c = cv_waiting c ! unat (cv_first c)"

lemma unat_cv_next:
  assumes "length (cv_waiting c) < 32768" and "unat v < length (cv_waiting c)"
  shows "unat (cv_next c v) = Suc (unat v) mod length (cv_waiting c)"
proof -
  have "unat (v + 1) = Suc (unat v)" using assms by (subst unat_add32) simp_all
  then show ?thesis using assms by (simp add: cv_next_def unat_mod)
qed

lemma cv_empty: "cv_ok c \<Longrightarrow> cv_list c = [] \<longleftrightarrow> \<not> (cv_first c \<noteq> cv_last c \<or> cv_full c)"
  using ring_list_empty [of "cv_waiting c"] by (auto simp: cv_ok_def cv_list_def word_unat_eq_iff)

lemma cv_room: "cv_ok c \<Longrightarrow> length (cv_list c) < length (cv_waiting c) \<longleftrightarrow> \<not> cv_full c"
  using ring_count_le [of "cv_waiting c"] ring_full [of "cv_waiting c"]
  by (fastforce simp: cv_ok_def cv_list_def)

lemma cv_bounded: "cv_ok c \<Longrightarrow> length (cv_list c) \<le> length (cv_waiting c)"
  using ring_count_le [of "cv_waiting c"] by (simp add: cv_ok_def cv_list_def)

lemma cv_enq_ok:
  assumes "cv_ok c" and "\<not> cv_full c"
  shows "cv_list (cv_enq x c) = cv_list c @ [x]" and "cv_ok (cv_enq x c)"
proof -
  have r: "ring_ok (cv_waiting c) (unat (cv_first c)) (unat (cv_last c)) False"
    using assms by (simp add: cv_ok_def)
  have n: "unat (cv_next c (cv_last c)) = Suc (unat (cv_last c)) mod length (cv_waiting c)"
    using assms(1) by (intro unat_cv_next) (simp_all add: cv_ok_def ring_ok_def)
  have eq: "cv_first c = cv_next c (cv_last c) \<longleftrightarrow>
      unat (cv_first c) = Suc (unat (cv_last c)) mod length (cv_waiting c)"
    using n by (metis word_unat_eq_iff)
  show "cv_list (cv_enq x c) = cv_list c @ [x]"
    using ring_enq(1) [OF r, of x] assms(2) by (simp add: cv_list_def cv_enq_def n eq)
  show "cv_ok (cv_enq x c)"
    using ring_enq(2) [OF r, of x] assms(1) by (simp add: cv_ok_def cv_enq_def n eq)
qed

lemma cv_deq_ok:
  assumes "cv_ok c" and "cv_list c \<noteq> []"
  shows "cv_list c = cv_front c # cv_list (cv_deq c)" and "cv_ok (cv_deq c)"
proof -
  have ne: "cv_full c \<or> unat (cv_first c) \<noteq> unat (cv_last c)"
    using assms cv_empty [of c] by (metis word_unat_eq_iff)
  have r: "ring_ok (cv_waiting c) (unat (cv_first c)) (unat (cv_last c)) (cv_full c)"
    using assms(1) by (simp add: cv_ok_def)
  have n: "unat (cv_next c (cv_first c)) = Suc (unat (cv_first c)) mod length (cv_waiting c)"
    using assms(1) by (intro unat_cv_next) (simp_all add: cv_ok_def ring_ok_def)
  show "cv_list c = cv_front c # cv_list (cv_deq c)"
    using ring_deq(1) [OF r ne] by (simp add: cv_list_def cv_deq_def cv_front_def n)
  show "cv_ok (cv_deq c)"
    using ring_deq(2) [OF r ne] assms(1) by (simp add: cv_ok_def cv_deq_def n)
qed

interpretation cq: bounded_queue cv_enq cv_deq cv_front cv_list cv_ok "\<lambda>c. length (cv_waiting c)"
proof unfold_locales
  fix q x
  show "length (cv_waiting (cv_enq x q)) = length (cv_waiting q)" by (simp add: cv_enq_def)
  show "length (cv_waiting (cv_deq q)) = length (cv_waiting q)" by (simp add: cv_deq_def)
qed (simp_all add: cv_room cv_enq_ok cv_deq_ok(2) cv_deq_ok(1) [symmetric] cv_bounded)

section \<open>The structure in memory\<close>

text \<open>The fields are at offsets that do not overlap, wherever the structure is.\<close>

lemma cv_addresses:
  "cv_waiting_at cv (of_nat i) = cv + of_nat (4 * i)"
  "cv_first_at cv s = cv + of_nat (4 * MAX_THREADS s)"
  "cv_last_at cv s = cv + of_nat (4 * MAX_THREADS s + 4)"
  "cv_full_at cv s = cv + of_nat (4 * MAX_THREADS s + 8)"
  by (simp_all add: cv_waiting_at_def cv_first_at_def cv_last_at_def cv_full_at_def)

text \<open>Reading a field after writing a field.\<close>

lemma cv_fields_apart:
  assumes "MAX_THREADS s < 32768"
  shows "i < MAX_THREADS s \<Longrightarrow> j < MAX_THREADS s \<Longrightarrow> i \<noteq> j \<Longrightarrow>
      apart (cv_waiting_at cv (of_nat i)) 4 (cv_waiting_at cv (of_nat j)) 4"
    and "i < MAX_THREADS s \<Longrightarrow> apart (cv_waiting_at cv (of_nat i)) 4 (cv_first_at cv s) 4"
    and "i < MAX_THREADS s \<Longrightarrow> apart (cv_waiting_at cv (of_nat i)) 4 (cv_last_at cv s) 4"
    and "i < MAX_THREADS s \<Longrightarrow> apart (cv_waiting_at cv (of_nat i)) 4 (cv_full_at cv s) 1"
    and "apart (cv_first_at cv s) 4 (cv_last_at cv s) 4"
    and "apart (cv_first_at cv s) 4 (cv_full_at cv s) 1"
    and "apart (cv_last_at cv s) 4 (cv_full_at cv s) 1"
proof -
  assume ij: "i < MAX_THREADS s" "j < MAX_THREADS s" "i \<noteq> j"
  show "apart (cv_waiting_at cv (of_nat i)) 4 (cv_waiting_at cv (of_nat j)) 4"
  proof (cases "i < j")
    case True
    then show ?thesis unfolding cv_addresses using ij assms by (intro apart_offsets(1)) auto
  next
    case False
    then show ?thesis unfolding cv_addresses using ij assms by (intro apart_offsets(2)) auto
  qed
qed (unfold cv_addresses, (rule apart_offsets(1); use assms in simp)+)

lemmas cv_apart_sym = cv_fields_apart [THEN apart_commute [THEN iffD1]]

lemmas cv_reads = load_cv_def get_waiting_def get_first_def get_last_def get_full_def MAX_THREADS_def
  cv_first_at_def cv_last_at_def cv_full_at_def mem_simps load_byte_store32 load32_byte_apart

lemma load_cv_set:
  assumes "MAX_THREADS s < 32768"
  shows "load_cv cv (set_first cv v s) = (load_cv cv s)\<lparr>cv_first := v\<rparr>"
    and "load_cv cv (set_last cv v s) = (load_cv cv s)\<lparr>cv_last := v\<rparr>"
    and "load_cv cv (set_full cv b s) = (load_cv cv s)\<lparr>cv_full := b\<rparr>"
  using cv_fields_apart [OF assms] cv_apart_sym [OF assms]
  by (simp_all add: cv_reads set_first_def set_last_def set_full_def)

lemma load_cv_set_waiting:
  assumes "MAX_THREADS s < 32768" and "i < MAX_THREADS s" and "int32 v"
  shows "load_cv cv (set_waiting cv (of_nat i) v s) = (load_cv cv s)\<lparr>cv_waiting := (cv_waiting (load_cv cv s))[i := v]\<rparr>"
proof -
  have "map (\<lambda>j. get_waiting cv (of_nat j) (set_waiting cv (of_nat i) v s)) [0..<MAX_THREADS s] =
      (map (\<lambda>j. get_waiting cv (of_nat j) s) [0..<MAX_THREADS s])[i := v]"
  proof (rule nth_equalityI)
    fix j assume "j < length (map (\<lambda>j. get_waiting cv (of_nat j) (set_waiting cv (of_nat i) v s)) [0..<MAX_THREADS s])"
    then have j: "j < MAX_THREADS s" by simp
    show "map (\<lambda>j. get_waiting cv (of_nat j) (set_waiting cv (of_nat i) v s)) [0..<MAX_THREADS s] ! j =
        (map (\<lambda>j. get_waiting cv (of_nat j) s) [0..<MAX_THREADS s])[i := v] ! j"
      using j assms(2,3) cv_fields_apart(1) [OF assms(1), of i j]
      by (cases "i = j") (simp_all add: get_waiting_def set_waiting_def mem_simps sint_of_int32 nth_list_update)
  qed simp
  moreover have "MAX_THREADS (set_waiting cv (of_nat i) v s) = MAX_THREADS s"
    by (simp add: set_waiting_def MAX_THREADS_def)
  ultimately show ?thesis
    using cv_fields_apart(2-4) [OF assms(1,2), of cv]
    by (simp add: load_cv_def get_first_def get_last_def get_full_def set_waiting_def
        cv_first_at_def cv_last_at_def cv_full_at_def mem_simps load_byte_store32 MAX_THREADS_def)
qed

lemma load_cv_cong: "memory s' = memory s \<Longrightarrow> length (all_threads s') = length (all_threads s) \<Longrightarrow> load_cv cv s' = load_cv cv s"
  by (simp add: load_cv_def get_waiting_def get_first_def get_last_def get_full_def
      cv_first_at_def cv_last_at_def cv_full_at_def MAX_THREADS_def)

lemma load_cv_fields [simp]:
  "cv_first (load_cv cv s) = get_first cv s" "cv_last (load_cv cv s) = get_last cv s"
  "cv_full (load_cv cv s) = get_full cv s" "length (cv_waiting (load_cv cv s)) = MAX_THREADS s"
  by (simp_all add: load_cv_def)

lemma load_cv_front:
  "unat (get_first cv s) < MAX_THREADS s \<Longrightarrow> get_waiting cv (get_first cv s) s = cv_front (load_cv cv s)"
  by (simp add: cv_front_def) (simp add: load_cv_def)

section \<open>The operations in terms of the queue\<close>

definition waiters :: "size_t \<Rightarrow> kstate \<Rightarrow> int list" where
  "waiters cv s = cv_list (load_cv cv s)"

lemma set_fields_frame [simp]:
  "all_threads (set_first cv v s) = all_threads s" "all_threads (set_last cv v s) = all_threads s"
  "all_threads (set_full cv b s) = all_threads s" "all_threads (set_waiting cv i w s) = all_threads s"
  by (simp_all add: set_first_def set_last_def set_full_def set_waiting_def)

lemma set_state_frame:
  "memory (snd (set_thread_state tid st s)) = memory s"
  "length (all_threads (snd (set_thread_state tid st s))) = length (all_threads s)"
  "current_thread (snd (set_thread_state tid st s)) = current_thread s"
  by (simp_all add: set_thread_state_def)

lemma load_cv_set_state [simp]: "load_cv cv (snd (set_thread_state tid st s)) = load_cv cv s"
  by (rule load_cv_cong) (simp_all add: set_state_frame)

text \<open>A signal takes the front of the queue, and makes that thread able to run.\<close>

lemma k_signal_queue:
  assumes "cv_ok (load_cv cv s)"
  shows "k_signal cv s =
    (if waiters cv s = [] then (False, s)
     else (True, set_full cv False (set_first cv (cv_next (load_cv cv s) (get_first cv s))
             (snd (set_thread_state (hd (waiters cv s)) suspended s)))))"
    and "load_cv cv (snd (k_signal cv s)) = (if waiters cv s = [] then load_cv cv s else cv_deq (load_cv cv s))"
    and "waiters cv (snd (k_signal cv s)) = tl (waiters cv s)" and "cv_ok (load_cv cv (snd (k_signal cv s)))"
    and "thread_at (snd (k_signal cv s)) = (if waiters cv s = [] then thread_at s
      else thread_at (snd (set_thread_state (hd (waiters cv s)) suspended s)))"
proof -
  let ?c = "load_cv cv s"
  have empty: "waiters cv s = [] \<longleftrightarrow> \<not> (get_first cv s \<noteq> get_last cv s \<or> get_full cv s)"
    using cv_empty [OF assms] by (simp add: waiters_def)
  have front: "waiters cv s \<noteq> [] \<Longrightarrow> get_waiting cv (get_first cv s) s = hd (waiters cv s)"
    using cv_deq_ok(1) [OF assms] load_cv_front [of cv s] assms
    by (simp add: waiters_def cv_ok_def ring_ok_def)
  let ?s1 = "snd (set_thread_state (hd (waiters cv s)) suspended s)"
  have MAX: "MAX_THREADS ?s1 = MAX_THREADS s" "MAX_THREADS s < 32768"
    using assms by (simp_all add: set_state_frame MAX_THREADS_def cv_ok_def)
  have first: "get_first cv ?s1 = get_first cv s"
    by (metis load_cv_fields(1) load_cv_set_state)
  show eq: "k_signal cv s =
    (if waiters cv s = [] then (False, s)
     else (True, set_full cv False (set_first cv (cv_next ?c (get_first cv s)) ?s1)))"
    using empty front first MAX by (simp add: k_signal_def Let_def split_beta inc_mod_def cv_next_def)
  have "load_cv cv (set_full cv False (set_first cv (cv_next ?c (get_first cv s)) ?s1)) = cv_deq ?c"
    using MAX by (simp add: load_cv_set MAX_THREADS_def cv_deq_def)
  then show load: "load_cv cv (snd (k_signal cv s)) = (if waiters cv s = [] then ?c else cv_deq ?c)"
    using eq by simp
  show "waiters cv (snd (k_signal cv s)) = tl (waiters cv s)"
    using load cv_deq_ok(1) [OF assms] by (auto simp: waiters_def)
  show "cv_ok (load_cv cv (snd (k_signal cv s)))"
    using load cv_deq_ok(2) [OF assms] assms by (simp add: waiters_def)
  show "thread_at (snd (k_signal cv s)) = (if waiters cv s = [] then thread_at s else thread_at ?s1)"
    using eq by (simp add: fun_eq_iff)
qed

text \<open>A broadcast signals until the queue is empty.\<close>

definition woken_thread :: "int set \<Rightarrow> kstate \<Rightarrow> nat \<Rightarrow> Thread" where
  "woken_thread W s j = (if is_valid_thread (int j) s \<and> int j \<in> W
     then (thread_at s j)\<lparr>t_state := suspended\<rparr> else thread_at s j)"

lemma thread_at_set_state:
  "thread_at (snd (set_thread_state tid st s)) j =
     (if is_valid_thread tid s \<and> int j = tid then (thread_at s j)\<lparr>t_state := st\<rparr> else thread_at s j)"
  using valid_less [of tid s] by (auto simp: set_thread_state_def thread_at_upd MAX_THREADS_def)

lemma woken_valid: "is_valid_thread (int k) s \<Longrightarrow> t_id (woken_thread W s k) \<noteq> INVALID_THREAD"
  by (simp add: woken_thread_def is_valid_thread_int)

lemma is_valid_woken:
  assumes "length (all_threads s') = length (all_threads s)" and "thread_at s' = woken_thread W s"
  shows "is_valid_thread tid s' = is_valid_thread tid s"
proof -
  have "t_id (thread_at s' j) = t_id (thread_at s j)" for j
    using assms(2) by (simp add: woken_thread_def)
  then show ?thesis using assms(1) by (simp add: is_valid_thread_def MAX_THREADS_def)
qed

lemma k_signal_threads:
  assumes "cv_ok (load_cv cv s)"
  shows "thread_at (snd (k_signal cv s)) = woken_thread (set (take 1 (waiters cv s))) s"
    and "length (all_threads (snd (k_signal cv s))) = length (all_threads s)"
proof -
  show "thread_at (snd (k_signal cv s)) = woken_thread (set (take 1 (waiters cv s))) s"
    unfolding k_signal_queue(5) [OF assms]
    by (cases "waiters cv s") (auto simp: fun_eq_iff woken_thread_def thread_at_set_state)
  show "length (all_threads (snd (k_signal cv s))) = length (all_threads s)"
    by (simp add: k_signal_queue(1) [OF assms] set_state_frame)
qed

lemma broadcast_loop_wakes:
  assumes "cv_ok (load_cv cv s)"
  shows "\<exists>s'. broadcast_loop cv s = Some s' \<and> waiters cv s' = [] \<and>
    thread_at s' = woken_thread (set (waiters cv s)) s \<and> length (all_threads s') = length (all_threads s)"
  using assms
proof (induction "waiters cv s" arbitrary: s)
  case Nil
  then have "k_signal cv s = (False, s)" using k_signal_queue(1) [OF Nil(2)] by simp
  then show ?case
    using Nil by (subst broadcast_loop.simps) (auto simp: fun_eq_iff woken_thread_def simp flip: Nil(1))
next
  case (Cons w ws)
  let ?s1 = "snd (k_signal cv s)"
  note sig = k_signal_queue [OF Cons.prems] and thr = k_signal_threads [OF Cons.prems]
  have w1: "waiters cv ?s1 = ws" using sig(3) by (simp flip: Cons.hyps(2))
  have "fst (k_signal cv s)" using sig(1) by (simp flip: Cons.hyps(2))
  then have step: "broadcast_loop cv s = broadcast_loop cv ?s1"
    by (subst broadcast_loop.simps) (simp add: split_beta)
  obtain s' where s': "broadcast_loop cv ?s1 = Some s'" "waiters cv s' = []"
    "thread_at s' = woken_thread (set ws) ?s1" "length (all_threads s') = length (all_threads ?s1)"
    using Cons.hyps(1) [of ?s1] sig(4) w1 by auto
  have "thread_at s' j = woken_thread (set (waiters cv s)) s j" for j
  proof -
    have v: "is_valid_thread tid ?s1 = is_valid_thread tid s" for tid
      by (rule is_valid_woken [OF thr(2,1)])
    have t: "thread_at ?s1 j = (if is_valid_thread (int j) s \<and> int j = w
        then (thread_at s j)\<lparr>t_state := suspended\<rparr> else thread_at s j)"
      unfolding thr(1) by (simp add: woken_thread_def flip: Cons.hyps(2))
    show ?thesis
      unfolding s'(3) by (auto simp: woken_thread_def v t simp flip: Cons.hyps(2))
  qed
  then show ?case
    using s' step thr(2) by (auto simp: fun_eq_iff)
qed

text \<open>The first part of a wait puts the caller at the end of the queue; then it waits.\<close>

definition cv_enqueue :: "size_t \<Rightarrow> kstate \<Rightarrow> kstate" where
  "cv_enqueue cv s0 =
     (let s = set_waiting cv (get_last cv s0) (k_get_thread_id s0) s0;
          s = set_last cv (inc_mod (get_last cv s) s) s
      in set_full cv (get_first cv s = get_last cv s) s)"

lemma k_wait_enqueue: "k_wait cv s = obind (k_thread_wait (cv_enqueue cv s)) (\<lambda>_ s. Ret True s)"
  by (simp add: k_wait_def cv_enqueue_def Let_def)

lemma cv_enqueue_frame [simp]:
  "all_threads (cv_enqueue cv s) = all_threads s" "current_thread (cv_enqueue cv s) = current_thread s"
  by (simp_all add: cv_enqueue_def Let_def set_full_def set_last_def set_waiting_def)

lemma load_cv_enqueue:
  assumes "cv_ok (load_cv cv s)" and "int32 (k_get_thread_id s)"
  shows "load_cv cv (cv_enqueue cv s) = cv_enq (k_get_thread_id s) (load_cv cv s)"
proof -
  let ?id = "k_get_thread_id s"
  let ?i = "unat (get_last cv s)"
  let ?s1 = "set_waiting cv (get_last cv s) ?id s"
  have MAX: "MAX_THREADS s < 32768" and i: "?i < MAX_THREADS s"
    using assms(1) by (simp_all add: cv_ok_def ring_ok_def)
  have l1: "load_cv cv ?s1 = (load_cv cv s)\<lparr>cv_waiting := (cv_waiting (load_cv cv s))[?i := ?id]\<rparr>"
    using load_cv_set_waiting [OF MAX i assms(2)] by simp
  have M1: "MAX_THREADS ?s1 = MAX_THREADS s" by (simp add: MAX_THREADS_def)
  let ?n = "inc_mod (get_last cv ?s1) ?s1"
  let ?s2 = "set_last cv ?n ?s1"
  have l2: "load_cv cv ?s2 = (load_cv cv ?s1)\<lparr>cv_last := ?n\<rparr>"
    using load_cv_set(2) MAX M1 by simp
  have M2: "MAX_THREADS ?s2 = MAX_THREADS s" by (simp add: MAX_THREADS_def)
  have last: "get_last cv ?s1 = get_last cv s" using arg_cong [OF l1, of cv_last] by simp
  have n: "?n = cv_next (load_cv cv s) (get_last cv s)"
    unfolding inc_mod_def cv_next_def last M1 by simp
  have f2: "get_first cv ?s2 = get_first cv s" "get_last cv ?s2 = ?n"
    using arg_cong [OF l2, of cv_first] arg_cong [OF l2, of cv_last] arg_cong [OF l1, of cv_first] by simp_all
  have "load_cv cv (set_full cv (get_first cv ?s2 = get_last cv ?s2) ?s2) =
      (load_cv cv ?s2)\<lparr>cv_full := (get_first cv s = ?n)\<rparr>"
    using load_cv_set(3) MAX M2 f2 by simp
  then have "load_cv cv (set_full cv (get_first cv ?s2 = get_last cv ?s2) ?s2) = cv_enq ?id (load_cv cv s)"
    unfolding l2 l1 by (simp add: cv_enq_def n)
  then show ?thesis by (simp only: cv_enqueue_def Let_def)
qed

section \<open>Sequences of waits and signals\<close>

text \<open>Threads wait and are signalled in any order; the run collects the threads that signals found.\<close>

datatype cv_call = Wait nat | Signal

fun cv_calls :: "size_t \<Rightarrow> cv_call list \<Rightarrow> kstate \<Rightarrow> int list \<times> kstate" where
  "cv_calls cv [] s = ([], s)"
| "cv_calls cv (Wait i # cs) s = cv_calls cv cs (cv_enqueue cv (s\<lparr>current_thread := Some i\<rparr>))"
| "cv_calls cv (Signal # cs) s =
     (case k_signal cv s of
        (True, s') \<Rightarrow> (let (w, s'') = cv_calls cv cs s' in (get_waiting cv (get_first cv s) s # w, s''))
      | (False, s') \<Rightarrow> cv_calls cv cs s')"

fun waits :: "cv_call list \<Rightarrow> int list" where
  "waits [] = []"
| "waits (Wait i # cs) = int i # waits cs"
| "waits (Signal # cs) = waits cs"

fun cv_cmd :: "cv_call \<Rightarrow> int option" where
  "cv_cmd (Wait i) = Some (int i)"
| "cv_cmd Signal = None"

lemma load_cv_current [simp]: "load_cv cv (s\<lparr>current_thread := p\<rparr>) = load_cv cv s"
  by (rule load_cv_cong) simp_all

lemma cv_calls_queue:
  assumes "cv_ok (load_cv cv s)" and "length (waiters cv s) + length (waits cs) \<le> MAX_THREADS s"
    and "\<And>i. Wait i \<in> set cs \<Longrightarrow> t_id (thread_at s i) = int i \<and> int32 (int i)"
  shows "cq.run (map cv_cmd cs) (load_cv cv s) =
    (waits cs, fst (cv_calls cv cs s), load_cv cv (snd (cv_calls cv cs s)))"
  using assms
proof (induction cs arbitrary: s)
  case Nil
  then show ?case by simp
next
  case (Cons c cs)
  show ?case
  proof (cases c)
    case (Wait i)
    let ?s = "s\<lparr>current_thread := Some i\<rparr>"
    let ?s1 = "cv_enqueue cv ?s"
    have id: "k_get_thread_id ?s = int i" "int32 (int i)"
      using Cons.prems(3) [of i] Wait by (simp_all add: k_get_thread_id_def)
    have room: "length (cv_list (load_cv cv s)) < length (cv_waiting (load_cv cv s))"
      using Cons.prems(2) Wait by (simp add: waiters_def)
    then have nf: "\<not> cv_full (load_cv cv s)" using cv_room [OF Cons.prems(1)] by blast
    have l: "load_cv cv ?s1 = cv_enq (int i) (load_cv cv s)"
      using load_cv_enqueue [of cv ?s] Cons.prems(1) id by simp
    have ok: "cv_ok (load_cv cv ?s1)" "length (waiters cv ?s1) = Suc (length (waiters cv s))"
      unfolding waiters_def l using cv_enq_ok [OF Cons.prems(1) nf] by simp_all
    have "cq.run (map cv_cmd cs) (load_cv cv ?s1) =
        (waits cs, fst (cv_calls cv cs ?s1), load_cv cv (snd (cv_calls cv cs ?s1)))"
      using Cons.prems Wait ok(2) by (intro Cons.IH ok(1)) (auto simp: MAX_THREADS_def)
    with room Wait l show ?thesis by simp
  next
    case Signal
    let ?s1 = "snd (k_signal cv s)"
    note sig = k_signal_queue [OF Cons.prems(1)] and thr = k_signal_threads [OF Cons.prems(1)]
    have ids: "t_id (thread_at ?s1 i) = t_id (thread_at s i)" for i
      unfolding thr(1) by (simp add: woken_thread_def)
    have IH: "cq.run (map cv_cmd cs) (load_cv cv ?s1) =
        (waits cs, fst (cv_calls cv cs ?s1), load_cv cv (snd (cv_calls cv cs ?s1)))"
      using Cons.prems Signal sig(3) thr(2)
      by (intro Cons.IH sig(4)) (auto simp: MAX_THREADS_def ids)
    show ?thesis
    proof (cases "waiters cv s = []")
      case True
      then have "k_signal cv s = (False, s)" using sig(1) by simp
      with IH True Signal show ?thesis by (simp add: waiters_def)
    next
      case False
      then have k: "k_signal cv s = (True, ?s1)" and l: "load_cv cv ?s1 = cv_deq (load_cv cv s)"
        using sig(1,2) by simp_all
      have "get_waiting cv (get_first cv s) s = cv_front (load_cv cv s)"
        using load_cv_front [of cv s] Cons.prems(1) by (simp add: cv_ok_def ring_ok_def)
      moreover obtain w s2 where "cv_calls cv cs ?s1 = (w, s2)" by (cases "cv_calls cv cs ?s1")
      moreover have "cv_calls cv (Signal # cs) s = (let (w, s'') = cv_calls cv cs ?s1
          in (get_waiting cv (get_first cv s) s # w, s''))"
        by (subst cv_calls.simps, subst k) simp
      ultimately show ?thesis using IH False Signal l by (simp add: waiters_def)
    qed
  qed
qed

section \<open>Properties\<close>


text \<open>A signal wakes the thread that has waited longest and no other, and takes it off the list; it
  returns false and changes nothing when nobody waits.\<close>

theorem signal_wakes_first:
  assumes "cv_ok (load_cv cv s)" and "cv \<noteq> NULL"
  shows "\<exists>s'. k_condition_variable CONDITION_VARIABLE_SIGNAL cv s = Ret (waiters cv s \<noteq> []) s' \<and>
    waiters cv s' = tl (waiters cv s) \<and> (waiters cv s = [] \<longrightarrow> s' = s) \<and>
    (\<forall>j. thread_at s' j = (if is_valid_thread (int j) s \<and> waiters cv s \<noteq> [] \<and> int j = hd (waiters cv s)
      then (thread_at s j)\<lparr>t_state := suspended\<rparr> else thread_at s j))"
proof -
  note sig = k_signal_queue [OF assms(1)]
  have "thread_at (snd (k_signal cv s)) j = (if is_valid_thread (int j) s \<and> waiters cv s \<noteq> [] \<and> int j = hd (waiters cv s)
      then (thread_at s j)\<lparr>t_state := suspended\<rparr> else thread_at s j)" for j
    unfolding k_signal_threads(1) [OF assms(1)] by (cases "waiters cv s") (auto simp: woken_thread_def)
  then show ?thesis
    using sig(1,3) assms(2) by (simp add: k_condition_variable_def cv_ops split_beta)
qed

text \<open>A broadcast ends, and wakes exactly the threads that wait; afterwards nobody waits.\<close>

theorem broadcast_wakes_all:
  assumes "cv_ok (load_cv cv s)" and "cv \<noteq> NULL"
  shows "\<exists>s'. k_condition_variable CONDITION_VARIABLE_BROADCAST cv s = Ret True s' \<and> waiters cv s' = [] \<and>
    (\<forall>j. thread_at s' j = (if is_valid_thread (int j) s \<and> int j \<in> set (waiters cv s)
      then (thread_at s j)\<lparr>t_state := suspended\<rparr> else thread_at s j))"
  using broadcast_loop_wakes [OF assms(1)] assms(2)
  by (auto simp: k_condition_variable_def cv_ops k_broadcast_def woken_thread_def fun_eq_iff)

text \<open>A thread that waits goes to the end of the list and into the state waiting before the scheduler
  picks another thread; the call returns true.\<close>

theorem wait_joins_queue:
  assumes "cv_ok (load_cv cv s)" and "\<not> get_full cv s" and "cv \<noteq> NULL"
    and "current_thread s = Some c" and "int32 (k_get_thread_id s)"
  shows "\<exists>s1. k_condition_variable CONDITION_VARIABLE_WAIT cv s = obind (do_scheduler s1) (\<lambda>_ s. Ret True s) \<and>
    waiters cv s1 = waiters cv s @ [k_get_thread_id s] \<and> s1 = upd_thread c (\<lambda>t. t\<lparr>t_state := waiting\<rparr>) (cv_enqueue cv s)"
proof -
  have "load_cv cv (upd_thread c (\<lambda>t. t\<lparr>t_state := waiting\<rparr>) (cv_enqueue cv s)) = cv_enq (k_get_thread_id s) (load_cv cv s)"
    using load_cv_enqueue [OF assms(1,5)] load_cv_cong [of "upd_thread c (\<lambda>t. t\<lparr>t_state := waiting\<rparr>) (cv_enqueue cv s)" "cv_enqueue cv s"]
    by simp
  then show ?thesis
    using assms cv_enq_ok(1) [OF assms(1)]
    by (simp add: k_condition_variable_def cv_ops k_wait_enqueue k_thread_wait_def on_current_def waiters_def)
qed

text \<open>The code does not check whether the list is full: a wait on a full condition variable makes all
  the threads that were waiting unreachable for signals, only the new one is still found.\<close>

theorem wait_when_full_forgets:
  assumes "cv_ok (load_cv cv s)" and "get_full cv s" and "1 < MAX_THREADS s" and "int32 (k_get_thread_id s)"
  shows "length (waiters cv s) = MAX_THREADS s \<and> waiters cv (cv_enqueue cv s) = [k_get_thread_id s]"
proof -
  let ?c = "load_cv cv s"
  have ok: "unat (get_last cv s) < MAX_THREADS s" "get_first cv s = get_last cv s"
    using assms(1,2) by (auto simp: cv_ok_def ring_ok_def word_unat_eq_iff)
  have n: "unat (cv_next ?c (get_last cv s)) = Suc (unat (get_last cv s)) mod MAX_THREADS s"
    using unat_cv_next [of ?c "get_last cv s"] assms(1) ok by (simp add: cv_ok_def)
  have ne: "get_last cv s \<noteq> cv_next ?c (get_last cv s)"
    using n ok assms(3) by (metis mod_Suc_eq mod_less n_not_Suc_n Suc_lessI mod_self not_less_eq less_one One_nat_def)
  have "ring_count (MAX_THREADS s) (unat (get_last cv s)) (unat (cv_next ?c (get_last cv s))) False = 1"
    using ok assms(3) unfolding n by (auto simp: ring_count_def Suc_mod_if)
  then have "waiters cv (cv_enqueue cv s) = [k_get_thread_id s]"
    using ok ne by (simp add: waiters_def load_cv_enqueue [OF assms(1,4)] cv_enq_def cv_list_def ring_list_def)
  moreover have "length (waiters cv s) = MAX_THREADS s"
    using assms(2) by (simp add: waiters_def cv_list_def ring_count_def)
  ultimately show ?thesis by simp
qed

section \<open>Properties at a concrete condition variable\<close>

lemma demo_cv:
  "load_cv cv demo_state = \<lparr>cv_waiting = [0, 0, 0], cv_first = 0, cv_last = 0, cv_full = False\<rparr>"
  by (simp add: load_cv_def get_waiting_def get_first_def get_last_def get_full_def upt_rec)

lemma demo_cv_ok: "cv_ok (load_cv cv demo_state)" and demo_waiters: "waiters cv demo_state = []"
  by (simp_all add: demo_cv waiters_def cv_ok_def cv_list_def ring_ok_def ring_list_def ring_count_def)

lemma demo_not_full [simp]: "\<not> get_full cv demo_state"
  by (simp add: get_full_def)

lemma demo_one_waiter:
  "cv_ok (load_cv cv (cv_enqueue cv demo_state))" "waiters cv (cv_enqueue cv demo_state) = [0]"
  using load_cv_enqueue [OF demo_cv_ok [of cv]] cv_enq_ok [OF demo_cv_ok [of cv]] demo_waiters [of cv]
  by (simp_all add: int32_def waiters_def)


theorem signal_wakes_first_witness:
  "\<exists>s'. k_condition_variable CONDITION_VARIABLE_SIGNAL 0x100 (cv_enqueue 0x100 demo_state) = Ret True s' \<and>
     waiters 0x100 s' = [] \<and> t_state (thread_at s' 0) = suspended"
proof -
  have "is_valid_thread 0 (cv_enqueue 0x100 demo_state)"
    using demo_valid(1) by (simp add: is_valid_thread_def MAX_THREADS_def)
  then show ?thesis
    using signal_wakes_first [of "0x100" "cv_enqueue 0x100 demo_state"] demo_one_waiter [of "0x100"] by auto
qed

theorem broadcast_wakes_all_witness:
  "\<exists>s'. k_condition_variable CONDITION_VARIABLE_BROADCAST 0x100 (cv_enqueue 0x100 demo_state) = Ret True s' \<and>
     waiters 0x100 s' = []"
  using broadcast_wakes_all [of "0x100" "cv_enqueue 0x100 demo_state"] demo_one_waiter [of "0x100"] by auto

theorem wait_joins_queue_witness:
  "\<exists>s1. k_condition_variable CONDITION_VARIABLE_WAIT 0x100 demo_state = obind (do_scheduler s1) (\<lambda>_ s. Ret True s) \<and>
     waiters 0x100 s1 = [0]"
proof -
  have "\<not> get_full 0x100 demo_state" by (simp add: get_full_def)
  then show ?thesis
    using wait_joins_queue [of "0x100" demo_state 0] demo_cv_ok [of "0x100"] demo_waiters [of "0x100"]
    by (auto simp: int32_def)
qed

theorem wait_when_full_witness:
  "waiters 0x100 (cv_enqueue 0x100 (set_full 0x100 True demo_state)) = [0]"
proof -
  let ?s = "set_full 0x100 True demo_state"
  have l: "load_cv 0x100 ?s = \<lparr>cv_waiting = [0, 0, 0], cv_first = 0, cv_last = 0, cv_full = True\<rparr>"
    by (simp add: load_cv_set demo_cv)
  then have "cv_ok (load_cv 0x100 ?s)" by (simp add: cv_ok_def ring_ok_def)
  moreover have "get_full 0x100 ?s"
    by (simp add: get_full_def set_full_def cv_full_at_def MAX_THREADS_def)
  moreover have "k_get_thread_id ?s = 0" "MAX_THREADS ?s = 3"
    by (simp_all add: k_get_thread_id_def MAX_THREADS_def set_full_def)
  ultimately show ?thesis
    using wait_when_full_forgets [of "0x100" ?s] by (simp add: int32_def)
qed

end
