(* ===== verification/Boot.thy ===== *)
theory Boot
  imports Machine Demo
begin

text \<open>
  Starting the system: the boot code ends in the first thread, and from there on the invariant of
  the kernel holds in every state the machine can reach.
\<close>

section \<open>Frame facts\<close>

lemma do_scheduler_work:
  assumes "kinv s" and "next_thread s = None" and "do_scheduler s = Ret u s'"
  shows "t_work (thread_at s' j) = t_work (thread_at s j) \<and> t_name (thread_at s' j) = t_name (thread_at s j) \<and>
    t_args (thread_at s' j) = t_args (thread_at s j)"
proof -
  obtain n s1 where pick: "pick_next s = Ret n s1"
    using assms(3) by (auto simp: do_scheduler_def obind_eq_Ret)
  note p = pick_next_Ret [OF assms(1) pick]
  obtain m where m: "do_scheduler s =
      Ret () (k_update_user_thread_info n (check_signals n (set_memory m (switch_states n s1))))"
    using do_scheduler_from [OF p(1) pick p(2,3)] by blast
  let ?s2 = "check_signals n (set_memory m (switch_states n s1))"
  have s': "s' = k_update_user_thread_info n ?s2" using m assms(3) by simp
  obtain e where e: "thread_at s' j = (thread_at ?s2 j)\<lparr>t_err_no := e\<rparr>"
    using update_info_thread [of n ?s2 j] s' by auto
  obtain sp ps where sp: "thread_at ?s2 j = (thread_at (switch_states n s1) j)\<lparr>t_stack_ptr := sp, t_pending_signals := ps\<rparr> \<or>
      thread_at ?s2 j = thread_at (switch_states n s1) j"
    using thread_at_check_signals [of n "set_memory m (switch_states n s1)" j] by (auto split: if_splits)
  have "t_work (thread_at (switch_states n s1) j) = t_work (thread_at s1 j) \<and>
      t_name (thread_at (switch_states n s1) j) = t_name (thread_at s1 j) \<and>
      t_args (thread_at (switch_states n s1) j) = t_args (thread_at s1 j)"
    by (auto simp: switch_states_def Let_def thread_at_upd split: option.split)
  then show ?thesis using e sp p(4) by auto
qed

definition same_kernel :: "kstate \<Rightarrow> kstate \<Rightarrow> bool" where
  "same_kernel s s' \<longleftrightarrow> all_threads s' = all_threads s \<and> current_thread s' = current_thread s \<and>
     next_thread s' = next_thread s \<and> block_tags s' = block_tags s \<and> backing_refs s' = backing_refs s \<and>
     build s' = build s"

lemma same_kernel_trans: "same_kernel s s1 \<Longrightarrow> same_kernel s1 s2 \<Longrightarrow> same_kernel s s2"
  by (simp add: same_kernel_def)

lemma same_kernel_simps [simp]:
  "same_kernel s s" "same_kernel s (set_memory m s1) = same_kernel s s1"
  "same_kernel s (set_errno e s1) = same_kernel s s1" "same_kernel s (s1\<lparr>host_calls := c\<rparr>) = same_kernel s s1"
  by (simp_all add: same_kernel_def)

lemma same_kernel_host: "same_kernel s (snd (generic_semihosting_call h op ps s))"
  by (simp add: generic_semihosting_call_def Let_def split_beta)

lemma same_kernel_files:
  "k_open h p f s = Ret r s' \<Longrightarrow> same_kernel s s'"
  "k_read h fd p n s = Ret r s' \<Longrightarrow> same_kernel s s'"
  "k_close h fd s = Ret r s' \<Longrightarrow> same_kernel s s'"
  using same_kernel_host
  by (auto simp: k_open_def k_read_def k_close_def need_file_def split_beta split: if_splits option.splits)

lemma same_kernel_features:
  assumes "k_host_supports_open_stdout h s = Ret b s'"
  shows "same_kernel s s'"
  using assms unfolding k_host_supports_open_stdout_def Let_def
  by (auto simp: obind_eq_Ret same_kernel_def split: if_splits dest!: same_kernel_files [unfolded same_kernel_def])

lemma same_kernel_isatty:
  assumes "k_stdout_isatty h s = Ret b s'"
  shows "same_kernel s s'"
  using assms same_kernel_host unfolding k_stdout_isatty_def
  by (auto simp: obind_eq_Ret k_isatty_def split_beta same_kernel_def split: if_splits
      dest!: same_kernel_features [unfolded same_kernel_def] same_kernel_files [unfolded same_kernel_def])

section \<open>The first thread\<close>

lemma booted_threads:
  assumes "boot_config b (length stacks) pages" and "j < length stacks"
  shows "t_id (thread_at (init_threads (reset_state b stacks pages m)) j) = INVALID_THREAD"
proof -
  let ?s = "reset_state b stacks pages m"
  have j: "j < MAX_THREADS ?s" using assms(2) by (simp add: reset_state_def MAX_THREADS_def)
  obtain s2 where "thread_at (init_threads ?s) j =
      fresh_thread s2 INVALID_THREAD None NULL (\<lambda>_. no_args) TPERM_NONE (thread_at ?s j)"
    using init_threads_fold [OF refl order_refl, of ?s, folded init_threads_def, unfolded Let_def] j by blast
  then show ?thesis by (simp add: fresh_thread_def)
qed

lemma init_threads_frame:
  "length (all_threads (init_threads (reset_state b stacks pages m))) = length stacks"
  "build (init_threads (reset_state b stacks pages m)) = b"
  "block_tags (init_threads (reset_state b stacks pages m)) = replicate NUM_BLOCKS \<lparr>bt_tid = 0, bt_tag = 0\<rparr>"
  using init_threads_fold [OF refl order_refl, of "reset_state b stacks pages m", folded init_threads_def, unfolded Let_def]
  by (simp_all add: reset_state_def MAX_THREADS_def)

lemma start_builtin:
  assumes "sane s" and "current_thread s = None" and "slot_free (thread_at s 0)"
  shows "start_program None s = Ret () (init_thread 0 0 None (b_setup (build s)) (\<lambda>_. no_args) TPERM_ALL s)"
proof -
  have "0 < MAX_THREADS s" using kinvD(1) [of s] assms(1) by (simp add: sane_def config_ok_def)
  then have "find (\<lambda>idx. slot_free (thread_at s idx)) [0..<MAX_THREADS s] = Some 0"
    using assms(3) by (simp add: find_Some_upt)
  then show ?thesis
    using assms(2) by (simp add: start_program_def k_add_named_thread_with_args_def Let_def setup_code_page_def)
qed

lemma boot_runs:
  assumes "boot_config b (length stacks) pages"
    and "k_stdout_isatty h (init_threads (reset_state b stacks pages m)) = Ret tty s1"
  shows "\<exists>s. entry h None (reset_state b stacks pages m) = Ret () s \<and> user_mode s \<and>
    current_thread s = Some 0 \<and> t_state (thread_at s 0) = running \<and> t_id (thread_at s 0) = 0 \<and>
    t_work (thread_at s 0) = b_setup b \<and> t_permissions (thread_at s 0) = TPERM_ALL \<and>
    (\<forall>i < length stacks. 0 < i \<longrightarrow> \<not> is_valid_thread (int i) s)"
proof -
  let ?s0 = "init_threads (reset_state b stacks pages m)"
  let ?s2 = "if tty then s1\<lparr>kernel_config := kernel_config s1 OR KCFG_COLOUR_OUTPUT\<rparr> else s1"
  let ?s3 = "init_thread 0 0 None (b_setup b) (\<lambda>_. no_args) TPERM_ALL ?s2"
  have k: "all_threads ?s2 = all_threads ?s0" "current_thread ?s2 = None" "next_thread ?s2 = None" "build ?s2 = b"
    using same_kernel_isatty [OF assms(2)] init_threads_sane [OF assms(1), of m] init_threads_frame
    by (auto simp: same_kernel_def entered_def)
  have "sane s1"
    using stdout_isatty_keeps [of ?s0 h] init_threads_sane [OF assms(1)] assms(2) by (simp add: entered_def keeps_def)
  then have s2: "sane ?s2" using sane_cong [of "s1\<lparr>kernel_config := kernel_config s1 OR KCFG_COLOUR_OUTPUT\<rparr>" s1] by simp
  have pos: "0 < length stacks" using assms(1) by (simp add: boot_config_def)
  have free: "slot_free (thread_at ?s2 0)"
    using booted_threads [OF assms(1) pos] k(1) by (simp add: slot_free_def)
  have start: "start_program None ?s2 = Ret () ?s3"
    using start_builtin [OF s2 k(2) free] unfolding k(4) .
  then have s3: "sane ?s3" using start_program_keeps [OF s2, of None] by simp
  have th: "thread_at ?s3 j = (if j = 0 then fresh_thread ?s2 0 None (b_setup b) (\<lambda>_. no_args) TPERM_ALL (thread_at ?s2 0)
      else thread_at ?s2 j)" for j
    using pos k(1) init_threads_frame(1) by (auto simp: thread_at_init_thread)
  have len: "MAX_THREADS ?s3 = length stacks" using k(1) init_threads_frame(1) by (simp add: MAX_THREADS_def)
  have sched: "can_schedule_thread 0 ?s3"
    using pos len th [of 0] by (simp add: can_schedule_thread_def is_valid_thread_def fresh_thread_def INVALID_THREAD_def)
  have n3: "next_thread ?s3 = None" "current_thread ?s3 = None" using k by simp_all
  have first: "first_from (next_possible_thread_idx (current_thread ?s3) ?s3) ?s3 = Some 0"
    using first_from_here [OF sched] n3(2) by (simp add: next_possible_thread_idx_def)
  have kinv3: "kinv ?s3" using s3 by (simp add: sane_def)
  obtain s4 where s4: "do_scheduler ?s3 = Ret () s4" using do_scheduler_runs [OF kinv3 n3(1) first] by blast
  let ?s = "s4\<lparr>current_thread := next_thread s4, next_thread := None\<rparr>"
  have entry: "entry h None (reset_state b stacks pages m) = Ret () ?s"
    using assms(2) start s4 n3(1) by (simp add: entry_def load_next_thread_def)
  show ?thesis
  proof (rule do_scheduler_Ret [OF kinv3 n3(1) s4])
    fix n
    assume n: "first_from (next_possible_thread_idx (current_thread ?s3) ?s3) ?s3 = Some n"
      "next_thread s4 = Some n" "n < MAX_THREADS ?s3"
      and st: "\<And>j. j < MAX_THREADS ?s3 \<Longrightarrow> t_state (thread_at s4 j) =
        (if j = n then running
         else if current_thread ?s3 = Some j \<and> t_state (thread_at ?s3 j) = running then suspended
         else t_state (thread_at ?s3 j))"
      and fr: "\<And>j. t_id (thread_at s4 j) = t_id (thread_at ?s3 j) \<and> t_child (thread_at s4 j) = t_child (thread_at ?s3 j) \<and>
        t_parent (thread_at s4 j) = t_parent (thread_at ?s3 j) \<and>
        t_permissions (thread_at s4 j) = t_permissions (thread_at ?s3 j)"
      and len4: "MAX_THREADS s4 = MAX_THREADS ?s3"
    have n0: "n = 0" using n(1) first by simp
    have "t_work (thread_at s4 0) = b_setup b"
      using do_scheduler_work [OF kinv3 n3(1) s4, of 0] th [of 0] by (simp add: fresh_thread_def)
    moreover have "t_id (thread_at s4 0) = 0" "t_permissions (thread_at s4 0) = TPERM_ALL"
      using fr [of 0] th [of 0] by (simp_all add: fresh_thread_def)
    moreover have "\<not> is_valid_thread (int i) ?s" if "i < length stacks" "0 < i" for i
      using fr [of i] th [of i] that booted_threads [OF assms(1) that(1)] k(1)
      by (simp add: is_valid_thread_int MAX_THREADS_def)
    moreover have "user_mode ?s" using entry_user_mode [OF assms(1), of h None m] entry by simp
    ultimately show ?thesis using entry n(2) n0 st [of 0] n(3) by auto
  qed
qed

text \<open>The system starts: from a zeroed kernel state, once the host has said whether the output is a
  terminal, the boot code returns into user mode with the first thread running the built in setup
  function with every permission, no other thread existing and nothing allocated.\<close>

theorem boot_runs_setup:
  assumes "boot_config b (length stacks) pages"
    and "k_stdout_isatty h (init_threads (reset_state b stacks pages m)) = Ret tty s1"
  shows "\<exists>s. entry h None (reset_state b stacks pages m) = Ret () s \<and> user_mode s \<and>
    current_thread s = Some 0 \<and> t_state (thread_at s 0) = running \<and> t_id (thread_at s 0) = 0 \<and>
    t_work (thread_at s 0) = b_setup b \<and> t_permissions (thread_at s 0) = TPERM_ALL \<and>
    (\<forall>i < length stacks. 0 < i \<longrightarrow> \<not> is_valid_thread (int i) s)"
  using boot_runs [OF assms] .

text \<open>C12: In every state the running system can reach, whatever the threads do: the current thread
  exists and nobody is waiting to be switched to; a thread's id is its position in the table or
  the thread does not exist; at most the current thread is marked as running; the message buffers
  and names of all threads and the tags of the heap are well formed.\<close>

theorem system_invariant:
  assumes "boot_config b (length stacks) pages" and "reachable h prog (reset_state b stacks pages m) s"
  shows "(\<exists>c < MAX_THREADS s. current_thread s = Some c) \<and> next_thread s = None \<and>
    (\<forall>i < MAX_THREADS s. (t_id (thread_at s i) = int i \<or> t_id (thread_at s i) = INVALID_THREAD) \<and>
       thread_ok (thread_at s i) \<and> (t_state (thread_at s i) = running \<longrightarrow> current_thread s = Some i)) \<and>
    heap_ok (block_tags s)"
proof -
  have u: "user_mode s" using reachable_user_mode [OF assms(2,1)] .
  then have k: "kinv s" by (simp add: user_mode_def)
  obtain c where "current_thread s = Some c" using u by (auto simp: user_mode_def)
  moreover from this have "c < MAX_THREADS s" using kinv_current [OF k] by blast
  ultimately show ?thesis
    using u kinvD(4) [OF k] kinvD(5) [OF k] by (auto simp: user_mode_def running_is_def thread_inv_def)
qed

section \<open>A concrete boot\<close>

text \<open>One thread, no code pages, and a host that supports nothing.\<close>

lemma init_thread_memory:
  assumes "i < length (all_threads s)"
  shows "memory (init_thread i tid name work args perms s) =
    store_bytes (memory s) (ALIGN_STACK_PTR (t_stack (thread_at s i) + THREAD_STACK_SIZE) - 64) (fresh_context (build s))"
proof -
  have "t_stack (k_set_thread_name name t) = t_stack t" for t
    by (simp add: k_set_thread_name_def split: option.split)
  then show ?thesis
    using assms by (simp add: init_thread_def Let_def init_register_context_memory thread_at_upd)
qed

definition demo_host :: host where
  "demo_host calls m = (- 1, m)"

definition demo_reset :: kstate where
  "demo_reset = reset_state demo_build [0x10000] 0 (\<lambda>_. 0)"

lemma demo_boot_config: "boot_config demo_build (length [0x10000 :: size_t]) 0"
  by (simp add: boot_config_def heap_region_def heap_consts)

lemma no_host_isatty:
  assumes "strlen (memory s) (b_literal (build s) '':semihosting-features'') = Some len"
    and "current_thread s = None"
  shows "\<exists>s'. k_stdout_isatty demo_host s = Ret False s'"
  using assms
  by (simp add: k_stdout_isatty_def k_host_supports_open_stdout_def k_open_def need_file_def
      k_has_no_permission_def generic_semihosting_call_def demo_host_def)

lemma demo_isatty: "\<exists>s1. k_stdout_isatty demo_host (init_threads demo_reset) = Ret False s1"
proof (rule no_host_isatty)
  have "memory (init_threads demo_reset) =
      store_bytes (\<lambda>_. 0) (ALIGN_STACK_PTR (0x10000 + THREAD_STACK_SIZE) - 64) (fresh_context demo_build)"
    by (simp add: init_threads_def demo_reset_def reset_state_def MAX_THREADS_def init_thread_memory)
  then have "memory (init_threads demo_reset) 0x9000 = 0"
    by (simp add: store_bytes_def ALIGN_STACK_PTR_def THREAD_STACK_SIZE_def)
  then have "strlen (memory (init_threads demo_reset)) 0x9000 = Some (of_nat (length ([] :: byte list)))"
    by (intro strlen_cstr) (simp add: cstr_Nil)
  moreover have "build (init_threads demo_reset) = demo_build"
    unfolding demo_reset_def by (rule init_threads_frame)
  ultimately show "strlen (memory (init_threads demo_reset)) (b_literal (build (init_threads demo_reset)) '':semihosting-features'') = Some 0"
    by (simp add: demo_build_def)
  show "current_thread (init_threads demo_reset) = None"
    unfolding demo_reset_def by (rule init_threads_sane(2) [OF demo_boot_config])
qed

theorem boot_runs_setup_witness:
  "\<exists>s. entry demo_host None demo_reset = Ret () s \<and> current_thread s = Some 0 \<and> t_work (thread_at s 0) = 0x8300"
proof -
  obtain s1 where "k_stdout_isatty demo_host (init_threads demo_reset) = Ret False s1" using demo_isatty by blast
  from boot_runs_setup [OF demo_boot_config this [unfolded demo_reset_def]] show ?thesis
    by (auto simp: demo_reset_def demo_build_def)
qed

lemma demo_boots: "\<exists>s. entry demo_host None demo_reset = Ret () s"
proof -
  obtain s1 where "k_stdout_isatty demo_host (init_threads demo_reset) = Ret False s1" using demo_isatty by blast
  from boot_runs [OF demo_boot_config this [unfolded demo_reset_def]] show ?thesis
    by (auto simp: demo_reset_def)
qed

theorem system_invariant_witness:
  "\<exists>s. reachable demo_host None demo_reset s \<and> next_thread s = None"
proof -
  obtain s where s: "entry demo_host None demo_reset = Ret () s" using demo_boots by blast
  then have "reachable demo_host None demo_reset s" by (rule reach_boot)
  then show ?thesis using system_invariant [OF demo_boot_config] unfolding demo_reset_def by blast
qed

end
