(* ===== verification/Lifecycle.thy ===== *)
theory Lifecycle
  imports Boot
begin

text \<open>
  The life of a thread: what creation gives it, restarting, yielding to it, waking it, cancelling it,
  and what happens to its heap and code page at the end.
\<close>

section \<open>Creation\<close>

lemma setup_code_page_Ret:
  assumes "sane s"
  obtains s' x y where "setup_code_page i s = Ret () s'"
    and "\<And>j. thread_at s' j = (if j = i \<and> i < length (all_threads s)
      then (thread_at s i)\<lparr>t_code_backing_page := x, t_in_code_page := y\<rparr> else thread_at s j)"
    and "memory s' = memory s" and "block_tags s' = block_tags s"
    and "length (all_threads s') = length (all_threads s)"
proof -
  let ?t = "thread_at s i"
  have id: "t = t\<lparr>t_code_backing_page := t_code_backing_page t, t_in_code_page := t_in_code_page t\<rparr>" for t :: Thread
    by simp
  note result = that
  have same: thesis if *: "setup_code_page i s = Ret () s"
    by (rule result [OF *, where x = "t_code_backing_page ?t" and y = "t_in_code_page ?t"]) simp_all
  show thesis
  proof (cases "current_thread s")
    case None
    then show ?thesis by (intro same) (simp add: setup_code_page_def)
  next
    case (Some c)
    let ?page = "t_code_backing_page (thread_at s c)"
    have c: "c < MAX_THREADS s" "kinv s" using kinv_current Some assms by (auto simp: sane_def)
    consider "0 < CODE_BACKING_PAGES s" "?page \<noteq> INVALID_PAGE" | "0 < CODE_BACKING_PAGES s" "?page = INVALID_PAGE"
      | "CODE_BACKING_PAGES s = 0" "t_in_code_page (thread_at s c)" | "CODE_BACKING_PAGES s = 0" "\<not> t_in_code_page (thread_at s c)"
      by auto
    then show ?thesis
    proof cases
      case 1
      let ?s = "inc_ref ?page (upd_thread i (\<lambda>t. t\<lparr>t_code_backing_page := ?page\<rparr>) s)"
      have "setup_code_page i s = Ret () ?s"
        using 1 Some kinv_page [OF c(2,1)] by (simp add: setup_code_page_def Let_def)
      then show ?thesis
        by (rule that [where s' = ?s and x = ?page and y = "t_in_code_page ?t"]) (auto simp: thread_at_upd inc_ref_def)
    next
      case 3
      let ?s = "upd_thread i (\<lambda>t. t\<lparr>t_in_code_page := True\<rparr>) s"
      have "setup_code_page i s = Ret () ?s" using 3 Some by (simp add: setup_code_page_def)
      then show ?thesis
        by (rule that [where s' = ?s and x = "t_code_backing_page ?t" and y = True]) (auto simp: thread_at_upd)
    qed (use Some in \<open>auto intro!: same simp: setup_code_page_def\<close>)
  qed
qed

text \<open>The new thread, whatever becomes of its code page.\<close>

definition created :: "nat \<Rightarrow> byte list option \<Rightarrow> size_t \<Rightarrow> ThreadArgs \<Rightarrow> u16 \<Rightarrow> kstate \<Rightarrow> kstate \<Rightarrow> bool" where
  "created i name work args perms s s' \<longleftrightarrow>
     (let t = thread_at s' i in
      t_id t = int i \<and> t_state t = init \<and> t_work t = work \<and> t_args t = args \<and> t_permissions t = perms \<and>
      t_name t = t_name (k_set_thread_name name (thread_at s i)) \<and>
      msgs t = [] \<and> t_pending_signals t = 0 \<and> t_signal_handler t = NULL \<and>
      t_parent t = INVALID_THREAD \<and> t_child t = INVALID_THREAD \<and> t_err_no t = 0 \<and>
      t_stack t = t_stack (thread_at s i) \<and>
      t_stack_ptr t = ALIGN_STACK_PTR (t_stack t + THREAD_STACK_SIZE) - REGISTER_CONTEXT_SIZE \<and>
      memory s' = store_bytes (memory s) (t_stack_ptr t) (fresh_context (build s)) \<and>
      (\<forall>j. j \<noteq> i \<longrightarrow> thread_at s' j = thread_at s j) \<and>
      block_tags s' = block_tags s \<and> length (all_threads s') = length (all_threads s))"

lemma fresh_thread_fields:
  "t_id (fresh_thread s tid name work args perms t) = tid"
  "t_state (fresh_thread s tid name work args perms t) = init"
  "t_work (fresh_thread s tid name work args perms t) = work"
  "t_args (fresh_thread s tid name work args perms t) = args (memory s)"
  "t_permissions (fresh_thread s tid name work args perms t) = perms"
  "t_name (fresh_thread s tid name work args perms t) = t_name (k_set_thread_name name t)"
  "t_pending_signals (fresh_thread s tid name work args perms t) = 0"
  "t_signal_handler (fresh_thread s tid name work args perms t) = NULL"
  "t_parent (fresh_thread s tid name work args perms t) = INVALID_THREAD"
  "t_child (fresh_thread s tid name work args perms t) = INVALID_THREAD"
  "t_err_no (fresh_thread s tid name work args perms t) = 0"
  "t_stack (fresh_thread s tid name work args perms t) = t_stack t"
  "t_stack_ptr (fresh_thread s tid name work args perms t) =
     ALIGN_STACK_PTR (t_stack t + THREAD_STACK_SIZE) - REGISTER_CONTEXT_SIZE"
  "t_next_msg (fresh_thread s tid name work args perms t) = 0"
  "t_end_msgs (fresh_thread s tid name work args perms t) = 0"
  "t_msgs_full (fresh_thread s tid name work args perms t) = False"
  by (simp_all add: fresh_thread_def k_set_thread_name_def split: option.split)

lemma add_named_created:
  assumes "sane s" and "i < MAX_THREADS s" and "slot_free (thread_at s i)" and "\<forall>j < i. \<not> slot_free (thread_at s j)"
  shows "\<exists>s'. k_add_named_thread_with_args worker name args rp s = Ret (int i) s' \<and>
    created i name worker (args (memory s))
      ((case current_thread s of Some c \<Rightarrow> t_permissions (thread_at s c) | None \<Rightarrow> TPERM_ALL) AND NOT rp) s s'"
proof -
  let ?perms = "(case current_thread s of Some c \<Rightarrow> t_permissions (thread_at s c) | None \<Rightarrow> TPERM_ALL) AND NOT rp"
  let ?s1 = "init_thread i (int i) name worker args ?perms s"
  have find: "find (\<lambda>idx. slot_free (thread_at s idx)) [0..<MAX_THREADS s] = Some i"
    using assms by (simp add: find_Some_upt)
  have i: "i < length (all_threads s)" using assms(2) by (simp add: MAX_THREADS_def)
  have s1: "sane ?s1" using init_thread_sane [OF assms(1)] by simp
  have th1: "thread_at ?s1 j = (if j = i then fresh_thread s (int i) name worker args ?perms (thread_at s i) else thread_at s j)" for j
    using i by (auto simp: thread_at_init_thread)
  have m1: "memory ?s1 = store_bytes (memory s)
      (ALIGN_STACK_PTR (t_stack (thread_at s i) + THREAD_STACK_SIZE) - REGISTER_CONTEXT_SIZE) (fresh_context (build s))"
    using init_thread_memory [OF i] by (simp add: REGISTER_CONTEXT_SIZE_def)
  obtain s' x y where s': "obind (if CODE_PAGE_SIZE ?s1 = 0 then Ret () ?s1 else setup_code_page i ?s1) (\<lambda>_ s. Ret (int i) s) = Ret (int i) s'"
    and th: "\<And>j. thread_at s' j = (if j = i
      then (thread_at ?s1 i)\<lparr>t_code_backing_page := x, t_in_code_page := y\<rparr> else thread_at ?s1 j)"
    and rest: "memory s' = memory ?s1" "block_tags s' = block_tags ?s1" "length (all_threads s') = length (all_threads ?s1)"
  proof (cases "CODE_PAGE_SIZE ?s1 = 0")
    case True
    then show ?thesis
      by (intro that [where s' = ?s1 and x = "t_code_backing_page (thread_at ?s1 i)" and y = "t_in_code_page (thread_at ?s1 i)"]) simp_all
  next
    case False
    show ?thesis
    proof (rule setup_code_page_Ret [OF s1, of i])
      fix s' x y
      assume *: "setup_code_page i ?s1 = Ret () s'"
        "\<And>j. thread_at s' j = (if j = i \<and> i < length (all_threads ?s1)
          then (thread_at ?s1 i)\<lparr>t_code_backing_page := x, t_in_code_page := y\<rparr> else thread_at ?s1 j)"
        "memory s' = memory ?s1" "block_tags s' = block_tags ?s1" "length (all_threads s') = length (all_threads ?s1)"
      show ?thesis
        using False i by (intro that [where s' = s' and x = x and y = y]) (simp_all add: *)
    qed
  qed
  have "k_add_named_thread_with_args worker name args rp s = Ret (int i) s'"
    using find s' by (simp add: k_add_named_thread_with_args_def Let_def)
  moreover have "created i name worker (args (memory s)) ?perms s s'"
    unfolding created_def Let_def
    using th [of i] th th1 rest m1
    by (simp add: fresh_thread_fields msgs_def ring_list_def ring_count_def)
  ultimately show ?thesis by blast
qed

lemma add_named_none:
  assumes "\<forall>j < MAX_THREADS s. \<not> slot_free (thread_at s j)"
  shows "k_add_named_thread_with_args worker name args rp s = Ret INVALID_THREAD s"
proof -
  have "find (\<lambda>idx. slot_free (thread_at s idx)) [0..<MAX_THREADS s] = None"
    using assms by (simp add: find_None_upt)
  then show ?thesis by (simp add: k_add_named_thread_with_args_def)
qed

section \<open>The end of a thread\<close>

text \<open>What the clean up leaves: the thread without its page, its allocations gone.\<close>

lemma cleanup_thread_Ret:
  assumes "kinv s" and "i < MAX_THREADS s"
  obtains s' x y where "cleanup_thread i s = Ret () s'"
    and "\<And>j. thread_at s' j = (if j = i then (thread_at s i)\<lparr>t_code_backing_page := x, t_in_code_page := y\<rparr> else thread_at s j)"
    and "block_tags s' = block_tags (k_free_all (t_id (thread_at s i)) s)"
    and "memory s' = memory s" and "current_thread s' = current_thread s" and "MAX_THREADS s' = MAX_THREADS s"
    and "build s' = build s"
proof -
  note result = that
  let ?t = "thread_at s i"
  let ?s1 = "k_free_all (t_id ?t) s"
  let ?s2 = "upd_thread i (\<lambda>t. t\<lparr>t_in_code_page := False\<rparr>) ?s1"
  have f1: "all_threads ?s1 = all_threads s" "memory ?s1 = memory s" "current_thread ?s1 = current_thread s" "build ?s1 = build s"
    by (simp_all add: k_free_all_def)
  have i: "i < length (all_threads s)" using assms(2) by (simp add: MAX_THREADS_def)
  have th2: "thread_at ?s2 j = (if j = i then ?t\<lparr>t_in_code_page := False\<rparr> else thread_at s j)" for j
    using i f1(1) by (auto simp: thread_at_upd)
  have id: "?t = ?t\<lparr>t_code_backing_page := t_code_backing_page ?t, t_in_code_page := t_in_code_page ?t\<rparr>" by simp
  show thesis
  proof (cases "CODE_PAGE_SIZE s = 0")
    case True
    then have "cleanup_thread i s = Ret () ?s1" by (simp add: cleanup_thread_def Let_def)
    then show ?thesis
      by (rule result [where x = "t_code_backing_page ?t" and y = "t_in_code_page ?t"]) (use f1 in \<open>simp_all add: MAX_THREADS_def\<close>)
  next
    case size: False
    let ?page = "t_code_backing_page ?t"
    show ?thesis
    proof (cases "CODE_BACKING_PAGES s = 0 \<or> ?page = INVALID_PAGE")
      case True
      then have "cleanup_thread i s = Ret () ?s2"
        using size th2 [of i] by (simp add: cleanup_thread_def Let_def)
      then show ?thesis
        by (rule result [where x = ?page and y = False]) (use f1 th2 in \<open>simp_all add: MAX_THREADS_def\<close>)
    next
      case False
      let ?s3 = "upd_thread i (\<lambda>t. t\<lparr>t_code_backing_page := INVALID_PAGE\<rparr>) (dec_ref ?page ?s2)"
      have "unat ?page < CODE_BACKING_PAGES s" using kinv_page [OF assms] False by simp
      then have "cleanup_thread i s = Ret () ?s3"
        using size False th2 [of i] by (simp add: cleanup_thread_def Let_def)
      then show ?thesis
        by (rule result [where x = INVALID_PAGE and y = False])
          (use f1 th2 i in \<open>auto simp: thread_at_upd MAX_THREADS_def dec_ref_def\<close>)
    qed
  qed
qed

section \<open>Switching to a chosen thread\<close>

lemma do_scheduler_to:
  assumes "kinv s" and "next_thread s = Some n"
  obtains s' where "do_scheduler s = Ret () s'" and "next_thread s' = Some n" and "current_thread s' = current_thread s"
    and "\<And>j. j < MAX_THREADS s \<Longrightarrow> t_state (thread_at s' j) =
      (if j = n then running
       else if current_thread s = Some j \<and> t_state (thread_at s j) = running then suspended
       else t_state (thread_at s j))"
proof -
  have n: "n < MAX_THREADS s" using kinvD(3) [OF assms(1)] assms(2) by (simp add: ptr_ok_def)
  have p: "pick_next s = Ret n s" using pick_next_eq [OF assms(1)] assms(2) by simp
  obtain m where m: "do_scheduler s =
      Ret () (k_update_user_thread_info n (check_signals n (set_memory m (switch_states n s))))"
    using do_scheduler_from [OF assms(1) p assms(2) n] by blast
  let ?s2 = "check_signals n (set_memory m (switch_states n s))"
  show thesis
  proof (rule that [OF m])
    fix j assume j: "j < MAX_THREADS s"
    show "t_state (thread_at (k_update_user_thread_info n ?s2) j) =
      (if j = n then running
       else if current_thread s = Some j \<and> t_state (thread_at s j) = running then suspended
       else t_state (thread_at s j))"
      using update_info_thread [of n ?s2 j] check_signals_thread(1) [of n "set_memory m (switch_states n s)" j]
        switch_states_state [OF j kinv_current [OF assms(1)] n] by auto
  qed (use assms(2) in simp_all)
qed

section \<open>Properties\<close>


text \<open>When creating a thread is refused: without flags (invalid arguments), without the permission,
  or for a file when no code page is free (no free page); the only thing that can change is errno.\<close>

theorem add_thread_refused:
  "k_add_thread name args worker NULL s = Ret INVALID_THREAD (set_errno E_INVALID_ARGS s) \<and>
   (flags \<noteq> NULL \<and> k_has_no_permission TPERM_CREATE s \<longrightarrow> k_add_thread name args worker flags s = Ret INVALID_THREAD s) \<and>
   (flags \<noteq> NULL \<and> \<not> k_has_no_permission TPERM_CREATE s \<and> is_file (load_flags (memory s) flags) \<and>
    CODE_PAGE_SIZE s \<noteq> 0 \<and> current_thread s \<noteq> None \<and>
    (if 0 < CODE_BACKING_PAGES s then \<forall>p < CODE_BACKING_PAGES s. backing_refs s ! p \<noteq> 0
     else code_page_in_use_by s \<noteq> INVALID_THREAD) \<longrightarrow>
      k_add_thread name args worker flags s = Ret INVALID_THREAD (set_errno E_NO_PAGE s))"
proof -
  have "find_free_backing_page s = INVALID_PAGE" if "\<forall>p < CODE_BACKING_PAGES s. backing_refs s ! p \<noteq> 0"
  proof -
    have "find (\<lambda>i. backing_refs s ! i = 0) [0..<CODE_BACKING_PAGES s] = None"
      using that by (simp add: find_None_upt)
    then show ?thesis by (simp add: find_free_backing_page_def)
  qed
  then show ?thesis
    by (auto simp: k_add_thread_def Let_def k_add_thread_from_file_with_args_def)
qed


text \<open>A thread that cancels itself is cancelled and cleaned up before the scheduler runs, so it is
  not chosen again.\<close>

theorem cancel_self:
  assumes "sane s" and "current_thread s = Some c" and "is_valid_thread (int c) s"
  shows "\<exists>s1. k_thread_cancel CURRENT_THREAD s = obind (do_scheduler s1) (\<lambda>_ s. Ret True s) \<and>
    t_state (thread_at s1 c) = cancelled \<and> \<not> can_schedule_thread (int c) s1 \<and>
    (\<forall>j. j \<noteq> c \<longrightarrow> thread_at s1 j = thread_at s j) \<and> (\<forall>b n. allocs (block_tags s1) b \<noteq> Some (n, int c))"
proof -
  let ?s1 = "upd_thread c (\<lambda>t. t\<lparr>t_state := cancelled\<rparr>) s"
  have k: "kinv s" using assms(1) by (simp add: sane_def)
  have c: "c < MAX_THREADS s" using kinv_current [OF k assms(2)] .
  have k1: "kinv ?s1" by (rule kinv_upd [OF k]) simp
  have id: "t_id (thread_at s c) = int c" using valid_id [OF k assms(3)] .
  have t1: "thread_at ?s1 j = (if j = c then (thread_at s c)\<lparr>t_state := cancelled\<rparr> else thread_at s j)" for j
    using c by (auto simp: thread_at_upd MAX_THREADS_def)
  have c1: "c < MAX_THREADS ?s1" using c by (simp add: MAX_THREADS_def)
  show ?thesis
  proof (rule cleanup_thread_Ret [OF k1 c1])
    fix s' x y
    assume s': "cleanup_thread c ?s1 = Ret () s'"
      "\<And>j. thread_at s' j = (if j = c then (thread_at ?s1 c)\<lparr>t_code_backing_page := x, t_in_code_page := y\<rparr> else thread_at ?s1 j)"
      "block_tags s' = block_tags (k_free_all (t_id (thread_at ?s1 c)) ?s1)" "current_thread s' = current_thread ?s1"
    have cancel: "k_thread_cancel CURRENT_THREAD s = obind (do_scheduler s') (\<lambda>_ s. Ret True s)"
      using assms(2,3) s'(1,4) s'(2) [of c] t1 [of c] id
      by (simp add: k_thread_cancel_def set_thread_state_def on_current_def)
    have heap: "heap_ok (block_tags ?s1)" using kinvD(4) [OF k] by simp
    have "allocs (block_tags s') = drop_owned (int c) 0 (allocs (block_tags s))"
      using s'(3) k_free_all_allocs(2) [OF heap] t1 [of c] id by simp
    then have "allocs (block_tags s') b \<noteq> Some (n, int c)" for b n
      by (auto simp: drop_owned_def split: option.splits if_splits)
    moreover have "\<not> can_schedule_thread (int c) s'"
      using s'(2) [of c] t1 [of c] by (simp add: can_schedule_thread_def Let_def)
    ultimately show ?thesis using cancel s'(2) t1 by auto
  qed
qed

text \<open>Yielding to a thread that can run switches to exactly that thread, which is then running, and
  the caller is suspended; the result says whether it is another thread. Yielding to a thread that
  cannot run fails and changes nothing.\<close>

theorem yield_to_switches:
  assumes "entered s" and "current_thread s = Some c"
  shows "if can_schedule_thread tid s
    then \<exists>s'. k_yield tid YIELD_TO s = Ret (nat tid \<noteq> c) s' \<and> next_thread s' = Some (nat tid) \<and>
      t_state (thread_at s' (nat tid)) = running \<and>
      (c \<noteq> nat tid \<and> t_state (thread_at s c) = running \<longrightarrow> t_state (thread_at s' c) = suspended)
    else k_yield tid YIELD_TO s = Ret False s"
proof (cases "can_schedule_thread tid s")
  case False
  then show ?thesis by (simp add: k_yield_def YIELD_ANY_def YIELD_TO_def)
next
  case True
  let ?s = "s\<lparr>next_thread := Some (nat tid)\<rparr>"
  have i: "nat tid < MAX_THREADS s" using valid_less can_schedule_valid True by blast
  have k: "kinv ?s" using next_thread_update_kinv [OF enteredD(2) [OF assms(1)]] i by (simp add: ptr_ok_def)
  have c: "c < MAX_THREADS s" using kinv_current [OF enteredD(2) [OF assms(1)] assms(2)] .
  obtain s' where s': "do_scheduler ?s = Ret () s'" "next_thread s' = Some (nat tid)" "current_thread s' = Some c"
    "\<And>j. j < MAX_THREADS s \<Longrightarrow> t_state (thread_at s' j) =
      (if j = nat tid then running
       else if c = j \<and> t_state (thread_at s j) = running then suspended else t_state (thread_at s j))"
    by (rule do_scheduler_to [OF k, of "nat tid"]) (use assms(2) in \<open>simp_all add: MAX_THREADS_def\<close>)
  have "k_yield tid YIELD_TO s = Ret (nat tid \<noteq> c) s'"
    using True s'(1-3) by (simp add: k_yield_def YIELD_ANY_def YIELD_TO_def k_do_yield_def)
  then show ?thesis using True s'(2) s'(4) [OF i] s'(4) [OF c] by auto
qed

text \<open>Waking does not look at the state of the thread: a thread that has finished or was cancelled,
  whose heap and code page have been released, can run again after it.\<close>

theorem wake_revives_finished:
  assumes "is_valid_thread tid s"
  shows "\<exists>s'. k_thread_wake tid s = Ret True s' \<and> can_schedule_thread tid s'"
  using assms
  by (auto simp: k_thread_wake_def set_thread_state_def can_schedule_thread_def Let_def
      is_valid_thread_def thread_at_upd MAX_THREADS_def)

text \<open>The state in which a restart brings in the code page.\<close>

lemma restart_state:
  assumes "current_thread s = Some c" and "c < length (all_threads s)" and "0 < CODE_BACKING_PAGES s \<Longrightarrow> 0 < CODE_PAGE_SIZE s"
  obtains s4 x where "k_restart worker name args rp s =
      (if CODE_BACKING_PAGES s = 0 then Ret () s4 else page_in (t_code_backing_page (thread_at s c)) s4)"
    and "\<And>j. thread_at s4 j = (if j = c then (fresh_thread s (t_id (thread_at s c)) (name_arg (memory s) name) worker (load_args args)
      (t_permissions (thread_at s c) AND NOT rp) (thread_at s c))\<lparr>t_parent := t_parent (thread_at s c), t_in_code_page := x,
        t_code_backing_page := t_code_backing_page (thread_at s c)\<rparr> else thread_at s j)"
    and "CODE_BACKING_PAGES s4 = CODE_BACKING_PAGES s" and "build s4 = build s"
    and "memory s4 = store_bytes (memory s) (ALIGN_STACK_PTR (t_stack (thread_at s c) + THREAD_STACK_SIZE) - 64) (fresh_context (build s))"
proof -
  let ?t = "thread_at s c"
  define t1 where "t1 = fresh_thread s (t_id ?t) (name_arg (memory s) name) worker (load_args args)
    (t_permissions ?t AND NOT rp) ?t"
  define s2 where "s2 = upd_thread c (\<lambda>t. t\<lparr>t_parent := t_parent ?t\<rparr>)
    (init_thread c (t_id ?t) (name_arg (memory s) name) worker (load_args args) (t_permissions ?t AND NOT rp) s)"
  define s3 where "s3 = (if CODE_PAGE_SIZE s2 = 0 then s2
    else upd_thread c (\<lambda>t. t\<lparr>t_in_code_page := t_in_code_page ?t\<rparr>) s2)"
  define s4 where "s4 = (if CODE_PAGE_SIZE s3 = 0 \<or> CODE_BACKING_PAGES s3 = 0 then s3
    else upd_thread c (\<lambda>t. t\<lparr>t_code_backing_page := t_code_backing_page ?t\<rparr>) s3)"
  note c = assms(2)
  have l2: "length (all_threads s2) = length (all_threads s)" "CODE_PAGE_SIZE s2 = CODE_PAGE_SIZE s"
    "CODE_BACKING_PAGES s2 = CODE_BACKING_PAGES s" "current_thread s2 = Some c" using assms(1) by (simp_all add: s2_def)
  have t2: "thread_at s2 j = (if j = c then t1\<lparr>t_parent := t_parent ?t\<rparr> else thread_at s j)" for j
    using c by (auto simp: s2_def t1_def thread_at_upd thread_at_init_thread)
  have l3: "length (all_threads s3) = length (all_threads s)" "CODE_PAGE_SIZE s3 = CODE_PAGE_SIZE s"
    "CODE_BACKING_PAGES s3 = CODE_BACKING_PAGES s" "current_thread s3 = Some c" using l2 by (simp_all add: s3_def)
  obtain x where t3: "thread_at s3 j = (if j = c then t1\<lparr>t_parent := t_parent ?t, t_in_code_page := x\<rparr> else thread_at s j)" for j
  proof (cases "CODE_PAGE_SIZE s2 = 0")
    case True
    then show ?thesis using t2 by (intro that [of "t_in_code_page t1"]) (simp add: s3_def)
  next
    case False
    then show ?thesis using t2 l2 c by (intro that [of "t_in_code_page ?t"]) (auto simp: s3_def thread_at_upd)
  qed
  have l4: "CODE_BACKING_PAGES s4 = CODE_BACKING_PAGES s" "current_thread s4 = Some c" using l3 by (simp_all add: s4_def)
  have th: "thread_at s4 j = (if j = c then t1\<lparr>t_parent := t_parent ?t, t_in_code_page := x,
      t_code_backing_page := t_code_backing_page ?t\<rparr> else thread_at s j)" for j
  proof (cases "CODE_PAGE_SIZE s3 = 0 \<or> CODE_BACKING_PAGES s3 = 0")
    case True
    then have "t_code_backing_page t1 = t_code_backing_page ?t" using l3 by (auto simp: t1_def fresh_thread_def k_set_thread_name_def split: option.split)
    then have "t1\<lparr>t_parent := t_parent ?t, t_in_code_page := x, t_code_backing_page := t_code_backing_page ?t\<rparr> =
        t1\<lparr>t_parent := t_parent ?t, t_in_code_page := x\<rparr>" by (cases t1) simp
    with True t3 [of j] show ?thesis by (simp add: s4_def)
  next
    case False
    then show ?thesis using c l3(1) t3 [of j] t3 [of c] by (auto simp: s4_def thread_at_upd)
  qed
  have "k_restart worker name args rp s =
      (if CODE_BACKING_PAGES s4 = 0 then Ret () s4 else swap_paged_threads (current_thread s4) None s4)"
    by (simp only: k_restart_def on_current_def assms(1) option.case Let_def s4_def s3_def s2_def)
  then have eq: "k_restart worker name args rp s =
      (if CODE_BACKING_PAGES s = 0 then Ret () s4 else page_in (t_code_backing_page ?t) s4)"
    using th [of c] by (simp add: l4 swap_paged_threads_def)
  have "build s4 = build s" "memory s4 = memory s2" by (simp_all add: s4_def s3_def s2_def)
  then show thesis
    using that [OF eq th [unfolded t1_def] l4(1)] init_thread_memory [OF c] by (simp add: s2_def)
qed

text \<open>A restart gives the current thread a new start and keeps who it is: the id, the parent and the
  code page stay, the function, the arguments, the name, the messages, the signals and the state
  are those of a new thread, and the permissions only lose what is removed. With code backing
  pages this needs the thread to have one: without, the code copies from a page that does not
  exist.\<close>

theorem restart_keeps_identity:
  assumes "sane s" and "current_thread s = Some c"
  shows "if CODE_BACKING_PAGES s = 0 \<or> t_code_backing_page (thread_at s c) \<noteq> INVALID_PAGE
    then \<exists>s'. k_restart worker name args rp s = Ret () s' \<and>
      (let t = thread_at s c; t' = thread_at s' c in
       t_id t' = t_id t \<and> t_parent t' = t_parent t \<and> t_code_backing_page t' = t_code_backing_page t \<and>
       t_child t' = INVALID_THREAD \<and> t_state t' = init \<and> t_work t' = worker \<and>
       t_args t' = load_args args (memory s) \<and> t_permissions t' = t_permissions t AND NOT rp \<and>
       msgs t' = [] \<and> t_pending_signals t' = 0 \<and> t_signal_handler t' = NULL) \<and>
      (\<forall>j. j \<noteq> c \<longrightarrow> thread_at s' j = thread_at s j)
    else k_restart worker name args rp s = Undef"
proof -
  let ?t = "thread_at s c"
  have k: "kinv s" using assms(1) by (simp add: sane_def)
  have c: "c < length (all_threads s)" using kinv_current [OF k assms(2)] by (simp add: MAX_THREADS_def)
  have cfg: "0 < CODE_BACKING_PAGES s \<Longrightarrow> 0 < CODE_PAGE_SIZE s" using kinvD(1) [OF k] by (simp add: config_ok_def)
  obtain s4 x where s4: "k_restart worker name args rp s =
      (if CODE_BACKING_PAGES s = 0 then Ret () s4 else page_in (t_code_backing_page ?t) s4)"
    "\<And>j. thread_at s4 j = (if j = c then (fresh_thread s (t_id ?t) (name_arg (memory s) name) worker (load_args args)
      (t_permissions ?t AND NOT rp) ?t)\<lparr>t_parent := t_parent ?t, t_in_code_page := x, t_code_backing_page := t_code_backing_page ?t\<rparr>
      else thread_at s j)" "CODE_BACKING_PAGES s4 = CODE_BACKING_PAGES s"
    using restart_state [OF assms(2) c cfg, of worker name args rp] by metis
  show ?thesis
  proof (cases "CODE_BACKING_PAGES s = 0 \<or> t_code_backing_page ?t \<noteq> INVALID_PAGE")
    case True
    obtain m where r: "k_restart worker name args rp s = Ret () (set_memory m s4)"
    proof (cases "CODE_BACKING_PAGES s = 0")
      case True
      then show ?thesis using that [of "memory s4"] s4(1) by (simp add: set_memory_def)
    next
      case False
      then have "unat (t_code_backing_page ?t) < CODE_BACKING_PAGES s4"
        using True kinv_page [OF k, of c] c s4(3) by (simp add: MAX_THREADS_def)
      from page_in_Ret [OF this] obtain m where "page_in (t_code_backing_page ?t) s4 = Ret () (set_memory m s4)" by blast
      then show ?thesis using that [of m] s4(1) False by simp
    qed
    have "thread_at (set_memory m s4) j = thread_at s4 j" for j by simp
    with r s4(2) True show ?thesis
      by (simp add: Let_def fresh_thread_fields msgs_def ring_list_def ring_count_def)
  next
    case False
    have "CODE_BACKING_PAGES s \<le> 123456" using kinvD(1) [OF k] by (simp add: config_ok_def)
    then have "page_in INVALID_PAGE s4 = Undef"
      using s4(3) by (simp add: page_in_def INVALID_PAGE_def)
    with False s4(1) show ?thesis by simp
  qed
qed

section \<open>Properties at concrete threads\<close>

lemma demo_entered: "entered demo_state"
  using demo_kinv demo_running by (simp add: entered_def sane_def)

text \<open>The third thread has finished, so its place is free.\<close>

definition demo_finished :: kstate where
  "demo_finished = upd_thread 2 (\<lambda>t. t\<lparr>t_state := finished\<rparr>) demo_state"

lemma demo_finished_simps [simp]:
  "sane demo_finished" "current_thread demo_finished = Some 0" "MAX_THREADS demo_finished = 3"
  "memory demo_finished = (\<lambda>_. 0)" "thread_at demo_finished 0 = demo_thread 0 running"
  "thread_at demo_finished (Suc 0) = demo_thread 1 suspended"
  "thread_at demo_finished 2 = (demo_thread 2 init)\<lparr>t_state := finished\<rparr>"
  using demo_entered by (auto simp: demo_finished_def entered_def thread_at_upd intro!: sane_upd)


theorem add_thread_refused_witness:
  "k_add_thread NULL NULL 0x8500 0x100 (upd_thread 0 (\<lambda>t. t\<lparr>t_permissions := 0\<rparr>) demo_state) =
     Ret INVALID_THREAD (upd_thread 0 (\<lambda>t. t\<lparr>t_permissions := 0\<rparr>) demo_state)"
  using add_thread_refused [of NULL NULL "0x8500" "upd_thread 0 (\<lambda>t. t\<lparr>t_permissions := 0\<rparr>) demo_state" "0x100"]
  by (simp add: k_has_no_permission_def thread_at_upd)


theorem cancel_self_witness:
  "\<exists>s1. k_thread_cancel CURRENT_THREAD demo_state = obind (do_scheduler s1) (\<lambda>_ s. Ret True s) \<and>
     t_state (thread_at s1 0) = cancelled"
  using cancel_self [of demo_state 0] demo_entered demo_valid(1) by (auto simp: entered_def)

theorem yield_to_switches_witness:
  "\<exists>s'. k_yield 1 YIELD_TO demo_state = Ret True s' \<and> next_thread s' = Some 1"
  using yield_to_switches [OF demo_entered, of 0 1] demo_valid(2)
  by (auto simp: can_schedule_thread_def)

theorem wake_revives_finished_witness:
  "\<exists>s'. k_thread_wake 2 demo_finished = Ret True s' \<and> can_schedule_thread 2 s'"
proof -
  have "is_valid_thread 2 demo_finished" by (simp add: is_valid_thread_def INVALID_THREAD_def)
  from wake_revives_finished [OF this] show ?thesis .
qed

theorem restart_keeps_identity_witness:
  "\<exists>s'. k_restart 0x8500 NULL 0x100 0x2 demo_state = Ret () s' \<and> t_id (thread_at s' 0) = 0"
  using restart_keeps_identity [of demo_state 0 "0x8500" NULL "0x100" "0x2"] demo_entered
  by (auto simp: entered_def Let_def)

end
