(* ===== verification/Code_Pages.thy ===== *)
theory Code_Pages
  imports Lifecycle
begin

text \<open>
  Code backing pages: a thread whose program is in a backing page finds its code page as it left it
  whenever it is switched back to, and a page given to a new program is one that nobody refers to.
\<close>

section \<open>The layout of the pages\<close>

text \<open>The code page and the array of backing pages are different objects.\<close>

definition page_layout :: "kstate \<Rightarrow> bool" where
  "page_layout s \<longleftrightarrow> 0 < CODE_PAGE_SIZE s \<and> CODE_BACKING_PAGES s * (CODE_PAGE_SIZE s + 1) < 2 ^ 32 \<and>
     CODE_PAGE_SIZE s < 2 ^ 32 \<and>
     apart (b_code_page (build s)) (CODE_PAGE_SIZE s) (b_code_backing_pages (build s))
       (CODE_BACKING_PAGES s * (CODE_PAGE_SIZE s + 1))"

text \<open>The bytes of the code page, and of a backing page.\<close>

definition code_of :: "kstate \<Rightarrow> byte list" where
  "code_of s = load_bytes (memory s) (b_code_page (build s)) (CODE_PAGE_SIZE s)"

definition backing_of :: "size_t \<Rightarrow> kstate \<Rightarrow> byte list" where
  "backing_of p s = load_bytes (memory s) (backing_data p s) (CODE_PAGE_SIZE s)"

lemma backing_data_offset:
  "backing_data p s = b_code_backing_pages (build s) + of_nat (unat p * (CODE_PAGE_SIZE s + 1) + 1)"
  by (simp add: backing_data_def algebra_simps)

lemma length_pages [simp]: "length (code_of s) = CODE_PAGE_SIZE s" "length (backing_of p s) = CODE_PAGE_SIZE s"
  by (simp_all add: code_of_def backing_of_def)

lemma page_fits:
  fixes n k :: nat
  assumes "unat p < n"
  shows "unat p * (k + 1) + 1 + k \<le> n * (k + 1)"
proof -
  have "Suc (unat p) * (k + 1) \<le> n * (k + 1)" using assms by (intro mult_le_mono1) simp
  then show ?thesis by simp
qed

lemma code_backing_apart:
  assumes "page_layout s" and "unat p < CODE_BACKING_PAGES s"
  shows "apart (b_code_page (build s)) (CODE_PAGE_SIZE s) (backing_data p s) (CODE_PAGE_SIZE s)"
  unfolding backing_data_offset
  using assms page_fits [OF assms(2), of "CODE_PAGE_SIZE s"] by (intro apart_part) (auto simp: page_layout_def)

lemma backing_apart:
  assumes "page_layout s" and "unat p < CODE_BACKING_PAGES s" and "unat q < CODE_BACKING_PAGES s" and "p \<noteq> q"
  shows "apart (backing_data p s) (CODE_PAGE_SIZE s) (backing_data q s) (CODE_PAGE_SIZE s)"
proof -
  let ?k = "CODE_PAGE_SIZE s"
  have lt: "apart (backing_data x s) ?k (backing_data y s) ?k"
    if "unat x < unat y" "unat y < CODE_BACKING_PAGES s" for x y
  proof -
    have "unat x * (?k + 1) + 1 + ?k \<le> unat y * (?k + 1)" using page_fits [OF that(1)] .
    moreover have "unat y * (?k + 1) + 1 + ?k \<le> CODE_BACKING_PAGES s * (?k + 1)" using page_fits [OF that(2)] .
    ultimately show ?thesis
      unfolding backing_data_offset using assms(1) by (intro apart_offsets(1)) (auto simp: page_layout_def)
  qed
  have "unat p < unat q \<or> unat q < unat p" using assms(4) by (metis nat_neq_iff word_unat_eq_iff)
  then show ?thesis using lt assms(2,3) apart_commute by blast
qed

lemma page_moves:
  assumes "page_layout s" and "unat p < CODE_BACKING_PAGES s"
  shows "page_in p s = Ret () (set_memory (store_bytes (memory s) (b_code_page (build s)) (backing_of p s)) s)"
    and "page_out p s = Ret () (set_memory (store_bytes (memory s) (backing_data p s) (code_of s)) s)"
proof -
  have n: "unat (of_nat (CODE_PAGE_SIZE s) :: size_t) = CODE_PAGE_SIZE s"
    using assms(1) by (intro unat_of_nat32) (simp add: page_layout_def)
  have a: "apart (b_code_page (build s)) (CODE_PAGE_SIZE s) (backing_data p s) (CODE_PAGE_SIZE s)"
    by (rule code_backing_apart [OF assms])
  show "page_in p s = Ret () (set_memory (store_bytes (memory s) (b_code_page (build s)) (backing_of p s)) s)"
    using memcpy_apart [of "backing_data p s" "of_nat (CODE_PAGE_SIZE s)" "b_code_page (build s)" "memory s"] a assms(2)
    unfolding n by (simp add: page_in_def backing_of_def apart_commute)
  show "page_out p s = Ret () (set_memory (store_bytes (memory s) (backing_data p s) (code_of s)) s)"
    using memcpy_apart [of "b_code_page (build s)" "of_nat (CODE_PAGE_SIZE s)" "backing_data p s" "memory s"] a assms(2)
    unfolding n by (simp add: page_out_def code_of_def)
qed

lemma layout_set_memory [simp]:
  "page_layout (set_memory m s) = page_layout s" "backing_data p (set_memory m s) = backing_data p s"
  "CODE_PAGE_SIZE (set_memory m s) = CODE_PAGE_SIZE s"
  by (simp_all add: page_layout_def backing_data_def CODE_PAGE_SIZE_def CODE_BACKING_PAGES_def)

text \<open>A switch between two threads with pages of their own saves the one and brings in the other.\<close>

lemma swap_pages:
  assumes "page_layout s" and "a \<noteq> b" and "unat (t_code_backing_page (thread_at s a)) < CODE_BACKING_PAGES s"
    and "unat (t_code_backing_page (thread_at s b)) < CODE_BACKING_PAGES s" and "CODE_BACKING_PAGES s \<le> 123456"
    and "t_code_backing_page (thread_at s a) \<noteq> t_code_backing_page (thread_at s b)"
  obtains m where "swap_paged_threads (Some a) (Some b) s = Ret () (set_memory m s)"
    and "code_of (set_memory m s) = backing_of (t_code_backing_page (thread_at s b)) s"
    and "backing_of (t_code_backing_page (thread_at s a)) (set_memory m s) = code_of s"
    and "backing_of (t_code_backing_page (thread_at s b)) (set_memory m s) = backing_of (t_code_backing_page (thread_at s b)) s"
proof -
  let ?p = "t_code_backing_page (thread_at s a)" and ?q = "t_code_backing_page (thread_at s b)"
  let ?k = "CODE_PAGE_SIZE s"
  have valid: "?p \<noteq> INVALID_PAGE" "?q \<noteq> INVALID_PAGE" using assms(3-5) by (auto simp: INVALID_PAGE_def)
  let ?m1 = "store_bytes (memory s) (backing_data ?p s) (code_of s)"
  let ?s1 = "set_memory ?m1 s"
  let ?m2 = "store_bytes ?m1 (b_code_page (build s)) (backing_of ?q ?s1)"
  have k: "?k < 2 ^ 32" using assms(1) by (simp add: page_layout_def)
  have out: "page_out ?p s = Ret () ?s1" by (rule page_moves(2) [OF assms(1,3)])
  have inp: "page_in ?q ?s1 = Ret () (set_memory ?m2 s)"
    using page_moves(1) [of ?s1 ?q] assms(1,4) by simp
  have q1: "backing_of ?q ?s1 = backing_of ?q s"
    using backing_apart [OF assms(1,3,4,6)] unfolding backing_of_def [of ?q] by (simp add: mem_simps)
  have swap: "swap_paged_threads (Some a) (Some b) s = Ret () (set_memory ?m2 s)"
    using assms(2) valid out inp by (simp add: swap_paged_threads_def)
  show thesis
  proof (rule that [OF swap])
    show "code_of (set_memory ?m2 s) = backing_of ?q s"
      using k q1 unfolding code_of_def [of "set_memory ?m2 s"] by (simp add: mem_simps)
    show "backing_of ?p (set_memory ?m2 s) = code_of s"
      using k code_backing_apart [OF assms(1,3)] unfolding backing_of_def [of ?p] by (simp add: mem_simps)
    show "backing_of ?q (set_memory ?m2 s) = backing_of ?q s"
      using q1 code_backing_apart [OF assms(1,4)] unfolding backing_of_def [of ?q] by (simp add: mem_simps)
  qed
qed

section \<open>Properties\<close>

text \<open>C20: Code pages are switched with their threads: going from a thread to one with another backing page
  brings that page into the code page; whatever the other thread does then, as long as it leaves
  the first thread's backing page alone, going back saves its code page in its own backing page
  and puts the first thread's code page back as it was.\<close>

theorem code_pages_round_trip:
  assumes "page_layout s" and "a \<noteq> b" and "unat (t_code_backing_page (thread_at s a)) < CODE_BACKING_PAGES s"
    and "unat (t_code_backing_page (thread_at s b)) < CODE_BACKING_PAGES s" and "CODE_BACKING_PAGES s \<le> 123456"
    and "t_code_backing_page (thread_at s a) \<noteq> t_code_backing_page (thread_at s b)"
  shows "\<exists>s1. swap_paged_threads (Some a) (Some b) s = Ret () s1 \<and>
    code_of s1 = backing_of (t_code_backing_page (thread_at s b)) s \<and>
    (\<forall>m. backing_of (t_code_backing_page (thread_at s a)) (set_memory m s1) =
         backing_of (t_code_backing_page (thread_at s a)) s1 \<longrightarrow>
      (\<exists>s2. swap_paged_threads (Some b) (Some a) (set_memory m s1) = Ret () s2 \<and> code_of s2 = code_of s \<and>
         backing_of (t_code_backing_page (thread_at s b)) s2 = code_of (set_memory m s1)))"
proof (rule swap_pages [OF assms])
  let ?p = "t_code_backing_page (thread_at s a)" and ?q = "t_code_backing_page (thread_at s b)"
  fix m1
  assume s1: "swap_paged_threads (Some a) (Some b) s = Ret () (set_memory m1 s)"
    "code_of (set_memory m1 s) = backing_of ?q s" "backing_of ?p (set_memory m1 s) = code_of s"
  have ret: "\<exists>s2. swap_paged_threads (Some b) (Some a) (set_memory m (set_memory m1 s)) = Ret () s2 \<and>
      code_of s2 = code_of s \<and> backing_of ?q s2 = code_of (set_memory m (set_memory m1 s))"
    if "backing_of ?p (set_memory m (set_memory m1 s)) = backing_of ?p (set_memory m1 s)" for m
  proof (rule swap_pages [of "set_memory m (set_memory m1 s)" b a])
    fix m2
    assume "swap_paged_threads (Some b) (Some a) (set_memory m (set_memory m1 s)) =
        Ret () (set_memory m2 (set_memory m (set_memory m1 s)))"
      "code_of (set_memory m2 (set_memory m (set_memory m1 s))) =
        backing_of (t_code_backing_page (thread_at (set_memory m (set_memory m1 s)) a)) (set_memory m (set_memory m1 s))"
      "backing_of (t_code_backing_page (thread_at (set_memory m (set_memory m1 s)) b))
        (set_memory m2 (set_memory m (set_memory m1 s))) = code_of (set_memory m (set_memory m1 s))"
    then show ?thesis using that s1(3) by (intro exI [of _ "set_memory m2 (set_memory m (set_memory m1 s))"]) auto
  qed (use assms in \<open>simp_all add: neq_commute\<close>)
  show ?thesis using s1(1,2) ret by blast
qed

section \<open>References to pages\<close>

lemma add_named_paged:
  assumes "sane s" and "current_thread s = Some c" and "c \<noteq> i" and "0 < CODE_BACKING_PAGES s"
    and "i < MAX_THREADS s" and "slot_free (thread_at s i)" and "\<forall>j < i. \<not> slot_free (thread_at s j)"
    and "t_code_backing_page (thread_at s c) \<noteq> INVALID_PAGE"
  shows "k_add_named_thread_with_args worker name args 0 s =
    Ret (int i) (inc_ref (t_code_backing_page (thread_at s c))
      (upd_thread i (\<lambda>t. t\<lparr>t_code_backing_page := t_code_backing_page (thread_at s c)\<rparr>)
        (init_thread i (int i) name worker args (t_permissions (thread_at s c)) s)))"
proof -
  have k: "kinv s" using assms(1) by (simp add: sane_def)
  have find: "find (\<lambda>idx. slot_free (thread_at s idx)) [0..<MAX_THREADS s] = Some i"
    using assms by (simp add: find_Some_upt)
  have size: "CODE_PAGE_SIZE s \<noteq> 0" using kinvD(1) [OF k] assms(4) by (simp add: config_ok_def)
  have page: "unat (t_code_backing_page (thread_at s c)) < CODE_BACKING_PAGES s"
    using kinv_page [OF k kinv_current [OF k assms(2)] assms(4,8)] .
  then show ?thesis
    using find size assms(2,3,4,8) page
    by (simp add: k_add_named_thread_with_args_def Let_def setup_code_page_def thread_at_init_thread)
qed

text \<open>Loading a program takes the first backing page without references, and the new thread is
  counted as its only user; but the page of the calling thread is counted once more too, for a
  thread that does not use it, and that reference is never given back.\<close>

theorem loader_leaks_reference:
  assumes "sane s" and "current_thread s = Some c" and "c \<noteq> i"
    and "i < MAX_THREADS s" and "slot_free (thread_at s i)" and "\<forall>j < i. \<not> slot_free (thread_at s j)"
    and "t_code_backing_page (thread_at s c) \<noteq> INVALID_PAGE" and "backing_refs s ! unat (t_code_backing_page (thread_at s c)) \<noteq> 0"
    and "p < CODE_BACKING_PAGES s" and "backing_refs s ! p = 0" and "\<forall>p' < p. backing_refs s ! p' \<noteq> 0"
    and "strlen (store_bytes (memory s) (ALIGN_STACK_PTR (t_stack (thread_at s i) + THREAD_STACK_SIZE) - 64)
           (fresh_context (build s))) filename \<noteq> None"
  shows "\<exists>s'. k_add_thread_from_file_with_args filename args rp s = Ret (int i) s' \<and>
    t_code_backing_page (thread_at s' i) = of_nat p \<and> t_work (thread_at s' i) = b_load_elf (build s) \<and>
    backing_refs s' = (backing_refs s)[p := 1, unat (t_code_backing_page (thread_at s c)) :=
      backing_refs s ! unat (t_code_backing_page (thread_at s c)) + 1]"
proof -
  let ?q = "t_code_backing_page (thread_at s c)"
  have pages: "0 < CODE_BACKING_PAGES s" using assms(9) by simp
  have "CODE_BACKING_PAGES s \<le> 123456" using assms(1) by (simp add: sane_def kinv_def config_ok_def)
  then have p: "p < 123456" "unat (of_nat p :: size_t) = p" using assms(9) unat_of_nat32 [of p] by simp_all
  have p3: "(of_nat p :: size_t) \<noteq> INVALID_PAGE"
  proof
    assume "(of_nat p :: size_t) = INVALID_PAGE"
    then have "unat (of_nat p :: size_t) = 123456" by (simp add: INVALID_PAGE_def)
    then show False using p by simp
  qed
  have free: "find_free_backing_page s = of_nat p"
  proof -
    have "find (\<lambda>i. backing_refs s ! i = 0) [0..<CODE_BACKING_PAGES s] = Some p"
      using assms(9-11) by (simp add: find_Some_upt)
    then show ?thesis by (simp add: find_free_backing_page_def)
  qed
  have i: "i < length (all_threads s)" "int i \<noteq> INVALID_THREAD" using assms(4) by (simp_all add: MAX_THREADS_def INVALID_THREAD_def)
  define la where "la = make_args (backing_data (of_nat p) s) (ucast rp) NULL NULL"
  define s0 where "s0 = init_thread i (int i) (Some (map of_char ''loader'')) (b_load_elf (build s)) (\<lambda>_. la)
    (t_permissions (thread_at s c)) s"
  define s1 where "s1 = inc_ref ?q (upd_thread i (\<lambda>t. t\<lparr>t_code_backing_page := ?q\<rparr>) s0)"
  have add: "k_add_named_thread_with_args (b_load_elf (build s)) (Some (map of_char ''loader'')) (\<lambda>_. la) 0 s = Ret (int i) s1"
    unfolding s1_def s0_def using add_named_paged [OF assms(1,2,3) pages assms(4-7)] .
  have m1: "memory s1 = store_bytes (memory s) (ALIGN_STACK_PTR (t_stack (thread_at s i) + THREAD_STACK_SIZE) - 64) (fresh_context (build s))"
    using init_thread_memory [OF i(1)] by (simp add: s1_def s0_def)
  obtain len where len: "strlen (memory s1) filename = Some len" using assms(12) m1 by auto
  have r1: "backing_refs s1 = (backing_refs s)[unat ?q := backing_refs s ! unat ?q + 1]"
    by (simp add: s1_def s0_def inc_ref_def)
  have i1: "i < length (all_threads s1)" using i by (simp add: s1_def s0_def)
  have w1: "t_work (thread_at s1 i) = b_load_elf (build s)"
    using i by (simp add: s1_def s0_def thread_at_upd thread_at_init_thread fresh_thread_fields)
  obtain s2 where s2: "prepare_loader_stack i filename args s1 = Ret () s2" "backing_refs s2 = backing_refs s1"
    "length (all_threads s2) = length (all_threads s1)" "t_work (thread_at s2 i) = t_work (thread_at s1 i)"
    using len by (auto simp: prepare_loader_stack_def Let_def thread_at_upd)
  have ne: "unat ?q \<noteq> p" using assms(8,10) by auto
  have load: "k_add_thread_from_file_with_args filename args rp s =
      Ret (int i) (inc_ref (of_nat p) (upd_thread i (\<lambda>t. t\<lparr>t_code_backing_page := of_nat p\<rparr>) s2))"
    using pages free p3 add s2(1) i(2)
    by (simp add: k_add_thread_from_file_with_args_def Let_def la_def)
  have "backing_refs s2 ! p + 1 = 1" "p < length (backing_refs s)"
    using r1 s2(2) ne assms(9,10) by (simp_all add: CODE_BACKING_PAGES_def)
  then show ?thesis
    unfolding load using s2 r1 w1 i1 p(2) ne
    by (simp add: inc_ref_def thread_at_upd list_update_swap)
qed

section \<open>Witnesses\<close>

text \<open>Three backing pages; the first two threads have one each, the third thread has finished.\<close>

definition demo_code :: kstate where
  "demo_code = demo_state\<lparr>
     all_threads := [(demo_thread 0 running)\<lparr>t_code_backing_page := 0\<rparr>,
       (demo_thread 1 suspended)\<lparr>t_code_backing_page := 1\<rparr>, demo_thread 2 finished],
     build := demo_build\<lparr>b_code_page_size := 256\<rparr>, backing_refs := [1, 1, 0]\<rparr>"

lemma demo_code_simps [simp]:
  "thread_at demo_code 0 = (demo_thread 0 running)\<lparr>t_code_backing_page := 0\<rparr>"
  "thread_at demo_code (Suc 0) = (demo_thread 1 suspended)\<lparr>t_code_backing_page := 1\<rparr>"
  "thread_at demo_code 2 = demo_thread 2 finished"
  "current_thread demo_code = Some 0" "next_thread demo_code = None" "memory demo_code = (\<lambda>_. 0)"
  "backing_refs demo_code = [1, 1, 0]" "build demo_code = demo_build\<lparr>b_code_page_size := 256\<rparr>"
  "MAX_THREADS demo_code = 3" "CODE_BACKING_PAGES demo_code = 3" "CODE_PAGE_SIZE demo_code = 256"
  "block_tags demo_code = replicate 64 \<lparr>bt_tid = 0, bt_tag = 0\<rparr>"
  by (simp_all add: demo_code_def MAX_THREADS_def CODE_BACKING_PAGES_def CODE_PAGE_SIZE_def)

lemma demo_code_layout: "page_layout demo_code"
  by (simp add: page_layout_def apart_def)

lemma demo_code_sane: "sane demo_code"
proof -
  have threads: "i = 0 \<or> i = Suc 0 \<or> i = 2" if "i < 3" for i :: nat using that by auto
  have ok: "thread_ok (t\<lparr>t_code_backing_page := p\<rparr>) = thread_ok t" for t p by (simp add: thread_ok_def)
  have "heap_ok (block_tags demo_code)" "heap_region (build demo_code)"
    using demo_kinv by (simp_all add: kinv_def config_ok_def heap_region_def)
  then have "kinv demo_code"
    by (auto simp: kinv_def config_ok_def thread_inv_def ptr_ok_def ok INVALID_THREAD_def INVALID_PAGE_def dest!: threads)
  moreover have "running_is (Some 0) demo_code" by (auto simp: running_is_def dest!: threads)
  ultimately show ?thesis by (simp add: sane_def)
qed

theorem code_pages_round_trip_witness:
  "\<exists>s1 s2. swap_paged_threads (Some 0) (Some 1) demo_code = Ret () s1 \<and>
     swap_paged_threads (Some 1) (Some 0) s1 = Ret () s2 \<and> code_of s2 = code_of demo_code"
proof -
  obtain s1 where s1: "swap_paged_threads (Some 0) (Some 1) demo_code = Ret () s1"
    "\<And>m. backing_of 0 (set_memory m s1) = backing_of 0 s1 \<Longrightarrow>
      \<exists>s2. swap_paged_threads (Some 1) (Some 0) (set_memory m s1) = Ret () s2 \<and> code_of s2 = code_of demo_code"
    using code_pages_round_trip [of demo_code 0 1] demo_code_layout by simp blast
  have same: "set_memory (memory s1) s1 = s1" by (simp add: set_memory_def)
  show ?thesis using s1(1) s1(2) [of "memory s1", unfolded same, OF refl] by blast
qed

theorem loader_leaks_reference_witness:
  "\<exists>s'. k_add_thread_from_file_with_args 0x9000 (\<lambda>_. no_args) 0 demo_code = Ret 2 s' \<and> backing_refs s' = [2, 1, 1]"
proof -
  let ?m = "store_bytes (\<lambda>_. 0) (ALIGN_STACK_PTR (t_stack (thread_at demo_code 2) + THREAD_STACK_SIZE) - 64)
    (fresh_context (build demo_code))"
  have "ALIGN_STACK_PTR (t_stack (thread_at demo_code 2) + THREAD_STACK_SIZE) - 64 = 0x127C0"
    by (simp add: ALIGN_STACK_PTR_def THREAD_STACK_SIZE_def)
  then have "?m 0x9000 = 0" by (simp add: store_bytes_def)
  then have "strlen ?m 0x9000 = Some (of_nat (length ([] :: byte list)))" by (intro strlen_cstr) (simp add: cstr_Nil)
  moreover have "\<forall>j < 2. \<not> slot_free (thread_at demo_code j)" "\<forall>j < 2. backing_refs demo_code ! j \<noteq> 0"
    by (auto simp: slot_free_def INVALID_THREAD_def less_2_cases_iff)
  moreover have "slot_free (thread_at demo_code 2)" "t_code_backing_page (thread_at demo_code 0) \<noteq> INVALID_PAGE"
    by (simp_all add: slot_free_def INVALID_PAGE_def)
  ultimately show ?thesis
    using loader_leaks_reference [of demo_code 0 2 2 "0x9000" "\<lambda>_. no_args" 0] demo_code_sane by auto
qed

end
