(* ===== verification/User_Calls.thy ===== *)
theory User_Calls
  imports Code_Pages
begin

text \<open>
  The library of user programs, \<open>src/user\<close>: every function is one or a few system calls. The
  kernel is a parameter \<open>sys\<close>: what a call with up to four register arguments returns in the
  first register and leaves as the state when the calling thread goes on, whatever other threads
  have done in between. \<open>kernel\<close> instantiates it by the kernel of this development with an
  arbitrary effect of yielding. \<open>fp\<close> is the address of the function's frame, where the local
  variables are whose addresses are passed to the kernel.
\<close>

type_synonym kernel_call = "Syscall \<Rightarrow> size_t \<Rightarrow> size_t \<Rightarrow> size_t \<Rightarrow> size_t \<Rightarrow> kstate \<Rightarrow> size_t kresult"

definition kernel :: "host \<Rightarrow> (kstate \<Rightarrow> size_t kresult) \<Rightarrow> kernel_call" where
  "kernel h others c a b d e s = (if c = syscall_yield then others s else call_syscall h c a b d e s)"

section \<open>Results\<close>

definition as_bool :: "size_t kresult \<Rightarrow> bool kresult" where
  "as_bool m = obind m (\<lambda>r s. Ret (r \<noteq> 0) s)"

definition as_int :: "size_t kresult \<Rightarrow> int kresult" where
  "as_int m = obind m (\<lambda>r s. Ret (sint r) s)"

definition as_unit :: "size_t kresult \<Rightarrow> unit kresult" where
  "as_unit m = obind m (\<lambda>_ s. Ret () s)"

section \<open>Memory, mutexes, condition variables, files, exit\<close>

definition malloc :: "kernel_call \<Rightarrow> size_t \<Rightarrow> kstate \<Rightarrow> size_t kresult" where
  "malloc sys n s = sys syscall_malloc n 0 0 0 s"

definition realloc :: "kernel_call \<Rightarrow> size_t \<Rightarrow> size_t \<Rightarrow> kstate \<Rightarrow> size_t kresult" where
  "realloc sys ptr n s = sys syscall_realloc ptr n 0 0 s"

definition free :: "kernel_call \<Rightarrow> size_t \<Rightarrow> kstate \<Rightarrow> unit kresult" where
  "free sys ptr s = as_unit (sys syscall_free ptr 0 0 0 s)"

definition init_mutex :: "kernel_call \<Rightarrow> size_t \<Rightarrow> kstate \<Rightarrow> unit kresult" where
  "init_mutex sys m s = as_unit (sys syscall_mutex MUTEX_INIT m 0 0 s)"

definition lock_mutex :: "kernel_call \<Rightarrow> size_t \<Rightarrow> kstate \<Rightarrow> bool kresult" where
  "lock_mutex sys m s = as_bool (sys syscall_mutex MUTEX_LOCK m 0 0 s)"

definition unlock_mutex :: "kernel_call \<Rightarrow> size_t \<Rightarrow> kstate \<Rightarrow> bool kresult" where
  "unlock_mutex sys m s = as_bool (sys syscall_mutex MUTEX_UNLOCK m 0 0 s)"

definition init_condition_variable :: "kernel_call \<Rightarrow> size_t \<Rightarrow> kstate \<Rightarrow> unit kresult" where
  "init_condition_variable sys cv s = as_unit (sys syscall_condition_variable CONDITION_VARIABLE_INIT cv 0 0 s)"

definition signal_cv :: "kernel_call \<Rightarrow> size_t \<Rightarrow> kstate \<Rightarrow> bool kresult" where
  "signal_cv sys cv s = as_bool (sys syscall_condition_variable CONDITION_VARIABLE_SIGNAL cv 0 0 s)"

definition broadcast :: "kernel_call \<Rightarrow> size_t \<Rightarrow> kstate \<Rightarrow> unit kresult" where
  "broadcast sys cv s = as_unit (sys syscall_condition_variable CONDITION_VARIABLE_BROADCAST cv 0 0 s)"

definition wait :: "kernel_call \<Rightarrow> size_t \<Rightarrow> kstate \<Rightarrow> unit kresult" where
  "wait sys cv s = as_unit (sys syscall_condition_variable CONDITION_VARIABLE_WAIT cv 0 0 s)"

definition list_dir :: "kernel_call \<Rightarrow> size_t \<Rightarrow> size_t \<Rightarrow> size_t \<Rightarrow> kstate \<Rightarrow> int kresult" where
  "list_dir sys path out outsz s = as_int (sys syscall_list_dir path out outsz 0 s)"

definition open_file :: "kernel_call \<Rightarrow> size_t \<Rightarrow> size_t \<Rightarrow> kstate \<Rightarrow> size_t kresult" where
  "open_file sys path oflag s = sys syscall_open path oflag 0 0 s"

definition read_file :: "kernel_call \<Rightarrow> size_t \<Rightarrow> size_t \<Rightarrow> size_t \<Rightarrow> kstate \<Rightarrow> size_t kresult" where
  "read_file sys filedes buf nbyte s = sys syscall_read filedes buf nbyte 0 s"

definition write_file :: "kernel_call \<Rightarrow> size_t \<Rightarrow> size_t \<Rightarrow> size_t \<Rightarrow> kstate \<Rightarrow> size_t kresult" where
  "write_file sys fildes buf nbyte s = sys syscall_write fildes buf nbyte 0 s"

definition lseek :: "kernel_call \<Rightarrow> size_t \<Rightarrow> size_t \<Rightarrow> size_t \<Rightarrow> kstate \<Rightarrow> size_t kresult" where
  "lseek sys fd offset whence s = sys syscall_lseek fd offset whence 0 s"

definition remove_file :: "kernel_call \<Rightarrow> size_t \<Rightarrow> kstate \<Rightarrow> int kresult" where
  "remove_file sys path s = as_int (sys syscall_remove path 0 0 0 s)"

definition close :: "kernel_call \<Rightarrow> size_t \<Rightarrow> kstate \<Rightarrow> int kresult" where
  "close sys filedes s = as_int (sys syscall_close filedes 0 0 0 s)"

definition exit :: "kernel_call \<Rightarrow> int \<Rightarrow> kstate \<Rightarrow> unit kresult" where
  "exit sys status s = as_unit (sys syscall_exit (word_of_int status) 0 0 0 s)"

section \<open>Threads\<close>

text \<open>\<open>event\<close> is the text of the event with its arguments already put in.\<close>

definition log_event :: "string \<Rightarrow> kstate \<Rightarrow> kstate" where
  "log_event event s =
     (let info = user_thread_info s in
      if u_kernel_config info AND KCFG_LOG_THREADS = 0 then s
      else serial_print (''Thread '' @ format_thread_name (u_id info) (Some (name_string (u_name info))) @
             '': '' @ event @ [CHR 0x0A]) s)"

definition store_flags :: "mem \<Rightarrow> size_t \<Rightarrow> ThreadFlags \<Rightarrow> mem" where
  "store_flags m p fl = store16 (m(p := (if is_file fl then 1 else 0))) (p + 2) (remove_permissions fl)"

definition add_thread :: "kernel_call \<Rightarrow> size_t \<Rightarrow> size_t \<Rightarrow> size_t \<Rightarrow> size_t \<Rightarrow> size_t \<Rightarrow> kstate \<Rightarrow> int kresult" where
  "add_thread sys fp name args worker flags s =
     (let a = (if args = NULL then no_args else load_args args (memory s))
      in as_int (sys syscall_add_thread name fp worker flags (set_memory (store_bytes (memory s) fp (args_bytes a)) s)))"

text \<open>The flags of these functions are above the frame of \<open>add_thread\<close>, which has 16 bytes.\<close>

definition add_thread_with :: "kernel_call \<Rightarrow> size_t \<Rightarrow> bool \<Rightarrow> size_t \<Rightarrow> size_t \<Rightarrow> size_t \<Rightarrow> kstate \<Rightarrow> int kresult" where
  "add_thread_with sys fp file name args worker s =
     (let flags = \<lparr>is_file = file, remove_permissions = 0\<rparr>
      in add_thread sys fp name args worker (fp + 16) (set_memory (store_flags (memory s) (fp + 16) flags) s))"

definition add_named_thread :: "kernel_call \<Rightarrow> size_t \<Rightarrow> size_t \<Rightarrow> size_t \<Rightarrow> kstate \<Rightarrow> int kresult" where
  "add_named_thread sys fp worker name s = add_thread_with sys fp False name NULL worker s"

definition add_thread_from_worker :: "kernel_call \<Rightarrow> size_t \<Rightarrow> size_t \<Rightarrow> kstate \<Rightarrow> int kresult" where
  "add_thread_from_worker sys fp worker s = add_thread_with sys fp False NULL NULL worker s"

definition add_thread_from_file :: "kernel_call \<Rightarrow> size_t \<Rightarrow> size_t \<Rightarrow> kstate \<Rightarrow> int kresult" where
  "add_thread_from_file sys fp filename s = add_thread_with sys fp True filename NULL filename s"

definition add_thread_from_file_with_args :: "kernel_call \<Rightarrow> size_t \<Rightarrow> size_t \<Rightarrow> size_t \<Rightarrow> kstate \<Rightarrow> int kresult" where
  "add_thread_from_file_with_args sys fp filename args s = add_thread_with sys fp True filename args filename s"

definition add_named_thread_with_args :: "kernel_call \<Rightarrow> size_t \<Rightarrow> size_t \<Rightarrow> size_t \<Rightarrow> size_t \<Rightarrow> kstate \<Rightarrow> int kresult" where
  "add_named_thread_with_args sys fp worker name args s = add_thread_with sys fp False name args worker s"

definition restart :: "kernel_call \<Rightarrow> size_t \<Rightarrow> size_t \<Rightarrow> size_t \<Rightarrow> u16 \<Rightarrow> kstate \<Rightarrow> unit kresult" where
  "restart sys worker name args remove_perms s = as_unit (sys syscall_restart worker name args (ucast remove_perms) s)"

definition get_thread_id :: "kstate \<Rightarrow> int" where
  "get_thread_id s = u_id (user_thread_info s)"

definition get_thread_property :: "kernel_call \<Rightarrow> int \<Rightarrow> size_t \<Rightarrow> size_t \<Rightarrow> kstate \<Rightarrow> bool kresult" where
  "get_thread_property sys tid prop res s = as_bool (sys syscall_get_thread_property (word_of_int tid) prop res 0 s)"

definition set_thread_property :: "kernel_call \<Rightarrow> int \<Rightarrow> size_t \<Rightarrow> size_t \<Rightarrow> kstate \<Rightarrow> bool kresult" where
  "set_thread_property sys tid prop val s = as_bool (sys syscall_set_thread_property (word_of_int tid) prop val 0 s)"

definition thread_name :: "kernel_call \<Rightarrow> int \<Rightarrow> size_t \<Rightarrow> kstate \<Rightarrow> bool kresult" where
  "thread_name sys tid name s =
     (if tid = CURRENT_THREAD then
        if name = NULL then Ret False (set_errno E_INVALID_ARGS s)
        else Ret True (set_memory (store_bytes (memory s) name (take THREAD_NAME_SIZE (u_name (user_thread_info s)))) s)
      else get_thread_property sys tid TPROP_NAME name s)"

definition set_thread_name :: "kernel_call \<Rightarrow> int \<Rightarrow> size_t \<Rightarrow> kstate \<Rightarrow> bool kresult" where
  "set_thread_name sys tid name s = set_thread_property sys tid TPROP_NAME name s"

definition set_kernel_config :: "kernel_call \<Rightarrow> u32 \<Rightarrow> u32 \<Rightarrow> kstate \<Rightarrow> unit kresult" where
  "set_kernel_config sys enable disable s = as_unit (sys syscall_set_kernel_config enable disable 0 0 s)"

definition get_kernel_config :: "kstate \<Rightarrow> u32" where
  "get_kernel_config s = u_kernel_config (user_thread_info s)"

definition set_child :: "kernel_call \<Rightarrow> size_t \<Rightarrow> int \<Rightarrow> kstate \<Rightarrow> bool kresult" where
  "set_child sys fp child s =
     set_thread_property sys CURRENT_THREAD TPROP_CHILD fp (set_memory (store32 (memory s) fp (word_of_int child)) s)"

definition get_thread_state :: "kernel_call \<Rightarrow> int \<Rightarrow> size_t \<Rightarrow> kstate \<Rightarrow> bool kresult" where
  "get_thread_state sys tid state s = get_thread_property sys tid TPROP_STATE state s"

definition yield_call :: "kernel_call \<Rightarrow> int \<Rightarrow> int \<Rightarrow> kstate \<Rightarrow> bool kresult" where
  "yield_call sys tid kind s =
     obind (as_bool (sys syscall_yield (word_of_int tid) (word_of_int kind) 0 0 (log_event ''yielding'' s)))
       (\<lambda>yielded s. Ret yielded (log_event ''resuming'' s))"

definition yield :: "kernel_call \<Rightarrow> kstate \<Rightarrow> bool kresult" where
  "yield sys s = yield_call sys INVALID_THREAD YIELD_ANY s"

definition yield_to :: "kernel_call \<Rightarrow> int \<Rightarrow> kstate \<Rightarrow> bool kresult" where
  "yield_to sys tid s = yield_call sys tid YIELD_TO s"

definition get_msg :: "kernel_call \<Rightarrow> size_t \<Rightarrow> size_t \<Rightarrow> kstate \<Rightarrow> bool kresult" where
  "get_msg sys sender message s = as_bool (sys syscall_get_msg sender message 0 0 s)"

definition send_msg :: "kernel_call \<Rightarrow> int \<Rightarrow> u32 \<Rightarrow> kstate \<Rightarrow> bool kresult" where
  "send_msg sys destination message s = as_bool (sys syscall_send_msg (word_of_int destination) message 0 0 s)"

definition get_child :: "kernel_call \<Rightarrow> int \<Rightarrow> size_t \<Rightarrow> kstate \<Rightarrow> bool kresult" where
  "get_child sys tid child s = get_thread_property sys tid TPROP_CHILD child s"

definition get_parent :: "kernel_call \<Rightarrow> int \<Rightarrow> size_t \<Rightarrow> kstate \<Rightarrow> bool kresult" where
  "get_parent sys tid parent s = get_thread_property sys tid TPROP_PARENT parent s"

text \<open>Neither of the two results is looked at.\<close>

definition permissions :: "kernel_call \<Rightarrow> size_t \<Rightarrow> u16 \<Rightarrow> kstate \<Rightarrow> u16 kresult" where
  "permissions sys fp remove s =
     obind (set_thread_property sys CURRENT_THREAD TPROP_PERMISSIONS fp (set_memory (store16 (memory s) fp remove) s)) (\<lambda>_ s.
     obind (get_thread_property sys CURRENT_THREAD TPROP_PERMISSIONS (fp + 4)
              (set_memory (store16 (memory s) (fp + 4) 0) s)) (\<lambda>_ s.
     Ret (load16 (memory s) (fp + 4)) s))"

definition get_thread_registers :: "kernel_call \<Rightarrow> int \<Rightarrow> size_t \<Rightarrow> kstate \<Rightarrow> bool kresult" where
  "get_thread_registers sys tid regs s = get_thread_property sys tid TPROP_REGISTERS regs s"

text \<open>The register context is passed by value, as its 64 bytes.\<close>

definition set_thread_registers :: "kernel_call \<Rightarrow> size_t \<Rightarrow> int \<Rightarrow> byte list \<Rightarrow> kstate \<Rightarrow> bool kresult" where
  "set_thread_registers sys fp tid regs s =
     set_thread_property sys tid TPROP_REGISTERS fp (set_memory (store_bytes (memory s) fp regs) s)"

definition thread_signal :: "kernel_call \<Rightarrow> size_t \<Rightarrow> int \<Rightarrow> u32 \<Rightarrow> kstate \<Rightarrow> bool kresult" where
  "thread_signal sys fp tid signal s =
     set_thread_property sys tid TPROP_PENDING_SIGNALS fp (set_memory (store32 (memory s) fp signal) s)"

definition set_signal_handler :: "kernel_call \<Rightarrow> size_t \<Rightarrow> size_t \<Rightarrow> kstate \<Rightarrow> bool kresult" where
  "set_signal_handler sys fp handler s =
     set_thread_property sys CURRENT_THREAD TPROP_SIGNAL_HANDLER fp (set_memory (store32 (memory s) fp handler) s)"

definition thread_wait :: "kernel_call \<Rightarrow> kstate \<Rightarrow> unit kresult" where
  "thread_wait sys s = as_unit (sys syscall_thread_wait 0 0 0 0 s)"

definition thread_wake :: "kernel_call \<Rightarrow> int \<Rightarrow> kstate \<Rightarrow> bool kresult" where
  "thread_wake sys tid s = as_bool (sys syscall_thread_wake (word_of_int tid) 0 0 0 s)"

definition thread_cancel :: "kernel_call \<Rightarrow> int \<Rightarrow> kstate \<Rightarrow> bool kresult" where
  "thread_cancel sys tid s = as_bool (sys syscall_thread_cancel (word_of_int tid) 0 0 0 s)"

section \<open>Joining\<close>

text \<open>A state in memory, of the size the build gives to an enumeration.\<close>

definition load_state :: "size_t \<Rightarrow> kstate \<Rightarrow> u32" where
  "load_state p s =
     (let n = min 4 (b_enum_size (build s)) in word32_of (load_bytes (memory s) p n @ replicate (4 - n) 0))"

definition store_state :: "size_t \<Rightarrow> u32 \<Rightarrow> kstate \<Rightarrow> kstate" where
  "store_state p v s = set_memory (store_bytes (memory s) p (take (b_enum_size (build s)) (bytes32 v))) s"

text \<open>\<open>None\<close> is a loop that never ends.\<close>

partial_function (option) thread_join ::
  "kernel_call \<Rightarrow> size_t \<Rightarrow> int \<Rightarrow> size_t \<Rightarrow> kstate \<Rightarrow> bool kresult option" where
  "thread_join sys fp tid state s =
     (case get_thread_state sys tid fp s of
        Exit n s \<Rightarrow> Some (Exit n s)
      | Undef \<Rightarrow> Some Undef
      | Ret valid s \<Rightarrow>
          if \<not> valid then Some (Ret False s)
          else if load_state fp s = state_num finished \<or> load_state fp s = state_num cancelled then
            Some (Ret True (if state = NULL then s else store_state state (load_state fp s) s))
          else (case yield sys s of
              Exit n s \<Rightarrow> Some (Exit n s)
            | Undef \<Rightarrow> Some Undef
            | Ret b s \<Rightarrow> thread_join sys fp tid state s))"

end
