(* ===== verification/Elf.thy ===== *)
theory Elf
  imports User_Calls
begin

text \<open>
  The program loader, \<open>src/user/elf.c\<close>, as it is built for 32 bit Arm: a user program that reads an
  ELF file section by section through system calls, copies the sections to their places in the
  code page or a backing page, and resolves the relocations. Debug output is compiled out. The
  local buffers into which the kernel reads are at the addresses of \<open>Loader\<close>, as are the
  functions of the kernel that programs may use.
\<close>

record Loader =
  l_header :: size_t
  l_section_hdr :: size_t
  l_name :: size_t
  l_sym_table_name :: size_t
  l_sym_name_table_name :: size_t
  l_symbol :: size_t
  l_sym_name :: size_t
  l_reloc :: size_t
  l_function :: "string \<Rightarrow> size_t"

section \<open>File format\<close>

record ElfHeader =
  e_ident :: "byte list"
  e_type :: u16
  e_machine :: u16
  e_version :: u32
  e_entry :: size_t
  e_phoff :: size_t
  e_shoff :: size_t
  e_flags :: u32
  e_ehsize :: u16
  e_phentsize :: u16
  e_phnum :: u16
  e_shentsize :: u16
  e_shnum :: u16
  e_shstrndx :: u16

definition load_elf_header :: "mem \<Rightarrow> size_t \<Rightarrow> ElfHeader" where
  "load_elf_header m p = \<lparr>e_ident = load_bytes m p 16, e_type = load16 m (p + 16), e_machine = load16 m (p + 18),
     e_version = load32 m (p + 20), e_entry = load32 m (p + 24), e_phoff = load32 m (p + 28),
     e_shoff = load32 m (p + 32), e_flags = load32 m (p + 36), e_ehsize = load16 m (p + 40),
     e_phentsize = load16 m (p + 42), e_phnum = load16 m (p + 44), e_shentsize = load16 m (p + 46),
     e_shnum = load16 m (p + 48), e_shstrndx = load16 m (p + 50)\<rparr>"

record SectionHeader =
  sh_name :: u32
  sh_type :: u32
  sh_flags :: u32
  sh_addr :: size_t
  sh_offset :: size_t
  sh_size :: size_t
  sh_link :: u32
  sh_info :: u32
  sh_addralign :: u32
  sh_entsize :: u32

definition load_section_hdr :: "mem \<Rightarrow> size_t \<Rightarrow> SectionHeader" where
  "load_section_hdr m p = \<lparr>sh_name = load32 m p, sh_type = load32 m (p + 4), sh_flags = load32 m (p + 8),
     sh_addr = load32 m (p + 12), sh_offset = load32 m (p + 16), sh_size = load32 m (p + 20),
     sh_link = load32 m (p + 24), sh_info = load32 m (p + 28), sh_addralign = load32 m (p + 32),
     sh_entsize = load32 m (p + 36)\<rparr>"

record ELFRelocation =
  r_offset :: size_t
  r_info :: size_t

definition load_reloc :: "mem \<Rightarrow> size_t \<Rightarrow> ELFRelocation" where
  "load_reloc m p = \<lparr>r_offset = load32 m p, r_info = load32 m (p + 4)\<rparr>"

record ELFSymbol =
  st_name :: u32
  st_value :: size_t
  st_size :: u32
  st_info :: byte
  st_other :: byte
  st_shndx :: u16

definition load_symbol :: "mem \<Rightarrow> size_t \<Rightarrow> ELFSymbol" where
  "load_symbol m p = \<lparr>st_name = load32 m p, st_value = load32 m (p + 4), st_size = load32 m (p + 8),
     st_info = m (p + 12), st_other = m (p + 13), st_shndx = load16 m (p + 14)\<rparr>"

text \<open>The name of the symbol stays in the local buffer.\<close>

record SymbolInfo =
  si_idx :: u16
  si_symbol :: ELFSymbol
  si_type :: byte
  si_bind :: byte

definition SIZEOF_ElfHeader :: size_t where "SIZEOF_ElfHeader = 52"
definition SIZEOF_SectionHeader :: size_t where "SIZEOF_SectionHeader = 40"
definition SIZEOF_ELFRelocation :: size_t where "SIZEOF_ELFRelocation = 8"
definition SIZEOF_ELFSymbol :: size_t where "SIZEOF_ELFSymbol = 16"
definition MAX_SECTION_NAME_LEN :: size_t where "MAX_SECTION_NAME_LEN = 80"
definition MAX_SYMBOL_NAME_LEN :: size_t where "MAX_SYMBOL_NAME_LEN = 256"

definition RELOC_SYM :: "size_t \<Rightarrow> size_t" where "RELOC_SYM info = drop_bit 8 info"
definition RELOC_TYPE :: "size_t \<Rightarrow> size_t" where "RELOC_TYPE info = info AND 0xFF"
definition SYM_BIND :: "byte \<Rightarrow> byte" where "SYM_BIND x = drop_bit 4 x"
definition SYM_TYPE :: "byte \<Rightarrow> byte" where "SYM_TYPE x = x AND 0xF"

definition SHT_NOBITS :: u32 where "SHT_NOBITS = 8"
definition SHT_RELA :: u32 where "SHT_RELA = 4"
definition SHT_REL :: u32 where "SHT_REL = 9"
definition SHF_ALLOC :: u32 where "SHF_ALLOC = 2"
definition SHN_UNDEF :: u16 where "SHN_UNDEF = 0"
definition EI_DATA_BYTE :: nat where "EI_DATA_BYTE = 6"
definition ELFDATA2LSB :: byte where "ELFDATA2LSB = 1"
definition ET_EXEC :: u16 where "ET_EXEC = 2"
definition ET_DYN :: u16 where "ET_DYN = 3"
definition EXPECTED_MACHINE :: u16 where "EXPECTED_MACHINE = 40"
definition SYM_TYPE_FUNC :: byte where "SYM_TYPE_FUNC = 2"
definition R_ARM_REL32 :: size_t where "R_ARM_REL32 = 3"
definition R_ARM_GLOB_DAT :: size_t where "R_ARM_GLOB_DAT = 21"
definition R_ARM_JUMP_SLOT :: size_t where "R_ARM_JUMP_SLOT = 22"
definition R_ARM_RELATIVE :: size_t where "R_ARM_RELATIVE = 23"
definition R_AARCH64_GLOB_DAT :: size_t where "R_AARCH64_GLOB_DAT = 1025"
definition R_AARCH64_JUMP_SLOT :: size_t where "R_AARCH64_JUMP_SLOT = 1026"
definition R_AARCH64_RELATIVE :: size_t where "R_AARCH64_RELATIVE = 1027"

lemmas elf_consts = SIZEOF_ElfHeader_def SIZEOF_SectionHeader_def SIZEOF_ELFRelocation_def SIZEOF_ELFSymbol_def
  MAX_SECTION_NAME_LEN_def MAX_SYMBOL_NAME_LEN_def SHT_NOBITS_def SHT_RELA_def SHT_REL_def SHF_ALLOC_def
  SHN_UNDEF_def ELFDATA2LSB_def ET_EXEC_def ET_DYN_def EXPECTED_MACHINE_def SYM_TYPE_FUNC_def

definition section_type_tostr :: "u32 \<Rightarrow> string" where
  "section_type_tostr kind =
     (if kind = SHT_RELA then ''SHT_RELA'' else if kind = SHT_REL then ''SHT_REL'' else ''(unknown)'')"

definition elf_type_tostr :: "u16 \<Rightarrow> string" where
  "elf_type_tostr type =
     (if type = ET_EXEC then ''ET_EXEC'' else if type = ET_DYN then ''ET_DYN'' else ''(unknown)'')"

definition reloc_type_tostr :: "size_t \<Rightarrow> string" where
  "reloc_type_tostr reloc_type =
     (if reloc_type = R_ARM_REL32 then ''R_ARM_REL32''
      else if reloc_type = R_ARM_GLOB_DAT then ''R_ARM_GLOB_DAT''
      else if reloc_type = R_ARM_JUMP_SLOT then ''R_ARM_JUMP_SLOT''
      else if reloc_type = R_ARM_RELATIVE then ''R_ARM_RELATIVE''
      else if reloc_type = R_AARCH64_GLOB_DAT then ''R_AARCH64_GLOB_DAT''
      else if reloc_type = R_AARCH64_JUMP_SLOT then ''R_AARCH64_JUMP_SLOT''
      else if reloc_type = R_AARCH64_RELATIVE then ''R_AARCH64_RELATIVE''
      else ''(unknown)'')"

section \<open>Failing\<close>

text \<open>\<open>PRINT_EXIT\<close>, and the checks that lead to it. The loader would go on if \<open>exit\<close> came back.\<close>

definition print_exit :: "kernel_call \<Rightarrow> string \<Rightarrow> va_arg list \<Rightarrow> kstate \<Rightarrow> unit kresult" where
  "print_exit sys fmt args s = obind (k_printf (''Error: '' @ fmt) args s) (\<lambda>_ s. exit sys 1 s)"

definition exit_if :: "kernel_call \<Rightarrow> bool \<Rightarrow> string \<Rightarrow> va_arg list \<Rightarrow> kstate \<Rightarrow> unit kresult" where
  "exit_if sys c fmt args s = (if c then print_exit sys fmt args s else Ret () s)"

text \<open>A message with a string of the memory as one of its arguments.\<close>

definition print_exit_str :: "kernel_call \<Rightarrow> string \<Rightarrow> size_t \<Rightarrow> (va_arg \<Rightarrow> va_arg list) \<Rightarrow> kstate \<Rightarrow> unit kresult" where
  "print_exit_str sys fmt str args s =
     (case read_string (memory s) str of None \<Rightarrow> Undef | Some v \<Rightarrow> print_exit sys fmt (args (VStr (Some v))) s)"

definition nl :: string where "nl = [CHR 0x0A]"

section \<open>Reading parts of the file\<close>

definition checked_lseek :: "kernel_call \<Rightarrow> size_t \<Rightarrow> size_t \<Rightarrow> size_t \<Rightarrow> kstate \<Rightarrow> unit kresult" where
  "checked_lseek sys filedes offset whence s =
     obind (lseek sys filedes offset whence s) (\<lambda>new_pos s.
     exit_if sys (new_pos \<noteq> offset) (''Couldn't seek to offset %u'' @ nl) [VNum offset] s)"

definition get_section_name :: "kernel_call \<Rightarrow> size_t \<Rightarrow> size_t \<Rightarrow> size_t \<Rightarrow> u16 \<Rightarrow> size_t \<Rightarrow> kstate \<Rightarrow> unit kresult" where
  "get_section_name sys elf name_table_offset name_offset idx name s =
     obind (checked_lseek sys elf (name_table_offset + name_offset) SEEK_CUR s) (\<lambda>_ s.
     obind (read_file sys elf name MAX_SECTION_NAME_LEN s) (\<lambda>got s.
     exit_if sys (got \<noteq> MAX_SECTION_NAME_LEN) (''Failed to read name for section %u'' @ nl) [VNum (ucast idx)] s))"

definition get_section_header :: "kernel_call \<Rightarrow> Loader \<Rightarrow> size_t \<Rightarrow> u16 \<Rightarrow> size_t \<Rightarrow> size_t \<Rightarrow> kstate \<Rightarrow> SectionHeader kresult" where
  "get_section_header sys l elf idx section_table_offs section_hdr_size s =
     (let hdr_pos = section_table_offs + section_hdr_size * ucast idx in
      obind (checked_lseek sys elf hdr_pos SEEK_CUR s) (\<lambda>_ s.
      obind (read_file sys elf (l_section_hdr l) section_hdr_size s) (\<lambda>got s.
      obind (exit_if sys (got < section_hdr_size) (''Couldn't read header for section %u'' @ nl) [VNum (ucast idx)] s) (\<lambda>_ s.
      Ret (load_section_hdr (memory s) (l_section_hdr l)) s))))"

definition check_elf_hdr :: "kernel_call \<Rightarrow> ElfHeader \<Rightarrow> kstate \<Rightarrow> unit kresult" where
  "check_elf_hdr sys header s =
     obind (exit_if sys (e_ident header ! 0 \<noteq> 0x7F \<or> e_ident header ! 1 \<noteq> of_char (CHR ''E'') \<or>
              e_ident header ! 2 \<noteq> of_char (CHR ''L'') \<or> e_ident header ! 3 \<noteq> of_char (CHR ''F''))
       (''Magic bytes don't match an ELF file'' @ nl) [] s) (\<lambda>_ s.
     obind (exit_if sys (e_ident header ! 6 \<noteq> ELFDATA2LSB) (''ELF must be little endian'' @ nl) [] s) (\<lambda>_ s.
     obind (exit_if sys (e_machine header \<noteq> EXPECTED_MACHINE) ''e_machine does not match expected value'' [] s) (\<lambda>_ s.
     obind (exit_if sys (e_shoff header = 0) (''ELF has no section table'' @ nl) [] s) (\<lambda>_ s.
     obind (if e_type header = ET_EXEC \<or> e_type header = ET_DYN then Ret () s
            else obind (print_exit sys (''Unexpected ELF type %u (%s)'' @ nl)
                     [VNum (ucast (e_type header)), VStr (Some (elf_type_tostr (e_type header)))] s) (\<lambda>_ _. Undef)) (\<lambda>_ s.
     exit_if sys (e_shstrndx header = SHN_UNDEF) (''No section name string table'' @ nl) [] s)))))"

section \<open>Symbols\<close>

definition kernel_symbols :: "string list" where
  "kernel_symbols = [''log_event'', ''add_named_thread'', ''printf'', ''exit'', ''set_kernel_config'', ''yield'']"

text \<open>The search through the table; \<open>None\<close> is a string that never ends.\<close>

fun find_kernel_symbol :: "Loader \<Rightarrow> string list \<Rightarrow> size_t \<Rightarrow> kstate \<Rightarrow> size_t option option" where
  "find_kernel_symbol l [] name s = Some None"
| "find_kernel_symbol l (k # ks) name s =
     (case strcmp (memory s) (b_literal (build s) k) name of
        None \<Rightarrow> None
      | Some r \<Rightarrow> if r = 0 then Some (Some (l_function l k)) else find_kernel_symbol l ks name s)"

definition get_kernel_symbol_value :: "kernel_call \<Rightarrow> Loader \<Rightarrow> size_t \<Rightarrow> kstate \<Rightarrow> size_t kresult" where
  "get_kernel_symbol_value sys l name s =
     (case find_kernel_symbol l kernel_symbols name s of
        None \<Rightarrow> Undef
      | Some (Some v) \<Rightarrow> Ret v s
      | Some None \<Rightarrow> obind (print_exit_str sys (''Couldn't find address for symbol \"%s\"'' @ nl) name (\<lambda>v. [v]) s) (\<lambda>_ _. Undef))"

definition get_symbol_info ::
  "kernel_call \<Rightarrow> Loader \<Rightarrow> size_t \<Rightarrow> u16 \<Rightarrow> size_t \<Rightarrow> size_t \<Rightarrow> size_t \<Rightarrow> size_t \<Rightarrow> kstate \<Rightarrow> SymbolInfo kresult" where
  "get_symbol_info sys l elf table_idx sym_idx section_table_offs section_hdr_size section_name_table_offset s =
     obind (get_section_header sys l elf table_idx section_table_offs section_hdr_size s) (\<lambda>sym_table_hdr s.
     obind (get_section_name sys elf section_name_table_offset (sh_name sym_table_hdr) table_idx (l_sym_table_name l) s) (\<lambda>_ s.
     obind (get_section_header sys l elf (ucast (sh_link sym_table_hdr)) section_table_offs section_hdr_size s) (\<lambda>sym_name_table_hdr s.
     obind (get_section_name sys elf section_name_table_offset (sh_name sym_name_table_hdr)
              (ucast (sh_link sym_table_hdr)) (l_sym_name_table_name l) s) (\<lambda>_ s.
     obind (exit_if sys (sh_entsize sym_table_hdr \<noteq> SIZEOF_ELFSymbol)
              (''Symbol table entsize doesn't match struct size (%u vs %u)'' @ nl)
              [VNum (sh_entsize sym_table_hdr), VNum SIZEOF_ELFSymbol] s) (\<lambda>_ s.
     let symbol_offset = sh_offset sym_table_hdr + sym_idx * sh_entsize sym_table_hdr in
     obind (checked_lseek sys elf symbol_offset SEEK_CUR s) (\<lambda>_ s.
     obind (read_file sys elf (l_symbol l) (sh_entsize sym_table_hdr) s) (\<lambda>got s.
     obind (exit_if sys (got < sh_entsize sym_table_hdr) (''Couldn't read symbol at index %u'' @ nl) [VNum sym_idx] s) (\<lambda>_ s.
     let symbol = load_symbol (memory s) (l_symbol l) in
     obind (checked_lseek sys elf (sh_offset sym_name_table_hdr + st_name symbol) SEEK_CUR s) (\<lambda>_ s.
     obind (read_file sys elf (l_sym_name l) MAX_SYMBOL_NAME_LEN s) (\<lambda>got s.
     obind (exit_if sys (sint got < sint MAX_SYMBOL_NAME_LEN) (''Failed to read symbol name for index %u'' @ nl) [VNum sym_idx] s) (\<lambda>_ s.
     Ret \<lparr>si_idx = ucast sym_idx, si_symbol = symbol, si_type = SYM_TYPE (st_info symbol),
           si_bind = SYM_BIND (st_info symbol)\<rparr> s)))))))))))"

section \<open>Relocations\<close>

definition CODE_PAGE :: "kstate \<Rightarrow> size_t" where
  "CODE_PAGE s = b_code_page (build s)"

definition END_CODE_PAGE :: "kstate \<Rightarrow> size_t" where
  "END_CODE_PAGE s = b_code_page (build s) + of_nat (b_code_page_size (build s))"

text \<open>The value that goes to \<open>location\<close> for a relocation that is not relative; an unknown type is an error
  and leaves the place as it is. The addend of a plain relocation is 0.\<close>

definition apply_reloc :: "kernel_call \<Rightarrow> size_t \<Rightarrow> size_t \<Rightarrow> size_t \<Rightarrow> kstate \<Rightarrow> unit kresult" where
  "apply_reloc sys reloc_type symbol_value location s =
     (if reloc_type = R_ARM_JUMP_SLOT \<or> reloc_type = R_ARM_GLOB_DAT \<or>
         reloc_type = R_AARCH64_JUMP_SLOT \<or> reloc_type = R_AARCH64_GLOB_DAT then
        Ret () (set_memory (store32 (memory s) location symbol_value) s)
      else if reloc_type = R_ARM_REL32 then
        Ret () (set_memory (store32 (memory s) location (symbol_value - location)) s)
      else print_exit sys (''Unhandled relocation type %u (%s)'' @ nl)
             [VNum reloc_type, VStr (Some (reloc_type_tostr reloc_type))] s)"

text \<open>One round of the loop, from \<open>reloc\<close> having been read. A function's address has no mode bit on Arm.\<close>

definition resolve_reloc ::
  "kernel_call \<Rightarrow> Loader \<Rightarrow> size_t \<Rightarrow> SectionHeader \<Rightarrow> size_t \<Rightarrow> size_t \<Rightarrow> size_t \<Rightarrow> ELFRelocation \<Rightarrow> kstate \<Rightarrow> unit kresult" where
  "resolve_reloc sys l elf section_hdr section_table_offs section_hdr_size name_table_offset reloc s =
     (let reloc_type = RELOC_TYPE (r_info reloc);
          reloc_sym = RELOC_SYM (r_info reloc);
          location = CODE_PAGE s + r_offset reloc in
      obind (exit_if sys (location < CODE_PAGE s \<or> location \<ge> END_CODE_PAGE s)
               (''Relocation result location 0x%x outside of code page!'' @ nl) [VNum location] s) (\<lambda>_ s.
      if reloc_type = R_ARM_RELATIVE \<or> reloc_type = R_AARCH64_RELATIVE then
        obind (exit_if sys (reloc_sym \<noteq> 0) (''Expected no symbol with R_ARM_RELATIVE!'' @ nl) [] s) (\<lambda>_ s.
        Ret () (set_memory (store32 (memory s) location (load32 (memory s) location + CODE_PAGE s)) s))
      else
        obind (get_symbol_info sys l elf (ucast (sh_link section_hdr)) reloc_sym section_table_offs
                 section_hdr_size name_table_offset s) (\<lambda>sym_info s.
        obind (if st_shndx (si_symbol sym_info) = SHN_UNDEF
               then get_kernel_symbol_value sys l (l_sym_name l) s
               else Ret (st_value (si_symbol sym_info) + CODE_PAGE s) s) (\<lambda>symbol_value s.
        apply_reloc sys reloc_type symbol_value location s))))"

text \<open>The loop over the relocations of a section; \<open>None\<close> is a loop that never ends.\<close>

partial_function (option) reloc_loop ::
  "kernel_call \<Rightarrow> Loader \<Rightarrow> size_t \<Rightarrow> SectionHeader \<Rightarrow> size_t \<Rightarrow> size_t \<Rightarrow> size_t \<Rightarrow> size_t \<Rightarrow> size_t \<Rightarrow> size_t \<Rightarrow> kstate \<Rightarrow> unit kresult option" where
  "reloc_loop sys l elf section_hdr section_table_offs section_hdr_size name_table_offset section_end offs reloc_idx s =
     (if offs < section_end then
        (case obind (checked_lseek sys elf offs SEEK_CUR s) (\<lambda>_ s.
              obind (read_file sys elf (l_reloc l) SIZEOF_ELFRelocation s) (\<lambda>got s.
              obind (if got \<noteq> SIZEOF_ELFRelocation
                     then print_exit_str sys (''Failed to read reloc %u in section %s'' @ nl) (l_name l) (\<lambda>v. [VNum reloc_idx, v]) s
                     else Ret () s) (\<lambda>_ s.
              resolve_reloc sys l elf section_hdr section_table_offs section_hdr_size name_table_offset
                (load_reloc (memory s) (l_reloc l)) s))) of
           Exit n s \<Rightarrow> Some (Exit n s)
         | Undef \<Rightarrow> Some Undef
         | Ret _ s \<Rightarrow> reloc_loop sys l elf section_hdr section_table_offs section_hdr_size name_table_offset section_end
                       (offs + SIZEOF_ELFRelocation) (reloc_idx + 1) s)
      else Some (Ret () s))"

definition resolve_relocs ::
  "kernel_call \<Rightarrow> Loader \<Rightarrow> size_t \<Rightarrow> u16 \<Rightarrow> size_t \<Rightarrow> size_t \<Rightarrow> size_t \<Rightarrow> kstate \<Rightarrow> unit kresult" where
  "resolve_relocs sys l elf idx section_table_offs section_hdr_size name_table_offset s =
     obind (get_section_header sys l elf idx section_table_offs section_hdr_size s) (\<lambda>section_hdr s.
     obind (get_section_name sys elf name_table_offset (sh_name section_hdr) idx (l_name l) s) (\<lambda>_ s.
     if sh_type section_hdr \<noteq> SHT_REL \<and> sh_type section_hdr \<noteq> SHT_RELA then Ret () s
     else
       obind (exit_if sys (sh_type section_hdr = SHT_RELA) (''Unexpected reloc type %s (%u)'' @ nl)
                [VStr (Some (section_type_tostr (sh_type section_hdr))), VNum (sh_type section_hdr)] s) (\<lambda>_ s.
       case reloc_loop sys l elf section_hdr section_table_offs section_hdr_size name_table_offset
              (sh_offset section_hdr + sh_size section_hdr) (sh_offset section_hdr) 0 s of
         None \<Rightarrow> Undef | Some r \<Rightarrow> r)))"

section \<open>Sections\<close>

text \<open>The checks of a section against the code page.\<close>

definition check_section :: "kernel_call \<Rightarrow> size_t \<Rightarrow> size_t \<Rightarrow> kstate \<Rightarrow> unit kresult" where
  "check_section sys section_start section_end s =
     obind (exit_if sys (section_start < CODE_PAGE s \<or> section_start \<ge> END_CODE_PAGE s)
              (''Section start address not within code page'' @ nl) [] s) (\<lambda>_ s.
     exit_if sys (section_end \<ge> END_CODE_PAGE s) (''Section extends off of the end of the code page'' @ nl) [] s)"

definition load_section ::
  "kernel_call \<Rightarrow> Loader \<Rightarrow> size_t \<Rightarrow> u16 \<Rightarrow> size_t \<Rightarrow> size_t \<Rightarrow> size_t \<Rightarrow> size_t \<Rightarrow> bool \<Rightarrow> kstate \<Rightarrow> bool kresult" where
  "load_section sys l elf idx section_table_offs section_hdr_size name_table_offset dest is_shared s =
     obind (get_section_header sys l elf idx section_table_offs section_hdr_size s) (\<lambda>section_hdr s.
     obind (get_section_name sys elf name_table_offset (sh_name section_hdr) idx (l_name l) s) (\<lambda>_ s.
     if sh_flags section_hdr AND SHF_ALLOC = 0 then Ret False s
     else
       (let section_start = (if is_shared then sh_addr section_hdr + CODE_PAGE s else sh_addr section_hdr);
            section_end = section_start + sh_size section_hdr in
        obind (check_section sys section_start section_end s) (\<lambda>_ s.
        obind (checked_lseek sys elf (sh_offset section_hdr) SEEK_CUR s) (\<lambda>_ s.
        let dest_addr = dest + (section_start - CODE_PAGE s) in
        if sh_type section_hdr AND SHT_NOBITS \<noteq> 0 then
          Ret True (set_memory (memset (memory s) dest_addr 0 (sh_size section_hdr)) s)
        else
          obind (read_file sys elf dest_addr (sh_size section_hdr) s) (\<lambda>section_got s.
          obind (if section_got \<noteq> sh_size section_hdr
                 then print_exit_str sys (''Couldn't read content for section \"%s\" (%u)'' @ nl) (l_name l)
                        (\<lambda>v. [v, VNum (ucast idx)]) s
                 else Ret () s) (\<lambda>_ s. Ret True s))))))) "

section \<open>The whole file\<close>

fun load_sections ::
  "kernel_call \<Rightarrow> Loader \<Rightarrow> size_t \<Rightarrow> ElfHeader \<Rightarrow> size_t \<Rightarrow> size_t \<Rightarrow> bool \<Rightarrow> nat list \<Rightarrow> bool \<Rightarrow> kstate \<Rightarrow> bool kresult" where
  "load_sections sys l elf hdr name_table_offset dest is_shared [] loaded_something s = Ret loaded_something s"
| "load_sections sys l elf hdr name_table_offset dest is_shared (idx # idxs) loaded_something s =
     obind (load_section sys l elf (of_nat idx) (e_shoff hdr) (ucast (e_shentsize hdr)) name_table_offset dest is_shared s)
       (\<lambda>loaded s. load_sections sys l elf hdr name_table_offset dest is_shared idxs (loaded_something \<or> loaded) s)"

fun resolve_all ::
  "kernel_call \<Rightarrow> Loader \<Rightarrow> size_t \<Rightarrow> ElfHeader \<Rightarrow> size_t \<Rightarrow> nat list \<Rightarrow> kstate \<Rightarrow> unit kresult" where
  "resolve_all sys l elf hdr name_table_offset [] s = Ret () s"
| "resolve_all sys l elf hdr name_table_offset (idx # idxs) s =
     obind (resolve_relocs sys l elf (of_nat idx) (e_shoff hdr) (ucast (e_shentsize hdr)) name_table_offset s)
       (\<lambda>_ s. resolve_all sys l elf hdr name_table_offset idxs s)"

definition load_elf ::
  "kernel_call \<Rightarrow> Loader \<Rightarrow> size_t \<Rightarrow> u16 \<Rightarrow> size_t \<Rightarrow> size_t \<Rightarrow> kstate \<Rightarrow> unit kresult" where
  "load_elf sys l dest remove_perms args filename s =
     obind (open_file sys filename O_RDONLY s) (\<lambda>elf s.
     obind (if sint elf < 0
            then print_exit_str sys (''Couldn't open file \"%s\" (errno %u, %s)'' @ nl) filename
                   (\<lambda>v. [v, VNum (word_of_int (u_err_no (user_thread_info s))),
                      VStr (Some (strerror (u_err_no (user_thread_info s))))]) s
            else Ret () s) (\<lambda>_ s.
     obind (read_file sys elf (l_header l) SIZEOF_ElfHeader s) (\<lambda>got s.
     obind (if got < SIZEOF_ElfHeader
            then print_exit_str sys (''Couldn't read complete header from %s'' @ nl) filename (\<lambda>v. [v]) s
            else Ret () s) (\<lambda>_ s.
     let hdr = load_elf_header (memory s) (l_header l) in
     obind (check_elf_hdr sys hdr s) (\<lambda>_ s.
     obind (exit_if sys (SIZEOF_SectionHeader \<noteq> ucast (e_shentsize hdr)) (''Section header size didn't match struct size'' @ nl) [] s) (\<lambda>_ s.
     obind (get_section_header sys l elf (e_shstrndx hdr) (e_shoff hdr) (ucast (e_shentsize hdr)) s) (\<lambda>name_table_hdr s.
     let is_shared = (e_type hdr = ET_DYN); idxs = [0..<unat (e_shnum hdr)] in
     obind (load_sections sys l elf hdr (sh_offset name_table_hdr) dest is_shared idxs False s) (\<lambda>loaded_something s.
     obind (if \<not> loaded_something
            then print_exit_str sys (''Loaded no sections from \"%s\"'' @ nl) filename (\<lambda>v. [v]) s
            else Ret () s) (\<lambda>_ s.
     obind (resolve_all sys l elf hdr (sh_offset name_table_hdr) idxs s) (\<lambda>_ s.
     let entry_point = (if is_shared then e_entry hdr + CODE_PAGE s else e_entry hdr) in
     obind (restart sys entry_point filename args remove_perms s) (\<lambda>_ _. Undef)))))))))))"

end
