(* ===== verification/Confined.thy ===== *)
theory Confined
  imports Kernel_State
begin

text \<open>
  The addresses a computation may write to: what the loader and the shell rely on when a system call
  or a function they call has changed the memory.
\<close>

section \<open>Where a computation writes\<close>

text \<open>The addresses of \<open>n\<close> bytes from \<open>a\<close> on.\<close>

definition region :: "size_t \<Rightarrow> nat \<Rightarrow> size_t set" where
  "region a n = {x. unat (x - a) < n}"

definition same_outside :: "size_t set \<Rightarrow> kstate \<Rightarrow> kstate \<Rightarrow> bool" where
  "same_outside A s s' \<longleftrightarrow> build s' = build s \<and> (\<forall>x. x \<notin> A \<longrightarrow> memory s' x = memory s x)"

text \<open>Whether it returns or ends the system, the computation has written only to \<open>A\<close>.\<close>

definition confined :: "size_t set \<Rightarrow> kstate \<Rightarrow> 'a kresult \<Rightarrow> bool" where
  "confined A s m \<longleftrightarrow> (case m of Ret _ s' \<Rightarrow> same_outside A s s' | Exit _ s' \<Rightarrow> same_outside A s s' | Undef \<Rightarrow> True)"

lemma confined_simps [simp]:
  "confined A s (Ret a s') \<longleftrightarrow> same_outside A s s'" "confined A s (Exit n s') \<longleftrightarrow> same_outside A s s'"
  "confined A s Undef"
  by (simp_all add: confined_def)

lemma same_outside_refl [simp]: "same_outside A s s"
  by (simp add: same_outside_def)

lemma same_outside_trans: "same_outside A s1 s2 \<Longrightarrow> same_outside A s2 s3 \<Longrightarrow> same_outside A s1 s3"
  by (simp add: same_outside_def)

lemma same_outside_mono: "same_outside A s s' \<Longrightarrow> A \<subseteq> B \<Longrightarrow> same_outside B s s'"
  by (auto simp: same_outside_def)

lemma confined_mono: "confined A s m \<Longrightarrow> A \<subseteq> B \<Longrightarrow> confined B s m"
  by (cases m) (auto intro: same_outside_mono)

lemma confined_start: "same_outside A s s1 \<Longrightarrow> confined A s1 m \<Longrightarrow> confined A s m"
  by (cases m) (auto intro: same_outside_trans)

lemma confined_bind:
  assumes "confined A s m" and "\<And>a s1. m = Ret a s1 \<Longrightarrow> same_outside A s s1 \<Longrightarrow> confined A s1 (f a s1)"
  shows "confined A s (obind m f)"
  using assms by (cases m) (auto intro: confined_start)

lemma same_outside_serial [simp]: "same_outside A s (serial_print str s)"
  by (simp add: same_outside_def serial_print_def)

lemma same_outside_store:
  "region a (length bs) \<subseteq> A \<Longrightarrow> same_outside A s (set_memory (store_bytes (memory s) a bs) s)"
  by (auto simp: same_outside_def store_bytes_def region_def)

lemma region_part: "off + k \<le> n \<Longrightarrow> n \<le> 2 ^ 32 \<Longrightarrow> region (a + of_nat off) k \<subseteq> region a n"
proof
  fix x
  assume le: "off + k \<le> n" "n \<le> 2 ^ 32" and x: "x \<in> region (a + of_nat off) k"
  then have lt: "unat (x - (a + of_nat off)) < k" by (simp add: region_def)
  have "unat (x - a) = unat ((x - (a + of_nat off)) + of_nat off)" by (simp add: algebra_simps)
  also have "\<dots> = unat (x - (a + of_nat off)) + off"
    using lt le by (subst unat_add32) (auto simp: unat_of_nat32)
  finally show "x \<in> region a n" using lt le by (simp add: region_def)
qed

section \<open>Strings that stay\<close>

lemma cstr_cong:
  assumes "\<And>x. x \<in> region p (Suc (length w)) \<Longrightarrow> m' x = m x"
  shows "cstr m' p w \<longleftrightarrow> cstr m p w"
proof (cases "length w < 2 ^ 32")
  case True
  have "load_bytes m' p (Suc (length w)) = load_bytes m p (Suc (length w))"
  proof (rule load_bytes_cong)
    fix i assume "i < Suc (length w)"
    with True show "m' (p + of_nat i) = m (p + of_nat i)" by (intro assms) (simp add: region_def)
  qed
  then show ?thesis by (simp add: cstr_def)
qed (simp add: cstr_def)

lemma load32_cong_region:
  assumes "\<And>x. x \<in> region p 4 \<Longrightarrow> m' x = m x"
  shows "load32 m' p = load32 m p"
proof -
  have "load_bytes m' p 4 = load_bytes m p 4"
    by (rule load_bytes_cong) (auto intro!: assms simp: region_def)
  then show ?thesis by (simp add: load32_def)
qed

lemma region_apart: "apart a n b k \<Longrightarrow> x \<in> region b k \<Longrightarrow> x \<notin> region a n"
proof
  assume a: "apart a n b k" and b: "x \<in> region b k" and c: "x \<in> region a n"
  have "n \<le> unat (b + of_nat (unat (x - b)) - a)" using a b by (intro apart_offset) (auto simp: region_def)
  with c show False by (simp add: region_def)
qed

end
