(* ===== verification/Elf_File.thy ===== *)
theory Elf_File
  imports Elf Confined
begin

text \<open>
  What the loader relies on when it reads its file, as an interface: calls that write nothing but the
  buffer they are given, and a file whose parts are read by seeking and reading. The kernel with a
  debugger host that serves one file provides it.
\<close>

section \<open>The calls the loader makes\<close>

locale file_calls =
  fixes sys :: kernel_call and fd :: size_t
  assumes read_confined: "confined (region buf (unat n)) s (sys syscall_read fd buf n 0 s)"
    and seek_confined: "confined {} s (sys syscall_lseek fd off SEEK_CUR 0 s)"
    and exit_exits: "sys syscall_exit status 0 0 0 s = Exit (sint status) s"
begin

lemma exits: "exit sys 1 s = Exit 1 s"
  by (simp add: exit_def as_unit_def exit_exits)

lemma print_exit_confined: "confined A s (print_exit sys fmt args s)"
  by (simp add: print_exit_def k_printf_def exits split: option.split)

lemma exit_if_confined: "confined A s (exit_if sys c fmt args s)"
  by (simp add: exit_if_def print_exit_confined)

lemma print_exit_str_confined: "confined A s (print_exit_str sys fmt str args s)"
  by (simp add: print_exit_str_def print_exit_confined split: option.split)

lemma print_exit_no_return: "print_exit sys fmt args s \<noteq> Ret () s'" "print_exit_str sys fmt str as s \<noteq> Ret () s'"
  by (simp_all add: print_exit_str_def print_exit_def k_printf_def exits split: option.split)

lemma exit_if_Ret: "exit_if sys c fmt args s = Ret () s' \<longleftrightarrow> \<not> c \<and> s' = s"
  by (auto simp: exit_if_def print_exit_no_return)

lemma lseek_confined: "confined A s (checked_lseek sys fd off SEEK_CUR s)"
  unfolding checked_lseek_def lseek_def
  by (intro confined_bind confined_mono [OF seek_confined] exit_if_confined) simp

lemma read_file_confined: "region buf (unat n) \<subseteq> A \<Longrightarrow> confined A s (read_file sys fd buf n s)"
  unfolding read_file_def by (rule confined_mono [OF read_confined])

lemma section_name_confined:
  "region name (unat MAX_SECTION_NAME_LEN) \<subseteq> A \<Longrightarrow> confined A s (get_section_name sys fd tab off idx name s)"
  unfolding get_section_name_def by (intro confined_bind lseek_confined read_file_confined exit_if_confined)

lemma section_header_confined:
  "region (l_section_hdr l) (unat hsz) \<subseteq> A \<Longrightarrow> confined A s (get_section_header sys l fd idx offs hsz s)"
  unfolding get_section_header_def Let_def
  by (intro confined_bind lseek_confined read_file_confined exit_if_confined) simp_all

end

section \<open>Relocations\<close>

text \<open>The local buffers of the loader.\<close>

definition loader_buffers :: "Loader \<Rightarrow> size_t set" where
  "loader_buffers l = region (l_section_hdr l) (unat SIZEOF_SectionHeader) \<union> region (l_name l) (unat MAX_SECTION_NAME_LEN) \<union>
     region (l_sym_table_name l) (unat MAX_SECTION_NAME_LEN) \<union> region (l_sym_name_table_name l) (unat MAX_SECTION_NAME_LEN) \<union>
     region (l_symbol l) (unat SIZEOF_ELFSymbol) \<union> region (l_sym_name l) (unat MAX_SYMBOL_NAME_LEN) \<union>
     region (l_reloc l) (unat SIZEOF_ELFRelocation)"

text \<open>The code page does not reach the end of the address space.\<close>

definition page_ok :: "Build \<Rightarrow> bool" where
  "page_ok b \<longleftrightarrow> unat (b_code_page b) + b_code_page_size b + 3 < 2 ^ 32"

definition code_area :: "Build \<Rightarrow> size_t set" where
  "code_area b = region (b_code_page b) (b_code_page_size b + 3)"

lemma END_CODE_PAGE_unat: "page_ok (build s) \<Longrightarrow> unat (END_CODE_PAGE s) = unat (CODE_PAGE s) + b_code_page_size (build s)"
  unfolding END_CODE_PAGE_def CODE_PAGE_def page_ok_def by (subst unat_add32) auto

text \<open>An address that passes the check is at an offset less than the size.\<close>

lemma in_code_page:
  assumes "page_ok (build s)" and "\<not> (a < CODE_PAGE s \<or> a \<ge> END_CODE_PAGE s)"
  shows "a = CODE_PAGE s + of_nat (unat (a - CODE_PAGE s))" and "unat (a - CODE_PAGE s) < b_code_page_size (build s)"
    and "unat a = unat (CODE_PAGE s) + unat (a - CODE_PAGE s)"
proof -
  have le: "CODE_PAGE s \<le> a" "unat a < unat (CODE_PAGE s) + b_code_page_size (build s)"
    using assms END_CODE_PAGE_unat [OF assms(1)] by (simp_all add: not_less not_le word_less_nat_alt word_le_nat_alt)
  then have "unat (a - CODE_PAGE s) = unat a - unat (CODE_PAGE s)" "unat (CODE_PAGE s) \<le> unat a"
    using unat_sub_if' [of a "CODE_PAGE s"] by (simp_all add: word_le_nat_alt)
  then show "a = CODE_PAGE s + of_nat (unat (a - CODE_PAGE s))" "unat (a - CODE_PAGE s) < b_code_page_size (build s)"
    "unat a = unat (CODE_PAGE s) + unat (a - CODE_PAGE s)" using le by simp_all
qed

lemma reloc_place:
  assumes "page_ok (build s)" and "\<not> (a < CODE_PAGE s \<or> a \<ge> END_CODE_PAGE s)"
  shows "region a 4 \<subseteq> code_area (build s)"
  using in_code_page(1,2) [OF assms] assms(1) region_part [of "unat (a - CODE_PAGE s)" 4 "b_code_page_size (build s) + 3" "CODE_PAGE s"]
  by (simp add: code_area_def CODE_PAGE_def page_ok_def)

lemma same_outside_build: "same_outside A s s' \<Longrightarrow> build s' = build s"
  by (simp add: same_outside_def)

context file_calls
begin

lemma symbol_info_confined:
  assumes "loader_buffers l \<subseteq> A"
  shows "confined A s (get_symbol_info sys l fd ti si offs SIZEOF_SectionHeader nt s)"
proof -
  note buffers = assms [unfolded loader_buffers_def Un_subset_iff]
  show ?thesis
    unfolding get_symbol_info_def Let_def
    by (intro confined_bind section_header_confined section_name_confined lseek_confined exit_if_confined
        read_file_confined confined_simps(1) [THEN iffD2] same_outside_refl)
      (use buffers in \<open>auto simp: exit_if_Ret\<close>)
qed

lemma kernel_symbol_confined: "confined A s (get_kernel_symbol_value sys l name s)"
  unfolding get_kernel_symbol_value_def
  by (auto split: option.split intro!: confined_bind print_exit_str_confined)

lemma apply_reloc_confined: "region loc 4 \<subseteq> A \<Longrightarrow> confined A s (apply_reloc sys ty v loc s)"
  unfolding apply_reloc_def store32_def
  by (auto intro!: print_exit_confined same_outside_store)

lemma resolve_reloc_confined:
  assumes "loader_buffers l \<subseteq> A" and "code_area (build s) \<subseteq> A" and "page_ok (build s)"
  shows "confined A s (resolve_reloc sys l fd h offs SIZEOF_SectionHeader nt r s)"
proof -
  let ?loc = "CODE_PAGE s + r_offset r"
  have place: "region ?loc 4 \<subseteq> A" if "\<not> (?loc < CODE_PAGE s \<or> ?loc \<ge> END_CODE_PAGE s)"
    using reloc_place [OF assms(3) that] assms(2) by simp
  show ?thesis
    unfolding resolve_reloc_def Let_def
  proof (rule confined_bind [OF exit_if_confined])
    fix u s1
    assume "exit_if sys (?loc < CODE_PAGE s \<or> END_CODE_PAGE s \<le> ?loc)
        (''Relocation result location 0x%x outside of code page!'' @ nl) [VNum ?loc] s = Ret u s1"
    then have s1: "s1 = s" and region: "region ?loc 4 \<subseteq> A" using place by (simp_all add: exit_if_Ret)
    have rel: "confined A s (obind (exit_if sys c f as s) (\<lambda>_ s.
        Ret () (set_memory (store32 (memory s) ?loc (load32 (memory s) ?loc + CODE_PAGE s)) s)))" for c f as
      using region by (intro confined_bind exit_if_confined) (simp add: exit_if_Ret store32_def same_outside_store)
    have sym: "confined A s (obind (get_symbol_info sys l fd ti si offs SIZEOF_SectionHeader nt s) (\<lambda>sym_info s1.
        obind (if st_shndx (si_symbol sym_info) = SHN_UNDEF
               then get_kernel_symbol_value sys l (l_sym_name l) s1
               else Ret (st_value (si_symbol sym_info) + CODE_PAGE s1) s1) (\<lambda>v s2. apply_reloc sys ty v ?loc s2)))" for ti si ty
      by (intro confined_bind symbol_info_confined [OF assms(1)] apply_reloc_confined [OF region]) (simp add: kernel_symbol_confined)
    show "confined A s1 (if RELOC_TYPE (r_info r) = R_ARM_RELATIVE \<or> RELOC_TYPE (r_info r) = R_AARCH64_RELATIVE
      then obind (exit_if sys (RELOC_SYM (r_info r) \<noteq> 0) (''Expected no symbol with R_ARM_RELATIVE!'' @ nl) [] s1) (\<lambda>_ s2.
        Ret () (set_memory (store32 (memory s2) ?loc (load32 (memory s2) ?loc + CODE_PAGE s2)) s2))
      else obind (get_symbol_info sys l fd (ucast (sh_link h)) (RELOC_SYM (r_info r)) offs SIZEOF_SectionHeader nt s1) (\<lambda>sym_info s1.
        obind (if st_shndx (si_symbol sym_info) = SHN_UNDEF
               then get_kernel_symbol_value sys l (l_sym_name l) s1
               else Ret (st_value (si_symbol sym_info) + CODE_PAGE s1) s1) (\<lambda>v s2. apply_reloc sys (RELOC_TYPE (r_info r)) v ?loc s2)))"
      unfolding s1 using rel sym by simp
  qed
qed

text \<open>One round: reading a relocation and resolving it.\<close>

lemma reloc_round_confined:
  assumes "loader_buffers l \<subseteq> A" and "code_area (build s) \<subseteq> A" and "page_ok (build s)"
  shows "confined A s (obind (checked_lseek sys fd offs SEEK_CUR s) (\<lambda>_ s.
    obind (read_file sys fd (l_reloc l) SIZEOF_ELFRelocation s) (\<lambda>got s.
    obind (if got \<noteq> SIZEOF_ELFRelocation
           then print_exit_str sys fmt (l_name l) as s
           else Ret () s) (\<lambda>_ s.
    resolve_reloc sys l fd h tab SIZEOF_SectionHeader nt (load_reloc (memory s) (l_reloc l)) s))))"
proof -
  have buf: "region (l_reloc l) (unat SIZEOF_ELFRelocation) \<subseteq> A" using assms(1) by (simp add: loader_buffers_def)
  show ?thesis
  proof (intro confined_bind lseek_confined read_file_confined buf, goal_cases)
    case 1
    then show ?case by (simp add: print_exit_str_confined)
  next
    case (2 u1 s1 got s2 u3 s3)
    then have "build s3 = build s" by (auto dest!: same_outside_build)
    then show ?case using resolve_reloc_confined [of l A s3] assms by simp
  qed
qed

lemma reloc_loop_confined:
  assumes "reloc_loop sys l fd h tab SIZEOF_SectionHeader nt end offs i s = Some r"
    and "loader_buffers l \<subseteq> A" and "code_area (build s) \<subseteq> A" and "page_ok (build s)"
  shows "confined A s r"
proof -
  let ?P = "\<lambda>sys' l' fd' h' tab' hsz nt' end' (offs :: size_t) (i :: size_t) s r.
    sys' = sys \<and> l' = l \<and> fd' = fd \<and> hsz = SIZEOF_SectionHeader \<and> code_area (build s) \<subseteq> A \<and> page_ok (build s)
      \<longrightarrow> confined A s r"
  have "?P sys l fd h tab SIZEOF_SectionHeader nt end offs i s r"
  proof (rule reloc_loop.raw_induct [where P = ?P, OF _ assms(1)], intro impI, elim conjE)
    fix loop :: "kernel_call \<Rightarrow> Loader \<Rightarrow> size_t \<Rightarrow> SectionHeader \<Rightarrow> size_t \<Rightarrow> size_t \<Rightarrow> size_t \<Rightarrow> size_t \<Rightarrow> size_t \<Rightarrow> size_t \<Rightarrow> kstate \<Rightarrow> unit kresult option"
    fix sys' l' fd' h tab hsz nt "end" offs i s r
    assume IH: "\<And>sys l fd h tab hsz nt end offs i s r. loop sys l fd h tab hsz nt end offs i s = Some r \<Longrightarrow>
        ?P sys l fd h tab hsz nt end offs i s r"
    assume body: "(if offs < end then
        (case obind (checked_lseek sys' fd' offs SEEK_CUR s) (\<lambda>_ s.
              obind (read_file sys' fd' (l_reloc l') SIZEOF_ELFRelocation s) (\<lambda>got s.
              obind (if got \<noteq> SIZEOF_ELFRelocation
                     then print_exit_str sys' (''Failed to read reloc %u in section %s'' @ nl) (l_name l') (\<lambda>v. [VNum i, v]) s
                     else Ret () s) (\<lambda>_ s.
              resolve_reloc sys' l' fd' h tab hsz nt (load_reloc (memory s) (l_reloc l')) s))) of
           Exit n s \<Rightarrow> Some (Exit n s)
         | Undef \<Rightarrow> Some Undef
         | Ret _ s \<Rightarrow> loop sys' l' fd' h tab hsz nt end (offs + SIZEOF_ELFRelocation) (i + 1) s)
      else Some (Ret () s)) = Some r"
    assume eq: "sys' = sys" "l' = l" "fd' = fd" "hsz = SIZEOF_SectionHeader"
      and A: "code_area (build s) \<subseteq> A" "page_ok (build s)"
    note body = body [unfolded eq]
    let ?round = "obind (checked_lseek sys fd offs SEEK_CUR s) (\<lambda>_ s.
              obind (read_file sys fd (l_reloc l) SIZEOF_ELFRelocation s) (\<lambda>got s.
              obind (if got \<noteq> SIZEOF_ELFRelocation
                     then print_exit_str sys (''Failed to read reloc %u in section %s'' @ nl) (l_name l) (\<lambda>v. [VNum i, v]) s
                     else Ret () s) (\<lambda>_ s.
              resolve_reloc sys l fd h tab SIZEOF_SectionHeader nt (load_reloc (memory s) (l_reloc l)) s)))"
    have round: "confined A s ?round" by (rule reloc_round_confined [OF assms(2) A])
    show "confined A s r"
    proof (cases "offs < end")
      case False
      then show ?thesis using body by auto
    next
      case True
      show ?thesis
      proof (cases ?round)
        case (Ret u s1)
        then have s1: "same_outside A s s1" using round by simp
        have "loop sys l fd h tab SIZEOF_SectionHeader nt end (offs + SIZEOF_ELFRelocation) (i + 1) s1 = Some r"
          using body True Ret by simp
        from IH [OF this] s1 A show ?thesis by (auto intro: confined_start simp: same_outside_build)
      qed (use body True round in auto)
    qed
  qed
  then show ?thesis using assms(3,4) by simp
qed

lemma resolve_relocs_confined:
  assumes "loader_buffers l \<subseteq> A" and "code_area (build s) \<subseteq> A" and "page_ok (build s)"
  shows "confined A s (resolve_relocs sys l fd idx tab SIZEOF_SectionHeader nt s)"
proof -
  have buf: "region (l_section_hdr l) (unat SIZEOF_SectionHeader) \<subseteq> A" "region (l_name l) (unat MAX_SECTION_NAME_LEN) \<subseteq> A"
    using assms(1) by (simp_all add: loader_buffers_def)
  show ?thesis
    unfolding resolve_relocs_def
  proof (intro confined_bind section_header_confined section_name_confined buf, goal_cases)
    case (1 h s1 u s2)
    then have b: "build s2 = build s" by (auto dest!: same_outside_build)
    have loop: "confined A s2 (case reloc_loop sys l fd h tab SIZEOF_SectionHeader nt end offs i s2 of None \<Rightarrow> Undef | Some r \<Rightarrow> r)"
      for "end" offs i
      using reloc_loop_confined [of l h tab nt "end" offs i s2 _ A] assms b by (simp split: option.split)
    show ?case
    proof (cases "sh_type h \<noteq> SHT_REL \<and> sh_type h \<noteq> SHT_RELA")
      case False
      then show ?thesis
        unfolding if_not_P [OF False] using loop by (intro confined_bind exit_if_confined) (simp add: exit_if_Ret)
    qed simp
  qed
qed

lemma resolve_all_confined:
  assumes "loader_buffers l \<subseteq> A" and "code_area (build s) \<subseteq> A" and "page_ok (build s)"
    and "ucast (e_shentsize hdr) = SIZEOF_SectionHeader"
  shows "confined A s (resolve_all sys l fd hdr nt idxs s)"
  using assms(2,3)
proof (induction idxs arbitrary: s)
  case (Cons idx idxs)
  show ?case
    unfolding resolve_all.simps assms(4)
  proof (rule confined_bind [OF resolve_relocs_confined [OF assms(1) Cons.prems]])
    fix u s1
    assume "same_outside A s s1"
    then show "confined A s1 (resolve_all sys l fd hdr nt idxs s1)"
      using Cons.prems by (intro Cons.IH) (simp_all add: same_outside_build)
  qed
qed simp

text \<open>The loop ends when the section does not reach the end of the address space.\<close>

lemma reloc_loop_ends:
  assumes "unat end + 8 \<le> 2 ^ 32"
  shows "\<exists>r. reloc_loop sys l fd h tab hsz nt end offs i s = Some r"
proof (induction "unat end - unat offs" arbitrary: offs i s rule: less_induct)
  case less
  show ?case
  proof (cases "offs < end")
    case True
    then have lt: "unat offs < unat end" by (simp add: word_less_nat_alt)
    then have next_: "unat (offs + SIZEOF_ELFRelocation) = unat offs + 8"
      using assms by (subst unat_add32) (simp_all add: SIZEOF_ELFRelocation_def)
    have IH: "\<exists>r. reloc_loop sys l fd h tab hsz nt end (offs + SIZEOF_ELFRelocation) (i + 1) s1 = Some r" for s1
      using lt unfolding next_ by (intro less.hyps) (simp add: next_)
    show ?thesis
      by (subst reloc_loop.simps) (use IH in \<open>auto split: outcome.split\<close>)
  qed (simp add: reloc_loop.simps)
qed

end

end
