(* ===== verification/User_Library.thy ===== *)
theory User_Library
  imports User_Calls
begin

text \<open>
  What the user library promises together with the kernel: joining a thread waits for its end and
  reports how it ended, permissions can only be lowered and the result is what is left, and the
  arguments of a new thread arrive as they were given.
\<close>

section \<open>Calls that return to their caller\<close>

lemma sint_word_of_int32 [simp]: "- (2 ^ 31) \<le> n \<Longrightarrow> n < 2 ^ 31 \<Longrightarrow> sint (word_of_int n :: size_t) = n"
  by (simp add: signed_of_int signed_take_bit_int_eq_self)

lemma as_bool_ret [simp]: "as_bool (ret_bool m) = m"
  by (cases m) (auto simp: as_bool_def ret_bool_def of_bool32_def)

lemma as_int_ret:
  assumes "\<And>n s. m = Ret n s \<Longrightarrow> - (2 ^ 31) \<le> n \<and> n < 2 ^ 31"
  shows "as_int (ret_int m) = m"
  using assms by (cases m) (auto simp: as_int_def ret_int_def)

lemma log_event_simps [simp]:
  "all_threads (log_event e s) = all_threads s" "build (log_event e s) = build s"
  "memory (log_event e s) = memory s" "current_thread (log_event e s) = current_thread s"
  by (simp_all add: log_event_def Let_def serial_print_def)

lemma kernel_property:
  assumes "- (2 ^ 31) \<le> tid" and "tid < 2 ^ 31"
  shows "get_thread_property (kernel h others) tid prop res s = k_get_thread_property tid prop res s"
    and "set_thread_property (kernel h others) tid prop res s = k_set_thread_property tid prop res s"
  using assms by (simp_all add: get_thread_property_def set_thread_property_def kernel_def)

lemma yield_kernel:
  "yield (kernel h others) s = obind (others (log_event ''yielding'' s)) (\<lambda>r s. Ret (r \<noteq> 0) (log_event ''resuming'' s))"
  by (simp add: yield_def yield_call_def as_bool_def kernel_def obind_assoc)

section \<open>States in memory\<close>

lemma store_state_simps [simp]:
  "all_threads (store_state p v s) = all_threads s" "build (store_state p v s) = build s"
  "is_valid_thread tid (store_state p v s) = is_valid_thread tid s"
  by (simp_all add: store_state_def is_valid_thread_def MAX_THREADS_def)

lemma load_store_state:
  assumes "1 \<le> b_enum_size (build s)" and "b_enum_size (build s) \<le> 4"
  shows "load_state p (store_state p (state_num st) s) = state_num st"
proof -
  let ?n = "b_enum_size (build s)"
  have n: "?n = 1 \<or> ?n = 2 \<or> ?n = 3 \<or> ?n = 4" using assms by auto
  have "load_state p (store_state p (state_num st) s) =
      word32_of (take ?n (bytes32 (state_num st)) @ replicate (4 - ?n) 0)"
    using assms(2) by (simp add: load_state_def store_state_def mem_simps min_def Let_def)
  also have "\<dots> = state_num st"
    using n by (cases st) (auto simp: word32_of_def bytes32_def)
  finally show ?thesis .
qed

lemma state_num_inj [simp]: "state_num a = state_num b \<longleftrightarrow> a = b"
  by (cases a; cases b) auto

text \<open>The end of a thread.\<close>

definition ended :: "int \<Rightarrow> kstate \<Rightarrow> bool" where
  "ended tid s \<longleftrightarrow> t_state (thread_at s (nat tid)) = finished \<or> t_state (thread_at s (nat tid)) = cancelled"

lemma get_state_kernel:
  assumes "0 \<le> tid" and "tid < 2 ^ 31" and "fp \<noteq> NULL"
  shows "get_thread_state (kernel h others) tid fp s =
    (if is_valid_thread tid s then Ret True (store_state fp (state_num (t_state (thread_at s (nat tid)))) s)
     else Ret False (set_errno E_INVALID_ID s))"
  using assms by (simp add: get_thread_state_def kernel_property k_get_thread_property_def do_get_thread_property_def
    CURRENT_THREAD_def INVALID_THREAD_def tprop_defs store_state_def Let_def)

text \<open>One round of the loop, with \<open>join\<close> for the rounds that follow.\<close>

lemma join_round:
  fixes join :: "kernel_call \<Rightarrow> size_t \<Rightarrow> int \<Rightarrow> size_t \<Rightarrow> kstate \<Rightarrow> bool kresult option"
  assumes "0 \<le> tid" and "tid < 2 ^ 31" and "fp \<noteq> NULL"
    and "1 \<le> b_enum_size (build s)" and "b_enum_size (build s) \<le> 4"
  shows "(case get_thread_state (kernel h others) tid fp s of
        Exit n s \<Rightarrow> Some (Exit n s)
      | Undef \<Rightarrow> Some Undef
      | Ret valid s \<Rightarrow>
          if \<not> valid then Some (Ret False s)
          else if load_state fp s = state_num finished \<or> load_state fp s = state_num cancelled then
            Some (Ret True (if state = NULL then s else store_state state (load_state fp s) s))
          else (case yield (kernel h others) s of
              Exit n s \<Rightarrow> Some (Exit n s)
            | Undef \<Rightarrow> Some Undef
            | Ret b s \<Rightarrow> join (kernel h others) fp tid state s)) =
    (let st = t_state (thread_at s (nat tid)); s1 = store_state fp (state_num st) s in
     if \<not> is_valid_thread tid s then Some (Ret False (set_errno E_INVALID_ID s))
     else if ended tid s then Some (Ret True (if state = NULL then s1 else store_state state (state_num st) s1))
     else (case others (log_event ''yielding'' s1) of
         Exit n s \<Rightarrow> Some (Exit n s)
       | Undef \<Rightarrow> Some Undef
       | Ret r s \<Rightarrow> join (kernel h others) fp tid state (log_event ''resuming'' s)))"
proof (cases "is_valid_thread tid s")
  case valid: True
  show ?thesis
  proof (cases "others (log_event ''yielding'' (store_state fp (state_num (t_state (thread_at s (nat tid)))) s))")
  qed (use valid yield_kernel in \<open>simp_all add: get_state_kernel [OF assms(1-3)] ended_def
    load_store_state [OF assms(4,5)] Let_def del: state_num.simps\<close>)
qed (simp add: get_state_kernel [OF assms(1-3)] Let_def)

definition keeps_build :: "(kstate \<Rightarrow> size_t kresult) \<Rightarrow> bool" where
  "keeps_build others \<longleftrightarrow> (\<forall>s. ret_state (others s) (\<lambda>s'. build s' = build s))"

lemma keeps_buildD: "keeps_build others \<Longrightarrow> others s = Ret r s' \<Longrightarrow> build s' = build s"
  by (auto simp: keeps_build_def ret_state_iff)

section \<open>Joining\<close>

lemma final_states: "t_state t = finished \<or> t_state t = cancelled \<longleftrightarrow> t_state t \<in> {finished, cancelled}"
  by auto

text \<open>C24: When joining a thread returns true, the thread has finished or was cancelled at that moment, and
  that is what it stores for the caller; when it returns false, the id is not that of a thread.
  Whatever the other threads do each time the joining thread yields.\<close>

theorem join_result:
  assumes "thread_join (kernel h others) fp tid state s = Some (Ret b s')" and "keeps_build others"
    and "0 \<le> tid" and "tid < 2 ^ 31" and "fp \<noteq> NULL"
    and "1 \<le> b_enum_size (build s)" and "b_enum_size (build s) \<le> 4"
  shows "if b then is_valid_thread tid s' \<and> ended tid s' \<and>
      (state \<noteq> NULL \<longrightarrow> load_state state s' = state_num (t_state (thread_at s' (nat tid))))
    else \<not> is_valid_thread tid s'"
proof -
  let ?done = "\<lambda>tid state s'. is_valid_thread tid s' \<and> ended tid s' \<and>
    (state \<noteq> NULL \<longrightarrow> load_state state s' = state_num (t_state (thread_at s' (nat tid))))"
  let ?P = "\<lambda>sys fp tid state s r. sys = kernel h others \<and> 0 \<le> tid \<and> tid < 2 ^ 31 \<and> fp \<noteq> NULL \<and>
    1 \<le> b_enum_size (build s) \<and> b_enum_size (build s) \<le> 4 \<longrightarrow>
    (\<forall>b s'. r = Ret b s' \<longrightarrow> (if b then ?done tid state s' else \<not> is_valid_thread tid s'))"
  have "?P (kernel h others) fp tid state s (Ret b s')"
  proof (rule thread_join.raw_induct [where P = ?P, OF _ assms(1)], intro impI allI, elim conjE)
    fix join :: "kernel_call \<Rightarrow> size_t \<Rightarrow> int \<Rightarrow> size_t \<Rightarrow> kstate \<Rightarrow> bool kresult option"
    fix sys fp tid state s r b s'
    assume IH: "\<And>sys fp tid state s r. join sys fp tid state s = Some r \<Longrightarrow> ?P sys fp tid state s r"
    assume body: "(case get_thread_state sys tid fp s of
        Exit n s \<Rightarrow> Some (Exit n s)
      | Undef \<Rightarrow> Some Undef
      | Ret valid s \<Rightarrow>
          if \<not> valid then Some (Ret False s)
          else if load_state fp s = state_num finished \<or> load_state fp s = state_num cancelled then
            Some (Ret True (if state = NULL then s else store_state state (load_state fp s) s))
          else (case yield sys s of
              Exit n s \<Rightarrow> Some (Exit n s)
            | Undef \<Rightarrow> Some Undef
            | Ret b s \<Rightarrow> join sys fp tid state s)) = Some r"
    assume sys: "sys = kernel h others" and r: "r = Ret b s'"
      and a: "0 \<le> tid" "tid < 2 ^ 31" "fp \<noteq> NULL" "1 \<le> b_enum_size (build s)" "b_enum_size (build s) \<le> 4"
    define st where "st = t_state (thread_at s (nat tid))"
    define s1 where "s1 = store_state fp (state_num st) s"
    note round = body [unfolded sys join_round [OF a] Let_def, folded st_def s1_def]
    consider "\<not> is_valid_thread tid s" | "is_valid_thread tid s" "ended tid s" | "is_valid_thread tid s" "\<not> ended tid s" by blast
    then show "if b then ?done tid state s' else \<not> is_valid_thread tid s'"
    proof cases
      case 1
      then show ?thesis using round r by (auto simp: is_valid_thread_def MAX_THREADS_def)
    next
      case 2
      then have s': "b" "s' = (if state = NULL then s1 else store_state state (state_num st) s1)" using round r by auto
      moreover have "ended tid s'" "is_valid_thread tid s'" "t_state (thread_at s' (nat tid)) = st"
        using s' 2 by (auto simp: s1_def st_def ended_def)
      moreover have "state \<noteq> NULL \<Longrightarrow> load_state state s' = state_num st"
        using s' load_store_state [of s1 state st] a(4,5) by (simp add: s1_def)
      ultimately show ?thesis by (cases "state = NULL") simp_all
    next
      case 3
      then obtain q s2 where q: "others (log_event ''yielding'' s1) = Ret q s2"
        "join (kernel h others) fp tid state (log_event ''resuming'' s2) = Some r"
        using round r by (auto split: outcome.splits)
      moreover have "build s2 = build s" using keeps_buildD [OF assms(2) q(1)] by (simp add: s1_def)
      ultimately show ?thesis using IH [OF q(2)] r a by simp
    qed
  qed
  then show ?thesis using assms by simp
qed

text \<open>C25: Joining ends when the thread does: if each time the joining thread yields, the others bring the
  thread closer to its end (a number computed from the thread table gets smaller), then joining
  returns after finitely many rounds.\<close>

theorem join_returns:
  fixes left :: "Thread list \<Rightarrow> nat"
  assumes "0 \<le> tid" and "tid < 2 ^ 31" and "fp \<noteq> NULL"
    and "1 \<le> b_enum_size (build s)" and "b_enum_size (build s) \<le> 4"
    and "\<forall>s. is_valid_thread tid s \<and> \<not> ended tid s \<longrightarrow>
      (\<exists>r s'. others s = Ret r s' \<and> build s' = build s \<and> left (all_threads s') < left (all_threads s))"
  shows "\<exists>b s'. thread_join (kernel h others) fp tid state s = Some (Ret b s')"
  using assms(4,5)
proof (induction "left (all_threads s)" arbitrary: s rule: less_induct)
  case less
  let ?st = "t_state (thread_at s (nat tid))"
  let ?s1 = "log_event ''yielding'' (store_state fp (state_num ?st) s)"
  note round = thread_join.simps [of "kernel h others" fp tid state s, unfolded join_round [OF assms(1-3) less.prems] Let_def]
  show ?case
  proof (cases "is_valid_thread tid s \<and> \<not> ended tid s")
    case True
    then have "is_valid_thread tid ?s1 \<and> \<not> ended tid ?s1"
      by (simp add: is_valid_thread_def ended_def MAX_THREADS_def)
    then obtain r s2 where s2: "others ?s1 = Ret r s2" "build s2 = build s" "left (all_threads s2) < left (all_threads s)"
      using assms(6) by (metis log_event_simps(1,2) store_state_simps(1,2))
    then have "\<exists>b s'. thread_join (kernel h others) fp tid state (log_event ''resuming'' s2) = Some (Ret b s')"
      using less.prems by (intro less.hyps) simp_all
    then show ?thesis using True s2(1) round by simp
  qed (use round in auto)
qed

section \<open>Permissions\<close>

text \<open>The permissions call of the user library returns the permissions that the thread has afterwards: those
  it had, without the ones to remove if it is allowed to configure itself, all of them otherwise.
  No call ever adds one.\<close>

theorem permissions_result:
  assumes "sane s" and "current_thread s = Some c" and "is_valid_thread (int c) s"
    and "fp \<noteq> NULL" and "fp + 4 \<noteq> NULL"
  shows "let old = t_permissions (thread_at s c);
      new = (if old AND TPERM_TCONFIG = 0 then old else old AND NOT remove) in
    \<exists>s'. permissions (kernel h others) fp remove s = Ret new s' \<and> t_permissions (thread_at s' c) = new \<and>
      new AND old = new"
proof -
  let ?t = "thread_at s c" and ?s1 = "set_memory (store16 (memory s) fp remove) s"
  let ?old = "t_permissions ?t"
  let ?new = "if ?old AND TPERM_TCONFIG = 0 then ?old else ?old AND NOT remove"
  have id: "t_id ?t = int c" "nat (t_id ?t) = c" using valid_id [of s c] assms(1,3) by (simp_all add: sane_def)
  have c: "c < length (all_threads s)" using assms(3) by (simp add: is_valid_thread_def MAX_THREADS_def)
  obtain b s2 where s2: "set_thread_property (kernel h others) CURRENT_THREAD TPROP_PERMISSIONS fp ?s1 = Ret b s2"
    "thread_at s2 c = ?t\<lparr>t_permissions := ?new\<rparr>" "current_thread s2 = Some c" "is_valid_thread (int c) s2"
  proof (cases "?old AND TPERM_TCONFIG = 0")
    case True
    then show ?thesis
      using assms by (intro that [of False "set_errno E_PERM ?s1"]) (auto simp: kernel_property CURRENT_THREAD_def INVALID_THREAD_def
        k_set_thread_property_def do_set_thread_property_def k_has_no_permission_def is_valid_thread_def MAX_THREADS_def)
  next
    case False
    let ?s2 = "upd_thread c (\<lambda>t. t\<lparr>t_permissions := ?new\<rparr>) ?s1"
    have "load16 (store16 (memory s) fp remove) fp = remove" by (simp add: mem_simps)
    then have "set_thread_property (kernel h others) CURRENT_THREAD TPROP_PERMISSIONS fp ?s1 = Ret True ?s2"
      using assms False id by (simp add: kernel_property CURRENT_THREAD_def INVALID_THREAD_def
        k_set_thread_property_def do_set_thread_property_def k_has_no_permission_def is_valid_thread_def MAX_THREADS_def
        k_get_thread_id_def tprop_defs Let_def upd_thread_def)
    then show ?thesis
      using assms id c False by (intro that [of True ?s2]) (auto simp: is_valid_thread_def MAX_THREADS_def thread_at_upd)
  qed
  have "get_thread_property (kernel h others) CURRENT_THREAD TPROP_PERMISSIONS (fp + 4) s3 =
      Ret True (set_memory (store16 (memory s3) (fp + 4) ?new) s3)"
    if "s3 = set_memory (store16 (memory s2) (fp + 4) 0) s2" for s3
    using s2 assms(5) id that by (simp add: kernel_property CURRENT_THREAD_def INVALID_THREAD_def k_get_thread_property_def
      do_get_thread_property_def k_get_thread_id_def tprop_defs Let_def is_valid_thread_def MAX_THREADS_def)
  then have "permissions (kernel h others) fp remove s =
      Ret ?new (set_memory (store16 (memory (set_memory (store16 (memory s2) (fp + 4) 0) s2)) (fp + 4) ?new) s2)"
    using s2(1) by (simp add: permissions_def mem_simps set_memory_def)
  then show ?thesis using s2(2) by (simp add: and_not_subset)
qed

section \<open>Arguments on the stack\<close>

lemma args_bytes_length [simp]: "length (args_bytes a) = 16"
  by (simp add: args_bytes_def)

lemma load_args_bytes: "load_args fp (store_bytes m fp (args_bytes a)) = a"
  using load32_within [of 0 "args_bytes a" m fp] load32_within [of 4 "args_bytes a" m fp]
    load32_within [of 8 "args_bytes a" m fp] load32_within [of 12 "args_bytes a" m fp]
  by (simp add: load_args_def args_bytes_def make_args_def)

lemma store_flags_outside:
  assumes "4 \<le> unat (x - p)"
  shows "store_flags m p fl x = m x"
proof -
  have "x \<noteq> p" using assms by auto
  moreover have "2 \<le> unat (x - (p + 2))"
    using unat_diff_offset [of 2 x p] assms unat_lt32 [of "x - p"] by simp
  ultimately show ?thesis by (simp add: store_flags_def store16_def store_bytes_def bytes16_def)
qed

lemma load_store_flags: "load_flags (store_flags m p fl) p = fl"
proof -
  have "\<not> unat (p - (p + 2)) < 2" using unat_minus32 [of 2] by simp
  then have "store_flags m p fl p = (if is_file fl then 1 else 0)"
    by (simp add: store_flags_def store16_def store_bytes_def bytes16_def)
  then show ?thesis by (simp add: load_flags_def) (simp add: store_flags_def mem_simps)
qed

lemma load_flags_cong:
  assumes "\<And>i. i < 4 \<Longrightarrow> m (p + of_nat i) = m' (p + of_nat i)"
  shows "load_flags m p = load_flags m' p"
proof -
  have "load_bytes m (p + 2) 2 = load_bytes m' (p + 2) 2"
    using assms [of "2 + i" for i] by (intro load_bytes_cong) (simp add: add.assoc)
  then show ?thesis using assms [of 0] by (simp add: load_flags_def load16_def)
qed

lemma load_args_cong:
  assumes "\<And>i. i < 16 \<Longrightarrow> m (p + of_nat i) = m' (p + of_nat i)"
  shows "load_args p m = load_args p m'"
proof -
  have "load32 m (p + of_nat k) = load32 m' (p + of_nat k)" if "k + 4 \<le> 16" for k
    using assms [of "k + i" for i] that unfolding load32_def
    by (intro arg_cong [where f = word32_of] load_bytes_cong) (simp add: add.assoc)
  from this [of 0] this [of 4] this [of 8] this [of 12] show ?thesis by (simp add: load_args_def)
qed

lemma set_memory_set: "set_memory m (set_memory m' s) = set_memory m s"
  by (simp add: set_memory_def)

lemma memory_set_memory: "memory (set_memory m s) = m"
  by (simp add: set_memory_def)

text \<open>A thread created through the user library gets the function, the name and the arguments its creator
  gave, although the arguments pass through the creator's stack: the kernel takes the first free
  place, and the new thread has all the permissions of its creator.\<close>

theorem arguments_arrive:
  assumes "sane s" and "current_thread s = Some c" and "\<not> k_has_no_permission TPERM_CREATE s" and "fp \<noteq> NULL" and "fp + 16 \<noteq> NULL"
    and "i < MAX_THREADS s" and "slot_free (thread_at s i)" and "\<forall>j < i. \<not> slot_free (thread_at s j)"
    and "apart fp 20 args 16" and "name \<noteq> NULL \<Longrightarrow> apart fp 20 name THREAD_NAME_MAX_LEN"
  shows "\<exists>s'. add_named_thread_with_args (kernel h others) fp worker name args s = Ret (int i) s' \<and>
    t_work (thread_at s' i) = worker \<and> t_state (thread_at s' i) = init \<and>
    t_args (thread_at s' i) = (if args = NULL then no_args else load_args args (memory s)) \<and>
    t_name (thread_at s' i) = t_name (k_set_thread_name (name_arg (memory s) name) (thread_at s i)) \<and>
    t_permissions (thread_at s' i) = t_permissions (thread_at s c)"
proof -
  let ?fl = "\<lparr>is_file = False, remove_permissions = 0\<rparr>"
  let ?a = "if args = NULL then no_args else load_args args (memory s)"
  let ?m1 = "store_flags (memory s) (fp + 16) ?fl"
  let ?m2 = "store_bytes ?m1 fp (args_bytes ?a)"
  have out1: "?m1 x = memory s x" if "20 \<le> unat (x - fp)" for x
    using that unat_diff_offset [of 16 x fp] by (intro store_flags_outside) simp
  then have out2: "?m2 x = memory s x" if "20 \<le> unat (x - fp)" for x
    using that by (simp add: store_bytes_def)
  have "load_args args ?m1 = load_args args (memory s)"
    by (intro load_args_cong out1 apart_offset [OF assms(9)])
  then have a: "(if args = NULL then no_args else load_args args ?m1) = ?a" by simp
  have name: "name_arg ?m2 name = name_arg (memory s) name"
  proof (cases "name = NULL")
    case False
    have "load_bytes ?m2 name THREAD_NAME_MAX_LEN = load_bytes (memory s) name THREAD_NAME_MAX_LEN"
      by (intro load_bytes_cong out2 apart_offset [OF assms(10) [OF False]])
    then show ?thesis using False by (simp add: name_arg_def)
  qed (simp add: name_arg_def)
  have "load_flags ?m2 (fp + 16) = load_flags ?m1 (fp + 16)"
    using apart_offsets(1) [of 0 16 16 4 fp] by (intro load_flags_cong store_bytes_apart [of _ _ _ 4]) simp_all
  then have flags: "load_flags ?m2 (fp + 16) = ?fl" by (simp add: load_store_flags)
  define s2 where "s2 = set_memory ?m2 s"
  have s2: "sane s2" "\<not> k_has_no_permission TPERM_CREATE s2" "memory s2 = ?m2" "MAX_THREADS s2 = MAX_THREADS s"
    "all_threads s2 = all_threads s" "current_thread s2 = Some c"
    using assms(1-3) by (simp_all add: s2_def k_has_no_permission_def MAX_THREADS_def)
  have k: "k_add_thread name fp worker (fp + 16) s2 =
      k_add_named_thread_with_args worker (name_arg (memory s) name) (load_args fp) 0 s2"
    using assms(4,5) s2 name flags by (simp add: k_add_thread_def)
  obtain s' where s': "k_add_named_thread_with_args worker (name_arg (memory s) name) (load_args fp) 0 s2 = Ret (int i) s'"
    "created i (name_arg (memory s) name) worker ?a (t_permissions (thread_at s c)) s2 s'"
    using add_named_created [of s2 i worker "name_arg (memory s) name" "load_args fp" 0] assms(6-8) s2
    by (auto simp: load_args_bytes)
  have "int i < 2 ^ 31"
    using assms(1,6) by (simp add: sane_def kinv_def config_ok_def)
  then have ret: "as_int (ret_int (k_add_thread name fp worker (fp + 16) s2)) = Ret (int i) s'"
    using k s'(1) by (subst as_int_ret) auto
  have "add_named_thread_with_args (kernel h others) fp worker name args s =
      as_int (ret_int (k_add_thread name fp worker (fp + 16)
        (set_memory (store_bytes ?m1 fp (args_bytes (if args = NULL then no_args else load_args args ?m1))) s)))"
    by (simp only: add_named_thread_with_args_def add_thread_with_def add_thread_def Let_def kernel_def set_memory_set
      call_syscall.simps memory_set_memory Syscall.distinct if_False)
  then have "add_named_thread_with_args (kernel h others) fp worker name args s = Ret (int i) s'"
    unfolding a using ret by (simp add: s2_def)
  then show ?thesis using s'(2) s2(5) by (simp add: created_def Let_def)
qed

section \<open>Witnesses\<close>

definition demo_others :: "kstate \<Rightarrow> size_t kresult" where
  "demo_others s = Ret 1 (upd_thread 1 (\<lambda>t. t\<lparr>t_state := finished\<rparr>) s)"

lemma demo_others_build: "keeps_build demo_others"
  by (simp add: keeps_build_def demo_others_def)

lemma demo_enum [simp]: "b_enum_size (build demo_finished) = 1" "b_enum_size (build demo_state) = 1"
  "b_enum_size demo_build = 1"
  by (simp_all add: demo_finished_def demo_build_def)

theorem join_result_witness:
  "\<exists>s'. thread_join (kernel demo_host demo_others) 0x500 2 0x600 demo_finished = Some (Ret True s') \<and>
     load_state 0x600 s' = state_num finished"
proof -
  have "is_valid_thread 2 demo_finished" by (simp add: is_valid_thread_def INVALID_THREAD_def)
  then obtain s' where s': "thread_join (kernel demo_host demo_others) 0x500 2 0x600 demo_finished = Some (Ret True s')"
    "s' = store_state 0x600 (state_num finished) (store_state 0x500 (state_num finished) demo_finished)"
    using thread_join.simps [of "kernel demo_host demo_others" "0x500" 2 "0x600" demo_finished]
    by (simp add: join_round ended_def Let_def)
  then show ?thesis
    using join_result [OF s'(1) demo_others_build] by (auto simp: ended_def)
qed

theorem join_returns_witness:
  "\<exists>b s'. thread_join (kernel demo_host demo_others) 0x500 1 0x600 demo_state = Some (Ret b s')"
proof (rule join_returns [where left = "\<lambda>ts. if t_state (ts ! 1) = finished then 0 else 1"])
  show "\<forall>s. is_valid_thread 1 s \<and> \<not> ended 1 s \<longrightarrow> (\<exists>r s'. demo_others s = Ret r s' \<and> build s' = build s \<and>
      (if t_state (all_threads s' ! 1) = finished then 0 else 1) < (if t_state (all_threads s ! 1) = finished then 0 else 1 :: nat))"
    by (auto simp: demo_others_def ended_def is_valid_thread_def MAX_THREADS_def thread_at_upd)
qed simp_all

theorem permissions_result_witness:
  "\<exists>s'. permissions (kernel demo_host demo_others) 0x500 TPERM_CREATE demo_state = Ret 0xFFFE s' \<and>
     t_permissions (thread_at s' 0) = 0xFFFE"
  using permissions_result [where s = demo_state and c = 0 and fp = "0x500" and h = demo_host and others = demo_others
    and remove = TPERM_CREATE] demo_entered
  by (auto simp: entered_def perm_defs)

theorem arguments_arrive_witness:
  "\<exists>s'. add_named_thread_with_args (kernel demo_host demo_others) 0x500 0x8500 0x700 0x800 demo_finished = Ret 2 s' \<and>
     t_args (thread_at s' 2) = no_args"
proof -
  have slots: "slot_free (thread_at demo_finished 2)" "\<forall>j < 2. \<not> slot_free (thread_at demo_finished j)"
    by (auto simp: slot_free_def INVALID_THREAD_def less_2_cases_iff)
  have "\<not> k_has_no_permission TPERM_CREATE demo_finished" by (simp add: k_has_no_permission_def perm_defs)
  then show ?thesis
    using arguments_arrive [of demo_finished 0 "0x500" 2 "0x800" "0x700" demo_host demo_others "0x8500"] slots
    by (auto simp: apart_def THREAD_NAME_MAX_LEN_def THREAD_NAME_SIZE_def load_args_def no_args_def)
qed

end
