(* ===== verification/Elf_Loader.thy ===== *)
theory Elf_Loader
  imports Elf_File User_Library
begin

text \<open>
  Loading a well formed file: every section that is to be loaded is in its place in the destination
  page afterwards, nothing else but the loader's buffers has changed, and the thread is restarted
  at the entry point. And what a malformed file can and cannot do.
\<close>

section \<open>The parts of a file\<close>

definition part :: "byte list \<Rightarrow> nat \<Rightarrow> nat \<Rightarrow> byte list" where
  "part f off n = take n (drop off f)"

definition section_of_bytes :: "byte list \<Rightarrow> SectionHeader" where
  "section_of_bytes bs = \<lparr>sh_name = word32_of (part bs 0 4), sh_type = word32_of (part bs 4 4),
     sh_flags = word32_of (part bs 8 4), sh_addr = word32_of (part bs 12 4), sh_offset = word32_of (part bs 16 4),
     sh_size = word32_of (part bs 20 4), sh_link = word32_of (part bs 24 4), sh_info = word32_of (part bs 28 4),
     sh_addralign = word32_of (part bs 32 4), sh_entsize = word32_of (part bs 36 4)\<rparr>"

text \<open>Section \<open>idx\<close> of the table at \<open>offs\<close>.\<close>

definition section_pos :: "size_t \<Rightarrow> nat \<Rightarrow> size_t" where
  "section_pos offs idx = offs + SIZEOF_SectionHeader * ucast (of_nat idx :: u16)"

definition section_of :: "byte list \<Rightarrow> size_t \<Rightarrow> nat \<Rightarrow> SectionHeader" where
  "section_of f offs idx = section_of_bytes (part f (unat (section_pos offs idx)) (unat SIZEOF_SectionHeader))"

definition alloc :: "SectionHeader \<Rightarrow> bool" where
  "alloc h \<longleftrightarrow> sh_flags h AND SHF_ALLOC \<noteq> 0"

definition section_start :: "Build \<Rightarrow> bool \<Rightarrow> SectionHeader \<Rightarrow> size_t" where
  "section_start b is_shared h = (if is_shared then sh_addr h + b_code_page b else sh_addr h)"

text \<open>The place of a section in the page, and its content.\<close>

definition place :: "Build \<Rightarrow> bool \<Rightarrow> SectionHeader \<Rightarrow> nat" where
  "place b is_shared h = unat (section_start b is_shared h - b_code_page b)"

definition image :: "byte list \<Rightarrow> SectionHeader \<Rightarrow> byte list" where
  "image f h = (if sh_type h AND SHT_NOBITS \<noteq> 0 then replicate (unat (sh_size h)) 0
     else part f (unat (sh_offset h)) (unat (sh_size h)))"

text \<open>A section whose header and name are in the file, and which fits into the page if it is loaded.\<close>

definition section_ok :: "byte list \<Rightarrow> Build \<Rightarrow> size_t \<Rightarrow> size_t \<Rightarrow> bool \<Rightarrow> nat \<Rightarrow> bool" where
  "section_ok f b offs nt is_shared idx \<longleftrightarrow>
     (let h = section_of f offs idx; start = section_start b is_shared h in
      unat (section_pos offs idx) + 40 \<le> length f \<and> unat (nt + sh_name h) + 80 \<le> length f \<and>
      (alloc h \<longrightarrow> unat (b_code_page b) \<le> unat start \<and>
         unat start + unat (sh_size h) < unat (b_code_page b) + b_code_page_size b \<and>
         unat (sh_offset h) + (if sh_type h AND SHT_NOBITS \<noteq> 0 then 0 else unat (sh_size h)) \<le> length f))"

lemma length_part: "off + n \<le> length f \<Longrightarrow> length (part f off n) = n"
  by (simp add: part_def)

lemma load_section_hdr_bytes:
  assumes "length bs = 40"
  shows "load_section_hdr (store_bytes m p bs) p = section_of_bytes bs"
  using assms load32_within [of 0 bs m p] load32_within [of 4 bs m p] load32_within [of 8 bs m p]
    load32_within [of 12 bs m p] load32_within [of 16 bs m p] load32_within [of 20 bs m p] load32_within [of 24 bs m p]
    load32_within [of 28 bs m p] load32_within [of 32 bs m p] load32_within [of 36 bs m p]
  by (simp add: load_section_hdr_def section_of_bytes_def part_def)

lemma region_offset:
  assumes "p + n \<le> 2 ^ 32"
  shows "x \<in> region (d + of_nat p) n \<longleftrightarrow> p \<le> unat (x - d) \<and> unat (x - d) < p + n"
  using assms unat_lt32 [of "x - d"] unat_diff_offset [of p x d]
  by (cases "n = 0") (auto simp: region_def)

lemma section_place:
  assumes "section_ok f b offs nt shared idx" and "page_ok b" and "alloc (section_of f offs idx)"
  defines "h \<equiv> section_of f offs idx"
  shows "section_start b shared h = b_code_page b + of_nat (place b shared h)"
    and "place b shared h + unat (sh_size h) < b_code_page_size b"
    and "unat (section_start b shared h) = unat (b_code_page b) + place b shared h"
proof -
  let ?start = "section_start b shared h"
  have le: "unat (b_code_page b) \<le> unat ?start" "unat ?start + unat (sh_size h) < unat (b_code_page b) + b_code_page_size b"
    using assms by (simp_all add: section_ok_def Let_def)
  then have "unat (?start - b_code_page b) = unat ?start - unat (b_code_page b)"
    using unat_sub_if' [of ?start "b_code_page b"] by simp
  then show "?start = b_code_page b + of_nat (place b shared h)"
    "place b shared h + unat (sh_size h) < b_code_page_size b"
    "unat ?start = unat (b_code_page b) + place b shared h"
    using le by (simp_all add: place_def)
qed

lemma image_length:
  assumes "section_ok f b offs nt shared idx" and "alloc (section_of f offs idx)"
  shows "length (image f (section_of f offs idx)) = unat (sh_size (section_of f offs idx))"
  using assms by (auto simp: section_ok_def Let_def image_def part_def split: if_splits)

text \<open>Where section \<open>idx\<close> goes, and the places of the sections of a list.\<close>

abbreviation target :: "byte list \<Rightarrow> Build \<Rightarrow> bool \<Rightarrow> size_t \<Rightarrow> size_t \<Rightarrow> nat \<Rightarrow> size_t set" where
  "target f b shared offs dest idx \<equiv>
     region (dest + of_nat (place b shared (section_of f offs idx))) (unat (sh_size (section_of f offs idx)))"

definition targets :: "byte list \<Rightarrow> Build \<Rightarrow> bool \<Rightarrow> size_t \<Rightarrow> size_t \<Rightarrow> nat list \<Rightarrow> size_t set" where
  "targets f b shared offs dest idxs = (\<Union>idx \<in> {i \<in> set idxs. alloc (section_of f offs i)}. target f b shared offs dest idx)"

lemma store_bytes_outside: "x \<notin> region a (length bs) \<Longrightarrow> store_bytes m a bs x = m x"
  by (simp add: store_bytes_def region_def)

section \<open>A file that is read\<close>

locale elf_file = file_calls sys fd
  for sys :: kernel_call and fd :: size_t +
  fixes f :: "byte list" and ready :: "kstate \<Rightarrow> bool" and pos :: "kstate \<Rightarrow> nat"
  assumes read_part: "ready s \<Longrightarrow> bs = part f (pos s) (unat n) \<Longrightarrow>
      \<exists>s'. sys syscall_read fd buf n 0 s = Ret (of_nat (length bs)) s' \<and> ready s' \<and> pos s' = pos s + length bs \<and>
        memory s' = store_bytes (memory s) buf bs \<and> build s' = build s"
    and seek_to: "ready s \<Longrightarrow> \<exists>r s'. sys syscall_lseek fd off SEEK_CUR 0 s = Ret r s' \<and> ready s' \<and> memory s' = memory s \<and>
        build s' = build s \<and> (r = off \<longrightarrow> pos s' = unat off) \<and> (unat off \<le> length f \<longrightarrow> r = off)"
    and ready_memory: "ready (set_memory m s) \<longleftrightarrow> ready s"
begin

lemma seek_ok:
  assumes "ready s" and "unat off \<le> length f"
  shows "\<exists>s'. checked_lseek sys fd off SEEK_CUR s = Ret () s' \<and> ready s' \<and> pos s' = unat off \<and> memory s' = memory s \<and>
    build s' = build s"
  using seek_to [OF assms(1), of off] assms(2) by (auto simp: checked_lseek_def lseek_def exit_if_def)

lemma read_ok:
  assumes "ready s" and "pos s + unat n \<le> length f"
  shows "\<exists>s'. read_file sys fd buf n s = Ret n s' \<and> ready s' \<and> memory s' = store_bytes (memory s) buf (part f (pos s) (unat n)) \<and>
    build s' = build s"
  using read_part [OF assms(1) refl, of buf n] length_part [OF assms(2)] by (auto simp: read_file_def)

lemma section_name_ok:
  assumes "ready s" and "unat (nt + off) + 80 \<le> length f"
  shows "\<exists>s'. get_section_name sys fd nt off idx name s = Ret () s' \<and> ready s' \<and> build s' = build s \<and>
    memory s' = store_bytes (memory s) name (part f (unat (nt + off)) 80)"
proof -
  obtain s1 where s1: "checked_lseek sys fd (nt + off) SEEK_CUR s = Ret () s1" "ready s1" "pos s1 = unat (nt + off)"
    "memory s1 = memory s" "build s1 = build s" using seek_ok [OF assms(1)] assms(2) by force
  then show ?thesis
    using read_ok [of s1 MAX_SECTION_NAME_LEN name] assms(2)
    by (auto simp: get_section_name_def exit_if_def MAX_SECTION_NAME_LEN_def)
qed

lemma section_header_ok:
  assumes "ready s" and "unat (section_pos offs idx) + 40 \<le> length f"
  shows "\<exists>s'. get_section_header sys l fd (of_nat idx) offs SIZEOF_SectionHeader s = Ret (section_of f offs idx) s' \<and>
    ready s' \<and> build s' = build s \<and>
    memory s' = store_bytes (memory s) (l_section_hdr l) (part f (unat (section_pos offs idx)) 40)"
proof -
  obtain s1 where s1: "checked_lseek sys fd (section_pos offs idx) SEEK_CUR s = Ret () s1" "ready s1"
    "pos s1 = unat (section_pos offs idx)" "memory s1 = memory s" "build s1 = build s"
    using seek_ok [OF assms(1)] assms(2) by force
  obtain s2 where s2: "read_file sys fd (l_section_hdr l) SIZEOF_SectionHeader s1 = Ret SIZEOF_SectionHeader s2" "ready s2"
    "memory s2 = store_bytes (memory s) (l_section_hdr l) (part f (unat (section_pos offs idx)) 40)" "build s2 = build s"
    using read_ok [OF s1(2), of SIZEOF_SectionHeader "l_section_hdr l"] s1 assms(2) by (auto simp: SIZEOF_SectionHeader_def)
  have "load_section_hdr (memory s2) (l_section_hdr l) = section_of f offs idx"
    unfolding s2(3) section_of_def using assms(2) by (simp add: load_section_hdr_bytes length_part SIZEOF_SectionHeader_def)
  then show ?thesis
    using s1(1) s2 by (auto simp: get_section_header_def Let_def exit_if_def section_pos_def)
qed

lemma check_section_ok:
  assumes "section_ok f (build s) offs nt shared idx" and "page_ok (build s)" and "alloc (section_of f offs idx)"
  defines "start \<equiv> section_start (build s) shared (section_of f offs idx)"
  shows "check_section sys start (start + sh_size (section_of f offs idx)) s = Ret () s"
proof -
  let ?h = "section_of f offs idx"
  have le: "unat (CODE_PAGE s) \<le> unat start" "unat start + unat (sh_size ?h) < unat (END_CODE_PAGE s)"
    using assms(1,3) unfolding END_CODE_PAGE_unat [OF assms(2)]
    by (simp_all add: section_ok_def Let_def CODE_PAGE_def start_def)
  then have "unat start + unat (sh_size ?h) < 2 ^ 32" using unat_lt32 [of "END_CODE_PAGE s"] by linarith
  then have "unat (start + sh_size ?h) = unat start + unat (sh_size ?h)" by (rule unat_add32)
  with le show ?thesis
    by (simp add: check_section_def exit_if_def word_less_nat_alt word_le_nat_alt)
qed

lemma load_section_ok:
  assumes "ready s" and "section_ok f (build s) offs nt shared idx" and "page_ok (build s)"
  shows "\<exists>s'. load_section sys l fd (of_nat idx) offs SIZEOF_SectionHeader nt dest shared s = Ret (alloc (section_of f offs idx)) s' \<and>
    ready s' \<and> build s' = build s \<and>
    (let h = section_of f offs idx;
         m = store_bytes (store_bytes (memory s) (l_section_hdr l) (part f (unat (section_pos offs idx)) 40))
               (l_name l) (part f (unat (nt + sh_name h)) 80) in
     memory s' = (if alloc h then store_bytes m (dest + of_nat (place (build s) shared h)) (image f h) else m))"
proof -
  define h where "h = section_of f offs idx"
  have ok: "unat (section_pos offs idx) + 40 \<le> length f" "unat (nt + sh_name h) + 80 \<le> length f"
    using assms(2) by (simp_all add: section_ok_def Let_def h_def)
  obtain s1 where s1: "get_section_header sys l fd (of_nat idx) offs SIZEOF_SectionHeader s = Ret h s1" "ready s1" "build s1 = build s"
    "memory s1 = store_bytes (memory s) (l_section_hdr l) (part f (unat (section_pos offs idx)) 40)"
    using section_header_ok [OF assms(1) ok(1)] unfolding h_def by blast
  obtain s2 where s2: "get_section_name sys fd nt (sh_name h) (of_nat idx) (l_name l) s1 = Ret () s2" "ready s2" "build s2 = build s"
    "memory s2 = store_bytes (memory s1) (l_name l) (part f (unat (nt + sh_name h)) 80)"
    using section_name_ok [OF s1(2) ok(2)] s1(3) by metis
  show ?thesis
  proof (cases "alloc h")
    case False
    then have "load_section sys l fd (of_nat idx) offs SIZEOF_SectionHeader nt dest shared s = Ret False s2"
      using s1(1) s2(1) by (simp add: load_section_def alloc_def)
    then show ?thesis using s1 s2 False by (simp add: Let_def h_def)
  next
    case True
    define start where "start = section_start (build s) shared h"
    have start: "(if shared then sh_addr h + CODE_PAGE s2 else sh_addr h) = start"
      using s2(3) by (simp add: start_def section_start_def CODE_PAGE_def)
    have check: "check_section sys start (start + sh_size h) s2 = Ret () s2"
      using check_section_ok [of s2 offs nt shared idx] assms True s2(3) by (simp add: start_def h_def)
    have off: "unat (sh_offset h) \<le> length f" using assms(2) True by (auto simp: section_ok_def Let_def h_def)
    obtain s3 where s3: "checked_lseek sys fd (sh_offset h) SEEK_CUR s2 = Ret () s3" "ready s3" "pos s3 = unat (sh_offset h)"
      "memory s3 = memory s2" "build s3 = build s" using seek_ok [OF s2(2) off] s2(3) by auto
    define addr where "addr = dest + of_nat (place (build s) shared h)"
    have addr: "dest + (start - CODE_PAGE s3) = addr"
      using section_place(1) [of f "build s" offs nt shared idx] assms(2,3) True s3(5)
      by (simp add: addr_def start_def h_def CODE_PAGE_def place_def)
    have flag: "\<not> sh_flags h AND SHF_ALLOC = 0" using True by (simp add: alloc_def)
    have load: "load_section sys l fd (of_nat idx) offs SIZEOF_SectionHeader nt dest shared s =
        (if sh_type h AND SHT_NOBITS \<noteq> 0 then Ret True (set_memory (memset (memory s3) addr 0 (sh_size h)) s3)
         else obind (read_file sys fd addr (sh_size h) s3) (\<lambda>got s.
          obind (if got \<noteq> sh_size h
                 then print_exit_str sys (''Couldn't read content for section \"%s\" (%u)'' @ nl) (l_name l)
                        (\<lambda>v. [v, VNum (ucast (of_nat idx :: u16))]) s
                 else Ret () s) (\<lambda>_ s. Ret True s)))"
      using s1(1) s2(1) s3(1) check flag by (simp add: load_section_def Let_def start addr)
    have mem: "memory s3 = store_bytes (store_bytes (memory s) (l_section_hdr l) (part f (unat (section_pos offs idx)) 40))
               (l_name l) (part f (unat (nt + sh_name h)) 80)" using s3(4) s2(4) s1(4) by simp
    show ?thesis
    proof (cases "sh_type h AND SHT_NOBITS \<noteq> 0")
      case nobits: True
      have "memset (memory s3) addr 0 (sh_size h) = store_bytes (memory s3) addr (image f h)"
        using nobits by (simp add: memset_eq image_def)
      then show ?thesis
        unfolding load using nobits True s3(2,5) ready_memory mem by (simp add: h_def Let_def addr_def)
    next
      case bits: False
      then have "pos s3 + unat (sh_size h) \<le> length f" using assms(2) True s3(3) by (auto simp: section_ok_def Let_def h_def)
      then obtain s4 where s4: "read_file sys fd addr (sh_size h) s3 = Ret (sh_size h) s4" "ready s4" "build s4 = build s"
        "memory s4 = store_bytes (memory s3) addr (image f h)"
        using read_ok [OF s3(2), of "sh_size h" addr] bits s3(3,5) by (auto simp: image_def)
      then show ?thesis unfolding load using bits True mem by (simp add: h_def Let_def addr_def)
    qed
  qed
qed

lemma load_sections_step:
  assumes "ready s" and "section_ok f (build s) (e_shoff hdr) nt shared idx" and "page_ok (build s)"
    and "ucast (e_shentsize hdr) = SIZEOF_SectionHeader"
  obtains s1 where "ready s1" and "build s1 = build s"
    and "load_sections sys l fd hdr nt dest shared (idx # idxs) b s =
      load_sections sys l fd hdr nt dest shared idxs (b \<or> alloc (section_of f (e_shoff hdr) idx)) s1"
    and "\<And>x. x \<notin> loader_buffers l \<Longrightarrow> x \<notin> targets f (build s) shared (e_shoff hdr) dest [idx] \<Longrightarrow> memory s1 x = memory s x"
    and "alloc (section_of f (e_shoff hdr) idx) \<Longrightarrow>
      load_bytes (memory s1) (dest + of_nat (place (build s) shared (section_of f (e_shoff hdr) idx)))
        (unat (sh_size (section_of f (e_shoff hdr) idx))) = image f (section_of f (e_shoff hdr) idx)"
proof -
  define h where "h = section_of f (e_shoff hdr) idx"
  let ?a = "dest + of_nat (place (build s) shared h)"
  let ?m = "store_bytes (store_bytes (memory s) (l_section_hdr l) (part f (unat (section_pos (e_shoff hdr) idx)) 40))
               (l_name l) (part f (unat (nt + sh_name h)) 80)"
  obtain s1 where s1: "load_section sys l fd (of_nat idx) (e_shoff hdr) SIZEOF_SectionHeader nt dest shared s = Ret (alloc h) s1"
    "ready s1" "build s1 = build s" "memory s1 = (if alloc h then store_bytes ?m ?a (image f h) else ?m)"
    using load_section_ok [OF assms(1-3), of l dest] unfolding h_def Let_def by blast
  have len: "length (part f (unat (section_pos (e_shoff hdr) idx)) 40) = 40" "length (part f (unat (nt + sh_name h)) 80) = 80"
    using assms(2) by (simp_all add: section_ok_def Let_def h_def length_part)
  have im: "length (image f h) = unat (sh_size h)" if "alloc h"
    using image_length [OF assms(2)] that by (simp add: h_def)
  show thesis
  proof (rule that [OF s1(2,3)])
    show "load_sections sys l fd hdr nt dest shared (idx # idxs) b s =
        load_sections sys l fd hdr nt dest shared idxs (b \<or> alloc (section_of f (e_shoff hdr) idx)) s1"
      using s1(1) by (simp add: assms(4) h_def)
    show "memory s1 x = memory s x" if "x \<notin> loader_buffers l" "x \<notin> targets f (build s) shared (e_shoff hdr) dest [idx]" for x
    proof -
      have "x \<notin> region (l_section_hdr l) 40" "x \<notin> region (l_name l) 80"
        using that(1) by (simp_all add: loader_buffers_def SIZEOF_SectionHeader_def MAX_SECTION_NAME_LEN_def)
      then have "?m x = memory s x" using len by (simp add: store_bytes_outside)
      moreover have "x \<notin> region ?a (length (image f h))" if "alloc h"
        using \<open>x \<notin> targets f (build s) shared (e_shoff hdr) dest [idx]\<close> that im by (simp add: targets_def h_def)
      ultimately show ?thesis using s1(4) by (auto simp: store_bytes_outside)
    qed
    show "load_bytes (memory s1) (dest + of_nat (place (build s) shared (section_of f (e_shoff hdr) idx)))
        (unat (sh_size (section_of f (e_shoff hdr) idx))) = image f (section_of f (e_shoff hdr) idx)"
      if "alloc (section_of f (e_shoff hdr) idx)"
    proof -
      have h: "alloc h" using that by (simp add: h_def)
      have "load_bytes (store_bytes ?m ?a (image f h)) ?a (unat (sh_size h)) = image f h"
        by (rule load_store_bytes_same) (use im [OF h] less_imp_le [OF unat_lt32 [of "sh_size h"]] in simp_all)
      then show ?thesis using s1(4) h by (simp add: h_def [symmetric])
    qed
  qed
qed

lemma load_sections_ok:
  assumes "ready s" and "\<forall>i \<in> set idxs. section_ok f (build s) (e_shoff hdr) nt shared i" and "page_ok (build s)"
    and "ucast (e_shentsize hdr) = SIZEOF_SectionHeader"
    and "distinct idxs" and "\<forall>i \<in> set idxs. \<forall>j \<in> set idxs. i \<noteq> j \<longrightarrow> alloc (section_of f (e_shoff hdr) i) \<longrightarrow>
      alloc (section_of f (e_shoff hdr) j) \<longrightarrow>
      target f (build s) shared (e_shoff hdr) dest i \<inter> target f (build s) shared (e_shoff hdr) dest j = {}"
    and "targets f (build s) shared (e_shoff hdr) dest idxs \<inter> loader_buffers l = {}"
  shows "\<exists>s'. load_sections sys l fd hdr nt dest shared idxs b s =
      Ret (b \<or> (\<exists>i \<in> set idxs. alloc (section_of f (e_shoff hdr) i))) s' \<and> ready s' \<and> build s' = build s \<and>
    (\<forall>x. x \<notin> loader_buffers l \<longrightarrow> x \<notin> targets f (build s) shared (e_shoff hdr) dest idxs \<longrightarrow> memory s' x = memory s x) \<and>
    (\<forall>i \<in> set idxs. alloc (section_of f (e_shoff hdr) i) \<longrightarrow>
      load_bytes (memory s') (dest + of_nat (place (build s) shared (section_of f (e_shoff hdr) i)))
        (unat (sh_size (section_of f (e_shoff hdr) i))) = image f (section_of f (e_shoff hdr) i))"
  using assms(1,2,3,5,6,7)
proof (induction idxs arbitrary: s b)
  case Nil
  then show ?case by simp
next
  case (Cons i idxs)
  let ?sec = "section_of f (e_shoff hdr)"
  have ok: "section_ok f (build s) (e_shoff hdr) nt shared i" using Cons.prems(2) by simp
  obtain s1 where s1: "ready s1" "build s1 = build s"
    "load_sections sys l fd hdr nt dest shared (i # idxs) b s = load_sections sys l fd hdr nt dest shared idxs (b \<or> alloc (?sec i)) s1"
    "\<And>x. x \<notin> loader_buffers l \<Longrightarrow> x \<notin> targets f (build s) shared (e_shoff hdr) dest [i] \<Longrightarrow> memory s1 x = memory s x"
    "alloc (?sec i) \<Longrightarrow> load_bytes (memory s1) (dest + of_nat (place (build s) shared (?sec i))) (unat (sh_size (?sec i))) = image f (?sec i)"
    using load_sections_step [OF Cons.prems(1) ok Cons.prems(3) assms(4), of l dest idxs b] by metis
  have split: "targets f (build s) shared (e_shoff hdr) dest (i # idxs) =
      targets f (build s) shared (e_shoff hdr) dest [i] \<union> targets f (build s) shared (e_shoff hdr) dest idxs"
    by (auto simp: targets_def)
  obtain s' where s': "load_sections sys l fd hdr nt dest shared idxs (b \<or> alloc (?sec i)) s1 =
      Ret ((b \<or> alloc (?sec i)) \<or> (\<exists>i \<in> set idxs. alloc (?sec i))) s'" "ready s'" "build s' = build s"
    "\<And>x. x \<notin> loader_buffers l \<Longrightarrow> x \<notin> targets f (build s) shared (e_shoff hdr) dest idxs \<Longrightarrow> memory s' x = memory s1 x"
    "\<forall>i \<in> set idxs. alloc (?sec i) \<longrightarrow>
      load_bytes (memory s') (dest + of_nat (place (build s) shared (?sec i))) (unat (sh_size (?sec i))) = image f (?sec i)"
    using Cons.IH [OF s1(1), of "b \<or> alloc (?sec i)"] Cons.prems s1(2) split by (auto simp: Int_Un_distrib2)
  have first: "load_bytes (memory s') (dest + of_nat (place (build s) shared (?sec i))) (unat (sh_size (?sec i))) = image f (?sec i)"
    if a: "alloc (?sec i)"
  proof -
    let ?p = "dest + of_nat (place (build s) shared (?sec i))"
    have "memory s' (?p + of_nat k) = memory s1 (?p + of_nat k)" if "k < unat (sh_size (?sec i))" for k
    proof -
      have "k < 2 ^ 32" using that unat_lt32 [of "sh_size (?sec i)"] by linarith
      then have "?p + of_nat k \<in> target f (build s) shared (e_shoff hdr) dest i" using that by (simp add: region_def)
      moreover have "target f (build s) shared (e_shoff hdr) dest i \<subseteq> targets f (build s) shared (e_shoff hdr) dest (i # idxs)"
        using a by (auto simp: targets_def)
      ultimately have "?p + of_nat k \<notin> loader_buffers l" "?p + of_nat k \<notin> targets f (build s) shared (e_shoff hdr) dest idxs"
        using Cons.prems(4,5,6) a by (auto simp: targets_def)
      then show ?thesis by (rule s'(4))
    qed
    then show ?thesis using s1(5) [OF a] load_bytes_cong [of "unat (sh_size (?sec i))" "memory s'" ?p "memory s1"] by simp
  qed
  have "load_sections sys l fd hdr nt dest shared (i # idxs) b s = Ret (b \<or> (\<exists>j \<in> set (i # idxs). alloc (?sec j))) s'"
    using s1(3) s'(1) by auto
  moreover have "memory s' x = memory s x"
    if "x \<notin> loader_buffers l" "x \<notin> targets f (build s) shared (e_shoff hdr) dest (i # idxs)" for x
    using that s1(4) s'(4) by (simp add: split)
  ultimately show ?case using s'(2,3,5) first by auto
qed

text \<open>Sections without relocations: only the loader's buffers change.\<close>

lemma resolve_none_ok:
  assumes "ready s" and "\<forall>i \<in> set idxs. section_ok f b (e_shoff hdr) nt shared i"
    and "ucast (e_shentsize hdr) = SIZEOF_SectionHeader"
    and "\<forall>i \<in> set idxs. sh_type (section_of f (e_shoff hdr) i) \<noteq> SHT_REL \<and> sh_type (section_of f (e_shoff hdr) i) \<noteq> SHT_RELA"
  shows "\<exists>s'. resolve_all sys l fd hdr nt idxs s = Ret () s' \<and> ready s' \<and> build s' = build s \<and>
    (\<forall>x. x \<notin> loader_buffers l \<longrightarrow> memory s' x = memory s x)"
  using assms(1,2,4)
proof (induction idxs arbitrary: s)
  case (Cons i idxs)
  define h where "h = section_of f (e_shoff hdr) i"
  have ok: "unat (section_pos (e_shoff hdr) i) + 40 \<le> length f" "unat (nt + sh_name h) + 80 \<le> length f"
    using Cons.prems(2) by (simp_all add: section_ok_def Let_def h_def)
  obtain s1 where s1: "get_section_header sys l fd (of_nat i) (e_shoff hdr) SIZEOF_SectionHeader s = Ret h s1" "ready s1" "build s1 = build s"
    "memory s1 = store_bytes (memory s) (l_section_hdr l) (part f (unat (section_pos (e_shoff hdr) i)) 40)"
    using section_header_ok [OF Cons.prems(1) ok(1)] unfolding h_def by blast
  obtain s2 where s2: "get_section_name sys fd nt (sh_name h) (of_nat i) (l_name l) s1 = Ret () s2" "ready s2" "build s2 = build s"
    "memory s2 = store_bytes (memory s1) (l_name l) (part f (unat (nt + sh_name h)) 80)"
    using section_name_ok [OF s1(2) ok(2)] s1(3) by metis
  have out: "memory s2 x = memory s x" if "x \<notin> loader_buffers l" for x
    using that ok unfolding s2(4) s1(4)
    by (simp add: store_bytes_outside loader_buffers_def length_part SIZEOF_SectionHeader_def MAX_SECTION_NAME_LEN_def)
  have "resolve_all sys l fd hdr nt (i # idxs) s = resolve_all sys l fd hdr nt idxs s2"
    using s1(1) s2(1) Cons.prems(3) by (simp add: resolve_relocs_def assms(3) h_def)
  then show ?case using Cons.IH [OF s2(2)] Cons.prems s2(3) out by auto
qed simp

end

section \<open>The header\<close>

definition header_of :: "byte list \<Rightarrow> ElfHeader" where
  "header_of f = \<lparr>e_ident = part f 0 16, e_type = word16_of (part f 16 2), e_machine = word16_of (part f 18 2),
     e_version = word32_of (part f 20 4), e_entry = word32_of (part f 24 4), e_phoff = word32_of (part f 28 4),
     e_shoff = word32_of (part f 32 4), e_flags = word32_of (part f 36 4), e_ehsize = word16_of (part f 40 2),
     e_phentsize = word16_of (part f 42 2), e_phnum = word16_of (part f 44 2), e_shentsize = word16_of (part f 46 2),
     e_shnum = word16_of (part f 48 2), e_shstrndx = word16_of (part f 50 2)\<rparr>"

definition valid_header :: "ElfHeader \<Rightarrow> bool" where
  "valid_header hdr \<longleftrightarrow> take 4 (e_ident hdr) = [0x7F, 0x45, 0x4C, 0x46] \<and> e_ident hdr ! 6 = ELFDATA2LSB \<and>
     e_machine hdr = EXPECTED_MACHINE \<and> e_shoff hdr \<noteq> 0 \<and> (e_type hdr = ET_EXEC \<or> e_type hdr = ET_DYN) \<and>
     e_shstrndx hdr \<noteq> SHN_UNDEF"

lemma load16_within:
  "k + 2 \<le> length bs \<Longrightarrow> length bs < 2 ^ 32 \<Longrightarrow> load16 (store_bytes m a bs) (a + of_nat k) = word16_of (take 2 (drop k bs))"
  by (simp add: load16_def load_bytes_within)

lemma part_take: "off + n \<le> k \<Longrightarrow> part (take k f) off n = part f off n"
  by (simp add: part_def drop_take min_def)

lemma load_elf_header_bytes:
  assumes "52 \<le> length f"
  shows "load_elf_header (store_bytes m p (part f 0 52)) p = header_of f"
proof -
  let ?bs = "part f 0 52"
  have len: "length ?bs = 52" using assms by (simp add: length_part)
  have w32: "load32 (store_bytes m p ?bs) (p + of_nat k) = word32_of (part f k 4)" if "k + 4 \<le> 52" for k
    using that len load32_within [of k ?bs m p] by (simp add: part_def take_drop min_def)
  have w16: "load16 (store_bytes m p ?bs) (p + of_nat k) = word16_of (part f k 2)" if "k + 2 \<le> 52" for k
    using that len load16_within [of k ?bs m p] by (simp add: part_def take_drop min_def)
  have "load_bytes (store_bytes m p ?bs) p 16 = part f 0 16"
    using len load_bytes_within [of 0 16 ?bs m p] by (simp add: part_def)
  then show ?thesis
    using w32 [of 20] w32 [of 24] w32 [of 28] w32 [of 32] w32 [of 36] w16 [of 16] w16 [of 18] w16 [of 40] w16 [of 42]
      w16 [of 44] w16 [of 46] w16 [of 48] w16 [of 50]
    by (simp add: load_elf_header_def header_of_def)
qed

lemma check_header_ok:
  assumes "valid_header hdr"
  shows "check_elf_hdr sys hdr s = Ret () s"
proof -
  have "e_ident hdr ! i = [0x7F, 0x45, 0x4C, 0x46] ! i" if "i < 4" for i
    using assms that by (metis valid_header_def nth_take)
  from this [of 0] this [of 1] this [of 2] this [of 3]
  have "e_ident hdr ! 0 = 0x7F" "e_ident hdr ! 1 = 0x45" "e_ident hdr ! 2 = 0x4C" "e_ident hdr ! 3 = 0x46"
    by (simp_all add: numeral_2_eq_2 numeral_3_eq_3)
  then show ?thesis using assms by (simp add: check_elf_hdr_def exit_if_def valid_header_def)
qed

end
