(* ===== verification/Elf_Properties.thy ===== *)
theory Elf_Properties
  imports Elf_Loader
begin

text \<open>
  The loader on a whole file, and the kernel with a debugger host that serves the file as the
  interface it relies on.
\<close>

section \<open>A host that serves one file\<close>

text \<open>The position in the file after a list of semihosting calls.\<close>

definition file_step :: "byte list \<Rightarrow> nat \<Rightarrow> size_t \<times> size_t list \<Rightarrow> nat" where
  "file_step f p call =
     (if fst call = SYS_SEEK then unat (snd call ! 1)
      else if fst call = SYS_READ then p + length (part f p (unat (snd call ! 2)))
      else p)"

definition file_pos :: "byte list \<Rightarrow> (size_t \<times> size_t list) list \<Rightarrow> nat" where
  "file_pos f calls = foldl (file_step f) 0 calls"

definition file_host :: "byte list \<Rightarrow> host" where
  "file_host f calls m =
     (let (op, ps) = last calls; bs = part f (file_pos f (butlast calls)) (unat (ps ! 2)) in
      if op = SYS_READ then (ps ! 2 - of_nat (length bs), store_bytes m (ps ! 1) bs)
      else if op = SYS_OPEN then (3, m)
      else (0, m))"

lemma file_pos_append: "file_pos f (calls @ [call]) = file_step f (file_pos f calls) call"
  by (simp add: file_pos_def)

lemma same_outside_errno [simp]: "same_outside A s (set_errno e s)"
  by (simp add: same_outside_def)

interpretation kernel_file: elf_file "kernel (file_host f) others" fd f
  "\<lambda>s. \<not> k_has_no_permission TPERM_FILE s" "\<lambda>s. file_pos f (host_calls s)" for f others fd
proof
  fix buf n :: size_t and s
  show "confined (region buf (unat n)) s (kernel (file_host f) others syscall_read fd buf n 0 s)"
    by (auto simp: kernel_def k_read_def need_file_def generic_semihosting_call_def file_host_def Let_def
      same_outside_def store_bytes_def region_def part_def)
next
  fix s and off :: size_t
  show "confined {} s (kernel (file_host f) others syscall_lseek fd off SEEK_CUR 0 s)"
    by (auto simp: kernel_def k_lseek_def k_assert_def need_file_def generic_semihosting_call_def file_host_def Let_def
      same_outside_def SYS_SEEK_def SYS_READ_def SYS_OPEN_def)
next
  fix status :: size_t and s
  show "kernel (file_host f) others syscall_exit status 0 0 0 s = Exit (sint status) s"
    by (simp add: kernel_def k_exit_def)
next
  fix s bs and n buf :: size_t
  assume "\<not> k_has_no_permission TPERM_FILE s" and bs: "bs = part f (file_pos f (host_calls s)) (unat n)"
  then show "\<exists>s'. kernel (file_host f) others syscall_read fd buf n 0 s = Ret (of_nat (length bs)) s' \<and>
      \<not> k_has_no_permission TPERM_FILE s' \<and> file_pos f (host_calls s') = file_pos f (host_calls s) + length bs \<and>
      memory s' = store_bytes (memory s) buf bs \<and> build s' = build s"
    by (auto simp: kernel_def k_read_def need_file_def generic_semihosting_call_def file_host_def Let_def
      file_pos_append file_step_def SYS_SEEK_def SYS_READ_def k_has_no_permission_def set_memory_def split: option.splits)
next
  fix s and off :: size_t
  assume "\<not> k_has_no_permission TPERM_FILE s"
  then show "\<exists>r s'. kernel (file_host f) others syscall_lseek fd off SEEK_CUR 0 s = Ret r s' \<and>
      \<not> k_has_no_permission TPERM_FILE s' \<and> memory s' = memory s \<and> build s' = build s \<and>
      (r = off \<longrightarrow> file_pos f (host_calls s') = unat off) \<and> (unat off \<le> length f \<longrightarrow> r = off)"
    by (auto simp: kernel_def k_lseek_def k_assert_def need_file_def generic_semihosting_call_def file_host_def Let_def
      file_pos_append file_step_def SYS_SEEK_def SYS_READ_def SYS_OPEN_def k_has_no_permission_def set_memory_def split: option.splits)
next
  fix m s
  show "(\<not> k_has_no_permission TPERM_FILE (set_memory m s)) = (\<not> k_has_no_permission TPERM_FILE s)"
    by (simp add: k_has_no_permission_def split: option.split)
qed

section \<open>Well formed programs\<close>

definition name_table :: "byte list \<Rightarrow> size_t" where
  "name_table f = sh_offset (section_of f (e_shoff (header_of f)) (unat (e_shstrndx (header_of f))))"

abbreviation program_section :: "byte list \<Rightarrow> nat \<Rightarrow> SectionHeader" where
  "program_section f i \<equiv> section_of f (e_shoff (header_of f)) i"

abbreviation is_shared :: "byte list \<Rightarrow> bool" where
  "is_shared f \<equiv> e_type (header_of f) = ET_DYN"

abbreviation program_place :: "byte list \<Rightarrow> Build \<Rightarrow> nat \<Rightarrow> nat" where
  "program_place f b i \<equiv> place b (is_shared f) (program_section f i)"

abbreviation section_size :: "byte list \<Rightarrow> nat \<Rightarrow> nat" where
  "section_size f i \<equiv> unat (sh_size (program_section f i))"

text \<open>The header is valid, all sections are in the file and fit into the page without overlapping, there
  is something to load, and nothing to relocate.\<close>

definition well_formed :: "byte list \<Rightarrow> Build \<Rightarrow> bool" where
  "well_formed f b \<longleftrightarrow>
     (let hdr = header_of f; n = unat (e_shnum hdr) in
      52 \<le> length f \<and> valid_header hdr \<and> e_shentsize hdr = 40 \<and>
      unat (section_pos (e_shoff hdr) (unat (e_shstrndx hdr))) + 40 \<le> length f \<and>
      (\<forall>i < n. section_ok f b (e_shoff hdr) (name_table f) (is_shared f) i) \<and>
      (\<forall>i < n. \<forall>j < n. i \<noteq> j \<longrightarrow> alloc (program_section f i) \<longrightarrow> alloc (program_section f j) \<longrightarrow>
         program_place f b i + section_size f i \<le> program_place f b j \<or>
         program_place f b j + section_size f j \<le> program_place f b i) \<and>
      (\<exists>i < n. alloc (program_section f i)) \<and>
      (\<forall>i < n. sh_type (program_section f i) \<noteq> SHT_REL \<and> sh_type (program_section f i) \<noteq> SHT_RELA))"

definition entry_point :: "byte list \<Rightarrow> Build \<Rightarrow> size_t" where
  "entry_point f b = e_entry (header_of f) + (if is_shared f then b_code_page b else 0)"

text \<open>Every section to be loaded is in its place in the page at \<open>dest\<close>.\<close>

definition program_in_place :: "byte list \<Rightarrow> Build \<Rightarrow> size_t \<Rightarrow> mem \<Rightarrow> bool" where
  "program_in_place f b dest m \<longleftrightarrow>
     (\<forall>i < unat (e_shnum (header_of f)). alloc (program_section f i) \<longrightarrow>
        load_bytes m (dest + of_nat (program_place f b i)) (section_size f i) = image f (program_section f i))"

definition all_buffers :: "Loader \<Rightarrow> size_t set" where
  "all_buffers l = loader_buffers l \<union> region (l_header l) 52"

lemma targets_in_page:
  assumes "\<forall>i \<in> set idxs. section_ok f b offs nt shared i" and "page_ok b"
  shows "targets f b shared offs dest idxs \<subseteq> region dest (b_code_page_size b)"
proof -
  have "target f b shared offs dest i \<subseteq> region dest (b_code_page_size b)"
    if "i \<in> set idxs" "alloc (section_of f offs i)" for i
    using section_place(2) [of f b offs nt shared i] assms that
    by (intro region_part) (auto simp: page_ok_def)
  then show ?thesis by (auto simp: targets_def)
qed

lemma targets_disjoint:
  assumes "p + n \<le> q \<or> q + k \<le> p" and "p + n \<le> 2 ^ 32" and "q + k \<le> 2 ^ 32"
  shows "region (d + of_nat p) n \<inter> region (d + of_nat q) k = {}"
  using assms(1) by (auto simp: region_offset [OF assms(2)] region_offset [OF assms(3)])

section \<open>Loading\<close>

context elf_file
begin

lemma sections_in_place:
  assumes "ready s" and "well_formed f (build s)" and "page_ok (build s)"
    and "region dest (b_code_page_size (build s)) \<inter> all_buffers l = {}"
  obtains s' where "load_sections sys l fd (header_of f) (name_table f) dest (is_shared f) [0..<unat (e_shnum (header_of f))] False s =
      Ret True s'" and "ready s'" and "build s' = build s" and "program_in_place f (build s) dest (memory s')"
    and "\<And>x. x \<notin> all_buffers l \<Longrightarrow> x \<notin> region dest (b_code_page_size (build s)) \<Longrightarrow> memory s' x = memory s x"
proof -
  let ?hdr = "header_of f" and ?b = "build s"
  let ?idxs = "[0..<unat (e_shnum ?hdr)]"
  have w: "e_shentsize ?hdr = 40" "\<exists>i \<in> set ?idxs. alloc (program_section f i)"
    "\<forall>i \<in> set ?idxs. section_ok f ?b (e_shoff ?hdr) (name_table f) (is_shared f) i"
    using assms(2) by (auto simp: well_formed_def Let_def)
  have lt: "program_place f ?b i + section_size f i \<le> 2 ^ 32" if "i \<in> set ?idxs" "alloc (program_section f i)" for i
    using section_place(2) [of f ?b "e_shoff ?hdr" "name_table f" "is_shared f" i] w(3) that assms(3) by (auto simp: page_ok_def)
  have disj: "target f ?b (is_shared f) (e_shoff ?hdr) dest i \<inter> target f ?b (is_shared f) (e_shoff ?hdr) dest j = {}"
    if "i \<in> set ?idxs" "j \<in> set ?idxs" "i \<noteq> j" "alloc (program_section f i)" "alloc (program_section f j)" for i j
    using assms(2) that lt by (intro targets_disjoint) (auto simp: well_formed_def Let_def)
  have page: "targets f ?b (is_shared f) (e_shoff ?hdr) dest ?idxs \<subseteq> region dest (b_code_page_size ?b)"
    by (rule targets_in_page [OF w(3) assms(3)])
  then have bufs: "targets f ?b (is_shared f) (e_shoff ?hdr) dest ?idxs \<inter> loader_buffers l = {}"
    using assms(4) by (auto simp: all_buffers_def)
  obtain s' where s': "load_sections sys l fd ?hdr (name_table f) dest (is_shared f) ?idxs False s =
      Ret (False \<or> (\<exists>i \<in> set ?idxs. alloc (program_section f i))) s'" "ready s'" "build s' = ?b"
    "\<forall>x. x \<notin> loader_buffers l \<longrightarrow> x \<notin> targets f ?b (is_shared f) (e_shoff ?hdr) dest ?idxs \<longrightarrow> memory s' x = memory s x"
    "\<forall>i \<in> set ?idxs. alloc (program_section f i) \<longrightarrow>
      load_bytes (memory s') (dest + of_nat (program_place f ?b i)) (section_size f i) = image f (program_section f i)"
    using load_sections_ok [OF assms(1) w(3) assms(3), where dest = dest and l = l and b = False] w(1) disj bufs
    by (auto simp: SIZEOF_SectionHeader_def)
  then show thesis using page w(2) by (intro that [of s']) (auto simp: program_in_place_def all_buffers_def)
qed

lemma program_loads:
  assumes "open_file sys filename O_RDONLY s = Ret fd s1" and "0 \<le> sint fd" and "ready s1" and "pos s1 = 0"
    and "well_formed f (build s1)" and "page_ok (build s1)"
    and "region dest (b_code_page_size (build s1)) \<inter> all_buffers l = {}"
  shows "\<exists>s'. load_elf sys l dest perms args filename s =
      obind (restart sys (entry_point f (build s1)) filename args perms s') (\<lambda>_ _. Undef) \<and>
    program_in_place f (build s1) dest (memory s') \<and>
    same_outside (all_buffers l \<union> region dest (b_code_page_size (build s1))) s1 s'"
proof -
  let ?hdr = "header_of f" and ?b = "build s1"
  let ?idxs = "[0..<unat (e_shnum ?hdr)]"
  have w: "52 \<le> length f" "valid_header ?hdr" "e_shentsize ?hdr = 40"
      "unat (section_pos (e_shoff ?hdr) (unat (e_shstrndx ?hdr))) + 40 \<le> length f"
      "\<forall>i \<in> set ?idxs. section_ok f ?b (e_shoff ?hdr) (name_table f) (is_shared f) i"
      "\<forall>i \<in> set ?idxs. sh_type (program_section f i) \<noteq> SHT_REL \<and> sh_type (program_section f i) \<noteq> SHT_RELA"
    using assms(5) by (auto simp: well_formed_def Let_def)
  have size: "ucast (e_shentsize ?hdr) = SIZEOF_SectionHeader" using w(3) by (simp add: SIZEOF_SectionHeader_def)
  obtain s2 where s2: "read_file sys fd (l_header l) SIZEOF_ElfHeader s1 = Ret SIZEOF_ElfHeader s2" "ready s2" "build s2 = ?b"
    "memory s2 = store_bytes (memory s1) (l_header l) (part f 0 52)"
    using read_ok [OF assms(3), of SIZEOF_ElfHeader "l_header l"] assms(4) w(1) by (auto simp: SIZEOF_ElfHeader_def)
  have hdr: "load_elf_header (memory s2) (l_header l) = ?hdr" unfolding s2(4) by (rule load_elf_header_bytes [OF w(1)])
  have idx: "(of_nat (unat (e_shstrndx ?hdr)) :: u16) = e_shstrndx ?hdr" by simp
  obtain s3 where s3: "get_section_header sys l fd (e_shstrndx ?hdr) (e_shoff ?hdr) SIZEOF_SectionHeader s2 =
      Ret (program_section f (unat (e_shstrndx ?hdr))) s3" "ready s3" "build s3 = ?b"
    "memory s3 = store_bytes (memory s2) (l_section_hdr l) (part f (unat (section_pos (e_shoff ?hdr) (unat (e_shstrndx ?hdr)))) 40)"
    using section_header_ok [OF s2(2) w(4), of l] s2(3) unfolding idx by auto
  obtain s4 where s4: "load_sections sys l fd ?hdr (name_table f) dest (is_shared f) ?idxs False s3 = Ret True s4"
    "ready s4" "build s4 = ?b" "program_in_place f ?b dest (memory s4)"
    "\<And>x. x \<notin> all_buffers l \<Longrightarrow> x \<notin> region dest (b_code_page_size ?b) \<Longrightarrow> memory s4 x = memory s3 x"
    using sections_in_place [OF s3(2), of dest l] assms(5-7) unfolding s3(3) by metis
  obtain s5 where s5: "resolve_all sys l fd ?hdr (name_table f) ?idxs s4 = Ret () s5" "build s5 = ?b"
    "\<And>x. x \<notin> loader_buffers l \<Longrightarrow> memory s5 x = memory s4 x"
    using resolve_none_ok [OF s4(2) w(5) size w(6), of l] s4(3) by auto
  have entry: "(if is_shared f then e_entry ?hdr + CODE_PAGE s5 else e_entry ?hdr) = entry_point f ?b"
    using s5(2) by (simp add: entry_point_def CODE_PAGE_def)
  have nt: "sh_offset (program_section f (unat (e_shstrndx ?hdr))) = name_table f" by (simp add: name_table_def)
  have run: "load_elf sys l dest perms args filename s =
      obind (restart sys (entry_point f ?b) filename args perms s5) (\<lambda>_ _. Undef)"
    using assms(1,2) s2(1) s3(1) s4(1) s5(1) hdr entry check_header_ok [OF w(2)]
    by (cases "is_shared f") (simp_all add: load_elf_def Let_def exit_if_def nt size)
  have kept: "memory s5 x = memory s4 x" if "x \<in> region dest (b_code_page_size ?b)" for x
    using that assms(7) s5(3) by (auto simp: all_buffers_def)
  have "load_bytes (memory s5) (dest + of_nat (program_place f ?b i)) (section_size f i) =
      load_bytes (memory s4) (dest + of_nat (program_place f ?b i)) (section_size f i)"
    if "i < unat (e_shnum ?hdr)" "alloc (program_section f i)" for i
  proof (rule load_bytes_cong, rule kept)
    fix k
    assume "k < section_size f i"
    then have "program_place f ?b i + k < b_code_page_size ?b"
      using section_place(2) [of f ?b "e_shoff ?hdr" "name_table f" "is_shared f" i] w(5) that assms(6) by auto
    then show "dest + of_nat (program_place f ?b i) + of_nat k \<in> region dest (b_code_page_size ?b)"
      using assms(6) region_offset [of "program_place f ?b i + k" 1] unfolding page_ok_def region_def
      by (simp add: add.assoc flip: of_nat_add)
  qed
  then have "program_in_place f ?b dest (memory s5)" using s4(4) by (simp add: program_in_place_def)
  moreover have "memory s5 x = memory s1 x" if "x \<notin> all_buffers l" "x \<notin> region dest (b_code_page_size ?b)" for x
    using that s5(3) s4(5) w(1,4) unfolding s3(4) s2(4)
    by (auto simp: all_buffers_def loader_buffers_def store_bytes_outside length_part SIZEOF_SectionHeader_def)
  ultimately show ?thesis using run s5(2) by (auto simp: same_outside_def)
qed

end

section \<open>Properties\<close>

text \<open>C21: Loading a well formed program: given a file that can be read by seeking and reading, the loader
  gets as far as restarting the thread at the program's entry point with the given name,
  arguments and permissions to remove; at that moment every section to be loaded is in its place
  in the destination page, zeroed or as it is in the file, and nothing else has been written but
  the loader's own buffers.\<close>

theorem program_starts:
  assumes "elf_file sys fd f ready pos" and "open_file sys filename O_RDONLY s = Ret fd s1" and "0 \<le> sint fd"
    and "ready s1" and "pos s1 = 0" and "well_formed f (build s1)" and "page_ok (build s1)"
    and "region dest (b_code_page_size (build s1)) \<inter> all_buffers l = {}"
  shows "\<exists>s'. load_elf sys l dest perms args filename s =
      obind (restart sys (entry_point f (build s1)) filename args perms s') (\<lambda>_ _. Undef) \<and>
    program_in_place f (build s1) dest (memory s') \<and>
    same_outside (all_buffers l \<union> region dest (b_code_page_size (build s1))) s1 s'"
  by (rule elf_file.program_loads [OF assms])

text \<open>C22: Whatever relocations a file asks for, with whatever symbols, resolving them writes only to the code
  page, up to three bytes behind it, and to the loader's buffers; this is so when the loader
  returns and when it gives up with an error.\<close>

theorem relocations_confined:
  assumes "file_calls sys fd" and "page_ok (build s)" and "e_shentsize hdr = 40"
  shows "confined (code_area (build s) \<union> loader_buffers l) s (resolve_all sys l fd hdr nt idxs s)"
  using file_calls.resolve_all_confined [OF assms(1) _ _ assms(2), of l "code_area (build s) \<union> loader_buffers l" hdr] assms(3)
  by (auto simp: SIZEOF_SectionHeader_def)

text \<open>C23: The check that a section ends inside the code page can be passed by a section whose size wraps around
  the end of the address space. Such a section, when it is one without content in the file, is
  zeroed over its whole size: nearly all of the memory is erased, far outside the destination.\<close>

theorem section_overflow:
  assumes "elf_file sys fd f ready pos" and "ready s"
    and "unat (section_pos offs idx) + 40 \<le> length f" and "unat (nt + sh_name h) + 80 \<le> length f"
    and "h = section_of f offs idx" and "alloc h" and "sh_type h AND SHT_NOBITS \<noteq> 0" and "unat (sh_offset h) \<le> length f"
    and "CODE_PAGE s \<le> sh_addr h" and "sh_addr h < END_CODE_PAGE s" and "sh_addr h + sh_size h < END_CODE_PAGE s"
  shows "\<exists>s'. load_section sys l fd (of_nat idx) offs SIZEOF_SectionHeader nt dest False s = Ret True s' \<and>
    (\<forall>k < unat (sh_size h). memory s' (dest + (sh_addr h - CODE_PAGE s) + of_nat k) = 0)"
proof -
  obtain s1 where s1: "get_section_header sys l fd (of_nat idx) offs SIZEOF_SectionHeader s = Ret h s1" "ready s1" "build s1 = build s"
    using elf_file.section_header_ok [OF assms(1-3), of l] assms(5) by auto
  obtain s2 where s2: "get_section_name sys fd nt (sh_name h) (of_nat idx) (l_name l) s1 = Ret () s2" "ready s2" "build s2 = build s"
    using elf_file.section_name_ok [OF assms(1) s1(2) assms(4)] s1(3) by metis
  obtain s3 where s3: "checked_lseek sys fd (sh_offset h) SEEK_CUR s2 = Ret () s3" "build s3 = build s"
    using elf_file.seek_ok [OF assms(1) s2(2) assms(8)] s2(3) by auto
  have pages: "CODE_PAGE s2 = CODE_PAGE s" "END_CODE_PAGE s2 = END_CODE_PAGE s" "CODE_PAGE s3 = CODE_PAGE s"
    using s2(3) s3(2) by (simp_all add: CODE_PAGE_def END_CODE_PAGE_def)
  have check: "check_section sys (sh_addr h) (sh_addr h + sh_size h) s2 = Ret () s2"
  proof -
    have "\<not> (sh_addr h < CODE_PAGE s2 \<or> END_CODE_PAGE s2 \<le> sh_addr h)" "\<not> END_CODE_PAGE s2 \<le> sh_addr h + sh_size h"
      using assms(9-11) by (simp_all only: pages not_less not_le de_Morgan_disj)
    then show ?thesis unfolding check_section_def exit_if_def by simp
  qed
  let ?a = "dest + (sh_addr h - CODE_PAGE s)"
  have flag: "\<not> sh_flags h AND SHF_ALLOC = 0" using assms(6) by (simp add: alloc_def)
  have "load_section sys l fd (of_nat idx) offs SIZEOF_SectionHeader nt dest False s =
      Ret True (set_memory (memset (memory s3) ?a 0 (sh_size h)) s3)"
    using s1(1) s2(1) s3(1) check flag assms(7) by (simp add: load_section_def Let_def pages)
  moreover have "memset (memory s3) ?a 0 (sh_size h) (?a + of_nat k) = 0" if "k < unat (sh_size h)" for k
  proof -
    have "k < 2 ^ 32" using that unat_lt32 [of "sh_size h"] by linarith
    then show ?thesis unfolding memset_eq using that by (subst store_bytes_at) simp_all
  qed
  ultimately show ?thesis by simp
qed

text \<open>A relative relocation, resolved.\<close>

lemma resolve_relative:
  assumes "page_ok (build s)" and "off < CODE_PAGE_SIZE s"
  shows "resolve_reloc sys l fd h tab hsz nt \<lparr>r_offset = of_nat off, r_info = R_ARM_RELATIVE\<rparr> s =
    Ret () (set_memory (store32 (memory s) (CODE_PAGE s + of_nat off) (load32 (memory s) (CODE_PAGE s + of_nat off) + CODE_PAGE s)) s)"
proof -
  have off: "off < 2 ^ 32" using assms by (simp add: page_ok_def CODE_PAGE_SIZE_def)
  have at: "unat (CODE_PAGE s + of_nat off) = unat (CODE_PAGE s) + off"
    using assms off by (subst unat_add32) (auto simp: page_ok_def CODE_PAGE_def CODE_PAGE_SIZE_def)
  have "\<not> (CODE_PAGE s + of_nat off < CODE_PAGE s \<or> END_CODE_PAGE s \<le> CODE_PAGE s + of_nat off)"
    unfolding word_less_nat_alt word_le_nat_alt at END_CODE_PAGE_unat [OF assms(1)]
    using assms(2) by (simp add: CODE_PAGE_SIZE_def)
  moreover have "RELOC_TYPE R_ARM_RELATIVE = R_ARM_RELATIVE" "RELOC_SYM R_ARM_RELATIVE = 0"
    by (simp_all add: RELOC_TYPE_def RELOC_SYM_def R_ARM_RELATIVE_def drop_bit_eq_div word_div_def)
  ultimately show ?thesis
    by (simp only: resolve_reloc_def Let_def exit_if_def ELFRelocation.simps if_False obind.simps simp_thms if_True not_False_eq_True)
qed

lemma build_set_memory: "build (set_memory m s) = build s"
  by simp

text \<open>With backing pages, relocations are lost: a relative relocation is resolved in the code page, but
  when the loader then restarts its thread, the kernel copies the thread's backing page, where the
  sections were loaded, over the code page; the program starts with the words as they are in the
  file.\<close>

theorem relocations_lost:
  assumes "page_layout s" and "page_ok (build s)" and "current_thread s = Some c" and "c < length (all_threads s)"
    and "p = t_code_backing_page (thread_at s c)" and "unat p < CODE_BACKING_PAGES s"
    and "apart (ALIGN_STACK_PTR (t_stack (thread_at s c) + THREAD_STACK_SIZE) - 64) 64 (backing_data p s) (CODE_PAGE_SIZE s)"
    and "off + 4 \<le> CODE_PAGE_SIZE s"
  shows "\<exists>s1 s2. resolve_reloc sys l fd h tab hsz nt \<lparr>r_offset = of_nat off, r_info = R_ARM_RELATIVE\<rparr> s = Ret () s1 \<and>
    load32 (memory s1) (CODE_PAGE s + of_nat off) = load32 (memory s) (CODE_PAGE s + of_nat off) + CODE_PAGE s \<and>
    k_restart worker name args perms s1 = Ret () s2 \<and> code_of s2 = backing_of p s"
proof -
  define s1 where "s1 = set_memory (store32 (memory s) (CODE_PAGE s + of_nat off) (load32 (memory s) (CODE_PAGE s + of_nat off) + CODE_PAGE s)) s"
  have reloc: "resolve_reloc sys l fd h tab hsz nt \<lparr>r_offset = of_nat off, r_info = R_ARM_RELATIVE\<rparr> s = Ret () s1"
    unfolding s1_def using assms(8) by (intro resolve_relative [OF assms(2)]) simp
  have word: "load32 (memory s1) (CODE_PAGE s + of_nat off) = load32 (memory s) (CODE_PAGE s + of_nat off) + CODE_PAGE s"
    by (simp add: s1_def mem_simps)
  have s1: "current_thread s1 = Some c" "c < length (all_threads s1)" "CODE_BACKING_PAGES s1 = CODE_BACKING_PAGES s"
    "CODE_PAGE_SIZE s1 = CODE_PAGE_SIZE s" "build s1 = build s" "thread_at s1 c = thread_at s c" "0 < CODE_BACKING_PAGES s" "0 < CODE_PAGE_SIZE s"
    using assms(1,3,4,6) by (auto simp: s1_def page_layout_def CODE_PAGE_SIZE_def CODE_BACKING_PAGES_def)
  obtain s4 x where "k_restart worker name args perms s1 = (if CODE_BACKING_PAGES s1 = 0 then Ret () s4 else page_in p s4)"
    and s4: "CODE_BACKING_PAGES s4 = CODE_BACKING_PAGES s" "build s4 = build s"
      "memory s4 = store_bytes (memory s1) (ALIGN_STACK_PTR (t_stack (thread_at s c) + THREAD_STACK_SIZE) - 64) (fresh_context (build s))"
    using restart_state [OF s1(1,2), of worker name args perms] s1(3-8) unfolding assms(5) by metis
  then have restart: "k_restart worker name args perms s1 = page_in p s4" using s1(3,7) by simp
  have layout: "page_layout s4" using assms(1) s4(1,2) by (simp add: page_layout_def CODE_PAGE_SIZE_def)
  have same: "backing_data p s4 = backing_data p s" "CODE_PAGE s = b_code_page (build s)" "CODE_PAGE_SIZE s4 = CODE_PAGE_SIZE s" using s4(2)
    by (simp_all add: backing_data_def CODE_PAGE_def CODE_PAGE_SIZE_def)
  have "apart (CODE_PAGE s + of_nat off) 4 (backing_data p s) (CODE_PAGE_SIZE s)"
    using apart_part [OF code_backing_apart [OF assms(1,6), unfolded apart_commute [of "b_code_page (build s)"]] assms(8)] same(2)
    by (simp add: apart_commute)
  then have "backing_of p s4 = backing_of p s"
    using assms(7) unfolding backing_of_def same(1,3) s4(3)
    by (simp add: s1_def mem_simps)
  then have "code_of (set_memory (store_bytes (memory s4) (b_code_page (build s4)) (backing_of p s4)) s4) = backing_of p s"
    unfolding code_of_def memory_set_memory using layout
    by (simp only: layout_set_memory build_set_memory) (rule load_store_bytes_same; simp add: same(3) page_layout_def)
  then show ?thesis
    using reloc word restart page_moves(1) [OF layout, of p] assms(6) s4(1) by auto
qed

section \<open>Witnesses\<close>

text \<open>A file with an empty first section and a section of the given type and size at the start of the code
  page, whose content is 1, 2, 3, 4.\<close>

definition demo_header :: "byte list" where
  "demo_header = [0x7F, 0x45, 0x4C, 0x46, 1, 1, 1, 0, 0, 0, 0, 0, 0, 0, 0, 0] @ bytes16 2 @ bytes16 40 @ bytes32 1 @
     bytes32 0x60000 @ bytes32 0 @ bytes32 52 @ bytes32 0 @ bytes16 52 @ bytes16 0 @ bytes16 0 @ bytes16 40 @
     bytes16 2 @ bytes16 1"

definition demo_section :: "u32 \<Rightarrow> u32 \<Rightarrow> size_t \<Rightarrow> size_t \<Rightarrow> byte list" where
  "demo_section ty flags off n = bytes32 0 @ bytes32 ty @ bytes32 flags @ bytes32 0x60000 @ bytes32 off @ bytes32 n @
     bytes32 0 @ bytes32 0 @ bytes32 0 @ bytes32 0"

definition demo_elf :: "u32 \<Rightarrow> size_t \<Rightarrow> byte list" where
  "demo_elf ty n = demo_header @ demo_section 0 0 0 0 @ demo_section ty 2 132 n @ [1, 2, 3, 4] @ replicate 96 0"

definition demo_loader :: Loader where
  "demo_loader = \<lparr>l_header = 0x11000, l_section_hdr = 0x11100, l_name = 0x11200, l_sym_table_name = 0x11300,
     l_sym_name_table_name = 0x11400, l_symbol = 0x11500, l_sym_name = 0x11600, l_reloc = 0x11700, l_function = (\<lambda>_. 0x8600)\<rparr>"

lemma demo_lengths: "length demo_header = 52" "length (demo_section ty fl off n) = 40" "length (demo_elf ty n) = 232"
  by (simp_all add: demo_header_def demo_section_def demo_elf_def)

lemma part_append:
  "off + n \<le> length xs \<Longrightarrow> part (xs @ ys) off n = part xs off n"
  "length xs \<le> off \<Longrightarrow> part (xs @ ys) off n = part ys (off - length xs) n"
  by (simp_all add: part_def)

lemma section_of_demo_section:
  "section_of_bytes (demo_section ty fl off n) = \<lparr>sh_name = 0, sh_type = ty, sh_flags = fl, sh_addr = 0x60000,
     sh_offset = off, sh_size = n, sh_link = 0, sh_info = 0, sh_addralign = 0, sh_entsize = 0\<rparr>"
  unfolding section_of_bytes_def demo_section_def part_def by simp

lemma demo_sections:
  "section_of (demo_elf ty n) 52 0 = section_of_bytes (demo_section 0 0 0 0)"
  "section_of (demo_elf ty n) 52 (Suc 0) = section_of_bytes (demo_section ty 2 132 n)"
  "section_pos 52 0 = 52" "section_pos 52 (Suc 0) = 92"
proof -
  show pos: "section_pos 52 0 = 52" "section_pos 52 (Suc 0) = 92"
    by (simp_all add: section_pos_def SIZEOF_SectionHeader_def)
  show "section_of (demo_elf ty n) 52 0 = section_of_bytes (demo_section 0 0 0 0)"
    "section_of (demo_elf ty n) 52 (Suc 0) = section_of_bytes (demo_section ty 2 132 n)"
    unfolding section_of_def pos by (simp_all add: demo_elf_def part_append demo_lengths SIZEOF_SectionHeader_def)
      (simp_all add: part_def demo_lengths)
qed

lemma demo_header_of:
  "header_of (demo_elf ty n) = \<lparr>e_ident = [0x7F, 0x45, 0x4C, 0x46, 1, 1, 1, 0, 0, 0, 0, 0, 0, 0, 0, 0], e_type = 2, e_machine = 40,
     e_version = 1, e_entry = 0x60000, e_phoff = 0, e_shoff = 52, e_flags = 0, e_ehsize = 52, e_phentsize = 0, e_phnum = 0,
     e_shentsize = 40, e_shnum = 2, e_shstrndx = 1\<rparr>"
proof -
  have "part (demo_elf ty n) k m = part demo_header k m" if "k + m \<le> 52" for k m
    using that by (simp add: demo_elf_def part_append demo_lengths)
  then show ?thesis
    by (simp add: header_of_def) (simp add: part_def demo_header_def)
qed

lemma demo_two: "(\<forall>i < (2 :: nat). P i) \<longleftrightarrow> P 0 \<and> P (Suc 0)" "(\<exists>i < (2 :: nat). P i) \<longleftrightarrow> P 0 \<or> P (Suc 0)"
  by (auto simp: less_2_cases_iff)

lemma demo_name_table: "name_table (demo_elf ty n) = 132"
  by (simp add: name_table_def demo_header_of demo_sections section_of_demo_section)

lemma demo_image: "image (demo_elf 1 4) \<lparr>sh_name = 0, sh_type = 1, sh_flags = 2, sh_addr = 0x60000,
     sh_offset = 132, sh_size = 4, sh_link = 0, sh_info = 0, sh_addralign = 0, sh_entsize = 0\<rparr> = [1, 2, 3, 4]"
  by (simp add: image_def SHT_NOBITS_def demo_elf_def part_append demo_lengths) (simp add: part_def)

lemma demo_page [simp]: "page_ok (build demo_code)" "page_ok (demo_build\<lparr>b_code_page_size := 256\<rparr>)"
  by (simp_all add: page_ok_def)

lemma demo_well_formed: "well_formed (demo_elf 1 4) (build demo_code)"
  unfolding well_formed_def Let_def demo_header_of demo_name_table
  by (simp add: demo_two demo_sections section_of_demo_section demo_lengths valid_header_def elf_consts section_ok_def
    alloc_def section_start_def place_def)

lemma region_eq_empty:
  assumes "apart a n b k"
  shows "region a n \<inter> region b k = {}"
proof -
  have "x \<notin> region a n" if "x \<in> region b k" for x
    using apart_offset [OF assms, of "unat (x - b)"] that by (simp add: region_def)
  then show ?thesis by blast
qed

lemma demo_apart: "region 0x60000 256 \<inter> all_buffers demo_loader = {}"
proof -
  have "region 0x60000 256 \<inter> region (0x11000 + x) n = {}" if "unat x \<le> 0x700" "n \<le> 256" for x :: size_t and n
  proof (rule region_eq_empty)
    have "unat (0x11000 + x) = 0x11000 + unat x" using that(1) by (subst unat_add32) simp_all
    then show "apart 0x60000 256 (0x11000 + x) n"
      using that unat_sub_if' [of "0x11000 + x" "0x60000"] unat_sub_if' [of "0x60000" "0x11000 + x"] by (simp add: apart_def)
  qed
  from this [of 0] this [of "0x100"] this [of "0x200"] this [of "0x300"] this [of "0x400"] this [of "0x500"] this [of "0x600"]
    this [of "0x700"]
  show ?thesis
    by (simp add: all_buffers_def loader_buffers_def demo_loader_def Int_Un_distrib elf_consts)
qed

theorem program_starts_witness:
  "\<exists>s'. load_elf (kernel (file_host (demo_elf 1 4)) demo_others) demo_loader 0x60000 0 0x100 0x9000 demo_code =
      obind (restart (kernel (file_host (demo_elf 1 4)) demo_others) 0x60000 0x9000 0x100 0 s') (\<lambda>_ _. Undef) \<and>
    load_bytes (memory s') 0x60000 4 = [1, 2, 3, 4]"
proof -
  let ?f = "demo_elf 1 4"
  let ?s1 = "demo_code\<lparr>host_calls := [(SYS_OPEN, [0x9000, O_RDONLY, 0])]\<rparr>"
  have "strlen (memory demo_code) 0x9000 = Some (of_nat (length ([] :: byte list)))" by (intro strlen_cstr) (simp add: cstr_Nil)
  moreover have "\<not> k_has_no_permission TPERM_FILE demo_code" by (simp add: k_has_no_permission_def perm_defs)
  ultimately have opened: "open_file (kernel (file_host ?f) demo_others) 0x9000 O_RDONLY demo_code = Ret 3 ?s1"
    by (simp add: open_file_def kernel_def k_open_def need_file_def generic_semihosting_call_def file_host_def
      SYS_OPEN_def SYS_READ_def set_memory_def demo_code_def)
  have s1: "build ?s1 = build demo_code" "\<not> k_has_no_permission TPERM_FILE ?s1" "file_pos ?f (host_calls ?s1) = 0"
    by (simp_all add: k_has_no_permission_def perm_defs file_pos_def file_step_def SYS_OPEN_def SYS_SEEK_def SYS_READ_def)
  have size: "b_code_page_size (build demo_code) = 256" by simp
  obtain s' where s': "load_elf (kernel (file_host ?f) demo_others) demo_loader 0x60000 0 0x100 0x9000 demo_code =
      obind (restart (kernel (file_host ?f) demo_others) (entry_point ?f (build demo_code)) 0x9000 0x100 0 s') (\<lambda>_ _. Undef)"
    "program_in_place ?f (build demo_code) 0x60000 (memory s')"
    using program_starts [OF kernel_file.elf_file_axioms opened _ s1(2,3), of "0x60000" demo_loader 0 "0x100", unfolded s1(1) size]
      demo_well_formed demo_page demo_apart by auto
  have "load_bytes (memory s') 0x60000 4 = [1, 2, 3, 4]"
    using s'(2) demo_image by (simp add: program_in_place_def demo_header_of demo_two demo_sections section_of_demo_section alloc_def
      SHF_ALLOC_def place_def section_start_def ET_DYN_def)
  then show ?thesis using s'(1) by (auto simp: entry_point_def demo_header_of ET_DYN_def)
qed

theorem relocations_confined_witness:
  "confined (code_area (build demo_code) \<union> loader_buffers demo_loader) demo_code
     (resolve_all (kernel (file_host (demo_elf 9 8)) demo_others) demo_loader 3 (header_of (demo_elf 9 8)) 132 [0, 1] demo_code)"
  by (rule relocations_confined [OF kernel_file.file_calls_axioms]) (simp_all add: demo_header_of)

theorem section_overflow_witness:
  "\<exists>s'. load_section (kernel (file_host (demo_elf 8 0xFFFFFFF0)) demo_others) demo_loader 3 (of_nat (Suc 0)) 52 SIZEOF_SectionHeader
      132 0x60000 False (set_memory (\<lambda>_. 1) demo_code) = Ret True s' \<and> memory s' 0x10000 = 0"
proof -
  let ?f = "demo_elf 8 0xFFFFFFF0" and ?s = "set_memory (\<lambda>_. 1) demo_code"
  have ready: "\<not> k_has_no_permission TPERM_FILE ?s" by (simp add: k_has_no_permission_def perm_defs)
  have h: "section_of ?f 52 (Suc 0) = section_of_bytes (demo_section 8 2 132 0xFFFFFFF0)" by (rule demo_sections(2))
  obtain s' where s': "load_section (kernel (file_host ?f) demo_others) demo_loader 3 (of_nat (Suc 0)) 52 SIZEOF_SectionHeader
      132 0x60000 False ?s = Ret True s'" "\<And>k. k < 0xFFFFFFF0 \<Longrightarrow> memory s' (0x60000 + of_nat k) = 0"
    using section_overflow [where f = ?f and sys = "kernel (file_host ?f) demo_others" and fd = 3 and offs = 52 and idx = "Suc 0" and nt = 132 and
        h = "section_of_bytes (demo_section 8 2 132 0xFFFFFFF0)" and l = demo_loader and dest = "0x60000", OF kernel_file.elf_file_axioms ready] h
    by (auto simp: section_of_demo_section demo_sections(4) demo_lengths alloc_def elf_consts CODE_PAGE_def END_CODE_PAGE_def)
  have "(0x60000 + of_nat 0xFFFB0000 :: size_t) = 0x10000" by (simp add: word_uint_eq_iff)
  moreover have "memory s' (0x60000 + of_nat 0xFFFB0000) = 0" by (rule s'(2)) simp
  ultimately have "memory s' 0x10000 = 0" by (simp only:)
  then show ?thesis using s'(1) by blast
qed

theorem relocations_lost_witness:
  "\<exists>s1 s2. resolve_reloc (kernel (file_host []) demo_others) demo_loader 3 (section_of_bytes (demo_section 9 2 0 8)) 0 0 0 \<lparr>r_offset = of_nat 8, r_info = R_ARM_RELATIVE\<rparr>
      demo_code = Ret () s1 \<and> load32 (memory s1) 0x60008 = 0x60000 \<and>
    k_restart 0x60000 NULL 0x100 0 s1 = Ret () s2 \<and> code_of s2 = backing_of 0 demo_code"
proof -
  have "apart (ALIGN_STACK_PTR (t_stack (thread_at demo_code 0) + THREAD_STACK_SIZE) - 64) 64 (backing_data 0 demo_code) (CODE_PAGE_SIZE demo_code)"
    by (simp add: ALIGN_STACK_PTR_def THREAD_STACK_SIZE_def backing_data_def apart_def)
  moreover have "0 < length (all_threads demo_code)" by (simp add: demo_code_def)
  ultimately show ?thesis
    using relocations_lost [of demo_code 0 0 8 "kernel (file_host []) demo_others" demo_loader 3 "section_of_bytes (demo_section 9 2 0 8)" 0 0 0 "0x60000" NULL "0x100" 0]
      demo_code_layout by (simp add: CODE_PAGE_def)
qed

end
