(* ===== verification/Property_Access.thy ===== *)
theory Property_Access
  imports Lifecycle
begin

text \<open>
  Reading and changing the properties of threads, and the way of a call into the kernel and back:
  where its result ends up, and what happens to a thread whose stack is damaged.
\<close>

section \<open>Names\<close>

lemma cname_of_cstr:
  assumes "cstr m p name"
  shows "cname (load_bytes m p n) = take n name"
proof (cases "length name < n")
  case True
  then obtain k where k: "n = Suc (length name) + k" by (metis Suc_leI le_Suc_ex)
  have "load_bytes m p n = name @ 0 # load_bytes m (p + of_nat (Suc (length name))) k"
    unfolding k load_bytes_add using assms by (simp add: cstr_def)
  then show ?thesis using assms True by (simp add: cname_append cstr_def)
next
  case False
  have "load_bytes m p n = take n (load_bytes m p (Suc (length name)))"
    using False by (intro nth_equalityI) simp_all
  then have "load_bytes m p n = take n name" using assms False by (simp add: cstr_def)
  moreover have "0 \<notin> set (take n name)" using assms by (auto simp: cstr_def dest: in_set_takeD)
  ultimately show ?thesis by (simp add: cname_def takeWhile_eq_all_conv) metis
qed

text \<open>Copying a name out.\<close>

lemma write_name_cstr:
  assumes "length (cname nm) \<le> THREAD_NAME_MAX_LEN"
  shows "cstr (write_name m p nm) p (cname nm)"
proof -
  let ?n = "length (cname nm)"
  have n: "?n < 2 ^ 32" using assms by (simp add: THREAD_NAME_MAX_LEN_def THREAD_NAME_SIZE_def)
  have at: "write_name m p nm (p + of_nat i) = (cname nm @ [0]) ! i" if "i \<le> ?n" for i
  proof (cases "i = ?n")
    case True
    then show ?thesis by (simp add: write_name_def Let_def)
  next
    case False
    then have "i < ?n" "i < 2 ^ 32" using that n by simp_all
    moreover have "(of_nat i :: size_t) \<noteq> of_nat ?n"
      using False \<open>i < 2 ^ 32\<close> n by (metis unat_of_nat32)
    ultimately show ?thesis
      using assms by (simp add: write_name_def Let_def store_bytes_at nth_append)
  qed
  have "load_bytes (write_name m p nm) p (Suc ?n) = cname nm @ [0]"
    by (rule nth_equalityI) (simp_all add: at)
  then show ?thesis using n by (simp add: cstr_def)
qed

section \<open>Properties\<close>

text \<open>C27: A thread allowed to configure others can rename any thread: afterwards the thread's name reads back
  as the given one, cut to the maximum length, and no other thread has changed.\<close>

theorem name_round_trip:
  assumes "is_valid_thread tid s" and "\<not> k_has_no_permission TPERM_TCONFIG_OTHER s" and "val \<noteq> NULL" and "res \<noteq> NULL"
    and "cstr (memory s) val name" and "thread_ok (thread_at s (nat tid))"
  shows "\<exists>s1 s2. k_set_thread_property tid TPROP_NAME val s = Ret True s1 \<and>
    (\<forall>j. j \<noteq> nat tid \<longrightarrow> thread_at s1 j = thread_at s j) \<and>
    k_get_thread_property tid TPROP_NAME res s1 = Ret True s2 \<and>
    cstr (memory s2) res (take THREAD_NAME_MAX_LEN name)"
proof -
  let ?t = "thread_at s (nat tid)"
  let ?s1 = "upd_thread (nat tid) (k_set_thread_name (name_arg (memory s) val)) s"
  have tid: "tid \<noteq> CURRENT_THREAD" "nat tid < length (all_threads s)"
    using assms(1) by (auto simp: is_valid_thread_def CURRENT_THREAD_def INVALID_THREAD_def MAX_THREADS_def)
  have id: "t_id (k_set_thread_name nm t) = t_id t" for nm t by (simp add: k_set_thread_name_def split: option.split)
  have set: "k_set_thread_property tid TPROP_NAME val s = Ret True ?s1"
    using assms(1-3) tid(1) by (simp add: k_set_thread_property_def do_set_thread_property_def tprop_defs Let_def)
  define nm where "nm = t_name (k_set_thread_name (Some (load_bytes (memory s) val THREAD_NAME_MAX_LEN)) ?t)"
  have new: "thread_at ?s1 (nat tid) = k_set_thread_name (Some (load_bytes (memory s) val THREAD_NAME_MAX_LEN)) ?t"
    using tid(2) assms(3) by (simp add: thread_at_upd name_arg_def)
  have nm: "cname nm = take THREAD_NAME_MAX_LEN name"
    unfolding nm_def using assms(6) cname_of_cstr [OF assms(5)] by (subst cname_k_set_thread_name) (simp_all add: thread_ok_def)
  have "is_valid_thread tid ?s1"
    using assms(1) tid(2) by (simp add: is_valid_thread_def MAX_THREADS_def thread_at_upd id)
  then have get: "k_get_thread_property tid TPROP_NAME res ?s1 = Ret True (set_memory (write_name (memory s) res nm) ?s1)"
    using assms(4) tid(1) new by (simp add: k_get_thread_property_def do_get_thread_property_def tprop_defs Let_def nm_def)
  have "cstr (write_name (memory s) res nm) res (take THREAD_NAME_MAX_LEN name)"
    using write_name_cstr [of nm "memory s" res] unfolding nm by simp
  then show ?thesis using set get by (auto simp: thread_at_upd)
qed

text \<open>The kernel's copy of the caller's data on the way back.\<close>

lemma finish_syscall_to_caller:
  assumes "next_thread s = None" and "current_thread s = Some c"
  shows "finish_syscall call s = Ret () (if update_user_thread_info call
    then k_update_user_thread_info c (s\<lparr>next_thread := Some c\<rparr>) else s\<lparr>next_thread := Some c\<rparr>)"
  using assms by (simp add: finish_syscall_def on_current_def Let_def)

lemma update_info_result:
  "memory (k_update_user_thread_info c s) = memory s"
  "next_thread (k_update_user_thread_info c s) = next_thread s"
  "u_id (user_thread_info (k_update_user_thread_info c s)) = t_id (thread_at (k_update_user_thread_info c s) c)"
  "u_name (user_thread_info (k_update_user_thread_info c s)) = t_name (thread_at (k_update_user_thread_info c s) c)"
  "u_kernel_config (user_thread_info (k_update_user_thread_info c s)) = kernel_config s"
  by (simp_all add: k_update_user_thread_info_def Let_def split: option.split)

lemma handle_syscall_to_caller:
  fixes s s1 :: kstate and c :: nat
  defines "ctx \<equiv> t_stack_ptr (thread_at s c)"
  assumes "current_thread s = Some c" and "t_top_canary (thread_at s c) = STACK_CANARY" and "t_bottom_canary (thread_at s c) = STACK_CANARY"
    and "kernel_config s AND KCFG_LOG_FAILED_ERRNO = 0" and "syscall_of (load32 (memory s) (ctx + CTX_SYSCALL_NUM)) = Some call"
    and "call_syscall h call (load32 (memory s) (ctx + CTX_ARG0)) (load32 (memory s) (ctx + CTX_ARG1))
           (load32 (memory s) (ctx + CTX_ARG2)) (load32 (memory s) (ctx + CTX_ARG3)) s = Ret res s1"
    and "next_thread s1 = None" and "current_thread s1 = Some c"
  shows "k_handle_syscall h s =
    (let s1 = if has_result call then set_memory (store32 (memory s1) (ctx + CTX_ARG0) res) s1 else s1;
         s2 = s1\<lparr>next_thread := Some c\<rparr>
     in Ret () (if update_user_thread_info call then k_update_user_thread_info c s2 else s2))"
proof -
  let ?s1 = "if has_result call then set_memory (store32 (memory s1) (ctx + CTX_ARG0) res) s1 else s1"
  have run: "run_syscall h ctx call s = Ret () ?s1" using assms(7) by (simp add: run_syscall_def Let_def)
  have "finish_syscall call ?s1 = Ret () (if update_user_thread_info call
      then k_update_user_thread_info c (?s1\<lparr>next_thread := Some c\<rparr>) else ?s1\<lparr>next_thread := Some c\<rparr>)"
    by (rule finish_syscall_to_caller) (simp_all add: assms(8,9))
  then show ?thesis
    using assms(2-6) run by (simp add: k_handle_syscall_def check_stack_def decode_syscall_def on_current_def Let_def ctx_def)
qed

text \<open>A system call that lets its thread go on returns to it: the state is the one the kernel's function
  left, with its result in the first argument register of the caller's context if it has one, the
  caller is the thread to run next, and its copy of its own data is refreshed when the call may
  have changed it.\<close>

theorem syscall_returns:
  fixes s s1 :: kstate and c :: nat
  defines "ctx \<equiv> t_stack_ptr (thread_at s c)"
  assumes "current_thread s = Some c" and "t_top_canary (thread_at s c) = STACK_CANARY" and "t_bottom_canary (thread_at s c) = STACK_CANARY"
    and "kernel_config s AND KCFG_LOG_FAILED_ERRNO = 0" and "syscall_of (load32 (memory s) (ctx + CTX_SYSCALL_NUM)) = Some call"
    and "call_syscall h call (load32 (memory s) (ctx + CTX_ARG0)) (load32 (memory s) (ctx + CTX_ARG1))
           (load32 (memory s) (ctx + CTX_ARG2)) (load32 (memory s) (ctx + CTX_ARG3)) s = Ret res s1"
    and "next_thread s1 = None" and "current_thread s1 = Some c"
  shows "\<exists>s2. k_handle_syscall h s = Ret () s2 \<and> next_thread s2 = Some c \<and>
    memory s2 = (if has_result call then store32 (memory s1) (ctx + CTX_ARG0) res else memory s1) \<and>
    (has_result call \<longrightarrow> load32 (memory s2) (ctx + CTX_ARG0) = res) \<and>
    (update_user_thread_info call \<longrightarrow> u_id (user_thread_info s2) = t_id (thread_at s2 c) \<and>
       u_name (user_thread_info s2) = t_name (thread_at s2 c) \<and> u_kernel_config (user_thread_info s2) = kernel_config s1) \<and>
    (\<not> update_user_thread_info call \<longrightarrow> all_threads s2 = all_threads s1 \<and> user_thread_info s2 = user_thread_info s1)"
  using handle_syscall_to_caller [OF assms(2-9) [unfolded ctx_def]]
  by (auto simp: ctx_def Let_def update_info_result load32_store32_same)

section \<open>Damaged stacks\<close>

text \<open>The call that a thread with a damaged stack is made to do.\<close>

definition forced_yield :: "size_t \<Rightarrow> mem \<Rightarrow> mem" where
  "forced_yield ctx m = store32 (store32 (store32 m (ctx + CTX_SYSCALL_NUM) num_yield)
     (ctx + CTX_ARG1) (word_of_int YIELD_ANY)) (ctx + CTX_ARG0) (word_of_int INVALID_THREAD)"

lemma forced_yield_loads:
  "load32 (forced_yield ctx m) (ctx + CTX_SYSCALL_NUM) = num_yield"
  "load32 (forced_yield ctx m) (ctx + CTX_ARG1) = word_of_int YIELD_ANY"
  "load32 (forced_yield ctx m) (ctx + CTX_ARG0) = word_of_int INVALID_THREAD"
  using apart_offsets [of 0 4 32 4 ctx] apart_offsets [of 0 4 4 4 ctx] apart_offsets [of 4 4 32 4 ctx]
  by (simp_all add: forced_yield_def CTX_SYSCALL_NUM_def CTX_ARG0_def CTX_ARG1_def mem_simps)

lemma check_stack_destroys:
  assumes "current_thread s = Some c" and "c < MAX_THREADS s"
    and "t_top_canary (thread_at s c) \<noteq> STACK_CANARY \<or> t_bottom_canary (thread_at s c) \<noteq> STACK_CANARY"
    and "kernel_config s AND KCFG_DESTROY_ON_STACK_ERR \<noteq> 0"
  obtains s1 where "check_stack s = Ret False s1" and "t_id (thread_at s1 c) = INVALID_THREAD"
    and "kernel_config s1 = kernel_config s"
proof -
  define t where "t = upd_thread c (\<lambda>t. t\<lparr>t_id := INVALID_THREAD, t_name := (t_name t)[0 := 0]\<rparr>) s"
  define u where "u = (if t_top_canary (thread_at s c) \<noteq> STACK_CANARY then k_log_event ''Stack underflow!'' t else t)"
  define s1 where "s1 = (if t_bottom_canary (thread_at s c) \<noteq> STACK_CANARY then k_log_event ''Stack overflow!'' u else u)"
  have "t_id (thread_at t c) = INVALID_THREAD" "kernel_config t = kernel_config s"
    using assms(2) by (simp_all add: t_def thread_at_upd MAX_THREADS_def)
  then have s1: "t_id (thread_at s1 c) = INVALID_THREAD" "kernel_config s1 = kernel_config s"
    by (simp_all add: s1_def u_def)
  then have "check_stack s = Ret False s1"
    using assms(1,3,4) unfolding check_stack_def on_current_def Let_def
    by (auto simp: t_def [symmetric] s1_def u_def \<open>kernel_config t = kernel_config s\<close>)
  then show ?thesis using s1 that by blast
qed

lemma k_handle_syscall_broken:
  assumes "current_thread s = Some c" and "check_stack s = Ret False s1" and "kernel_config s1 AND KCFG_LOG_FAILED_ERRNO = 0"
    and "ctx = t_stack_ptr (thread_at s c)" and "s2 = set_memory (forced_yield ctx (memory s1)) s1"
  shows "k_handle_syscall h s = obind (run_syscall h ctx syscall_yield s2) (\<lambda>_. finish_syscall syscall_yield)"
proof -
  have "decode_syscall ctx s2 = Ret syscall_yield s2"
    by (simp add: decode_syscall_def Let_def assms(5) forced_yield_loads syscall_of_def all_syscalls_def num_yield_def)
  then show ?thesis
    using assms by (simp add: k_handle_syscall_def on_current_def Let_def forced_yield_def)
qed

text \<open>The scheduler does not choose a thread that has lost its number.\<close>

lemma yield_without_id:
  assumes "entered s" and "current_thread s = Some c" and "t_id (thread_at s c) = INVALID_THREAD"
  shows "(\<exists>b s'. k_yield INVALID_THREAD YIELD_ANY s = Ret b s' \<and> t_id (thread_at s' c) = INVALID_THREAD \<and>
      (\<exists>n. next_thread s' = Some n \<and> n \<noteq> c)) \<or> (\<exists>s'. k_yield INVALID_THREAD YIELD_ANY s = Exit 0 s')"
proof -
  have yield: "k_yield INVALID_THREAD YIELD_ANY s = k_do_yield None s"
    by (simp add: k_yield_def k_assert_def)
  have none: "s\<lparr>next_thread := None\<rparr> = s" using enteredD(3) [OF assms(1)] by simp
  consider (ret) s' where "do_scheduler s = Ret () s'" | (exit) s' where "do_scheduler s = Exit 0 s'"
    using do_scheduler_sane [OF enteredD(2,4) [OF assms(1)]] by auto
  then show ?thesis
  proof cases
    case ret
    obtain n where n: "first_from (next_possible_thread_idx (current_thread s) s) s = Some n" "next_thread s' = Some n"
        "t_id (thread_at s' c) = t_id (thread_at s c)"
      by (rule do_scheduler_Ret [OF enteredD(2,3) [OF assms(1)] ret]) blast
    have "n \<noteq> c" using can_schedule_valid [OF first_from_Some(1) [OF n(1)]] assms(3) by (auto simp: is_valid_thread_int)
    then show ?thesis using n ret assms(3) by (simp add: yield k_do_yield_def none)
  next
    case exit
    then show ?thesis by (simp add: yield k_do_yield_def none)
  qed
qed

text \<open>C33: A thread that enters the kernel with a damaged canary loses its number, so that no call can name it
  and the scheduler never chooses it, and the kernel goes on with another thread, or stops with
  status 0 when no other can run; without the option to destroy such threads it stops with status
  1. The call the thread asked for is not run.\<close>

theorem stack_error:
  assumes "entered s" and "current_thread s = Some c" and "kernel_config s AND KCFG_LOG_FAILED_ERRNO = 0"
    and "t_top_canary (thread_at s c) \<noteq> STACK_CANARY \<or> t_bottom_canary (thread_at s c) \<noteq> STACK_CANARY"
  shows "if kernel_config s AND KCFG_DESTROY_ON_STACK_ERR = 0 then \<exists>s'. k_handle_syscall h s = Exit 1 s'
    else (\<exists>s'. k_handle_syscall h s = Ret () s' \<and> \<not> is_valid_thread (int c) s' \<and>
        (\<exists>n. next_thread s' = Some n \<and> n \<noteq> c)) \<or>
      (\<exists>s'. k_handle_syscall h s = Exit 0 s')"
proof (cases "kernel_config s AND KCFG_DESTROY_ON_STACK_ERR = 0")
  case True
  then show ?thesis
    using assms(2,4) by (auto simp: k_handle_syscall_def check_stack_def on_current_def Let_def k_exit_def)
next
  case False
  let ?ctx = "t_stack_ptr (thread_at s c)"
  obtain s1 where s1: "check_stack s = Ret False s1" "t_id (thread_at s1 c) = INVALID_THREAD" "kernel_config s1 = kernel_config s"
    by (rule check_stack_destroys [OF assms(2) _ assms(4) False])
      (use kinv_current [OF enteredD(2) [OF assms(1)] assms(2)] in simp_all)
  define s2 where "s2 = set_memory (forced_yield ?ctx (memory s1)) s1"
  have s2: "entered s2" "current_thread s2 = Some c" "t_id (thread_at s2 c) = INVALID_THREAD"
    using check_stack_keeps [OF assms(1)] s1 assms(2) by (simp_all add: s2_def entered_def)
  have handle: "k_handle_syscall h s = obind (run_syscall h ?ctx syscall_yield s2) (\<lambda>_. finish_syscall syscall_yield)"
    by (rule k_handle_syscall_broken [OF assms(2) s1(1) _ refl s2_def]) (simp add: s1(3) assms(3))
  have args: "sint (load32 (memory s2) (?ctx + CTX_ARG0)) = INVALID_THREAD" "sint (load32 (memory s2) (?ctx + CTX_ARG1)) = YIELD_ANY"
    by (simp_all add: s2_def forced_yield_loads INVALID_THREAD_def YIELD_ANY_def)
  show ?thesis using yield_without_id [OF s2]
    by (elim disjE exE conjE)
      (simp_all add: False handle run_syscall_def Let_def args ret_bool_def finish_syscall_def has_result_def is_valid_thread_int)
qed

section \<open>Error numbers across a switch\<close>

text \<open>A switch saves the error number of the thread that gives up the processor and shows the next thread its
  own.\<close>

lemma yield_swaps_errno:
  assumes "kinv s" and "current_thread s = Some c" and "can_schedule_thread (int n) s" and "n \<noteq> c"
  obtains s' where "k_yield (int n) YIELD_TO s = Ret True s'" and "next_thread s' = Some n"
    and "kernel_config s' = kernel_config s"
    and "u_id (user_thread_info s') = int n" and "u_err_no (user_thread_info s') = t_err_no (thread_at s n)"
    and "t_err_no (thread_at s' c) = u_err_no (user_thread_info s)"
proof -
  let ?s = "s\<lparr>next_thread := Some n\<rparr>"
  have n: "n < MAX_THREADS s" using can_schedule_less [OF assms(3)] .
  have k: "kinv ?s" using next_thread_update_kinv [OF assms(1), of "Some n"] n by (simp add: ptr_ok_def)
  have "pick_next ?s = Ret n ?s" using pick_next_eq [OF k] by simp
  then obtain m where m: "do_scheduler ?s =
      Ret () (k_update_user_thread_info n (check_signals n (set_memory m (switch_states n ?s))))"
    using do_scheduler_from [OF k, of ?s n] n by (auto simp: MAX_THREADS_def)
  let ?t = "check_signals n (set_memory m (switch_states n ?s))"
  have c: "c < MAX_THREADS ?t" using kinv_current [OF assms(1,2)] by (simp add: MAX_THREADS_def)
  have err: "t_err_no (thread_at ?t j) = t_err_no (thread_at s j)" and id: "t_id (thread_at ?t j) = t_id (thread_at s j)" for j
    using thread_at_check_signals [of n "set_memory m (switch_states n ?s)" j]
    by (auto simp: switch_states_def Let_def thread_at_upd split: if_splits option.split)
  let ?s' = "k_update_user_thread_info n ?t"
  have info: "u_id (user_thread_info ?s') = int n" "u_err_no (user_thread_info ?s') = t_err_no (thread_at s n)"
      "t_err_no (thread_at ?s' c) = u_err_no (user_thread_info s)"
    using assms(2,4) c can_schedule_id [OF assms(1,3)]
    by (simp_all add: k_update_user_thread_info_def Let_def thread_at_upd MAX_THREADS_def err id)
  have "k_yield (int n) YIELD_TO s = Ret True ?s'"
    using assms(2-4) by (simp add: k_yield_def YIELD_ANY_def YIELD_TO_def k_do_yield_def m)
  then show ?thesis using that info by simp
qed

text \<open>With failing calls logged the kernel clears the error number before a call and puts the old one back
  after it, but after a yield the error number is that of the next thread: a thread that has none
  resumes with the error number of the one that yielded to it, and the latter has lost it.\<close>

theorem errno_leaks:
  fixes s :: kstate and c :: nat
  defines "ctx \<equiv> t_stack_ptr (thread_at s c)"
  assumes "kinv s" and "current_thread s = Some c" and "t_top_canary (thread_at s c) = STACK_CANARY"
    and "t_bottom_canary (thread_at s c) = STACK_CANARY" and "kernel_config s AND KCFG_LOG_FAILED_ERRNO \<noteq> 0"
    and "load32 (memory s) (ctx + CTX_SYSCALL_NUM) = num_yield" and "sint (load32 (memory s) (ctx + CTX_ARG0)) = int n"
    and "sint (load32 (memory s) (ctx + CTX_ARG1)) = YIELD_TO" and "can_schedule_thread (int n) s" and "n \<noteq> c"
    and "t_err_no (thread_at s n) = 0"
  shows "\<exists>s'. k_handle_syscall h s = Ret () s' \<and> next_thread s' = Some n \<and> u_id (user_thread_info s') = int n \<and>
    u_err_no (user_thread_info s') = u_err_no (user_thread_info s) \<and> t_err_no (thread_at s' c) = 0"
proof -
  let ?s = "set_errno 0 s"
  have "kinv ?s" using assms(2) kinv_cong [of ?s s] by (simp add: set_errno_def)
  then obtain s' where s': "k_yield (int n) YIELD_TO ?s = Ret True s'" "next_thread s' = Some n"
      "u_id (user_thread_info s') = int n" "u_err_no (user_thread_info s') = 0" "t_err_no (thread_at s' c) = 0"
    by (rule yield_swaps_errno) (use assms(3,10-12) in \<open>auto simp: set_errno_def can_schedule_thread_def is_valid_thread_def MAX_THREADS_def\<close>)
  let ?s1 = "set_memory (store32 (memory s') (ctx + CTX_ARG0) 1) s'"
  have "run_syscall h ctx syscall_yield ?s = Ret () ?s1"
    using assms(8,9) s'(1) by (simp add: run_syscall_def Let_def ret_bool_def of_bool32_def has_result_def set_errno_def)
  moreover have "decode_syscall ctx s = Ret syscall_yield s"
    using assms(7) by (simp add: decode_syscall_def Let_def syscall_of_def all_syscalls_def num_yield_def)
  ultimately have "k_handle_syscall h s = Ret () (set_errno (u_err_no (user_thread_info s)) ?s1)"
    using assms(3-6) s'(2,4) by (simp add: k_handle_syscall_def check_stack_def on_current_def Let_def ctx_def
        log_failed_syscall_def finish_syscall_def)
  then show ?thesis using s'(2,3,5) by (simp add: set_errno_def)
qed

section \<open>Concrete calls\<close>

text \<open>The second thread has its name set from a text in memory.\<close>

definition demo_named :: kstate where
  "demo_named = set_memory (store_bytes (\<lambda>_. 0) 0x300 [98, 111, 98, 0]) demo_state"

theorem name_round_trip_witness:
  "\<exists>s1 s2. k_set_thread_property 1 TPROP_NAME 0x300 demo_named = Ret True s1 \<and>
     k_get_thread_property 1 TPROP_NAME 0x400 s1 = Ret True s2 \<and> cstr (memory s2) 0x400 [98, 111, 98]"
proof -
  have "cstr (memory demo_named) 0x300 [98, 111, 98]"
    by (simp add: demo_named_def cstr_def load_store_bytes_same)
  moreover have "is_valid_thread 1 demo_named" "\<not> k_has_no_permission TPERM_TCONFIG_OTHER demo_named"
      "thread_ok (thread_at demo_named (nat 1))"
    using demo_valid(2) by (simp_all add: demo_named_def is_valid_thread_def k_has_no_permission_def MAX_THREADS_def perm_defs)
  ultimately obtain s1 s2 where "k_set_thread_property 1 TPROP_NAME 0x300 demo_named = Ret True s1"
      "k_get_thread_property 1 TPROP_NAME 0x400 s1 = Ret True s2"
      "cstr (memory s2) 0x400 (take THREAD_NAME_MAX_LEN [98, 111, 98])"
    using name_round_trip [of 1 demo_named "0x300" "0x400" "[98, 111, 98]"] by auto
  then show ?thesis by (auto simp: THREAD_NAME_MAX_LEN_def THREAD_NAME_SIZE_def)
qed

text \<open>The first thread asks for a message; there is none.\<close>

definition demo_asks :: kstate where
  "demo_asks = set_memory (store32 (store32 (store32 (\<lambda>_. 0) 0x10720 6) 0x10700 0x300) 0x10704 0x304) demo_state"

theorem syscall_returns_witness:
  "\<exists>s2. k_handle_syscall (\<lambda>_ m. (- 1, m)) demo_asks = Ret () s2 \<and> next_thread s2 = Some 0 \<and> load32 (memory s2) 0x10700 = 0"
proof -
  have "apart 0x10704 4 0x10720 4" "apart 0x10700 4 0x10720 4" "apart 0x10704 4 0x10700 4"
    using apart_offsets [of 4 4 32 4 "0x10700"] apart_offsets [of 0 4 32 4 "0x10700"] apart_offsets [of 0 4 4 4 "0x10700"] by simp_all
  then have regs: "load32 (memory demo_asks) 0x10720 = 6" "load32 (memory demo_asks) 0x10700 = 0x300"
      "load32 (memory demo_asks) 0x10704 = 0x304"
    by (simp_all add: demo_asks_def load32_store32_same load32_store32_apart)
  have "k_get_msg 0x300 0x304 demo_asks = Ret False demo_asks"
    by (simp add: k_get_msg_def on_current_def demo_asks_def)
  then have call: "call_syscall (\<lambda>_ m. (- 1, m)) syscall_get_msg 0x300 0x304 c d demo_asks = Ret 0 demo_asks" for c d
    by (simp add: ret_bool_def of_bool32_def)
  have "t_stack_ptr (thread_at demo_asks 0) = 0x10700" by (simp add: demo_asks_def)
  moreover have "current_thread demo_asks = Some 0" "next_thread demo_asks = None" "kernel_config demo_asks = 0"
      "t_top_canary (thread_at demo_asks 0) = STACK_CANARY" "t_bottom_canary (thread_at demo_asks 0) = STACK_CANARY"
    by (simp_all add: demo_asks_def)
  moreover have "has_result syscall_get_msg" "syscall_of 6 = Some syscall_get_msg"
    by (simp_all add: has_result_def syscall_of_def all_syscalls_def)
  ultimately show ?thesis
    using syscall_returns [of demo_asks 0 syscall_get_msg "\<lambda>_ m. (- 1, m)" 0 demo_asks] regs call
    by (auto simp: CTX_SYSCALL_NUM_def CTX_ARG0_def CTX_ARG1_def)
qed

text \<open>The first thread has run over the end of its stack.\<close>

definition demo_broken :: kstate where
  "demo_broken = (upd_thread 0 (\<lambda>t. t\<lparr>t_bottom_canary := 0\<rparr>) demo_state)\<lparr>kernel_config := KCFG_DESTROY_ON_STACK_ERR\<rparr>"

lemma demo_broken_entered: "entered demo_broken"
proof -
  have "sane (upd_thread 0 (\<lambda>t. t\<lparr>t_bottom_canary := 0\<rparr>) demo_state)"
    by (rule sane_upd) (use demo_entered in \<open>auto simp: entered_def thread_inv_def thread_ok_def\<close>)
  then show ?thesis
    using demo_entered sane_cong [of demo_broken "upd_thread 0 (\<lambda>t. t\<lparr>t_bottom_canary := 0\<rparr>) demo_state"]
    by (simp add: demo_broken_def entered_def)
qed

theorem stack_error_witness:
  "(\<exists>s'. k_handle_syscall (\<lambda>_ m. (- 1, m)) demo_broken = Ret () s' \<and> \<not> is_valid_thread 0 s') \<or>
   (\<exists>s'. k_handle_syscall (\<lambda>_ m. (- 1, m)) demo_broken = Exit 0 s')"
proof -
  have "current_thread demo_broken = Some 0" "kernel_config demo_broken = 1" "t_bottom_canary (thread_at demo_broken 0) \<noteq> STACK_CANARY"
    by (simp_all add: demo_broken_def thread_at_upd KCFG_DESTROY_ON_STACK_ERR_def STACK_CANARY_def)
  then show ?thesis
    using stack_error [OF demo_broken_entered, of 0 "\<lambda>_ m. (- 1, m)"] by (auto simp: KCFG_DESTROY_ON_STACK_ERR_def KCFG_LOG_FAILED_ERRNO_def)
qed

text \<open>The first thread, which has seen an error, yields to the second.\<close>

definition demo_failed :: kstate where
  "demo_failed = set_errno E_INVALID_ARGS
     (set_memory (store32 (store32 (store32 (\<lambda>_. 0) 0x10720 4) 0x10700 1) 0x10704 1) demo_state)\<lparr>kernel_config := KCFG_LOG_FAILED_ERRNO\<rparr>"

theorem errno_leaks_witness:
  "\<exists>s'. k_handle_syscall (\<lambda>_ m. (- 1, m)) demo_failed = Ret () s' \<and> u_id (user_thread_info s') = 1 \<and>
     u_err_no (user_thread_info s') = E_INVALID_ARGS"
proof -
  have "apart 0x10704 4 0x10720 4" "apart 0x10700 4 0x10720 4" "apart 0x10704 4 0x10700 4"
    using apart_offsets [of 4 4 32 4 "0x10700"] apart_offsets [of 0 4 32 4 "0x10700"] apart_offsets [of 0 4 4 4 "0x10700"] by simp_all
  then have "load32 (memory demo_failed) 0x10720 = num_yield" "sint (load32 (memory demo_failed) 0x10700) = int 1"
      "sint (load32 (memory demo_failed) 0x10704) = YIELD_TO"
    by (simp_all add: demo_failed_def load32_store32_same load32_store32_apart num_yield_def YIELD_TO_def set_errno_def)
  moreover have "kinv demo_failed"
    using demo_kinv kinv_cong [of demo_failed demo_state] by (simp add: demo_failed_def set_errno_def)
  moreover have "can_schedule_thread (int 1) demo_failed"
    using demo_valid(2) by (auto simp: demo_failed_def set_errno_def can_schedule_thread_def is_valid_thread_def MAX_THREADS_def)
  moreover have "t_stack_ptr (thread_at demo_failed 0) = 0x10700" "current_thread demo_failed = Some 0"
      "t_top_canary (thread_at demo_failed 0) = STACK_CANARY" "t_bottom_canary (thread_at demo_failed 0) = STACK_CANARY"
      "kernel_config demo_failed AND KCFG_LOG_FAILED_ERRNO \<noteq> 0" "t_err_no (thread_at demo_failed 1) = 0"
      "u_err_no (user_thread_info demo_failed) = E_INVALID_ARGS"
    by (simp_all add: demo_failed_def set_errno_def KCFG_LOG_FAILED_ERRNO_def demo_thread_def)
  ultimately show ?thesis
    using errno_leaks [of demo_failed 0 1 "\<lambda>_ m. (- 1, m)"] by (auto simp: CTX_SYSCALL_NUM_def CTX_ARG0_def CTX_ARG1_def)
qed

end
