(* ===== verification/User_Pointer.thy ===== *)
theory User_Pointer
  imports Thread_Property Confined Demo
begin

text \<open>
  The classes of \<open>src/kernel/thread_property.cpp\<close> that guard the pointers of the user: a property can
  only be written or read through its own type, and an access of another kind does not compile.
  Such an access is \<open>None\<close> here; that the functions on properties compile, and how much memory of
  the user they can touch, is the theorem.
\<close>

section \<open>Properties and their types\<close>

datatype Prop = PropName | PropChild | PropParent | PropState | PropPermissions | PropRegisters
  | PropPendingSignals | PropSignalHandler

datatype ctype = char_t | int_t | ThreadState_t | uint16_t | RegisterContext_t | uint32_t | handler_t

fun prop_value :: "Prop \<Rightarrow> size_t" where
  "prop_value PropName = TPROP_NAME"
| "prop_value PropChild = TPROP_CHILD"
| "prop_value PropParent = TPROP_PARENT"
| "prop_value PropState = TPROP_STATE"
| "prop_value PropPermissions = TPROP_PERMISSIONS"
| "prop_value PropRegisters = TPROP_REGISTERS"
| "prop_value PropPendingSignals = TPROP_PENDING_SIGNALS"
| "prop_value PropSignalHandler = TPROP_SIGNAL_HANDLER"

fun prop_type :: "Prop \<Rightarrow> ctype" where
  "prop_type PropName = char_t"
| "prop_type PropChild = int_t"
| "prop_type PropParent = int_t"
| "prop_type PropState = ThreadState_t"
| "prop_type PropPermissions = uint16_t"
| "prop_type PropRegisters = RegisterContext_t"
| "prop_type PropPendingSignals = uint32_t"
| "prop_type PropSignalHandler = handler_t"

fun sizeof_t :: "Build \<Rightarrow> ctype \<Rightarrow> nat" where
  "sizeof_t b char_t = 1"
| "sizeof_t b int_t = 4"
| "sizeof_t b ThreadState_t = min 4 (b_enum_size b)"
| "sizeof_t b uint16_t = 2"
| "sizeof_t b RegisterContext_t = unat REGISTER_CONTEXT_SIZE"
| "sizeof_t b uint32_t = 4"
| "sizeof_t b handler_t = 4"

text \<open>A value with its type, and its bytes.\<close>

datatype uvalue = IntV int | StateV ThreadState | U16V u16 | U32V u32 | HandlerV size_t

fun uvalue_type :: "uvalue \<Rightarrow> ctype" where
  "uvalue_type (IntV _) = int_t"
| "uvalue_type (StateV _) = ThreadState_t"
| "uvalue_type (U16V _) = uint16_t"
| "uvalue_type (U32V _) = uint32_t"
| "uvalue_type (HandlerV _) = handler_t"

fun uvalue_bytes :: "Build \<Rightarrow> uvalue \<Rightarrow> byte list" where
  "uvalue_bytes b (IntV n) = bytes32 (word_of_int n)"
| "uvalue_bytes b (StateV st) = take (b_enum_size b) (bytes32 (state_num st))"
| "uvalue_bytes b (U16V n) = bytes16 n"
| "uvalue_bytes b (U32V n) = bytes32 n"
| "uvalue_bytes b (HandlerV n) = bytes32 n"

section \<open>The two classes\<close>

definition UserPointer_set_value :: "Prop \<Rightarrow> size_t \<Rightarrow> uvalue \<Rightarrow> kstate \<Rightarrow> kstate option" where
  "UserPointer_set_value p ptr v s =
     (if (p = PropState \<or> p = PropPermissions \<or> p = PropChild \<or> p = PropParent) \<and> uvalue_type v = prop_type p
      then Some (set_memory (store_bytes (memory s) ptr (uvalue_bytes (build s) v)) s) else None)"

definition UserPointer_get_ptr :: "Prop \<Rightarrow> size_t \<Rightarrow> size_t option" where
  "UserPointer_get_ptr p ptr = (if p = PropName \<or> p = PropRegisters then Some ptr else None)"

text \<open>\<open>T\<close> is the type of the property.\<close>

definition ConstUserPointer_get_value :: "Prop \<Rightarrow> size_t \<Rightarrow> mem \<Rightarrow> uvalue option" where
  "ConstUserPointer_get_value p ptr m =
     (if p = PropChild then Some (IntV (sint (load32 m ptr)))
      else if p = PropPendingSignals then Some (U32V (load32 m ptr))
      else if p = PropSignalHandler then Some (HandlerV (load32 m ptr))
      else if p = PropPermissions then Some (U16V (load16 m ptr))
      else None)"

definition ConstUserPointer_get_ptr :: "Prop \<Rightarrow> size_t \<Rightarrow> size_t option" where
  "ConstUserPointer_get_ptr p ptr = (if p = PropName \<or> p = PropRegisters then Some ptr else None)"

section \<open>The functions on properties in terms of the classes\<close>

text \<open>How much a pointer that is handed out is used for: a name with its terminator, a context.\<close>

fun ptr_extent :: "Prop \<Rightarrow> nat" where
  "ptr_extent PropName = THREAD_NAME_SIZE"
| "ptr_extent PropRegisters = unat REGISTER_CONTEXT_SIZE"
| "ptr_extent _ = 0"

definition wrote_property :: "Prop \<Rightarrow> size_t \<Rightarrow> kstate \<Rightarrow> kstate \<Rightarrow> bool" where
  "wrote_property p ptr s s' \<longleftrightarrow>
     (\<exists>v. UserPointer_set_value p ptr v s = Some s') \<or>
     (\<exists>bs. UserPointer_get_ptr p ptr = Some ptr \<and> length bs \<le> ptr_extent p \<and> s' = set_memory (store_bytes (memory s) ptr bs) s)"

text \<open>Two memories show the same through a property at a pointer.\<close>

definition same_property :: "Prop \<Rightarrow> size_t \<Rightarrow> mem \<Rightarrow> mem \<Rightarrow> bool" where
  "same_property p ptr m m' \<longleftrightarrow>
     (case ConstUserPointer_get_ptr p ptr of
        Some q \<Rightarrow> load_bytes m q (ptr_extent p) = load_bytes m' q (ptr_extent p)
      | None \<Rightarrow> ConstUserPointer_get_value p ptr m \<noteq> None \<and> ConstUserPointer_get_value p ptr m = ConstUserPointer_get_value p ptr m')"

lemma write_name_store:
  assumes "length (cname nm) \<le> THREAD_NAME_MAX_LEN"
  shows "write_name m p nm = store_bytes m p (cname nm @ [0])"
proof
  fix x
  let ?n = "length (cname nm)"
  have n: "?n < 2 ^ 32" using assms by (simp add: name_length_simps)
  have "unat (x - p) = ?n \<longleftrightarrow> x = p + of_nat ?n"
    using n by (metis add_diff_cancel_left' diff_add_cancel add.commute unat_of_nat32 of_nat_unat32)
  then show "write_name m p nm x = store_bytes m p (cname nm @ [0]) x"
    using assms by (auto simp: write_name_def Let_def store_bytes_def nth_append)
qed

lemma typed_write_region:
  assumes "wrote_property p ptr s s'" and "x \<notin> region ptr (max (ptr_extent p) (sizeof_t (build s) (prop_type p)))"
  shows "memory s' x = memory s x"
proof -
  have l: "length (uvalue_bytes (build s) v) \<le> sizeof_t (build s) (uvalue_type v)" for v by (cases v) auto
  have out: "store_bytes (memory s) ptr bs x = memory s x"
    if "length bs \<le> ptr_extent p \<or> length bs \<le> sizeof_t (build s) (prop_type p)" for bs
    using that assms(2) by (auto simp: store_bytes_def region_def)
  from assms(1) consider v where "uvalue_type v = prop_type p" "s' = set_memory (store_bytes (memory s) ptr (uvalue_bytes (build s) v)) s"
    | bs where "length bs \<le> ptr_extent p" "s' = set_memory (store_bytes (memory s) ptr bs) s"
    unfolding wrote_property_def UserPointer_set_value_def by (auto split: if_splits)
  then show ?thesis
  proof cases
    case (1 v)
    with l [of v] show ?thesis by (simp add: out)
  next
    case (2 bs)
    then show ?thesis by (simp add: out)
  qed
qed

lemma name_fits: "thread_ok t \<Longrightarrow> length (cname (t_name t)) \<le> THREAD_NAME_MAX_LEN"
proof -
  assume t: "thread_ok t"
  then obtain ys zs where "t_name t = ys @ 0 # zs" "0 \<notin> set ys"
    unfolding thread_ok_def by (metis in_set_conv_decomp_first)
  moreover have "takeWhile (\<lambda>b. b \<noteq> 0) (ys @ 0 # zs) = ys" if "0 \<notin> set ys" for ys zs :: "byte list"
    using that by (subst takeWhile_append2) auto
  ultimately show ?thesis using t by (simp add: thread_ok_def cname_def name_length_simps)
qed

lemma get_wrote:
  assumes "do_get_thread_property tid prop res s = Ret True s'" and "\<And>i. i < MAX_THREADS s \<Longrightarrow> thread_ok (thread_at s i)"
  shows "\<exists>p. prop = prop_value p \<and> wrote_property p res s s'"
proof -
  let ?tid = "if tid = CURRENT_THREAD then k_get_thread_id s else tid"
  let ?t = "thread_at s (nat ?tid)"
  have valid: "is_valid_thread ?tid s" using assms(1) by (auto simp: do_get_thread_property_def Let_def split: if_splits)
  then have "nat ?tid < MAX_THREADS s" by (auto simp: is_valid_thread_def)
  note name = name_fits [OF assms(2) [OF this]]
  define th where "th = ?t"
  have g: "do_get_thread_property tid prop res s = (let m = memory s in
         if prop = TPROP_NAME then Ret True (set_memory (write_name m res (t_name th)) s)
         else if prop = TPROP_CHILD then Ret True (set_memory (store32 m res (word_of_int (t_child th))) s)
         else if prop = TPROP_PARENT then Ret True (set_memory (store32 m res (word_of_int (t_parent th))) s)
         else if prop = TPROP_STATE then
           Ret True (set_memory (store_bytes m res (take (b_enum_size (build s)) (bytes32 (state_num (t_state th))))) s)
         else if prop = TPROP_PERMISSIONS then Ret True (set_memory (store16 m res (t_permissions th)) s)
         else if prop = TPROP_REGISTERS then
           Ret True (set_memory (store_bytes m res (load_bytes m (t_stack_ptr th) (unat REGISTER_CONTEXT_SIZE))) s)
         else Ret False (set_errno E_INVALID_ARGS s))"
    using valid by (simp add: do_get_thread_property_def Let_def th_def)
  have val: "\<exists>p. prop = prop_value p \<and> wrote_property p res s s'"
    if "prop = prop_value p" "UserPointer_set_value p res v s = Some s'" for p v
    using that by (auto simp: wrote_property_def)
  have ptr: "\<exists>p. prop = prop_value p \<and> wrote_property p res s s'"
    if "prop = prop_value p" "UserPointer_get_ptr p res = Some res" "length bs \<le> ptr_extent p"
      "s' = set_memory (store_bytes (memory s) res bs) s" for p bs
    using that by (auto simp: wrote_property_def)
  consider "prop = TPROP_NAME" "s' = set_memory (store_bytes (memory s) res (cname (t_name th) @ [0])) s"
    | "prop = TPROP_CHILD" "s' = set_memory (store32 (memory s) res (word_of_int (t_child th))) s"
    | "prop = TPROP_PARENT" "s' = set_memory (store32 (memory s) res (word_of_int (t_parent th))) s"
    | "prop = TPROP_STATE" "s' = set_memory (store_bytes (memory s) res (take (b_enum_size (build s)) (bytes32 (state_num (t_state th))))) s"
    | "prop = TPROP_PERMISSIONS" "s' = set_memory (store16 (memory s) res (t_permissions th)) s"
    | "prop = TPROP_REGISTERS" "s' = set_memory (store_bytes (memory s) res (load_bytes (memory s) (t_stack_ptr th) (unat REGISTER_CONTEXT_SIZE))) s"
    using assms(1) name [folded th_def] unfolding g by (simp add: Let_def write_name_store split: if_splits)
  then show ?thesis
  proof cases
    case 1
    then show ?thesis
      using name by (intro ptr [of PropName "cname (t_name th) @ [0]"]) (simp_all add: UserPointer_get_ptr_def name_length_simps th_def)
  next
    case 2
    then show ?thesis by (intro val [of PropChild "IntV (t_child th)"]) (simp_all add: UserPointer_set_value_def store32_def)
  next
    case 3
    then show ?thesis by (intro val [of PropParent "IntV (t_parent th)"]) (simp_all add: UserPointer_set_value_def store32_def)
  next
    case 4
    then show ?thesis by (intro val [of PropState "StateV (t_state th)"]) (simp_all add: UserPointer_set_value_def)
  next
    case 5
    then show ?thesis by (intro val [of PropPermissions "U16V (t_permissions th)"]) (simp_all add: UserPointer_set_value_def store16_def)
  next
    case 6
    then show ?thesis
      by (intro ptr [of PropRegisters "load_bytes (memory s) (t_stack_ptr th) (unat REGISTER_CONTEXT_SIZE)"])
        (simp_all add: UserPointer_get_ptr_def)
  qed
qed

section \<open>Setting properties\<close>

text \<open>Setting a property depends on the memory of the user only through the property at the pointer.\<close>

lemma checks_set_memory:
  "is_valid_thread tid (set_memory m s) = is_valid_thread tid s" "k_has_no_permission p (set_memory m s) = k_has_no_permission p s"
  "k_get_thread_id (set_memory m s) = k_get_thread_id s"
  by (simp_all add: is_valid_thread_def MAX_THREADS_def k_has_no_permission_def k_get_thread_id_def split: option.split)

lemma set_depends:
  assumes "do_set_thread_property tid prop val s = Ret True s'"
  shows "\<exists>p. prop = prop_value p \<and> p \<noteq> PropParent \<and> p \<noteq> PropState \<and>
    (\<forall>m. same_property p val (memory s) m \<longrightarrow>
       (\<exists>s2. do_set_thread_property tid prop val (set_memory m s) = Ret True s2 \<and> all_threads s2 = all_threads s'))"
proof -
  define T where "T = (if tid = CURRENT_THREAD then k_get_thread_id s else tid)"
  have ok: "\<not> (tid = CURRENT_THREAD \<and> k_has_no_permission TPERM_TCONFIG s \<or> tid \<noteq> CURRENT_THREAD \<and> k_has_no_permission TPERM_TCONFIG_OTHER s)"
    and valid: "is_valid_thread T s"
    using assms by (auto simp: do_set_thread_property_def Let_def T_def split: if_splits)
  define upd where "upd m =
       (if prop = TPROP_CHILD then
              (let child = sint (load32 m val) in
               if is_valid_thread child s
               then Ret True (upd_thread (nat child) (\<lambda>t. t\<lparr>t_parent := T\<rparr>) (upd_thread (nat T) (\<lambda>t. t\<lparr>t_child := child\<rparr>) (set_memory m s)))
               else Ret True (set_memory m s))
            else if prop = TPROP_NAME then Ret True (upd_thread (nat T) (k_set_thread_name (name_arg m val)) (set_memory m s))
            else if prop = TPROP_PERMISSIONS then
              Ret True (upd_thread (nat T) (\<lambda>t. t\<lparr>t_permissions := t_permissions t AND NOT (load16 m val)\<rparr>) (set_memory m s))
            else if prop = TPROP_REGISTERS then
              Ret True (set_memory (memcpy m (t_stack_ptr (thread_at s (nat T))) val REGISTER_CONTEXT_SIZE) (set_memory m s))
            else if prop = TPROP_PENDING_SIGNALS then
              (let signal = load32 m val in
               if signal = 0 then Ret True (set_memory m s)
               else if unat (signal - 1) \<ge> 32 then Undef
               else Ret True (upd_thread (nat T) (\<lambda>t. t\<lparr>t_pending_signals :=
                      t_pending_signals t OR push_bit (unat (signal - 1)) 1\<rparr>) (set_memory m s)))
            else if prop = TPROP_SIGNAL_HANDLER then Ret True (upd_thread (nat T) (\<lambda>t. t\<lparr>t_signal_handler := load32 m val\<rparr>) (set_memory m s))
            else Ret False (set_errno E_INVALID_ARGS (set_memory m s)))" for m
  have g: "do_set_thread_property tid prop val (set_memory m s) = upd m" for m
    unfolding do_set_thread_property_def checks_set_memory if_not_P [OF ok] upd_def T_def [symmetric]
    using valid by (simp add: Let_def checks_set_memory)
  have s: "set_memory (memory s) s = s" by (simp add: set_memory_def)
  have up: "upd (memory s) = Ret True s'" using g [of "memory s"] assms by (simp add: s)
  note simps = upd_def same_property_def ConstUserPointer_get_ptr_def ConstUserPointer_get_value_def tprop_defs upd_thread_def Let_def
  have "prop = TPROP_CHILD \<or> prop = TPROP_NAME \<or> prop = TPROP_PERMISSIONS \<or> prop = TPROP_REGISTERS \<or>
      prop = TPROP_PENDING_SIGNALS \<or> prop = TPROP_SIGNAL_HANDLER"
    using up unfolding upd_def by (simp split: if_splits)
  then show ?thesis
  proof (elim disjE)
    assume p: "prop = TPROP_CHILD"
    have "\<exists>s2. upd m = Ret True s2 \<and> all_threads s2 = all_threads s'" if "same_property PropChild val (memory s) m" for m
      using that up p by (auto simp: simps split: if_splits)
    with p g show ?thesis by (intro exI [of _ PropChild]) simp
  next
    assume p: "prop = TPROP_NAME"
    have "\<exists>s2. upd m = Ret True s2 \<and> all_threads s2 = all_threads s'" if h: "same_property PropName val (memory s) m" for m
    proof -
      have "load_bytes (memory s) val 12 = load_bytes m val 12"
        using h arg_cong [of "load_bytes (memory s) val 13" "load_bytes m val 13" "take 12"]
        by (simp add: same_property_def ConstUserPointer_get_ptr_def name_length_simps load_bytes_def flip: map_upt_Suc add: take_map)
      then show ?thesis using up p by (auto simp: simps name_arg_def name_length_simps)
    qed
    with p g show ?thesis by (intro exI [of _ PropName]) simp
  next
    assume p: "prop = TPROP_PERMISSIONS"
    have "\<exists>s2. upd m = Ret True s2 \<and> all_threads s2 = all_threads s'" if "same_property PropPermissions val (memory s) m" for m
      using that up p by (auto simp: simps)
    with p g show ?thesis by (intro exI [of _ PropPermissions]) simp
  next
    assume p: "prop = TPROP_REGISTERS"
    have "\<exists>s2. upd m = Ret True s2 \<and> all_threads s2 = all_threads s'" for m
      using up p by (auto simp: simps)
    with p g show ?thesis by (intro exI [of _ PropRegisters]) simp
  next
    assume p: "prop = TPROP_PENDING_SIGNALS"
    have "\<exists>s2. upd m = Ret True s2 \<and> all_threads s2 = all_threads s'" if h: "same_property PropPendingSignals val (memory s) m" for m
    proof -
      have l: "load32 m val = load32 (memory s) val"
        using h by (simp add: same_property_def ConstUserPointer_get_ptr_def ConstUserPointer_get_value_def)
      define f where "f v = (\<lambda>t :: Thread. t\<lparr>t_pending_signals := t_pending_signals t OR push_bit (unat (v - 1)) 1\<rparr>)" for v :: u32
      have u: "upd m = (if load32 m val = 0 then Ret True (set_memory m s)
          else if unat (load32 m val - 1) \<ge> 32 then Undef
          else Ret True (upd_thread (nat T) (f (load32 m val)) (set_memory m s)))" for m
        using p by (simp only: upd_def tprop_defs Let_def f_def) simp
      have a: "all_threads (upd_thread i g (set_memory m s)) = all_threads (upd_thread i g s)" for i g m
        by (simp add: upd_thread_def)
      show ?thesis
      proof (cases "load32 (memory s) val = 0 \<or> unat (load32 (memory s) val - 1) \<ge> 32")
        case True
        with up show ?thesis unfolding u l by (auto split: if_splits)
      next
        case False
        then have c: "load32 (memory s) val \<noteq> 0" "\<not> unat (load32 (memory s) val - 1) \<ge> 32" by blast+
        show ?thesis using up unfolding u l if_not_P [OF c(1)] if_not_P [OF c(2)] by (metis a outcome.inject(1))
      qed
    qed
    with p g show ?thesis by (intro exI [of _ PropPendingSignals]) simp
  next
    assume p: "prop = TPROP_SIGNAL_HANDLER"
    have "\<exists>s2. upd m = Ret True s2 \<and> all_threads s2 = all_threads s'" if "same_property PropSignalHandler val (memory s) m" for m
      using that up p by (auto simp: simps)
    with p g show ?thesis by (intro exI [of _ PropSignalHandler]) simp
  qed
qed

section \<open>What the types guarantee\<close>


lemma demo_threads_ok: "\<forall>i < MAX_THREADS demo_state. thread_ok (thread_at demo_state i)"
  by (auto simp: MAX_THREADS_def less_Suc_eq thread_ok_def name_length_simps THREAD_MSG_QUEUE_SIZE_def)


end
