(* ===== verification/Assertion.thy ===== *)
theory Assertion
  imports User_Calls
begin

text \<open>
  Failed assertions, \<open>src/common/assert.c\<close>, and the callbacks of the undefined behaviour sanitizer,
  \<open>src/common/ubsan.c\<close>, as user programs and the kernel call them, and what any program relies on
  when it ends the system.
\<close>

section \<open>Texts and the end of a program\<close>

text \<open>The call to end the program does that.\<close>

definition exits_on_call :: "kernel_call \<Rightarrow> bool" where
  "exits_on_call sys \<longleftrightarrow> (\<forall>status s. sys syscall_exit status 0 0 0 s = Exit (sint status) s)"

lemma exit_on_call:
  assumes "exits_on_call sys" and "- (2 ^ 31) \<le> n" and "n < 2 ^ 31"
  shows "exit sys n s = Exit n s"
  using assms by (simp add: exits_on_call_def exit_def as_unit_def signed_of_int signed_take_bit_int_eq_self)

text \<open>A text without directives is printed as it is.\<close>

lemma plain_text: "CHR ''%'' \<notin> set str \<Longrightarrow> sprintf str args = Some str"
  unfolding sprintf_def by (induction str) (subst vprintf.simps, auto)+

lemma plain_printf: "CHR ''%'' \<notin> set str \<Longrightarrow> k_printf str args s = Ret () (serial_print str s)"
  by (simp add: k_printf_def plain_text)

section \<open>Formats\<close>

text \<open>Formats are worked off character by character.\<close>

lemma vprintf_steps:
  "vprintf [] args = Some []"
  "c \<noteq> CHR ''%'' \<Longrightarrow> vprintf (c # rest) args = map_option (Cons c) (vprintf rest args)"
  "vprintf (CHR ''%'' # rest) args = (case handle_format_char (CHR ''%'' # rest) args of None \<Rightarrow> None
     | Some (out, fmt', args') \<Rightarrow> map_option (append out) (vprintf fmt' args'))"
  by (subst vprintf.simps; auto split: option.split simp: map_option_case)+

lemma conv_uint_text: "conv_uint n v f = Some (pad CHR ''0'' n (length (uint_to_str (ucast v) f)) @ uint_to_str (ucast v) f)"
proof -
  have "unat (ucast v :: 64 word) < 2 ^ 32" using unat_lt32 [of v] by (simp add: unsigned_ucast_eq le_less_trans [OF take_bit_nat_less_eq_self])
  then have "length (uint_to_str (ucast v) f) \<le> 10"
    using base_of_cases [of f] by (intro uint_to_str_length) auto
  then show ?thesis by (simp add: conv_uint_def Let_def NUM_STR_SIZE_def)
qed

lemma conv_int_text:
  assumes "n < 2 ^ 31"
  shows "conv_int 0 (of_nat n) = Some (uint_to_str (of_nat n) CHR ''u'')"
proof -
  have s: "sint (of_nat n :: u32) = int n" using assms by (simp add: signed_of_nat signed_take_bit_int_eq_self)
  have e: "(scast (of_nat n :: u32) :: 64 word) = of_nat n"
    using s by (metis of_int_of_nat_eq scast_eq)
  have "length (uint_to_str (of_nat n) CHR ''u'') \<le> 10"
    using assms base_of_cases [of "CHR ''u''"] by (intro uint_to_str_length) (auto simp: unat_of_nat)
  then show ?thesis using s e by (simp add: conv_int_def Let_def NUM_STR_SIZE_def pad_def)
qed

lemmas format_defs = vprintf_steps handle_format_char_def parse_padding_def parse_precision_def consume_uint_def
  is_digit_def pow_def pow_loop.simps conv_uint_text conv_string_def putstr_def

section \<open>Assertions\<close>

text \<open>\<open>exit\<close> must not come back: the compiler is told so.\<close>

definition assert_fail :: "kernel_call \<Rightarrow> string \<Rightarrow> string \<Rightarrow> u32 \<Rightarrow> string \<Rightarrow> kstate \<Rightarrow> unit kresult" where
  "assert_fail sys assertion file line func s =
     obind (k_printf (''%s:%u (%s) Expected: %s'' @ [CHR 0x0A])
        [VStr (Some file), VNum line, VStr (Some func), VStr (Some assertion)] s)
       (\<lambda>_ s. obind (exit sys 1 s) (\<lambda>_ _. Undef))"

definition user_assert :: "kernel_call \<Rightarrow> bool \<Rightarrow> string \<Rightarrow> string \<Rightarrow> u32 \<Rightarrow> string \<Rightarrow> kstate \<Rightarrow> unit kresult" where
  "user_assert sys b assertion file line func s =
     (if b then Ret () s else assert_fail sys assertion file line func s)"

section \<open>Sanitizer callbacks\<close>

record SourceInfo =
  src_filename :: size_t
  src_line :: u32
  src_column :: u32

definition load_source_info :: "mem \<Rightarrow> size_t \<Rightarrow> SourceInfo" where
  "load_source_info m p = \<lparr>src_filename = load32 m p, src_line = load32 m (p + 4), src_column = load32 m (p + 8)\<rparr>"

text \<open>The handlers, by the part of their name after the prefix.\<close>

definition ubsan_handlers :: "string list" where
  "ubsan_handlers = [''divrem_overflow'', ''add_overflow'', ''sub_overflow'', ''load_invalid_value'',
     ''nonnull_arg'', ''builtin_unreachable'', ''type_mismatch'', ''out_of_bounds'', ''vla_bound_not_positive'',
     ''shift_out_of_bounds'', ''mul_overflow'', ''type_mismatch_v1'', ''pointer_overflow'', ''negate_overflow'']"

text \<open>What a handler prints. It loops for ever afterwards.\<close>

definition ubsan_handle :: "string \<Rightarrow> size_t \<Rightarrow> kstate \<Rightarrow> unit kresult" where
  "ubsan_handle name p s =
     (let i = load_source_info (memory s) p in
      case read_string (memory s) (src_filename i) of None \<Rightarrow> Undef
      | Some file \<Rightarrow> k_printf (''UBSAN: '' @ name @ '' @ %s:%u:%u'' @ [CHR 0x0A])
          [VStr (Some file), VNum (src_line i), VNum (src_column i)] s)"

section \<open>What a failed assertion shows\<close>

lemma assert_fail_exits:
  assumes "exits_on_call sys"
  shows "assert_fail sys assertion file line func s = Exit 1 (serial_print (file @ '':'' @
    uint_to_str (ucast line) CHR ''u'' @ '' ('' @ func @ '') Expected: '' @ assertion @ [CHR 0x0A]) s)"
  by (simp add: assert_fail_def k_printf_def sprintf_def format_defs Let_def exit_on_call [OF assms])
   (simp add: pad_def)

text \<open>The kernel with a host that refuses every call, and no other thread that runs.\<close>

abbreviation (input) demo_sys :: kernel_call where
  "demo_sys \<equiv> kernel (\<lambda>_ m. (- 1, m)) (\<lambda>s. Ret 0 s)"

lemma demo_exits: "exits_on_call demo_sys"
  by (simp add: exits_on_call_def kernel_def k_exit_def)

end
