(* ===== verification/Permission_Tests.thy ===== *)
theory Permission_Tests
  imports User_Library Assertion Confined
begin

text \<open>
  The test program for permissions, \<open>src/demos/permissions/permissions.c\<close>: one thread for every
  permission, which checks that nothing that needs it can be done without it. Each assertion is a
  step of the model, so that a thread that comes back has passed them all.
\<close>

section \<open>The threads\<close>

text \<open>What the linker fixes: the global variables and the functions that are started. The directory of
  the sources, which the build puts before some file names, is left out of the literals.\<close>

record PermTest =
  pt_read_fd :: size_t
  pt_write_fd :: size_t
  pt_cannot_alloc :: size_t
  pt_cannot_file :: size_t
  pt_cannot_create :: size_t
  pt_cannot_kconfig :: size_t
  pt_cannot_tconfig :: size_t
  pt_cannot_tconfig_other :: size_t
  pt_cannot_multi :: size_t
  pt_same_permissions :: size_t
  pt_reduced_permissions :: size_t
  pt_user_inherit :: size_t
  pt_user_reduce :: size_t
  pt_errno_checks :: size_t
  pt_cleanup :: size_t

definition perm_assert :: "kernel_call \<Rightarrow> bool \<Rightarrow> string \<Rightarrow> u32 \<Rightarrow> string \<Rightarrow> kstate \<Rightarrow> unit kresult" where
  "perm_assert sys b text line func s = user_assert sys b text ''permissions.c'' line func s"

text \<open>\<open>errno\<close>, from \<open>src/user/errno.c\<close>.\<close>

definition get_errno :: "kstate \<Rightarrow> int" where
  "get_errno s = u_err_no (user_thread_info s)"

text \<open>A call with \<open>errno\<close> reset before it and both its result and \<open>errno\<close> checked after it.\<close>

definition failing_call ::
  "kernel_call \<Rightarrow> string \<Rightarrow> u32 \<Rightarrow> u32 \<Rightarrow> string \<Rightarrow> (kstate \<Rightarrow> 'a kresult) \<Rightarrow> 'a \<Rightarrow> int \<Rightarrow> string \<Rightarrow> kstate \<Rightarrow> unit kresult" where
  "failing_call sys func line err_line text call expected err err_text s =
     obind (call (set_errno 0 s)) (\<lambda>r s.
     obind (perm_assert sys (r = expected) text line func s) (\<lambda>_ s.
     perm_assert sys (get_errno s = err) err_text err_line func s))"

definition cannot_alloc :: "kernel_call \<Rightarrow> kstate \<Rightarrow> unit kresult" where
  "cannot_alloc sys s =
     obind (malloc sys 4 s) (\<lambda>p s.
     obind (perm_assert sys (p = NULL) ''malloc(sizeof(int)) == NULL'' 8 ''cannot_alloc'' s) (\<lambda>_ s.
     obind (realloc sys 0xcafef00d 4 s) (\<lambda>p s.
     obind (perm_assert sys (p = NULL) ''realloc((void*)0xcafef00d, sizeof(int)) == NULL'' 10 ''cannot_alloc'' s) (\<lambda>_ s.
     free sys NULL s))))"

definition cannot_file :: "kernel_call \<Rightarrow> PermTest \<Rightarrow> kstate \<Rightarrow> unit kresult" where
  "cannot_file sys g s =
     (let check = failing_call sys ''cannot_file''; lit = b_literal (build s); tmp = lit ''hello'' in
      obind (check 21 22 ''open(SRC_ROOT /README.md, O_RDONLY) == -1'' (open_file sys (lit ''/README.md'') O_RDONLY) (- 1) E_PERM ''errno == E_PERM'' s) (\<lambda>_ s.
      obind (failing_call sys ''cannot_file'' 24 25 ''list_dir(., NULL, 0) == -1'' (list_dir sys (lit ''.'') NULL 0) (- 1) E_PERM ''errno == E_PERM'' s) (\<lambda>_ s.
      obind (check 30 31 ''write(write_fd, tmp, 5) == 0'' (\<lambda>s. write_file sys (load32 (memory s) (pt_write_fd g)) tmp 5 s) 0 E_PERM ''errno == E_PERM'' s) (\<lambda>_ s.
      obind (check 33 34 ''read(read_fd, tmp, 5) == 0'' (\<lambda>s. read_file sys (load32 (memory s) (pt_read_fd g)) tmp 5 s) 0 E_PERM ''errno == E_PERM'' s) (\<lambda>_ s.
      obind (check 36 37 ''lseek(read_fd, 33, SEEK_CUR) == -1'' (\<lambda>s. lseek sys (load32 (memory s) (pt_read_fd g)) 33 SEEK_CUR s) (- 1) E_PERM ''errno == E_PERM'' s) (\<lambda>_ s.
      obind (failing_call sys ''cannot_file'' 39 40 ''remove(permissions) == -1'' (remove_file sys (lit ''permissions'')) (- 1) E_PERM ''errno == E_PERM'' s) (\<lambda>_ s.
      failing_call sys ''cannot_file'' 42 43 ''close(read_fd) == -1'' (\<lambda>s. close sys (load32 (memory s) (pt_read_fd g)) s) (- 1) E_PERM ''errno == E_PERM'' s)))))))"

definition cannot_create :: "kernel_call \<Rightarrow> size_t \<Rightarrow> PermTest \<Rightarrow> kstate \<Rightarrow> unit kresult" where
  "cannot_create sys fp g s =
     obind (add_thread_from_worker sys fp (pt_cannot_create g) s) (\<lambda>tid s.
     perm_assert sys (tid = INVALID_THREAD) ''add_thread_from_worker(cannot_create) == INVALID_THREAD'' 47 ''cannot_create'' s)"

definition cannot_kconfig :: "kernel_call \<Rightarrow> kstate \<Rightarrow> unit kresult" where
  "cannot_kconfig sys s = set_kernel_config sys KCFG_LOG_SCHEDULER 0 s"

text \<open>Giving a thread a name, and whether that is expected to work.\<close>

definition check_rename :: "kernel_call \<Rightarrow> bool \<Rightarrow> int \<Rightarrow> string \<Rightarrow> string \<Rightarrow> u32 \<Rightarrow> string \<Rightarrow> kstate \<Rightarrow> unit kresult" where
  "check_rename sys works tid name text line func s =
     obind (set_thread_name sys tid (b_literal (build s) name) s) (\<lambda>ok s.
     perm_assert sys (ok = works) text line func s)"

definition cannot_tconfig :: "kernel_call \<Rightarrow> kstate \<Rightarrow> unit kresult" where
  "cannot_tconfig sys s =
     obind (check_rename sys False CURRENT_THREAD ''won't see this!'' ''!set_thread_name(CURRENT_THREAD, ...)'' 58 ''cannot_tconfig'' s) (\<lambda>_ s.
     check_rename sys True 0 ''runner'' ''set_thread_name(0, runner)'' 60 ''cannot_tconfig'' s)"

definition cannot_tconfig_other :: "kernel_call \<Rightarrow> kstate \<Rightarrow> unit kresult" where
  "cannot_tconfig_other sys s =
     obind (check_rename sys False 0 ''won't see this either!'' ''!set_thread_name(0, ...)'' 65 ''cannot_tconfig_other'' s) (\<lambda>_ s.
     check_rename sys True CURRENT_THREAD ''no_tconfig_other'' ''set_thread_name(CURRENT_THREAD, ...)'' 67 ''cannot_tconfig_other'' s)"

definition cannot_multi :: "kernel_call \<Rightarrow> PermTest \<Rightarrow> kstate \<Rightarrow> unit kresult" where
  "cannot_multi sys g s =
     obind (close sys (load32 (memory s) (pt_read_fd g)) s) (\<lambda>r s.
     obind (perm_assert sys (r = - 1) ''close(read_fd) == -1'' 73 ''cannot_mutli'' s) (\<lambda>_ s.
     obind (malloc sys 4 s) (\<lambda>p s.
     obind (perm_assert sys (p = NULL) ''malloc(sizeof(int)) == NULL'' 74 ''cannot_mutli'' s) (\<lambda>_ s.
     obind (set_kernel_config sys KCFG_LOG_SCHEDULER 0 s) (\<lambda>_ s.
     check_rename sys True CURRENT_THREAD ''new_name'' ''set_thread_name(CURRENT_THREAD, new_name)'' 77 ''cannot_mutli'' s)))))"

definition same_permissions :: "kernel_call \<Rightarrow> kstate \<Rightarrow> unit kresult" where
  "same_permissions sys s =
     failing_call sys ''same_permissions'' 82 83 ''set_thread_name(CURRENT_THREAD, SAME)''
       (\<lambda>s. set_thread_name sys CURRENT_THREAD (b_literal (build s) ''SAME'') s) True 0 ''errno == 0'' s"

definition reduced_permissions :: "kernel_call \<Rightarrow> kstate \<Rightarrow> unit kresult" where
  "reduced_permissions sys s =
     failing_call sys ''reduced_permissions'' 88 89 ''!set_thread_name(CURRENT_THREAD, REDUCED)''
       (\<lambda>s. set_thread_name sys CURRENT_THREAD (b_literal (build s) ''REDUCED'') s) False E_PERM ''errno == E_PERM'' s"

text \<open>The flags are a local variable; the frames of the functions called are below \<open>fp + 32\<close>.\<close>

definition run_child :: "kernel_call \<Rightarrow> size_t \<Rightarrow> string \<Rightarrow> size_t \<Rightarrow> u16 \<Rightarrow> kstate \<Rightarrow> int kresult" where
  "run_child sys fp name worker remove s =
     (let s = set_memory (store_flags (memory s) (fp + 32) \<lparr>is_file = False, remove_permissions = remove\<rparr>) s
      in add_thread sys fp (b_literal (build s) name) NULL worker (fp + 32) s)"

definition start_child :: "kernel_call \<Rightarrow> size_t \<Rightarrow> int \<Rightarrow> kstate \<Rightarrow> unit kresult" where
  "start_child sys fp tid s =
     obind (set_child sys fp tid s) (\<lambda>_ s. obind (yield sys s) (\<lambda>_ s. Ret () s))"

definition user_inherit :: "kernel_call \<Rightarrow> size_t \<Rightarrow> PermTest \<Rightarrow> kstate \<Rightarrow> unit kresult" where
  "user_inherit sys fp g s =
     obind (run_child sys fp ''same'' (pt_same_permissions g) 0 (set_errno 0 s)) (\<lambda>tid s.
     obind (start_child sys fp tid s) (\<lambda>_ s.
     obind (run_child sys fp ''reduced'' (pt_reduced_permissions g) TPERM_TCONFIG s) (\<lambda>tid s.
     obind (start_child sys fp tid s) (\<lambda>_ s.
     perm_assert sys (get_errno s = 0) ''errno == 0'' 111 ''user_inherit'' s))))"

definition user_reduce :: "kernel_call \<Rightarrow> size_t \<Rightarrow> PermTest \<Rightarrow> kstate \<Rightarrow> unit kresult" where
  "user_reduce sys fp g s =
     obind (permissions sys fp TPERM_FILE s) (\<lambda>perm s.
     obind (perm_assert sys (perm AND TPERM_FILE = 0) ''(perm & TPERM_FILE) == 0'' 118 ''user_reduce'' s) (\<lambda>_ s.
     obind (cannot_file sys g s) (\<lambda>_ s.
     obind (permissions sys fp TPERM_TCONFIG s) (\<lambda>perm s.
     obind (cannot_tconfig sys s) (\<lambda>_ s.
     obind (perm_assert sys (perm AND TPERM_KCONFIG \<noteq> 0) ''perm & TPERM_KCONFIG'' 128 ''user_reduce'' s) (\<lambda>_ s.
     obind (permissions sys fp TPERM_KCONFIG s) (\<lambda>perm s.
     perm_assert sys (perm AND TPERM_KCONFIG \<noteq> 0) ''perm & TPERM_KCONFIG'' 130 ''user_reduce'' s)))))))"

definition errno_checks :: "kernel_call \<Rightarrow> size_t \<Rightarrow> kstate \<Rightarrow> unit kresult" where
  "errno_checks sys fp s =
     obind (failing_call sys ''errno_checks'' 136 137 ''!set_thread_name(-99, food)''
       (\<lambda>s. set_thread_name sys (- 99) (b_literal (build s) ''food'') s) False E_INVALID_ID ''errno == E_INVALID_ID'' s) (\<lambda>_ s.
     failing_call sys ''errno_checks'' 140 141 ''!thread_name(-99, tname)'' (thread_name sys (- 99) (fp + 32)) False E_INVALID_ID
       ''errno == E_INVALID_ID'' s)"

definition cleanup :: "kernel_call \<Rightarrow> PermTest \<Rightarrow> kstate \<Rightarrow> unit kresult" where
  "cleanup sys g s =
     obind (close sys (load32 (memory s) (pt_read_fd g)) s) (\<lambda>r s.
     obind (perm_assert sys (r = 0) ''close(read_fd) == 0'' 145 ''cleanup'' s) (\<lambda>_ s.
     obind (close sys (load32 (memory s) (pt_write_fd g)) s) (\<lambda>r s.
     perm_assert sys (r = 0) ''close(write_fd) == 0'' 146 ''cleanup'' s)))"

section \<open>The dispatcher\<close>

definition run_test_thread :: "kernel_call \<Rightarrow> size_t \<Rightarrow> string \<Rightarrow> size_t \<Rightarrow> u16 \<Rightarrow> u32 \<Rightarrow> kstate \<Rightarrow> unit kresult" where
  "run_test_thread sys fp name worker remove line s =
     obind (run_child sys fp name worker remove s) (\<lambda>tid s.
     obind (perm_assert sys (tid \<noteq> INVALID_THREAD) ''tid != INVALID_THREAD'' line ''setup'' s) (\<lambda>_ s.
     start_child sys fp tid s))"

text \<open>An assertion on both results of opening a file, which go to a global variable.\<close>

definition open_global :: "kernel_call \<Rightarrow> size_t \<Rightarrow> string \<Rightarrow> size_t \<Rightarrow> string \<Rightarrow> u32 \<Rightarrow> kstate \<Rightarrow> unit kresult" where
  "open_global sys global path oflag text line s =
     obind (open_file sys (b_literal (build s) path) oflag s) (\<lambda>fd s.
     perm_assert sys (fd \<noteq> - 1) text line ''setup'' (set_memory (store32 (memory s) global fd) s))"

definition check_tprop_fails :: "kernel_call \<Rightarrow> (kstate \<Rightarrow> bool kresult) \<Rightarrow> u32 \<Rightarrow> kstate \<Rightarrow> unit kresult" where
  "check_tprop_fails sys call line s =
     failing_call sys ''setup'' line line ''!fn(CURRENT_THREAD, property, ptr)'' call False E_INVALID_ARGS ''errno == E_INVALID_ARGS'' s"

fun run_tests :: "kernel_call \<Rightarrow> size_t \<Rightarrow> (string \<times> size_t \<times> u16 \<times> u32) list \<Rightarrow> kstate \<Rightarrow> unit kresult" where
  "run_tests sys fp [] s = Ret () s"
| "run_tests sys fp ((name, worker, remove, line) # ts) s =
     obind (run_test_thread sys fp name worker remove line s) (\<lambda>_ s. run_tests sys fp ts s)"

definition setup_permissions :: "kernel_call \<Rightarrow> size_t \<Rightarrow> PermTest \<Rightarrow> kstate \<Rightarrow> unit kresult" where
  "setup_permissions sys fp g s =
     obind (check_tprop_fails sys (get_thread_property sys CURRENT_THREAD TPROP_REGISTERS NULL) 168 s) (\<lambda>_ s.
     obind (check_tprop_fails sys (get_thread_property sys CURRENT_THREAD TPROP_REGISTERS NULL) 169 s) (\<lambda>_ s.
     obind (check_tprop_fails sys (set_thread_property sys CURRENT_THREAD (- 1) 1) 171 s) (\<lambda>_ s.
     obind (check_tprop_fails sys (get_thread_property sys CURRENT_THREAD (- 1) 1) 172 s) (\<lambda>_ s.
     obind (set_thread_name sys CURRENT_THREAD (b_literal (build s) ''runner'') s) (\<lambda>_ s.
     obind (run_test_thread sys fp ''noalloc'' (pt_cannot_alloc g) TPERM_ALLOC 178 s) (\<lambda>_ s.
     obind (open_global sys (pt_read_fd g) ''/CMakeLists.txt'' O_RDONLY ''read_fd != -1'' 182 s) (\<lambda>_ s.
     obind (open_global sys (pt_write_fd g) ''__perm_demo'' O_WRONLY ''write_fd != -1'' 184 s) (\<lambda>_ s.
     run_tests sys fp
       [(''nofile'', pt_cannot_file g, TPERM_FILE, 186), (''nocreate'', pt_cannot_create g, TPERM_CREATE, 187),
        (''nokconfig'', pt_cannot_kconfig g, TPERM_KCONFIG, 188), (''notconfig'', pt_cannot_tconfig g, TPERM_TCONFIG, 189),
        (''notconfigother'', pt_cannot_tconfig_other g, TPERM_TCONFIG_OTHER, 190),
        (''nomulti'', pt_cannot_multi g, TPERM_FILE OR TPERM_ALLOC OR TPERM_KCONFIG, 191),
        (''userinherit'', pt_user_inherit g, 0, 193), (''userreduce'', pt_user_reduce g, 0, 194),
        (''errno'', pt_errno_checks g, 0, 195), (''cleanup'', pt_cleanup g, 0, 197)] s))))))))"

section \<open>Refused calls\<close>

lemma set_errno_again [simp]: "set_errno e (set_errno e' s) = set_errno e s"
  by (simp add: set_errno_def)

lemma errno_checks_simps [simp]:
  "k_has_no_permission p (set_errno e s) = k_has_no_permission p s" "get_errno (set_errno e s) = e"
  by (simp_all add: k_has_no_permission_def get_errno_def set_errno_def split: option.split)

lemma perm_assert_True [simp]: "perm_assert sys True text line func s = Ret () s"
  by (simp add: perm_assert_def user_assert_def)

lemma failing_call_passes:
  "call (set_errno 0 s) = Ret r (set_errno err s) \<Longrightarrow> failing_call sys func line err_line text call r err err_text s = Ret () (set_errno err s)"
  by (simp add: failing_call_def)

lemma refused_files:
  assumes "k_has_no_permission TPERM_FILE s"
  shows "open_file (kernel h others) path oflag s = Ret (- 1) (set_errno E_PERM s)"
    and "list_dir (kernel h others) path out sz s = Ret (- 1) (set_errno E_PERM s)"
    and "write_file (kernel h others) fd buf n s = Ret 0 (set_errno E_PERM s)"
    and "read_file (kernel h others) fd buf n s = Ret 0 (set_errno E_PERM s)"
    and "lseek (kernel h others) fd off SEEK_CUR s = Ret (- 1) (set_errno E_PERM s)"
    and "remove_file (kernel h others) path s = Ret (- 1) (set_errno E_PERM s)"
    and "close (kernel h others) fd s = Ret (- 1) (set_errno E_PERM s)"
  using assms
  by (simp_all add: open_file_def list_dir_def write_file_def read_file_def lseek_def remove_file_def close_def as_int_def
    kernel_def need_file_def k_open_def k_list_dir_def k_write_def k_read_def k_lseek_def k_remove_def k_close_def k_assert_def)

lemma cannot_file_passes:
  assumes "k_has_no_permission TPERM_FILE s"
  shows "cannot_file (kernel h others) g s = Ret () (set_errno E_PERM s)"
  using assms by (simp add: cannot_file_def Let_def failing_call_passes refused_files)

lemma cannot_alloc_passes:
  assumes "k_has_no_permission TPERM_ALLOC s"
  shows "cannot_alloc (kernel h others) s = Ret () s"
  using assms by (simp add: cannot_alloc_def malloc_def realloc_def free_def as_unit_def kernel_def k_malloc_def k_realloc_def k_free_def ret_unit_def)

lemma cannot_create_passes:
  assumes "k_has_no_permission TPERM_CREATE s" and "fp + 16 \<noteq> NULL"
  shows "\<exists>m. cannot_create (kernel h others) fp g s = Ret () (set_memory m s) \<and> (\<forall>x. x \<notin> region fp 20 \<longrightarrow> m x = memory s x)"
proof -
  let ?m1 = "store_flags (memory s) (fp + 16) \<lparr>is_file = False, remove_permissions = 0\<rparr>"
  let ?m = "store_bytes ?m1 fp (args_bytes no_args)"
  have "k_has_no_permission TPERM_CREATE (set_memory m s)" for m
    using assms(1) by (simp add: k_has_no_permission_def split: option.splits)
  then have "cannot_create (kernel h others) fp g s = Ret () (set_memory ?m s)"
    using assms(2)
    by (simp add: cannot_create_def add_thread_from_worker_def add_thread_with_def add_thread_def Let_def kernel_def k_add_thread_def
      as_int_def ret_int_def INVALID_THREAD_def set_memory_set)
  moreover have "?m x = memory s x" if x: "x \<notin> region fp 20" for x
  proof -
    have "x \<noteq> fp + 16" "\<not> unat (x - (fp + 18)) < 2" "\<not> unat (x - fp) < 16"
      using x region_part [of 16 1 20 fp] region_part [of 18 2 20 fp] by (auto simp: region_def)
    then show ?thesis by (simp add: store_flags_def store16_def store_bytes_def add.assoc)
  qed
  ultimately show ?thesis by blast
qed

lemma cannot_kconfig_passes:
  assumes "k_has_no_permission TPERM_KCONFIG s"
  shows "cannot_kconfig (kernel h others) s = Ret () s"
  using assms by (simp add: cannot_kconfig_def set_kernel_config_def as_unit_def kernel_def k_set_kernel_config_def)

text \<open>Renaming the running thread, or another.\<close>

definition renamed :: "nat \<Rightarrow> size_t \<Rightarrow> kstate \<Rightarrow> kstate" where
  "renamed i p s = upd_thread i (k_set_thread_name (name_arg (memory s) p)) s"

lemma rename_self:
  assumes "p \<noteq> NULL" and "current_thread s = Some c" and "t_id (thread_at s c) = int c" and "c < MAX_THREADS s"
  shows "set_thread_name (kernel h others) CURRENT_THREAD p s =
    (if k_has_no_permission TPERM_TCONFIG s then Ret False (set_errno E_PERM s) else Ret True (renamed c p s))"
  using assms by (simp add: set_thread_name_def kernel_property k_set_thread_property_def do_set_thread_property_def CURRENT_THREAD_def
      INVALID_THREAD_def k_get_thread_id_def is_valid_thread_def tprop_defs renamed_def)

lemma rename_other:
  assumes "p \<noteq> NULL" and "is_valid_thread tid s" and "tid < 2 ^ 31"
  shows "set_thread_name (kernel h others) tid p s =
    (if k_has_no_permission TPERM_TCONFIG_OTHER s then Ret False (set_errno E_PERM s) else Ret True (renamed (nat tid) p s))"
proof -
  have "0 \<le> tid" using assms(2) by (simp add: is_valid_thread_def)
  then have "sint (word_of_int tid :: u32) = tid" using assms(3) by (simp add: signed_of_int signed_take_bit_int_eq_self)
  with assms \<open>0 \<le> tid\<close> show ?thesis
    by (simp add: set_thread_name_def kernel_property k_set_thread_property_def do_set_thread_property_def CURRENT_THREAD_def
      INVALID_THREAD_def tprop_defs renamed_def)
qed

text \<open>The running thread has its number, as the invariant of the kernel says.\<close>

definition runs_as :: "nat \<Rightarrow> kstate \<Rightarrow> bool" where
  "runs_as c s \<longleftrightarrow> current_thread s = Some c \<and> c < MAX_THREADS s \<and> t_id (thread_at s c) = int c"

definition names_known :: "kstate \<Rightarrow> bool" where
  "names_known s \<longleftrightarrow> (\<forall>n. b_literal (build s) n \<noteq> NULL)"

lemma has_permission: "current_thread s = Some c \<Longrightarrow> k_has_no_permission p s \<longleftrightarrow> t_permissions (thread_at s c) AND p = 0"
  by (simp add: k_has_no_permission_def)

lemma renamed_simps:
  "current_thread (renamed i p s) = current_thread s" "MAX_THREADS (renamed i p s) = MAX_THREADS s" "build (renamed i p s) = build s"
  "t_permissions (thread_at (renamed i p s) c) = t_permissions (thread_at s c)" "t_id (thread_at (renamed i p s) c) = t_id (thread_at s c)"
  "host_calls (renamed i p s) = host_calls s" "memory (renamed i p s) = memory s"
  "length (all_threads (renamed i p s)) = length (all_threads s)"
  by (simp_all add: renamed_def MAX_THREADS_def thread_at_upd k_set_thread_name_def split: option.split)

lemma set_errno_state:
  "MAX_THREADS (set_errno e s) = MAX_THREADS s" "build (set_errno e s) = build s"
  "all_threads (set_errno e s) = all_threads s" "current_thread (set_errno e s) = current_thread s"
  "runs_as c (set_errno e s) = runs_as c s" "is_valid_thread t (set_errno e s) = is_valid_thread t s"
  by (simp_all add: MAX_THREADS_def set_errno_def runs_as_def is_valid_thread_def)

lemma cannot_tconfig_passes:
  assumes "runs_as c s" and "names_known s" and "k_has_no_permission TPERM_TCONFIG s"
    and "\<not> k_has_no_permission TPERM_TCONFIG_OTHER s" and "is_valid_thread 0 s"
  shows "cannot_tconfig (kernel h others) s = Ret () (renamed 0 (b_literal (build s) ''runner'') (set_errno E_PERM s))"
proof -
  have "is_valid_thread 0 (set_errno E_PERM s)" using assms(5) by (simp add: set_errno_state)
  then show ?thesis
    using assms rename_self [of "b_literal (build s) ''won't see this!''" s c h others]
      rename_other [of "b_literal (build s) ''runner''" 0 "set_errno E_PERM s" h others]
    by (simp add: cannot_tconfig_def check_rename_def runs_as_def names_known_def set_errno_state)
qed

lemma cannot_tconfig_other_passes:
  assumes "runs_as c s" and "names_known s" and "k_has_no_permission TPERM_TCONFIG_OTHER s"
    and "\<not> k_has_no_permission TPERM_TCONFIG s" and "is_valid_thread 0 s"
  shows "cannot_tconfig_other (kernel h others) s = Ret () (renamed c (b_literal (build s) ''no_tconfig_other'') (set_errno E_PERM s))"
proof -
  have "runs_as c (set_errno E_PERM s)" using assms(1) by (simp add: set_errno_state)
  then show ?thesis
    using assms rename_other [of "b_literal (build s) ''won't see this either!''" 0 s h others]
      rename_self [of "b_literal (build s) ''no_tconfig_other''" "set_errno E_PERM s" c h others]
    by (simp add: cannot_tconfig_other_def check_rename_def runs_as_def names_known_def set_errno_state)
qed

lemma cannot_multi_passes:
  assumes "runs_as c s" and "names_known s" and "k_has_no_permission TPERM_FILE s" and "k_has_no_permission TPERM_ALLOC s"
    and "k_has_no_permission TPERM_KCONFIG s" and "\<not> k_has_no_permission TPERM_TCONFIG s"
  shows "cannot_multi (kernel h others) g s = Ret () (renamed c (b_literal (build s) ''new_name'') (set_errno E_PERM s))"
proof -
  have "runs_as c (set_errno E_PERM s)" using assms(1) by (simp add: set_errno_state)
  then show ?thesis
    using assms rename_self [of "b_literal (build s) ''new_name''" "set_errno E_PERM s" c h others]
    by (simp add: cannot_multi_def check_rename_def refused_files malloc_def set_kernel_config_def as_unit_def kernel_def k_malloc_def
        k_set_kernel_config_def runs_as_def names_known_def set_errno_state)
qed

lemma same_and_reduced_pass:
  assumes "runs_as c s" and "names_known s"
  shows "\<not> k_has_no_permission TPERM_TCONFIG s \<Longrightarrow>
      same_permissions (kernel h others) s = Ret () (renamed c (b_literal (build s) ''SAME'') (set_errno 0 s))"
    and "k_has_no_permission TPERM_TCONFIG s \<Longrightarrow> reduced_permissions (kernel h others) s = Ret () (set_errno E_PERM s)"
proof -
  have r: "runs_as c (set_errno 0 s)" using assms(1) by (simp add: set_errno_state)
  note self = rename_self [of _ "set_errno 0 s" c h others]
  have e: "get_errno (renamed c p (set_errno 0 s)) = 0" for p by (simp add: renamed_def get_errno_def upd_thread_def set_errno_def)
  show "\<not> k_has_no_permission TPERM_TCONFIG s \<Longrightarrow>
      same_permissions (kernel h others) s = Ret () (renamed c (b_literal (build s) ''SAME'') (set_errno 0 s))"
    using self r assms(2) e by (simp add: same_permissions_def failing_call_def runs_as_def names_known_def set_errno_state)
  show "k_has_no_permission TPERM_TCONFIG s \<Longrightarrow> reduced_permissions (kernel h others) s = Ret () (set_errno E_PERM s)"
    using self r assms(2) by (simp add: reduced_permissions_def failing_call_def runs_as_def names_known_def set_errno_state)
qed

section \<open>Giving permissions up\<close>

lemma permissions_call:
  fixes remove :: u16 and s :: kstate and c :: nat
  assumes "runs_as c s" and "fp \<noteq> NULL" and "fp + 4 \<noteq> NULL"
  defines "old \<equiv> t_permissions (thread_at s c)"
  defines "new \<equiv> (if old AND TPERM_TCONFIG = 0 then old else old AND NOT remove)"
  shows "\<exists>m. permissions (kernel h others) fp remove s = Ret new (set_memory m
    (if old AND TPERM_TCONFIG = 0 then set_errno E_PERM s else upd_thread c (\<lambda>t. t\<lparr>t_permissions := new\<rparr>) s))"
proof -
  let ?s1 = "set_memory (store16 (memory s) fp remove) s"
  let ?s2 = "if old AND TPERM_TCONFIG = 0 then set_errno E_PERM ?s1 else upd_thread c (\<lambda>t. t\<lparr>t_permissions := new\<rparr>) ?s1"
  have c: "current_thread s = Some c" "c < length (all_threads s)" "t_id (thread_at s c) = int c"
    using assms(1) by (simp_all add: runs_as_def MAX_THREADS_def)
  have b: "set_thread_property (kernel h others) CURRENT_THREAD TPROP_PERMISSIONS fp ?s1 = Ret (old AND TPERM_TCONFIG \<noteq> 0) ?s2"
    using c assms(2) by (simp add: kernel_property CURRENT_THREAD_def INVALID_THREAD_def old_def new_def
        k_set_thread_property_def do_set_thread_property_def k_has_no_permission_def is_valid_thread_def MAX_THREADS_def
        k_get_thread_id_def tprop_defs Let_def upd_thread_def mem_simps)
  let ?s3 = "set_memory (store16 (memory ?s2) (fp + 4) 0) ?s2"
  have t: "t_permissions (thread_at ?s3 c) = new" "current_thread ?s3 = Some c" "length (all_threads ?s3) = length (all_threads s)"
    "t_id (thread_at ?s3 c) = int c"
    using c by (simp_all add: thread_at_upd old_def new_def)
  have "get_thread_property (kernel h others) CURRENT_THREAD TPROP_PERMISSIONS (fp + 4) s3
      = Ret True (set_memory (store16 (memory s3) (fp + 4) (t_permissions (thread_at s3 c))) s3)"
    if "current_thread s3 = Some c" "c < length (all_threads s3)" "t_id (thread_at s3 c) = int c" for s3
    using that assms(3) by (simp add: kernel_property CURRENT_THREAD_def INVALID_THREAD_def k_get_thread_property_def
        do_get_thread_property_def tprop_defs Let_def k_get_thread_id_def is_valid_thread_def MAX_THREADS_def)
  from this [of ?s3] t c have "get_thread_property (kernel h others) CURRENT_THREAD TPROP_PERMISSIONS (fp + 4) ?s3
      = Ret True (set_memory (store16 (memory ?s3) (fp + 4) new) ?s3)" by simp
  with b have "permissions (kernel h others) fp remove s = Ret new (set_memory (store16 (memory ?s3) (fp + 4) new) ?s3)"
    by (simp add: permissions_def mem_simps)
  then show ?thesis by (intro exI [of _ "store16 (memory ?s3) (fp + 4) new"]) (simp add: set_memory_def upd_thread_def set_errno_def)
qed

lemma mask_other: "NOT a AND b = b \<Longrightarrow> (p AND NOT a) AND b = p AND (b :: u16)"
  by (simp add: and.assoc)

lemma mask_self: "(p AND NOT a) AND a = (0 :: u16)"
  by (simp add: and.assoc)

lemma runs_as_keep:
  "runs_as c (set_memory m s) = runs_as c s" "runs_as c (renamed i p s) = runs_as c s"
  "runs_as c (upd_thread i (\<lambda>t. t\<lparr>t_permissions := v\<rparr>) s) = runs_as c s"
  by (auto simp: runs_as_def renamed_simps MAX_THREADS_def thread_at_upd)

lemma other_bits:
  "NOT TPERM_FILE AND TPERM_TCONFIG = TPERM_TCONFIG" "NOT TPERM_FILE AND TPERM_TCONFIG_OTHER = TPERM_TCONFIG_OTHER"
  "NOT TPERM_FILE AND TPERM_KCONFIG = TPERM_KCONFIG" "NOT TPERM_TCONFIG AND TPERM_TCONFIG_OTHER = TPERM_TCONFIG_OTHER"
  "NOT TPERM_TCONFIG AND TPERM_KCONFIG = TPERM_KCONFIG"
  by (simp_all add: perm_defs)

lemma user_reduce_result:
  assumes "runs_as c s" and "names_known s" and "is_valid_thread 0 s" and "fp \<noteq> NULL" and "fp + 4 \<noteq> NULL"
    and "t_permissions (thread_at s c) = p" and "p AND TPERM_TCONFIG \<noteq> 0" and "p AND TPERM_TCONFIG_OTHER \<noteq> 0"
    and "p AND TPERM_KCONFIG \<noteq> 0"
  shows "\<exists>s'. user_reduce (kernel h others) fp g s = Ret () s' \<and>
    t_permissions (thread_at s' c) = (p AND NOT TPERM_FILE) AND NOT TPERM_TCONFIG \<and> host_calls s' = host_calls s"
proof -
  let ?K = "kernel h others" and ?p1 = "p AND NOT TPERM_FILE"
  let ?p2 = "?p1 AND NOT TPERM_TCONFIG"
  have c: "c < length (all_threads s)" using assms(1) by (simp add: runs_as_def MAX_THREADS_def)
  have bits: "?p1 AND TPERM_FILE = 0" "?p1 AND TPERM_TCONFIG \<noteq> 0" "?p2 AND TPERM_TCONFIG = 0" "?p2 AND TPERM_TCONFIG_OTHER \<noteq> 0"
    "?p2 AND TPERM_KCONFIG \<noteq> 0"
    using assms(7-9) by (simp_all only: mask_self mask_other other_bits refl not_False_eq_True simp_thms)
  let ?u1 = "upd_thread c (\<lambda>t. t\<lparr>t_permissions := ?p1\<rparr>) s"
  obtain m1 where m1: "permissions ?K fp TPERM_FILE s = Ret ?p1 (set_memory m1 ?u1)"
    using permissions_call [OF assms(1,4,5), of h others TPERM_FILE] assms(6,7) by auto
  let ?s1 = "set_memory m1 ?u1"
  have r1: "runs_as c ?s1" "t_permissions (thread_at ?s1 c) = ?p1" using assms(1) c by (simp_all add: runs_as_keep thread_at_upd)
  have f: "cannot_file ?K g ?s1 = Ret () (set_errno E_PERM ?s1)"
    using r1 bits(1) by (intro cannot_file_passes) (simp add: runs_as_def k_has_no_permission_def)
  let ?s2 = "set_errno E_PERM ?s1"
  have r2: "runs_as c ?s2" "t_permissions (thread_at ?s2 c) = ?p1" using r1 by (simp_all add: set_errno_state)
  let ?u2 = "upd_thread c (\<lambda>t. t\<lparr>t_permissions := ?p2\<rparr>) ?s2"
  obtain m2 where m2: "permissions ?K fp TPERM_TCONFIG ?s2 = Ret ?p2 (set_memory m2 ?u2)"
    using permissions_call [OF r2(1) assms(4,5), of h others TPERM_TCONFIG] r2(2) bits(2) by auto
  let ?s3 = "set_memory m2 ?u2"
  have r3: "runs_as c ?s3" "t_permissions (thread_at ?s3 c) = ?p2" "current_thread ?s3 = Some c"
    using r2 c by (simp_all add: runs_as_keep thread_at_upd set_errno_state runs_as_def MAX_THREADS_def)
  have v3: "is_valid_thread 0 ?s3" using assms(3) by (auto simp: is_valid_thread_def MAX_THREADS_def thread_at_upd set_errno_state)
  have n3: "names_known ?s3" using assms(2) by (simp add: names_known_def set_errno_state)
  let ?s4 = "renamed 0 (b_literal (build ?s3) ''runner'') (set_errno E_PERM ?s3)"
  have t: "cannot_tconfig ?K ?s3 = Ret () ?s4"
    using r3 v3 n3 bits(3,4) by (intro cannot_tconfig_passes) (simp_all add: has_permission)
  have r4: "runs_as c ?s4" "t_permissions (thread_at ?s4 c) = ?p2"
    using r3 by (simp_all add: runs_as_keep set_errno_state renamed_simps)
  obtain m3 where m3: "permissions ?K fp TPERM_KCONFIG ?s4 = Ret ?p2 (set_memory m3 (set_errno E_PERM ?s4))"
    using permissions_call [OF r4(1) assms(4,5), of h others TPERM_KCONFIG] r4(2) bits(3) by auto
  have "user_reduce ?K fp g s = Ret () (set_memory m3 (set_errno E_PERM ?s4))"
    by (simp only: user_reduce_def m1 obind.simps f m2 t m3 bits simp_thms not_False_eq_True perm_assert_def user_assert_def if_True)
  moreover have "t_permissions (thread_at (set_memory m3 (set_errno E_PERM ?s4)) c) = ?p2" using r4(2) by (simp add: set_errno_state)
  moreover have "host_calls (set_memory m3 (set_errno E_PERM ?s4)) = host_calls s" by (simp add: renamed_simps)
  ultimately show ?thesis by blast
qed

section \<open>What the tests show\<close>


text \<open>A thread that gives up the permission for files and then that to configure itself passes all
  assertions of the test: files are refused after the first call, its own configuration after the
  second, and from then on no call takes a permission away any more. The host is never called.\<close>

theorem permissions_given_up:
  assumes "runs_as c s" and "names_known s" and "is_valid_thread 0 s" and "fp \<noteq> NULL" and "fp + 4 \<noteq> NULL"
    and "t_permissions (thread_at s c) = p" and "p AND TPERM_TCONFIG \<noteq> 0" and "p AND TPERM_TCONFIG_OTHER \<noteq> 0"
    and "p AND TPERM_KCONFIG \<noteq> 0"
  shows "\<exists>s'. user_reduce (kernel h others) fp g s = Ret () s' \<and>
    t_permissions (thread_at s' c) = (p AND NOT TPERM_FILE) AND NOT TPERM_TCONFIG \<and> host_calls s' = host_calls s"
  using user_reduce_result [OF assms] .

definition demo_perm_test :: PermTest where
  "demo_perm_test = \<lparr>pt_read_fd = 0x6000, pt_write_fd = 0x6004, pt_cannot_alloc = 0x8500, pt_cannot_file = 0x8510,
     pt_cannot_create = 0x8520, pt_cannot_kconfig = 0x8530, pt_cannot_tconfig = 0x8540, pt_cannot_tconfig_other = 0x8550,
     pt_cannot_multi = 0x8560, pt_same_permissions = 0x8570, pt_reduced_permissions = 0x8580, pt_user_inherit = 0x8590,
     pt_user_reduce = 0x85A0, pt_errno_checks = 0x85B0, pt_cleanup = 0x85C0\<rparr>"

definition demo_powerless :: kstate where
  "demo_powerless = upd_thread 0 (\<lambda>t. t\<lparr>t_permissions := 0\<rparr>) demo_state"

lemma demo_perm_facts:
  "runs_as 0 demo_state" "names_known demo_state" "is_valid_thread 0 demo_state"
  "runs_as 0 demo_powerless" "names_known demo_powerless" "is_valid_thread 0 demo_powerless"
  by (simp_all add: runs_as_def names_known_def is_valid_thread_def MAX_THREADS_def INVALID_THREAD_def demo_powerless_def
      upd_thread_def demo_build_def demo_state_def)


theorem permissions_given_up_witness:
  "\<exists>s'. user_reduce demo_sys 0x4000 demo_perm_test demo_state = Ret () s' \<and>
     t_permissions (thread_at s' 0) = 0xFFED \<and> host_calls s' = []"
  using permissions_given_up [OF demo_perm_facts(1-3), of "0x4000" "0xFFFF"]
  by (simp add: perm_defs demo_state_def)

end
