(* ===== verification/Fiber.thy ===== *)
theory Fiber
  imports Libc
begin

text \<open>
  Fibers, \<open>src/user/fiber.c\<close>, and the context functions of \<open>src/hw/arm_virt/yield.S\<close> that switch between
  them: the assembly instruction by instruction over the registers and the memory, the C function
  over the memory.
\<close>

section \<open>The processor\<close>

datatype reg = R0 | R1 | R2 | R4 | R5 | R6 | R7 | R8 | R9 | R10 | R11 | SP | LR | PC

record cpu =
  regs :: "reg \<Rightarrow> size_t"
  ram :: mem

text \<open>The instructions the functions use; \<open>LDR_post r b\<close> is \<open>ldr r, [b], #4\<close>.\<close>

datatype instr = LDR reg reg | LDR_post reg reg | STR_post reg reg | MOV reg reg | SUB reg size_t | BX reg

fun iexec :: "instr \<Rightarrow> cpu \<Rightarrow> cpu" where
  "iexec (LDR r b) c = c\<lparr>regs := (regs c)(r := load32 (ram c) (regs c b))\<rparr>"
| "iexec (LDR_post r b) c =
     (let a = regs c b in c\<lparr>regs := (regs c)(b := a + 4, r := load32 (ram c) a)\<rparr>)"
| "iexec (STR_post r b) c =
     (let a = regs c b in c\<lparr>ram := store32 (ram c) a (regs c r), regs := (regs c)(b := a + 4)\<rparr>)"
| "iexec (MOV d s) c = c\<lparr>regs := (regs c)(d := regs c s)\<rparr>"
| "iexec (SUB r n) c = c\<lparr>regs := (regs c)(r := regs c r - n)\<rparr>"
| "iexec (BX r) c = c\<lparr>regs := (regs c)(PC := regs c r)\<rparr>"

text \<open>A function is a sequence of instructions whose last one is its only branch.\<close>

definition exec :: "instr list \<Rightarrow> cpu \<Rightarrow> cpu" where
  "exec is c = fold iexec is c"

section \<open>The functions in assembly\<close>

definition get_context :: "instr list" where
  "get_context =
     [STR_post R4 R0, STR_post R5 R0, STR_post R6 R0, STR_post R7 R0, STR_post R8 R0, STR_post R9 R0,
      STR_post R10 R0, STR_post R11 R0, STR_post SP R0, STR_post LR R0, STR_post LR R0, BX LR]"

definition set_context :: "instr list" where
  "set_context =
     [LDR_post R4 R0, LDR_post R5 R0, LDR_post R6 R0, LDR_post R7 R0, LDR_post R8 R0, LDR_post R9 R0,
      LDR_post R10 R0, LDR_post R11 R0, LDR_post SP R0, LDR_post LR R0, LDR_post R1 R0, BX R1]"

definition set_context_from_stack_address :: "instr list" where
  "set_context_from_stack_address = LDR_post R0 SP # set_context"

definition SWAP :: "reg \<Rightarrow> instr list" where
  "SWAP r = [LDR R1 R0, STR_post r R0, MOV r R1]"

definition swap_context :: "instr list" where
  "swap_context =
     SWAP R4 @ SWAP R5 @ SWAP R6 @ SWAP R7 @ SWAP R8 @ SWAP R9 @ SWAP R10 @ SWAP R11 @ SWAP SP @
     [LDR R1 R0, STR_post LR R0, LDR R2 R0, STR_post LR R0, MOV LR R1, MOV R1 R2, SUB R0 44, BX R1]"

section \<open>The functions in C\<close>

text \<open>Places in the structure \<open>FiberContext\<close> of \<open>port/arm.h\<close>.\<close>

definition CONTEXT_SP :: size_t where "CONTEXT_SP = 32"
definition CONTEXT_LR :: size_t where "CONTEXT_LR = 36"
definition CONTEXT_PC :: size_t where "CONTEXT_PC = 40"
definition CONTEXT_SIZE :: size_t where "CONTEXT_SIZE = 44"

definition ALIGN_STACK_PTR :: "size_t \<Rightarrow> size_t" where
  "ALIGN_STACK_PTR p = p AND NOT 7"

definition init_context :: "mem \<Rightarrow> size_t \<Rightarrow> mem" where
  "init_context m ctx = memset m ctx 0 CONTEXT_SIZE"

text \<open>\<open>catch\<close> is the address of \<open>set_context_from_stack_address\<close>.\<close>

definition make_context :: "size_t \<Rightarrow> mem \<Rightarrow> size_t \<Rightarrow> size_t \<Rightarrow> size_t \<Rightarrow> mem" where
  "make_context catch m ctx function stack_ptr =
     (let m = init_context m ctx;
          m = store32 m (ctx + CONTEXT_SP) (ALIGN_STACK_PTR stack_ptr);
          m = store32 m (ctx + CONTEXT_PC) function;
          m = store32 m (ctx + CONTEXT_LR) catch;
          m = store32 m (ctx + CONTEXT_SP) (load32 m (ctx + CONTEXT_SP) - 4);
          m = store32 m (ctx + CONTEXT_SP) (ALIGN_STACK_PTR (load32 m (ctx + CONTEXT_SP)))
      in store32 m (load32 m (ctx + CONTEXT_SP)) ctx)"

section \<open>Words in sequence\<close>

definition load_words :: "mem \<Rightarrow> size_t \<Rightarrow> nat \<Rightarrow> size_t list" where
  "load_words m a n = map (\<lambda>i. load32 m (a + of_nat (4 * i))) [0..<n]"

definition store_words :: "mem \<Rightarrow> size_t \<Rightarrow> size_t list \<Rightarrow> mem" where
  "store_words m a ws = store_bytes m a (concat (map bytes32 ws))"

lemma length_words [simp]: "length (load_words m a n) = n" "length (concat (map bytes32 ws)) = 4 * length ws"
  by (simp_all add: load_words_def, induction ws) simp_all

lemma load_words_Suc: "load_words m a (Suc n) = load32 m a # load_words m (a + 4) n"
  unfolding load_words_def
  by (rule nth_equalityI) (auto simp: nth_Cons add.assoc split: nat.splits simp del: upt_Suc)

lemma store_words_Cons:
  assumes "4 * length ws + 4 \<le> 2 ^ 32"
  shows "store_words (store32 m a w) (a + 4) ws = store_words m a (w # ws)"
  using store_bytes_append [of "bytes32 w" "concat (map bytes32 ws)" m a] assms
  by (simp add: store_words_def store32_def)

lemma take_drop_words: "i < length ws \<Longrightarrow> take 4 (drop (4 * i) (concat (map bytes32 ws))) = bytes32 (ws ! i)"
proof (induction ws arbitrary: i)
  case (Cons w ws)
  then show ?case by (cases i) simp_all
qed simp

lemma load_store_words:
  assumes "4 * length ws < 2 ^ 32" and "n = length ws"
  shows "load_words (store_words m a ws) a n = ws"
proof (rule nth_equalityI)
  fix i assume "i < length (load_words (store_words m a ws) a n)"
  then have i: "i < length ws" using assms by simp
  then have "load_bytes (store_words m a ws) (a + of_nat (4 * i)) 4 = bytes32 (ws ! i)"
    unfolding store_words_def using assms take_drop_words [OF i]
    by (subst load_bytes_within) simp_all
  then show "load_words (store_words m a ws) a n ! i = ws ! i"
    using i assms by (simp add: load_words_def load32_def)
qed (use assms in simp)

lemma store_words_outside: "4 * length ws \<le> unat (x - a) \<Longrightarrow> store_words m a ws x = m x"
  by (simp add: store_words_def store_bytes_def)

lemma load_words_ahead:
  assumes "4 * n + 4 \<le> 2 ^ 32"
  shows "load_words (store32 m a v) (a + 4) n = load_words m (a + 4) n"
  unfolding load_words_def
proof (rule map_cong [OF refl])
  fix i assume "i \<in> set [0..<n]"
  then have "apart (a + of_nat 0) 4 (a + of_nat (4 + 4 * i)) 4" using assms by (intro apart_offsets) auto
  then show "load32 (store32 m a v) (a + 4 + of_nat (4 * i)) = load32 m (a + 4 + of_nat (4 * i))"
    by (simp add: load32_store32_apart add.assoc)
qed

section \<open>Sequences of loads, stores and swaps\<close>

lemma exec_Nil [simp]: "exec [] c = c" and exec_Cons: "exec (i # is) c = exec is (iexec i c)"
  and exec_append: "exec (is @ js) c = exec js (exec is c)"
  by (simp_all add: exec_def)

lemma exec_stores:
  assumes "R0 \<notin> set rs" and "4 * length rs < 2 ^ 32"
  shows "exec (map (\<lambda>r. STR_post r R0) rs) c =
    c\<lparr>ram := store_words (ram c) (regs c R0) (map (regs c) rs),
      regs := (regs c)(R0 := regs c R0 + of_nat (4 * length rs))\<rparr>"
  using assms
proof (induction rs arbitrary: c)
  case Nil
  then show ?case by (simp add: store_words_def)
next
  case (Cons r rs)
  let ?c = "iexec (STR_post r R0) c"
  have "map (regs ?c) rs = map (regs c) rs" using Cons.prems by (auto simp: Let_def)
  then show ?case
    using Cons by (simp add: exec_Cons Let_def store_words_Cons [symmetric] algebra_simps cong: if_cong)
qed

lemma exec_loads:
  fixes c :: cpu and rs :: "reg list"
  defines "c' \<equiv> exec (map (\<lambda>r. LDR_post r R0) rs) c"
  assumes "R0 \<notin> set rs" and "distinct rs"
  shows "ram c' = ram c \<and> map (regs c') rs = load_words (ram c) (regs c R0) (length rs) \<and>
    regs c' R0 = regs c R0 + of_nat (4 * length rs) \<and> (\<forall>r. r \<notin> set rs \<longrightarrow> r \<noteq> R0 \<longrightarrow> regs c' r = regs c r)"
  using assms(2,3) unfolding c'_def
proof (induction rs arbitrary: c)
  case (Cons q rs)
  from Cons.IH [of "iexec (LDR_post q R0) c"] Cons.prems show ?case
    by (auto simp: exec_Cons Let_def load_words_Suc algebra_simps)
qed (simp add: load_words_def)

text \<open>Swapping leaves the words read in the registers and the registers in memory.\<close>

lemma exec_swaps:
  fixes c :: cpu and rs :: "reg list"
  defines "c' \<equiv> exec (concat (map SWAP rs)) c"
  assumes "R0 \<notin> set rs" and "R1 \<notin> set rs" and "distinct rs" and "4 * length rs < 2 ^ 32"
  shows "ram c' = store_words (ram c) (regs c R0) (map (regs c) rs) \<and>
    map (regs c') rs = load_words (ram c) (regs c R0) (length rs) \<and>
    regs c' R0 = regs c R0 + of_nat (4 * length rs) \<and>
    (\<forall>r. r \<notin> set rs \<longrightarrow> r \<noteq> R0 \<longrightarrow> r \<noteq> R1 \<longrightarrow> regs c' r = regs c r)"
  using assms(2-5) unfolding c'_def
proof (induction rs arbitrary: c)
  case Nil
  then show ?case by (simp add: load_words_def store_words_def)
next
  case (Cons q rs)
  define c1 where "c1 = exec (SWAP q) c"
  have c1: "ram c1 = store32 (ram c) (regs c R0) (regs c q)" "regs c1 R0 = regs c R0 + 4"
      "regs c1 q = load32 (ram c) (regs c R0)" "\<And>r. r \<noteq> q \<Longrightarrow> r \<noteq> R0 \<Longrightarrow> r \<noteq> R1 \<Longrightarrow> regs c1 r = regs c r"
    using Cons.prems by (auto simp: c1_def SWAP_def exec_Cons Let_def)
  have same: "map (regs c1) rs = map (regs c) rs" using Cons.prems by (auto intro!: c1(4))
  have "load_words (ram c1) (regs c R0 + 4) (length rs) = load_words (ram c) (regs c R0 + 4) (length rs)"
    unfolding c1(1) using Cons.prems by (intro load_words_ahead) simp
  moreover have "store_words (ram c1) (regs c R0 + 4) (map (regs c) rs) =
      store_words (ram c) (regs c R0) (map (regs c) (q # rs))"
    unfolding c1(1) using Cons.prems store_words_Cons [of "map (regs c) rs"] by simp
  ultimately show ?case
    using Cons.IH [of c1] Cons.prems c1 same
    by (auto simp: exec_append c1_def [symmetric] load_words_Suc algebra_simps)
qed

section \<open>What the functions do\<close>

text \<open>The registers a function keeps for its caller; what a context saves, and what it resumes.\<close>

definition kept_regs :: "reg list" where
  "kept_regs = [R4, R5, R6, R7, R8, R9, R10, R11, SP, LR]"

definition saved :: "cpu \<Rightarrow> size_t list" where
  "saved c = map (regs c) (kept_regs @ [LR])"

definition resumed :: "cpu \<Rightarrow> size_t list" where
  "resumed c = map (regs c) (kept_regs @ [PC])"

lemma store_words_append:
  assumes "4 * (length xs + length ys) \<le> 2 ^ 32" and "4 * length xs < 2 ^ 32"
  shows "store_words (store_words m a xs) (a + of_nat (4 * length xs)) ys = store_words m a (xs @ ys)"
  using store_bytes_append [of "concat (map bytes32 xs)" "concat (map bytes32 ys)" m a] assms
  by (simp add: store_words_def)

lemma load32_past_words:
  assumes "4 * length ws \<le> k" and "k + 4 \<le> 2 ^ 32"
  shows "load32 (store_words m a ws) (a + of_nat k) = load32 m (a + of_nat k)"
proof (cases "ws = []")
  case False
  then have "apart (a + of_nat 0) (4 * length ws) (a + of_nat k) 4"
    using assms by (intro apart_offsets) auto
  then show ?thesis by (simp add: store_words_def load32_store_bytes_apart)
qed (simp add: store_words_def)

lemma get_context_saves:
  "exec get_context c = c\<lparr>ram := store_words (ram c) (regs c R0) (saved c),
     regs := (regs c)(R0 := regs c R0 + CONTEXT_SIZE, PC := regs c LR)\<rparr>"
proof -
  have code: "get_context = map (\<lambda>r. STR_post r R0) (kept_regs @ [LR]) @ [BX LR]"
    by (simp add: get_context_def kept_regs_def)
  have "R0 \<notin> set (kept_regs @ [LR])" "length (kept_regs @ [LR]) = 11" by (simp_all add: kept_regs_def)
  then have "exec (map (\<lambda>r. STR_post r R0) (kept_regs @ [LR])) c =
      c\<lparr>ram := store_words (ram c) (regs c R0) (saved c), regs := (regs c)(R0 := regs c R0 + 44)\<rparr>"
    by (subst exec_stores) (simp_all add: saved_def)
  then show ?thesis by (simp add: code exec_append exec_Cons CONTEXT_SIZE_def)
qed

lemma set_context_loads:
  "ram (exec set_context c) = ram c"
  "resumed (exec set_context c) = load_words (ram c) (regs c R0) 11"
  "regs (exec set_context c) R0 = regs c R0 + CONTEXT_SIZE"
proof -
  let ?rs = "kept_regs @ [R1]"
  define c1 where "c1 = exec (map (\<lambda>r. LDR_post r R0) ?rs) c"
  have code: "set_context = map (\<lambda>r. LDR_post r R0) ?rs @ [BX R1]"
    by (simp add: set_context_def kept_regs_def)
  then have c': "exec set_context c = c1\<lparr>regs := (regs c1)(PC := regs c1 R1)\<rparr>"
    unfolding code exec_append c1_def [symmetric] by (simp add: exec_Cons)
  have "R0 \<notin> set ?rs" "distinct ?rs" "length ?rs = 11" "PC \<notin> set ?rs" by (simp_all add: kept_regs_def)
  then have c1: "ram c1 = ram c" "map (regs c1) ?rs = load_words (ram c) (regs c R0) 11" "regs c1 R0 = regs c R0 + 44"
    using exec_loads [of ?rs c] by (simp_all add: c1_def)
  show "ram (exec set_context c) = ram c" using c1 by (simp add: c')
  show "resumed (exec set_context c) = load_words (ram c) (regs c R0) 11"
    using c1(2) \<open>PC \<notin> set ?rs\<close> unfolding c' resumed_def by auto
  show "regs (exec set_context c) R0 = regs c R0 + CONTEXT_SIZE" using c1(3) by (simp add: c' CONTEXT_SIZE_def)
qed

lemma swap_context_swaps:
  "ram (exec swap_context c) = store_words (ram c) (regs c R0) (saved c)"
  "resumed (exec swap_context c) = load_words (ram c) (regs c R0) 11"
  "regs (exec swap_context c) R0 = regs c R0"
proof -
  let ?a = "regs c R0" and ?m = "ram c"
  let ?tail = "[LDR R1 R0, STR_post LR R0, LDR R2 R0, STR_post LR R0, MOV LR R1, MOV R1 R2, SUB R0 44, BX R1]"
  define rs where "rs = [R4, R5, R6, R7, R8, R9, R10, R11, SP]"
  have rs: "R0 \<notin> set rs" "R1 \<notin> set rs" "distinct rs" "length rs = 9" "LR \<notin> set rs" "kept_regs = rs @ [LR]"
      "R2 \<notin> set rs" "PC \<notin> set rs"
    by (simp_all add: rs_def kept_regs_def)
  define c1 where "c1 = exec (concat (map SWAP rs)) c"
  have c1: "ram c1 = store_words ?m ?a (map (regs c) rs)" "map (regs c1) rs = load_words ?m ?a 9"
      "regs c1 R0 = ?a + of_nat 36" "regs c1 LR = regs c LR"
    using exec_swaps [of rs c] rs by (simp_all add: c1_def)
  have code: "swap_context = concat (map SWAP rs) @ ?tail" by (simp add: swap_context_def rs_def)
  have past: "load32 (ram c1) (?a + of_nat k) = load32 ?m (?a + of_nat k)" if "36 \<le> k" "k \<le> 40" for k
    unfolding c1(1) using that rs by (intro load32_past_words) simp_all
  have r1: "load32 (ram c1) (?a + 36) = load32 ?m (?a + 36)" using past [of 36] by simp
  have "apart (?a + of_nat 36) 4 (?a + of_nat 40) 4" by (rule apart_offsets) simp_all
  then have r2: "load32 (store32 (ram c1) (?a + 36) v) (?a + 40) = load32 ?m (?a + 40)" for v
    using past [of 40] by (simp add: load32_store32_apart)
  have c': "exec swap_context c = c1\<lparr>ram := store32 (store32 (ram c1) (?a + 36) (regs c LR)) (?a + 40) (regs c LR),
      regs := (regs c1)(R0 := ?a, R1 := load32 ?m (?a + 40), R2 := load32 ?m (?a + 40),
        LR := load32 ?m (?a + 36), PC := load32 ?m (?a + 40))\<rparr>"
    unfolding code exec_append c1_def [symmetric] using c1(3,4)
    by (simp add: exec_Cons Let_def add.assoc r1 r2 fun_eq_iff)
  have "store32 (store32 (ram c1) (?a + 36) v) (?a + 40) v = store_words (ram c1) (?a + 36) [v, v]" for v
    using store_words_Cons [of "[v]" "ram c1" "?a + 36" v] store_words_Cons [of "[]"] by (simp add: store_words_def store32_def add.commute)
  then show "ram (exec swap_context c) = store_words ?m ?a (saved c)"
    using store_words_append [of "map (regs c) rs" "[regs c LR, regs c LR]" ?m ?a] rs(4)
    by (simp add: c' c1(1) saved_def rs(6))
  have "load_words ?m ?a 11 = load_words ?m ?a 9 @ [load32 ?m (?a + 36), load32 ?m (?a + 40)]"
    by (simp add: load_words_def eval_nat_numeral)
  then show "resumed (exec swap_context c) = load_words ?m ?a 11"
    using c1(2) rs(1,2,4,5,7,8) by (auto simp: c' resumed_def rs(6))
  show "regs (exec swap_context c) R0 = ?a" by (simp add: c')
qed

section \<open>New fibers\<close>

text \<open>The top of the new stack, where the address of the context is put for the function that catches the end
  of the fiber.\<close>

definition fiber_sp :: "size_t \<Rightarrow> size_t" where
  "fiber_sp stack_ptr = ALIGN_STACK_PTR (ALIGN_STACK_PTR stack_ptr - 4)"

lemma store32_words:
  assumes "i < length ws" and "4 * length ws < 2 ^ 32"
  shows "store32 (store_words m a ws) (a + of_nat (4 * i)) v = store_words m a (ws[i := v])"
proof -
  have "take (4 * i) (concat (map bytes32 ws)) = concat (map bytes32 (take i ws))"
      "drop (4 * i + 4) (concat (map bytes32 ws)) = concat (map bytes32 (drop (Suc i) ws))"
    using assms(1)
  proof (induction ws arbitrary: i)
    case (Cons w ws)
    { case 1 then show ?case using Cons.IH(1) by (cases i) auto }
    { case 2 then show ?case using Cons.IH(2) by (cases i) (auto simp: add.commute) }
  qed simp_all
  then have "concat (map bytes32 (ws[i := v])) =
      take (4 * i) (concat (map bytes32 ws)) @ bytes32 v @ drop (4 * i + 4) (concat (map bytes32 ws))"
    using assms(1) by (simp add: upd_conv_take_nth_drop)
  moreover have "4 * i + length (bytes32 v) \<le> length (concat (map bytes32 ws))" using assms(1) by simp
  ultimately show ?thesis
    unfolding store_words_def store32_def using assms(2) store_bytes_within [of "4 * i" "bytes32 v" "concat (map bytes32 ws)" m a]
    by simp
qed

lemma nth_load_words: "i < n \<Longrightarrow> load_words m a n ! i = load32 m (a + of_nat (4 * i))"
  by (simp add: load_words_def)

lemma load32_words:
  assumes "i < length ws" and "4 * length ws < 2 ^ 32"
  shows "load32 (store_words m a ws) (a + of_nat (4 * i)) = ws ! i"
  using load_store_words [OF assms(2) refl, of m a] nth_load_words [OF assms(1), of "store_words m a ws" a] by simp

lemma init_context_words: "init_context m ctx = store_words m ctx (replicate 11 0)"
proof -
  have "concat (map bytes32 (replicate n 0)) = replicate (4 * n) 0" for n
  proof (induction n)
    case (Suc n)
    have "bytes32 0 = replicate 4 0" unfolding bytes32_def by (simp add: numeral_eq_Suc)
    moreover have "replicate (4 * Suc n) 0 = replicate 4 (0 :: byte) @ replicate (4 * n) 0"
      unfolding replicate_add [symmetric] by simp
    ultimately show ?case using Suc by (simp only: replicate_Suc list.map concat.simps)
  qed simp
  from this [of 11] have "concat (map bytes32 (replicate 11 0)) = replicate 44 0" by (simp only: numeral_times_numeral) simp
  moreover have "init_context m ctx = store_bytes m ctx (replicate 44 0)"
    unfolding init_context_def memset_eq CONTEXT_SIZE_def by (rule arg_cong [of _ _ "store_bytes m ctx"]) simp
  ultimately show ?thesis by (simp only: store_words_def)
qed

text \<open>The context of a new fiber.\<close>

lemma make_context_eq:
  "make_context catch m ctx f stack_ptr =
     store32 (store_words m ctx (replicate 8 0 @ [fiber_sp stack_ptr, catch, f])) (fiber_sp stack_ptr) ctx"
proof -
  have at: "store32 (store_words m ctx ws) (ctx + 32) v = store_words m ctx (ws[8 := v])"
      "store32 (store_words m ctx ws) (ctx + 36) v = store_words m ctx (ws[9 := v])"
      "store32 (store_words m ctx ws) (ctx + 40) v = store_words m ctx (ws[10 := v])"
      "load32 (store_words m ctx ws) (ctx + 32) = ws ! 8" if "length ws = 11" for ws v
    using store32_words [of 8 ws m ctx v] store32_words [of 9 ws m ctx v] store32_words [of 10 ws m ctx v]
      load32_words [of 8 ws m ctx] that by simp_all
  have "(replicate 11 0)[8 := x, 10 := f, 9 := catch, 8 := y, 8 := z] = replicate 8 0 @ [z, catch, f]" for x y z :: size_t
    by (simp add: eval_nat_numeral)
  then show ?thesis
    by (simp add: make_context_def Let_def init_context_words CONTEXT_SP_def CONTEXT_LR_def CONTEXT_PC_def
        at fiber_sp_def nth_append list_update_append)
qed

lemma length_saved [simp]: "length (saved c) = 11"
  by (simp add: saved_def kept_regs_def)

lemma resumed_regs:
  assumes "resumed c = ws"
  shows "regs c SP = ws ! 8" and "regs c LR = ws ! 9" and "regs c PC = ws ! 10"
  using assms [symmetric] by (simp_all add: resumed_def kept_regs_def)

text \<open>Entering it.\<close>

lemma fiber_words:
  assumes "ram c = make_context catch m (regs c R0) f stack" and "apart (regs c R0) (unat CONTEXT_SIZE) (fiber_sp stack) 4"
  shows "load_words (ram c) (regs c R0) 11 = replicate 8 0 @ [fiber_sp stack, catch, f]"
    and "load32 (ram c) (fiber_sp stack) = regs c R0"
proof -
  let ?a = "regs c R0" and ?ws = "replicate 8 0 @ [fiber_sp stack, catch, f]"
  have m: "ram c = store32 (store_words m ?a ?ws) (fiber_sp stack) ?a"
    using assms(1) by (simp add: make_context_eq)
  have "apart (fiber_sp stack) 4 (?a + of_nat (4 * i)) 4" if "i < 11" for i
    using apart_part [of "fiber_sp stack" 4 ?a 44 "4 * i" 4] assms(2) that by (simp add: apart_commute CONTEXT_SIZE_def)
  then have "load_words (ram c) ?a 11 = load_words (store_words m ?a ?ws) ?a 11"
    unfolding load_words_def by (intro map_cong [OF refl]) (simp add: m load32_store32_apart)
  then show "load_words (ram c) ?a 11 = ?ws" by (simp add: load_store_words)
  show "load32 (ram c) (fiber_sp stack) = ?a" by (simp add: m load32_store32_same)
qed

section \<open>Properties\<close>

text \<open>Swapping exchanges the running fiber with the one in the context: every register that a function keeps,
  the stack pointer and the place to go on come from the context, which afterwards holds those of the
  caller, to go on behind the call. No other memory changes and the context stays the argument.\<close>

theorem swap_context_exchanges:
  shows "resumed (exec swap_context c) = load_words (ram c) (regs c R0) 11 \<and>
    load_words (ram (exec swap_context c)) (regs c R0) 11 = saved c \<and>
    regs (exec swap_context c) R0 = regs c R0 \<and>
    (\<forall>x. CONTEXT_SIZE \<le> x - regs c R0 \<longrightarrow> ram (exec swap_context c) x = ram c x)"
  by (simp add: swap_context_swaps load_store_words store_words_outside CONTEXT_SIZE_def word_le_nat_alt)

text \<open>C35: A context that was saved by the function to get one, or that a fiber has left in a swap, takes whoever sets or
  swaps to it back to the place behind that call, with the registers the caller had there, whatever
  has been done in between, as long as nobody writes to the context.\<close>

theorem context_round_trip:
  assumes "f = get_context \<or> f = swap_context" and "g = set_context \<or> g = swap_context"
    and "regs c2 R0 = regs c R0" and "load_words (ram c2) (regs c R0) 11 = load_words (ram (exec f c)) (regs c R0) 11"
  shows "resumed (exec g c2) = saved c"
proof -
  have "load_words (ram (exec f c)) (regs c R0) 11 = saved c"
    using assms(1) by (auto simp: get_context_saves swap_context_swaps load_store_words)
  then show ?thesis using assms(2-4) by (auto simp: set_context_loads swap_context_swaps)
qed

text \<open>C36: The life of a fiber: the first swap to a new context calls its function on an aligned stack with the
  context as the argument; when the function returns, on the same stack, the code it returns to
  swaps back to the place where the fiber was last left, if nobody has touched the top of the
  stack or the context.\<close>

theorem fiber_life:
  fixes c :: cpu and stack :: size_t
  defines "c1 \<equiv> exec swap_context c" and "sp \<equiv> fiber_sp stack"
  assumes "ram c = make_context catch m (regs c R0) f stack" and "apart (regs c R0) (unat CONTEXT_SIZE) sp 4"
  shows "regs c1 PC = f \<and> regs c1 R0 = regs c R0 \<and> regs c1 SP = sp \<and> sp AND 7 = 0 \<and> regs c1 LR = catch \<and>
    load32 (ram c1) sp = regs c R0 \<and>
    (\<forall>c2. regs c2 SP = sp \<longrightarrow> load32 (ram c2) sp = regs c R0 \<longrightarrow>
      load_words (ram c2) (regs c R0) 11 = load_words (ram c1) (regs c R0) 11 \<longrightarrow>
      resumed (exec set_context_from_stack_address c2) = saved c)"
proof -
  let ?a = "regs c R0" and ?ws = "replicate 8 0 @ [sp, catch, f]"
  note words = fiber_words [OF assms(3), folded sp_def, OF assms(4)]
  have r: "resumed c1 = ?ws" using words(1) by (simp add: c1_def swap_context_swaps)
  have top: "load32 (ram c1) sp = ?a"
    using words(2) assms(4) by (simp add: c1_def swap_context_swaps store_words_def load32_store_bytes_apart CONTEXT_SIZE_def)
  have returns: "resumed (exec set_context_from_stack_address c2) = saved c"
    if "regs c2 SP = sp" "load32 (ram c2) sp = ?a" "load_words (ram c2) ?a 11 = load_words (ram c1) ?a 11" for c2
  proof -
    let ?c2 = "iexec (LDR_post R0 SP) c2"
    have "regs ?c2 R0 = ?a" "ram ?c2 = ram c2" using that by (simp_all add: Let_def)
    then show ?thesis
      using that(3) by (simp add: set_context_from_stack_address_def exec_Cons set_context_loads c1_def
          swap_context_swaps load_store_words del: iexec.simps)
  qed
  have "sp AND 7 = 0" by (simp add: sp_def fiber_sp_def ALIGN_STACK_PTR_def and.assoc)
  then show ?thesis using resumed_regs [OF r] top returns by (simp add: c1_def swap_context_swaps nth_append)
qed

text \<open>A new fiber that is entered by setting its context instead of a swap does not get its context as the
  argument but the address behind it.\<close>

theorem set_context_argument:
  assumes "ram c = make_context catch m (regs c R0) f stack" and "apart (regs c R0) (unat CONTEXT_SIZE) (fiber_sp stack) 4"
  shows "regs (exec set_context c) PC = f \<and> regs (exec set_context c) R0 = regs c R0 + CONTEXT_SIZE"
proof -
  have "resumed (exec set_context c) = replicate 8 0 @ [fiber_sp stack, catch, f]"
    by (simp add: set_context_loads fiber_words(1) [OF assms])
  from resumed_regs(3) [OF this] show ?thesis by (simp add: set_context_loads nth_append)
qed

section \<open>A fiber\<close>

definition demo_cpu :: cpu where
  "demo_cpu = \<lparr>regs = (\<lambda>r. if r = R0 then 0x1000 else 7), ram = make_context 0x8100 (\<lambda>_. 0) 0x1000 0x8000 0x2006\<rparr>"

lemma demo_cpu_ok:
  "ram demo_cpu = make_context 0x8100 (\<lambda>_. 0) (regs demo_cpu R0) 0x8000 0x2006"
  "apart (regs demo_cpu R0) (unat CONTEXT_SIZE) (fiber_sp 0x2006) 4"
  by (simp_all add: demo_cpu_def apart_def CONTEXT_SIZE_def fiber_sp_def ALIGN_STACK_PTR_def)

theorem context_round_trip_witness:
  "resumed (exec set_context ((exec get_context demo_cpu)\<lparr>regs := (\<lambda>r. if r = R0 then 0x1000 else 9)\<rparr>)) = replicate 11 7"
proof -
  have "saved demo_cpu = replicate 11 7" by (simp add: saved_def kept_regs_def demo_cpu_def numeral_eq_Suc)
  then show ?thesis
    using context_round_trip [of get_context set_context "(exec get_context demo_cpu)\<lparr>regs := (\<lambda>r. if r = R0 then 0x1000 else 9)\<rparr>" demo_cpu]
    by (simp add: demo_cpu_def)
qed

theorem fiber_life_witness:
  "regs (exec swap_context demo_cpu) PC = 0x8000 \<and>
   resumed (exec set_context_from_stack_address (exec swap_context demo_cpu)) = saved demo_cpu"
  using fiber_life [OF demo_cpu_ok] by simp

theorem set_context_argument_witness: "regs (exec set_context demo_cpu) R0 = 0x102C"
  using set_context_argument [OF demo_cpu_ok] by (simp add: demo_cpu_def CONTEXT_SIZE_def)

end
