(* ===== verification/Thread_Local.thy ===== *)
theory Thread_Local
  imports User_Library Assertion
begin

text \<open>
  Thread local variables, \<open>src/user/emutls.c\<close>: the compiler calls \<open>emutls_get_address\<close> with the control
  object of a variable, and gets the place of the running thread's copy, which is made on the
  first access out of one array that all threads share and that is only ever used up. \<open>space\<close> is the
  address of that array.
\<close>

section \<open>State\<close>

record tls =
  tls_arrays :: "size_t list list"  \<comment> \<open>\<open>address_arrays\<close>: a row per thread\<close>
  tls_ptr :: size_t                 \<comment> \<open>\<open>alloc_ptr\<close>\<close>
  tls_count :: size_t               \<comment> \<open>\<open>emutls_var_count\<close>\<close>

definition ALLOC_SPACE_SIZE :: size_t where "ALLOC_SPACE_SIZE = 256"
definition MAX_TLS_VARS :: size_t where "MAX_TLS_VARS = 3"

text \<open>The fields of a control object.\<close>

definition tls_size :: "mem \<Rightarrow> size_t \<Rightarrow> size_t" where "tls_size m control = load32 m control"
definition tls_index :: "mem \<Rightarrow> size_t \<Rightarrow> size_t" where "tls_index m control = load32 m (control + 8)"
definition tls_value :: "mem \<Rightarrow> size_t \<Rightarrow> size_t" where "tls_value m control = load32 m (control + 12)"

text \<open>The state before the first access.\<close>

definition tls_start :: "nat \<Rightarrow> size_t \<Rightarrow> tls" where
  "tls_start threads space = \<lparr>tls_arrays = replicate threads (replicate (unat MAX_TLS_VARS) NULL), tls_ptr = space, tls_count = 0\<rparr>"

text \<open>A cell of the arrays, for a thread and an index that start at 0 and 1.\<close>

definition in_arrays :: "tls \<Rightarrow> int \<Rightarrow> size_t \<Rightarrow> bool" where
  "in_arrays t tid index \<longleftrightarrow> 0 \<le> tid \<and> tid < int (length (tls_arrays t)) \<and> index - 1 < MAX_TLS_VARS"

definition tls_cell :: "tls \<Rightarrow> int \<Rightarrow> size_t \<Rightarrow> size_t" where
  "tls_cell t tid index = tls_arrays t ! nat tid ! unat (index - 1)"

definition set_tls_cell :: "int \<Rightarrow> size_t \<Rightarrow> size_t \<Rightarrow> tls \<Rightarrow> tls" where
  "set_tls_cell tid index a t =
     t\<lparr>tls_arrays := (tls_arrays t)[nat tid := (tls_arrays t ! nat tid)[unat (index - 1) := a]]\<rparr>"

section \<open>Operations\<close>

definition emutls_init_var :: "kernel_call \<Rightarrow> size_t \<Rightarrow> size_t \<Rightarrow> tls \<Rightarrow> kstate \<Rightarrow> tls kresult" where
  "emutls_init_var sys space control t s =
     (let new_ptr = tls_ptr t + tls_size (memory s) control in
      if new_ptr > space + ALLOC_SPACE_SIZE then
        obind (k_printf (''Ran out of TLS alloc space!'' @ [CHR 0x0A]) [] s) (\<lambda>_ s.
        obind (exit sys 1 s) (\<lambda>_ s. Ret t s))
      else
        (let s = set_memory (memcpy (memory s) (tls_ptr t) (tls_value (memory s) control) (tls_size (memory s) control)) s;
             index = tls_index (memory s) control in
         if \<not> in_arrays t (get_thread_id s) index then Undef
         else Ret ((set_tls_cell (get_thread_id s) index (tls_ptr t) t)\<lparr>tls_ptr := new_ptr\<rparr>) s))"

definition emutls_get_index :: "kernel_call \<Rightarrow> size_t \<Rightarrow> tls \<Rightarrow> kstate \<Rightarrow> (size_t \<times> tls) kresult" where
  "emutls_get_index sys control t s =
     (if tls_index (memory s) control = 0 then
        (let s = set_memory (store32 (memory s) (control + 8) (1 + tls_count t)) s;
             t = t\<lparr>tls_count := tls_count t + 1\<rparr> in
         obind (if tls_count t > MAX_TLS_VARS
                then obind (k_printf (''Too many TLS vars!'' @ [CHR 0x0A]) [] s) (\<lambda>_ s. exit sys 1 s)
                else Ret () s) (\<lambda>_ s.
         Ret (tls_index (memory s) control, t) s))
      else Ret (tls_index (memory s) control, t) s)"

definition emutls_get_var_addr :: "kernel_call \<Rightarrow> size_t \<Rightarrow> size_t \<Rightarrow> tls \<Rightarrow> kstate \<Rightarrow> (size_t \<times> tls) kresult" where
  "emutls_get_var_addr sys space control t s =
     obind (emutls_get_index sys control t s) (\<lambda>(index, t) s.
     if \<not> in_arrays t (get_thread_id s) index then Undef
     else
       (let var_ptr = tls_cell t (get_thread_id s) index in
        obind (if var_ptr = NULL then emutls_init_var sys space control t s else Ret t s) (\<lambda>t s.
        Ret (tls_cell t (get_thread_id s) index, t) s)))"

definition emutls_get_address :: "kernel_call \<Rightarrow> size_t \<Rightarrow> size_t \<Rightarrow> tls \<Rightarrow> kstate \<Rightarrow> (size_t \<times> tls) kresult" where
  "emutls_get_address sys space control t s = emutls_get_var_addr sys space control t s"

section \<open>Invariant\<close>

text \<open>The variables of a program: control objects that share no bytes with each other or with the array.\<close>

definition controls_ok :: "size_t \<Rightarrow> size_t list \<Rightarrow> bool" where
  "controls_ok space cs \<longleftrightarrow> 0 < space \<and> unat space + 256 < 2 ^ 32 \<and>
     (\<forall>c \<in> set cs. apart c 16 space 256) \<and> (\<forall>c \<in> set cs. \<forall>d \<in> set cs. c \<noteq> d \<longrightarrow> apart c 16 d 16)"

text \<open>\<open>vars\<close> are the variables that have been accessed, in the order of their indices.\<close>

definition tls_shape :: "size_t \<Rightarrow> size_t list \<Rightarrow> tls \<Rightarrow> bool" where
  "tls_shape space vars t \<longleftrightarrow> distinct vars \<and> length vars \<le> 3 \<and> tls_count t = of_nat (length vars) \<and>
     (\<forall>row \<in> set (tls_arrays t). length row = 3) \<and>
     unat space \<le> unat (tls_ptr t) \<and> unat (tls_ptr t) \<le> unat space + 256"

definition indices_ok :: "size_t list \<Rightarrow> size_t list \<Rightarrow> mem \<Rightarrow> bool" where
  "indices_ok cs vars m \<longleftrightarrow> set vars \<subseteq> set cs \<and> (\<forall>i < length vars. tls_index m (vars ! i) = of_nat (Suc i)) \<and>
     (\<forall>c \<in> set cs - set vars. tls_index m c = 0)"

text \<open>The copies are in the used part of the array, and no two overlap.\<close>

abbreviation cell :: "tls \<Rightarrow> nat \<Rightarrow> nat \<Rightarrow> size_t" where
  "cell t i k \<equiv> tls_arrays t ! i ! k"

definition cells_in :: "size_t \<Rightarrow> size_t list \<Rightarrow> tls \<Rightarrow> mem \<Rightarrow> bool" where
  "cells_in space vars t m \<longleftrightarrow> (\<forall>i < length (tls_arrays t). \<forall>k < 3. cell t i k \<noteq> NULL \<longrightarrow>
     k < length vars \<and> unat space \<le> unat (cell t i k) \<and>
     unat (cell t i k) + unat (tls_size m (vars ! k)) \<le> unat (tls_ptr t))"

definition cells_apart :: "size_t list \<Rightarrow> tls \<Rightarrow> mem \<Rightarrow> bool" where
  "cells_apart vars t m \<longleftrightarrow> (\<forall>i < length (tls_arrays t). \<forall>j < length (tls_arrays t). \<forall>k < 3. \<forall>l < 3.
     (i, k) \<noteq> (j, l) \<longrightarrow> cell t i k \<noteq> NULL \<longrightarrow> cell t j l \<noteq> NULL \<longrightarrow>
     unat (cell t i k) + unat (tls_size m (vars ! k)) \<le> unat (cell t j l) \<or>
     unat (cell t j l) + unat (tls_size m (vars ! l)) \<le> unat (cell t i k))"

text \<open>The sizes are reasonable, and the initial values are outside the array.\<close>

definition values_ok :: "size_t \<Rightarrow> size_t list \<Rightarrow> mem \<Rightarrow> bool" where
  "values_ok space cs m \<longleftrightarrow> (\<forall>c \<in> set cs. unat space + 256 + unat (tls_size m c) < 2 ^ 32 \<and>
     apart (tls_value m c) (unat (tls_size m c)) space 256 \<and>
     (\<forall>d \<in> set cs. apart d 16 (tls_value m c) (unat (tls_size m c))))"

definition tls_ok :: "size_t \<Rightarrow> size_t list \<Rightarrow> size_t list \<Rightarrow> tls \<Rightarrow> mem \<Rightarrow> bool" where
  "tls_ok space cs vars t m \<longleftrightarrow> controls_ok space cs \<and> values_ok space cs m \<and> tls_shape space vars t \<and>
     indices_ok cs vars m \<and> cells_in space vars t m \<and> cells_apart vars t m"

lemma tls_ok_cong:
  assumes "\<And>c. c \<in> set cs \<Longrightarrow> tls_size m' c = tls_size m c \<and> tls_index m' c = tls_index m c \<and> tls_value m' c = tls_value m c"
    and "tls_ok space cs vars t m"
  shows "tls_ok space cs vars t m'"
proof -
  have sub: "k < length vars \<Longrightarrow> vars ! k \<in> set cs" for k
    using assms(2) nth_mem [of k vars] by (auto simp: tls_ok_def indices_ok_def)
  have in_vars: "k < length vars" if "i < length (tls_arrays t)" "k < 3" "cell t i k \<noteq> NULL" for i k
    using assms(2) that by (auto simp: tls_ok_def cells_in_def)
  have size: "tls_size m' (vars ! k) = tls_size m (vars ! k)"
    if "i < length (tls_arrays t)" "k < 3" "cell t i k \<noteq> NULL" for i k
    using assms(1) sub in_vars that by blast
  have "cells_in space vars t m'"
    using assms(2) size unfolding tls_ok_def cells_in_def by metis
  moreover have "cells_apart vars t m'"
    using assms(2) size unfolding tls_ok_def cells_apart_def by metis
  moreover have "indices_ok cs vars m'" "values_ok space cs m'"
    using assms sub by (auto simp: tls_ok_def indices_ok_def values_ok_def)
  ultimately show ?thesis using assms(2) by (simp add: tls_ok_def)
qed

lemma controls_apart:
  assumes "controls_ok space cs" and "c \<in> set cs" and "d \<in> set cs" and "x + 4 \<le> 16" and "c \<noteq> d \<or> x \<noteq> 8" and "x = 0 \<or> x = 8 \<or> x = 12"
  shows "apart (c + 8) 4 (d + of_nat x) 4"
proof (cases "c = d")
  case True
  then have x: "x = 0 \<or> x = 12" using assms by auto
  then show ?thesis using apart_offsets [of 0 4 8 4 c] apart_offsets [of 8 4 12 4 c] True by auto
next
  case False
  then have "apart d 16 c 16" using assms by (auto simp: controls_ok_def)
  then have "apart d 16 (c + of_nat 8) 4" by (rule apart_part) simp_all
  then have "apart (c + 8) 4 d 16" by (simp add: apart_commute)
  then show ?thesis by (rule apart_part) (use assms(4) in linarith, simp)
qed

text \<open>Giving a variable its index.\<close>

lemma fields_index:
  fixes m :: mem and c v :: size_t
  assumes "controls_ok space cs" and "c \<in> set cs" and "d \<in> set cs"
  defines "m' \<equiv> store32 m (c + 8) v"
  shows "tls_size m' d = tls_size m d" and "tls_value m' d = tls_value m d"
    and "tls_index m' d = (if d = c then v else tls_index m d)"
  using controls_apart [OF assms(1-3), of 0] controls_apart [OF assms(1-3), of 8] controls_apart [OF assms(1-3), of 12]
  by (auto simp: m'_def tls_size_def tls_value_def tls_index_def load32_store32_same load32_store32_apart)

lemma new_index_ok:
  assumes "tls_ok space cs vars t m" and "c \<in> set cs" and "c \<notin> set vars" and "length vars < 3"
  shows "tls_ok space cs (vars @ [c]) (t\<lparr>tls_count := tls_count t + 1\<rparr>) (store32 m (c + 8) (of_nat (Suc (length vars))))"
proof -
  let ?m = "store32 m (c + 8) (of_nat (Suc (length vars)))" and ?t = "t\<lparr>tls_count := tls_count t + 1\<rparr>"
  have ok: "controls_ok space cs" "values_ok space cs m" "tls_shape space vars t" "indices_ok cs vars m"
      "cells_in space vars t m" "cells_apart vars t m"
    using assms(1) by (simp_all add: tls_ok_def)
  note f = fields_index [OF ok(1) assms(2)]
  have sub: "k < length vars \<Longrightarrow> vars ! k \<in> set cs" for k
    using ok(4) nth_mem [of k vars] by (auto simp: indices_ok_def)
  have in_vars: "k < length vars" if "i < length (tls_arrays t)" "k < 3" "cell t i k \<noteq> NULL" for i k
    using ok(5) that by (auto simp: cells_in_def)
  have size: "tls_size ?m ((vars @ [c]) ! k) = tls_size m (vars ! k)"
    if "i < length (tls_arrays t)" "k < 3" "cell t i k \<noteq> NULL" for i k
    using f(1) [OF sub] in_vars [OF that] by (simp add: nth_append)
  have "values_ok space cs ?m" using ok(2) by (auto simp: values_ok_def f)
  moreover have "tls_shape space (vars @ [c]) ?t" using ok(3) assms(3,4) by (auto simp: tls_shape_def)
  moreover have "indices_ok cs (vars @ [c]) ?m"
    using ok(4) assms(2,3) sub by (auto simp: indices_ok_def nth_append less_Suc_eq f)
  moreover have "cells_in space (vars @ [c]) ?t ?m"
    using ok(5) size in_vars unfolding cells_in_def by (auto intro: less_SucI)
  moreover have "cells_apart (vars @ [c]) ?t ?m"
    using ok(6) size unfolding cells_apart_def by simp
  ultimately show ?thesis using ok(1) by (simp add: tls_ok_def)
qed

section \<open>Giving a thread its copy\<close>

lemma small_index:
  assumes "k < 3"
  shows "(of_nat (Suc k) :: size_t) \<noteq> 0" and "(of_nat (Suc k) :: size_t) - 1 = of_nat k" and "unat (of_nat k :: size_t) = k"
    and "(of_nat k :: size_t) < MAX_TLS_VARS"
proof -
  have "k = 0 \<or> k = 1 \<or> k = 2" using assms by auto
  then show "(of_nat (Suc k) :: size_t) \<noteq> 0" and "(of_nat (Suc k) :: size_t) - 1 = of_nat k" and "unat (of_nat k :: size_t) = k"
    and "(of_nat k :: size_t) < MAX_TLS_VARS"
    by (auto simp: MAX_TLS_VARS_def)
qed

lemma tls_okD:
  assumes "tls_ok space cs vars t m"
  shows "controls_ok space cs" "values_ok space cs m" "tls_shape space vars t" "indices_ok cs vars m"
    "cells_in space vars t m" "cells_apart vars t m"
  using assms by (simp_all add: tls_ok_def)

text \<open>A place in the free part of the array.\<close>

lemma free_apart:
  assumes "tls_ok space cs vars t m" and "apart a n space 256" and "unat (tls_ptr t) + k \<le> unat space + 256" and "0 < k"
  shows "apart a n (tls_ptr t) k"
proof -
  have "unat space \<le> unat (tls_ptr t)" using tls_okD(3) [OF assms(1)] by (simp add: tls_shape_def)
  then have "tls_ptr t = space + of_nat (unat (tls_ptr t) - unat space)" by (simp add: of_nat_diff)
  moreover have "apart a n (space + of_nat (unat (tls_ptr t) - unat space)) k"
    using assms(3,4) \<open>unat space \<le> unat (tls_ptr t)\<close> by (intro apart_part [OF assms(2)]) auto
  ultimately show ?thesis by simp
qed

lemma fields_copy:
  assumes "tls_ok space cs vars t m" and "d \<in> set cs" and "unat (tls_ptr t) + length bs \<le> unat space + 256"
  shows "tls_size (store_bytes m (tls_ptr t) bs) d = tls_size m d \<and> tls_index (store_bytes m (tls_ptr t) bs) d = tls_index m d \<and>
    tls_value (store_bytes m (tls_ptr t) bs) d = tls_value m d"
proof (cases "bs = []")
  case False
  have "apart d 16 space 256" using tls_okD(1) [OF assms(1)] assms(2) by (simp add: controls_ok_def)
  then have "apart (tls_ptr t) (length bs) d 16"
    using free_apart [OF assms(1) _ assms(3)] False by (simp add: apart_commute)
  then have "apart (tls_ptr t) (length bs) (d + of_nat x) 4" if "x + 4 \<le> 16" for x
    by (rule apart_part) (use that in simp_all)
  from this [of 0] this [of 8] this [of 12] show ?thesis
    by (simp add: tls_size_def tls_index_def tls_value_def load32_store_bytes_apart)
qed simp

text \<open>The state of the arrays and the memory after the first access.\<close>

definition fresh_copy :: "nat \<Rightarrow> nat \<Rightarrow> size_t \<Rightarrow> tls \<Rightarrow> tls" where
  "fresh_copy i k n t = t\<lparr>tls_arrays := (tls_arrays t)[i := (tls_arrays t ! i)[k := tls_ptr t]], tls_ptr := tls_ptr t + n\<rparr>"

definition copied :: "size_t \<Rightarrow> tls \<Rightarrow> mem \<Rightarrow> mem" where
  "copied c t m = store_bytes m (tls_ptr t) (load_bytes m (tls_value m c) (unat (tls_size m c)))"

lemma fresh_copy_ok:
  assumes "tls_ok space cs vars t m" and "k < length vars" and "i < length (tls_arrays t)"
    and "unat (tls_ptr t) + unat (tls_size m (vars ! k)) \<le> unat space + 256"
  shows "tls_ok space cs vars (fresh_copy i k (tls_size m (vars ! k)) t) m"
proof -
  let ?n = "tls_size m (vars ! k)" and ?t = "fresh_copy i k (tls_size m (vars ! k)) t"
  note ok = tls_okD [OF assms(1)]
  have k: "k < 3" using ok(3) assms(2) by (simp add: tls_shape_def)
  have "unat space + 256 < 2 ^ 32" using ok(1) by (simp add: controls_ok_def)
  then have ptr: "unat (tls_ptr ?t) = unat (tls_ptr t) + unat ?n"
    using assms(4) by (simp add: fresh_copy_def unat_add32)
  have row: "j < length (tls_arrays t) \<Longrightarrow> length (tls_arrays t ! j) = 3" for j
    using ok(3) by (simp add: tls_shape_def)
  have new: "cell ?t j l = (if (j, l) = (i, k) then tls_ptr t else cell t j l)" if "j < length (tls_arrays t)" "l < 3" for j l
    using that row by (cases "i = j") (auto simp: fresh_copy_def)
  have "tls_shape space vars ?t"
    using ok(3) ptr assms(4) row [OF assms(3)] by (auto simp: tls_shape_def fresh_copy_def dest!: set_update_subset_insert [THEN subsetD])
  moreover have len: "length (tls_arrays ?t) = length (tls_arrays t)" by (simp add: fresh_copy_def)
  moreover have inside: "l < length vars" "unat space \<le> unat (cell t j l)"
      "unat (cell t j l) + unat (tls_size m (vars ! l)) \<le> unat (tls_ptr t)"
    if "j < length (tls_arrays t)" "l < 3" "cell t j l \<noteq> NULL" for j l
    using ok(5) that by (auto simp: cells_in_def)
  have "cells_in space vars ?t m"
    unfolding cells_in_def len
  proof (intro allI impI)
    fix j l assume j: "j < length (tls_arrays t)" "l < 3" and "cell ?t j l \<noteq> NULL"
    then show "l < length vars \<and> unat space \<le> unat (cell ?t j l) \<and>
        unat (cell ?t j l) + unat (tls_size m (vars ! l)) \<le> unat (tls_ptr ?t)"
      using inside [OF j] ok(3) assms(2) by (auto simp: new [OF j] ptr tls_shape_def split: if_splits)
  qed
  moreover have "cells_apart vars ?t m"
    unfolding cells_apart_def len
  proof (intro allI impI)
    fix j j' l l' assume j: "j < length (tls_arrays t)" "j' < length (tls_arrays t)" "l < 3" "l' < 3" and ne: "(j, l) \<noteq> (j', l')"
      and "cell ?t j l \<noteq> NULL" "cell ?t j' l' \<noteq> NULL"
    then show "unat (cell ?t j l) + unat (tls_size m (vars ! l)) \<le> unat (cell ?t j' l') \<or>
        unat (cell ?t j' l') + unat (tls_size m (vars ! l')) \<le> unat (cell ?t j l)"
      using inside(3) [OF j(1,3)] inside(3) [OF j(2,4)] ok(6)
      by (auto simp: new [OF j(1,3)] new [OF j(2,4)] cells_apart_def split: if_splits)
  qed
  ultimately show ?thesis using ok by (simp add: tls_ok_def)
qed

lemma copied_ok:
  assumes "tls_ok space cs vars t m" and "k < length vars" and "i < length (tls_arrays t)"
    and "unat (tls_ptr t) + unat (tls_size m (vars ! k)) \<le> unat space + 256"
  shows "tls_ok space cs vars (fresh_copy i k (tls_size m (vars ! k)) t) (copied (vars ! k) t m)"
  using fields_copy [OF assms(1)] assms(4) by (intro tls_ok_cong [OF _ fresh_copy_ok [OF assms]]) (simp add: copied_def)

lemma known_index:
  assumes "tls_ok space cs vars t m" and "k < length vars"
  shows "k < 3" and "vars ! k \<in> set cs" and "tls_index m (vars ! k) = of_nat (Suc k)"
  using tls_okD(3,4) [OF assms(1)] assms(2) nth_mem [OF assms(2)] by (auto simp: tls_shape_def indices_ok_def)

lemma init_var_copies:
  assumes "tls_ok space cs vars t (memory s)" and "k < length vars" and "i < length (tls_arrays t)"
    and "get_thread_id s = int i" and "c = vars ! k" and "n = tls_size (memory s) c"
    and "unat (tls_ptr t) + unat n \<le> unat space + 256"
  shows "emutls_init_var sys space c t s = Ret (fresh_copy i k n t) (set_memory (copied c t (memory s)) s)"
proof -
  let ?m = "memory s" and ?ptr = "tls_ptr t"
  note ok = tls_okD [OF assms(1)] and k = known_index [OF assms(1,2), folded assms(5)]
  have "unat space + 256 < 2 ^ 32" using ok(1) by (simp add: controls_ok_def)
  then have room: "\<not> ?ptr + n > space + ALLOC_SPACE_SIZE"
    using assms(7) by (simp add: word_less_nat_alt ALLOC_SPACE_SIZE_def unat_add32)
  have "memcpy ?m ?ptr (tls_value ?m c) n = copied c t ?m"
  proof (cases "n = 0")
    case False
    then have "apart (tls_value ?m c) (unat n) ?ptr (unat n)"
      using ok(2) k(2) assms(6,7) by (intro free_apart [OF assms(1)]) (auto simp: values_ok_def unat_gt_0)
    then show ?thesis using memcpy_apart assms(6) by (simp add: copied_def)
  qed (use assms(6) in \<open>simp add: copied_def memcpy_eq\<close>)
  moreover have "tls_index (copied c t ?m) c = of_nat (Suc k)"
    using fields_copy [OF assms(1) k(2)] assms(6,7) k(3) by (simp add: copied_def)
  moreover have "in_arrays t (int i) (of_nat (Suc k))"
    using assms(3) small_index [OF k(1)] by (simp add: in_arrays_def del: of_nat_Suc)
  ultimately show ?thesis
    using room assms(4) small_index [OF k(1)]
    by (simp add: emutls_init_var_def Let_def assms(6) [symmetric] get_thread_id_def set_tls_cell_def fresh_copy_def del: of_nat_Suc)
qed

lemma init_var_full:
  assumes "tls_ok space cs vars t (memory s)" and "c \<in> set cs"
    and "\<not> unat (tls_ptr t) + unat (tls_size (memory s) c) \<le> unat space + 256"
    and "exits_on_call sys"
  shows "\<exists>s'. emutls_init_var sys space c t s = Exit 1 s'"
proof -
  note ok = tls_okD [OF assms(1)]
  have "unat space + 256 + unat (tls_size (memory s) c) < 2 ^ 32" using ok(2) assms(2) by (simp add: values_ok_def)
  moreover have "unat (tls_ptr t) \<le> unat space + 256" using ok(3) by (simp add: tls_shape_def)
  ultimately have "tls_ptr t + tls_size (memory s) c > space + ALLOC_SPACE_SIZE"
    using assms(3) by (simp add: word_less_nat_alt ALLOC_SPACE_SIZE_def unat_add32)
  then show ?thesis
    by (simp add: emutls_init_var_def Let_def k_printf_def plain_text exit_def as_unit_def assms(4) [unfolded exits_on_call_def])
qed

text \<open>Finding the index of a variable.\<close>

lemma get_index_known:
  assumes "tls_ok space cs vars t (memory s)" and "k < length vars"
  shows "emutls_get_index sys (vars ! k) t s = Ret (of_nat (Suc k), t) s"
  using known_index [OF assms] small_index(1) [of k] by (simp add: emutls_get_index_def)

lemma get_index_new:
  assumes "tls_ok space cs vars t (memory s)" and "c \<in> set cs" and "c \<notin> set vars" and "length vars < 3"
  shows "emutls_get_index sys c t s = Ret (of_nat (Suc (length vars)), t\<lparr>tls_count := tls_count t + 1\<rparr>)
    (set_memory (store32 (memory s) (c + 8) (of_nat (Suc (length vars)))) s)"
proof -
  note ok = tls_okD [OF assms(1)]
  have "tls_index (memory s) c = 0" using ok(4) assms(2,3) by (simp add: indices_ok_def)
  moreover have count: "tls_count t = of_nat (length vars)" using ok(3) by (simp add: tls_shape_def)
  moreover have "\<not> tls_count t + 1 > MAX_TLS_VARS"
  proof -
    have "length vars = 0 \<or> length vars = 1 \<or> length vars = 2" using assms(4) by linarith
    then show ?thesis by (auto simp: count MAX_TLS_VARS_def)
  qed
  ultimately show ?thesis
    by (simp add: emutls_get_index_def tls_index_def load32_store32_same)
qed

lemma get_index_full:
  assumes "tls_ok space cs vars t (memory s)" and "c \<in> set cs" and "c \<notin> set vars" and "\<not> length vars < 3"
    and "exits_on_call sys"
  shows "\<exists>s'. emutls_get_index sys c t s = Exit 1 s'"
proof -
  note ok = tls_okD [OF assms(1)]
  have "tls_index (memory s) c = 0" using ok(4) assms(2,3) by (simp add: indices_ok_def)
  moreover have "tls_count t = 3" using ok(3) assms(4) by (simp add: tls_shape_def le_antisym)
  ultimately show ?thesis
    by (simp add: emutls_get_index_def Let_def MAX_TLS_VARS_def k_printf_def plain_text exit_def as_unit_def assms(5) [unfolded exits_on_call_def])
qed

section \<open>The arrays as a map\<close>

text \<open>The copies there are: for a thread and a variable the place of the copy.\<close>

definition tls_map :: "size_t list \<Rightarrow> tls \<Rightarrow> nat \<Rightarrow> size_t \<Rightarrow> size_t option" where
  "tls_map vars t i c =
     (case map_of (zip vars (tls_arrays t ! i)) c of
        Some a \<Rightarrow> if a = NULL then None else Some a
      | None \<Rightarrow> None)"

lemma tls_map_nth:
  assumes "tls_shape space vars t" and "k < length vars" and "i < length (tls_arrays t)"
  shows "tls_map vars t i (vars ! k) = (if cell t i k = NULL then None else Some (cell t i k))"
proof -
  have "length (tls_arrays t ! i) = 3" using assms(1,3) by (simp add: tls_shape_def)
  then have "map_of (zip vars (tls_arrays t ! i)) (vars ! k) = Some (cell t i k)"
    using assms(1,2) by (intro map_of_is_SomeI) (auto simp: tls_shape_def map_fst_zip_take set_zip)
  then show ?thesis by (simp add: tls_map_def)
qed

lemma tls_map_other: "c \<notin> set vars \<Longrightarrow> tls_map vars t i c = None"
  by (auto simp: tls_map_def split: option.split dest!: map_of_SomeD set_zip_leftD)

lemma tls_map_fresh:
  assumes "tls_ok space cs vars t m" and "k < length vars" and "i < length (tls_arrays t)" and "j < length (tls_arrays t)"
    and "tls_shape space vars (fresh_copy i k n t)"
  shows "tls_map vars (fresh_copy i k n t) j d =
    (if j = i \<and> d = vars ! k then Some (tls_ptr t) else tls_map vars t j d)"
proof (cases "d \<in> set vars")
  case True
  then obtain l where l: "l < length vars" "d = vars ! l" by (auto simp: in_set_conv_nth)
  note ok = tls_okD [OF assms(1)]
  have "distinct vars" "length (tls_arrays t ! i) = 3" "length vars \<le> 3" using ok(3) assms(3) by (auto simp: tls_shape_def)
  moreover have "tls_ptr t \<noteq> NULL" using ok(1,3) by (auto simp: controls_ok_def tls_shape_def word_less_nat_alt)
  moreover have "j < length (tls_arrays (fresh_copy i k n t))" using assms(4) by (simp add: fresh_copy_def)
  ultimately show ?thesis
    using l assms(2-4) tls_map_nth [OF assms(5) l(1), of j] tls_map_nth [OF ok(3) l(1) assms(4)]
    by (cases "i = j") (auto simp: fresh_copy_def nth_eq_iff_index_eq nth_list_update)
next
  case False
  then show ?thesis using assms(2) nth_mem [OF assms(2)] by (auto simp: tls_map_other)
qed

lemma tls_map_new_var:
  assumes "tls_shape space vars t" and "c \<notin> set vars" and "tls_shape space (vars @ [c]) t'" and "tls_arrays t' = tls_arrays t"
    and "cells_in space vars t m" and "i < length (tls_arrays t)"
  shows "tls_map (vars @ [c]) t' i d = tls_map vars t i d"
proof (cases "d \<in> set (vars @ [c])")
  case True
  then obtain l where l: "l < Suc (length vars)" "d = (vars @ [c]) ! l" unfolding in_set_conv_nth by auto
  have "l < 3" using l assms(3) by (simp add: tls_shape_def)
  then have "cell t i l = NULL" if "l = length vars" using assms(5,6) that by (auto simp: cells_in_def)
  moreover have "tls_map (vars @ [c]) t' i d = (if cell t i l = NULL then None else Some (cell t i l))"
    using tls_map_nth [OF assms(3), of l i] l assms(4,6) by simp
  ultimately show ?thesis
    using l tls_map_nth [OF assms(1), of l i] assms(2,6) by (cases "l = length vars") (auto simp: nth_append tls_map_other)
qed (simp add: tls_map_other)

section \<open>One access\<close>

lemma access_known:
  assumes "tls_ok space cs vars t (memory s)" and "k < length vars" and "get_thread_id s = int i" and "i < length (tls_arrays t)"
  shows "emutls_get_address sys space (vars ! k) t s =
    obind (if cell t i k = NULL then emutls_init_var sys space (vars ! k) t s else Ret t s) (\<lambda>t s.
      Ret (tls_cell t (get_thread_id s) (of_nat (Suc k)), t) s)"
proof -
  note k = known_index(1) [OF assms(1,2)]
  have "in_arrays t (int i) (of_nat (Suc k))" "tls_cell t (int i) (of_nat (Suc k)) = cell t i k"
    using assms(4) small_index [OF k] by (simp_all add: in_arrays_def tls_cell_def del: of_nat_Suc)
  then show ?thesis
    by (simp add: emutls_get_address_def emutls_get_var_addr_def get_index_known [OF assms(1,2)] assms(3) Let_def del: of_nat_Suc)
qed

text \<open>The state after a first access that has room.\<close>

lemma access_first:
  assumes "tls_ok space cs vars t (memory s)" and "k < length vars" and "get_thread_id s = int i" and "i < length (tls_arrays t)"
    and "cell t i k = NULL" and "n = tls_size (memory s) (vars ! k)" and "unat (tls_ptr t) + unat n \<le> unat space + 256"
  shows "emutls_get_address sys space (vars ! k) t s =
    Ret (tls_ptr t, fresh_copy i k n t) (set_memory (copied (vars ! k) t (memory s)) s)"
proof -
  note k = known_index(1) [OF assms(1,2)]
  have "length (tls_arrays t ! i) = 3" using tls_okD(3) [OF assms(1)] assms(4) by (simp add: tls_shape_def)
  then have "tls_cell (fresh_copy i k n t) (int i) (of_nat (Suc k)) = tls_ptr t"
    using assms(4) k small_index [OF k] by (simp add: tls_cell_def fresh_copy_def del: of_nat_Suc)
  then show ?thesis
    using access_known [OF assms(1-4), of sys] init_var_copies [OF assms(1,2,4,3) refl assms(6,7), of sys] assms(5)
    by (simp add: get_thread_id_def assms(3) [unfolded get_thread_id_def] del: of_nat_Suc)
qed

text \<open>The first access to a variable by any thread is the one after it has got its index.\<close>

lemma access_new:
  assumes "tls_ok space cs vars t (memory s)" and "c \<in> set cs" and "c \<notin> set vars" and "length vars < 3"
  shows "emutls_get_address sys space c t s =
    emutls_get_address sys space c (t\<lparr>tls_count := tls_count t + 1\<rparr>)
      (set_memory (store32 (memory s) (c + 8) (of_nat (Suc (length vars)))) s)"
proof -
  let ?t = "t\<lparr>tls_count := tls_count t + 1\<rparr>" and ?s = "set_memory (store32 (memory s) (c + 8) (of_nat (Suc (length vars)))) s"
  have "tls_ok space cs (vars @ [c]) ?t (memory ?s)" using new_index_ok [OF assms] by simp
  then have "emutls_get_index sys c ?t ?s = Ret (of_nat (Suc (length vars)), ?t) ?s"
    using get_index_known [of space cs "vars @ [c]" ?t ?s "length vars"] by simp
  then show ?thesis
    unfolding emutls_get_address_def emutls_get_var_addr_def get_index_new [OF assms] by simp
qed

text \<open>What a first access leaves behind.\<close>

definition made_copy :: "size_t \<Rightarrow> size_t list \<Rightarrow> size_t list \<Rightarrow> nat \<Rightarrow> size_t \<Rightarrow> tls \<Rightarrow> kstate \<Rightarrow> tls \<Rightarrow> kstate \<Rightarrow> bool" where
  "made_copy space cs vars i c t s t' s' \<longleftrightarrow>
     (let n = unat (tls_size (memory s) c); vars' = (if c \<in> set vars then vars else vars @ [c]) in
      tls_ok space cs vars' t' (memory s') \<and>
      (\<forall>j < length (tls_arrays t). \<forall>d. tls_map vars' t' j d =
         (if j = i \<and> d = c then Some (tls_ptr t) else tls_map vars t j d)) \<and>
      load_bytes (memory s') (tls_ptr t) n = load_bytes (memory s) (tls_value (memory s) c) n \<and>
      (\<forall>x. n \<le> unat (x - tls_ptr t) \<longrightarrow> 4 \<le> unat (x - (c + 8)) \<longrightarrow> memory s' x = memory s x))"

lemma made_copy_known:
  assumes "tls_ok space cs vars t (memory s)" and "k < length vars" and "i < length (tls_arrays t)"
    and "unat (tls_ptr t) + unat (tls_size (memory s) (vars ! k)) \<le> unat space + 256"
  shows "made_copy space cs vars i (vars ! k) t s (fresh_copy i k (tls_size (memory s) (vars ! k)) t)
    (set_memory (copied (vars ! k) t (memory s)) s)"
proof -
  let ?c = "vars ! k" and ?t = "fresh_copy i k (tls_size (memory s) (vars ! k)) t"
  have ok: "tls_ok space cs vars ?t (copied ?c t (memory s))" by (rule copied_ok [OF assms])
  have "load_bytes (copied ?c t (memory s)) (tls_ptr t) n = load_bytes (memory s) (tls_value (memory s) ?c) n"
    if "n = unat (tls_size (memory s) ?c)" for n
    unfolding copied_def that by (rule load_store_bytes_same) (simp_all add: unat_lt32 less_imp_le)
  moreover have "copied ?c t (memory s) x = memory s x" if "unat (tls_size (memory s) ?c) \<le> unat (x - tls_ptr t)" for x
    using that by (simp add: copied_def store_bytes_def)
  ultimately show ?thesis
    using ok tls_map_fresh [OF assms(1-3) _ tls_okD(3) [OF ok]] assms(2) by (simp add: made_copy_def Let_def)
qed

lemma made_copy_new:
  assumes "tls_ok space cs vars t (memory s)" and "c \<in> set cs" and "c \<notin> set vars" and "length vars < 3" and "i < length (tls_arrays t)"
    and "t1 = t\<lparr>tls_count := tls_count t + 1\<rparr>" and "s1 = set_memory (store32 (memory s) (c + 8) (of_nat (Suc (length vars)))) s"
    and "made_copy space cs (vars @ [c]) i c t1 s1 t' s'"
  shows "made_copy space cs vars i c t s t' s'"
proof -
  note ok = tls_okD [OF assms(1)] and ok1 = new_index_ok [OF assms(1-4), folded assms(6)]
  have f: "tls_size (memory s1) c = tls_size (memory s) c" "tls_value (memory s1) c = tls_value (memory s) c"
    using fields_index(1,2) [OF ok(1) assms(2,2)] by (simp_all add: assms(7))
  let ?n = "unat (tls_size (memory s) c)" and ?v = "tls_value (memory s) c"
  have "apart c 16 ?v ?n" using ok(2) assms(2) by (simp add: values_ok_def)
  then have "apart ?v ?n (c + of_nat 8) 4" by (intro apart_part [of ?v ?n c 16]) (simp_all add: apart_commute)
  then have "load_bytes (memory s1) ?v ?n = load_bytes (memory s) ?v ?n"
    by (simp add: assms(7) load_bytes_store32_apart apart_commute)
  moreover have "memory s1 x = memory s x" if "4 \<le> unat (x - (c + 8))" for x
    using that by (simp add: assms(7) store32_def store_bytes_def)
  moreover have "tls_map (vars @ [c]) t1 j d = tls_map vars t j d" if "j < length (tls_arrays t)" for j d
    using tls_map_new_var [OF ok(3) assms(3) tls_okD(3) [OF ok1] _ ok(5) that] by (simp add: assms(6))
  ultimately show ?thesis using assms(3,6,8) f by (simp add: made_copy_def Let_def)
qed

text \<open>All cases of an access.\<close>

lemma access_result:
  assumes "tls_ok space cs vars t (memory s)" and "c \<in> set cs" and "get_thread_id s = int i" and "i < length (tls_arrays t)"
    and "exits_on_call sys"
  shows "case tls_map vars t i c of Some a \<Rightarrow> emutls_get_address sys space c t s = Ret (a, t) s
    | None \<Rightarrow>
        if (c \<in> set vars \<or> length vars < 3) \<and> unat (tls_ptr t) + unat (tls_size (memory s) c) \<le> unat space + 256
        then \<exists>t' s'. emutls_get_address sys space c t s = Ret (tls_ptr t, t') s' \<and> made_copy space cs vars i c t s t' s'
        else \<exists>s'. emutls_get_address sys space c t s = Exit 1 s'"
proof (cases "c \<in> set vars")
  case True
  then obtain k where k: "k < length vars" "c = vars ! k" by (auto simp: in_set_conv_nth)
  note map = tls_map_nth [OF tls_okD(3) [OF assms(1)] k(1) assms(4)]
  have "tls_cell t (int i) (of_nat (Suc k)) = cell t i k"
    using small_index [OF known_index(1) [OF assms(1) k(1)]] by (simp add: tls_cell_def del: of_nat_Suc)
  then show ?thesis
    using access_known [OF assms(1) k(1) assms(3,4), of sys] access_first [OF assms(1) k(1) assms(3,4) _ refl, of sys]
      made_copy_known [OF assms(1) k(1) assms(4)] init_var_full [OF assms(1,2) _ assms(5)] assms(3) True
    by (auto simp: k(2) map simp del: of_nat_Suc)
next
  case False
  then have none: "tls_map vars t i c = None" by (rule tls_map_other)
  show ?thesis
  proof (cases "length vars < 3")
    case True
    define t1 where "t1 = t\<lparr>tls_count := tls_count t + 1\<rparr>"
    define s1 where "s1 = set_memory (store32 (memory s) (c + 8) (of_nat (Suc (length vars)))) s"
    have new: "emutls_get_address sys space c t s = emutls_get_address sys space c t1 s1"
      unfolding t1_def s1_def by (rule access_new [OF assms(1,2) False True])
    have ok: "tls_ok space cs (vars @ [c]) t1 (memory s1)"
      using new_index_ok [OF assms(1,2) False True] by (simp add: t1_def s1_def)
    have at: "length vars < length (vars @ [c])" "(vars @ [c]) ! length vars = c" by simp_all
    have id: "get_thread_id s1 = int i" "i < length (tls_arrays t1)" and ptr: "tls_ptr t1 = tls_ptr t"
      using assms(3,4) by (simp_all add: get_thread_id_def t1_def s1_def)
    have cell: "cell t1 i (length vars) = NULL"
      using tls_okD(5) [OF assms(1)] assms(4) True by (auto simp: cells_in_def t1_def)
    have size: "tls_size (memory s1) c = tls_size (memory s) c"
      using fields_index(1) [OF tls_okD(1) [OF assms(1)] assms(2,2)] by (simp add: s1_def)
    note first = access_first [OF ok at(1) id, unfolded at(2), OF cell refl, of sys, unfolded size ptr]
      and copy = made_copy_known [OF ok at(1) id(2), unfolded at(2) size ptr]
      and full = init_var_full [OF ok assms(2) _ assms(5), unfolded size ptr]
    show ?thesis
    proof (cases "unat (tls_ptr t) + unat (tls_size (memory s) c) \<le> unat space + 256")
      case room: True
      then show ?thesis
        using first made_copy_new [OF assms(1,2) False True assms(4) t1_def s1_def copy] by (auto simp: none new True)
    next
      case no_room: False
      from full [OF this] obtain s' where "emutls_init_var sys space c t1 s1 = Exit 1 s'" by blast
      then have "emutls_get_address sys space c t1 s1 = Exit 1 s'"
        using access_known [OF ok at(1) id, of sys, unfolded at(2)] cell by (simp del: of_nat_Suc)
      then show ?thesis using no_room by (simp add: none new)
    qed
  next
    case full: False
    then show ?thesis
      using get_index_full [OF assms(1,2) False full assms(5)] False
      by (auto simp: none emutls_get_address_def emutls_get_var_addr_def)
  qed
qed

section \<open>Any program\<close>

lemma tls_arrays_length:
  assumes "emutls_get_address sys space c t s = Ret (a, t') s'"
  shows "length (tls_arrays t') = length (tls_arrays t)"
proof -
  have init: "length (tls_arrays t') = length (tls_arrays t)" if "emutls_init_var sys space c t s = Ret t' s'" for t t' s s'
    using that by (auto simp: emutls_init_var_def Let_def obind_eq_Ret set_tls_cell_def split: if_splits)
  have index: "length (tls_arrays t') = length (tls_arrays t)" if "emutls_get_index sys c t s = Ret (i, t') s'" for i t t' s s'
    using that by (auto simp: emutls_get_index_def Let_def obind_eq_Ret split: if_splits)
  show ?thesis
    using assms by (auto simp: emutls_get_address_def emutls_get_var_addr_def obind_eq_Ret Let_def dest!: init index split: if_splits)
qed

text \<open>What can happen: threads access variables, and anything else in between that leaves the control
  objects as they are: user code, other threads, switches.\<close>

inductive tls_run :: "kernel_call \<Rightarrow> size_t \<Rightarrow> size_t list \<Rightarrow> nat \<Rightarrow> tls \<Rightarrow> kstate \<Rightarrow> bool"
  for sys :: kernel_call and space :: size_t and cs :: "size_t list" and threads :: nat where
  begin_run: "controls_ok space cs \<Longrightarrow> values_ok space cs (memory s) \<Longrightarrow> \<forall>c \<in> set cs. tls_index (memory s) c = 0 \<Longrightarrow>
    tls_run sys space cs threads (tls_start threads space) s"
| access: "tls_run sys space cs threads t s \<Longrightarrow> c \<in> set cs \<Longrightarrow> get_thread_id s = int i \<Longrightarrow> i < threads \<Longrightarrow>
    emutls_get_address sys space c t s = Ret (a, t') s' \<Longrightarrow> tls_run sys space cs threads t' s'"
| other: "tls_run sys space cs threads t s \<Longrightarrow> \<forall>c \<in> set cs. load_bytes (memory s') c 16 = load_bytes (memory s) c 16 \<Longrightarrow>
    tls_run sys space cs threads t s'"

lemma same_control:
  assumes "load_bytes m' c 16 = load_bytes m c 16"
  shows "tls_size m' c = tls_size m c \<and> tls_index m' c = tls_index m c \<and> tls_value m' c = tls_value m c"
proof -
  have part: "load_bytes m' (c + of_nat k) 4 = load_bytes m (c + of_nat k) 4" if "k + 4 \<le> 16" for k
  proof (rule nth_equalityI)
    fix i assume "i < length (load_bytes m' (c + of_nat k) 4)"
    then show "load_bytes m' (c + of_nat k) 4 ! i = load_bytes m (c + of_nat k) 4 ! i"
      using arg_cong [OF assms, of "\<lambda>bs. bs ! (k + i)"] that by (simp add: add.assoc)
  qed simp
  show ?thesis
    using part [of 0] part [of 8] part [of 12] by (simp add: tls_size_def tls_index_def tls_value_def load32_def)
qed

lemma tls_start_ok:
  assumes "controls_ok space cs" and "values_ok space cs m" and "\<forall>c \<in> set cs. tls_index m c = 0"
  shows "tls_ok space cs [] (tls_start threads space) m"
  using assms by (auto simp: tls_ok_def tls_shape_def tls_start_def indices_ok_def cells_in_def cells_apart_def MAX_TLS_VARS_def)

lemma tls_run_ok:
  assumes "tls_run sys space cs threads t s" and "exits_on_call sys"
  shows "length (tls_arrays t) = threads \<and> (\<exists>vars. tls_ok space cs vars t (memory s))"
  using assms(1)
proof (induction rule: tls_run.induct)
  case (begin_run s)
  then show ?case by (intro conjI exI [of _ "[]"] tls_start_ok) (simp_all add: tls_start_def)
next
  case (access t s c i a t' s')
  then obtain vars where ok: "tls_ok space cs vars t (memory s)" and len: "length (tls_arrays t) = threads" by blast
  note step = access_result [OF ok access.hyps(2,3) _ assms(2), unfolded len, OF access.hyps(4)]
  show ?case
  proof (cases "tls_map vars t i c")
    case (Some b)
    then show ?thesis using step access.hyps(5) ok len by auto
  next
    case None
    then have "made_copy space cs vars i c t s t' s'" using step access.hyps(5) by (auto split: if_splits)
    then have "\<exists>vars. tls_ok space cs vars t' (memory s')" by (auto simp: made_copy_def Let_def)
    moreover have "length (tls_arrays t') = length (tls_arrays t)" using tls_arrays_length [OF access.hyps(5)] .
    ultimately show ?thesis using len by simp
  qed
next
  case (other t s s')
  then show ?case using tls_ok_cong [OF same_control] by blast
qed

section \<open>Properties\<close>

text \<open>An access to a thread local variable gives a thread the place of its copy. When there is one nothing
  changes. On its first access, if there is room and the variable is one of the first three, the
  thread gets the next free part of the array, holding the initial value; no other thread and
  no other variable has this part, and they keep theirs. Otherwise the program ends.\<close>

theorem tls_access:
  assumes "tls_ok space cs vars t (memory s)" and "c \<in> set cs" and "get_thread_id s = int i" and "i < length (tls_arrays t)"
    and "exits_on_call sys"
  shows "case tls_map vars t i c of Some a \<Rightarrow> emutls_get_address sys space c t s = Ret (a, t) s
    | None \<Rightarrow>
        if (c \<in> set vars \<or> length vars < 3) \<and> unat (tls_ptr t) + unat (tls_size (memory s) c) \<le> unat space + 256
        then \<exists>t' s'. emutls_get_address sys space c t s = Ret (tls_ptr t, t') s' \<and> made_copy space cs vars i c t s t' s'
        else \<exists>s'. emutls_get_address sys space c t s = Exit 1 s'"
  using access_result [OF assms] .


section \<open>A program with one variable\<close>

definition demo_tls_state :: kstate where
  "demo_tls_state = set_memory (store32 (store32 (\<lambda>_. 0) 0x6000 4) 0x600C 0x7000) demo_state"

lemma demo_tls:
  "controls_ok 0x5000 [0x6000]" "values_ok 0x5000 [0x6000] (memory demo_tls_state)"
  "tls_index (memory demo_tls_state) 0x6000 = 0" "get_thread_id demo_tls_state = int 0"
  "tls_size (memory demo_tls_state) 0x6000 = 4"
proof -
  have "apart 0x600C 4 0x6000 4" "apart 0x600C 4 0x6008 4" "apart 0x6000 4 0x6008 4" "apart 0x6000 4 0x600C 4"
    by (simp_all add: apart_def)
  then have f: "tls_size (memory demo_tls_state) 0x6000 = 4" "tls_value (memory demo_tls_state) 0x6000 = 0x7000"
      "tls_index (memory demo_tls_state) 0x6000 = 0"
    by (simp_all add: tls_size_def tls_value_def tls_index_def demo_tls_state_def load32_store32_same load32_store32_apart)
  then show "values_ok 0x5000 [0x6000] (memory demo_tls_state)" by (simp add: values_ok_def apart_def)
  show "tls_index (memory demo_tls_state) 0x6000 = 0" "tls_size (memory demo_tls_state) 0x6000 = 4" using f by simp_all
qed (simp_all add: controls_ok_def apart_def get_thread_id_def demo_tls_state_def demo_state_def)

lemma demo_tls_ok: "tls_ok 0x5000 [0x6000] [] (tls_start 3 0x5000) (memory demo_tls_state)"
  using demo_tls(1-3) by (intro tls_start_ok) simp_all

lemma demo_tls_room:
  "tls_map [] (tls_start 3 0x5000) 0 0x6000 = None" "tls_ptr (tls_start 3 0x5000) = 0x5000" "length (tls_arrays (tls_start 3 0x5000)) = 3"
  by (simp_all add: tls_start_def tls_map_def)

theorem tls_access_witness:
  "\<exists>t s. emutls_get_address demo_sys 0x5000 0x6000 (tls_start 3 0x5000) demo_tls_state = Ret (0x5000, t) s"
  using tls_access [OF demo_tls_ok _ demo_tls(4) _ demo_exits, of "0x6000"] demo_tls(5) by (auto simp: demo_tls_room)


end
