(* ===== verification/Trace.thy ===== *)
theory Trace
  imports Assertion
begin

text \<open>
  Backtraces, \<open>src/common/trace.c\<close>: the chain of stack frames that code compiled with \<open>-mapcs-frame\<close>
  leaves on the stack is followed until the frame pointer is zero. A chain that loops is followed
  for ever.
\<close>

section \<open>Symbols\<close>

record FrameInfo =
  fi_fp :: size_t
  fi_ip :: size_t
  fi_lr :: size_t
  fi_pc :: size_t

definition load_frame :: "mem \<Rightarrow> size_t \<Rightarrow> FrameInfo" where
  "load_frame m a = \<lparr>fi_fp = load32 m a, fi_ip = load32 m (a + 4), fi_lr = load32 m (a + 8), fi_pc = load32 m (a + 12)\<rparr>"

text \<open>An element of the array of symbols, at \<open>p\<close>.\<close>

record Symbol =
  sym_name :: size_t
  sym_start :: size_t
  sym_end :: size_t

definition SIZEOF_Symbol :: nat where "SIZEOF_Symbol = 12"

definition load_symbol_at :: "mem \<Rightarrow> size_t \<Rightarrow> nat \<Rightarrow> Symbol" where
  "load_symbol_at m symbols idx =
     (let p = symbols + of_nat (SIZEOF_Symbol * idx)
      in \<lparr>sym_name = load32 m p, sym_start = load32 m (p + 4), sym_end = load32 m (p + 8)\<rparr>)"

function find_symbol_loop :: "mem \<Rightarrow> size_t \<Rightarrow> nat \<Rightarrow> size_t \<Rightarrow> nat \<Rightarrow> string option" where
  "find_symbol_loop m symbols num_symbols address idx =
     (if idx < num_symbols then
        (let sym = load_symbol_at m symbols idx in
         if address \<ge> sym_start sym \<and> address < sym_end sym then read_string m (sym_name sym)
         else find_symbol_loop m symbols num_symbols address (Suc idx))
      else Some ''???'')"
  by pat_completeness auto
termination
  by (relation "measure (\<lambda>(m, symbols, n, address, idx). n - idx)") auto

declare find_symbol_loop.simps [simp del]

definition find_symbol :: "mem \<Rightarrow> size_t \<Rightarrow> size_t \<Rightarrow> size_t \<Rightarrow> string option" where
  "find_symbol m symbols num_symbols address =
     (if symbols = NULL then Some ''???''
      else if address = 0 then Some ''<init>''
      else find_symbol_loop m symbols (unat num_symbols) address 0)"

section \<open>The chain of frames\<close>

definition print_entry :: "string \<Rightarrow> va_arg list \<Rightarrow> size_t \<Rightarrow> size_t \<Rightarrow> size_t \<Rightarrow> kstate \<Rightarrow> unit kresult" where
  "print_entry depth depth_arg address symbols num_symbols s =
     (case find_symbol (memory s) symbols num_symbols address of
        None \<Rightarrow> Undef
      | Some name \<Rightarrow> k_printf (depth @ '': 0x%08X (%s)'' @ [CHR 0x0A]) (depth_arg @ [VNum address, VStr (Some name)]) s)"

partial_function (option) backtrace_loop :: "size_t \<Rightarrow> size_t \<Rightarrow> FrameInfo \<Rightarrow> u32 \<Rightarrow> kstate \<Rightarrow> unit kresult option" where
  "backtrace_loop symbols num_symbols info depth s =
     (if fi_fp info \<noteq> 0 then
        (let info = load_frame (memory s) (fi_fp info - 12) in
         case print_entry ''%i'' [VNum depth] (fi_lr info) symbols num_symbols s of
           Ret _ s \<Rightarrow> backtrace_loop symbols num_symbols info (depth + 1) s
         | Exit n s \<Rightarrow> Some (Exit n s)
         | Undef \<Rightarrow> Some Undef)
      else Some (Ret () s))"

text \<open>The registers of the context that are used.\<close>

definition print_backtrace :: "size_t \<Rightarrow> size_t \<Rightarrow> size_t \<Rightarrow> size_t \<Rightarrow> size_t \<Rightarrow> size_t \<Rightarrow> kstate \<Rightarrow> unit kresult option" where
  "print_backtrace pc lr r12 r11 symbols num_symbols s =
     (let info = \<lparr>fi_fp = r11, fi_ip = r12, fi_lr = lr, fi_pc = pc\<rparr> in
      case print_entry ''0'' [] pc symbols num_symbols s of
        Ret _ s \<Rightarrow> backtrace_loop symbols num_symbols info 1 s
      | Exit n s \<Rightarrow> Some (Exit n s)
      | Undef \<Rightarrow> Some Undef)"

section \<open>The lines\<close>

text \<open>The line for one frame.\<close>

definition hex8 :: "size_t \<Rightarrow> string" where
  "hex8 a = (let h = uint_to_str (ucast a) CHR ''X'' in pad CHR ''0'' 8 (length h) @ h)"

definition entry_text :: "nat \<Rightarrow> size_t \<Rightarrow> string \<Rightarrow> string" where
  "entry_text depth a name =
     uint_to_str (of_nat depth) CHR ''u'' @ '': 0x'' @ hex8 a @ '' ('' @ name @ '')'' @ [CHR 0x0A]"

lemma first_entry_text:
  "sprintf (''0: 0x%08X (%s)'' @ [CHR 0x0A]) [VNum a, VStr (Some name)] = Some (entry_text 0 a name)"
  by (simp add: sprintf_def format_defs entry_text_def hex8_def Let_def uint_to_str_def) (simp add: pad_def)

lemma frame_entry_text:
  assumes "n < 2 ^ 31"
  shows "sprintf (''%i: 0x%08X (%s)'' @ [CHR 0x0A]) [VNum (of_nat n), VNum a, VStr (Some name)] = Some (entry_text n a name)"
  using conv_int_text [OF assms]
  by (simp add: sprintf_def format_defs entry_text_def hex8_def Let_def) (simp add: pad_def)

section \<open>Chains\<close>

text \<open>The frames from a frame pointer on: the return addresses in them, up to the frame pointer 0.\<close>

inductive frames :: "mem \<Rightarrow> size_t \<Rightarrow> size_t list \<Rightarrow> bool" for m :: mem where
  no_frame: "frames m 0 []"
| frame: "fp \<noteq> 0 \<Longrightarrow> frames m (load32 m (fp - 12)) lrs \<Longrightarrow> frames m fp (load32 m (fp - 4) # lrs)"

inductive_cases framesE: "frames m fp lrs"

lemma load_frame_fields [simp]: "fi_fp (load_frame m (fp - 12)) = load32 m (fp - 12)" "fi_lr (load_frame m (fp - 12)) = load32 m (fp - 4)"
  by (simp_all add: load_frame_def algebra_simps)

text \<open>The text of the frames from a depth on, when every address has a name.\<close>

fun entries :: "nat \<Rightarrow> (size_t \<Rightarrow> string) \<Rightarrow> size_t list \<Rightarrow> string" where
  "entries depth f [] = []"
| "entries depth f (a # as) = entry_text depth a (f a) @ entries (Suc depth) f as"

definition names :: "mem \<Rightarrow> size_t \<Rightarrow> size_t \<Rightarrow> (size_t \<Rightarrow> string) \<Rightarrow> bool" where
  "names m symbols num_symbols f \<longleftrightarrow> (\<forall>a. find_symbol m symbols num_symbols a = Some (f a))"

lemma serial_print_twice [simp]: "serial_print b (serial_print a s) = serial_print (a @ b) s"
  by (simp add: serial_print_def)

lemma serial_print_Nil [simp]: "serial_print [] s = s"
  by (simp add: serial_print_def)

lemma print_frame_entry:
  assumes "names (memory s) symbols num_symbols f" and "n < 2 ^ 31"
  shows "print_entry ''%i'' [VNum (of_nat n)] a symbols num_symbols s = Ret () (serial_print (entry_text n a (f a)) s)"
  using assms frame_entry_text [OF assms(2)] by (simp add: print_entry_def names_def k_printf_def)

lemma backtrace_loop_prints:
  assumes "frames (memory s) (fi_fp info) lrs" and "names (memory s) symbols num_symbols f" and "depth + length lrs < 2 ^ 31"
  shows "backtrace_loop symbols num_symbols info (of_nat depth) s = Some (Ret () (serial_print (entries depth f lrs) s))"
  using assms
proof (induction lrs arbitrary: info depth s rule: list.induct)
  case Nil
  then show ?case by (auto elim: framesE simp: backtrace_loop.simps)
next
  case (Cons lr lrs)
  let ?info = "load_frame (memory s) (fi_fp info - 12)" and ?s = "serial_print (entry_text depth lr (f lr)) s"
  from Cons.prems(1) have fp: "fi_fp info \<noteq> 0" "fi_lr ?info = lr" and rest: "frames (memory s) (fi_fp ?info) lrs"
    by (auto elim: framesE)
  have "backtrace_loop symbols num_symbols ?info (of_nat (Suc depth)) ?s =
      Some (Ret () (serial_print (entries (Suc depth) f lrs) ?s))"
    using Cons.prems(2,3) rest by (intro Cons.IH) simp_all
  then show ?case
    using fp print_frame_entry [OF Cons.prems(2), of depth lr] Cons.prems(3)
    by (subst backtrace_loop.simps) (simp add: Let_def add.commute)
qed

text \<open>What comes before the loop.\<close>

lemma print_first_entry:
  assumes "names (memory s) symbols num_symbols f"
  shows "print_entry ''0'' [] a symbols num_symbols s = Ret () (serial_print (entry_text 0 a (f a)) s)"
  using assms first_entry_text by (simp add: print_entry_def names_def k_printf_def)

lemma print_entry_memory: "print_entry d as a symbols n s = Ret u s' \<Longrightarrow> memory s' = memory s"
  by (auto simp: print_entry_def k_printf_def split: option.splits)

text \<open>The loop only returns at the end of a chain.\<close>

lemma backtrace_loop_chain:
  assumes "backtrace_loop symbols num_symbols info depth s = Some (Ret u s')"
  shows "\<exists>lrs. frames (memory s) (fi_fp info) lrs"
proof -
  let ?P = "\<lambda>(symbols :: size_t) (num_symbols :: size_t) info (depth :: u32) s r.
    (\<exists>u s'. r = Ret u s') \<longrightarrow> (\<exists>lrs. frames (memory s) (fi_fp info) lrs)"
  have "?P symbols num_symbols info depth s (Ret u s')"
  proof (rule backtrace_loop.raw_induct [where P = ?P, OF _ assms])
    fix loop :: "size_t \<Rightarrow> size_t \<Rightarrow> FrameInfo \<Rightarrow> u32 \<Rightarrow> kstate \<Rightarrow> unit kresult option"
      and symbols num_symbols info depth s r
    assume IH: "\<And>symbols num_symbols info depth s r. loop symbols num_symbols info depth s = Some r \<Longrightarrow> ?P symbols num_symbols info depth s r"
      and body: "(if fi_fp info \<noteq> 0 then
        (let info = load_frame (memory s) (fi_fp info - 12) in
         case print_entry ''%i'' [VNum depth] (fi_lr info) symbols num_symbols s of
           Ret _ s \<Rightarrow> loop symbols num_symbols info (depth + 1) s
         | Exit n s \<Rightarrow> Some (Exit n s)
         | Undef \<Rightarrow> Some Undef)
        else Some (Ret () s)) = Some r"
    show "?P symbols num_symbols info depth s r"
    proof (cases "fi_fp info = 0")
      case True
      then show ?thesis by (auto intro: no_frame)
    next
      case False
      let ?info = "load_frame (memory s) (fi_fp info - 12)"
      show ?thesis
      proof (cases "print_entry ''%i'' [VNum depth] (fi_lr ?info) symbols num_symbols s")
        case (Ret v s1)
        then have "loop symbols num_symbols ?info (depth + 1) s1 = Some r" "memory s1 = memory s"
          using body False print_entry_memory by (auto simp: Let_def)
        then show ?thesis using IH [of symbols num_symbols ?info "depth + 1" s1 r] frame [OF False] by auto
      qed (use body False in \<open>auto simp: Let_def\<close>)
    qed
  qed
  then show ?thesis by blast
qed

text \<open>Looking up a symbol, as a search.\<close>

definition in_symbol :: "mem \<Rightarrow> size_t \<Rightarrow> size_t \<Rightarrow> nat \<Rightarrow> bool" where
  "in_symbol m symbols a i \<longleftrightarrow>
     (let sym = load_symbol_at m symbols i in sym_start sym \<le> a \<and> a < sym_end sym)"

lemma find_symbol_loop_eq:
  "find_symbol_loop m symbols n a i =
     (case find (in_symbol m symbols a) [i..<n] of
        Some j \<Rightarrow> read_string m (sym_name (load_symbol_at m symbols j)) | None \<Rightarrow> Some ''???'')"
proof (induction m symbols n a i rule: find_symbol_loop.induct)
  case (1 m symbols n a i)
  then show ?case
    by (subst find_symbol_loop.simps) (auto simp: upt_rec [of i n] in_symbol_def [of m symbols a i] Let_def)
qed

section \<open>Properties\<close>

text \<open>A backtrace prints one line for the program counter and one for the return address in every frame
  of the chain, innermost first, with the names of the functions they are in, and returns.\<close>

theorem backtrace_prints:
  assumes "frames (memory s) r11 lrs" and "names (memory s) symbols num_symbols f" and "length lrs + 1 < 2 ^ 31"
  shows "print_backtrace pc lr r12 r11 symbols num_symbols s = Some (Ret () (serial_print (entries 0 f (pc # lrs)) s))"
  using backtrace_loop_prints [of "serial_print (entry_text 0 pc (f pc)) s" "\<lparr>fi_fp = r11, fi_ip = r12, fi_lr = lr, fi_pc = pc\<rparr>" lrs
      symbols num_symbols f 1] print_first_entry [OF assms(2), of pc] assms
  by (simp add: print_backtrace_def Let_def)

text \<open>A backtrace returns only if the chain ends in the frame pointer 0: on a stack where it does not, for
  example where a frame points to itself, printing does not come to an end.\<close>

theorem backtrace_ends_only:
  assumes "print_backtrace pc lr r12 r11 symbols num_symbols s = Some (Ret u s')"
  shows "\<exists>lrs. frames (memory s) r11 lrs"
proof -
  obtain v s1 where "print_entry ''0'' [] pc symbols num_symbols s = Ret v s1"
    and loop: "backtrace_loop symbols num_symbols \<lparr>fi_fp = r11, fi_ip = r12, fi_lr = lr, fi_pc = pc\<rparr> 1 s1 = Some (Ret u s')"
    using assms by (auto simp: print_backtrace_def Let_def split: outcome.splits)
  then have "memory s1 = memory s" using print_entry_memory by blast
  then show ?thesis using backtrace_loop_chain [OF loop] by simp
qed

text \<open>The name printed for an address is that of the first symbol in the table whose range contains it, and
  a fixed text if there is none, no table, or no address.\<close>

theorem find_symbol_first:
  "find_symbol m symbols num_symbols a =
     (if symbols = NULL then Some ''???'' else if a = 0 then Some ''<init>''
      else case find (in_symbol m symbols a) [0..<unat num_symbols] of
        Some i \<Rightarrow> read_string m (sym_name (load_symbol_at m symbols i)) | None \<Rightarrow> Some ''???'')"
  by (simp add: find_symbol_def find_symbol_loop_eq)

section \<open>A stack\<close>

lemma no_symbols: "names m NULL n (\<lambda>_. ''???'')"
  by (simp add: names_def find_symbol_def)

lemma demo_frames: "frames (memory demo_state) 0x1000 [0]"
  using frame [of "0x1000" "memory demo_state" "[]"] no_frame by simp

theorem backtrace_prints_witness:
  "print_backtrace 0x8000 0 0 0x1000 NULL 0 demo_state =
     Some (Ret () (serial_print (entry_text 0 0x8000 ''???'' @ entry_text 1 0 ''???'') demo_state))"
  using backtrace_prints [OF demo_frames no_symbols, of "0x8000" 0 0 0] by simp

theorem backtrace_ends_only_witness:
  "\<exists>lrs. frames (memory demo_state) 0x1000 lrs"
proof -
  have "backtrace_loop NULL 0 \<lparr>fi_fp = 0x1000, fi_ip = 0, fi_lr = 0, fi_pc = 0x8000\<rparr> (of_nat 1)
      (serial_print (entry_text 0 0x8000 ''???'') demo_state) =
      Some (Ret () (serial_print (entries 1 (\<lambda>_. ''???'') [0]) (serial_print (entry_text 0 0x8000 ''???'') demo_state)))"
    using demo_frames no_symbols by (intro backtrace_loop_prints) simp_all
  then have "\<exists>s'. print_backtrace 0x8000 0 0 0x1000 NULL 0 demo_state = Some (Ret () s')"
    using print_first_entry [OF no_symbols] by (simp add: print_backtrace_def Let_def)
  then show ?thesis using backtrace_ends_only by blast
qed

end
