(* ===== verification/Drivers.thy ===== *)
theory Drivers
  imports Trace
begin

text \<open>
  Drivers: accesses to device registers, in the order the code makes them. The device is a
  parameter: what a read of a register returns and how reads and writes change the device and the
  memory it can write to. Every access is recorded. Waiting for a device may not end; the result is
  \<open>None\<close> then. Memory of the Raspberry Pi is below 4 GB, so its addresses are 32 bit words here.
\<close>

section \<open>Register accesses\<close>

datatype access = Rd size_t u32 | Wr size_t u32

record 'd device =
  dev_read :: "size_t \<Rightarrow> mem \<times> 'd \<Rightarrow> u32 \<times> mem \<times> 'd"
  dev_write :: "size_t \<Rightarrow> u32 \<Rightarrow> mem \<times> 'd \<Rightarrow> mem \<times> 'd"

record 'd io =
  io_ram :: mem
  io_dev :: 'd
  io_log :: "access list"

definition mmio_read :: "'d device \<Rightarrow> size_t \<Rightarrow> 'd io \<Rightarrow> u32 \<times> 'd io" where
  "mmio_read D a s =
     (case dev_read D a (io_ram s, io_dev s) of
        (v, m, d) \<Rightarrow> (v, \<lparr>io_ram = m, io_dev = d, io_log = io_log s @ [Rd a v]\<rparr>))"

definition mmio_write :: "'d device \<Rightarrow> size_t \<Rightarrow> u32 \<Rightarrow> 'd io \<Rightarrow> 'd io" where
  "mmio_write D a v s =
     (case dev_write D a v (io_ram s, io_dev s) of
        (m, d) \<Rightarrow> \<lparr>io_ram = m, io_dev = d, io_log = io_log s @ [Wr a v]\<rparr>)"

text \<open>The loops that wait until a bit of a register is clear.\<close>

partial_function (option) wait_clear :: "'d device \<Rightarrow> size_t \<Rightarrow> u32 \<Rightarrow> 'd io \<Rightarrow> 'd io option" where
  "wait_clear D a bits s =
     (let (v, s) = mmio_read D a s in if v AND bits \<noteq> 0 then wait_clear D a bits s else Some s)"

section \<open>Mailbox of the Raspberry Pi\<close>

definition MMIO_BASE :: size_t where "MMIO_BASE = 0xFE000000"
definition VIDEOCORE_MBOX :: size_t where "VIDEOCORE_MBOX = MMIO_BASE + 0x0000B880"
definition MBOX_READ :: size_t where "MBOX_READ = VIDEOCORE_MBOX + 0x0"
definition MBOX_STATUS :: size_t where "MBOX_STATUS = VIDEOCORE_MBOX + 0x18"
definition MBOX_WRITE :: size_t where "MBOX_WRITE = VIDEOCORE_MBOX + 0x20"
definition MBOX_RESPONSE :: u32 where "MBOX_RESPONSE = 0x80000000"
definition MBOX_FULL :: u32 where "MBOX_FULL = 0x80000000"
definition MBOX_EMPTY :: u32 where "MBOX_EMPTY = 0x40000000"
definition MBOX_REQUEST :: u32 where "MBOX_REQUEST = 0"
definition MBOX_CH_PROP :: byte where "MBOX_CH_PROP = 8"
definition MBOX_TAG_SETCLKRATE :: u32 where "MBOX_TAG_SETCLKRATE = 0x38002"
definition MBOX_TAG_LAST :: u32 where "MBOX_TAG_LAST = 0"

partial_function (option) mbox_response :: "'d device \<Rightarrow> u32 \<Rightarrow> size_t \<Rightarrow> 'd io \<Rightarrow> (bool \<times> 'd io) option" where
  "mbox_response D r mbox s =
     Option.bind (wait_clear D MBOX_STATUS MBOX_EMPTY s) (\<lambda>s.
     let (v, s) = mmio_read D MBOX_READ s in
     if r = v then Some (load32 (io_ram s) (mbox + 4) = MBOX_RESPONSE, s) else mbox_response D r mbox s)"

definition mbox_call :: "'d device \<Rightarrow> byte \<Rightarrow> size_t \<Rightarrow> 'd io \<Rightarrow> (bool \<times> 'd io) option" where
  "mbox_call D ch mbox s =
     (let r = mbox OR ucast (ch AND 0xF) in
      Option.bind (wait_clear D MBOX_STATUS MBOX_FULL s) (\<lambda>s.
      mbox_response D r mbox (mmio_write D MBOX_WRITE r s)))"

section \<open>Serial port of the Raspberry Pi\<close>

definition GPFSEL1 :: size_t where "GPFSEL1 = MMIO_BASE + 0x00200004"
definition UART0_DR :: size_t where "UART0_DR = MMIO_BASE + 0x00201000"
definition UART0_FR :: size_t where "UART0_FR = MMIO_BASE + 0x00201018"
definition UART0_IBRD :: size_t where "UART0_IBRD = MMIO_BASE + 0x00201024"
definition UART0_FBRD :: size_t where "UART0_FBRD = MMIO_BASE + 0x00201028"
definition UART0_LCRH :: size_t where "UART0_LCRH = MMIO_BASE + 0x0020102C"
definition UART0_CR :: size_t where "UART0_CR = MMIO_BASE + 0x00201030"
definition UART0_ICR :: size_t where "UART0_ICR = MMIO_BASE + 0x00201044"

text \<open>The message that sets the clock; \<open>fp\<close> is where the function has it on its stack.\<close>

definition uart_clock_message :: "u32 list" where
  "uart_clock_message = [9 * 4, MBOX_REQUEST, MBOX_TAG_SETCLKRATE, 12, 8, 2, 4000000, 0, MBOX_TAG_LAST]"

definition uart_init :: "'d device \<Rightarrow> size_t \<Rightarrow> 'd io \<Rightarrow> 'd io option" where
  "uart_init D fp s =
     (let s = s\<lparr>io_ram := store_bytes (io_ram s) fp (concat (map bytes32 uart_clock_message))\<rparr> in
      Option.bind (mbox_call D MBOX_CH_PROP fp s) (\<lambda>(_, s).
      let (r, s) = mmio_read D GPFSEL1 s;
          r = r AND NOT (push_bit 12 7 OR push_bit 15 7);
          r = r OR (push_bit 12 4 OR push_bit 15 4);
          s = mmio_write D GPFSEL1 r s;
          s = mmio_write D UART0_ICR 0x7FF s;
          s = mmio_write D UART0_IBRD 2 s;
          s = mmio_write D UART0_FBRD 11 s;
          s = mmio_write D UART0_LCRH (push_bit 4 0x7) s
      in Some (mmio_write D UART0_CR 0x301 s)))"

definition uart_send :: "'d device \<Rightarrow> u32 \<Rightarrow> 'd io \<Rightarrow> 'd io option" where
  "uart_send D c s = Option.bind (wait_clear D UART0_FR 0x20 s) (\<lambda>s. Some (mmio_write D UART0_DR c s))"

definition uart_getc :: "'d device \<Rightarrow> 'd io \<Rightarrow> (byte \<times> 'd io) option" where
  "uart_getc D s =
     Option.bind (wait_clear D UART0_FR 0x10 s) (\<lambda>s.
     let (v, s) = mmio_read D UART0_DR s; r = ucast v in Some (if r = 13 then 10 else r, s))"

text \<open>The texts that are sent are constants of the program, so they are strings here.\<close>

fun uart_puts :: "'d device \<Rightarrow> string \<Rightarrow> 'd io \<Rightarrow> 'd io option" where
  "uart_puts D [] s = Some s"
| "uart_puts D (c # cs) s =
     Option.bind (if c = CHR 0x0A then uart_send D 13 s else Some s) (\<lambda>s.
     Option.bind (uart_send D (of_char c) s) (uart_puts D cs))"

definition hex_tetrad :: "u32 \<Rightarrow> nat \<Rightarrow> u32" where
  "hex_tetrad d c = (let n = drop_bit c d AND 0xF in n + (if n > 9 then 0x37 else 0x30))"

fun uart_hex_loop :: "'d device \<Rightarrow> u32 \<Rightarrow> nat list \<Rightarrow> 'd io \<Rightarrow> 'd io option" where
  "uart_hex_loop D d [] s = Some s"
| "uart_hex_loop D d (c # cs) s = Option.bind (uart_send D (hex_tetrad d c) s) (uart_hex_loop D d cs)"

definition uart_hex :: "'d device \<Rightarrow> u32 \<Rightarrow> 'd io \<Rightarrow> 'd io option" where
  "uart_hex D d s = uart_hex_loop D d [28, 24, 20, 16, 12, 8, 4, 0] s"

definition rpi_serial_putchar :: "'d device \<Rightarrow> u32 \<Rightarrow> 'd io \<Rightarrow> 'd io option" where
  "rpi_serial_putchar D c s =
     Option.bind (if c = 10 then uart_send D 13 s else Some s) (uart_send D c)"

definition rpi_serial_init :: "'d device \<Rightarrow> size_t \<Rightarrow> 'd io \<Rightarrow> 'd io option" where
  "rpi_serial_init D fp s = uart_init D fp s"

section \<open>Serial port of the virtual boards\<close>

definition UART_BASE :: size_t where "UART_BASE = 0x09000000"

definition virt_serial_putchar :: "'d device \<Rightarrow> u32 \<Rightarrow> 'd io \<Rightarrow> 'd io" where
  "virt_serial_putchar D c s = mmio_write D UART_BASE c s"

section \<open>Interrupt controller of the virtual boards\<close>

definition GICD_BASE :: size_t where "GICD_BASE = 0x08000000"
definition GICC_BASE :: size_t where "GICC_BASE = 0x08000000 + 0x10000"
definition DIST_ISENABLER :: "u32 \<Rightarrow> size_t" where "DIST_ISENABLER n = GICD_BASE + 0x100 + n * 4"
definition DIST_IPRIORITYR :: "u32 \<Rightarrow> size_t" where "DIST_IPRIORITYR n = GICD_BASE + 0x400 + n * 4"
definition DIST_ITARGETSR :: "u32 \<Rightarrow> size_t" where "DIST_ITARGETSR n = GICD_BASE + 0x800 + n * 4"

text \<open>A shift by the width of the type or more is undefined; the result is \<open>None\<close> then.\<close>

definition shifted :: "u32 \<Rightarrow> u32 option" where
  "shifted n = (if n < 32 then Some (push_bit (unat n) 1) else None)"

definition gic_init :: "'d device \<Rightarrow> u32 \<Rightarrow> 'd io \<Rightarrow> 'd io option" where
  "gic_init D irq_no s =
     (let s = mmio_write D GICC_BASE 0 s;
          s = mmio_write D (GICC_BASE + 0x004) 0xFF s;
          s = mmio_write D (GICC_BASE + 0x008) 0 s;
          s = mmio_write D GICC_BASE 1 s;
          s = mmio_write D GICD_BASE 0 s;
          s = mmio_write D (DIST_IPRIORITYR (irq_no div 4)) 0 s;
          shift = (irq_no mod 4) * 8 in
      Option.bind (shifted shift) (\<lambda>target.
      let s = mmio_write D (DIST_ITARGETSR (irq_no div 4)) target s in
      Option.bind (shifted irq_no) (\<lambda>bit.
      let s = mmio_write D (DIST_ISENABLER (irq_no div 32)) bit s
      in Some (mmio_write D GICD_BASE 1 s))))"

section \<open>Timer of the Thumb board\<close>

definition SYST_CSR :: size_t where "SYST_CSR = 0xE000E010"
definition SYST_RVR :: size_t where "SYST_RVR = 0xE000E014"
definition NVIC_ISER0 :: size_t where "NVIC_ISER0 = 0xE000E100"
definition NVIC_ICER0 :: size_t where "NVIC_ICER0 = 0xE000E180"
definition TIMER_INT_BIT :: u32 where "TIMER_INT_BIT = push_bit 15 1"

definition k_enable_timer :: "'d device \<Rightarrow> 'd io \<Rightarrow> 'd io" where
  "k_enable_timer D s =
     (let s = mmio_write D SYST_RVR 0x04FFFF s;
          (timer_cfg, s) = mmio_read D SYST_CSR s;
          timer_cfg = timer_cfg OR 1;
          timer_cfg = timer_cfg OR 2;
          s = mmio_write D SYST_CSR timer_cfg s;
          (enabled, s) = mmio_read D NVIC_ISER0 s
      in mmio_write D NVIC_ISER0 (enabled OR TIMER_INT_BIT) s)"

definition k_disable_timer :: "'d device \<Rightarrow> 'd io \<Rightarrow> 'd io" where
  "k_disable_timer D s =
     (let (enabled, s) = mmio_read D NVIC_ICER0 s;
          s = mmio_write D NVIC_ICER0 (enabled OR TIMER_INT_BIT) s;
          (cfg, s) = mmio_read D SYST_CSR s
      in mmio_write D SYST_CSR (cfg AND NOT 1) s)"

section \<open>Unexpected exceptions on the Raspberry Pi\<close>

definition exception_class :: "64 word \<Rightarrow> string" where
  "exception_class esr =
     (let ec = drop_bit 26 esr in
      if ec = 0 then ''Unknown''
      else if ec = 1 then ''Trapped WFI/WFE''
      else if ec = 14 then ''Illegal execution''
      else if ec = 21 then ''System call''
      else if ec = 32 then ''Instruction abort, lower EL''
      else if ec = 33 then ''Instruction abort, same EL''
      else if ec = 34 then ''Instruction alignment fault''
      else if ec = 36 then ''Data abort, lower EL''
      else if ec = 37 then ''Data abort, same EL''
      else if ec = 38 then ''Stack alignment fault''
      else if ec = 44 then ''Floating point''
      else ''Unknown'')"

definition abort_cause :: "64 word \<Rightarrow> string" where
  "abort_cause esr =
     (let c = drop_bit 2 esr AND 0x3 in
      if c = 0 then ''Address size fault'' else if c = 1 then ''Translation fault''
      else if c = 2 then ''Access flag fault'' else ''Permission fault'')"

definition abort_level :: "64 word \<Rightarrow> string" where
  "abort_level esr =
     (let c = esr AND 0x3 in
      if c = 0 then '' at level 0'' else if c = 1 then '' at level 1''
      else if c = 2 then '' at level 2'' else '' at level 3'')"

text \<open>What is sent before the handler stops in an endless loop: texts, and words in hexadecimal.\<close>

datatype piece = Text string | Hex u32

definition exception_report :: "64 word \<Rightarrow> 64 word \<Rightarrow> 64 word \<Rightarrow> 64 word \<Rightarrow> piece list" where
  "exception_report esr elr spsr far =
     [Text ''[Error] Invalid exception occurred
'', Text (exception_class esr)] @
     (if drop_bit 26 esr = 36 \<or> drop_bit 26 esr = 37
      then [Text '', '', Text (abort_cause esr), Text (abort_level esr)] else []) @
     [Text '':
  ESR_EL1 '', Hex (ucast (drop_bit 32 esr)), Hex (ucast esr),
      Text '' ELR_EL1 '', Hex (ucast (drop_bit 32 elr)), Hex (ucast elr),
      Text ''
 SPSR_EL1 '', Hex (ucast (drop_bit 32 spsr)), Hex (ucast spsr),
      Text '' FAR_EL1 '', Hex (ucast (drop_bit 32 far)), Hex (ucast far), Text ''
'']"

definition send_piece :: "'d device \<Rightarrow> piece \<Rightarrow> 'd io \<Rightarrow> 'd io option" where
  "send_piece D p s = (case p of Text str \<Rightarrow> uart_puts D str s | Hex d \<Rightarrow> uart_hex D d s)"

fun send_pieces :: "'d device \<Rightarrow> piece list \<Rightarrow> 'd io \<Rightarrow> 'd io option" where
  "send_pieces D [] s = Some s"
| "send_pieces D (p # ps) s = Option.bind (send_piece D p s) (send_pieces D ps)"

definition invalid_entry :: "'d device \<Rightarrow> size_t \<Rightarrow> 64 word \<Rightarrow> 64 word \<Rightarrow> 64 word \<Rightarrow> 64 word \<Rightarrow> 'd io \<Rightarrow> 'd io option" where
  "invalid_entry D fp esr elr spsr far s =
     Option.bind (uart_init D fp s) (send_pieces D (exception_report esr elr spsr far))"

section \<open>Waiting for a device\<close>

text \<open>A device is ready in the end if some measure decreases while the bit is set.\<close>

definition gets_ready :: "'d device \<Rightarrow> size_t \<Rightarrow> u32 \<Rightarrow> (mem \<times> 'd \<Rightarrow> nat) \<Rightarrow> bool" where
  "gets_ready D a bits f \<longleftrightarrow> (\<forall>x. fst (dev_read D a x) AND bits \<noteq> 0 \<longrightarrow> f (snd (dev_read D a x)) < f x)"

lemma mmio_read_simps [simp]:
  "fst (mmio_read D a s) = fst (dev_read D a (io_ram s, io_dev s))"
  "(io_ram (snd (mmio_read D a s)), io_dev (snd (mmio_read D a s))) = snd (dev_read D a (io_ram s, io_dev s))"
  "io_log (snd (mmio_read D a s)) = io_log s @ [Rd a (fst (mmio_read D a s))]"
  by (simp_all add: mmio_read_def split: prod.split)

lemma mmio_write_simps [simp]:
  "io_log (mmio_write D a v s) = io_log s @ [Wr a v]"
  "(io_ram (mmio_write D a v s), io_dev (mmio_write D a v s)) = dev_write D a v (io_ram s, io_dev s)"
  by (simp_all add: mmio_write_def split: prod.split)

lemma wait_clear_ends:
  assumes "gets_ready D a bits f"
  shows "\<exists>s' vs v. wait_clear D a bits s = Some s' \<and> io_log s' = io_log s @ map (Rd a) vs @ [Rd a v] \<and> v AND bits = 0"
proof (induction "f (io_ram s, io_dev s)" arbitrary: s rule: less_induct)
  case less
  obtain v s1 where r: "mmio_read D a s = (v, s1)" by fastforce
  have v: "v = fst (dev_read D a (io_ram s, io_dev s))" and s1: "(io_ram s1, io_dev s1) = snd (dev_read D a (io_ram s, io_dev s))"
      and log: "io_log s1 = io_log s @ [Rd a v]"
    using mmio_read_simps [of D a s] r by simp_all
  show ?case
  proof (cases "v AND bits = 0")
    case True
    then show ?thesis
      using r log by (subst wait_clear.simps) (auto intro!: exI [of _ "[] :: u32 list"])
  next
    case False
    then have "f (io_ram s1, io_dev s1) < f (io_ram s, io_dev s)"
      using assms v s1 by (simp add: gets_ready_def)
    from less [OF this] obtain s' vs w where "wait_clear D a bits s1 = Some s'"
        "io_log s' = io_log s1 @ map (Rd a) vs @ [Rd a w]" "w AND bits = 0" by blast
    then show ?thesis
      using False r log by (subst wait_clear.simps) (auto intro!: exI [of _ "v # vs"])
  qed
qed

section \<open>Sending text\<close>

text \<open>The characters in a record of accesses, and that each was sent right after the device has said that
  there is room.\<close>

fun sent :: "access list \<Rightarrow> u32 list" where
  "sent [] = []"
| "sent (Rd a v # l) = sent l"
| "sent (Wr a v # l) = (if a = UART0_DR then v # sent l else sent l)"

fun paced :: "bool \<Rightarrow> access list \<Rightarrow> bool" where
  "paced room [] = True"
| "paced room (Rd a v # l) = paced (a = UART0_FR \<and> v AND 0x20 = 0) l"
| "paced room (Wr a v # l) = ((a = UART0_DR \<longrightarrow> room) \<and> paced False l)"

lemma sent_append [simp]: "sent (l @ k) = sent l @ sent k"
  by (induction l rule: sent.induct) simp_all

lemma paced_mono: "paced False l \<Longrightarrow> paced room l"
  by (cases "(room, l)" rule: paced.cases) auto

lemma paced_append: "paced room l \<Longrightarrow> paced False k \<Longrightarrow> paced room (l @ k)"
  by (induction room l rule: paced.induct) (auto intro: paced_mono)

definition sends :: "'d io \<Rightarrow> u32 list \<Rightarrow> 'd io option \<Rightarrow> bool" where
  "sends s cs r \<longleftrightarrow> (\<exists>s' l. r = Some s' \<and> io_log s' = io_log s @ l \<and> sent l = cs \<and> paced False l)"

lemma sends_done: "sends s [] (Some s)"
  by (auto simp: sends_def)

lemma sends_bind:
  assumes "sends s cs r" and "\<And>s'. sends s' ds (g s')"
  shows "sends s (cs @ ds) (Option.bind r g)"
proof -
  obtain s1 l where s1: "r = Some s1" "io_log s1 = io_log s @ l" "sent l = cs" "paced False l"
    using assms(1) by (auto simp: sends_def)
  obtain s2 k where "g s1 = Some s2" "io_log s2 = io_log s1 @ k" "sent k = ds" "paced False k"
    using assms(2) [of s1] by (auto simp: sends_def)
  then show ?thesis using s1 paced_append unfolding sends_def by (intro exI [of _ s2] exI [of _ "l @ k"]) simp
qed

lemma registers_apart [simp]: "UART0_FR \<noteq> UART0_DR" "UART0_DR \<noteq> UART0_FR"
  by (simp_all add: UART0_FR_def UART0_DR_def MMIO_BASE_def)

lemma reads_only: "sent (map (Rd a) vs) = []" "paced room (map (Rd a) vs @ [Rd a v])"
  by (induction vs arbitrary: room) simp_all

lemma wait_then_send: "v AND 0x20 = 0 \<Longrightarrow> paced room (map (Rd UART0_FR) vs @ [Rd UART0_FR v, Wr UART0_DR c])"
  by (induction vs arbitrary: room) simp_all

lemma uart_send_sends:
  assumes "gets_ready D UART0_FR 0x20 f"
  shows "sends s [c] (uart_send D c s)"
proof -
  obtain s1 vs v where s1: "wait_clear D UART0_FR 0x20 s = Some s1"
      "io_log s1 = io_log s @ map (Rd UART0_FR) vs @ [Rd UART0_FR v]" "v AND 0x20 = 0"
    using wait_clear_ends [OF assms] by blast
  show ?thesis
    unfolding sends_def uart_send_def
    by (intro exI [of _ "mmio_write D UART0_DR c s1"] exI [of _ "map (Rd UART0_FR) vs @ [Rd UART0_FR v, Wr UART0_DR c]"])
      (simp add: s1 reads_only wait_then_send)
qed

text \<open>Line ends are sent as two characters.\<close>

fun with_returns :: "string \<Rightarrow> u32 list" where
  "with_returns [] = []"
| "with_returns (c # cs) = (if c = CHR 0x0A then [13, 10] else [of_char c]) @ with_returns cs"

lemma uart_puts_sends:
  assumes "gets_ready D UART0_FR 0x20 f"
  shows "sends s (with_returns str) (uart_puts D str s)"
proof (induction str arbitrary: s)
  case Nil
  then show ?case by (simp add: sends_done)
next
  case (Cons c cs)
  have "sends s ((if c = CHR 0x0A then [13] else []) @ [of_char c] @ with_returns cs) (uart_puts D (c # cs) s)"
    unfolding uart_puts.simps
    by (intro sends_bind uart_send_sends [OF assms] Cons.IH) (simp add: sends_done uart_send_sends [OF assms])
  then show ?case by (simp split: if_splits)
qed

lemma uart_hex_sends:
  assumes "gets_ready D UART0_FR 0x20 f"
  shows "sends s (map (hex_tetrad d) [28, 24, 20, 16, 12, 8, 4, 0]) (uart_hex D d s)"
proof -
  have "sends s (map (hex_tetrad d) cs) (uart_hex_loop D d cs s)" for cs s
  proof (induction cs arbitrary: s)
    case (Cons c cs)
    have "sends s ([hex_tetrad d c] @ map (hex_tetrad d) cs) (uart_hex_loop D d (c # cs) s)"
      unfolding uart_hex_loop.simps by (intro sends_bind uart_send_sends [OF assms] Cons.IH)
    then show ?case by simp
  qed (simp add: sends_done)
  then show ?thesis unfolding uart_hex_def .
qed

text \<open>The report of an unexpected exception.\<close>

fun piece_chars :: "piece \<Rightarrow> u32 list" where
  "piece_chars (Text str) = with_returns str"
| "piece_chars (Hex d) = map (hex_tetrad d) [28, 24, 20, 16, 12, 8, 4, 0]"

lemma send_pieces_sends:
  assumes "gets_ready D UART0_FR 0x20 f"
  shows "sends s (concat (map piece_chars ps)) (send_pieces D ps s)"
proof (induction ps arbitrary: s)
  case (Cons p ps)
  have "sends s (piece_chars p) (send_piece D p s)"
    by (cases p) (simp_all add: send_piece_def uart_puts_sends [OF assms] uart_hex_sends [OF assms, simplified])
  then show ?case using Cons.IH by (auto intro: sends_bind)
qed (simp add: sends_done)

section \<open>The mailbox\<close>

text \<open>When a wait or a call returns, this is what it has done.\<close>

lemma wait_clear_Some:
  assumes "wait_clear D a bits s = Some s'"
  shows "\<exists>vs v. io_log s' = io_log s @ map (Rd a) vs @ [Rd a v] \<and> v AND bits = 0"
proof (rule wait_clear.raw_induct [where P = "\<lambda>D a bits s s'. \<exists>vs v. io_log s' = io_log s @ map (Rd a) vs @ [Rd a v] \<and> v AND bits = 0",
      OF _ assms])
  fix wait :: "'a device \<Rightarrow> size_t \<Rightarrow> u32 \<Rightarrow> 'a io \<Rightarrow> 'a io option" and D :: "'a device" and a bits s s'
  assume IH: "\<And>D a bits s s'. wait D a bits s = Some s' \<Longrightarrow>
      \<exists>vs v. io_log s' = io_log s @ map (Rd a) vs @ [Rd a v] \<and> v AND bits = 0"
    and body: "(let (v, s) = mmio_read D a s in if v AND bits \<noteq> 0 then wait D a bits s else Some s) = Some s'"
  obtain v s1 where r: "mmio_read D a s = (v, s1)" by fastforce
  have log: "io_log s1 = io_log s @ [Rd a v]" using mmio_read_simps(3) [of D a s] r by simp
  show "\<exists>vs v. io_log s' = io_log s @ map (Rd a) vs @ [Rd a v] \<and> v AND bits = 0"
  proof (cases "v AND bits = 0")
    case True
    then show ?thesis using body r log by (auto intro!: exI [of _ "[] :: u32 list"])
  next
    case False
    then obtain vs w where "io_log s' = io_log s1 @ map (Rd a) vs @ [Rd a w]" "w AND bits = 0"
      using body r IH by fastforce
    then show ?thesis using log by (auto intro!: exI [of _ "v # vs"])
  qed
qed

text \<open>Reads only.\<close>

definition only_reads :: "access list \<Rightarrow> bool" where
  "only_reads l \<longleftrightarrow> (\<forall>x \<in> set l. case x of Rd a v \<Rightarrow> True | Wr a v \<Rightarrow> False)"

lemma only_reads_simps [simp]: "only_reads []" "only_reads (Rd a v # l) = only_reads l" "only_reads (map (Rd a) vs)"
  "only_reads (l @ k) = (only_reads l \<and> only_reads k)"
  by (auto simp: only_reads_def)

lemma mbox_response_Some:
  assumes "mbox_response D r mbox s = Some (ok, s')"
  shows "\<exists>l. io_log s' = io_log s @ l @ [Rd MBOX_READ r] \<and> only_reads l \<and> ok = (load32 (io_ram s') (mbox + 4) = MBOX_RESPONSE)"
proof -
  let ?P = "\<lambda>(D :: 'a device) r mbox s res. \<exists>l. io_log (snd res) = io_log s @ l @ [Rd MBOX_READ r] \<and> only_reads l \<and>
    fst res = (load32 (io_ram (snd res)) (mbox + 4) = MBOX_RESPONSE)"
  have "?P D r mbox s (ok, s')"
  proof (rule mbox_response.raw_induct [where P = ?P, OF _ assms])
    fix loop :: "'a device \<Rightarrow> u32 \<Rightarrow> size_t \<Rightarrow> 'a io \<Rightarrow> (bool \<times> 'a io) option" and D :: "'a device" and r mbox s res
    assume IH: "\<And>D r mbox s res. loop D r mbox s = Some res \<Longrightarrow> ?P D r mbox s res"
      and body: "Option.bind (wait_clear D MBOX_STATUS MBOX_EMPTY s) (\<lambda>s. let (v, s) = mmio_read D MBOX_READ s in
        if r = v then Some (load32 (io_ram s) (mbox + 4) = MBOX_RESPONSE, s) else loop D r mbox s) = Some res"
    then obtain s1 where s1: "wait_clear D MBOX_STATUS MBOX_EMPTY s = Some s1" by (auto simp: bind_eq_Some_conv)
    then obtain vs w where log1: "io_log s1 = io_log s @ map (Rd MBOX_STATUS) vs @ [Rd MBOX_STATUS w]"
      using wait_clear_Some by blast
    obtain v s2 where r: "mmio_read D MBOX_READ s1 = (v, s2)" by fastforce
    have log2: "io_log s2 = io_log s1 @ [Rd MBOX_READ v]" using mmio_read_simps(3) [of D MBOX_READ s1] r by simp
    show "?P D r mbox s res"
    proof (cases "r = v")
      case True
      then show ?thesis
        using body s1 r log1 log2 by (auto intro!: exI [of _ "map (Rd MBOX_STATUS) vs @ [Rd MBOX_STATUS w]"])
    next
      case False
      then obtain l where "io_log (snd res) = io_log s2 @ l @ [Rd MBOX_READ r]" "only_reads l"
          "fst res = (load32 (io_ram (snd res)) (mbox + 4) = MBOX_RESPONSE)"
        using body s1 r IH by fastforce
      then show ?thesis
        using log1 log2 by (auto intro!: exI [of _ "map (Rd MBOX_STATUS) vs @ [Rd MBOX_STATUS w, Rd MBOX_READ v] @ l"])
    qed
  qed
  then show ?thesis by simp
qed

section \<open>Hexadecimal numbers\<close>

text \<open>The digits that formatted output writes, padded with zeros, one by one.\<close>

lemma hex_step: "n mod 16 = n AND 15" "n div 16 = drop_bit 4 n" for n :: "64 word"
  using take_bit_eq_mod [of 4 n] take_bit_eq_mask [of 4 n] drop_bit_eq_div [of 4 n] by (simp_all add: mask_eq_exp_minus_1)

lemma digit_char_zero: "digit_char fmt 0 = CHR ''0''"
proof -
  have "char_of (48 :: nat) = CHR ''0''" by code_simp
  then show ?thesis by (simp add: digit_char_def)
qed

lemma padded_digits:
  assumes "fmt \<noteq> CHR ''u''" and "length (digit_loop fmt n) \<le> k"
  shows "replicate (k - length (digit_loop fmt n)) (CHR ''0'') @ rev (digit_loop fmt n) =
    map (\<lambda>i. digit_char fmt (drop_bit (4 * i) n AND 15)) (rev [0..<k])"
  using assms(2)
proof (induction k arbitrary: n)
  case 0
  then show ?case by simp
next
  case (Suc k)
  have split: "rev [0..<Suc k] = map Suc (rev [0..<k]) @ [0]" by (simp add: rev_map [symmetric] map_Suc_upt upt_conv_Cons del: upt_Suc)
  have later: "map (\<lambda>i. digit_char fmt (drop_bit (4 * i) n AND 15)) (map Suc (rev [0..<k])) =
      map (\<lambda>i. digit_char fmt (drop_bit (4 * i) (drop_bit 4 n) AND 15)) (rev [0..<k])" by (simp add: add.commute)
  have zero: "digit_char fmt 0 = CHR ''0''" by (simp add: digit_char_zero)
  show ?case
  proof (cases "n = 0")
    case True
    then have "digit_loop fmt n = []" by (simp add: digit_loop.simps)
    then show ?thesis using True zero by (simp add: map_replicate_const replicate_append_same [symmetric] del: upt_Suc)
  next
    case False
    then have ds: "digit_loop fmt n = digit_char fmt (n AND 15) # digit_loop fmt (drop_bit 4 n)"
      using assms(1) by (subst digit_loop.simps) (simp add: base_of_def hex_step)
    then show ?thesis using Suc.IH [of "drop_bit 4 n"] Suc.prems unfolding split map_append later by simp
  qed
qed

lemma hex_char:
  fixes n :: u32
  assumes "n < 16"
  shows "of_char (digit_char CHR ''X'' (ucast n)) = n + (if n > 9 then 0x37 else 0x30)"
proof -
  have n: "unat n < 16" using assms by (simp add: word_less_nat_alt)
  then have w: "unat (ucast n :: 64 word) = unat n" by (simp add: unsigned_ucast_eq take_bit_nat_eq_self)
  have of_char: "(of_char (char_of m) :: u32) = of_nat m" if "m < 256" for m :: nat
    using that of_nat_of_char [of "char_of m", where 'a = u32] by simp
  have big: "ucast n \<ge> (10 :: 64 word) \<longleftrightarrow> n > 9" using w by (auto simp: word_le_nat_alt word_less_nat_alt)
  show ?thesis
  proof (cases "n > 9")
    case True
    then have "9 < unat n" by (simp add: word_less_nat_alt)
    then have "65 + unat n mod 10 = 55 + unat n" using n by (simp add: le_mod_geq)
    then have "(of_nat (65 + unat n mod 10) :: u32) = 55 + n" by (simp only: of_nat_add of_nat_unat32) simp
    moreover have "digit_char CHR ''X'' (ucast n) = char_of (65 + unat n mod 10)"
      using True by (simp add: digit_char_def big unat_mod w)
    moreover have "65 + unat n mod 10 < 256" by (simp add: trans_less_add2 less_trans [OF mod_less_divisor])
    ultimately show ?thesis using True of_char by simp
  next
    case False
    then have "unat n < 10" by (simp add: word_less_nat_alt)
    then show ?thesis using False n by (simp add: digit_char_def big unat_mod w of_char)
  qed
qed

lemma hex8_digits:
  assumes "length (digit_loop CHR ''X'' (ucast d)) \<le> 8"
  shows "hex8 d = map (\<lambda>i. digit_char CHR ''X'' (drop_bit (4 * i) (ucast d) AND 15)) (rev [0..<8])"
proof -
  have X: "CHR ''X'' \<noteq> CHR ''u''" by simp
  have "hex8 d = replicate (8 - length (digit_loop CHR ''X'' (ucast d))) CHR ''0'' @ rev (digit_loop CHR ''X'' (ucast d))"
  proof (cases "(ucast d :: u64) = 0")
    case True
    then have "hex8 d = replicate 7 CHR ''0'' @ [CHR ''0'']" by (simp add: hex8_def uint_to_str_def pad_def)
    also have "\<dots> = replicate 8 CHR ''0''" by (simp add: numeral_eq_Suc)
    finally show ?thesis using True by (simp add: digit_loop.simps)
  next
    case False
    then show ?thesis using assms by (auto simp: hex8_def Let_def uint_to_str_eq pad_def)
  qed
  then show ?thesis by (simp only: padded_digits [OF X assms])
qed

section \<open>Properties\<close>

text \<open>C37: Sending a text over the serial port of the Raspberry Pi, if the port always gets ready in the end,
  returns after exactly the characters of the text have been written, with a carriage return before
  every line end, each of them right after the port has reported that it has room.\<close>

theorem uart_puts_paced:
  assumes "gets_ready D UART0_FR 0x20 f"
  shows "\<exists>s' l. uart_puts D str s = Some s' \<and> io_log s' = io_log s @ l \<and> sent l = with_returns str \<and> paced False l"
  using uart_puts_sends [OF assms, of s str] by (simp add: sends_def)

text \<open>The routine that sends a number in hexadecimal writes the same characters as formatted output does for
  eight upper case digits.\<close>

theorem uart_hex_equivalent:
  assumes "gets_ready D UART0_FR 0x20 f"
  shows "\<exists>s' l. uart_hex D d s = Some s' \<and> io_log s' = io_log s @ l \<and>
    map_option (map of_char) (sprintf ''%08X'' [VNum d]) = Some (sent l)"
proof -
  let ?n = "ucast d :: 64 word"
  have digit: "drop_bit c ?n AND 15 = ucast (drop_bit c d AND 15)" for c
  proof -
    have "(15 :: 64 word) = mask 4" "(15 :: u32) = mask 4" by (simp_all add: mask_eq_exp_minus_1)
    then show ?thesis by (simp only:) (rule bit_word_eqI, auto simp: bit_simps dest: bit_imp_le_length)
  qed
  have small: "drop_bit c d AND 15 < 16" for c
  proof -
    have "drop_bit c d AND 15 \<le> 15" by (rule word_and_le1)
    then show ?thesis by (simp add: word_le_nat_alt word_less_nat_alt)
  qed
  have char: "of_char (digit_char CHR ''X'' (drop_bit c ?n AND 15)) = hex_tetrad d c" for c
    using hex_char [OF small [of c]] by (simp add: hex_tetrad_def Let_def digit)
  have len: "length (digit_loop CHR ''X'' ?n) \<le> 8"
    by (rule digit_loop_length) (simp add: base_of_def unsigned_ucast_eq le_less_trans [OF take_bit_nat_less_eq_self])
  have "hex8 d = map (\<lambda>i. digit_char CHR ''X'' (drop_bit (4 * i) ?n AND 15)) (rev [0..<8])"
    by (rule hex8_digits [OF len])
  moreover have places: "[28, 24, 20, 16, 12, 8, 4, 0] = map (\<lambda>i. 4 * i) (rev [0..<8 :: nat])" by (simp add: upt_rec)
  ultimately have "map of_char (hex8 d) = map (hex_tetrad d) [28, 24, 20, 16, 12, 8, 4, 0]"
    unfolding places using char by (simp add: comp_def)
  moreover have "sprintf ''%08X'' [VNum d] = Some (hex8 d)"
    by (simp add: sprintf_def format_defs hex8_def Let_def)
  ultimately have "map_option (map of_char) (sprintf ''%08X'' [VNum d]) = Some (map (hex_tetrad d) [28, 24, 20, 16, 12, 8, 4, 0])" by simp
  then show ?thesis using uart_hex_sends [OF assms, of s d] by (auto simp: sends_def)
qed

text \<open>A call over the mailbox writes one message, after it has seen that there is room, and returns only
  after it has read the answer to this message; the result says whether the answer is marked as a
  success in the memory of the message.\<close>

theorem mbox_call_answered:
  assumes "mbox_call D ch mbox s = Some (ok, s')"
  defines "r \<equiv> mbox OR ucast (ch AND 0xF)"
  shows "\<exists>l v k. io_log s' = io_log s @ l @ [Rd MBOX_STATUS v, Wr MBOX_WRITE r] @ k @ [Rd MBOX_READ r] \<and>
    v AND MBOX_FULL = 0 \<and> only_reads l \<and> only_reads k \<and> ok = (load32 (io_ram s') (mbox + 4) = MBOX_RESPONSE)"
proof -
  obtain s1 where s1: "wait_clear D MBOX_STATUS MBOX_FULL s = Some s1"
      "mbox_response D r mbox (mmio_write D MBOX_WRITE r s1) = Some (ok, s')"
    using assms(1) by (auto simp: mbox_call_def Let_def bind_eq_Some_conv r_def)
  obtain vs v where "io_log s1 = io_log s @ map (Rd MBOX_STATUS) vs @ [Rd MBOX_STATUS v]" "v AND MBOX_FULL = 0"
    using wait_clear_Some [OF s1(1)] by blast
  moreover obtain k where "io_log s' = io_log (mmio_write D MBOX_WRITE r s1) @ k @ [Rd MBOX_READ r]" "only_reads k"
      "ok = (load32 (io_ram s') (mbox + 4) = MBOX_RESPONSE)"
    using mbox_response_Some [OF s1(2)] by blast
  ultimately show ?thesis
    by (intro exI [of _ "map (Rd MBOX_STATUS) vs"] exI [of _ v] exI [of _ k]) simp
qed

text \<open>The interrupt controller is set up for an interrupt below 32: it is enabled, sent to the first
  processor, and given the highest priority. For a higher number the bit is computed with a
  shift by more than the width of a word, which is undefined.\<close>

theorem gic_init_result:
  "case gic_init D irq_no s of
     None \<Rightarrow> 32 \<le> irq_no
   | Some s' \<Rightarrow> irq_no < 32 \<and> io_log s' = io_log s @
       [Wr GICC_BASE 0, Wr (GICC_BASE + 4) 0xFF, Wr (GICC_BASE + 8) 0, Wr GICC_BASE 1, Wr GICD_BASE 0,
        Wr (DIST_IPRIORITYR (irq_no div 4)) 0, Wr (DIST_ITARGETSR (irq_no div 4)) (push_bit (8 * (unat irq_no mod 4)) 1),
        Wr (DIST_ISENABLER 0) (push_bit (unat irq_no) 1), Wr GICD_BASE 1]"
proof -
  have m: "unat (irq_no mod 4) < 4" "unat (irq_no mod 4) = unat irq_no mod 4" by (simp_all add: unat_mod)
  then have shift: "unat (irq_no mod 4 * 8) = 8 * (unat irq_no mod 4)" by (subst unat_mult_lem [THEN iffD1]) auto
  then have "irq_no mod 4 * 8 < 32" using m by (simp add: word_less_nat_alt)
  moreover have "irq_no div 32 = 0" if "irq_no < 32"
    using that by (simp add: word_arith_nat_div word_less_nat_alt)
  ultimately show ?thesis
    by (auto simp: gic_init_def Let_def shifted_def shift not_less split: option.split)
qed

text \<open>Disabling the timer of the Thumb board disables every interrupt: the register to disable interrupts
  reads as the set of enabled ones, and all of it is written back with the bit of the timer added.\<close>

theorem disable_timer_disables_all:
  assumes "\<And>x. fst (dev_read D NVIC_ICER0 x) = enabled x" and "\<And>x a. enabled (snd (dev_read D a x)) = enabled x"
    and "\<And>x v. enabled (dev_write D NVIC_ICER0 v x) = enabled x AND NOT v"
    and "\<And>x v. enabled (dev_write D SYST_CSR v x) = enabled x"
  shows "enabled (io_ram (k_disable_timer D s), io_dev (k_disable_timer D s)) = 0"
proof -
  obtain e s1 where e: "mmio_read D NVIC_ICER0 s = (e, s1)" by fastforce
  let ?s2 = "mmio_write D NVIC_ICER0 (e OR TIMER_INT_BIT) s1"
  obtain c s3 where c: "mmio_read D SYST_CSR ?s2 = (c, s3)" by fastforce
  have x1: "e = enabled (io_ram s, io_dev s)" "enabled (io_ram s1, io_dev s1) = enabled (io_ram s, io_dev s)"
    using mmio_read_simps(1,2) [of D NVIC_ICER0 s] e assms(1,2) by simp_all
  have "enabled (io_ram ?s2, io_dev ?s2) = e AND NOT (e OR TIMER_INT_BIT)"
    unfolding mmio_write_simps(2) assms(3) using x1 by simp
  also have "\<dots> = 0" by (rule bit_word_eqI) (auto simp: bit_simps)
  finally have "enabled (io_ram s3, io_dev s3) = 0"
    using mmio_read_simps(2) [of D SYST_CSR ?s2] c assms(2) [of SYST_CSR "(io_ram ?s2, io_dev ?s2)"] by simp
  then show ?thesis
    by (simp add: k_disable_timer_def Let_def e c assms(4))
qed

section \<open>Devices\<close>

text \<open>One that is always ready and answers every message, and one that keeps the enabled interrupts.\<close>

definition ready_device :: "u32 \<Rightarrow> unit device" where
  "ready_device answer = \<lparr>dev_read = (\<lambda>a x. (if a = MBOX_READ then answer else 0, x)), dev_write = (\<lambda>a v x. x)\<rparr>"

definition quiet_io :: "'d \<Rightarrow> 'd io" where
  "quiet_io d = \<lparr>io_ram = (\<lambda>_. 0), io_dev = d, io_log = []\<rparr>"

lemma ready_device_ready: "gets_ready (ready_device r) UART0_FR 0x20 (\<lambda>_. 0)"
  by (simp add: gets_ready_def ready_device_def UART0_FR_def MBOX_READ_def VIDEOCORE_MBOX_def MMIO_BASE_def)

theorem uart_puts_paced_witness:
  "\<exists>s'. uart_puts (ready_device 0) ''ok'' (quiet_io ()) = Some s' \<and> sent (io_log s') = [111, 107]"
  using uart_puts_paced [OF ready_device_ready, of 0 "''ok''" "quiet_io ()"] by (auto simp: quiet_io_def)

theorem uart_hex_equivalent_witness:
  "\<exists>s'. uart_hex (ready_device 0) 0xBEEF (quiet_io ()) = Some s' \<and>
     map_option (map of_char) (sprintf ''%08X'' [VNum 0xBEEF]) = Some (sent (io_log s'))"
  using uart_hex_equivalent [OF ready_device_ready, of 0 "0xBEEF" "quiet_io ()"] by (auto simp: quiet_io_def)

lemma ready_mbox_call:
  "mbox_call (ready_device 0x1008) 8 0x1000 (quiet_io ()) =
     Some (False, \<lparr>io_ram = (\<lambda>_. 0), io_dev = (), io_log = [Rd MBOX_STATUS 0, Wr MBOX_WRITE 0x1008, Rd MBOX_STATUS 0, Rd MBOX_READ 0x1008]\<rparr>)"
proof -
  have ne: "MBOX_STATUS \<noteq> MBOX_READ" "(0x1000 :: size_t) OR 8 = 0x1008"
    by (simp_all add: MBOX_STATUS_def MBOX_READ_def)
  then have wait: "wait_clear (ready_device 0x1008) MBOX_STATUS bits s = Some (snd (mmio_read (ready_device 0x1008) MBOX_STATUS s))" for bits s
    by (subst wait_clear.simps) (simp add: mmio_read_def ready_device_def)
  show ?thesis
    by (simp add: mbox_call_def Let_def wait ne mbox_response.simps)
      (simp add: mmio_read_def mmio_write_def ready_device_def quiet_io_def ne MBOX_RESPONSE_def)
qed

theorem mbox_call_answered_witness:
  "\<exists>s' l v k. mbox_call (ready_device 0x1008) 8 0x1000 (quiet_io ()) = Some (False, s') \<and>
     io_log s' = l @ [Rd MBOX_STATUS v, Wr MBOX_WRITE 0x1008] @ k @ [Rd MBOX_READ 0x1008] \<and> v AND MBOX_FULL = 0"
  using mbox_call_answered [OF ready_mbox_call] ready_mbox_call by (auto simp: quiet_io_def)

definition nvic_device :: "u32 device" where
  "nvic_device = \<lparr>dev_read = (\<lambda>a (m, e). (if a = NVIC_ICER0 \<or> a = NVIC_ISER0 then e else 0, m, e)),
     dev_write = (\<lambda>a v (m, e). (m, if a = NVIC_ICER0 then e AND NOT v else if a = NVIC_ISER0 then e OR v else e))\<rparr>"

theorem disable_timer_disables_all_witness:
  "io_dev (quiet_io 0x28000) \<noteq> (0 :: u32) \<and> io_dev (k_disable_timer nvic_device (quiet_io 0x28000)) = 0"
proof -
  have "snd (io_ram (k_disable_timer nvic_device (quiet_io 0x28000)), io_dev (k_disable_timer nvic_device (quiet_io 0x28000))) = 0"
    by (rule disable_timer_disables_all [where enabled = snd])
      (simp_all add: nvic_device_def NVIC_ICER0_def NVIC_ISER0_def SYST_CSR_def split: prod.split)
  then show ?thesis by (simp add: quiet_io_def)
qed

end
