(* ===== verification/Print_Parse.thy ===== *)
theory Print_Parse
  imports Drivers
begin

text \<open>
  Numbers that formatted output has written are read back by the routine that reads the widths of
  formats, \<open>consume_uint\<close> of \<open>src/common/print.cpp\<close>.
\<close>

lemma pow_loop_eq: "pow_loop b (Suc k) r = r * b ^ k"
  by (induction k arbitrary: r) (subst pow_loop.simps, simp)+

lemma pow_eq: "pow b (Suc k) = b ^ k"
  by (simp add: pow_def pow_loop_eq)

lemma str_value_Cons: "str_value b (c # cs) = char_digit c * b ^ length cs + str_value b cs"
proof (induction cs rule: rev_induct)
  case (snoc d cs)
  then show ?case
    using str_value_snoc [of b "c # cs" d] str_value_snoc [of b cs d] by (simp add: algebra_simps)
qed (simp add: str_value_def)

lemma digit_weight:
  assumes "is_digit c"
  shows "of_char c - 48 = (of_nat (char_digit c) :: size_t)"
proof -
  have "(of_char c :: size_t) = of_nat (of_char c)" by (simp add: of_nat_of_char)
  then show ?thesis using assms by (simp add: is_digit_def char_digit_def of_nat_diff)
qed

text \<open>Weights of places in ten digits fit a word.\<close>

lemma weight_div:
  assumes "k < 9"
  shows "(10 :: size_t) ^ Suc k div 10 = 10 ^ k"
proof -
  have "k \<in> {0, 1, 2, 3, 4, 5, 6, 7, 8}" using assms by auto
  then show ?thesis by auto
qed

text \<open>The loop adds up the digits with the weights of their places.\<close>

lemma digits_value_eq:
  assumes "length cs \<le> 10" and "cs \<noteq> []" and "\<forall>c \<in> set cs. is_digit c"
  shows "digits_value cs num (10 ^ (length cs - 1)) = num + of_nat (str_value 10 cs)"
  using assms
proof (induction cs arbitrary: num)
  case (Cons c cs)
  show ?case
  proof (cases cs)
    case Nil
    then show ?thesis using Cons.prems(3) by (simp add: digit_weight str_value_Cons) (simp add: str_value_def)
  next
    case (Cons d ds)
    then have "(10 :: size_t) ^ length cs div 10 = 10 ^ (length cs - 1)" using weight_div [of "length ds"] Cons.prems(1) by simp
    then show ?thesis
      using Cons.IH [of "num + of_nat (char_digit c) * 10 ^ length cs"] Cons.prems Cons
      by (simp add: digit_weight str_value_Cons [of 10 c] algebra_simps)
  qed
qed simp

lemma digit_loop_digits: "c \<in> set (digit_loop CHR ''u'' n) \<Longrightarrow> is_digit c"
proof (induction "CHR ''u''" n rule: digit_loop.induct)
  case (1 n)
  have "unat (n mod 10) < 10" by (simp add: unat_mod)
  then have "unat (n mod 10) = unat (n mod 10 mod 10)" "\<not> n mod 10 \<ge> 10" by (simp_all add: word_le_nat_alt unat_mod)
  then have "is_digit (digit_char CHR ''u'' (n mod 10))"
    using \<open>unat (n mod 10) < 10\<close> by (simp add: is_digit_def digit_char_def)
  then show ?case using 1 by (subst (asm) digit_loop.simps) (auto simp: base_of_def split: if_splits)
qed

text \<open>C40: Printing an unsigned number in decimal and reading it back gives the number again and leaves the text
  that follows, if that does not go on with a digit.\<close>

theorem print_parse:
  assumes "rest = [] \<or> \<not> is_digit (hd rest)"
  shows "consume_uint (uint_to_str (ucast v) CHR ''u'' @ rest) = (v, rest)"
proof -
  let ?ds = "uint_to_str (ucast v) CHR ''u''"
  have digits: "\<forall>c \<in> set ?ds. is_digit c"
  proof (cases "(ucast v :: u64) = 0")
    case True
    then show ?thesis by (simp add: uint_to_str_def is_digit_def)
  next
    case False
    then show ?thesis using digit_loop_digits by (auto simp: uint_to_str_eq)
  qed
  have val: "str_value 10 ?ds = unat (ucast v :: u64)"
    using digit_loop_value [of "CHR ''u''" "ucast v"]
    by (cases "(ucast v :: u64) = 0") (simp_all add: uint_to_str_eq base_of_def, simp add: uint_to_str_def str_value_def char_digit_def)
  have "unat (ucast v :: u64) = unat v" by (simp add: unsigned_ucast_eq take_bit_nat_eq_self less_trans [OF unat_lt32])
  then have reads: "(of_nat (str_value 10 ?ds) :: size_t) = v" using val by simp
  have "unat (ucast v :: u64) < 10 ^ 10" using \<open>unat (ucast v :: u64) = unat v\<close> less_trans [OF unat_lt32 [of v]] by simp
  then have len: "length ?ds \<le> 10" by (intro uint_to_str_length) (simp_all add: base_of_def)
  have take: "takeWhile is_digit (?ds @ rest) = ?ds" "dropWhile is_digit (?ds @ rest) = rest"
    using digits assms by (cases rest; simp)+
  have "pow 10 (length ?ds) = 10 ^ (length ?ds - 1)"
    using uint_to_str_nonempty [of "ucast v" "CHR ''u''"] pow_eq [of 10 "length ?ds - 1"] by simp
  then show ?thesis
    using digits_value_eq [OF len uint_to_str_nonempty digits, of 0] reads uint_to_str_nonempty
    by (simp add: consume_uint_def Let_def take)
qed

theorem print_parse_witness: "consume_uint (uint_to_str (ucast (4294967290 :: u32)) CHR ''u'' @ ''s'') = (4294967290, ''s'')"
  by (rule print_parse) (simp add: is_digit_def)

end
