(* ===== verification/Shell.thy ===== *)
theory Shell
  imports Assertion
begin

text \<open>
  The shell, \<open>src/demos/shell/shell.c\<close>, and the programs \<open>ps\<close> and \<open>ls\<close> beside it: user programs over
  the system calls. Command lines are edited and split in memory, so the strings the commands get
  are the ones that stand there. \<open>fp\<close> is the address of the frame of a function: the frames of the
  functions it calls are below \<open>fp + 32\<close>, its own variables from there on.
\<close>

section \<open>Data\<close>

text \<open>What the linker fixes: the three functions that commands can start.\<close>

record Shell =
  sh_help :: size_t
  sh_quit :: size_t
  sh_run :: size_t

record BuiltinCommand =
  bc_name :: string
  bc_fn :: size_t
  bc_help_text :: string

definition builtins :: "Shell \<Rightarrow> BuiltinCommand list" where
  "builtins sh = [\<lparr>bc_name = ''help'', bc_fn = sh_help sh, bc_help_text = ''help <builtin name>''\<rparr>,
     \<lparr>bc_name = ''quit'', bc_fn = sh_quit sh, bc_help_text = ''Quit the shell''\<rparr>,
     \<lparr>bc_name = ''run'', bc_fn = sh_run sh, bc_help_text = ''run <program name>''\<rparr>]"

definition programs :: "string list" where
  "programs = [''echo'', ''ps'', ''ls'']"

text \<open>A processed command line: the number of parts, and a pointer to each of them.\<close>

definition MAX_CMD_LINE_PARTS :: nat where "MAX_CMD_LINE_PARTS = 20"
definition SIZEOF_ProcessedCmdLine :: nat where "SIZEOF_ProcessedCmdLine = 84"

definition num_parts :: "mem \<Rightarrow> size_t \<Rightarrow> size_t" where
  "num_parts m parts = load32 m parts"

definition cmd_part :: "mem \<Rightarrow> size_t \<Rightarrow> nat \<Rightarrow> size_t" where
  "cmd_part m parts i = load32 m (parts + 4 + 4 * of_nat i)"

section \<open>Splitting a command line\<close>

definition AddCmdLinePart :: "kernel_call \<Rightarrow> size_t \<Rightarrow> size_t \<Rightarrow> kstate \<Rightarrow> unit kresult" where
  "AddCmdLinePart sys cmdline p s =
     (let m = store32 (memory s) (cmdline + 4 + 4 * num_parts (memory s) cmdline) p;
          m = store32 m cmdline (num_parts m cmdline + 1)
      in user_assert sys (num_parts m cmdline \<le> of_nat MAX_CMD_LINE_PARTS)
           ''cmdline->num_parts <= MAX_CMD_LINE_PARTS'' ''shell.c'' 17 ''AddCmdLinePart'' (set_memory m s))"

text \<open>The result is where the loop has stopped and where the last part starts.\<close>

partial_function (option) split_loop ::
  "kernel_call \<Rightarrow> size_t \<Rightarrow> size_t \<Rightarrow> size_t \<Rightarrow> kstate \<Rightarrow> (size_t \<times> size_t) kresult option" where
  "split_loop sys parts cur start_part s =
     (if memory s cur \<noteq> 0 then
        if memory s cur = 0x20 then
          (case (if cur \<noteq> start_part then AddCmdLinePart sys parts start_part s else Ret () s) of
             Ret _ s \<Rightarrow> split_loop sys parts (cur + 1) (cur + 1) (set_memory ((memory s)(cur := 0)) s)
           | Exit n s \<Rightarrow> Some (Exit n s)
           | Undef \<Rightarrow> Some Undef)
        else split_loop sys parts (cur + 1) start_part s
      else Some (Ret (cur, start_part) s))"

text \<open>The structure is built where the caller wants it. A line without an end is undefined.\<close>

definition split_cmd_line :: "kernel_call \<Rightarrow> size_t \<Rightarrow> size_t \<Rightarrow> kstate \<Rightarrow> unit kresult" where
  "split_cmd_line sys parts cmd_line s =
     (let s = set_memory (store_bytes (memory s) parts (replicate SIZEOF_ProcessedCmdLine 0)) s in
      if cmd_line = NULL \<or> memory s cmd_line = 0 then Ret () s
      else obind (case split_loop sys parts cmd_line cmd_line s of None \<Rightarrow> Undef | Some r \<Rightarrow> r)
        (\<lambda>(cur, start_part) s. if start_part < cur then AddCmdLinePart sys parts start_part s else Ret () s))"

section \<open>Commands\<close>

text \<open>A part of the line compared with a literal.\<close>

definition is_literal :: "size_t \<Rightarrow> string \<Rightarrow> kstate \<Rightarrow> bool kresult" where
  "is_literal p name s =
     (case strcmp (memory s) p (b_literal (build s) name) of None \<Rightarrow> Undef | Some r \<Rightarrow> Ret (r = 0) s)"

text \<open>A message with a string of the memory as its argument.\<close>

definition print_with :: "string \<Rightarrow> size_t \<Rightarrow> kstate \<Rightarrow> unit kresult" where
  "print_with fmt p s =
     (case read_string (memory s) p of None \<Rightarrow> Undef | Some v \<Rightarrow> k_printf fmt [VStr (Some v)] s)"

definition store_args :: "size_t \<Rightarrow> ThreadArgs \<Rightarrow> kstate \<Rightarrow> kstate" where
  "store_args p a s = set_memory (store_bytes (memory s) p (args_bytes a)) s"

text \<open>Both ways to start a thread end in handing over to it.\<close>

definition hand_over :: "kernel_call \<Rightarrow> size_t \<Rightarrow> int \<Rightarrow> kstate \<Rightarrow> unit kresult" where
  "hand_over sys fp tid s =
     obind (set_child sys fp tid s) (\<lambda>_ s. obind (yield_to sys tid s) (\<lambda>_ s. Ret () s))"

definition run_cmd :: "kernel_call \<Rightarrow> Shell \<Rightarrow> size_t \<Rightarrow> u32 \<Rightarrow> size_t \<Rightarrow> kstate \<Rightarrow> unit kresult" where
  "run_cmd sys sh fp argc argv s =
     (if sint argc < 2 then k_printf (''run expects at least 1 argument, the program name'' @ [CHR 0x0A]) [] s
      else
        (let args = fp + 32;
             s = store_args args (make_args (argc - 1) (argv + 4) 0 0) s
         in obind (is_literal (load32 (memory s) (argv + 4)) ''run'' s) (\<lambda>again s.
            obind (if again then add_named_thread_with_args sys fp (sh_run sh) (load32 (memory s) (argv + 4)) args s
                   else add_thread_from_file_with_args sys fp (load32 (memory s) (argv + 4)) args s) (\<lambda>tid s.
            if tid = INVALID_THREAD then print_with (''Couldn't load \"%s\"'' @ [CHR 0x0A]) (load32 (memory s) (argv + 4)) s
            else hand_over sys fp tid s))))"

fun help_loop :: "size_t \<Rightarrow> BuiltinCommand list \<Rightarrow> kstate \<Rightarrow> unit kresult" where
  "help_loop argv [] s = print_with (''Unknown builtin \"%s\"'' @ [CHR 0x0A]) (load32 (memory s) (argv + 4)) s"
| "help_loop argv (b # bs) s =
     obind (is_literal (load32 (memory s) (argv + 4)) (bc_name b) s) (\<lambda>eq s.
       if eq then k_printf (''%s'' @ [CHR 0x0A]) [VStr (Some (bc_help_text b))] s
       else help_loop argv bs s)"

fun list_loop :: "string list \<Rightarrow> kstate \<Rightarrow> unit kresult" where
  "list_loop [] s = Ret () s"
| "list_loop (n # ns) s = obind (k_printf ''%s '' [VStr (Some n)] s) (\<lambda>_ s. list_loop ns s)"

definition help_cmd :: "Shell \<Rightarrow> u32 \<Rightarrow> size_t \<Rightarrow> kstate \<Rightarrow> unit kresult" where
  "help_cmd sh argc argv s =
     (if sint argc > 2 then k_printf (''help expects at most 1 command name'' @ [CHR 0x0A]) [] s
      else if argc = 2 then help_loop argv (builtins sh) s
      else
        obind (k_printf (''Builtins:'' @ [CHR 0x0A]) [] s) (\<lambda>_ s.
        obind (list_loop (map bc_name (builtins sh)) s) (\<lambda>_ s.
        obind (k_printf (CHR 0x0A # ''Programs:'' @ [CHR 0x0A]) [] s) (\<lambda>_ s.
        obind (list_loop programs s) (\<lambda>_ s. k_printf [CHR 0x0A] [] s)))))"

definition quit_cmd :: "kernel_call \<Rightarrow> kstate \<Rightarrow> unit kresult" where
  "quit_cmd sys s = exit sys 0 s"

text \<open>The first part of the line, read again for every comparison, in the two tables.\<close>

fun builtin_loop :: "kernel_call \<Rightarrow> size_t \<Rightarrow> size_t \<Rightarrow> size_t \<Rightarrow> BuiltinCommand list \<Rightarrow> int \<Rightarrow> kstate \<Rightarrow> int kresult" where
  "builtin_loop sys fp parts args [] tid s = Ret tid s"
| "builtin_loop sys fp parts args (b # bs) tid s =
     obind (is_literal (cmd_part (memory s) parts 0) (bc_name b) s) (\<lambda>eq s.
       if eq then add_named_thread_with_args sys fp (bc_fn b) (b_literal (build s) (bc_name b)) args s
       else builtin_loop sys fp parts args bs tid s)"

fun program_loop :: "kernel_call \<Rightarrow> size_t \<Rightarrow> size_t \<Rightarrow> size_t \<Rightarrow> string list \<Rightarrow> int \<Rightarrow> kstate \<Rightarrow> int kresult" where
  "program_loop sys fp parts args [] tid s = Ret tid s"
| "program_loop sys fp parts args (p # ps) tid s =
     obind (is_literal (cmd_part (memory s) parts 0) p s) (\<lambda>eq s.
       if eq then add_thread_from_file_with_args sys fp (b_literal (build s) p) args s
       else program_loop sys fp parts args ps tid s)"

definition do_command :: "kernel_call \<Rightarrow> Shell \<Rightarrow> size_t \<Rightarrow> size_t \<Rightarrow> kstate \<Rightarrow> unit kresult" where
  "do_command sys sh fp cmd s =
     (let parts = fp + 32; args = fp + 116 in
      obind (split_cmd_line sys parts cmd s) (\<lambda>_ s.
      if num_parts (memory s) parts = 0 then Ret () s
      else
        (let s = store_args args (make_args (num_parts (memory s) parts) (parts + 4) 0 0) s in
         obind (builtin_loop sys fp parts args (builtins sh) INVALID_THREAD s) (\<lambda>tid s.
         obind (program_loop sys fp parts args programs tid s) (\<lambda>tid s.
         if tid \<noteq> INVALID_THREAD then hand_over sys fp tid s
         else print_with (''Unknown command \"%s\"'' @ [CHR 0x0A]) cmd s)))))"

section \<open>Editing a line\<close>

definition MAX_CMD_LINE :: nat where "MAX_CMD_LINE = 256"
definition INPUT_BUFFER_SIZE :: nat where "INPUT_BUFFER_SIZE = 16"

text \<open>The fields of a \<open>CmdLineState\<close> at \<open>st\<close>: the line, the position, the input, the current character of it.\<close>

definition pos_at :: "size_t \<Rightarrow> size_t" where "pos_at st = st + 256"
definition in_at :: "size_t \<Rightarrow> size_t" where "in_at st = st + 260"
definition curr_at :: "size_t \<Rightarrow> size_t" where "curr_at st = st + 276"
definition SIZEOF_CmdLineState :: nat where "SIZEOF_CmdLineState = 280"

definition PRINT_PROMPT :: string where "PRINT_PROMPT = ''$ ''"

definition get_pos :: "size_t \<Rightarrow> kstate \<Rightarrow> size_t" where
  "get_pos st s = load32 (memory s) (pos_at st)"

definition set_pos :: "size_t \<Rightarrow> size_t \<Rightarrow> kstate \<Rightarrow> kstate" where
  "set_pos st v s = set_memory (store32 (memory s) (pos_at st) v) s"

definition get_curr :: "size_t \<Rightarrow> kstate \<Rightarrow> size_t" where
  "get_curr st s = load32 (memory s) (curr_at st)"

definition set_curr :: "size_t \<Rightarrow> size_t \<Rightarrow> kstate \<Rightarrow> kstate" where
  "set_curr st v s = set_memory (store32 (memory s) (curr_at st) v) s"

text \<open>The frame of \<open>do_command\<close> is below that of the function that keeps the state.\<close>

definition handle_return :: "kernel_call \<Rightarrow> Shell \<Rightarrow> size_t \<Rightarrow> size_t \<Rightarrow> kstate \<Rightarrow> unit kresult" where
  "handle_return sys sh fp st s =
     (let s = set_memory ((memory s)(st + get_pos st s := 0)) s;
          s = serial_print [CHR 0x0A] (set_pos st 0 s)
      in obind (do_command sys sh fp st s) (\<lambda>_ s. Ret () (set_pos st 0 (serial_print PRINT_PROMPT s))))"

definition handle_end_of_text :: "size_t \<Rightarrow> kstate \<Rightarrow> unit kresult" where
  "handle_end_of_text st s = Ret () (set_pos st 0 (serial_print (CHR 0x0A # PRINT_PROMPT) s))"

definition handle_escape_sequence :: "kernel_call \<Rightarrow> size_t \<Rightarrow> kstate \<Rightarrow> unit kresult" where
  "handle_escape_sequence sys st s =
     (if memory s (get_curr st s + 1) = 0x5B then
        if 0x41 \<le> memory s (get_curr st s + 2) \<and> memory s (get_curr st s + 2) \<le> 0x44
        then Ret () (set_curr st (get_curr st s + 2) s)
        else assert_fail sys ''0'' ''shell.c'' 215 ''handle_escape_sequence'' s
      else assert_fail sys (''0 && \"Unhandled escape sequence!'' @ [CHR 0x5C, CHR ''n'', CHR 0x22]) ''shell.c'' 219 ''handle_escape_sequence'' s)"

definition handle_backspace :: "size_t \<Rightarrow> kstate \<Rightarrow> unit kresult" where
  "handle_backspace st s =
     (if get_pos st s \<noteq> 0
      then Ret () (serial_print [CHR 0x08, CHR '' '', CHR 0x08] (set_pos st (get_pos st s - 1) s))
      else Ret () s)"

definition handle_char :: "size_t \<Rightarrow> kstate \<Rightarrow> unit kresult" where
  "handle_char st s =
     (let c = memory s (in_at st) in
      if get_pos st s < of_nat MAX_CMD_LINE then
        (let s = set_memory ((memory s)(st + get_pos st s := c)) s;
             s = set_pos st (get_pos st s + 1) s
         in Ret () (serial_print [char_of (unat (memory s (in_at st)))] s))
      else Ret () s)"

text \<open>The switch is on the first character of the input, whatever character it is the turn of.\<close>

definition handle_input :: "kernel_call \<Rightarrow> Shell \<Rightarrow> size_t \<Rightarrow> size_t \<Rightarrow> kstate \<Rightarrow> unit kresult" where
  "handle_input sys sh fp st s =
     (let c = memory s (in_at st) in
      if c = 0x0D then handle_return sys sh fp st s
      else if c = 0x03 then handle_end_of_text st s
      else if c = 0x1B then handle_escape_sequence sys st s
      else if c = 0x7F then handle_backspace st s
      else if c = 0x04 then quit_cmd sys s
      else handle_char st s)"

partial_function (option) input_loop :: "kernel_call \<Rightarrow> Shell \<Rightarrow> size_t \<Rightarrow> size_t \<Rightarrow> kstate \<Rightarrow> unit kresult option" where
  "input_loop sys sh fp st s =
     (if memory s (get_curr st s) \<noteq> 0 then
        (case handle_input sys sh fp st s of
           Ret _ s \<Rightarrow> input_loop sys sh fp st (set_curr st (get_curr st s + 1) s)
         | Exit n s \<Rightarrow> Some (Exit n s)
         | Undef \<Rightarrow> Some Undef)
      else Some (Ret () s))"

text \<open>What follows a successful call to read.\<close>

definition process_input :: "kernel_call \<Rightarrow> Shell \<Rightarrow> size_t \<Rightarrow> size_t \<Rightarrow> size_t \<Rightarrow> kstate \<Rightarrow> unit kresult option" where
  "process_input sys sh fp st got s =
     input_loop sys sh fp st
       (set_curr st (in_at st) (set_memory ((memory s)(in_at st + got := 0)) s))"

text \<open>The loop never returns: its result is how the system has ended, or \<open>None\<close>.\<close>

partial_function (option) command_loop :: "kernel_call \<Rightarrow> Shell \<Rightarrow> size_t \<Rightarrow> size_t \<Rightarrow> size_t \<Rightarrow> kstate \<Rightarrow> unit kresult option" where
  "command_loop sys sh fp st input s =
     (case read_file sys input (in_at st) (of_nat (INPUT_BUFFER_SIZE - 1)) s of
        Ret got s \<Rightarrow>
          if got = 0 \<or> got = of_nat INPUT_BUFFER_SIZE then command_loop sys sh fp st input s
          else (case process_input sys sh fp st got s of
              None \<Rightarrow> None
            | Some (Ret _ s) \<Rightarrow> command_loop sys sh fp st input s
            | Some (Exit n s) \<Rightarrow> Some (Exit n s)
            | Some Undef \<Rightarrow> Some Undef)
      | Exit n s \<Rightarrow> Some (Exit n s)
      | Undef \<Rightarrow> Some Undef)"

text \<open>The prompt and the first state of the line are made before the loop.\<close>

definition start_command_loop :: "kernel_call \<Rightarrow> Shell \<Rightarrow> size_t \<Rightarrow> size_t \<Rightarrow> size_t \<Rightarrow> kstate \<Rightarrow> unit kresult option" where
  "start_command_loop sys sh fp st input s =
     command_loop sys sh fp st input
       (serial_print PRINT_PROMPT (set_memory (store_bytes (memory s) st (replicate SIZEOF_CmdLineState 0)) s))"

definition run_shell :: "kernel_call \<Rightarrow> Shell \<Rightarrow> size_t \<Rightarrow> size_t \<Rightarrow> kstate \<Rightarrow> unit kresult option" where
  "run_shell sys sh fp st s =
     (let s = serial_print (replicate 20 CHR ''-'' @ [CHR 0x0A]) s;
          s = serial_print (''----- BK Shell -----'' @ [CHR 0x0A]) s;
          s = serial_print (replicate 20 CHR ''-'' @ [CHR 0x0A]) s
      in case obind (open_file sys (b_literal (build s) '':tt'') O_RDONLY s) (\<lambda>input s.
           obind (user_assert sys (0 \<le> sint input) ''(input >= 0) && \"Could not open stdin!\"'' ''shell.c'' 285 ''run_shell'' s)
             (\<lambda>_ s. Ret input s)) of
           Ret input s \<Rightarrow> start_command_loop sys sh fp st input s
         | Exit n s \<Rightarrow> Some (Exit n s)
         | Undef \<Rightarrow> Some Undef)"

definition setup_shell :: "kernel_call \<Rightarrow> Shell \<Rightarrow> size_t \<Rightarrow> size_t \<Rightarrow> kstate \<Rightarrow> unit kresult option" where
  "setup_shell sys sh fp st s =
     (case obind (set_kernel_config sys 0 (KCFG_LOG_SCHEDULER OR KCFG_LOG_THREADS) s) (\<lambda>_ s.
           set_thread_name sys CURRENT_THREAD (b_literal (build s) ''shell'') s) of
        Ret _ s \<Rightarrow> run_shell sys sh fp st s
      | Exit n s \<Rightarrow> Some (Exit n s)
      | Undef \<Rightarrow> Some Undef)"

end
