(* ===== verification/Command_Line.thy ===== *)
theory Command_Line
  imports Shell Confined
begin

text \<open>
  Command lines: splitting a line gives its words, as strings in the place of the line, and running
  a command starts the thread its first word names.
\<close>

section \<open>Words of a line\<close>

text \<open>The fields between spaces, and the ones of them that are not empty.\<close>

fun fields :: "byte list \<Rightarrow> byte list list" where
  "fields [] = [[]]"
| "fields (b # bs) = (if b = 0x20 then [] # fields bs else (b # hd (fields bs)) # tl (fields bs))"

definition words :: "byte list \<Rightarrow> byte list list" where
  "words bs = filter (\<lambda>w. w \<noteq> []) (fields bs)"

text \<open>Where the words start, in the order in which a scan from the left sees their ends; the second
  result is where the field that is not ended by a space starts.\<close>

fun scan :: "nat \<Rightarrow> nat \<Rightarrow> byte list \<Rightarrow> nat list \<times> nat" where
  "scan start k [] = ([], start)"
| "scan start k (b # bs) =
     (if b = 0x20 then (let r = scan (Suc k) (Suc k) bs in ((if start < k then [start] else []) @ fst r, snd r))
      else scan start (Suc k) bs)"

definition word_starts :: "byte list \<Rightarrow> nat list" where
  "word_starts bs = (let r = scan 0 0 bs in fst r @ (if snd r < length bs then [snd r] else []))"

definition blank :: "byte list \<Rightarrow> byte list" where
  "blank bs = map (\<lambda>b. if b = 0x20 then 0 else b) bs"

lemma length_blank [simp]: "length (blank bs) = length bs" by (simp add: blank_def)

lemma fields_not_Nil [simp]: "fields bs \<noteq> []" by (cases bs) auto

text \<open>The word at a place of the line.\<close>

definition word_at :: "byte list \<Rightarrow> nat \<Rightarrow> byte list" where
  "word_at bs i = takeWhile (\<lambda>b. b \<noteq> 0x20) (drop i bs)"

lemma scan_bounds:
  "start \<le> k \<Longrightarrow> snd (scan start k bs) \<le> k + length bs \<and> start \<le> snd (scan start k bs) \<and>
     (\<forall>i \<in> set (fst (scan start k bs)). start \<le> i \<and> i < k + length bs)"
proof (induction start k bs rule: scan.induct)
  case (2 start k b bs)
  show ?case
  proof (cases "b = 0x20")
    case True
    with 2 show ?thesis by (fastforce simp: Let_def)
  next
    case False
    with 2 show ?thesis by auto
  qed
qed simp

lemma scan_words:
  assumes "start \<le> length p" and "0x20 \<notin> set (drop start p)"
  shows "map (word_at (p @ bs)) (fst (scan start (length p) bs) @
         (if snd (scan start (length p) bs) < length (p @ bs) then [snd (scan start (length p) bs)] else []))
       = filter (\<lambda>w. w \<noteq> []) ((drop start p @ hd (fields bs)) # tl (fields bs))"
  using assms
proof (induction bs arbitrary: p start)
  case Nil
  then have "takeWhile (\<lambda>b. b \<noteq> 0x20) (drop start p) = drop start p" by (auto simp: takeWhile_eq_all_conv)
  with Nil show ?case by (auto simp: word_at_def)
next
  case (Cons b bs)
  show ?case
  proof (cases "b = 0x20")
    case True
    have "takeWhile (\<lambda>b. b \<noteq> 0x20) (drop start p @ b # bs) = drop start p"
      using Cons.prems(2) True by (subst takeWhile_append2) auto
    with Cons.prems(1) have w: "word_at (p @ b # bs) start = drop start p" by (simp add: word_at_def)
    have "map (word_at ((p @ [b]) @ bs)) (fst (scan (Suc (length p)) (Suc (length p)) bs) @
        (if snd (scan (Suc (length p)) (Suc (length p)) bs) < length ((p @ [b]) @ bs)
         then [snd (scan (Suc (length p)) (Suc (length p)) bs)] else []))
      = filter (\<lambda>w. w \<noteq> []) (fields bs)"
      using Cons.IH [of "Suc (length p)" "p @ [b]"] by (simp split: if_splits)
    with True w Cons.prems(1) show ?thesis by (auto simp: Let_def)
  next
    case False
    with Cons.IH [of start "p @ [b]"] Cons.prems show ?thesis by auto
  qed
qed

lemma word_starts_words: "map (word_at bs) (word_starts bs) = words bs"
  using scan_words [of 0 "[]" bs] by (simp add: word_starts_def words_def Let_def split: if_splits)

lemma word_starts_less: "i \<in> set (word_starts bs) \<Longrightarrow> i < length bs"
  using scan_bounds [of 0 0 bs] by (auto simp: word_starts_def Let_def split: if_splits)

lemma length_word_starts: "length (word_starts bs) = length (words bs)"
  by (metis length_map word_starts_words)

section \<open>The structure in memory\<close>

definition parts_table :: "size_t list \<Rightarrow> byte list" where
  "parts_table ps = bytes32 (of_nat (length ps)) @ concat (map bytes32 ps) @ replicate (80 - 4 * length ps) 0"

lemma length_concat_bytes32 [simp]: "length (concat (map bytes32 ps)) = 4 * length ps"
  by (induction ps) auto

lemma length_parts_table: "length ps \<le> 20 \<Longrightarrow> length (parts_table ps) = 84"
  by (simp add: parts_table_def)

lemma parts_table_Nil: "parts_table [] = replicate 84 0"
  by (simp add: parts_table_def bytes32_def numeral_eq_Suc)

definition line_mem :: "mem \<Rightarrow> size_t \<Rightarrow> byte list \<Rightarrow> size_t \<Rightarrow> nat \<Rightarrow> size_t list \<Rightarrow> mem" where
  "line_mem m cmd bs parts k ps = store_bytes (store_bytes m cmd (blank (take k bs))) parts (parts_table ps)"

lemma num_parts_line: "length ps \<le> 20 \<Longrightarrow> num_parts (line_mem m cmd bs parts k ps) parts = of_nat (length ps)"
  using load32_within [of 0 "parts_table ps" _ parts]
  by (simp add: num_parts_def line_mem_def length_parts_table) (simp add: parts_table_def)

lemma concat_bytes32_nth:
  "i < length ps \<Longrightarrow> take 4 (drop (4 * i) (concat (map bytes32 ps) @ xs)) = bytes32 (ps ! i)"
proof (induction ps arbitrary: i)
  case (Cons p ps)
  then show ?case by (cases i) auto
qed simp

lemma part_line:
  assumes "i < length ps" and "length ps \<le> 20"
  shows "cmd_part (line_mem m cmd bs parts k ps) parts i = ps ! i"
proof -
  have a: "parts + 4 + 4 * of_nat i = parts + of_nat (4 + 4 * i)" by simp
  have "take 4 (drop (4 + 4 * i) (parts_table ps)) = bytes32 (ps ! i)"
    unfolding parts_table_def concat_bytes32_nth [OF assms(1), symmetric, of "replicate (80 - 4 * length ps) 0"]
    by (simp add: add.commute)
  then show ?thesis
    unfolding cmd_part_def line_mem_def a using assms by (subst load32_within) (simp_all add: length_parts_table)
qed

text \<open>Adding a part, with and without room for it.\<close>

lemma add_part_memory:
  assumes "length ps < 20"
  shows "store32 (store32 (line_mem m cmd bs parts k ps) (parts + 4 + 4 * of_nat (length ps)) p) parts (of_nat (length ps) + 1)
    = line_mem m cmd bs parts k (ps @ [p])"
proof -
  let ?n = "length ps"
  have a: "parts + 4 + 4 * of_nat ?n = parts + of_nat (4 + 4 * ?n)" by simp
  let ?t = "bytes32 (of_nat ?n) @ concat (map bytes32 ps) @ bytes32 p @ replicate (80 - 4 * Suc ?n) 0"
  have t: "take (4 + 4 * ?n) (parts_table ps) @ bytes32 p @ drop (4 + 4 * ?n + 4) (parts_table ps) = ?t"
    using assms by (simp add: parts_table_def)
  have l: "length ?t = 84" using assms by simp
  have "store32 (store32 (line_mem m cmd bs parts k ps) (parts + 4 + 4 * of_nat ?n) p) parts (of_nat ?n + 1)
      = store_bytes (store_bytes (store_bytes m cmd (blank (take k bs))) parts ?t) (parts + of_nat 0) (bytes32 (of_nat ?n + 1))"
    unfolding line_mem_def store32_def a using assms t
    by (subst store_bytes_within) (simp_all add: length_parts_table)
  also have "\<dots> = line_mem m cmd bs parts k (ps @ [p])"
    using l by (subst store_bytes_within) (auto simp: line_mem_def parts_table_def add.commute)
  finally show ?thesis .
qed

lemma AddCmdLinePart_room:
  assumes "length ps < 20"
  shows "AddCmdLinePart sys parts p (set_memory (line_mem m cmd bs parts k ps) s)
    = Ret () (set_memory (line_mem m cmd bs parts k (ps @ [p])) s)"
proof -
  let ?M = "line_mem m cmd bs parts k ps"
  let ?a = "parts + 4 + 4 * of_nat (length ps)"
  have n: "num_parts ?M parts = of_nat (length ps)" using assms by (simp add: num_parts_line)
  have "parts + of_nat (4 + 4 * length ps) = ?a" by simp
  with assms have "apart ?a 4 parts 4"
    using apart_offsets(2) [of 0 4 "4 + 4 * length ps" 4 parts] by (simp add: add.assoc)
  then have n': "num_parts (store32 ?M ?a p) parts = of_nat (length ps)"
    using n by (simp add: num_parts_def mem_simps)
  have "unat (of_nat (length ps) + 1 :: size_t) = Suc (length ps)"
    using assms unat_of_nat32 [of "Suc (length ps)"] by (simp add: add.commute)
  then have le: "(of_nat (length ps) + 1 :: size_t) \<le> 20"
    using assms unfolding word_le_nat_alt by simp
  have "num_parts (line_mem m cmd bs parts k (ps @ [p])) parts = of_nat (length ps) + 1"
    using assms by (simp add: num_parts_line add.commute)
  with le show ?thesis
    by (simp add: AddCmdLinePart_def Let_def n n' add_part_memory [OF assms] user_assert_def MAX_CMD_LINE_PARTS_def)
qed

lemma AddCmdLinePart_full:
  assumes "length ps = 20" and "exits_on_call sys"
  shows "\<exists>s'. AddCmdLinePart sys parts p (set_memory (line_mem m cmd bs parts k ps) s) = Exit 1 s'"
proof -
  let ?M = "line_mem m cmd bs parts k ps"
  let ?a = "parts + 4 + 4 * of_nat (length ps)"
  have n: "num_parts ?M parts = 20" using assms(1) by (simp add: num_parts_line)
  have "apart ?a 4 parts 4"
    using apart_offsets(2) [of 0 4 84 4 parts] assms(1) by (simp add: add.assoc)
  then have n': "num_parts (store32 ?M ?a p) parts = 20"
    using n by (simp add: num_parts_def mem_simps)
  have "num_parts (store32 (store32 ?M ?a p) parts 21) parts = 21" by (simp add: num_parts_def mem_simps)
  with assms n n' show ?thesis
    by (simp add: AddCmdLinePart_def Let_def user_assert_def MAX_CMD_LINE_PARTS_def assert_fail_exits)
qed

section \<open>The loop\<close>

text \<open>Where the line and the structure are: the line with its end does not wrap around the address
  space, and shares no byte with the structure.\<close>

definition line_at :: "mem \<Rightarrow> size_t \<Rightarrow> byte list \<Rightarrow> size_t \<Rightarrow> bool" where
  "line_at m cmd bs parts \<longleftrightarrow> cstr m cmd bs \<and> cmd \<noteq> NULL \<and> unat cmd + length bs < 2 ^ 32 \<and>
     apart parts 84 cmd (Suc (length bs))"

lemma line_atD:
  assumes "line_at m cmd bs parts"
  shows "k < length bs \<Longrightarrow> m (cmd + of_nat k) = bs ! k" and "m (cmd + of_nat (length bs)) = 0"
    and "k < length bs \<Longrightarrow> bs ! k \<noteq> 0" and "length bs < 2 ^ 32"
proof -
  have c: "0 \<notin> set bs" "load_bytes m cmd (Suc (length bs)) = bs @ [0]" "length bs < 2 ^ 32"
    using assms by (auto simp: line_at_def cstr_def)
  have n: "m (cmd + of_nat i) = (bs @ [0]) ! i" if "i \<le> length bs" for i
    using that nth_load_bytes [of i "Suc (length bs)" m cmd] c(2) by simp
  show "k < length bs \<Longrightarrow> m (cmd + of_nat k) = bs ! k" "m (cmd + of_nat (length bs)) = 0"
    using n [of k] n [of "length bs"] by (simp_all add: nth_append)
  show "k < length bs \<Longrightarrow> bs ! k \<noteq> 0" using c(1) by (metis nth_mem)
  show "length bs < 2 ^ 32" using c(3) .
qed

lemma line_mem_read:
  assumes "line_at m cmd bs parts" and "k \<le> length bs" and "length ps \<le> 20"
  shows "line_mem m cmd bs parts k ps (cmd + of_nat k) = (bs @ [0]) ! k"
proof -
  have "line_mem m cmd bs parts k ps (cmd + of_nat k) = store_bytes m cmd (blank (take k bs)) (cmd + of_nat k)"
    unfolding line_mem_def using assms
    by (intro store_bytes_apart) (auto simp: line_at_def length_parts_table)
  also have "\<dots> = m (cmd + of_nat k)"
    using assms line_atD(4) [OF assms(1)] by (simp add: store_bytes_def)
  finally show ?thesis using line_atD(1,2) [OF assms(1)] assms(2) by (cases "k = length bs") (auto simp: nth_append)
qed

lemma store_bytes_snoc_upd:
  assumes "length xs < 2 ^ 32"
  shows "(store_bytes m a xs)(a + of_nat (length xs) := b) = store_bytes m a (xs @ [b])"
proof
  fix x :: size_t
  have "unat (x - a) = length xs \<longleftrightarrow> x = a + of_nat (length xs)"
    using assms by (metis add_diff_cancel_left' diff_add_cancel add.commute unat_of_nat32 of_nat_unat32)
  then show "((store_bytes m a xs)(a + of_nat (length xs) := b)) x = store_bytes m a (xs @ [b]) x"
    by (auto simp: store_bytes_def nth_append)
qed

lemma line_mem_write:
  assumes "line_at m cmd bs parts" and "k < length bs" and "length ps \<le> 20"
  shows "(line_mem m cmd bs parts k ps)(cmd + of_nat k := (if bs ! k = 0x20 then 0 else bs ! k)) = line_mem m cmd bs parts (Suc k) ps"
proof -
  have "84 \<le> unat (cmd + of_nat k - parts)"
    using assms by (intro apart_offset [of parts 84 cmd "Suc (length bs)"]) (auto simp: line_at_def)
  then have "(line_mem m cmd bs parts k ps)(cmd + of_nat k := b) =
      store_bytes ((store_bytes m cmd (blank (take k bs)))(cmd + of_nat k := b)) parts (parts_table ps)" for b
    using assms(3) by (auto simp: line_mem_def store_bytes_def length_parts_table)
  moreover have "blank (take (Suc k) bs) = blank (take k bs) @ [if bs ! k = 0x20 then 0 else bs ! k]"
    using assms(2) by (simp add: blank_def take_Suc_conv_app_nth)
  ultimately show ?thesis
    using assms store_bytes_snoc_upd [of "blank (take k bs)" m cmd] line_atD(4) [OF assms(1)]
    by (simp add: line_mem_def)
qed

lemma line_mem_skip:
  assumes "line_at m cmd bs parts" and "k < length bs" and "length ps \<le> 20" and "bs ! k \<noteq> 0x20"
  shows "line_mem m cmd bs parts (Suc k) ps = line_mem m cmd bs parts k ps"
  using line_mem_write [OF assms(1-3)] line_mem_read [OF assms(1) less_imp_le [OF assms(2)] assms(3)] assms(2,4)
  by (metis (full_types) fun_upd_triv nth_append_left)

lemma set_memory_again [simp]: "set_memory m (set_memory m' s) = set_memory m s"
  by (simp add: set_memory_def)

lemma offset_eq:
  fixes cmd :: size_t
  shows "i < 2 ^ 32 \<Longrightarrow> j < 2 ^ 32 \<Longrightarrow> cmd + of_nat i = cmd + of_nat j \<longleftrightarrow> i = j"
  by (metis add_left_cancel unat_of_nat32)

lemma split_loop_eq:
  assumes "line_at m cmd bs parts" and "exits_on_call sys"
    and "start \<le> k" and "k \<le> length bs" and "length ps \<le> 20" and "r = scan start k (drop k bs)"
  shows "if length ps + length (fst r) \<le> 20
    then split_loop sys parts (cmd + of_nat k) (cmd + of_nat start) (set_memory (line_mem m cmd bs parts k ps) s)
      = Some (Ret (cmd + of_nat (length bs), cmd + of_nat (snd r))
          (set_memory (line_mem m cmd bs parts (length bs) (ps @ map (\<lambda>i. cmd + of_nat i) (fst r))) s))
    else \<exists>s'. split_loop sys parts (cmd + of_nat k) (cmd + of_nat start) (set_memory (line_mem m cmd bs parts k ps) s)
      = Some (Exit 1 s')"
  using assms(3-6)
proof (induction "length bs - k" arbitrary: k start ps r)
  case 0
  then have k: "k = length bs" by simp
  then show ?case
    using 0 line_mem_read [OF assms(1), of "length bs" ps] by (subst split_loop.simps) (simp add: nth_append)
next
  case (Suc d)
  note len = line_atD(4) [OF assms(1)]
  have k: "k < length bs" using Suc.hyps(2) by simp
  have read: "line_mem m cmd bs parts k ps (cmd + of_nat k) = bs ! k"
    using line_mem_read [OF assms(1), of k ps] Suc.prems k by (simp add: nth_append)
  have nz: "bs ! k \<noteq> 0" using line_atD(3) [OF assms(1) k] .
  have dr: "drop k bs = bs ! k # drop (Suc k) bs" using k by (simp add: Cons_nth_drop_Suc)
  have d: "d = length bs - Suc k" using Suc.hyps(2) by simp
  note IH = Suc.hyps(1) [OF d]
  show ?case
  proof (cases "bs ! k = 0x20")
    case False
    with Suc.prems dr have r: "r = scan start (Suc k) (drop (Suc k) bs)" by simp
    have step: "split_loop sys parts (cmd + of_nat k) (cmd + of_nat start) (set_memory (line_mem m cmd bs parts k ps) s)
        = split_loop sys parts (cmd + of_nat (Suc k)) (cmd + of_nat start) (set_memory (line_mem m cmd bs parts (Suc k) ps) s)"
      using read nz False line_mem_skip [OF assms(1) k Suc.prems(3) False] by (subst split_loop.simps) (simp add: ac_simps)
    show ?thesis using IH [OF _ _ Suc.prems(3) r] Suc.prems(1) k unfolding step by (simp cong: if_cong)
  next
    case True
    define r' where "r' = scan (Suc k) (Suc k) (drop (Suc k) bs)"
    have r: "r = ((if start < k then [start] else []) @ fst r', snd r')"
      using True Suc.prems dr by (simp add: r'_def Let_def)
    have neq: "cmd + of_nat k \<noteq> cmd + of_nat start \<longleftrightarrow> start < k"
      using offset_eq [of k start cmd] Suc.prems len by auto
    have wr: "(line_mem m cmd bs parts k qs)(cmd + of_nat k := 0) = line_mem m cmd bs parts (Suc k) qs"
      if "length qs \<le> 20" for qs using line_mem_write [OF assms(1) k that] True by simp
    show ?thesis
    proof (cases "start < k")
      case False
      have step: "split_loop sys parts (cmd + of_nat k) (cmd + of_nat start) (set_memory (line_mem m cmd bs parts k ps) s)
        = split_loop sys parts (cmd + of_nat (Suc k)) (cmd + of_nat (Suc k)) (set_memory (line_mem m cmd bs parts (Suc k) ps) s)"
        using read nz [unfolded True] True neq False wr [OF Suc.prems(3)] by (subst split_loop.simps) (simp add: ac_simps)
      show ?thesis using IH [OF _ _ Suc.prems(3) r'_def] k r False unfolding step by (simp cong: if_cong)
    next
      case start: True
      show ?thesis
      proof (cases "length ps < 20")
        case room: True
        let ?ps = "ps @ [cmd + of_nat start]"
        have step: "split_loop sys parts (cmd + of_nat k) (cmd + of_nat start) (set_memory (line_mem m cmd bs parts k ps) s)
          = split_loop sys parts (cmd + of_nat (Suc k)) (cmd + of_nat (Suc k)) (set_memory (line_mem m cmd bs parts (Suc k) ?ps) s)"
          using read nz [unfolded True] True neq start wr [of ?ps] room
          by (subst split_loop.simps) (simp add: AddCmdLinePart_room ac_simps)
        show ?thesis using IH [of "Suc k" ?ps, OF _ _ _ r'_def] k r start room unfolding step by (simp cong: if_cong)
      next
        case False
        with Suc.prems have full: "length ps = 20" by simp
        obtain s' where "AddCmdLinePart sys parts (cmd + of_nat start) (set_memory (line_mem m cmd bs parts k ps) s) = Exit 1 s'"
          using AddCmdLinePart_full [OF full assms(2)] by blast
        then show ?thesis
          using read nz [unfolded True] True neq start full r by (subst split_loop.simps, subst split_loop.simps) simp
      qed
    qed
  qed
qed

section \<open>The words\<close>

text \<open>What splitting leaves in memory: the words are strings, and the table points to them.\<close>

lemma blank_word:
  assumes "line_at m cmd bs parts" and "i < length bs" and "length ps \<le> 20"
  shows "cstr (line_mem m cmd bs parts (length bs) ps) (cmd + of_nat i) (word_at bs i)"
proof -
  let ?M = "line_mem m cmd bs parts (length bs) ps" and ?w = "word_at bs i"
  note len = line_atD(4) [OF assms(1)]
  have lw: "i + length ?w \<le> length bs"
    using length_takeWhile_le [of "\<lambda>b. b \<noteq> 0x20" "drop i bs"] assms(2) unfolding word_at_def length_drop by linarith
  have M: "?M (cmd + of_nat j) = (blank bs @ [0]) ! j" if "j \<le> length bs" for j
  proof -
    have "?M (cmd + of_nat j) = store_bytes m cmd (blank bs) (cmd + of_nat j)"
      unfolding line_mem_def using assms that by (simp, intro store_bytes_apart) (auto simp: line_at_def length_parts_table)
    then show ?thesis
      using line_atD(2) [OF assms(1)] that len by (cases "j = length bs") (auto simp: store_bytes_def nth_append)
  qed
  have w: "?w ! j = bs ! (i + j)" "bs ! (i + j) \<noteq> 0x20" if "j < length ?w" for j
  proof -
    show "?w ! j = bs ! (i + j)" using that assms(2) by (simp add: word_at_def takeWhile_nth)
    then show "bs ! (i + j) \<noteq> 0x20" using that nth_mem [OF that] by (auto simp: word_at_def dest: set_takeWhileD)
  qed
  have last_b: "(blank bs @ [0]) ! (i + length ?w) = 0"
  proof (cases "i + length ?w = length bs")
    case False
    with lw have lt: "length ?w < length (drop i bs)" by simp
    have "drop i bs ! length ?w = 0x20"
      using nth_length_takeWhile [of "\<lambda>b. b \<noteq> 0x20" "drop i bs"] lt by (simp add: word_at_def)
    with lt show ?thesis by (simp add: blank_def nth_append)
  qed (simp add: nth_append)
  have "load_bytes ?M (cmd + of_nat i) (Suc (length ?w)) = ?w @ [0]"
  proof (rule nth_equalityI)
    fix j assume "j < length (load_bytes ?M (cmd + of_nat i) (Suc (length ?w)))"
    then have j: "j \<le> length ?w" by simp
    have "load_bytes ?M (cmd + of_nat i) (Suc (length ?w)) ! j = ?M (cmd + of_nat (i + j))"
      using j by (simp add: add.assoc)
    also have "\<dots> = (blank bs @ [0]) ! (i + j)" using M [of "i + j"] j lw by simp
    also have "\<dots> = (?w @ [0]) ! j"
    proof (cases "j = length ?w")
      case True then show ?thesis using last_b by (simp add: nth_append)
    next
      case False
      with j have "j < length ?w" by simp
      with w [OF this] lw show ?thesis by (auto simp: nth_append blank_def)
    qed
    finally show "load_bytes ?M (cmd + of_nat i) (Suc (length ?w)) ! j = (?w @ [0]) ! j" .
  qed simp
  moreover have "0 \<notin> set ?w"
    using assms(1) set_takeWhileD [of 0 "\<lambda>b. b \<noteq> 0x20" "drop i bs"] in_set_dropD [of 0 i bs]
    by (auto simp: word_at_def line_at_def cstr_def)
  ultimately show ?thesis using lw len by (simp add: cstr_def)
qed

text \<open>The state after splitting.\<close>

definition split_state :: "size_t \<Rightarrow> byte list \<Rightarrow> size_t \<Rightarrow> kstate \<Rightarrow> kstate" where
  "split_state cmd bs parts s =
     set_memory (line_mem (memory s) cmd bs parts (length bs) (map (\<lambda>i. cmd + of_nat i) (word_starts bs))) s"

lemma split_eq:
  assumes "line_at (memory s) cmd bs parts" and "exits_on_call sys"
  shows "if length (words bs) \<le> 20 then split_cmd_line sys parts cmd s = Ret () (split_state cmd bs parts s)
    else \<exists>s'. split_cmd_line sys parts cmd s = Exit 1 s'"
proof -
  let ?m = "memory s" and ?r = "scan 0 0 bs"
  have z: "set_memory (store_bytes ?m parts (replicate SIZEOF_ProcessedCmdLine 0)) s
      = set_memory (line_mem ?m cmd bs parts 0 []) s"
    by (simp add: line_mem_def blank_def parts_table_Nil SIZEOF_ProcessedCmdLine_def)
  note L = line_mem_read [OF assms(1), of 0 "[]"]
  note loop = split_loop_eq [OF assms, of 0 0 "[]" ?r s]
  have e: "snd ?r \<le> length bs" using scan_bounds [of 0 0 bs] by simp
  have less: "cmd + of_nat (snd ?r) < cmd + of_nat (length bs) \<longleftrightarrow> snd ?r < length bs"
  proof -
    have "unat (cmd + of_nat i) = unat cmd + i" if "i \<le> length bs" for i
      using that assms(1) line_atD(4) [OF assms(1)] by (subst unat_add32) (auto simp: line_at_def)
    with e show ?thesis by (simp add: word_less_nat_alt)
  qed
  show ?thesis
  proof (cases bs)
    case Nil
    with z L show ?thesis
      by (simp add: split_cmd_line_def Let_def words_def split_state_def word_starts_def)
  next
    case (Cons b bs')
    have b: "line_mem ?m cmd bs parts 0 [] cmd = b" "b \<noteq> 0"
      using L Cons line_atD(3) [OF assms(1), of 0] by auto
    have nn: "cmd \<noteq> NULL" using assms(1) by (simp add: line_at_def)
    let ?ps = "map (\<lambda>i. cmd + of_nat i) (fst ?r)"
    have ws: "length (words bs) = length (fst ?r) + (if snd ?r < length bs then 1 else 0)"
      by (simp flip: length_word_starts) (simp add: word_starts_def Let_def)
    show ?thesis
    proof (cases "length (fst ?r) \<le> 20")
      case True
      then have l: "split_loop sys parts cmd cmd (set_memory (line_mem ?m cmd bs parts 0 []) s)
          = Some (Ret (cmd + of_nat (length bs), cmd + of_nat (snd ?r)) (set_memory (line_mem ?m cmd bs parts (length bs) ?ps) s))"
        using loop by simp
      show ?thesis
      proof (cases "snd ?r < length bs")
        case left: True
        show ?thesis
        proof (cases "length (fst ?r) < 20")
          case True
          with left l less b nn ws z show ?thesis
            by (simp add: split_cmd_line_def Let_def AddCmdLinePart_room split_state_def word_starts_def)
        next
          case False
          with \<open>length (fst ?r) \<le> 20\<close> have "length ?ps = 20" by simp
          then obtain s' where "AddCmdLinePart sys parts (cmd + of_nat (snd ?r)) (set_memory (line_mem ?m cmd bs parts (length bs) ?ps) s) = Exit 1 s'"
            using AddCmdLinePart_full [OF _ assms(2)] by blast
          with left l less b nn ws z False show ?thesis
            by (simp add: split_cmd_line_def Let_def)
        qed
      next
        case False
        with l less b nn ws z True show ?thesis
          by (simp add: split_cmd_line_def Let_def split_state_def word_starts_def)
      qed
    next
      case False
      with loop obtain s' where "split_loop sys parts cmd cmd (set_memory (line_mem ?m cmd bs parts 0 []) s) = Some (Exit 1 s')"
        by auto
      with b nn z ws False show ?thesis by (simp add: split_cmd_line_def Let_def)
    qed
  qed
qed

section \<open>Running a command\<close>

definition str_bytes :: "string \<Rightarrow> byte list" where
  "str_bytes str = map of_char str"

definition bytes_str :: "byte list \<Rightarrow> string" where
  "bytes_str bs = map (\<lambda>b. char_of (unat b)) bs"

definition command_names :: "string list" where
  "command_names = [''help'', ''quit'', ''run'', ''echo'', ''ps'', ''ls'']"

text \<open>What a command starts: whether it is a file, its name, and the function otherwise.\<close>

definition command_thread :: "Shell \<Rightarrow> byte list \<Rightarrow> (bool \<times> string \<times> size_t) option" where
  "command_thread sh w =
     (if w = str_bytes ''help'' then Some (False, ''help'', sh_help sh)
      else if w = str_bytes ''quit'' then Some (False, ''quit'', sh_quit sh)
      else if w = str_bytes ''run'' then Some (False, ''run'', sh_run sh)
      else map_option (\<lambda>n. (True, n, 0)) (find (\<lambda>n. w = str_bytes n) [''echo'', ''ps'', ''ls'']))"

text \<open>The memory a command uses: its line, its frame and the names of the commands, all apart, in a
  part \<open>R\<close> of the memory that the creation of a thread leaves alone.\<close>

definition shell_layout :: "size_t \<Rightarrow> size_t \<Rightarrow> byte list \<Rightarrow> size_t set \<Rightarrow> kstate \<Rightarrow> bool" where
  "shell_layout fp cmd bs R s \<longleftrightarrow>
     cstr (memory s) cmd bs \<and> cmd \<noteq> NULL \<and> unat cmd + length bs < 2 ^ 32 \<and> apart fp 132 cmd (Suc (length bs)) \<and>
     (\<forall>n \<in> set command_names. let p = b_literal (build s) n in cstr (memory s) p (str_bytes n) \<and>
        apart fp 132 p (Suc (length n)) \<and> apart cmd (Suc (length bs)) p (Suc (length n)) \<and>
        region p (Suc (length n)) \<subseteq> R) \<and>
     region (fp + 32) 100 \<subseteq> R \<and> region cmd (Suc (length bs)) \<subseteq> R \<and> R \<inter> region fp 32 = {}"

definition adds_outside :: "kernel_call \<Rightarrow> size_t set \<Rightarrow> kstate \<Rightarrow> bool" where
  "adds_outside sys R s \<longleftrightarrow>
     (\<forall>name args worker flags m. confined (- R) (set_memory m s) (sys syscall_add_thread name args worker flags (set_memory m s)))"

lemma shell_layoutD:
  assumes "shell_layout fp cmd bs R s"
  shows "line_at (memory s) cmd bs (fp + 32)" and "apart (fp + 116) 16 cmd (Suc (length bs))"
    and "region (fp + 32) 100 \<subseteq> R" and "region cmd (Suc (length bs)) \<subseteq> R" and "R \<inter> region fp 32 = {}"
    and "n \<in> set command_names \<Longrightarrow> cstr (memory s) (b_literal (build s) n) (str_bytes n)"
    and "n \<in> set command_names \<Longrightarrow> apart (fp + 32) 84 (b_literal (build s) n) (Suc (length n))"
    and "n \<in> set command_names \<Longrightarrow> apart (fp + 116) 16 (b_literal (build s) n) (Suc (length n))"
    and "n \<in> set command_names \<Longrightarrow> apart cmd (Suc (length bs)) (b_literal (build s) n) (Suc (length n))"
    and "n \<in> set command_names \<Longrightarrow> region (b_literal (build s) n) (Suc (length n)) \<subseteq> R"
proof -
  have sub: "apart (fp + of_nat off) k p m" if "apart fp 132 p m" "off + k \<le> 132" "0 < k" for off k p m
    using apart_part [of p m fp 132 off k] that by (simp add: apart_commute)
  show "line_at (memory s) cmd bs (fp + 32)" "apart (fp + 116) 16 cmd (Suc (length bs))"
    using assms sub [of cmd "Suc (length bs)" 32 84] sub [of cmd "Suc (length bs)" 116 16]
    by (simp_all add: shell_layout_def line_at_def)
  show "region (fp + 32) 100 \<subseteq> R" "region cmd (Suc (length bs)) \<subseteq> R" "R \<inter> region fp 32 = {}"
    using assms by (simp_all add: shell_layout_def)
  assume n: "n \<in> set command_names"
  with assms have l: "cstr (memory s) (b_literal (build s) n) (str_bytes n)"
    "apart fp 132 (b_literal (build s) n) (Suc (length n))"
    "apart cmd (Suc (length bs)) (b_literal (build s) n) (Suc (length n))"
    "region (b_literal (build s) n) (Suc (length n)) \<subseteq> R"
    unfolding shell_layout_def Let_def by blast+
  then show "cstr (memory s) (b_literal (build s) n) (str_bytes n)"
    "apart cmd (Suc (length bs)) (b_literal (build s) n) (Suc (length n))"
    "region (b_literal (build s) n) (Suc (length n)) \<subseteq> R" by blast+
  show "apart (fp + 32) 84 (b_literal (build s) n) (Suc (length n))"
    "apart (fp + 116) 16 (b_literal (build s) n) (Suc (length n))"
    using sub [OF l(2), of 32 84] sub [OF l(2), of 116 16] by simp_all
qed

text \<open>What every comparison relies on: the first word, the line and the names.\<close>

definition command_ready :: "size_t \<Rightarrow> size_t \<Rightarrow> byte list \<Rightarrow> byte list \<Rightarrow> kstate \<Rightarrow> bool" where
  "command_ready fp cmd bs w s \<longleftrightarrow>
     (\<exists>i. cmd_part (memory s) (fp + 32) 0 = cmd + of_nat i \<and> i + length w \<le> length bs \<and> cstr (memory s) (cmd + of_nat i) w) \<and>
     cstr (memory s) cmd (hd (fields bs)) \<and>
     (\<forall>n \<in> set command_names. cstr (memory s) (b_literal (build s) n) (str_bytes n))"

lemma length_hd_fields: "length (hd (fields bs)) \<le> length bs"
  by (induction bs) auto

lemma command_ready_keep:
  assumes "command_ready fp cmd bs w s" and "same_outside (- R) s s'"
    and "region (fp + 32) 100 \<subseteq> R" and "region cmd (Suc (length bs)) \<subseteq> R" and "length bs < 2 ^ 32"
    and "\<And>n. n \<in> set command_names \<Longrightarrow> region (b_literal (build s) n) (Suc (length n)) \<subseteq> R"
  shows "command_ready fp cmd bs w s'"
proof -
  have m: "memory s' x = memory s x" if "x \<in> R" for x using assms(2) that by (simp add: same_outside_def)
  have b: "build s' = build s" using assms(2) by (simp add: same_outside_def)
  obtain i where i: "cmd_part (memory s) (fp + 32) 0 = cmd + of_nat i" "i + length w \<le> length bs"
    "cstr (memory s) (cmd + of_nat i) w" using assms(1) by (auto simp: command_ready_def)
  have "region (fp + 36) 4 \<subseteq> R" using region_part [of 4 4 100 "fp + 32"] assms(3) by (simp add: add.assoc)
  then have p: "cmd_part (memory s') (fp + 32) 0 = cmd_part (memory s) (fp + 32) 0"
    using m by (auto simp: cmd_part_def add.assoc intro!: load32_cong_region)
  have "region (cmd + of_nat i) (Suc (length w)) \<subseteq> R"
    using region_part [of i "Suc (length w)" "Suc (length bs)" cmd] assms(4,5) i(2) by auto
  then have c: "cstr (memory s') (cmd + of_nat i) w \<longleftrightarrow> cstr (memory s) (cmd + of_nat i) w"
    using m by (intro cstr_cong) auto
  have "region cmd (Suc (length (hd (fields bs)))) \<subseteq> R"
    using assms(4) length_hd_fields [of bs] by (auto simp: region_def)
  then have f: "cstr (memory s') cmd (hd (fields bs)) \<longleftrightarrow> cstr (memory s) cmd (hd (fields bs))"
    using m by (intro cstr_cong) auto
  have "cstr (memory s') (b_literal (build s) n) (str_bytes n) \<longleftrightarrow> cstr (memory s) (b_literal (build s) n) (str_bytes n)"
    if "n \<in> set command_names" for n
    using assms(6) [OF that] m by (intro cstr_cong) (auto simp: str_bytes_def)
  with p c f i b assms(1) show ?thesis unfolding command_ready_def by auto
qed

lemma add_thread_with_confined:
  assumes "adds_outside sys R s" and "R \<inter> region fp 32 = {}"
  shows "confined (- R) s (add_thread_with sys fp file name args worker s)"
proof -
  have sub: "region (fp + of_nat off) k \<subseteq> - R" if "off + k \<le> 32" for off k
    using region_part [of off k 32 fp] that assms(2) by auto
  let ?fl = "\<lparr>is_file = file, remove_permissions = 0\<rparr>"
  let ?s1 = "set_memory (store_flags (memory s) (fp + 16) ?fl) s"
  have "same_outside (- R) s (set_memory (store_bytes (memory s) (fp + of_nat 16) [if file then 1 else 0]) s)" (is "same_outside _ s ?s0")
    using sub [of 16 1] by (intro same_outside_store) simp
  moreover have "same_outside (- R) ?s0 (set_memory (store_bytes (memory ?s0) (fp + of_nat 18) (bytes16 0)) ?s0)"
    using sub [of 18 2] by (intro same_outside_store) simp
  moreover have "store_flags (memory s) (fp + 16) ?fl = store_bytes (memory ?s0) (fp + of_nat 18) (bytes16 0)"
    by (simp add: store_flags_def store16_def byte_store add.assoc)
  ultimately have s1: "same_outside (- R) s ?s1" by (auto intro: same_outside_trans)
  have "same_outside (- R) ?s1 (set_memory (store_bytes (memory ?s1) fp (args_bytes a)) ?s1)" for a
    using sub [of 0 16] by (intro same_outside_store) (simp add: args_bytes_def)
  with s1 have s2: "same_outside (- R) s (set_memory (store_bytes (memory ?s1) fp (args_bytes a)) ?s1)" for a
    by (blast intro: same_outside_trans)
  have c: "confined (- R) s (sys syscall_add_thread name fp worker (fp + 16) (set_memory (store_bytes (memory ?s1) fp (args_bytes a)) ?s1))" for a
    by (rule confined_start [OF s2 [of a]]) (use assms(1) in \<open>simp add: adds_outside_def\<close>)
  show ?thesis
    unfolding add_thread_with_def add_thread_def Let_def as_int_def by (rule confined_bind [OF c]) simp
qed

lemma is_literal_eq:
  assumes "cstr (memory s) p w" and "cstr (memory s) (b_literal (build s) n) (str_bytes n)"
  shows "is_literal p n s = Ret (w = str_bytes n) s"
  using strcmp_cstr [OF assms] by (auto simp: is_literal_def)

lemma builtin_loop_eq:
  assumes "command_ready fp cmd bs w s" and "set (map bc_name L) \<subseteq> set command_names"
  shows "builtin_loop sys fp (fp + 32) args L tid s =
    (case find (\<lambda>b. w = str_bytes (bc_name b)) L of None \<Rightarrow> Ret tid s
     | Some b \<Rightarrow> add_thread_with sys fp False (b_literal (build s) (bc_name b)) args (bc_fn b) s)"
  using assms(2)
proof (induction L)
  case (Cons b L)
  then have "is_literal (cmd_part (memory s) (fp + 32) 0) (bc_name b) s = Ret (w = str_bytes (bc_name b)) s"
    using assms(1) by (auto simp: command_ready_def intro!: is_literal_eq)
  with Cons show ?case by (simp add: add_named_thread_with_args_def)
qed simp

lemma program_loop_eq:
  assumes "command_ready fp cmd bs w s" and "set L \<subseteq> set command_names"
  shows "program_loop sys fp (fp + 32) args L tid s =
    (case find (\<lambda>n. w = str_bytes n) L of None \<Rightarrow> Ret tid s
     | Some n \<Rightarrow> add_thread_with sys fp True (b_literal (build s) n) args (b_literal (build s) n) s)"
  using assms(2)
proof (induction L)
  case (Cons n L)
  then have "is_literal (cmd_part (memory s) (fp + 32) 0) n s = Ret (w = str_bytes n) s"
    using assms(1) by (auto simp: command_ready_def intro!: is_literal_eq)
  with Cons show ?case by (simp add: add_thread_from_file_with_args_def)
qed simp

text \<open>The state in which the thread of a command is created.\<close>

definition command_state :: "size_t \<Rightarrow> size_t \<Rightarrow> byte list \<Rightarrow> kstate \<Rightarrow> kstate" where
  "command_state fp cmd bs s =
     store_args (fp + 116) (make_args (of_nat (length (words bs))) (fp + 36) 0 0) (split_state cmd bs (fp + 32) s)"

lemma command_state_ready:
  assumes "shell_layout fp cmd bs R s" and "words bs = w # ws" and "length (words bs) \<le> 20"
  shows "command_ready fp cmd bs w (command_state fp cmd bs s)"
    and "num_parts (memory (split_state cmd bs (fp + 32) s)) (fp + 32) = of_nat (length (words bs))"
proof -
  note L = shell_layoutD [OF assms(1)]
  note len = line_atD(4) [OF L(1)]
  let ?ps = "map (\<lambda>i. cmd + of_nat i) (word_starts bs)"
  let ?M = "line_mem (memory s) cmd bs (fp + 32) (length bs) ?ps"
  have lps: "length ?ps \<le> 20" using assms(3) by (simp add: length_word_starts)
  show "num_parts (memory (split_state cmd bs (fp + 32) s)) (fp + 32) = of_nat (length (words bs))"
    using num_parts_line [OF lps] by (simp add: split_state_def length_word_starts)
  obtain i js where st: "word_starts bs = i # js" "word_at bs i = w"
    using assms(2) word_starts_words [of bs] by (cases "word_starts bs") auto
  have i: "i < length bs" using word_starts_less [of i bs] st by simp
  have lw: "i + length w \<le> length bs"
    using length_takeWhile_le [of "\<lambda>b. b \<noteq> 0x20" "drop i bs"] i
    unfolding st(2) [symmetric] word_at_def length_drop by linarith
  let ?N = "memory (command_state fp cmd bs s)"
  have N: "?N x = ?M x" if "x \<notin> region (fp + 116) 16" for x
    using that by (auto simp: command_state_def store_args_def split_state_def store_bytes_def region_def args_bytes_def)
  have M: "?M x = memory s x" if "x \<notin> region (fp + 32) 84" "x \<notin> region cmd (Suc (length bs))" for x
    using that lps length_parts_table [OF lps] by (auto simp: line_mem_def store_bytes_def region_def)
  have sub: "region (cmd + of_nat j) (Suc k) \<subseteq> region cmd (Suc (length bs))" if "j + k \<le> length bs" for j k
    using region_part [of j "Suc k" "Suc (length bs)" cmd] that len by simp
  have line: "cstr ?N (cmd + of_nat j) v" if "j + length v \<le> length bs" "cstr ?M (cmd + of_nat j) v" for j v
    using that sub [OF that(1)] region_apart [OF L(2)] by (subst cstr_cong [where m = ?M]) (auto intro!: N)
  have "cmd_part ?N (fp + 32) 0 = cmd_part ?M (fp + 32) 0"
    unfolding cmd_part_def
    using region_apart [OF apart_offsets(2) [of 36 4 116 16 fp]]
    by (intro load32_cong_region N) (simp add: add.assoc)
  moreover have "cmd_part ?M (fp + 32) 0 = cmd + of_nat i"
    using part_line [of 0 ?ps "memory s" cmd bs "fp + 32" "length bs"] lps st by simp
  moreover have "cstr ?N (cmd + of_nat i) w"
    using lw st(2) by (intro line) (use blank_word [OF L(1) i lps] in simp_all)
  moreover have ne: "bs \<noteq> []" using i by auto
  moreover have "hd (fields bs) = word_at bs 0"
    unfolding word_at_def by (induction bs) auto
  then have "cstr ?N cmd (hd (fields bs))"
    using line [of 0 "hd (fields bs)"] blank_word [OF L(1) _ lps, of 0] length_hd_fields [of bs] ne by simp
  moreover have "cstr ?N (b_literal (build s) n) (str_bytes n)" if n: "n \<in> set command_names" for n
  proof -
    have "?N x = memory s x" if "x \<in> region (b_literal (build s) n) (Suc (length n))" for x
      using that region_apart [OF L(7) [OF n]] region_apart [OF L(8) [OF n]] region_apart [OF L(9) [OF n]]
      by (simp add: N M)
    then show ?thesis using L(6) [OF n] by (subst cstr_cong) (auto simp: str_bytes_def)
  qed
  ultimately show "command_ready fp cmd bs w (command_state fp cmd bs s)"
    using lw unfolding command_ready_def by (auto simp: command_state_def store_args_def split_state_def)
qed

section \<open>The command as a whole\<close>

definition unknown_text :: "byte list \<Rightarrow> string" where
  "unknown_text bs = ''Unknown command '' @ [CHR 0x22] @ bytes_str (hd (fields bs)) @ [CHR 0x22, CHR 0x0A]"

lemma print_unknown:
  assumes "cstr (memory s) cmd (hd (fields bs))"
  shows "print_with (''Unknown command \"%s\"'' @ [CHR 0x0A]) cmd s = Ret () (serial_print (unknown_text bs) s)"
proof -
  have "read_string (memory s) cmd = Some (bytes_str (hd (fields bs)))"
    using assms unat_of_nat32 [of "length (hd (fields bs))"] cstr_def [of "memory s" cmd "hd (fields bs)"]
    load_bytes_add [of "memory s" cmd "length (hd (fields bs))" 1]
    by (simp add: read_string_def bytes_str_def)
  then show ?thesis
    by (simp add: print_with_def k_printf_def sprintf_def format_defs Let_def unknown_text_def)
     (simp add: pad_def)
qed

definition command_outcome :: "kernel_call \<Rightarrow> Shell \<Rightarrow> size_t \<Rightarrow> size_t \<Rightarrow> byte list \<Rightarrow> kstate \<Rightarrow> unit kresult" where
  "command_outcome sys sh fp cmd bs s =
     (case words bs of [] \<Rightarrow> Ret () (split_state cmd bs (fp + 32) s)
      | w # ws \<Rightarrow>
        (let s = command_state fp cmd bs s in
         case command_thread sh w of None \<Rightarrow> Ret () (serial_print (unknown_text bs) s)
         | Some (file, name, fn) \<Rightarrow>
             obind (add_thread_with sys fp file (b_literal (build s) name) (fp + 116)
                      (if file then b_literal (build s) name else fn) s)
               (\<lambda>tid s. if tid = INVALID_THREAD then Ret () (serial_print (unknown_text bs) s)
                  else hand_over sys fp tid s)))"

lemma obind_cong_Ret: "(\<And>a s. m = Ret a s \<Longrightarrow> f a s = g a s) \<Longrightarrow> obind m f = obind m g"
  by (cases m) auto

lemma command_thread_eq:
  "command_thread sh w =
     (case find (\<lambda>b. w = str_bytes (bc_name b)) (builtins sh) of Some b \<Rightarrow> Some (False, bc_name b, bc_fn b)
      | None \<Rightarrow> map_option (\<lambda>n. (True, n, 0)) (find (\<lambda>n. w = str_bytes n) programs))"
  by (simp add: command_thread_def builtins_def programs_def)

lemma builtin_not_program:
  "find (\<lambda>b. w = str_bytes (bc_name b)) (builtins sh) = Some c \<Longrightarrow> find (\<lambda>n. w = str_bytes n) programs = None"
  by (auto simp: builtins_def programs_def str_bytes_def split: if_splits)

lemma do_command_eq:
  assumes "shell_layout fp cmd bs R s" and "adds_outside sys R s" and "exits_on_call sys"
  shows "if length (words bs) \<le> 20 then do_command sys sh fp cmd s = command_outcome sys sh fp cmd bs s
    else \<exists>s'. do_command sys sh fp cmd s = Exit 1 s'"
proof (cases "length (words bs) \<le> 20")
  case False
  with split_eq [OF shell_layoutD(1) [OF assms(1)] assms(3)] show ?thesis by (auto simp: do_command_def Let_def)
next
  case True
  note L = shell_layoutD [OF assms(1)]
  have split: "split_cmd_line sys (fp + 32) cmd s = Ret () (split_state cmd bs (fp + 32) s)"
    using split_eq [OF L(1) assms(3)] True by simp
  show ?thesis
  proof (cases "words bs")
    case Nil
    have "num_parts (memory (split_state cmd bs (fp + 32) s)) (fp + 32) = 0"
      using num_parts_line [of "map (\<lambda>i. cmd + of_nat i) (word_starts bs)"] Nil
      by (simp add: split_state_def length_word_starts)
    with Nil True split show ?thesis by (simp add: do_command_def Let_def command_outcome_def)
  next
    case (Cons w ws)
    let ?s = "command_state fp cmd bs s"
    note ready = command_state_ready [OF assms(1) Cons True]
    have n0: "(of_nat (length (words bs)) :: size_t) \<noteq> 0"
    proof -
      have "unat (of_nat (length (words bs)) :: size_t) = length (words bs)" using True by simp
      then show ?thesis using Cons by (metis length_0_conv list.distinct(1) unat_0)
    qed
    have adds: "adds_outside sys R ?s"
      using assms(2) by (simp add: adds_outside_def command_state_def store_args_def split_state_def)
    have b: "build ?s = build s" by (simp add: command_state_def store_args_def split_state_def)
    have run: "do_command sys sh fp cmd s =
      obind (builtin_loop sys fp (fp + 32) (fp + 116) (builtins sh) INVALID_THREAD ?s) (\<lambda>tid s.
      obind (program_loop sys fp (fp + 32) (fp + 116) programs tid s) (\<lambda>tid s.
         if tid \<noteq> INVALID_THREAD then hand_over sys fp tid s
         else print_with (''Unknown command \"%s\"'' @ [CHR 0x0A]) cmd s))"
      using split ready(2) n0 by (simp add: do_command_def Let_def command_state_def add.assoc)
    have keep: "command_ready fp cmd bs w s'"
      if "add_thread_with sys fp fl name (fp + 116) worker ?s = Ret tid s'" for fl name worker tid s'
      using add_thread_with_confined [OF adds L(5), of fl name "fp + 116" worker] that L(3,4,10)
      by (intro command_ready_keep [OF ready(1)]) (use line_atD(4) [OF L(1)] b in auto)
    have names: "set (map bc_name (builtins sh)) \<subseteq> set command_names" "set programs \<subseteq> set command_names"
      by (auto simp: builtins_def programs_def command_names_def)
    note builtin = builtin_loop_eq [OF ready(1) names(1)]
    note program = program_loop_eq [OF _ names(2)]
    note which = command_thread_eq [of sh w]
    show ?thesis
    proof (cases "find (\<lambda>b. w = str_bytes (bc_name b)) (builtins sh)")
      case None
      show ?thesis
      proof (cases "find (\<lambda>n. w = str_bytes n) programs")
        case None
        then show ?thesis
          using \<open>find _ (builtins sh) = None\<close> Cons True which run builtin program [OF ready(1)] ready(1)
          by (simp add: command_outcome_def Let_def print_unknown [simplified] command_ready_def)
      next
        case (Some n)
        have "do_command sys sh fp cmd s = obind (add_thread_with sys fp True (b_literal (build s) n) (fp + 116) (b_literal (build s) n) ?s)
            (\<lambda>tid s. if tid \<noteq> INVALID_THREAD then hand_over sys fp tid s
               else print_with (''Unknown command \"%s\"'' @ [CHR 0x0A]) cmd s)"
          using \<open>find _ (builtins sh) = None\<close> Some run builtin program [OF ready(1)] b by simp
        also have "\<dots> = obind (add_thread_with sys fp True (b_literal (build s) n) (fp + 116) (b_literal (build s) n) ?s)
            (\<lambda>tid s. if tid = INVALID_THREAD then Ret () (serial_print (unknown_text bs) s) else hand_over sys fp tid s)"
          by (rule obind_cong_Ret) (use print_unknown [simplified] in \<open>auto dest!: keep simp: command_ready_def\<close>)
        finally show ?thesis
          using \<open>find _ (builtins sh) = None\<close> Some Cons True which b by (simp add: command_outcome_def Let_def)
      qed
    next
      case (Some c)
      then have none: "find (\<lambda>n. w = str_bytes n) programs = None" by (rule builtin_not_program)
      have "do_command sys sh fp cmd s = obind (add_thread_with sys fp False (b_literal (build s) (bc_name c)) (fp + 116) (bc_fn c) ?s)
          (\<lambda>tid s. obind (program_loop sys fp (fp + 32) (fp + 116) programs tid s) (\<lambda>tid s.
             if tid \<noteq> INVALID_THREAD then hand_over sys fp tid s
             else print_with (''Unknown command \"%s\"'' @ [CHR 0x0A]) cmd s))"
        using Some run builtin b by simp
      also have "\<dots> = obind (add_thread_with sys fp False (b_literal (build s) (bc_name c)) (fp + 116) (bc_fn c) ?s)
          (\<lambda>tid s. if tid = INVALID_THREAD then Ret () (serial_print (unknown_text bs) s) else hand_over sys fp tid s)"
      proof (rule obind_cong_Ret)
        fix a s'
        assume "add_thread_with sys fp False (b_literal (build s) (bc_name c)) (fp + 116) (bc_fn c) ?s = Ret a s'"
        then have r: "command_ready fp cmd bs w s'" by (rule keep)
        then have "cstr (memory s') cmd (hd (fields bs))" by (simp add: command_ready_def)
        then show "obind (program_loop sys fp (fp + 32) (fp + 116) programs a s') (\<lambda>tid s.
             if tid \<noteq> INVALID_THREAD then hand_over sys fp tid s
             else print_with (''Unknown command \"%s\"'' @ [CHR 0x0A]) cmd s)
           = (if a = INVALID_THREAD then Ret () (serial_print (unknown_text bs) s') else hand_over sys fp a s')"
          using none program [OF r] print_unknown by simp
      qed
      finally show ?thesis
        using Some Cons True which b by (simp add: command_outcome_def Let_def)
    qed
  qed
qed

section \<open>What the commands promise\<close>

text \<open>Splitting a command line at its spaces leaves its words, in order, as strings in the place of
  the line, and the structure has their number and points to each of them; nothing else changes. With
  more words than the structure has room for the system ends with status 1.\<close>

theorem command_line_words:
  assumes "cstr (memory s) cmd bs" and "cmd \<noteq> NULL" and "unat cmd + length bs < 2 ^ 32"
    and "apart parts 84 cmd (Suc (length bs))" and "exits_on_call sys"
  shows "if length (words bs) \<le> MAX_CMD_LINE_PARTS
    then \<exists>m. split_cmd_line sys parts cmd s = Ret () (set_memory m s) \<and>
      num_parts m parts = of_nat (length (words bs)) \<and>
      (\<forall>i < length (words bs). cstr m (cmd_part m parts i) (words bs ! i)) \<and>
      (\<forall>x. x \<notin> region parts 84 \<longrightarrow> x \<notin> region cmd (length bs) \<longrightarrow> m x = memory s x)
    else \<exists>s'. split_cmd_line sys parts cmd s = Exit 1 s'"
proof -
  have L: "line_at (memory s) cmd bs parts" using assms by (simp add: line_at_def)
  let ?ps = "map (\<lambda>i. cmd + of_nat i) (word_starts bs)"
  let ?m = "line_mem (memory s) cmd bs parts (length bs) ?ps"
  have "num_parts ?m parts = of_nat (length (words bs)) \<and>
      (\<forall>i < length (words bs). cstr ?m (cmd_part ?m parts i) (words bs ! i)) \<and>
      (\<forall>x. x \<notin> region parts 84 \<longrightarrow> x \<notin> region cmd (length bs) \<longrightarrow> ?m x = memory s x)"
    if "length (words bs) \<le> 20"
  proof -
    have lps: "length ?ps \<le> 20" using that by (simp add: length_word_starts)
    have "cstr ?m (cmd_part ?m parts i) (words bs ! i)" if i: "i < length (words bs)" for i
    proof -
      have "i < length (word_starts bs)" using i by (simp add: length_word_starts)
      then have "cmd_part ?m parts i = cmd + of_nat (word_starts bs ! i)" "words bs ! i = word_at bs (word_starts bs ! i)"
        "word_starts bs ! i < length bs"
        using part_line [of i ?ps] lps by (simp_all flip: word_starts_words add: word_starts_less)
      then show ?thesis using blank_word [OF L _ lps] by simp
    qed
    moreover have "?m x = memory s x" if "x \<notin> region parts 84" "x \<notin> region cmd (length bs)" for x
      using that length_parts_table [OF lps] by (simp add: line_mem_def store_bytes_def region_def)
    ultimately show ?thesis using num_parts_line [OF lps] by (simp add: length_word_starts)
  qed
  with split_eq [OF L assms(5)] show ?thesis by (auto simp: split_state_def MAX_CMD_LINE_PARTS_def split: if_splits)
qed


section \<open>Instances\<close>

text \<open>The names are at fixed addresses; the line \<open>" run ls"\<close> is at \<open>0x5000\<close>, the frame at \<open>0x4000\<close>.\<close>

definition demo_literal :: "string \<Rightarrow> size_t" where
  "demo_literal n = (if n = ''help'' then 0x9000 else if n = ''quit'' then 0x9010 else if n = ''run'' then 0x9020
     else if n = ''echo'' then 0x9030 else if n = ''ps'' then 0x9040 else 0x9050)"

definition demo_shell_mem :: mem where
  "demo_shell_mem = fold (\<lambda>(p, str) m. store_bytes m p (str_bytes str))
     [(0x5000, '' run ls''), (0x9000, ''help''), (0x9010, ''quit''), (0x9020, ''run''), (0x9030, ''echo''),
      (0x9040, ''ps''), (0x9050, ''ls'')] (\<lambda>_. 0)"

definition demo_shell_state :: kstate where
  "demo_shell_state = set_memory demo_shell_mem (demo_state\<lparr>build := demo_build\<lparr>b_literal := demo_literal\<rparr>\<rparr>)"

definition demo_shell :: Shell where
  "demo_shell = \<lparr>sh_help = 0x8600, sh_quit = 0x8700, sh_run = 0x8800\<rparr>"

definition demo_line :: "byte list" where "demo_line = str_bytes '' run ls''"

text \<open>A kernel whose calls all return 1.\<close>

definition demo_calls :: kernel_call where
  "demo_calls c a b d e s = (if c = syscall_exit then Exit (sint a) s else Ret 1 s)"

lemma demo_line_words: "words demo_line = [str_bytes ''run'', str_bytes ''ls'']"
  by (simp add: demo_line_def words_def str_bytes_def)

lemma demo_calls_ok: "exits_on_call demo_calls" "adds_outside demo_calls R s"
  by (simp_all add: exits_on_call_def demo_calls_def adds_outside_def)

lemma demo_shell_cstr:
  "cstr demo_shell_mem 0x5000 demo_line" "cstr demo_shell_mem 0x9000 (str_bytes ''help'')"
  "cstr demo_shell_mem 0x9010 (str_bytes ''quit'')" "cstr demo_shell_mem 0x9020 (str_bytes ''run'')"
  "cstr demo_shell_mem 0x9030 (str_bytes ''echo'')" "cstr demo_shell_mem 0x9040 (str_bytes ''ps'')"
  "cstr demo_shell_mem 0x9050 (str_bytes ''ls'')"
  by (simp_all add: demo_line_def demo_shell_mem_def str_bytes_def cstr_Cons cstr_Nil store_bytes_def)

lemma all_less_two: "(\<forall>i < Suc (Suc 0). P i) \<longleftrightarrow> P 0 \<and> P 1"
  by (auto simp: less_Suc_eq)

lemma demo_shell_simps:
  "memory demo_shell_state = demo_shell_mem" "b_literal (build demo_shell_state) = demo_literal"
  by (simp_all add: demo_shell_state_def)

lemma demo_layout: "shell_layout 0x4000 0x5000 demo_line (- region 0x4000 32) demo_shell_state"
proof -
  have sub: "region p n \<subseteq> - region 0x4000 32" if "apart 0x4000 32 p n" for p n
    using region_apart [OF that] by blast
  have "\<forall>n \<in> set command_names. apart 0x4000 32 (demo_literal n) (Suc (length n))"
    by (simp add: command_names_def demo_literal_def apart_def)
  then have "\<forall>n \<in> set command_names. region (demo_literal n) (Suc (length n)) \<subseteq> - region 0x4000 32"
    using sub by blast
  moreover have "region 0x4020 100 \<subseteq> - region 0x4000 32" "region 0x5000 (Suc (length demo_line)) \<subseteq> - region 0x4000 32"
    by (rule sub, simp add: apart_def demo_line_def str_bytes_def)+
  moreover have "\<forall>n \<in> set command_names. cstr demo_shell_mem (demo_literal n) (str_bytes n) \<and>
      apart 0x4000 132 (demo_literal n) (Suc (length n)) \<and> apart 0x5000 (Suc (length demo_line)) (demo_literal n) (Suc (length n))"
    by (simp add: command_names_def demo_literal_def demo_shell_cstr) (simp add: apart_def demo_line_def str_bytes_def)
  ultimately show ?thesis
    unfolding shell_layout_def demo_shell_simps Let_def
    by (simp add: demo_shell_cstr) (simp add: apart_def demo_line_def str_bytes_def)
qed

theorem command_line_words_witness:
  "\<exists>m. split_cmd_line demo_calls 0x4020 0x5000 demo_shell_state = Ret () (set_memory m demo_shell_state) \<and>
     num_parts m 0x4020 = 2 \<and> cstr m (cmd_part m 0x4020 0) (str_bytes ''run'') \<and> cstr m (cmd_part m 0x4020 1) (str_bytes ''ls'')"
proof -
  have "apart 0x4020 84 0x5000 (Suc (length demo_line))" by (simp add: apart_def demo_line_def str_bytes_def)
  from command_line_words [of demo_shell_state "0x5000" demo_line, OF _ _ _ this demo_calls_ok(1)] show ?thesis
    by (auto simp: demo_shell_simps demo_shell_cstr demo_line_words MAX_CMD_LINE_PARTS_def all_less_two)
       (auto simp: demo_line_def str_bytes_def)
qed


end
