(* ===== verification/Line_Editor.thy ===== *)
theory Line_Editor
  imports Command_Line
begin

text \<open>
  The line editor of the shell. What it promises is an edited text: characters are appended, the
  backspace key takes the last one away, and an interrupt starts again. The state in memory
  implements that for one character at a time; a read that returns several repeats the first.
\<close>

section \<open>The text being edited\<close>

definition edit_key :: "byte list \<Rightarrow> byte \<Rightarrow> byte list" where
  "edit_key line c =
     (if c = 0x7F then butlast line else if c = 0x03 then []
      else if length line < MAX_CMD_LINE then line @ [c] else line)"

definition key_echo :: "byte list \<Rightarrow> byte \<Rightarrow> string" where
  "key_echo line c =
     (if c = 0x7F then (if line = [] then [] else [CHR 0x08, CHR '' '', CHR 0x08])
      else if c = 0x03 then CHR 0x0A # PRINT_PROMPT
      else if length line < MAX_CMD_LINE then [char_of (unat c)] else [])"

fun keys_echo :: "byte list \<Rightarrow> byte list \<Rightarrow> string" where
  "keys_echo line [] = []"
| "keys_echo line (c # cs) = key_echo line c @ keys_echo (edit_key line c) cs"

text \<open>Keys that only change the line: no return, escape or end of transmission.\<close>

definition editing_key :: "byte \<Rightarrow> bool" where
  "editing_key c \<longleftrightarrow> c \<noteq> 0 \<and> c \<noteq> 0x0D \<and> c \<noteq> 0x1B \<and> c \<noteq> 0x04"

section \<open>The state in memory\<close>

definition line_of :: "size_t \<Rightarrow> kstate \<Rightarrow> byte list" where
  "line_of st s = load_bytes (memory s) st (unat (get_pos st s))"

definition editor_ok :: "size_t \<Rightarrow> kstate \<Rightarrow> bool" where
  "editor_ok st s \<longleftrightarrow> unat (get_pos st s) \<le> MAX_CMD_LINE \<and> 0 \<notin> set (line_of st s)"

text \<open>A change of the line and the position, with an echo.\<close>

definition edited :: "size_t \<Rightarrow> byte list \<Rightarrow> string \<Rightarrow> kstate \<Rightarrow> kstate \<Rightarrow> bool" where
  "edited st line txt s s' \<longleftrightarrow> line_of st s' = line \<and> editor_ok st s' \<and>
     (\<forall>x. x \<notin> region st 260 \<longrightarrow> memory s' x = memory s x) \<and> s' = set_memory (memory s') (serial_print txt s)"

lemma state_offsets:
  "in_at st \<notin> region st 260" "curr_at st = in_at st + of_nat 16" "pos_at st = st + of_nat 256" "in_at st = st + of_nat 260"
  by (simp_all add: in_at_def curr_at_def pos_at_def region_def)

lemma echo_simps:
  "memory (serial_print t s) = memory s" "serial (serial_print t s) = serial s @ t"
  "build (serial_print t s) = build s"
  "serial_print t (set_memory m s) = set_memory m (serial_print t s)"
  "serial_print t (serial_print u s) = serial_print (u @ t) s" "serial_print [] s = s"
  "set_memory (memory s) s = s"
  by (simp_all add: serial_print_def set_memory_def)

lemma pos_apart: "n \<le> 256 \<Longrightarrow> apart (pos_at st) 4 st n"
  using apart_offsets(2) [of 0 n 256 4 st] by (cases "n = 0") (auto simp: pos_at_def apart_def)

lemma load_after_pos: "n \<le> 256 \<Longrightarrow> load_bytes (store32 m (pos_at st) v) st n = load_bytes m st n"
  by (simp add: mem_simps pos_apart)

lemma store_pos_outside: "x \<notin> region st 260 \<Longrightarrow> store32 m (pos_at st) v x = m x"
proof -
  assume "x \<notin> region st 260"
  then have "x \<notin> region (pos_at st) 4" using region_part [of 256 4 260 st] by (auto simp: pos_at_def)
  then show ?thesis by (simp add: store32_def store_bytes_def region_def)
qed

lemma edited_pos:
  assumes "unat p \<le> MAX_CMD_LINE" and "\<And>x. x \<notin> region st 260 \<Longrightarrow> m x = memory s x"
    and "load_bytes m st (unat p) = line" and "0 \<notin> set line"
  shows "edited st line txt s (set_memory (store32 m (pos_at st) p) (serial_print txt s))"
  using assms
  by (simp add: edited_def line_of_def editor_ok_def get_pos_def mem_simps load_after_pos MAX_CMD_LINE_def store_pos_outside)

lemma line_length: "length (line_of st s) = unat (get_pos st s)"
  by (simp add: line_of_def)

lemma handle_char_edit:
  assumes "editor_ok st s" and "memory s (in_at st) = c" and "c \<noteq> 0" and "c \<noteq> 0x7F" and "c \<noteq> 0x03"
  shows "\<exists>s'. handle_char st s = Ret () s' \<and> edited st (edit_key (line_of st s) c) (key_echo (line_of st s) c) s s'"
proof (cases "unat (get_pos st s) < 256")
  case False
  then have "\<not> get_pos st s < 256" by (simp add: word_less_nat_alt)
  with False assms show ?thesis
    by (simp add: handle_char_def edited_def edit_key_def key_echo_def line_length MAX_CMD_LINE_def echo_simps)
next
  case True
  let ?p = "get_pos st s" and ?m = "memory s"
  have lt: "?p < 256" using True by (simp add: word_less_nat_alt)
  have suc: "unat (?p + 1) = Suc (unat ?p)" using True by (subst unat_add32) auto
  have pos: "get_pos st (set_memory (?m(st + ?p := c)) s) = ?p"
  proof -
    have "apart (st + of_nat (unat ?p)) 1 (pos_at st) 4"
      using apart_offsets(1) [of "unat ?p" 1 256 4 st] True by (simp add: pos_at_def)
    then show ?thesis by (simp add: get_pos_def load32_byte_apart)
  qed
  have "load_bytes (?m(st + ?p := c)) st (Suc (unat ?p)) = load_bytes ?m st (unat ?p) @ [c]"
  proof -
    have "load_bytes (?m(st + ?p := c)) st (unat ?p) = load_bytes ?m st (unat ?p)"
    proof (rule load_bytes_upd_outside)
      fix i assume i: "i < unat ?p"
      then have "i < 2 ^ 32" using True by simp
      then have "unat (of_nat i :: size_t) \<noteq> unat ?p" using i by simp
      then show "st + of_nat i \<noteq> st + ?p" by auto
    qed
    then show ?thesis using load_bytes_add [of "?m(st + ?p := c)" st "unat ?p" 1] by (simp add: load_bytes_Suc)
  qed
  then have "edited st (line_of st s @ [c]) [char_of (unat c)] s
      (set_memory (store32 (?m(st + ?p := c)) (pos_at st) (?p + 1)) (serial_print [char_of (unat c)] s))"
    using True assms(1,3) suc
    by (intro edited_pos) (auto simp: MAX_CMD_LINE_def line_of_def editor_ok_def region_def)
  moreover have "handle_char st s
      = Ret () (set_memory (store32 (?m(st + ?p := c)) (pos_at st) (?p + 1)) (serial_print [char_of (unat c)] s))"
  proof -
    have "store32 (?m(st + ?p := c)) (pos_at st) (?p + 1) (in_at st) = c"
      using assms(2) by (simp add: store_pos_outside [OF state_offsets(1)])
    then show ?thesis
      using lt assms(2) pos by (simp add: handle_char_def MAX_CMD_LINE_def Let_def set_pos_def echo_simps)
  qed
  ultimately show ?thesis using True assms(4,5) by (simp add: edit_key_def key_echo_def line_length MAX_CMD_LINE_def)
qed

lemma handle_backspace_edit:
  assumes "editor_ok st s"
  shows "\<exists>s'. handle_backspace st s = Ret () s' \<and> edited st (edit_key (line_of st s) 0x7F) (key_echo (line_of st s) 0x7F) s s'"
proof (cases "get_pos st s = 0")
  case True
  with assms show ?thesis
    by (simp add: handle_backspace_def edited_def edit_key_def key_echo_def line_of_def echo_simps)
next
  case False
  let ?p = "get_pos st s"
  have p: "unat (?p - 1) = unat ?p - 1" "0 < unat ?p" using False by (simp_all add: unat_minus_one unat_gt_0)
  have l: "load_bytes (memory s) st (unat ?p) = load_bytes (memory s) st (unat ?p - 1) @ [memory s (st + of_nat (unat ?p - 1))]"
    using load_bytes_add [of "memory s" st "unat ?p - 1" 1] p(2) by (simp add: load_bytes_Suc)
  then have b: "load_bytes (memory s) st (unat (?p - 1)) = butlast (line_of st s)" by (simp add: line_of_def p(1))
  have "edited st (butlast (line_of st s)) [CHR 0x08, CHR '' '', CHR 0x08] s
     (set_memory (store32 (memory s) (pos_at st) (?p - 1)) (serial_print [CHR 0x08, CHR '' '', CHR 0x08] s))"
    using assms b p(1) by (intro edited_pos) (auto simp: editor_ok_def dest: in_set_butlastD)
  moreover have "line_of st s \<noteq> []" using l by (simp add: line_of_def)
  ultimately show ?thesis
    using False by (simp add: handle_backspace_def edit_key_def key_echo_def set_pos_def echo_simps)
qed

lemma handle_input_edit:
  assumes "editor_ok st s" and "memory s (in_at st) = c" and "editing_key c"
  shows "\<exists>s'. handle_input sys sh fp st s = Ret () s' \<and> edited st (edit_key (line_of st s) c) (key_echo (line_of st s) c) s s'"
proof -
  have "edited st [] (CHR 0x0A # PRINT_PROMPT) s (set_memory (store32 (memory s) (pos_at st) 0) (serial_print (CHR 0x0A # PRINT_PROMPT) s))"
    by (rule edited_pos) (simp_all add: MAX_CMD_LINE_def)
  then have "\<exists>s'. handle_end_of_text st s = Ret () s' \<and> edited st (edit_key (line_of st s) 3) (key_echo (line_of st s) 3) s s'"
    by (simp add: handle_end_of_text_def edit_key_def key_echo_def set_pos_def echo_simps)
  with assms handle_backspace_edit [OF assms(1)] handle_char_edit [OF assms(1,2)] show ?thesis
    by (auto simp: handle_input_def Let_def editing_key_def)
qed

section \<open>Reads of several characters\<close>

text \<open>The input that a read has put into the buffer, with its terminator, behind the part the editing
  changes.\<close>

definition input_at :: "size_t \<Rightarrow> byte list \<Rightarrow> kstate \<Rightarrow> bool" where
  "input_at st cs s \<longleftrightarrow> length cs < INPUT_BUFFER_SIZE \<and> 0 \<notin> set cs \<and> load_bytes (memory s) (in_at st) (Suc (length cs)) = cs @ [0]"

lemma input_at_nth: "input_at st cs s \<Longrightarrow> k \<le> length cs \<Longrightarrow> memory s (in_at st + of_nat k) = (cs @ [0]) ! k"
  using nth_load_bytes [of k "Suc (length cs)" "memory s" "in_at st"] by (simp add: input_at_def)

lemma input_outside: "k \<le> 20 \<Longrightarrow> in_at st + of_nat k \<notin> region st 260"
proof -
  assume k: "k \<le> 20"
  have "in_at st + of_nat k - st = of_nat (260 + k)" by (simp add: in_at_def)
  moreover have "unat (of_nat (260 + k) :: size_t) = 260 + k" using k by (intro unat_of_nat32) simp
  ultimately show ?thesis by (simp add: region_def del: of_nat_add)
qed

lemma edited_keeps:
  assumes "edited st l txt s s'" and "input_at st cs s"
  shows "input_at st cs s'" and "get_curr st s' = get_curr st s"
proof -
  have m: "memory s' (in_at st + of_nat k) = memory s (in_at st + of_nat k)" if "k \<le> 20" for k
    using assms(1) input_outside [OF that] by (simp add: edited_def)
  have "load_bytes (memory s') (in_at st) (Suc (length cs)) = load_bytes (memory s) (in_at st) (Suc (length cs))"
    using assms(2) by (intro load_bytes_cong m) (simp add: input_at_def INPUT_BUFFER_SIZE_def)
  with assms(2) show "input_at st cs s'" by (simp add: input_at_def)
  have "load_bytes (memory s') (curr_at st) 4 = load_bytes (memory s) (curr_at st) 4"
  proof (rule load_bytes_cong)
    fix i :: nat assume "i < 4"
    then show "memory s' (curr_at st + of_nat i) = memory s (curr_at st + of_nat i)"
      using m [of "16 + i"] by (simp add: state_offsets(2) add.assoc)
  qed
  then show "get_curr st s' = get_curr st s" by (simp add: get_curr_def load32_def)
qed

lemma set_curr_keeps:
  assumes "editor_ok st s"
  shows "editor_ok st (set_curr st v s)" and "line_of st (set_curr st v s) = line_of st s"
    and "input_at st cs s \<Longrightarrow> input_at st cs (set_curr st v s)" and "get_curr st (set_curr st v s) = v"
proof -
  have a: "apart (curr_at st) 4 (st + of_nat y) k" if "y + k \<le> 276" "0 < k" for y k
    using apart_offsets(2) [of y k 276 4 st] that by (simp add: curr_at_def)
  have p: "get_pos st (set_curr st v s) = get_pos st s"
    using a [of 256 4] by (simp add: get_pos_def set_curr_def pos_at_def mem_simps)
  have n: "unat (get_pos st s) \<le> 256" using assms by (simp add: editor_ok_def MAX_CMD_LINE_def)
  with p show l: "line_of st (set_curr st v s) = line_of st s"
    using a [of 0 "unat (get_pos st s)"]
    by (cases "unat (get_pos st s) = 0") (simp_all add: line_of_def set_curr_def mem_simps)
  with p assms show "editor_ok st (set_curr st v s)" by (simp add: editor_ok_def)
  show "input_at st cs s \<Longrightarrow> input_at st cs (set_curr st v s)"
    using a [of 260 "Suc (length cs)"] by (auto simp: input_at_def INPUT_BUFFER_SIZE_def set_curr_def in_at_def mem_simps)
  show "get_curr st (set_curr st v s) = v" by (simp add: get_curr_def set_curr_def mem_simps)
qed

text \<open>What the rest of a chunk does: it applies its first character once for every character left.\<close>

lemma input_loop_edit:
  assumes "editing_key c" and "input_at st (c # cs) s" and "editor_ok st s"
    and "get_curr st s = in_at st + of_nat k" and "k \<le> Suc (length cs)"
  shows "\<exists>s'. input_loop sys sh fp st s = Some (Ret () s') \<and> editor_ok st s' \<and>
    line_of st s' = ((\<lambda>l. edit_key l c) ^^ (Suc (length cs) - k)) (line_of st s) \<and>
    (\<forall>x. x \<notin> region st 280 \<longrightarrow> memory s' x = memory s x) \<and>
    s' = set_memory (memory s') (serial_print (keys_echo (line_of st s) (replicate (Suc (length cs) - k) c)) s)"
  using assms(2-5)
proof (induction "Suc (length cs) - k" arbitrary: k s)
  case 0
  then have k: "k = Suc (length cs)" by simp
  have "memory s (get_curr st s) = 0" using input_at_nth [OF "0.prems"(1), of k] k "0.prems"(3) by (simp add: nth_append)
  with 0 k show ?case by (subst input_loop.simps) (simp add: echo_simps)
next
  case (Suc n)
  have k: "k < Suc (length cs)" using Suc.hyps(2) by simp
  have "(c # cs) ! k \<in> set (c # cs)" using k by (intro nth_mem) simp
  then have "(c # cs) ! k \<noteq> 0" using Suc.prems(1) unfolding input_at_def by metis
  moreover have "((c # cs) @ [0]) ! k = (c # cs) ! k" using k by (simp add: nth_append del: append_Cons)
  ultimately have nz: "memory s (get_curr st s) \<noteq> 0"
    using input_at_nth [OF Suc.prems(1), of k] k Suc.prems(3) by simp
  have c: "memory s (in_at st) = c" using input_at_nth [OF Suc.prems(1), of 0] by simp
  obtain s1 where h: "handle_input sys sh fp st s = Ret () s1"
    and e: "edited st (edit_key (line_of st s) c) (key_echo (line_of st s) c) s s1"
    using handle_input_edit [OF Suc.prems(2) c assms(1)] by blast
  have ok1: "editor_ok st s1" using e by (simp add: edited_def)
  let ?s2 = "set_curr st (get_curr st s1 + 1) s1"
  have loop: "input_loop sys sh fp st s = input_loop sys sh fp st ?s2"
    using nz h by (subst input_loop.simps) simp
  have prems: "input_at st (c # cs) ?s2" "editor_ok st ?s2" "get_curr st ?s2 = in_at st + of_nat (Suc k)" "Suc k \<le> Suc (length cs)"
    using edited_keeps [OF e Suc.prems(1)] set_curr_keeps [OF ok1] Suc.prems(3) k by (simp_all add: ac_simps)
  have n: "n = Suc (length cs) - Suc k" using Suc.hyps(2) by simp
  obtain s' where s': "input_loop sys sh fp st ?s2 = Some (Ret () s')" "editor_ok st s'"
    "line_of st s' = ((\<lambda>l. edit_key l c) ^^ n) (line_of st ?s2)" "\<And>x. x \<notin> region st 280 \<Longrightarrow> memory s' x = memory ?s2 x"
    "s' = set_memory (memory s') (serial_print (keys_echo (line_of st ?s2) (replicate n c)) ?s2)"
    using Suc.hyps(1) [OF n prems] unfolding n by blast
  have l: "line_of st ?s2 = edit_key (line_of st s) c" using set_curr_keeps(2) [OF ok1] e by (simp add: edited_def)
  have out: "memory ?s2 x = memory s x" if "x \<notin> region st 280" for x
  proof -
    have "x \<notin> region (curr_at st) 4" "x \<notin> region st 260"
      using that region_part [of 276 4 280 st] by (auto simp: curr_at_def region_def)
    with e show ?thesis by (simp add: edited_def set_curr_def store32_def store_bytes_def region_def)
  qed
  have "s1 = set_memory (memory s1) (serial_print (key_echo (line_of st s) c) s)" using e by (simp add: edited_def)
  then have st1: "serial_print t ?s2 = set_memory (memory ?s2) (serial_print (key_echo (line_of st s) c @ t) s)" for t
    by (metis echo_simps(4,5) set_curr_def set_memory_simps(8) set_memory_again)
  have "s' = set_memory (memory s') (serial_print (keys_echo (line_of st s) (replicate (Suc n) c)) s)"
    using s'(5) unfolding st1 l by simp
  moreover have "line_of st s' = ((\<lambda>l. edit_key l c) ^^ Suc n) (line_of st s)"
    using s'(3) l by (simp add: funpow_Suc_right del: funpow.simps)
  ultimately show ?case using loop s'(1,2,4) out Suc.hyps(2) by auto
qed

text \<open>A chunk that a read has put into the buffer: the terminator is written behind it.\<close>

definition chunk_read :: "size_t \<Rightarrow> byte list \<Rightarrow> kstate \<Rightarrow> bool" where
  "chunk_read st cs s \<longleftrightarrow> length cs < INPUT_BUFFER_SIZE \<and> 0 \<notin> set cs \<and> load_bytes (memory s) (in_at st) (length cs) = cs"

lemma in_buffer_inside:
  assumes "k < 20"
  shows "in_at st + of_nat k \<in> region st 280"
proof -
  have "in_at st + of_nat k - st = of_nat (260 + k)" by (simp add: in_at_def)
  moreover have "unat (of_nat (260 + k) :: size_t) = 260 + k" using assms by (intro unat_of_nat32) simp
  ultimately show ?thesis using assms by (simp add: region_def del: of_nat_add)
qed

lemma start_chunk:
  assumes "chunk_read st cs s" and "editor_ok st s"
  defines "s1 \<equiv> set_curr st (in_at st) (set_memory ((memory s)(in_at st + of_nat (length cs) := 0)) s)"
  shows "input_at st cs s1" and "editor_ok st s1" and "line_of st s1 = line_of st s" and "get_curr st s1 = in_at st"
    and "\<And>x. x \<notin> region st 280 \<Longrightarrow> memory s1 x = memory s x" and "s1 = set_memory (memory s1) s"
proof -
  let ?n = "length cs"
  let ?s0 = "set_memory ((memory s)(in_at st + of_nat ?n := 0)) s"
  have n: "?n < 16" using assms(1) by (simp add: chunk_read_def INPUT_BUFFER_SIZE_def)
  have out: "memory ?s0 x = memory s x" if "x \<in> region st 260" for x
    using that input_outside [of ?n st] n by auto
  have "load32 (memory ?s0) (pos_at st) = load32 (memory s) (pos_at st)"
    using region_part [of 256 4 260 st] by (intro load32_cong_region out) (auto simp: pos_at_def)
  then have p: "get_pos st ?s0 = get_pos st s" by (simp add: get_pos_def)
  have le: "unat (get_pos st s) \<le> 256" using assms(2) by (simp add: editor_ok_def MAX_CMD_LINE_def)
  have "load_bytes (memory ?s0) st (unat (get_pos st s)) = load_bytes (memory s) st (unat (get_pos st s))"
    using le by (intro load_bytes_cong out) (simp add: region_def)
  with p have l: "line_of st ?s0 = line_of st s" by (simp add: line_of_def)
  with p assms(2) have ok: "editor_ok st ?s0" by (simp add: editor_ok_def)
  have "load_bytes (memory ?s0) (in_at st) ?n = load_bytes (memory s) (in_at st) ?n"
  proof -
    have "in_at st + of_nat i \<noteq> in_at st + of_nat ?n" if "i < ?n" for i
      using that n by (subst offset_eq) auto
    then show ?thesis by (simp add: load_bytes_upd_outside)
  qed
  then have "input_at st cs ?s0"
    using assms(1) load_bytes_add [of "memory ?s0" "in_at st" ?n 1]
    by (simp add: input_at_def chunk_read_def load_bytes_Suc)
  with ok l show "input_at st cs s1" "editor_ok st s1" "line_of st s1 = line_of st s" "get_curr st s1 = in_at st"
    using set_curr_keeps [OF ok, where v = "in_at st"] by (simp_all add: s1_def)
  show "memory s1 x = memory s x" if "x \<notin> region st 280" for x
  proof -
    have "x \<notin> region (curr_at st) 4" using that region_part [of 276 4 280 st] by (auto simp: curr_at_def)
    moreover have "x \<noteq> in_at st + of_nat ?n" using that in_buffer_inside [of ?n st] n by auto
    ultimately show ?thesis by (simp add: s1_def set_curr_def store32_def store_bytes_def region_def)
  qed
  show "s1 = set_memory (memory s1) s" by (simp add: s1_def set_curr_def)
qed

lemma process_chunk:
  assumes "chunk_read st (c # cs) s" and "editor_ok st s" and "editing_key c"
  shows "\<exists>s'. process_input sys sh fp st (of_nat (Suc (length cs))) s = Some (Ret () s') \<and> editor_ok st s' \<and>
    line_of st s' = ((\<lambda>l. edit_key l c) ^^ Suc (length cs)) (line_of st s) \<and>
    (\<forall>x. x \<notin> region st 280 \<longrightarrow> memory s' x = memory s x) \<and>
    s' = set_memory (memory s') (serial_print (keys_echo (line_of st s) (replicate (Suc (length cs)) c)) s)"
proof -
  define s1 where "s1 = set_curr st (in_at st) (set_memory ((memory s)(in_at st + of_nat (length (c # cs)) := 0)) s)"
  note S = start_chunk [OF assms(1,2), folded s1_def]
  have run: "process_input sys sh fp st (of_nat (Suc (length cs))) s = input_loop sys sh fp st s1"
    by (simp add: process_input_def s1_def)
  have pos: "get_curr st s1 = in_at st + of_nat 0" using S(4) by simp
  have "serial_print t s1 = set_memory (memory s1) (serial_print t s)" for t
    using S(6) by (metis echo_simps(4))
  with input_loop_edit [OF assms(3) S(1,2) pos, where sys = sys and sh = sh and fp = fp] S(3,5) show ?thesis
    unfolding run by (auto simp del: funpow.simps keys_echo.simps replicate.simps)
qed

section \<open>One key at a time, and the line that is entered\<close>

text \<open>A key that is read on its own.\<close>

definition read_key :: "size_t \<Rightarrow> byte \<Rightarrow> kstate \<Rightarrow> kstate" where
  "read_key st c s = set_memory ((memory s)(in_at st := c)) s"

fun type_keys :: "kernel_call \<Rightarrow> Shell \<Rightarrow> size_t \<Rightarrow> size_t \<Rightarrow> byte list \<Rightarrow> kstate \<Rightarrow> unit kresult option" where
  "type_keys sys sh fp st [] s = Some (Ret () s)"
| "type_keys sys sh fp st (c # cs) s =
     (case process_input sys sh fp st 1 (read_key st c s) of
        Some (Ret _ s) \<Rightarrow> type_keys sys sh fp st cs s
      | r \<Rightarrow> r)"

lemma read_key_chunk:
  assumes "editor_ok st s" and "c \<noteq> 0"
  shows "chunk_read st [c] (read_key st c s)" and "editor_ok st (read_key st c s)"
    and "line_of st (read_key st c s) = line_of st s" and "x \<notin> region st 280 \<Longrightarrow> memory (read_key st c s) x = memory s x"
proof -
  show "chunk_read st [c] (read_key st c s)"
    using assms(2) by (simp add: chunk_read_def INPUT_BUFFER_SIZE_def read_key_def load_bytes_Suc)
  have out: "memory (read_key st c s) x = memory s x" if "x \<in> region st 260" for x
    using that state_offsets(1) [of st] by (auto simp: read_key_def)
  have "load32 (memory (read_key st c s)) (pos_at st) = load32 (memory s) (pos_at st)"
    using region_part [of 256 4 260 st] by (intro load32_cong_region out) (auto simp: pos_at_def)
  then have p: "get_pos st (read_key st c s) = get_pos st s" by (simp add: get_pos_def)
  have le: "unat (get_pos st s) \<le> 256" using assms(1) by (simp add: editor_ok_def MAX_CMD_LINE_def)
  have "load_bytes (memory (read_key st c s)) st (unat (get_pos st s)) = load_bytes (memory s) st (unat (get_pos st s))"
    using le by (intro load_bytes_cong out) (simp add: region_def)
  with p show l: "line_of st (read_key st c s) = line_of st s" by (simp add: line_of_def)
  with p assms(1) show "editor_ok st (read_key st c s)" by (simp add: editor_ok_def)
  show "x \<notin> region st 280 \<Longrightarrow> memory (read_key st c s) x = memory s x"
    using in_buffer_inside [of 0 st] by (auto simp: read_key_def)
qed

lemma type_keys_edit:
  assumes "editor_ok st s" and "\<forall>c \<in> set keys. editing_key c"
  shows "\<exists>s'. type_keys sys sh fp st keys s = Some (Ret () s') \<and> editor_ok st s' \<and>
    line_of st s' = foldl edit_key (line_of st s) keys \<and>
    (\<forall>x. x \<notin> region st 280 \<longrightarrow> memory s' x = memory s x) \<and>
    s' = set_memory (memory s') (serial_print (keys_echo (line_of st s) keys) s)"
  using assms
proof (induction keys arbitrary: s)
  case Nil
  then show ?case by (simp add: echo_simps)
next
  case (Cons c cs)
  have c: "editing_key c" "c \<noteq> 0" using Cons.prems(2) by (auto simp: editing_key_def)
  note K = read_key_chunk [OF Cons.prems(1) c(2)]
  obtain s1 where s1: "process_input sys sh fp st 1 (read_key st c s) = Some (Ret () s1)" "editor_ok st s1"
    "line_of st s1 = edit_key (line_of st s) c" "\<And>x. x \<notin> region st 280 \<Longrightarrow> memory s1 x = memory s x"
    "s1 = set_memory (memory s1) (serial_print (key_echo (line_of st s) c) (read_key st c s))"
    using process_chunk [OF K(1,2) c(1), where sys = sys and sh = sh and fp = fp] K(3,4) by auto
  obtain s' where s': "type_keys sys sh fp st cs s1 = Some (Ret () s')" "editor_ok st s'"
    "line_of st s' = foldl edit_key (line_of st s1) cs" "\<And>x. x \<notin> region st 280 \<Longrightarrow> memory s' x = memory s1 x"
    "s' = set_memory (memory s') (serial_print (keys_echo (line_of st s1) cs) s1)"
    using Cons.IH [OF s1(2)] Cons.prems(2) by auto
  have "s1 = set_memory (memory s1) (serial_print (key_echo (line_of st s) c) s)"
    using s1(5) by (simp add: read_key_def echo_simps)
  then have "serial_print t s1 = set_memory (memory s1) (serial_print (key_echo (line_of st s) c @ t) s)" for t
    by (metis echo_simps(4,5))
  with s1 s' show ?case by auto
qed

text \<open>The terminator of a full line goes into the position behind it, which is reset right then.\<close>

lemma enter_line:
  assumes "editor_ok st s"
  shows "\<exists>s1. handle_return sys sh fp st s = obind (do_command sys sh fp st s1) (\<lambda>_ s. Ret () (set_pos st 0 (serial_print PRINT_PROMPT s))) \<and>
    cstr (memory s1) st (line_of st s) \<and> get_pos st s1 = 0 \<and> (\<forall>x. x \<notin> region st 260 \<longrightarrow> memory s1 x = memory s x) \<and>
    s1 = set_memory (memory s1) (serial_print [CHR 0x0A] s)"
proof -
  let ?p = "get_pos st s"
  let ?m = "store32 ((memory s)(st + ?p := 0)) (pos_at st) 0"
  have le: "unat ?p \<le> 256" using assms by (simp add: editor_ok_def MAX_CMD_LINE_def)
  have "load_bytes ((memory s)(st + ?p := 0)) st (unat ?p) = line_of st s"
    unfolding line_of_def
  proof (rule load_bytes_upd_outside)
    fix i assume "i < unat ?p"
    with le have "st + of_nat i \<noteq> st + of_nat (unat ?p)" by (subst offset_eq) auto
    then show "st + of_nat i \<noteq> st + ?p" by simp
  qed
  then have l: "load_bytes ?m st (unat ?p) = line_of st s" using le by (simp add: load_after_pos)
  have z: "?m (st + ?p) = 0"
  proof (cases "unat ?p = 256")
    case True
    then have "?p = 256" by (metis of_nat_numeral of_nat_unat32)
    then show ?thesis by (simp add: pos_at_def store32_def store_bytes_def bytes32_def)
  next
    case False
    with le have "apart (pos_at st) 4 (st + of_nat (unat ?p)) 1"
      using apart_offsets(2) [of "unat ?p" 1 256 4 st] by (simp add: pos_at_def)
    then show ?thesis by (simp add: load_byte_store32)
  qed
  have "load_bytes ?m st (Suc (unat ?p)) = line_of st s @ [0]"
    using load_bytes_add [of ?m st "unat ?p" 1] l z by (simp add: load_bytes_Suc)
  then have "cstr ?m st (line_of st s)"
    using assms le by (simp add: cstr_def line_length editor_ok_def)
  moreover have "?m x = memory s x" if "x \<notin> region st 260" for x
  proof -
    have "unat ?p < 260" using le by simp
    then have "x \<noteq> st + ?p" using that by (auto simp: region_def)
    then show ?thesis using that by (simp add: store_pos_outside)
  qed
  ultimately show ?thesis
    by (intro exI [of _ "set_memory ?m (serial_print [CHR 0x0A] s)"])
      (simp add: handle_return_def Let_def set_pos_def echo_simps get_pos_def mem_simps)
qed

section \<open>Escape sequences\<close>

lemma handle_escape_arrow:
  assumes "memory s (in_at st) = 0x1B" and "memory s (get_curr st s + 1) = 0x5B"
    and "0x41 \<le> memory s (get_curr st s + 2)" and "memory s (get_curr st s + 2) \<le> 0x44"
  shows "handle_input sys sh fp st s = Ret () (set_curr st (get_curr st s + 2) s)"
  using assms by (simp add: handle_input_def handle_escape_sequence_def)

lemma handle_escape_fails:
  assumes "memory s (in_at st) = 0x1B" and "memory s (get_curr st s + 1) \<noteq> 0x5B" and "exits_on_call sys"
  shows "\<exists>s'. handle_input sys sh fp st s = Exit 1 s'"
  using assms by (simp add: handle_input_def handle_escape_sequence_def assert_fail_exits)

lemma escape_loop:
  assumes "input_at st cs s" and "editor_ok st s" and "get_curr st s = in_at st" and "exits_on_call sys"
    and "cs = [0x1B, 0x5B, d] @ rest" and "0x41 \<le> d" and "d \<le> 0x44" and "rest = [] \<or> rest = [c]"
  shows "if rest = [] then input_loop sys sh fp st s = Some (Ret () (set_curr st (in_at st + 3) (set_curr st (in_at st + 2) s)))
    else \<exists>s'. input_loop sys sh fp st s = Some (Exit 1 s')"
proof -
  have at: "memory t (in_at st + of_nat k) = (cs @ [0]) ! k" if "input_at st cs t" "k \<le> length cs" for t k
    using input_at_nth [OF that] .
  let ?s1 = "set_curr st (in_at st + 2) s" and ?s2 = "set_curr st (in_at st + 3) (set_curr st (in_at st + 2) s)"
  have k1: "editor_ok st ?s1" "input_at st cs ?s1" using set_curr_keeps [OF assms(2)] assms(1) by blast+
  have k2: "input_at st cs ?s2" "get_curr st ?s2 = in_at st + 3" using set_curr_keeps [OF k1(1)] k1(2) by blast+
  have l: "3 \<le> length cs" using assms(5) by simp
  have "handle_input sys sh fp st s = Ret () ?s1"
    using at [OF assms(1), of 0] at [OF assms(1), of 1] at [OF assms(1), of 2] l assms(3,5-7)
    by (subst handle_escape_arrow) simp_all
  then have "input_loop sys sh fp st s = input_loop sys sh fp st ?s2"
    using at [OF assms(1), of 0] assms(3,5) set_curr_keeps(4) [OF assms(2)]
    by (subst input_loop.simps) (simp add: add.assoc)
  moreover have "input_loop sys sh fp st ?s2 = Some (Ret () ?s2)" if "rest = []"
    using at [OF k2(1), of 3] l k2(2) that assms(5) by (subst input_loop.simps) simp
  moreover have "\<exists>s'. input_loop sys sh fp st ?s2 = Some (Exit 1 s')" if r: "rest = [c]"
  proof -
    have c: "c \<noteq> 0" using assms(1,5) r by (auto simp: input_at_def)
    have m: "memory ?s2 (in_at st) = 0x1B" "memory ?s2 (get_curr st ?s2) = c" "memory ?s2 (get_curr st ?s2 + 1) = 0"
      using at [OF k2(1), of 0] at [OF k2(1), of 3] at [OF k2(1), of 4] k2(2) r assms(5) by (simp_all add: add.assoc)
    then obtain s' where "handle_input sys sh fp st ?s2 = Exit 1 s'" using handle_escape_fails [OF m(1) _ assms(4)] by auto
    with m c show ?thesis by (subst input_loop.simps) simp
  qed
  ultimately show ?thesis using assms(8) by auto
qed

section \<open>What the editor promises\<close>

text \<open>C39: Keys that are read one at a time edit the line as a text: each is appended unless the line is
  full, the backspace key removes the last one, an interrupt empties the line, and each is echoed.
  The return key hands the edited text to the command interpreter as a string, a full line of 256
  characters too.\<close>

theorem typed_line_runs:
  assumes "editor_ok st s" and "line_of st s = []" and "\<forall>c \<in> set keys. editing_key c"
  shows "\<exists>s' s1. type_keys sys sh fp st keys s = Some (Ret () s') \<and>
    handle_return sys sh fp st s' = obind (do_command sys sh fp st s1) (\<lambda>_ s. Ret () (set_pos st 0 (serial_print PRINT_PROMPT s))) \<and>
    cstr (memory s1) st (foldl edit_key [] keys) \<and> get_pos st s1 = 0 \<and>
    s1 = set_memory (memory s1) (serial_print (keys_echo [] keys @ [CHR 0x0A]) s) \<and>
    (\<forall>x. x \<notin> region st 280 \<longrightarrow> memory s1 x = memory s x)"
proof -
  obtain s' where s': "type_keys sys sh fp st keys s = Some (Ret () s')" "editor_ok st s'" "line_of st s' = foldl edit_key [] keys"
    "\<And>x. x \<notin> region st 280 \<Longrightarrow> memory s' x = memory s x" "s' = set_memory (memory s') (serial_print (keys_echo [] keys) s)"
    using type_keys_edit [OF assms(1,3), of sys sh fp] assms(2) by auto
  obtain s1 where s1: "handle_return sys sh fp st s' = obind (do_command sys sh fp st s1) (\<lambda>_ s. Ret () (set_pos st 0 (serial_print PRINT_PROMPT s)))"
    "cstr (memory s1) st (line_of st s')" "get_pos st s1 = 0" "\<And>x. x \<notin> region st 260 \<Longrightarrow> memory s1 x = memory s' x"
    "s1 = set_memory (memory s1) (serial_print [CHR 0x0A] s')"
    using enter_line [OF s'(2), of sys sh fp] by blast
  have "s1 = set_memory (memory s1) (serial_print (keys_echo [] keys @ [CHR 0x0A]) s)"
    using s1(5) s'(5) by (metis echo_simps(4,5) set_memory_again)
  moreover have "memory s1 x = memory s x" if "x \<notin> region st 280" for x
  proof -
    have "x \<notin> region st 260" using that by (auto simp: region_def)
    with s1(4) s'(4) [OF that] show ?thesis by simp
  qed
  ultimately show ?thesis using s' s1 by auto
qed

text \<open>A read that returns several characters at once does not insert them: the first character is
  processed as often as there are characters, and the others are lost.\<close>

theorem chunk_repeats_first:
  assumes "chunk_read st (c # cs) s" and "editor_ok st s" and "editing_key c"
  shows "\<exists>s'. process_input sys sh fp st (of_nat (Suc (length cs))) s = Some (Ret () s') \<and> editor_ok st s' \<and>
    line_of st s' = ((\<lambda>l. edit_key l c) ^^ Suc (length cs)) (line_of st s) \<and>
    serial s' = serial s @ keys_echo (line_of st s) (replicate (Suc (length cs)) c)"
proof -
  obtain s' where s': "process_input sys sh fp st (of_nat (Suc (length cs))) s = Some (Ret () s')" "editor_ok st s'"
    "line_of st s' = ((\<lambda>l. edit_key l c) ^^ Suc (length cs)) (line_of st s)"
    "s' = set_memory (memory s') (serial_print (keys_echo (line_of st s) (replicate (Suc (length cs)) c)) s)"
    using process_chunk [OF assms, of sys sh fp] by blast
  have "serial s' = serial s @ keys_echo (line_of st s) (replicate (Suc (length cs)) c)"
    by (subst s'(4)) (simp add: echo_simps)
  with s'(1-3) show ?thesis by blast
qed

text \<open>An arrow key that is read on its own leaves the line and the output as they are, but with any
  other character behind it in the same read, it ends the whole system with status 1.\<close>

theorem arrow_key_bursts:
  assumes "chunk_read st ([0x1B, 0x5B, d] @ rest) s" and "editor_ok st s" and "exits_on_call sys"
    and "0x41 \<le> d" and "d \<le> 0x44" and "rest = [] \<or> rest = [c]"
  shows "if rest = []
    then \<exists>s'. process_input sys sh fp st 3 s = Some (Ret () s') \<and> line_of st s' = line_of st s \<and> serial s' = serial s
    else \<exists>s'. process_input sys sh fp st 4 s = Some (Exit 1 s')"
proof -
  define s1 where "s1 = set_curr st (in_at st) (set_memory ((memory s)(in_at st + of_nat (length ([0x1B, 0x5B, d] @ rest)) := 0)) s)"
  note S = start_chunk [OF assms(1,2), folded s1_def]
  have run: "process_input sys sh fp st (of_nat (length ([0x1B, 0x5B, d] @ rest))) s = input_loop sys sh fp st s1"
    by (simp add: process_input_def s1_def)
  note loop = escape_loop [OF S(1,2,4) assms(3) refl assms(4-6), of sh fp]
  have ok2: "editor_ok st (set_curr st (in_at st + 2) s1)" using set_curr_keeps(1) [OF S(2)] .
  have "line_of st (set_curr st (in_at st + 3) (set_curr st (in_at st + 2) s1)) = line_of st s"
    using set_curr_keeps(2) [OF ok2] set_curr_keeps(2) [OF S(2)] S(3) by simp
  moreover have "serial (set_curr st (in_at st + 3) (set_curr st (in_at st + 2) s1)) = serial s"
    by (simp add: set_curr_def s1_def)
  ultimately show ?thesis using loop run assms(6) by auto
qed

section \<open>Instances\<close>

lemma demo_editor: "editor_ok st demo_state" "line_of st demo_state = []"
  by (simp_all add: editor_ok_def line_of_def get_pos_def)

text \<open>The keys \<open>lx\<close>, backspace, \<open>s\<close>.\<close>

theorem typed_line_runs_witness:
  "\<exists>s' s1. type_keys demo_sys demo_shell 0x4000 0x5000 [0x6C, 0x78, 0x7F, 0x73] demo_state = Some (Ret () s') \<and>
     handle_return demo_sys demo_shell 0x4000 0x5000 s' =
       obind (do_command demo_sys demo_shell 0x4000 0x5000 s1) (\<lambda>_ s. Ret () (set_pos 0x5000 0 (serial_print PRINT_PROMPT s))) \<and>
     cstr (memory s1) 0x5000 [0x6C, 0x73]"
  using typed_line_runs [OF demo_editor, of "[0x6C, 0x78, 0x7F, 0x73]" demo_sys demo_shell "0x4000" "0x5000"]
  by (auto simp: editing_key_def edit_key_def MAX_CMD_LINE_def)

text \<open>A state into whose buffer a read has put some characters.\<close>

definition demo_chunk :: "byte list \<Rightarrow> kstate" where
  "demo_chunk cs = set_memory (store_bytes (\<lambda>_. 0) (in_at 0x5000) cs) demo_state"

lemma demo_chunk_ok:
  assumes "length cs < 16" and "0 \<notin> set cs"
  shows "chunk_read 0x5000 cs (demo_chunk cs)" and "editor_ok 0x5000 (demo_chunk cs)" and "line_of 0x5000 (demo_chunk cs) = []"
proof -
  show "chunk_read 0x5000 cs (demo_chunk cs)"
    using assms by (simp add: chunk_read_def demo_chunk_def INPUT_BUFFER_SIZE_def mem_simps)
  have "apart (in_at 0x5000) (length cs) (pos_at 0x5000) 4"
    using assms(1) by (simp add: apart_def in_at_def pos_at_def)
  then have "get_pos 0x5000 (demo_chunk cs) = 0" by (simp add: get_pos_def demo_chunk_def mem_simps)
  then show "editor_ok 0x5000 (demo_chunk cs)" "line_of 0x5000 (demo_chunk cs) = []"
    by (simp_all add: editor_ok_def line_of_def)
qed

theorem chunk_repeats_first_witness:
  "\<exists>s'. process_input demo_sys demo_shell 0x4000 0x5000 2 (demo_chunk [0x6C, 0x73]) = Some (Ret () s') \<and>
     line_of 0x5000 s' = [0x6C, 0x6C]"
proof -
  have ok: "chunk_read 0x5000 [0x6C, 0x73] (demo_chunk [0x6C, 0x73])" "editor_ok 0x5000 (demo_chunk [0x6C, 0x73])"
    "line_of 0x5000 (demo_chunk [0x6C, 0x73]) = []" by (rule demo_chunk_ok; simp)+
  show ?thesis
    using chunk_repeats_first [OF ok(1,2), of demo_sys demo_shell "0x4000"] ok(3)
    by (auto simp: editing_key_def edit_key_def MAX_CMD_LINE_def)
qed

theorem arrow_key_bursts_witness:
  "\<exists>s'. process_input demo_sys demo_shell 0x4000 0x5000 4 (demo_chunk [0x1B, 0x5B, 0x41, 0x78]) = Some (Exit 1 s')"
proof -
  have ok: "chunk_read 0x5000 ([0x1B, 0x5B, 0x41] @ [0x78]) (demo_chunk [0x1B, 0x5B, 0x41, 0x78])"
    "editor_ok 0x5000 (demo_chunk [0x1B, 0x5B, 0x41, 0x78])"
    using demo_chunk_ok(1,2) [of "[0x1B, 0x5B, 0x41, 0x78]"] by simp_all
  show ?thesis
    using arrow_key_bursts [OF ok demo_exits, of "0x78" demo_shell "0x4000"] by simp
qed

end
