(* ===== verification/Programs.thy ===== *)
theory Programs
  imports Command_Line
begin

text \<open>
  The programs the shell can run: \<open>src/demos/shell/echo.c\<close>, \<open>ls.c\<close> and \<open>ps.c\<close>. Each is started with the
  words of the command line as its arguments. A string for a message is read from the memory.
\<close>

section \<open>echo\<close>

function echo_loop :: "size_t \<Rightarrow> nat \<Rightarrow> nat \<Rightarrow> kstate \<Rightarrow> unit kresult" where
  "echo_loop argv i argc s =
     (if i < argc then obind (print_with ''%s '' (load32 (memory s) (argv + 4 * of_nat i)) s) (\<lambda>_ s. echo_loop argv (Suc i) argc s)
      else Ret () s)"
  by pat_completeness auto
termination
  by (relation "measure (\<lambda>(argv, i, argc, s). argc - i)") auto

declare echo_loop.simps [simp del]

definition echo_worker :: "u32 \<Rightarrow> size_t \<Rightarrow> kstate \<Rightarrow> unit kresult" where
  "echo_worker argc argv s =
     (if sint argc \<le> 1 then Ret () s
      else obind (echo_loop argv 1 (nat (sint argc)) s) (\<lambda>_ s. k_printf [CHR 0x0A] [] s))"

section \<open>ls\<close>

definition MAX_RES :: nat where "MAX_RES = 1024"

text \<open>The buffer for the listing is a local variable.\<close>

definition ls_worker :: "kernel_call \<Rightarrow> size_t \<Rightarrow> u32 \<Rightarrow> size_t \<Rightarrow> kstate \<Rightarrow> unit kresult" where
  "ls_worker sys fp argc argv s =
     (if sint argc > 2 then k_printf (''ls expects at most one path argument'' @ [CHR 0x0A]) [] s
      else
        (let res = fp + 32;
             path = (if argc = 2 then load32 (memory s) (argv + 4) else b_literal (build s) ''.'')
         in obind (list_dir sys path res (of_nat MAX_RES) s) (\<lambda>ret s.
            if ret \<noteq> 0 then
              (case read_string (memory s) path of None \<Rightarrow> Undef
               | Some p \<Rightarrow> k_printf (''Couldn't ls %s, error %i'' @ [CHR 0x0A]) [VStr (Some p), VNum (word_of_int ret)] s)
            else print_with ''%s'' res s)))"

section \<open>ps\<close>

definition thread_state_to_str :: "u32 \<Rightarrow> string" where
  "thread_state_to_str state =
     (if state = state_num init then ''init''
      else if state = state_num running then ''running''
      else if state = state_num suspended then ''suspended''
      else if state = state_num waiting then ''waiting''
      else if state = state_num finished then ''finished''
      else if state = state_num cancelled then ''cancelled''
      else ''unknown'')"

text \<open>A name, if there is one, with the number, and the number alone otherwise.\<close>

definition print_named :: "size_t \<Rightarrow> string \<Rightarrow> string \<Rightarrow> u32 \<Rightarrow> kstate \<Rightarrow> unit kresult" where
  "print_named name named unnamed tid s =
     (case read_string (memory s) name of None \<Rightarrow> Undef
      | Some n \<Rightarrow> if n \<noteq> [] then k_printf named [VStr (Some n), VNum tid] s else k_printf unnamed [VNum tid] s)"

definition print_related_thread ::
  "kernel_call \<Rightarrow> size_t \<Rightarrow> int \<Rightarrow> string \<Rightarrow> (int \<Rightarrow> size_t \<Rightarrow> kstate \<Rightarrow> bool kresult) \<Rightarrow> kstate \<Rightarrow> unit kresult" where
  "print_related_thread sys fp this_tid kind getter s =
     (let other = fp + 32; other_name = fp + 36;
          s = set_memory (store32 (memory s) other (word_of_int INVALID_THREAD)) s
      in obind (getter this_tid other s) (\<lambda>got s.
         if \<not> got then Ret () s
         else
           (let other_tid = sint (load32 (memory s) other) in
            obind (if other_tid \<noteq> INVALID_THREAD then thread_name sys other_tid other_name s else Ret True s) (\<lambda>_ s.
            if sint (load32 (memory s) other) \<noteq> INVALID_THREAD then
              obind (k_printf ''%s'' [VStr (Some kind)] s) (\<lambda>_ s.
                print_named other_name (''%s (%i)'' @ [CHR 0x0A]) (''%i'' @ [CHR 0x0A]) (load32 (memory s) other) s)
            else Ret () s))))"

text \<open>One thread; the result is whether there was one. The frames of the functions called are below.\<close>

definition ps_thread :: "kernel_call \<Rightarrow> size_t \<Rightarrow> int \<Rightarrow> kstate \<Rightarrow> bool kresult" where
  "ps_thread sys fp tid s =
     (let state = fp + 64; name = fp + 68; tidw = word_of_int tid in
      obind (thread_name sys tid name s) (\<lambda>valid s.
      if \<not> valid then Ret False s
      else
        obind (print_named name (''| %s (%u)'' @ [CHR 0x0A]) (''| Thread %u'' @ [CHR 0x0A]) tidw s) (\<lambda>_ s.
        obind (get_thread_state sys tid state s) (\<lambda>_ s.
        obind (k_printf (''   State | %s (%u)'' @ [CHR 0x0A])
          [VStr (Some (thread_state_to_str (load_state state s))), VNum (load_state state s)] s) (\<lambda>_ s.
        obind (print_related_thread sys fp tid ''  Parent | '' (get_parent sys) s) (\<lambda>_ s.
        obind (print_related_thread sys fp tid ''  Child  | '' (get_child sys) s) (\<lambda>_ s. Ret True s)))))))"

partial_function (option) ps_loop :: "kernel_call \<Rightarrow> size_t \<Rightarrow> int \<Rightarrow> kstate \<Rightarrow> unit kresult option" where
  "ps_loop sys fp tid s =
     (case ps_thread sys fp tid s of
        Ret valid s \<Rightarrow> if valid then ps_loop sys fp (tid + 1) s else Some (Ret () s)
      | Exit n s \<Rightarrow> Some (Exit n s)
      | Undef \<Rightarrow> Some Undef)"

definition ps_worker :: "kernel_call \<Rightarrow> size_t \<Rightarrow> u32 \<Rightarrow> size_t \<Rightarrow> kstate \<Rightarrow> unit kresult option" where
  "ps_worker sys fp argc argv s =
     (if sint argc > 1 then Some (k_printf (''ps expects no arguments'' @ [CHR 0x0A]) [] s) else ps_loop sys fp 0 s)"

section \<open>What echo prints\<close>

lemma read_string_cstr: "cstr m p w \<Longrightarrow> read_string m p = Some (bytes_str w)"
  using load_bytes_add [of m p "length w" 1] by (simp add: read_string_def cstr_def bytes_str_def)

lemma print_word:
  assumes "cstr (memory s) p w"
  shows "print_with ''%s '' p s = Ret () (serial_print (bytes_str w @ '' '') s)"
  by (simp add: print_with_def read_string_cstr [OF assms] k_printf_def sprintf_def format_defs Let_def)
   (simp add: pad_def)

definition spaced :: "byte list list \<Rightarrow> string" where
  "spaced ws = concat (map (\<lambda>w. bytes_str w @ '' '') ws)"

lemma echo_loop_prints:
  assumes "\<And>i. i < length ws \<Longrightarrow> cstr (memory s) (load32 (memory s) (argv + 4 * of_nat i)) (ws ! i)" and "i \<le> length ws"
  shows "echo_loop argv i (length ws) s = Ret () (serial_print (spaced (drop i ws)) s)"
  using assms
proof (induction "length ws - i" arbitrary: i s)
  case 0
  then show ?case by (subst echo_loop.simps) (simp add: spaced_def serial_print_def)
next
  case (Suc n)
  then have i: "i < length ws" by simp
  have n: "n = length ws - Suc i" using Suc.hyps(2) by simp
  let ?s = "serial_print (bytes_str (ws ! i) @ '' '') s"
  have m: "memory ?s = memory s" by (simp add: serial_print_def)
  have "echo_loop argv (Suc i) (length ws) ?s = Ret () (serial_print (spaced (drop (Suc i) ws)) ?s)"
    using Suc.prems(1) i by (intro Suc.hyps(1) [OF n]) (simp_all add: m)
  then show ?case
    using i print_word [OF Suc.prems(1) [OF i]]
    by (subst echo_loop.simps) (simp add: spaced_def serial_print_def flip: Cons_nth_drop_Suc)
qed

text \<open>The words of a command line are still in place when a thread is created for it.\<close>

lemma command_state_words:
  assumes "shell_layout fp cmd bs R s" and "length (words bs) \<le> 20" and "i < length (words bs)"
  shows "cstr (memory (command_state fp cmd bs s)) (load32 (memory (command_state fp cmd bs s)) (fp + 36 + 4 * of_nat i)) (words bs ! i)"
proof -
  note L = shell_layoutD [OF assms(1)]
  note len = line_atD(4) [OF L(1)]
  let ?ps = "map (\<lambda>i. cmd + of_nat i) (word_starts bs)"
  let ?M = "line_mem (memory s) cmd bs (fp + 32) (length bs) ?ps" and ?N = "memory (command_state fp cmd bs s)"
  have lps: "length ?ps \<le> 20" using assms(2) by (simp add: length_word_starts)
  have i: "i < length ?ps" using assms(3) by (simp add: length_word_starts)
  let ?j = "word_starts bs ! i"
  have j: "?j < length bs" "words bs ! i = word_at bs ?j"
    using i word_starts_less [of ?j bs] by (simp_all flip: word_starts_words)
  have lw: "?j + length (word_at bs ?j) \<le> length bs"
    using length_takeWhile_le [of "\<lambda>b. b \<noteq> 0x20" "drop ?j bs"] j(1) unfolding word_at_def length_drop by linarith
  have N: "?N x = ?M x" if "x \<notin> region (fp + 116) 16" for x
    using that by (auto simp: command_state_def store_args_def split_state_def store_bytes_def region_def args_bytes_def)
  have "region (fp + 32 + of_nat (4 + 4 * i)) 4 \<subseteq> region (fp + 32) 84"
    using i lps by (intro region_part) simp_all
  moreover have "x \<notin> region (fp + 116) 16" if "x \<in> region (fp + 32) 84" for x
    using that region_apart [OF apart_offsets(2) [of 32 84 116 16 fp]] by auto
  ultimately have "load32 ?N (fp + 32 + of_nat (4 + 4 * i)) = load32 ?M (fp + 32 + of_nat (4 + 4 * i))"
    by (intro load32_cong_region N) blast
  moreover have "load32 ?M (fp + 32 + of_nat (4 + 4 * i)) = cmd + of_nat ?j"
    using part_line [OF i lps, of "memory s" cmd bs "fp + 32" "length bs"] i by (simp add: cmd_part_def add.assoc)
  ultimately have p: "load32 ?N (fp + 36 + 4 * of_nat i) = cmd + of_nat ?j" by (simp add: add.assoc)
  have "region (cmd + of_nat ?j) (Suc (length (word_at bs ?j))) \<subseteq> region cmd (Suc (length bs))"
    using lw len by (intro region_part) simp_all
  then have "cstr ?N (cmd + of_nat ?j) (word_at bs ?j) \<longleftrightarrow> cstr ?M (cmd + of_nat ?j) (word_at bs ?j)"
    using region_apart [OF L(2)] by (intro cstr_cong N) blast
  with blank_word [OF L(1) j(1) lps] p j(2) show ?thesis by simp
qed

text \<open>The program echo, run in the state in which the shell creates its thread, with the arguments it is
  given there, prints every word of the command line after the first, each followed by a space, and
  ends the line; with no further word it prints nothing.\<close>

theorem echo_prints_words:
  assumes "shell_layout fp cmd bs R s" and "words bs = w # ws" and "length ws < 20"
  shows "echo_worker (of_nat (length (words bs))) (fp + 36) (command_state fp cmd bs s) =
    Ret () (serial_print (if ws = [] then [] else spaced ws @ [CHR 0x0A]) (command_state fp cmd bs s))"
proof -
  have n: "length (words bs) \<le> 20" using assms(2,3) by simp
  have sint: "sint (of_nat (length (words bs)) :: u32) = int (length (words bs))"
    using n by (simp add: signed_of_nat signed_take_bit_int_eq_self)
  have "echo_loop (fp + 36) 1 (length (words bs)) (command_state fp cmd bs s)
      = Ret () (serial_print (spaced (drop 1 (words bs))) (command_state fp cmd bs s))"
    using assms(2) by (intro echo_loop_prints command_state_words [OF assms(1) n]) simp_all
  moreover have "echo_worker (of_nat (length (words bs))) (fp + 36) (command_state fp cmd bs s) =
      (if int (length (words bs)) \<le> 1 then Ret () (command_state fp cmd bs s)
       else obind (echo_loop (fp + 36) 1 (length (words bs)) (command_state fp cmd bs s)) (\<lambda>_ s. k_printf [CHR 0x0A] [] s))"
    by (simp only: echo_worker_def sint nat_int)
  ultimately show ?thesis
    using assms(2) plain_printf [of "[CHR 0x0A]"] by (cases ws) (simp_all add: serial_print_def)
qed

theorem echo_prints_words_witness:
  "\<exists>s. echo_worker 2 0x4024 (command_state 0x4000 0x5000 demo_line demo_shell_state) = Ret () s \<and> serial s = ''ls '' @ [CHR 0x0A]"
  using echo_prints_words [OF demo_layout demo_line_words]
  by (simp add: demo_line_words spaced_def bytes_str_def str_bytes_def serial_print_def command_state_def store_args_def
      split_state_def demo_shell_state_def char_of_def bit_0 demo_state_def)

end
