(* ===== verification/First_Fit.thy ===== *)
theory First_Fit
  imports Alloc
begin

text \<open>
  A reference for the search of \<open>src/kernel/alloc.c\<close>: the allocations as a list of their first blocks
  and lengths, where a place is found by trying one block after the other. The walk over the tags is
  shown to find the same place, and the tags of a heap with one owner are described by such a list.
\<close>

section \<open>A reference allocator\<close>

text \<open>The allocations as a list of first blocks and lengths; first fit by trying every block.\<close>

definition fits :: "(nat \<times> nat) list \<Rightarrow> nat \<Rightarrow> nat \<Rightarrow> bool" where
  "fits A n i \<longleftrightarrow> i + n \<le> NUM_BLOCKS \<and> list_all (\<lambda>(j, k). j + k \<le> i \<or> i + n \<le> j) A"

definition first_fit :: "(nat \<times> nat) list \<Rightarrow> nat \<Rightarrow> nat option" where
  "first_fit A n = (if n = 0 then None else find (fits A n) [0..<NUM_BLOCKS])"

definition owned_by :: "int \<Rightarrow> (nat \<times> nat) list \<Rightarrow> nat \<rightharpoonup> nat \<times> int" where
  "owned_by c A = map_of (map (\<lambda>(i, n). (i, n, c)) A)"

lemma owned_by_iff:
  "distinct (map fst A) \<Longrightarrow> owned_by c A i = Some (n, t) \<longleftrightarrow> (i, n) \<in> set A \<and> t = c"
  unfolding owned_by_def
  by (subst map_of_eq_Some_iff) (auto simp: comp_def case_prod_beta image_iff intro!: bexI [of _ "(i, n)"])

lemma owned_by_Cons: "owned_by c ((i, n) # A) = (owned_by c A)(i \<mapsto> (n, c))"
  by (simp add: owned_by_def)

definition drop_block :: "nat \<Rightarrow> (nat \<times> nat) list \<Rightarrow> (nat \<times> nat) list" where
  "drop_block i A = filter (\<lambda>(j, n). j \<noteq> i) A"

lemma drop_block_simps [simp]:
  "drop_block i [] = []" "drop_block i ((j, n) # A) = (if j = i then drop_block i A else (j, n) # drop_block i A)"
  by (simp_all add: drop_block_def)

lemma drop_block_twice [simp]: "drop_block i (drop_block i A) = drop_block i A"
  by (induction A) auto

lemma owned_by_drop: "owned_by c (drop_block i A) = (owned_by c A)(i := None)"
  by (induction A) (auto simp: owned_by_def)

lemma distinct_drop: "distinct (map fst A) \<Longrightarrow> distinct (map fst (drop_block i A))"
  by (simp add: drop_block_def distinct_map_filter)

text \<open>The tags of a heap that belongs to one thread, in these terms.\<close>

definition tags_are :: "int \<Rightarrow> (nat \<times> nat) list \<Rightarrow> BlockTag list \<Rightarrow> bool" where
  "tags_are c A tags \<longleftrightarrow> heap_ok tags \<and> distinct (map fst A) \<and> allocs tags = owned_by c A"

lemma run_fits:
  assumes "heap_ok tags" and A: "\<And>j k. (j, k) \<in> set A \<longleftrightarrow> (\<exists>t. allocs tags j = Some (k, t))" and "0 < n"
  shows "free_run tags i n \<longleftrightarrow> fits A n i"
proof
  assume f: "free_run tags i n"
  have "j + k \<le> i \<or> i + n \<le> j" if "(j, k) \<in> set A" for j k
    using that free_run_clear [OF assms(1) f assms(3)] by (auto simp: A)
  with f show "fits A n i" by (auto simp: fits_def free_run_def list_all_iff)
next
  assume f: "fits A n i"
  have "\<not> used tags x" if "i \<le> x" "x < i + n" for x
  proof
    assume "used tags x"
    then obtain j k where "(j, k) \<in> set A" "j \<le> x" "x < j + k" by (auto simp: used_allocs A)
    with f that show False by (fastforce simp: fits_def list_all_iff)
  qed
  with f show "free_run tags i n" by (simp add: free_run_def fits_def)
qed

lemma find_from: "i < n \<Longrightarrow> find P [i..<n] = (if P i then Some i else find P [Suc i..<n])"
  by (simp add: upt_conv_Cons)

lemma find_upt: "find P [0..<n] = (if \<exists>i < n. P i then Some (LEAST i. P i) else None)"
proof (cases "\<exists>i < n. P i")
  case True
  then obtain k where k: "k < n" "P k" by blast
  let ?l = "LEAST i. P i"
  have l: "P ?l" "?l \<le> k" using k by (auto intro: LeastI Least_le)
  have "find P [0..<n] = Some ?l"
    unfolding find_Some_iff using l k(1) by (intro exI [of _ ?l]) (auto dest: not_less_Least)
  with True show ?thesis by simp
qed (auto simp: find_None_iff)

lemma search_first_fit:
  assumes ok: "heap_ok tags" and A: "\<And>j k. (j, k) \<in> set A \<longleftrightarrow> (\<exists>t. allocs tags j = Some (k, t))"
  shows "find_free_space tags sz = first_fit A (unat sz)"
proof (cases "sz = 0")
  case False
  then have n: "0 < unat sz" by (simp add: unat_gt_0)
  note spec = find_free_space_spec [OF ok False] and run = run_fits [OF ok A n]
  show ?thesis
  proof (cases "find_free_space tags sz")
    case None
    then show ?thesis using spec n by (auto simp: run first_fit_def find_None_iff2)
  next
    case (Some i)
    with spec have i: "fits A (unat sz) i" "\<forall>i' < i. \<not> fits A (unat sz) i'" by (simp_all add: run)
    then have "(LEAST i. fits A (unat sz) i) = i" by (metis LeastI not_less_Least linorder_neqE_nat)
    moreover have "i < NUM_BLOCKS" using i(1) n by (simp add: fits_def)
    ultimately show ?thesis using Some i(1) n by (auto simp: first_fit_def find_upt)
  qed
qed (simp add: find_free_space_0 first_fit_def)

lemma tags_are_blocks: "tags_are c A tags \<Longrightarrow> (j, k) \<in> set A \<longleftrightarrow> (\<exists>t. allocs tags j = Some (k, t))"
  by (simp add: tags_are_def owned_by_iff)

lemma reference_search: "tags_are c A tags \<Longrightarrow> find_free_space tags sz = first_fit A (unat sz)"
  by (rule search_first_fit) (simp_all add: tags_are_def owned_by_iff)

lemma first_fit_Some:
  assumes "first_fit A n = Some i"
  shows "fits A n i" and "0 < n" and "i < NUM_BLOCKS"
  using assms by (auto simp: first_fit_def find_Some_iff split: if_splits)

lemma tags_claim:
  assumes "tags_are c A tags" and "first_fit A n = Some i" and "tid16 c"
  shows "tags_are c ((i, n) # A) (claim_tags i n c tags)"
proof -
  note f = first_fit_Some [OF assms(2)]
  have run: "free_run tags i n" using run_fits [OF _ tags_are_blocks [OF assms(1)] f(2)] f(1) assms(1) by (simp add: tags_are_def)
  have ok: "heap_ok tags" and A: "distinct (map fst A)" "allocs tags = owned_by c A" using assms(1) by (simp_all add: tags_are_def)
  have "(i, k) \<notin> set A" for k
  proof
    assume "(i, k) \<in> set A"
    then have "allocs tags i = Some (k, c)" using A by (simp add: owned_by_iff)
    with free_run_clear [OF ok run f(2) this] f(2) show False by (simp add: allocs_Some)
  qed
  with ok A run f assms(3) show ?thesis
    by (auto simp: tags_are_def heap_ok_claim allocs_claim owned_by_Cons)
qed

lemma tags_release: "tags_are c A tags \<Longrightarrow> tags_are c (drop_block i A) (release_tags i tags)"
  by (simp add: tags_are_def heap_ok_release allocs_release owned_by_drop distinct_drop)

lemma clear_tags:
  assumes "heap_ok tags"
  shows "heap_ok (tags[i := \<lparr>bt_tid = 0, bt_tag = 0\<rparr>])" and "allocs (tags[i := \<lparr>bt_tid = 0, bt_tag = 0\<rparr>]) = (allocs tags)(i := None)"
proof -
  let ?t = "tags[i := \<lparr>bt_tid = 0, bt_tag = 0\<rparr>]"
  have t: "tag_at ?t j = tag_at (release_tags i tags) j" for j
    by (cases "i < length tags"; cases "j = i") (simp_all add: tag_at_def release_tags_def list_update_beyond)
  show "heap_ok ?t" by (rule heap_ok_cong [OF _ _ heap_ok_release [OF assms, of i]]) (simp_all add: t)
  have "allocs ?t = allocs (release_tags i tags)" by (rule ext) (auto simp: allocs_def t tag_at_release)
  then show "allocs ?t = (allocs tags)(i := None)" by (simp add: allocs_release)
qed

lemma tags_free: "tags_are c A tags \<Longrightarrow> tags_are c (drop_block i A) (tags[i := \<lparr>bt_tid = 0, bt_tag = 0\<rparr>])"
  by (simp add: tags_are_def clear_tags owned_by_drop distinct_drop)

section \<open>The walk over the tags is first fit\<close>

text \<open>All allocations of the heap, read from the tags.\<close>

definition tag_blocks :: "BlockTag list \<Rightarrow> (nat \<times> nat) list" where
  "tag_blocks tags = map (\<lambda>i. (i, tag_at tags i)) (filter (\<lambda>i. tag_at tags i \<noteq> 0) [0..<length tags])"

text \<open>C29: The search of the heap, which walks over the tags and skips whole allocations, returns for any
  number of blocks exactly the place that trying every block in turn finds: the lowest at which that
  many blocks fit beside all allocations, and none when there is no such place.\<close>

theorem search_equivalent:
  assumes "heap_ok tags"
  shows "find_free_space tags n = first_fit (tag_blocks tags) (unat n)"
proof (rule search_first_fit [OF assms])
  show "(j, k) \<in> set (tag_blocks tags) \<longleftrightarrow> (\<exists>t. allocs tags j = Some (k, t))" for j k
    by (auto simp: tag_blocks_def allocs_Some)
qed

theorem search_equivalent_witness: "find_free_space (block_tags demo_alloc) 3 = Some 2"
proof -
  have "find_free_space (block_tags demo_alloc) 3 = first_fit (tag_blocks (block_tags demo_alloc)) (unat (3 :: size_t))"
    by (rule search_equivalent [OF demo_alloc_ok])
  also have "tag_blocks (block_tags demo_alloc) = [(0, 2)]"
  proof -
    have t: "tag_at (block_tags demo_alloc) i \<noteq> 0 \<longleftrightarrow> i = 0" "tag_at (block_tags demo_alloc) 0 = 2" if "i < 64" for i
      using that by (simp_all add: demo_alloc_def tag_at_claim) (simp add: tag_at_def)
    have "[0..<64] = 0 # [Suc 0..<64]" by (simp add: upt_conv_Cons del: upt_rec_numeral)
    then have "filter (\<lambda>i. tag_at (block_tags demo_alloc) i \<noteq> 0) [0..<64] = [0]"
      using t by (auto simp: filter_empty_conv simp del: upt_rec_numeral)
    then show ?thesis using t(2) [of 0] heap_okD(1) [OF demo_alloc_ok] by (simp add: tag_blocks_def heap_consts del: upt_rec_numeral)
  qed
  also have "first_fit [(0, 2)] (unat (3 :: size_t)) = Some 2" by (simp add: first_fit_def fits_def find_from heap_consts)
  finally show ?thesis .
qed

end
