(* ===== verification/Alloc_Tests.thy ===== *)
theory Alloc_Tests
  imports User_Library Assertion Confined
begin

text \<open>
  The test program for the heap, \<open>src/demos/alloc/alloc.c\<close>: one thread for every test. Each assertion
  is a step of the model, and an access through a null pointer is undefined, so that a thread that
  comes back has passed its test. The arrays of pointers on the stack are lists.
\<close>

section \<open>Memory, assertions and loops of the tests\<close>

definition load8 :: "mem \<Rightarrow> size_t \<Rightarrow> byte" where
  "load8 m p = m p"

definition bytes64 :: "u64 \<Rightarrow> byte list" where
  "bytes64 v = bytes32 (ucast v) @ bytes32 (ucast (drop_bit 32 v))"

definition word64_of :: "byte list \<Rightarrow> u64" where
  "word64_of bs = ucast (word32_of (take 4 bs)) OR push_bit 32 (ucast (word32_of (drop 4 bs)))"

definition load64 :: "mem \<Rightarrow> size_t \<Rightarrow> u64" where
  "load64 m p = word64_of (load_bytes m p 8)"

lemma word64_of_bytes64 [simp]: "word64_of (bytes64 v) = v"
  by (rule bit_eqI) (auto simp: word64_of_def bytes64_def bit_simps)

lemma bytes64_simps [simp]: "length (bytes64 v) = 8" "take 4 (bytes64 v) = bytes32 (ucast v)"
  by (simp_all add: bytes64_def)

text \<open>Writing through a pointer, and the check that it can be read through.\<close>

definition poke :: "size_t \<Rightarrow> byte list \<Rightarrow> kstate \<Rightarrow> unit kresult" where
  "poke p bs s = (if p = NULL then Undef else Ret () (set_memory (store_bytes (memory s) p bs) s))"

definition peek :: "size_t \<Rightarrow> (mem \<Rightarrow> size_t \<Rightarrow> 'a) \<Rightarrow> kstate \<Rightarrow> 'a kresult" where
  "peek p load s = (if p = NULL then Undef else Ret (load (memory s) p) s)"

definition alloc_assert :: "kernel_call \<Rightarrow> bool \<Rightarrow> string \<Rightarrow> u32 \<Rightarrow> string \<Rightarrow> kstate \<Rightarrow> unit kresult" where
  "alloc_assert sys b text line func s = user_assert sys b text ''alloc.c'' line func s"

text \<open>\<open>assert(*p == v)\<close>.\<close>

definition assert_at :: "kernel_call \<Rightarrow> size_t \<Rightarrow> (mem \<Rightarrow> size_t \<Rightarrow> 'a) \<Rightarrow> 'a \<Rightarrow> string \<Rightarrow> u32 \<Rightarrow> string \<Rightarrow> kstate \<Rightarrow> unit kresult" where
  "assert_at sys p load v text line func s =
     obind (peek p load s) (\<lambda>w s. alloc_assert sys (w = v) text line func s)"

fun for_each :: "'a list \<Rightarrow> ('a \<Rightarrow> kstate \<Rightarrow> unit kresult) \<Rightarrow> kstate \<Rightarrow> unit kresult" where
  "for_each [] body s = Ret () s"
| "for_each (x # xs) body s = obind (body x s) (\<lambda>_ s. for_each xs body s)"

fun malloc_each :: "kernel_call \<Rightarrow> nat \<Rightarrow> size_t \<Rightarrow> kstate \<Rightarrow> size_t list kresult" where
  "malloc_each sys 0 sz s = Ret [] s"
| "malloc_each sys (Suc n) sz s =
     obind (malloc sys sz s) (\<lambda>p s. obind (malloc_each sys n sz s) (\<lambda>ps s. Ret (p # ps) s))"

text \<open>\<open>for (size_t i = 0; i < n; ++i) p[i] = i;\<close> over bytes.\<close>

definition fill_bytes :: "size_t \<Rightarrow> nat \<Rightarrow> kstate \<Rightarrow> unit kresult" where
  "fill_bytes p n s = for_each [0..<n] (\<lambda>i. poke (p + of_nat i) [of_nat i]) s"

text \<open>Every second pointer of an array, from the first or the second one on.\<close>

fun every_second :: "'a list \<Rightarrow> 'a list" where
  "every_second (x # y # xs) = x # every_second xs"
| "every_second [x] = [x]"
| "every_second [] = []"

section \<open>The tests\<close>

definition basic_types :: "kernel_call \<Rightarrow> kstate \<Rightarrow> unit kresult" where
  "basic_types sys s =
     obind (malloc sys 1 s) (\<lambda>u08 s.
     obind (malloc sys 2 s) (\<lambda>u16 s.
     obind (malloc sys 4 s) (\<lambda>u32 s.
     obind (malloc sys 8 s) (\<lambda>u64 s.
     obind (poke u08 [0xFF] s) (\<lambda>_ s.
     obind (poke u16 (bytes16 0xF0F0) s) (\<lambda>_ s.
     obind (poke u32 (bytes32 0x0A0A0A0A) s) (\<lambda>_ s.
     obind (poke u64 (bytes64 0xABCDABCDABCDABCD) s) (\<lambda>_ s.
     obind (peek u08 load8 s) (\<lambda>v s.
     obind (k_printf ('' u8: 0x%X'' @ [CHR 0x0A]) [VNum (ucast v)] s) (\<lambda>_ s.
     obind (peek u16 load16 s) (\<lambda>v s.
     obind (k_printf (''u16: 0x%X'' @ [CHR 0x0A]) [VNum (ucast v)] s) (\<lambda>_ s.
     obind (peek u32 load32 s) (\<lambda>v s.
     obind (k_printf (''u32: 0x%X'' @ [CHR 0x0A]) [VNum v] s) (\<lambda>_ s.
     obind (assert_at sys u64 load64 0xABCDABCDABCDABCD ''*u64 == 0xABCDABCDABCDABCD'' 26 ''basic_types'' s) (\<lambda>_ s.
     obind (free sys u16 s) (\<lambda>_ s.
     obind (malloc sys 2 s) (\<lambda>new_u16 s.
     obind (alloc_assert sys (new_u16 = u16) ''new_u16 == u16'' 32 ''basic_types'' s) (\<lambda>_ s.
     obind (free sys new_u16 s) (\<lambda>_ s.
     obind (free sys u08 s) (\<lambda>_ s.
     obind (free sys u32 s) (\<lambda>_ s.
     free sys u64 s)))))))))))))))))))))"

definition large_alloc :: "kernel_call \<Rightarrow> kstate \<Rightarrow> unit kresult" where
  "large_alloc sys s =
     obind (malloc sys 123 s) (\<lambda>temp s.
     obind (malloc sys 4 s) (\<lambda>temp_check s.
     obind (poke temp_check (bytes32 0xdeadbeef) s) (\<lambda>_ s.
     obind (fill_bytes temp 123 s) (\<lambda>_ s.
     obind (assert_at sys temp_check load32 0xdeadbeef ''*temp_check == 0xdeadbeef'' 56 ''large_alloc'' s) (\<lambda>_ s.
     obind (free sys temp s) (\<lambda>_ s.
     obind (malloc sys (123 * 2) s) (\<lambda>new_temp s.
     obind (alloc_assert sys (new_temp \<noteq> temp) ''new_temp != temp'' 63 ''large_alloc'' s) (\<lambda>_ s.
     obind (free sys new_temp s) (\<lambda>_ s.
     obind (malloc sys 8 s) (\<lambda>temp64 s.
     obind (alloc_assert sys (temp64 = temp) ''(uint8_t*)temp64 == temp'' 69 ''large_alloc'' s) (\<lambda>_ s.
     obind (free sys temp64 s) (\<lambda>_ s.
     free sys temp_check s))))))))))))"

definition fragmented :: "kernel_call \<Rightarrow> kstate \<Rightarrow> unit kresult" where
  "fragmented sys s =
     obind (malloc_each sys 64 8 s) (\<lambda>allocated s.
     obind (for_each (every_second allocated) (free sys) s) (\<lambda>_ s.
     obind (malloc sys 4 s) (\<lambda>less_than_a_block s.
     obind (alloc_assert sys (less_than_a_block \<noteq> NULL) ''less_than_a_block != NULL'' 94 ''fragmented'' s) (\<lambda>_ s.
     obind (free sys less_than_a_block s) (\<lambda>_ s.
     obind (malloc sys 64 s) (\<lambda>greater_than_block s.
     obind (alloc_assert sys (greater_than_block = NULL) ''!greater_than_block'' 99 ''fragmented'' s) (\<lambda>_ s.
     for_each (every_second (tl allocated)) (free sys) s)))))))"

definition alloc_errors :: "kernel_call \<Rightarrow> kstate \<Rightarrow> unit kresult" where
  "alloc_errors sys s =
     obind (malloc sys 99999 s) (\<lambda>bad_malloc s. alloc_assert sys (bad_malloc = NULL) ''!bad_malloc'' 110 ''errors'' s)"

text \<open>The first numbers in an array of words: writing them, and checking that they are there.\<close>

definition number_words :: "size_t \<Rightarrow> nat \<Rightarrow> kstate \<Rightarrow> unit kresult" where
  "number_words foo n s = for_each [0..<n] (\<lambda>i. poke (foo + 4 * of_nat i) (bytes32 (of_nat i))) s"

definition check_words :: "kernel_call \<Rightarrow> size_t \<Rightarrow> nat \<Rightarrow> u32 \<Rightarrow> kstate \<Rightarrow> unit kresult" where
  "check_words sys foo n line s =
     for_each [0..<n] (\<lambda>i. assert_at sys (foo + 4 * of_nat i) load32 (of_nat i) ''foo[i] == i'' line ''realloc_more'') s"

definition realloc_more :: "kernel_call \<Rightarrow> kstate \<Rightarrow> unit kresult" where
  "realloc_more sys s =
     (let array_sz = 8; pad_value = 0xcafef00ddeadbeef in
      obind (realloc sys NULL (of_nat array_sz * 4) s) (\<lambda>foo s.
      obind (alloc_assert sys (foo \<noteq> NULL) ''foo'' 117 ''realloc_more'' s) (\<lambda>_ s.
      obind (number_words foo array_sz s) (\<lambda>_ s.
      obind (realloc sys foo 123456 s) (\<lambda>failed_realloc s.
      obind (alloc_assert sys (failed_realloc = NULL) ''!failed_realloc'' 125 ''realloc_more'' s) (\<lambda>_ s.
      obind (check_words sys foo array_sz 128 s) (\<lambda>_ s.
      obind (malloc sys 8 s) (\<lambda>pad0 s.
      obind (poke pad0 (bytes64 pad_value) s) (\<lambda>_ s.
      obind (malloc sys 8 s) (\<lambda>pad1 s.
      obind (poke pad1 (bytes64 pad_value) s) (\<lambda>_ s.
      obind (free sys pad0 s) (\<lambda>_ s.
      let old_foo = foo in
      obind (realloc sys foo (16 * 4) s) (\<lambda>foo s.
      obind (alloc_assert sys (foo = old_foo) ''foo == old_foo'' 145 ''realloc_more'' s) (\<lambda>_ s.
      obind (check_words sys foo array_sz 149 s) (\<lambda>_ s.
      obind (peek (foo + of_nat (4 * array_sz)) load32 s) (\<lambda>v s.
      obind (alloc_assert sys (v \<noteq> of_nat array_sz) ''foo[array_sz] != array_sz'' 152 ''realloc_more'' s) (\<lambda>_ s.
      obind (assert_at sys pad0 load64 pad_value ''*pad_allocs[0] == pad_value'' 155 ''realloc_more'' s) (\<lambda>_ s.
      obind (assert_at sys pad1 load64 pad_value ''*pad_allocs[1] == pad_value'' 157 ''realloc_more'' s) (\<lambda>_ s.
      obind (free sys foo s) (\<lambda>_ s.
      free sys pad1 s))))))))))))))))))))"

definition realloc_less :: "kernel_call \<Rightarrow> kstate \<Rightarrow> unit kresult" where
  "realloc_less sys s =
     (let canary_value = 0x1122334455667788; array_sz = 64 in
      obind (malloc sys 8 s) (\<lambda>pad s.
      obind (malloc sys 8 s) (\<lambda>canary s.
      obind (poke canary (bytes64 canary_value) s) (\<lambda>_ s.
      obind (malloc sys (of_nat array_sz) s) (\<lambda>foo s.
      obind (fill_bytes foo array_sz s) (\<lambda>_ s.
      obind (free sys pad s) (\<lambda>_ s.
      obind (realloc sys foo 32 s) (\<lambda>foo s.
      obind (alloc_assert sys (foo = pad) ''foo == (uint8_t*)pad'' 188 ''realloc_less'' s) (\<lambda>_ s.
      obind (assert_at sys canary load64 canary_value ''*canary == canary_value'' 191 ''realloc_less'' s) (\<lambda>_ s.
      obind (free sys canary s) (\<lambda>_ s.
      free sys foo s)))))))))))"

definition realloc_free :: "kernel_call \<Rightarrow> kstate \<Rightarrow> unit kresult" where
  "realloc_free sys s =
     obind (malloc sys 4 s) (\<lambda>allocation s.
     obind (malloc_each sys 64 4 s) (\<lambda>pad_allocs s.
     obind (free sys (hd pad_allocs) s) (\<lambda>_ s.
     let old_allocation = allocation in
     obind (realloc sys allocation 64 s) (\<lambda>allocation s.
     obind (alloc_assert sys (allocation \<noteq> NULL) ''allocation'' 216 ''realloc_free'' s) (\<lambda>_ s.
     obind (alloc_assert sys (old_allocation = allocation) ''old_allocation == allocation'' 217 ''realloc_free'' s) (\<lambda>_ s.
     obind (free sys allocation s) (\<lambda>_ s.
     for_each (tl pad_allocs) (free sys) s)))))))"

definition realloc_fail :: "kernel_call \<Rightarrow> kstate \<Rightarrow> unit kresult" where
  "realloc_fail sys s =
     obind (malloc_each sys 64 4 s) (\<lambda>allocs s.
     obind (realloc sys (hd allocs) 64 s) (\<lambda>realloc_fails s.
     obind (alloc_assert sys (realloc_fails = NULL) ''!realloc_fails'' 235 ''realloc_fail'' s) (\<lambda>_ s.
     obind (malloc sys 4 s) (\<lambda>malloc_fails s.
     obind (alloc_assert sys (malloc_fails = NULL) ''!malloc_fails'' 239 ''realloc_fail'' s) (\<lambda>_ s.
     for_each allocs (free sys) s)))))"

section \<open>Tests with two threads\<close>

text \<open>The addresses of the global variables and of the functions that are started.\<close>

record AllocTest =
  at_the_protected_alloc :: size_t
  at_freed_on_exit :: size_t
  at_freed_on_cancel :: size_t
  at_worker :: "string \<Rightarrow> size_t"

definition get_global :: "size_t \<Rightarrow> kstate \<Rightarrow> size_t" where
  "get_global g s = load32 (memory s) g"

definition set_global :: "size_t \<Rightarrow> size_t \<Rightarrow> kstate \<Rightarrow> kstate" where
  "set_global g v s = set_memory (store32 (memory s) g v) s"

definition new_alloc_differs :: "kernel_call \<Rightarrow> size_t \<Rightarrow> u32 \<Rightarrow> string \<Rightarrow> kstate \<Rightarrow> unit kresult" where
  "new_alloc_differs sys old_alloc_addr line func s =
     obind (malloc sys 4 s) (\<lambda>new_alloc s.
     obind (alloc_assert sys (new_alloc \<noteq> old_alloc_addr) ''new_alloc != old_alloc_addr'' line func s) (\<lambda>_ s.
     free sys new_alloc s))"

definition check_protect :: "kernel_call \<Rightarrow> AllocTest \<Rightarrow> kstate \<Rightarrow> unit kresult" where
  "check_protect sys g s =
     (let old_alloc_addr = get_global (at_the_protected_alloc g) s in
      obind (realloc sys (get_global (at_the_protected_alloc g) s) 2 s) (\<lambda>realloc_addr s.
      obind (alloc_assert sys (realloc_addr = old_alloc_addr) ''realloc_addr == old_alloc_addr'' 256 ''check_protect'' s) (\<lambda>_ s.
      obind (new_alloc_differs sys old_alloc_addr 259 ''check_protect'' s) (\<lambda>_ s.
      obind (free sys (get_global (at_the_protected_alloc g) s) s) (\<lambda>_ s.
      new_alloc_differs sys old_alloc_addr 266 ''check_protect'' s)))))"

definition protect_alloc :: "kernel_call \<Rightarrow> size_t \<Rightarrow> AllocTest \<Rightarrow> kstate \<Rightarrow> unit kresult" where
  "protect_alloc sys fp g s =
     obind (malloc sys 4 s) (\<lambda>p s.
     let s = set_global (at_the_protected_alloc g) p s; old_alloc_addr = p in
     obind (add_named_thread sys fp (at_worker g ''check_protect'') (b_literal (build s) ''check_protect'') s) (\<lambda>tid s.
     obind (yield_to sys tid s) (\<lambda>_ s.
     obind (new_alloc_differs sys old_alloc_addr 279 ''protect_alloc'' s) (\<lambda>_ s.
     free sys (get_global (at_the_protected_alloc g) s) s))))"

definition free_exit :: "kernel_call \<Rightarrow> AllocTest \<Rightarrow> kstate \<Rightarrow> unit kresult" where
  "free_exit sys g s = obind (malloc sys 4 s) (\<lambda>p s. Ret () (set_global (at_freed_on_exit g) p s))"

definition exit_freed :: "kernel_call \<Rightarrow> AllocTest \<Rightarrow> kstate \<Rightarrow> unit kresult" where
  "exit_freed sys g s =
     obind (malloc sys 4 s) (\<lambda>p s.
     alloc_assert sys (p = get_global (at_freed_on_exit g) s) ''malloc(sizeof(uint32_t)) == freed_on_exit'' 291 ''exit_freed'' s)"

definition cancelee :: "kernel_call \<Rightarrow> AllocTest \<Rightarrow> kstate \<Rightarrow> unit kresult" where
  "cancelee sys g s =
     obind (malloc sys 4 s) (\<lambda>p s.
     obind (yield sys (set_global (at_freed_on_cancel g) p s)) (\<lambda>_ s. Ret () s))"

definition free_cancel :: "kernel_call \<Rightarrow> size_t \<Rightarrow> AllocTest \<Rightarrow> kstate \<Rightarrow> unit kresult" where
  "free_cancel sys fp g s =
     obind (add_named_thread sys fp (at_worker g ''cancelee'') (b_literal (build s) ''cancelee'') s) (\<lambda>tid s.
     obind (yield_to sys tid s) (\<lambda>_ s.
     obind (thread_cancel sys tid s) (\<lambda>_ s.
     obind (malloc sys 4 s) (\<lambda>p s.
     alloc_assert sys (p = get_global (at_freed_on_cancel g) s) ''malloc(sizeof(uint32_t)) == freed_on_cancel'' 306 ''free_cancel'' s))))"

section \<open>The dispatcher\<close>

text \<open>The state is a local variable; the frames of the functions called are below it.\<close>

definition join_test_thread :: "kernel_call \<Rightarrow> size_t \<Rightarrow> AllocTest \<Rightarrow> string \<Rightarrow> string \<Rightarrow> kstate \<Rightarrow> unit kresult option" where
  "join_test_thread sys fp g worker name s =
     (case add_named_thread sys fp (at_worker g worker) (b_literal (build s) name) s of
        Ret tid s \<Rightarrow> map_option (\<lambda>m. obind m (\<lambda>_ s. Ret () s)) (thread_join sys fp tid (fp + 32) s)
      | Exit n s \<Rightarrow> Some (Exit n s)
      | Undef \<Rightarrow> Some Undef)"

fun join_test_threads :: "kernel_call \<Rightarrow> size_t \<Rightarrow> AllocTest \<Rightarrow> (string \<times> string) list \<Rightarrow> kstate \<Rightarrow> unit kresult option" where
  "join_test_threads sys fp g [] s = Some (Ret () s)"
| "join_test_threads sys fp g ((worker, name) # ts) s =
     (case join_test_thread sys fp g worker name s of
        Some (Ret _ s) \<Rightarrow> join_test_threads sys fp g ts s
      | r \<Rightarrow> r)"

definition setup_alloc :: "kernel_call \<Rightarrow> size_t \<Rightarrow> AllocTest \<Rightarrow> kstate \<Rightarrow> unit kresult option" where
  "setup_alloc sys fp g s =
     (case set_thread_name sys CURRENT_THREAD (b_literal (build s) ''dispatcher'') s of
        Ret _ s \<Rightarrow> join_test_threads sys fp g
          [(''basic_types'', ''basic_types''), (''large_alloc'', ''large_alloc''), (''fragmented'', ''fragmented''),
           (''errors'', ''errors''), (''realloc_more'', ''realloc_more''), (''realloc_less'', ''realloc_less''),
           (''realloc_free'', ''realloc_free''), (''realloc_fail'', ''realloc_fail''), (''protect_alloc'', ''protect_alloc''),
           (''free_exit'', ''free_exit''), (''free_exit'', ''freed_exit''), (''free_cancel'', ''free_cancel'')] s
      | Exit n s \<Rightarrow> Some (Exit n s)
      | Undef \<Rightarrow> Some Undef)"

end
