(* ===== verification/Alloc_Test_Results.thy ===== *)
theory Alloc_Test_Results
  imports First_Fit Alloc_Tests
begin

text \<open>
  The tests of \<open>src/demos/alloc/alloc.c\<close> pass. A rule for every step of a test says what it does to the
  allocations, the memory and the output, so that a test is run by applying the rules in the order
  of its statements.
\<close>

section \<open>What a step of a test does\<close>

text \<open>A thread with the permission to allocate, in whose heap region nothing but its own allocations are.
  \<open>heap_at\<close>: since the state \<open>s0\<close> only the tags, the memory and the output have changed, and this is
  how they are.\<close>

definition may_allocate :: "kstate \<Rightarrow> bool" where
  "may_allocate s \<longleftrightarrow> heap_region (build s) \<and> \<not> k_has_no_permission TPERM_ALLOC s \<and> tid16 (k_get_thread_id s)"

definition heap_at :: "kstate \<Rightarrow> (nat \<times> nat) list \<Rightarrow> mem \<Rightarrow> string \<Rightarrow> kstate \<Rightarrow> bool" where
  "heap_at s0 A M out s \<longleftrightarrow> may_allocate s0 \<and>
     (\<exists>tags. tags_are (k_get_thread_id s0) A tags \<and> s = s0\<lparr>block_tags := tags, memory := M, serial := serial s0 @ out\<rparr>)"

text \<open>Places of the heap, by their distance from its start.\<close>

definition heap_place :: "kstate \<Rightarrow> nat \<Rightarrow> size_t" where
  "heap_place s k = b_heap (build s) + of_nat k"

lemma heap_place_add: "heap_place s k + of_nat j = heap_place s (k + j)"
  by (simp add: heap_place_def add.assoc)

lemma heap_atD:
  assumes "heap_at s0 A M out s"
  shows "may_allocate s" "k_get_thread_id s = k_get_thread_id s0" "memory s = M" "build s = build s0"
    "to_heap_ptr i s = heap_place s0 (i * BLOCK_SIZE)" "tags_are (k_get_thread_id s0) A (block_tags s)"
proof -
  obtain T where s: "s = s0\<lparr>block_tags := T, memory := M, serial := serial s0 @ out\<rparr>" and m: "may_allocate s0"
    and T: "tags_are (k_get_thread_id s0) A T"
    using assms by (auto simp: heap_at_def)
  show t: "k_get_thread_id s = k_get_thread_id s0" unfolding s by (simp add: k_get_thread_id_def split: option.split)
  show b: "build s = build s0" and "memory s = M" unfolding s by simp_all
  have "k_has_no_permission p s = k_has_no_permission p s0" for p
    unfolding s by (simp add: k_has_no_permission_def split: option.split)
  with m b t show "may_allocate s" by (simp add: may_allocate_def)
  show "to_heap_ptr i s = heap_place s0 (i * BLOCK_SIZE)" by (simp add: to_heap_ptr_def heap_place_def b)
  show "tags_are (k_get_thread_id s0) A (block_tags s)" unfolding s using T by simp
qed

lemma heap_at_tags:
  assumes "heap_at s0 A M out s" and "tags_are (k_get_thread_id s0) A' (f (block_tags s))"
  shows "heap_at s0 A' M out (with_tags f s)"
  using assms by (auto simp: heap_at_def with_tags_def)

lemma heap_at_memory: "heap_at s0 A M out s \<Longrightarrow> heap_at s0 A M' out (set_memory M' s)"
  by (auto simp: heap_at_def set_memory_def)

lemma heap_at_print: "heap_at s0 A M out s \<Longrightarrow> heap_at s0 A M (out @ str) (serial_print str s)"
  by (auto simp: heap_at_def serial_print_def)

text \<open>A computation that comes back.\<close>

definition passes :: "'a kresult \<Rightarrow> ('a \<Rightarrow> kstate \<Rightarrow> bool) \<Rightarrow> bool" where
  "passes m Q \<longleftrightarrow> (case m of Ret a s \<Rightarrow> Q a s | _ \<Rightarrow> False)"

lemma passes_simps [simp]:
  "passes (Ret a s) Q \<longleftrightarrow> Q a s" "\<not> passes (Exit n s) Q" "\<not> passes Undef Q"
  "passes (obind m f) Q \<longleftrightarrow> passes m (\<lambda>a s. passes (f a s) Q)"
  by (simp_all add: passes_def split: outcome.split)

lemma passes_mono: "passes m P \<Longrightarrow> (\<And>a s. P a s \<Longrightarrow> Q a s) \<Longrightarrow> passes m Q"
  by (cases m) simp_all

lemma malloc_passes:
  assumes "heap_at s0 A M out s" and "first_fit A (unat (to_blocks sz)) = Some i"
    and "\<And>s'. heap_at s0 ((i, unat (to_blocks sz)) # A) M out s' \<Longrightarrow> Q (heap_place s0 (i * BLOCK_SIZE)) s'"
  shows "passes (malloc (kernel h others) sz s) Q"
proof -
  note h = heap_atD [OF assms(1)]
  have ok: "heap_ok (block_tags s)" using h(6) by (simp add: tags_are_def)
  have t: "tid16 (k_get_thread_id s0)" using h(1,2) by (simp add: may_allocate_def)
  have "k_malloc sz s = Ret (to_heap_ptr i s) (with_tags (claim_tags i (unat (to_blocks sz)) (k_get_thread_id s0)) s)"
    using h(1,2) assms(2) by (simp add: k_malloc_eq [OF ok] may_allocate_def reference_search [OF h(6)])
  then show ?thesis
    using heap_at_tags [where f = "claim_tags i (unat (to_blocks sz)) (k_get_thread_id s0)", OF assms(1) tags_claim [OF h(6) assms(2) t]]
      assms(3) h(5)
    by (simp add: malloc_def kernel_def)
qed

lemma malloc_fails:
  assumes "heap_at s0 A M out s" and "first_fit A (unat (to_blocks sz)) = None" and "Q NULL s"
  shows "passes (malloc (kernel h others) sz s) Q"
proof -
  note h = heap_atD [OF assms(1)]
  have ok: "heap_ok (block_tags s)" using h(6) by (simp add: tags_are_def)
  show ?thesis using h(1) assms(2,3) by (simp add: malloc_def kernel_def k_malloc_eq [OF ok] may_allocate_def reference_search [OF h(6)])
qed

lemma owned_block:
  assumes "tags_are c A tags" and "(i, n) \<in> set A"
  shows "allocs tags i = Some (n, c)"
  using assms by (simp add: tags_are_def owned_by_iff)

lemma free_passes:
  assumes "heap_at s0 A M out s" and "(i, n) \<in> set A" and "\<And>s'. heap_at s0 (drop_block i A) M out s' \<Longrightarrow> Q () s'"
  shows "passes (free (kernel h others) (heap_place s0 (i * BLOCK_SIZE)) s) Q"
proof -
  note h = heap_atD [OF assms(1)]
  have "heap_ok (block_tags s)" using h(6) by (simp add: tags_are_def)
  from k_free_ptr [OF this _ owned_block [OF h(6) assms(2)]] h
  have "k_free (heap_place s0 (i * BLOCK_SIZE)) s = Ret () (with_tags (\<lambda>tags. tags[i := \<lparr>bt_tid = 0, bt_tag = 0\<rparr>]) s)"
    by (simp add: may_allocate_def)
  then show ?thesis
    using assms(3) heap_at_tags [OF assms(1), of "drop_block i A" "\<lambda>tags. tags[i := \<lparr>bt_tid = 0, bt_tag = 0\<rparr>]"] tags_free [OF h(6)]
    by (simp add: free_def kernel_def as_unit_def ret_unit_def)
qed

lemma free_null: "free (kernel h others) NULL s = Ret () s"
  by (simp add: free_def kernel_def as_unit_def ret_unit_def k_free_def can_realloc_free_def Let_def)

lemma free_null_passes: "Q () s \<Longrightarrow> passes (free (kernel h others) NULL s) Q"
  by (simp add: free_null)

lemma realloc_null: "realloc (kernel h others) NULL sz s = malloc (kernel h others) sz s"
  by (simp add: realloc_def malloc_def kernel_def k_realloc_def) (simp add: k_malloc_def)

lemma realloc_passes:
  assumes "heap_at s0 A M out s" and "(i, n) \<in> set A" and "first_fit (drop_block i A) (unat (to_blocks sz)) = Some j"
    and "\<And>s'. heap_at s0 ((j, unat (to_blocks sz)) # drop_block i A)
        (store_bytes M (heap_place s0 (j * BLOCK_SIZE)) (load_bytes M (heap_place s0 (i * BLOCK_SIZE)) (min (unat sz) (n * BLOCK_SIZE)))) out s'
        \<Longrightarrow> Q (heap_place s0 (j * BLOCK_SIZE)) s'"
  shows "passes (realloc (kernel h others) (heap_place s0 (i * BLOCK_SIZE)) sz s) Q"
proof -
  note h = heap_atD [OF assms(1)]
  let ?c = "k_get_thread_id s0" and ?n = "unat (to_blocks sz)"
  have ok: "heap_ok (block_tags s)" using h(6) by (simp add: tags_are_def)
  have t: "tid16 ?c" using h(1,2) by (simp add: may_allocate_def)
  note rel = tags_release [OF h(6), of i]
  let ?s = "with_tags (claim_tags j ?n ?c \<circ> release_tags i) s"
  from k_realloc_ptr [OF ok _ owned_block [OF h(6) assms(2), folded h(2)], of sz] h assms(3)
  have "k_realloc (heap_place s0 (i * BLOCK_SIZE)) sz s = Ret (heap_place s0 (j * BLOCK_SIZE))
      (set_memory (store_bytes M (heap_place s0 (j * BLOCK_SIZE))
         (load_bytes M (heap_place s0 (i * BLOCK_SIZE)) (min (unat sz) (n * BLOCK_SIZE)))) ?s)"
    by (simp add: may_allocate_def reference_search [OF rel])
  moreover have "heap_at s0 ((j, ?n) # drop_block i A) M out ?s"
    by (rule heap_at_tags [OF assms(1)]) (use tags_claim [OF rel assms(3) t] in simp)
  ultimately show ?thesis using assms(4) heap_at_memory by (simp add: realloc_def kernel_def)
qed

lemma realloc_fails:
  assumes "heap_at s0 A M out s" and "(i, n) \<in> set A" and "first_fit (drop_block i A) (unat (to_blocks sz)) = None" and "Q NULL s"
  shows "passes (realloc (kernel h others) (heap_place s0 (i * BLOCK_SIZE)) sz s) Q"
proof -
  note h = heap_atD [OF assms(1)]
  have ok: "heap_ok (block_tags s)" using h(6) by (simp add: tags_are_def)
  note rel = tags_release [OF h(6), of i]
  from k_realloc_ptr [OF ok _ owned_block [OF h(6) assms(2), folded h(2)], of sz] h assms(3)
  have "k_realloc (heap_place s0 (i * BLOCK_SIZE)) sz s = Ret NULL s"
    by (simp add: may_allocate_def reference_search [OF rel])
  with assms(4) show ?thesis by (simp add: realloc_def kernel_def)
qed

text \<open>The same as steps in front of the rest of a test, and the accesses to memory.\<close>

lemma passes_bind: "passes m (\<lambda>a s. passes (f a s) Q) \<Longrightarrow> passes (obind m f) Q"
  by simp

lemma malloc_step:
  assumes "heap_at s0 A M out s" and "unat (to_blocks sz) = n" and "first_fit A n = Some i"
    and "\<And>s'. heap_at s0 ((i, n) # A) M out s' \<Longrightarrow> Q (heap_place s0 (i * BLOCK_SIZE)) s'"
  shows "passes (malloc (kernel h others) sz s) Q"
  using malloc_passes [OF assms(1)] assms(2-4) by blast

lemma free_step:
  assumes "heap_at s0 A M out s" and "map_of A i = Some n" and "drop_block i A = A'" and "\<And>s'. heap_at s0 A' M out s' \<Longrightarrow> Q () s'"
  shows "passes (free (kernel h others) (heap_place s0 (i * BLOCK_SIZE)) s) Q"
  using free_passes [OF assms(1) map_of_SomeD [OF assms(2)]] assms(3,4) by blast

lemma realloc_step:
  assumes "heap_at s0 A M out s" and "map_of A i = Some n" and "drop_block i A = A'" and "unat (to_blocks sz) = k"
    and "first_fit A' k = Some j" and "min (unat sz) (n * BLOCK_SIZE) = cnt"
    and "\<And>s'. heap_at s0 ((j, k) # A')
        (store_bytes M (heap_place s0 (j * BLOCK_SIZE)) (load_bytes M (heap_place s0 (i * BLOCK_SIZE)) cnt)) out s'
        \<Longrightarrow> Q (heap_place s0 (j * BLOCK_SIZE)) s'"
  shows "passes (realloc (kernel h others) (heap_place s0 (i * BLOCK_SIZE)) sz s) Q"
  using realloc_passes [OF assms(1) map_of_SomeD [OF assms(2)], of sz j] assms(3-7) by auto

lemma realloc_fails_step:
  assumes "heap_at s0 A M out s" and "map_of A i = Some n" and "drop_block i A = A'" and "unat (to_blocks sz) = k"
    and "first_fit A' k = None" and "Q NULL s"
  shows "passes (realloc (kernel h others) (heap_place s0 (i * BLOCK_SIZE)) sz s) Q"
  using realloc_fails [OF assms(1) map_of_SomeD [OF assms(2)], of sz] assms(3-6) by auto

lemma heap_place_not_null:
  assumes "heap_at s0 A M out s" and "k \<le> HEAP_SIZE"
  shows "heap_place s0 k \<noteq> NULL"
proof
  assume z: "heap_place s0 k = NULL"
  have r: "heap_region (build s0)" using assms(1) by (auto simp: heap_at_def may_allocate_def)
  have k: "unat (of_nat k :: size_t) = k" using assms(2) by (intro unat_of_nat32) (simp add: heap_consts)
  have "unat (heap_place s0 k) = unat (b_heap (build s0)) + k"
    using r assms(2) k unfolding heap_place_def by (subst unat_add32) (simp_all add: heap_region_def)
  then show False using r z by (simp add: heap_region_def unat_eq_zero)
qed

lemma poke_step:
  assumes "heap_at s0 A M out s" and "k \<le> HEAP_SIZE" and "\<And>s'. heap_at s0 A (store_bytes M (heap_place s0 k) bs) out s' \<Longrightarrow> Q () s'"
  shows "passes (poke (heap_place s0 k) bs s) Q"
  using assms(3) heap_at_memory [OF assms(1)] heap_place_not_null [OF assms(1,2)] heap_atD(3) [OF assms(1)] by (simp add: poke_def)

lemma peek_step:
  assumes "heap_at s0 A M out s" and "k \<le> HEAP_SIZE" and "load M (heap_place s0 k) = v" and "Q v s"
  shows "passes (peek (heap_place s0 k) load s) Q"
  using assms(3,4) heap_place_not_null [OF assms(1,2)] heap_atD(3) [OF assms(1)] by (simp add: peek_def)

lemma peek_offset_step:
  assumes "heap_at s0 A M out s" and "k + j \<le> HEAP_SIZE" and "load M (heap_place s0 (k + j)) = v" and "Q v s"
  shows "passes (peek (heap_place s0 k + of_nat j) load s) Q"
  unfolding heap_place_add by (rule peek_step) (fact assms)+

lemma assert_step: "b \<Longrightarrow> Q () s \<Longrightarrow> passes (alloc_assert sys b text line func s) Q"
  by (simp add: alloc_assert_def user_assert_def)

lemma assert_place_step:
  assumes "heap_at s0 A M out s" and "k \<le> HEAP_SIZE" and "Q () s"
  shows "passes (alloc_assert sys (heap_place s0 k \<noteq> NULL) text line func s) Q"
  using heap_place_not_null [OF assms(1,2)] assms(3) by (intro assert_step)

lemma assert_at_step:
  assumes "heap_at s0 A M out s" and "k \<le> HEAP_SIZE" and "load M (heap_place s0 k) = v" and "Q () s"
  shows "passes (assert_at sys (heap_place s0 k) load v text line func s) Q"
  unfolding assert_at_def passes_simps(4)
  by (rule peek_step, rule assms(1), rule assms(2), rule refl, rule assert_step) (use assms(3,4) in simp_all)

lemma print_step:
  assumes "heap_at s0 A M out s" and "sprintf fmt args = Some str" and "\<And>s'. heap_at s0 A M (out @ str) s' \<Longrightarrow> Q () s'"
  shows "passes (k_printf fmt args s) Q"
  using assms(3) heap_at_print [OF assms(1)] assms(2) by (simp add: k_printf_def)

text \<open>Looking for a place, loads from the heap, and places.\<close>

lemma heap_place_eq [simp]:
  assumes "x \<le> HEAP_SIZE" and "y \<le> HEAP_SIZE"
  shows "heap_place s x = heap_place s y \<longleftrightarrow> x = y"
proof
  assume "heap_place s x = heap_place s y"
  then have "unat (of_nat x :: size_t) = unat (of_nat y :: size_t)" by (simp add: heap_place_def)
  moreover have "x < 2 ^ 32" "y < 2 ^ 32" using assms by (simp_all add: heap_consts)
  ultimately show "x = y" by (simp only: unat_of_nat32)
qed simp

lemma place_apart:
  assumes "x + n \<le> y \<or> y + k \<le> x" and "x + n \<le> HEAP_SIZE" and "y + k \<le> HEAP_SIZE" and "0 < n" and "0 < k"
  shows "apart (heap_place s x) n (heap_place s y) k"
  using assms(1)
proof
  assume "x + n \<le> y"
  then show ?thesis unfolding heap_place_def by (rule apart_offsets(1)) (use assms in \<open>simp_all add: heap_consts\<close>)
next
  assume "y + k \<le> x"
  then show ?thesis unfolding heap_place_def by (rule apart_offsets(2)) (use assms in \<open>simp_all add: heap_consts\<close>)
qed

lemma load_beside:
  assumes "x + length bs \<le> y \<or> y + n \<le> x" and "x + length bs \<le> HEAP_SIZE" and "y + n \<le> HEAP_SIZE" and "0 < length bs" and "0 < n"
  shows "load_bytes (store_bytes M (heap_place s x) bs) (heap_place s y) n = load_bytes M (heap_place s y) n"
  by (rule load_store_bytes_apart [OF place_apart [OF assms]])

lemma load_inside:
  assumes "x \<le> y" and "y + n \<le> x + length bs" and "x + length bs \<le> HEAP_SIZE"
  shows "load_bytes (store_bytes M (heap_place s x) bs) (heap_place s y) n = take n (drop (y - x) bs)"
proof -
  have "heap_place s y = heap_place s x + of_nat (y - x)" unfolding heap_place_add using assms(1) by simp
  then show ?thesis using assms load_bytes_within [of "y - x" n bs M "heap_place s x"] by (simp add: heap_consts)
qed

lemma load8_bytes: "load8 m p = load_bytes m p 1 ! 0"
  by (simp add: load8_def)

lemma heap_place_add4: "heap_place s k + 4 = heap_place s (k + 4)"
  using heap_place_add [of s k 4] by simp

lemma heap_place_0: "b_heap (build s) = heap_place s 0"
  by (simp add: heap_place_def)

lemmas fit_simps = first_fit_def fits_def find_from to_blocks_def heap_consts
lemmas place_simps = load8_bytes load16_def load32_def load64_def load_inside load_beside heap_place_add4 heap_consts

lemma number_texts:
  "uint_to_str 0xFF CHR ''X'' = ''FF''" "uint_to_str 0xF0F0 CHR ''X'' = ''F0F0''" "uint_to_str 0x0A0A0A0A CHR ''X'' = ''A0A0A0A''"
  by code_simp+

text \<open>Loops that write, check, allocate and free.\<close>

lemma for_each_append: "for_each (xs @ ys) body s = obind (for_each xs body s) (\<lambda>_ s. for_each ys body s)"
proof (induction xs arbitrary: s)
  case (Cons x xs)
  then have "for_each (xs @ ys) body = (\<lambda>s. obind (for_each xs body s) (\<lambda>_ s. for_each ys body s))" by (intro ext)
  then show ?case by (simp add: obind_assoc)
qed simp

lemma fill_step:
  assumes "heap_at s0 A M out s" and "k + w * n \<le> HEAP_SIZE" and "\<And>i. length (f i) = w"
    and "\<And>s'. heap_at s0 A (store_bytes M (heap_place s0 k) (concat (map f [0..<n]))) out s' \<Longrightarrow> Q () s'"
  shows "passes (for_each [0..<n] (\<lambda>i. poke (heap_place s0 (k + w * i)) (f i)) s) Q"
  using assms(2,4)
proof (induction n arbitrary: Q)
  case 0
  then show ?case using assms(1) by simp
next
  case (Suc n)
  have len: "length (concat (map f [0..<n])) = w * n" using assms(3) by (simp add: length_concat comp_def sum_list_triv)
  have "k + w * n \<le> HEAP_SIZE" "length (concat (map f [0..<n])) + length (f n) < 2 ^ 32"
    using Suc.prems(1) len assms(3) by (simp_all add: heap_consts)
  then have st: "store_bytes (store_bytes M (heap_place s0 k) (concat (map f [0..<n]))) (heap_place s0 (k + w * n)) (f n)
      = store_bytes M (heap_place s0 k) (concat (map f [0..<Suc n]))"
    using store_bytes_append [of "concat (map f [0..<n])" "f n" M "heap_place s0 k", unfolded len heap_place_add]
      \<open>length (concat (map f [0..<n])) + length (f n) < 2 ^ 32\<close> len by simp
  have "passes (poke (heap_place s0 (k + w * n)) (f n) s') Q"
    if h: "heap_at s0 A (store_bytes M (heap_place s0 k) (concat (map f [0..<n]))) out s'" for s'
    by (rule poke_step [OF h]) (use Suc.prems \<open>k + w * n \<le> HEAP_SIZE\<close> in \<open>simp_all only: st\<close>)
  then show ?case
    using Suc.IH [of "\<lambda>_ s'. passes (poke (heap_place s0 (k + w * n)) (f n) s') Q"] \<open>k + w * n \<le> HEAP_SIZE\<close>
    by (simp add: for_each_append)
qed

lemma fill_bytes_step:
  assumes "heap_at s0 A M out s" and "k + n \<le> HEAP_SIZE"
    and "\<And>s'. heap_at s0 A (store_bytes M (heap_place s0 k) (map of_nat [0..<n])) out s' \<Longrightarrow> Q () s'"
  shows "passes (fill_bytes (heap_place s0 k) n s) Q"
  using fill_step [OF assms(1), of k 1 n "\<lambda>i. [of_nat i]" Q] assms(2,3) by (simp add: heap_place_add fill_bytes_def)

lemma number_words_step:
  assumes "heap_at s0 A M out s" and "k + 4 * n \<le> HEAP_SIZE"
    and "\<And>s'. heap_at s0 A (store_bytes M (heap_place s0 k) (concat (map (\<lambda>i. bytes32 (of_nat i)) [0..<n]))) out s' \<Longrightarrow> Q () s'"
  shows "passes (number_words (heap_place s0 k) n s) Q"
  using fill_step [OF assms(1), of k 4 n "\<lambda>i. bytes32 (of_nat i)" Q] assms(2,3) heap_place_add [of s0 k "4 * _"]
  by (simp add: number_words_def)

lemma for_each_checks:
  assumes "heap_at s0 A M out s" and "k + 4 * n \<le> HEAP_SIZE" and "\<forall>i \<in> set xs. i < n \<and> load32 M (heap_place s0 (k + 4 * i)) = of_nat i"
  shows "for_each xs (\<lambda>i. assert_at sys (heap_place s0 k + 4 * of_nat i) load32 (of_nat i) text line func) s = Ret () s"
  using assms(3)
proof (induction xs)
  case (Cons i xs)
  have "heap_place s0 k + 4 * of_nat i = heap_place s0 (k + 4 * i)" using heap_place_add [of s0 k "4 * i"] by simp
  moreover have "heap_place s0 (k + 4 * i) \<noteq> NULL" using Cons.prems assms(2) by (intro heap_place_not_null [OF assms(1)]) auto
  ultimately show ?case
    using Cons heap_atD(3) [OF assms(1)] by (simp add: assert_at_def peek_def alloc_assert_def user_assert_def)
qed simp

lemma check_words_step:
  assumes "heap_at s0 A M out s" and "k + 4 * n \<le> HEAP_SIZE" and "list_all (\<lambda>i. load32 M (heap_place s0 (k + 4 * i)) = of_nat i) [0..<n]" and "Q () s"
  shows "passes (check_words sys (heap_place s0 k) n line s) Q"
  using for_each_checks [OF assms(1,2), of "[0..<n]"] assms(3,4) by (simp add: check_words_def list_all_iff)

text \<open>The first blocks, each an allocation of its own, and the results of allocating one after the other.\<close>

definition full :: "nat \<Rightarrow> (nat \<times> nat) list" where
  "full m = map (\<lambda>i. (i, 1)) (rev [0..<m])"

definition block_ptr :: "kstate \<Rightarrow> nat \<Rightarrow> size_t" where
  "block_ptr s i = (if i < NUM_BLOCKS then heap_place s (i * BLOCK_SIZE) else NULL)"

lemma block_ptr_simps:
  "i < NUM_BLOCKS \<Longrightarrow> block_ptr s i = heap_place s (i * BLOCK_SIZE)" "\<not> i < NUM_BLOCKS \<Longrightarrow> block_ptr s i = NULL"
  by (simp_all add: block_ptr_def)

lemma block_ptr_nulls: "NUM_BLOCKS \<le> m \<Longrightarrow> map (block_ptr s) [m..<m + n] = replicate n NULL"
  by (rule nth_equalityI) (simp_all add: block_ptr_def)

lemma full_simps: "full (Suc m) = (m, 1) # full m" "set (full m) = (\<lambda>i. (i, 1)) ` {..<m}"
  by (auto simp: full_def)

lemma full_fit: "m \<le> NUM_BLOCKS \<Longrightarrow> first_fit (full m) 1 = (if m < NUM_BLOCKS then Some m else None)"
proof -
  assume m: "m \<le> NUM_BLOCKS"
  have "(\<forall>x < m. Suc x \<le> i \<or> Suc i \<le> x) \<longleftrightarrow> m \<le> i" for i
    by (metis Suc_leI linorder_not_less not_less_eq_eq order_less_le_trans order_refl)
  then have f: "fits (full m) (Suc 0) i \<longleftrightarrow> m \<le> i \<and> i < NUM_BLOCKS" for i
    by (auto simp: fits_def list_all_iff full_simps)
  have "(LEAST i. fits (full m) (Suc 0) i) = m" if "m < NUM_BLOCKS" using that by (intro Least_equality) (auto simp: f)
  then show ?thesis using m by (auto simp: first_fit_def find_upt f find_None_iff)
qed

lemma malloc_each_step:
  assumes "heap_at s0 (full m) M out s" and "m \<le> NUM_BLOCKS" and "unat (to_blocks sz) = 1"
    and "\<And>s'. heap_at s0 (full (min NUM_BLOCKS (m + n))) M out s' \<Longrightarrow> Q (map (block_ptr s0) [m..<m + n]) s'"
  shows "passes (malloc_each (kernel h others) n sz s) Q"
  using assms(1,2,4)
proof (induction n arbitrary: m s Q)
  case 0
  then show ?case by (simp add: min.absorb2)
next
  case (Suc n)
  have l: "[m..<m + Suc n] = m # [Suc m..<Suc m + n]" by (simp add: upt_rec)
  show ?case
  proof (cases "m < NUM_BLOCKS")
    case True
    have q: "Q (block_ptr s0 m # map (block_ptr s0) [Suc m..<Suc m + n]) s'"
      if "heap_at s0 (full (min NUM_BLOCKS (Suc m + n))) M out s'" for s'
      using Suc.prems(3) [of s', unfolded l] that by simp
    have "passes (malloc_each (kernel h others) n sz s') (\<lambda>ps. Q (block_ptr s0 m # ps))" if "heap_at s0 (full (Suc m)) M out s'" for s'
      using True by (intro Suc.IH [OF that] q) simp_all
    then have "passes (malloc (kernel h others) sz s) (\<lambda>p s. passes (malloc_each (kernel h others) n sz s) (\<lambda>ps. Q (p # ps)))"
      using True full_fit [of m] assms(3) by (intro malloc_step [OF Suc.prems(1)]) (simp_all add: full_simps block_ptr_simps)
    then show ?thesis by simp
  next
    case False
    with Suc.prems(2) have m: "m = NUM_BLOCKS" by simp
    note h = Suc.prems(1)
    have "Q (NULL # map (block_ptr s0) [m..<m + n]) s'" if "heap_at s0 (full (min NUM_BLOCKS (m + n))) M out s'" for s'
      using Suc.prems(3) [of s'] that m block_ptr_nulls [of m s0 n] block_ptr_nulls [of m s0 "Suc n"] by (simp del: upt_Suc)
    then have "passes (malloc_each (kernel h others) n sz s) (\<lambda>ps. Q (NULL # ps))"
      by (intro Suc.IH [OF h Suc.prems(2)])
    then have "passes (malloc (kernel h others) sz s) (\<lambda>p s. passes (malloc_each (kernel h others) n sz s) (\<lambda>ps. Q (p # ps)))"
      using m full_fit [of m] assms(3) by (intro malloc_fails [OF h]) simp_all
    then show ?thesis by simp
  qed
qed

lemma free_each_step:
  assumes "heap_at s0 A M out s" and "distinct is" and "\<forall>i \<in> set is. i < NUM_BLOCKS \<longrightarrow> i \<in> fst ` set A"
    and "filter (\<lambda>(j, n). j \<notin> set is) A = A'" and "\<And>s'. heap_at s0 A' M out s' \<Longrightarrow> Q () s'"
  shows "passes (for_each (map (block_ptr s0) is) (free (kernel h others)) s) Q"
  using assms
proof (induction "is" arbitrary: s A)
  case Nil
  then show ?case by simp
next
  case (Cons i "is")
  show ?case
  proof (cases "i < NUM_BLOCKS")
    case True
    then obtain n where n: "(i, n) \<in> set A" using Cons.prems(3) by auto
    have "passes (for_each (map (block_ptr s0) is) (free (kernel h others)) s') Q" if "heap_at s0 (drop_block i A) M out s'" for s'
    proof (rule Cons.IH [OF that])
      show "\<forall>j \<in> set is. j < NUM_BLOCKS \<longrightarrow> j \<in> fst ` set (drop_block i A)"
        using Cons.prems(2,3) by (fastforce simp: drop_block_def image_iff)
      show "filter (\<lambda>(j, n). j \<notin> set is) (drop_block i A) = A'"
        using Cons.prems(4) by (auto simp: drop_block_def case_prod_beta intro: filter_cong)
    qed (use Cons.prems in simp_all)
    from free_passes [where Q = "\<lambda>_ s. passes (for_each (map (block_ptr s0) is) (free (kernel h others)) s) Q", OF Cons.prems(1) n this]
    show ?thesis using True by (simp add: block_ptr_simps)
  next
    case False
    have "(\<lambda>(j, n). j \<notin> set (i # is)) x = (\<lambda>(j, n). j \<notin> set is) x" if "x \<in> set A" for x
    proof -
      note t = heap_atD(6) [OF Cons.prems(1)]
      have "allocs (block_tags s) (fst x) = Some (snd x, k_get_thread_id s0)" by (rule owned_block [OF t]) (use that in simp)
      then have "fst x < NUM_BLOCKS" using t heap_okD(1) [of "block_tags s"] by (simp add: allocs_Some tags_are_def)
      with False show ?thesis by (auto split: prod.split)
    qed
    then have "filter (\<lambda>(j, n). j \<notin> set is) A = A'" using Cons.prems(4) by (metis (no_types, lifting) filter_cong)
    then have "passes (for_each (map (block_ptr s0) is) (free (kernel h others)) s) Q"
      using Cons.prems by (intro Cons.IH) auto
    with False show ?thesis by (simp add: block_ptr_simps free_null_passes)
  qed
qed

text \<open>The heap is free again, the memory outside it as it was, and the rest of the state too.\<close>

definition heap_only :: "kstate \<Rightarrow> mem \<Rightarrow> mem \<Rightarrow> bool" where
  "heap_only s M M' \<longleftrightarrow> (\<forall>x. x \<notin> region (b_heap (build s)) HEAP_SIZE \<longrightarrow> M' x = M x)"

lemma heap_only_store [simp]:
  "k + length bs \<le> HEAP_SIZE \<Longrightarrow> heap_only s M M' \<Longrightarrow> heap_only s M (store_bytes M' (heap_place s k) bs)"
  unfolding heap_only_def
proof (intro allI impI)
  fix x
  assume k: "k + length bs \<le> HEAP_SIZE" and M: "\<forall>x. x \<notin> region (b_heap (build s)) HEAP_SIZE \<longrightarrow> M' x = M x"
    and x: "x \<notin> region (b_heap (build s)) HEAP_SIZE"
  have "k < 2 ^ 32" "\<not> unat (x - b_heap (build s)) < HEAP_SIZE" using k x by (simp_all add: heap_consts region_def)
  then have "\<not> unat (x - heap_place s k) < length bs"
    using k unat_diff_offset [of k x "b_heap (build s)"] by (auto simp: heap_place_def heap_consts split: if_splits)
  then show "store_bytes M' (heap_place s k) bs x = M x" using M x by (simp add: store_bytes_def)
qed

lemma heap_only_refl [simp]: "heap_only s M M"
  by (simp add: heap_only_def)

definition free_again :: "kstate \<Rightarrow> string \<Rightarrow> kstate \<Rightarrow> bool" where
  "free_again s out s' \<longleftrightarrow> (\<exists>M'. heap_at s [] M' out s' \<and> heap_only s (memory s) M')"

lemma free_again_I: "heap_at s [] M' out' s' \<Longrightarrow> out' = out \<Longrightarrow> heap_only s (memory s) M' \<Longrightarrow> free_again s out s'"
  by (auto simp: free_again_def)

lemmas test_steps = passes_bind malloc_step free_step poke_step print_step peek_step peek_offset_step assert_at_step assert_place_step assert_step
  realloc_step fill_bytes_step number_words_step check_words_step free_again_I
lemmas test_simps = fit_simps place_simps sprintf_def format_defs number_texts

definition basic_types_output :: string where
  "basic_types_output = '' u8: 0xFF'' @ [CHR 0x0A] @ ''u16: 0xF0F0'' @ [CHR 0x0A] @ ''u32: 0xA0A0A0A'' @ [CHR 0x0A]"

lemma basic_types_passes:
  assumes "heap_at s0 [] (memory s0) [] s"
  shows "passes (basic_types (kernel h others) s) (\<lambda>_. free_again s0 basic_types_output)"
  unfolding basic_types_def
  by (insert assms, intro test_steps, (assumption | (simp add: test_simps; fail) | (simp add: basic_types_output_def pad_def; fail))+)

lemma large_alloc_passes:
  assumes "heap_at s0 [] (memory s0) [] s"
  shows "passes (large_alloc (kernel h others) s) (\<lambda>_. free_again s0 [])"
  unfolding large_alloc_def
  by (insert assms, intro test_steps, (assumption | (simp add: test_simps; fail))+)

lemma alloc_errors_passes:
  assumes "heap_at s0 [] (memory s0) [] s"
  shows "passes (alloc_errors (kernel h others) s) (\<lambda>_. free_again s0 [])"
proof -
  have "first_fit [] (unat (to_blocks 99999)) = None" by (simp add: fit_simps)
  then show ?thesis
    unfolding alloc_errors_def
    by (intro passes_bind malloc_fails [OF assms] assert_step free_again_I [OF assms]) simp_all
qed

lemma realloc_less_passes:
  assumes "heap_at s0 [] (memory s0) [] s"
  shows "passes (realloc_less (kernel h others) s) (\<lambda>_. free_again s0 [])"
  unfolding realloc_less_def Let_def
  by (insert assms, intro test_steps, (assumption | (simp add: test_simps; fail))+)

lemma realloc_more_passes:
  assumes "heap_at s0 [] (memory s0) [] s"
  shows "passes (realloc_more (kernel h others) s) (\<lambda>_. free_again s0 [])"
  unfolding realloc_more_def Let_def realloc_null
  by (insert assms, intro realloc_fails_step [where sz = 123456] test_steps, (assumption | (simp add: test_simps upt_conv_Cons; fail))+)

lemma every_second_map: "every_second (map f xs) = map f (every_second xs)"
  by (induction xs rule: every_second.induct) simp_all

lemma one_block: "unat (to_blocks 4) = 1" "unat (to_blocks 8) = 1" "unat (to_blocks 64) = 2"
  by (simp_all add: to_blocks_def heap_consts)

lemma first_fit_0: "0 < n \<Longrightarrow> fits A n 0 \<Longrightarrow> first_fit A n = Some 0"
  by (simp add: first_fit_def find_from heap_consts)

lemma first_fit_None:
  assumes "\<And>i. i + n \<le> NUM_BLOCKS \<Longrightarrow> \<exists>(j, k) \<in> set A. i < j + k \<and> j < i + n"
  shows "first_fit A n = None"
proof -
  have "\<not> fits A n i" for i using assms [of i] by (fastforce simp: fits_def list_all_iff)
  then show ?thesis by (simp add: first_fit_def find_None_iff)
qed

lemma every_second_upt:
  "set (every_second [0..<64]) = {i. i < 64 \<and> even i}" "set (every_second [Suc 0..<64]) = {i. i < 64 \<and> odd i}"
proof -
  have e: "set (every_second [a..<a + 2 * n]) = (\<lambda>i. a + 2 * i) ` {..<n}" for a n
  proof (induction n arbitrary: a)
    case (Suc n)
    have "[a..<a + 2 * Suc n] = a # Suc a # [a + 2..<a + 2 + 2 * n]" by (simp add: upt_conv_Cons)
    then have "set (every_second [a..<a + 2 * Suc n]) = insert a ((\<lambda>i. a + 2 + 2 * i) ` {..<n})" using Suc by (simp only: every_second.simps list.set)
    then show ?case by (simp only: lessThan_Suc_eq_insert_0 image_insert image_image) (simp add: add.assoc)
  qed simp
  show "set (every_second [0..<64]) = {i. i < 64 \<and> even i}" using e [of 0 32] by (auto elim!: evenE)
  have "every_second (xs @ [x]) = every_second xs @ [x]" if "even (length xs)" for xs and x :: nat
    using that by (induction xs rule: every_second.induct) auto
  from this [of "[1..<63]" 63] have "every_second [Suc 0..<64] = every_second [1..<1 + 2 * 31] @ [63]" by (simp add: upt_conv_Cons)
  then have "set (every_second [Suc 0..<64]) = insert 63 (set (every_second [1..<1 + 2 * 31]))" by (simp only: set_append list.set) simp
  also have "\<dots> = {i. i < 64 \<and> odd i}" unfolding e by (auto elim!: oddE)
  finally show "set (every_second [Suc 0..<64]) = {i. i < 64 \<and> odd i}" .
qed

lemma distinct_every_second: "distinct xs \<Longrightarrow> distinct (every_second xs)"
proof (induction xs rule: every_second.induct)
  case (1 x y xs)
  have "set (every_second xs) \<subseteq> set xs" for xs :: "'a list" by (induction xs rule: every_second.induct) auto
  with 1 show ?case by auto
qed simp_all

text \<open>The full heap, its odd blocks, and the pieces that are left when the first blocks are freed.\<close>

definition odd_blocks :: "(nat \<times> nat) list" where
  "odd_blocks = filter (\<lambda>(j, n). odd j) (full 64)"

lemma heap_pieces:
  "first_fit odd_blocks (Suc 0) = Some 0" "drop_block 0 odd_blocks = odd_blocks" "first_fit odd_blocks 2 = None"
  "first_fit (drop_block 0 (drop_block (Suc 0) (full 64))) 2 = Some 0"
  "first_fit (drop_block 0 (full 64)) 2 = None" "first_fit (full 64) (Suc 0) = None"
  "map_of (full 64) 0 = Some 1" "map_of (full 64) (Suc 0) = Some 1" "map_of (drop_block (Suc 0) (full 64)) 0 = Some 1"
proof -
  have blocks: "set odd_blocks = (\<lambda>i. (i, 1)) ` {i. i < 64 \<and> odd i}" by (auto simp: odd_blocks_def full_simps)
  show "first_fit odd_blocks (Suc 0) = Some 0"
    by (rule first_fit_0) (auto simp: fits_def heap_consts list_all_iff blocks Suc_le_eq intro!: Nat.gr0I)
  show "drop_block 0 odd_blocks = odd_blocks" by (auto simp: drop_block_def filter_id_conv blocks intro!: Nat.gr0I)
  show "first_fit odd_blocks 2 = None"
  proof (rule first_fit_None)
    fix i assume "i + 2 \<le> NUM_BLOCKS"
    then show "\<exists>(j, k) \<in> set odd_blocks. i < j + k \<and> j < i + 2"
      by (intro bexI [of _ "(if odd i then i else Suc i, 1)"]) (auto simp: blocks heap_consts)
  qed
  show "first_fit (drop_block 0 (drop_block (Suc 0) (full 64))) 2 = Some 0"
    by (rule first_fit_0) (auto simp: fits_def heap_consts list_all_iff full_simps drop_block_def)
  show "first_fit (drop_block 0 (full 64)) 2 = None"
  proof (rule first_fit_None)
    fix i assume "i + 2 \<le> NUM_BLOCKS"
    then show "\<exists>(j, k) \<in> set (drop_block 0 (full 64)). i < j + k \<and> j < i + 2"
      by (intro bexI [of _ "(Suc i, 1)"]) (auto simp: full_simps drop_block_def heap_consts)
  qed
  show "first_fit (full 64) (Suc 0) = None" using full_fit [of 64] by (simp add: heap_consts)
  have m: "map_of (full 64) = (\<lambda>i. if i < 64 then Some 1 else None)"
    using map_of_map_restrict [of "\<lambda>i. Suc 0" "rev [0..<64]"] by (auto simp: full_def restrict_map_def comp_def fun_eq_iff)
  show "map_of (full 64) 0 = Some 1" "map_of (full 64) (Suc 0) = Some 1" by (simp_all add: m)
  show "map_of (drop_block (Suc 0) (full 64)) 0 = Some 1"
    using map_of_filter_in [of "full 64" 0 1 "\<lambda>j n. j \<noteq> Suc 0"] by (simp add: m drop_block_def)
qed

lemma malloc_fails_step:
  assumes "heap_at s0 A M out s" and "unat (to_blocks sz) = n" and "first_fit A n = None" and "Q NULL s"
  shows "passes (malloc (kernel h others) sz s) Q"
  using malloc_fails [OF assms(1)] assms(2-4) by simp

text \<open>Allocating one block after the other until there is none, and freeing them.\<close>

lemma malloc_all_step:
  assumes "heap_at s0 [] M out s" and "unat (to_blocks sz) = 1"
    and "\<And>s'. heap_at s0 (full 64) M out s' \<Longrightarrow> Q (heap_place s0 (0 * BLOCK_SIZE) # map (block_ptr s0) [1..<64]) s'"
  shows "passes (malloc_each (kernel h others) 64 sz s) Q"
proof -
  have eq: "map (block_ptr s0) [0..<0 + 64] = heap_place s0 (0 * BLOCK_SIZE) # map (block_ptr s0) [1..<64]"
    by (simp add: upt_conv_Cons block_ptr_def heap_consts)
  show ?thesis
  proof (rule malloc_each_step [where m = 0, OF _ _ assms(2)])
    show "heap_at s0 (full 0) M out s" using assms(1) by (simp add: full_def)
    fix s' assume "heap_at s0 (full (min NUM_BLOCKS (0 + 64))) M out s'"
    then show "Q (map (block_ptr s0) [0..<0 + 64]) s'" unfolding eq using assms(3) by (simp add: heap_consts)
  qed (simp add: heap_consts)
qed

lemma malloc_rest_step:
  assumes "heap_at s0 [(0, Suc 0)] M out s" and "unat (to_blocks sz) = 1"
    and "\<And>s'. heap_at s0 (full 64) M out s' \<Longrightarrow> Q (heap_place s0 (Suc 0 * BLOCK_SIZE) # map (block_ptr s0) [2..<65]) s'"
  shows "passes (malloc_each (kernel h others) 64 sz s) Q"
proof -
  have eq: "map (block_ptr s0) [1..<1 + 64] = heap_place s0 (Suc 0 * BLOCK_SIZE) # map (block_ptr s0) [2..<65]"
    by (simp add: upt_conv_Cons block_ptr_def heap_consts)
  show ?thesis
  proof (rule malloc_each_step [where m = 1, OF _ _ assms(2)])
    show "heap_at s0 (full 1) M out s" using assms(1) by (simp add: full_def)
    fix s' assume "heap_at s0 (full (min NUM_BLOCKS (1 + 64))) M out s'"
    then show "Q (map (block_ptr s0) [1..<1 + 64]) s'" unfolding eq using assms(3) by (simp add: heap_consts)
  qed (simp add: heap_consts)
qed

lemma free_evens_step:
  assumes "heap_at s0 (full 64) M out s" and "\<And>s'. heap_at s0 odd_blocks M out s' \<Longrightarrow> Q () s'"
  shows "passes (for_each (every_second (heap_place s0 (0 * BLOCK_SIZE) # map (block_ptr s0) [1..<64])) (free (kernel h others)) s) Q"
proof -
  have "heap_place s0 (0 * BLOCK_SIZE) # map (block_ptr s0) [1..<64] = map (block_ptr s0) [0..<64]"
    by (simp add: upt_conv_Cons block_ptr_def heap_consts)
  then have "every_second (heap_place s0 (0 * BLOCK_SIZE) # map (block_ptr s0) [1..<64]) = map (block_ptr s0) (every_second [0..<64])"
    by (simp only: every_second_map)
  moreover have "filter (\<lambda>(j, n). j \<notin> set (every_second [0..<64])) (full 64) = odd_blocks"
    by (auto simp: odd_blocks_def every_second_upt full_simps intro!: filter_cong)
  ultimately show ?thesis
    using free_each_step [OF assms(1), of "every_second [0..<64]"] assms(2) distinct_every_second [of "[0..<64]"]
    by (simp add: every_second_upt full_simps heap_consts image_iff)
qed

lemma free_odds_step:
  assumes "heap_at s0 odd_blocks M out s" and "\<And>s'. heap_at s0 [] M out s' \<Longrightarrow> Q () s'"
  shows "passes (for_each (every_second (tl (p # map (block_ptr s0) [1..<64]))) (free (kernel h others)) s) Q"
proof -
  have "filter (\<lambda>(j, n). j \<notin> set (every_second [Suc 0..<64])) odd_blocks = []"
    by (auto simp: odd_blocks_def every_second_upt full_simps filter_empty_conv)
  then show ?thesis
    using free_each_step [OF assms(1), of "every_second [Suc 0..<64]"] assms(2) distinct_every_second [of "[Suc 0..<64]"]
    by (simp add: every_second_map every_second_upt odd_blocks_def full_simps heap_consts image_iff)
qed

lemma free_all_step:
  assumes "heap_at s0 (full 64) M out s" and "\<And>s'. heap_at s0 [] M out s' \<Longrightarrow> Q () s'"
  shows "passes (for_each (heap_place s0 (0 * BLOCK_SIZE) # map (block_ptr s0) [1..<64]) (free (kernel h others)) s) Q"
proof -
  have "heap_place s0 (0 * BLOCK_SIZE) # map (block_ptr s0) [1..<64] = map (block_ptr s0) [0..<64]"
    by (simp add: upt_conv_Cons block_ptr_def heap_consts)
  moreover have "filter (\<lambda>(j, n). j \<notin> set [0..<64]) (full 64) = []" by (auto simp: filter_empty_conv full_simps)
  ultimately show ?thesis
    using free_each_step [OF assms(1), of "[0..<64]"] assms(2) by (simp add: full_simps heap_consts image_iff)
qed

lemma free_rest_step:
  assumes "heap_at s0 (drop_block 0 (drop_block (Suc 0) (full 64))) M out s" and "\<And>s'. heap_at s0 [] M out s' \<Longrightarrow> Q () s'"
  shows "passes (for_each (tl (p # map (block_ptr s0) [2..<65])) (free (kernel h others)) s) Q"
proof -
  have "filter (\<lambda>(j, n). j \<notin> set [2..<65]) (drop_block 0 (drop_block (Suc 0) (full 64))) = []"
    by (auto simp: filter_empty_conv drop_block_def full_simps simp del: upt_rec_numeral)
  then show ?thesis
    using free_each_step [OF assms(1), of "[2..<65]"] assms(2) by (simp add: drop_block_def full_simps heap_consts image_iff)
qed

lemma free_hd_step:
  assumes "heap_at s0 A M out s" and "map_of A i = Some n" and "drop_block i A = A'" and "\<And>s'. heap_at s0 A' M out s' \<Longrightarrow> Q () s'"
  shows "passes (free (kernel h others) (hd (heap_place s0 (i * BLOCK_SIZE) # ps)) s) Q"
  unfolding list.sel by (rule free_step) (fact assms)+

lemma realloc_hd_fails_step:
  assumes "heap_at s0 A M out s" and "map_of A i = Some n" and "drop_block i A = A'" and "unat (to_blocks sz) = k"
    and "first_fit A' k = None" and "Q NULL s"
  shows "passes (realloc (kernel h others) (hd (heap_place s0 (i * BLOCK_SIZE) # ps)) sz s) Q"
  unfolding list.sel by (rule realloc_fails_step) (fact assms)+

lemmas full_steps = malloc_fails_step [where sz = 64] realloc_hd_fails_step malloc_all_step malloc_rest_step free_evens_step free_odds_step free_all_step
  free_rest_step free_hd_step test_steps
lemmas full_test_simps = heap_pieces one_block place_simps

lemma fragmented_passes:
  assumes "heap_at s0 [] (memory s0) [] s"
  shows "passes (fragmented (kernel h others) s) (\<lambda>_. free_again s0 [])"
  unfolding fragmented_def
  by (insert assms, intro full_steps, (assumption | (simp add: full_test_simps; fail))+)

lemma realloc_free_passes:
  assumes "heap_at s0 [] (memory s0) [] s"
  shows "passes (realloc_free (kernel h others) s) (\<lambda>_. free_again s0 [])"
  unfolding realloc_free_def Let_def
  apply (insert assms, rule passes_bind, rule malloc_step, assumption, simp add: one_block, simp add: fit_simps)
  by (intro full_steps, (assumption | (simp add: full_test_simps; fail))+)

lemma realloc_fail_passes:
  assumes "heap_at s0 [] (memory s0) [] s"
  shows "passes (realloc_fail (kernel h others) s) (\<lambda>_. free_again s0 [])"
  unfolding realloc_fail_def
  by (insert assms, intro malloc_fails_step [where sz = 4] full_steps, (assumption | (simp add: full_test_simps; fail))+)

section \<open>Allocations of another thread\<close>

text \<open>An allocation that is freed at once leaves all allocations as they were, and is not one of them.\<close>

lemma new_alloc_differs_passes:
  assumes "may_allocate s" and "heap_ok (block_tags s)" and "allocs (block_tags s) i = Some (n, t)"
  shows "passes (new_alloc_differs (kernel h others) (to_heap_ptr i s) line func s)
    (\<lambda>_ s'. \<exists>tags. s' = s\<lparr>block_tags := tags\<rparr> \<and> heap_ok tags \<and> allocs tags = allocs (block_tags s))"
proof -
  let ?K = "kernel h others" and ?c = "k_get_thread_id s" and ?T = "block_tags s"
  have reg: "heap_region (build s)" and perm: "\<not> k_has_no_permission TPERM_ALLOC s" and tid: "tid16 ?c"
    using assms(1) by (simp_all add: may_allocate_def)
  have i: "i < NUM_BLOCKS" using assms(2,3) by (simp add: allocs_Some heap_okD(1))
  note malloc = k_malloc_eq [OF assms(2), of 4]
  show ?thesis
  proof (cases "find_free_space ?T (to_blocks 4)")
    case None
    with malloc perm have "malloc ?K 4 s = Ret NULL s" by (simp add: malloc_def kernel_def)
    moreover have "NULL \<noteq> to_heap_ptr i s" using heap_ptr_bounds(1) [OF reg i] by simp
    ultimately show ?thesis
      using assms(2) by (auto simp: new_alloc_differs_def alloc_assert_def user_assert_def free_null intro!: exI [of _ ?T])
  next
    case (Some j)
    note f = find_free_space_Some [OF assms(2) Some]
    have one: "unat (to_blocks 4) = 1" by (simp add: one_block)
    have run: "free_run ?T j 1" using f(2) one by simp
    let ?s = "with_tags (claim_tags j 1 ?c) s"
    have m: "malloc ?K 4 s = Ret (to_heap_ptr j s) ?s" using malloc perm Some one by (simp add: malloc_def kernel_def)
    have none: "allocs ?T j = None"
    proof (rule ccontr)
      assume "allocs ?T j \<noteq> None"
      then obtain k u where k: "allocs ?T j = Some (k, u)" by auto
      with free_run_clear [OF assms(2) run _ k] show False by (simp add: allocs_Some)
    qed
    have "j \<noteq> i" using none assms(3) by auto
    then have ne: "to_heap_ptr j s \<noteq> to_heap_ptr i s"
      using unat_heap_ptr [OF reg, of i] unat_heap_ptr [OF reg, of j] i f(4) by (auto simp: heap_consts)
    have ok: "heap_ok (block_tags ?s)" using heap_ok_claim [OF assms(2) run] by simp
    have al: "allocs (block_tags ?s) = (allocs ?T)(j \<mapsto> (1, ?c))" using allocs_claim [OF assms(2) run _ tid] by simp
    have fr: "k_free (to_heap_ptr j s) ?s = Ret () (with_tags (\<lambda>tags. tags[j := \<lparr>bt_tid = 0, bt_tag = 0\<rparr>]) ?s)"
      using k_free_ptr [OF ok, of j 1 ?c] reg perm al by simp
    let ?U = "(claim_tags j 1 ?c ?T)[j := \<lparr>bt_tid = 0, bt_tag = 0\<rparr>]"
    have "heap_ok ?U" "allocs ?U = allocs ?T" using clear_tags [OF ok, of j] al none by (simp_all add: fun_upd_idem)
    moreover have "free ?K (to_heap_ptr j s) ?s = Ret () (s\<lparr>block_tags := ?U\<rparr>)"
      using fr by (simp add: free_def kernel_def as_unit_def ret_unit_def with_tags_def)
    ultimately show ?thesis
      using m ne by (auto simp: new_alloc_differs_def alloc_assert_def user_assert_def intro!: exI [of _ ?U])
  qed
qed

lemma check_protect_passes:
  assumes "may_allocate s" and "heap_ok (block_tags s)" and "allocs (block_tags s) i = Some (n, t)" and "t \<noteq> k_get_thread_id s"
    and "get_global (at_the_protected_alloc g) s = to_heap_ptr i s"
  shows "passes (check_protect (kernel h others) g s)
    (\<lambda>_ s'. \<exists>tags. s' = s\<lparr>block_tags := tags\<rparr> \<and> heap_ok tags \<and> allocs tags = allocs (block_tags s))"
proof -
  let ?K = "kernel h others" and ?p = "to_heap_ptr i s"
  have reg: "heap_region (build s)" and perm: "\<not> k_has_no_permission TPERM_ALLOC s" using assms(1) by (simp_all add: may_allocate_def)
  have i: "i < NUM_BLOCKS" "sint (bt_tid (block_tags s ! i)) = t" using assms(2,3) by (simp_all add: allocs_Some heap_okD(1))
  have "k_realloc ?p 2 s = Ret ?p s"
    using can_realloc_free_ptr [OF assms(2) reg i(1)] heap_ptr_bounds(1) [OF reg i(1)] i(2) assms(4) perm by (simp add: k_realloc_def)
  then have re: "realloc ?K ?p 2 s = Ret ?p s" by (simp add: realloc_def kernel_def)
  have frame: "may_allocate (s\<lparr>block_tags := tags\<rparr>)" "get_global a (s\<lparr>block_tags := tags\<rparr>) = get_global a s"
    "to_heap_ptr i (s\<lparr>block_tags := tags\<rparr>) = ?p" "k_get_thread_id (s\<lparr>block_tags := tags\<rparr>) = k_get_thread_id s" for tags a
    using assms(1) by (auto simp: may_allocate_def get_global_def to_heap_ptr_def k_has_no_permission_def k_get_thread_id_def
        split: option.splits)
  have second: "passes (obind (free ?K ?p s') (\<lambda>_ s. new_alloc_differs ?K ?p 266 ''check_protect'' s))
      (\<lambda>_ s'. \<exists>tags. s' = s\<lparr>block_tags := tags\<rparr> \<and> heap_ok tags \<and> allocs tags = allocs (block_tags s))"
    if s': "s' = s\<lparr>block_tags := tags\<rparr>" "heap_ok tags" "allocs tags = allocs (block_tags s)" for s' tags
  proof -
    have "k_free (to_heap_ptr i s') s' = Ret () s'"
      using that assms(3,4) reg by (subst k_free_ptr [of s' i n t]) (simp_all add: frame)
    then have "free ?K ?p s' = Ret () s'" by (simp add: s'(1) frame free_def kernel_def as_unit_def ret_unit_def)
    then show ?thesis
      using new_alloc_differs_passes [of s' i n t h others 266 "''check_protect''"] that assms(3) by (simp add: frame)
  qed
  have first: "passes (new_alloc_differs ?K ?p 259 ''check_protect'' s)
      (\<lambda>_ s'. passes (obind (free ?K (get_global (at_the_protected_alloc g) s') s') (\<lambda>_ s. new_alloc_differs ?K ?p 266 ''check_protect'' s))
        (\<lambda>_ s'. \<exists>tags. s' = s\<lparr>block_tags := tags\<rparr> \<and> heap_ok tags \<and> allocs tags = allocs (block_tags s)))"
    by (rule passes_mono [OF new_alloc_differs_passes [OF assms(1-3)]]) (use second assms(5) in \<open>auto simp: frame simp del: passes_simps\<close>)
  with re assms(5) show ?thesis by (simp add: check_protect_def Let_def alloc_assert_def user_assert_def)
qed

section \<open>What the tests show\<close>

text \<open>C30: A thread that may allocate and finds the heap without any allocation passes every test of the
  heap: no assertion fails and no null pointer is used. Each test leaves the heap without
  allocations again, the memory outside the heap and the rest of the state as they were, and prints
  nothing, but for the first, whose output is as expected.\<close>

theorem alloc_tests_pass:
  assumes "may_allocate s" and "heap_ok (block_tags s)" and "allocs (block_tags s) = Map.empty"
  shows "passes (basic_types (kernel h others) s) (\<lambda>_. free_again s basic_types_output) \<and>
    (\<forall>test \<in> {large_alloc, fragmented, alloc_errors, realloc_more, realloc_less, realloc_free, realloc_fail}.
       passes (test (kernel h others) s) (\<lambda>_. free_again s []))"
proof -
  have "heap_at s [] (memory s) [] s"
    unfolding heap_at_def using assms by (auto simp: tags_are_def owned_by_def intro!: exI [of _ "block_tags s"])
  then show ?thesis
    by (simp add: basic_types_passes large_alloc_passes fragmented_passes alloc_errors_passes realloc_more_passes realloc_less_passes
        realloc_free_passes realloc_fail_passes)
qed

text \<open>C31: What one thread has allocated is out of reach of another: it can neither resize nor free it, nor
  is the place given to it by a new allocation, and all allocations are afterwards as they were. The
  test that tries all this passes.\<close>

theorem allocation_protected:
  assumes "may_allocate s" and "heap_ok (block_tags s)" and "allocs (block_tags s) i = Some (n, t)" and "t \<noteq> k_get_thread_id s"
    and "get_global (at_the_protected_alloc g) s = to_heap_ptr i s"
  shows "passes (check_protect (kernel h others) g s)
    (\<lambda>_ s'. \<exists>tags. s' = s\<lparr>block_tags := tags\<rparr> \<and> heap_ok tags \<and> allocs tags = allocs (block_tags s))"
  using check_protect_passes [OF assms] .

lemma demo_may_allocate: "may_allocate demo_state"
  by (simp add: may_allocate_def demo_heap_region tid16_def TPERM_ALLOC_def)

theorem alloc_tests_pass_witness: "passes (fragmented demo_sys demo_state) (\<lambda>_. free_again demo_state [])"
proof -
  have "allocs (block_tags demo_state) = Map.empty" by (rule ext) (simp add: allocs_def tag_at_def)
  with alloc_tests_pass [OF demo_may_allocate demo_heap_ok] show ?thesis by simp
qed

text \<open>Thread 1 with an allocation, and thread 0 that tries to get it; the global variable is at 24576.\<close>

definition demo_protected :: kstate where
  "demo_protected = set_global 0x6000 0x20000 (with_tags (claim_tags 0 2 1) demo_state)"

theorem allocation_protected_witness:
  "passes (check_protect demo_sys \<lparr>at_the_protected_alloc = 0x6000, at_freed_on_exit = 0, at_freed_on_cancel = 0, at_worker = \<lambda>_. 0\<rparr>
     demo_protected) (\<lambda>_ s'. allocs (block_tags s') = [0 \<mapsto> (2, 1)])"
proof -
  let ?T = "claim_tags 0 2 1 (block_tags demo_state)"
  have tags: "block_tags demo_protected = ?T" by (simp add: demo_protected_def set_global_def set_memory_def)
  have none: "allocs (block_tags demo_state) = Map.empty" by (rule ext) (simp add: allocs_def tag_at_def)
  have ok: "heap_ok ?T" by (rule heap_ok_claim [OF demo_heap_ok demo_free_run]) simp
  have al: "allocs ?T = [0 \<mapsto> (2, 1)]"
    using allocs_claim [OF demo_heap_ok demo_free_run, of 1] none by (simp add: tid16_def)
  have "may_allocate demo_protected"
    using demo_may_allocate
    by (simp add: may_allocate_def demo_protected_def set_global_def k_has_no_permission_def k_get_thread_id_def)
  moreover have "k_get_thread_id demo_protected = 0"
    by (simp add: demo_protected_def set_global_def k_get_thread_id_def)
  moreover have "get_global 0x6000 demo_protected = to_heap_ptr 0 demo_protected"
    by (simp add: get_global_def demo_protected_def set_global_def to_heap_ptr_def mem_simps)
  ultimately show ?thesis
    using ok al tags
    by (intro passes_mono [OF allocation_protected [of demo_protected 0 2 1]]) auto
qed

end
