(* ===== verification/Print_Demo.thy ===== *)
theory Print_Demo
  imports Programs
begin

text \<open>
  The demo of formatted output, \<open>src/demos/printthreadname/printthreadname.c\<close>: every text is printed,
  formatted into a buffer, and printed again from there. The texts the repository expects are in
  \<open>expected.log\<close> beside it.
\<close>

section \<open>The program\<close>

definition print_sprint :: "size_t \<Rightarrow> string \<Rightarrow> va_arg list \<Rightarrow> kstate \<Rightarrow> unit kresult" where
  "print_sprint buf fmt args s =
     obind (k_printf fmt args s) (\<lambda>_ s.
     (case sprintf fmt args of None \<Rightarrow> Undef
      | Some str \<Rightarrow> print_with ''%s'' buf (set_memory (store_bytes (memory s) buf (str_bytes str @ [0])) s)))"

fun print_sprints :: "size_t \<Rightarrow> (string \<times> va_arg list) list \<Rightarrow> kstate \<Rightarrow> unit kresult" where
  "print_sprints buf [] s = Ret () s"
| "print_sprints buf ((fmt, args) # items) s = obind (print_sprint buf fmt args s) (\<lambda>_ s. print_sprints buf items s)"

definition line :: "string \<Rightarrow> string" where "line str = str @ [CHR 0x0A]"

definition demo_text :: "string \<Rightarrow> va_arg" where "demo_text str = VStr (Some str)"

definition demo_num :: "int \<Rightarrow> va_arg" where "demo_num n = VNum (word_of_int n)"

definition unknown_formats :: string where "unknown_formats = line ''Unknown formats: %? %02? %*.5? %*.*?''"

definition known_formats :: "(string \<times> va_arg list) list" where
  "known_formats =
     [(line ''Signed numbers: %i %i %i %i %i'', map demo_num [- 2, - 1, 0, 1, 2]),
      (line ''Unsigned numbers: %u %u %u %u %u'', map demo_num [0, 1, 2, 3, 4]),
      (line ''Null string: %s'', [VStr None]),
      (line ''print %s: 0x%X 0x%x'', [demo_text ''hex'', demo_num 0xABAB, demo_num 0xBC]),
      (line ''Padding hex 0x%03x 0x%8x 0x%08X 0x%10x'', map demo_num [0x1234, 0xCDEF, 0xABCD, 0x3344]),
      (line ''Padding decimal %04i %2u %3i %10i'', map demo_num [- 23456, 3, - 4, - 12345]),
      (line ''String padding >%6s< >%02s< >%3s< >%*s< >%*s<'',
        [demo_text ''foo'', demo_text ''aardvark'', demo_text [], demo_num 4, demo_text ''11'', demo_num (- 1), demo_text ''bar'']),
      (line ''Strings with precision >%.2s< >%.*s< >%06.3s< >%*.*s< >%1.0s< >%.*s<'',
        [demo_text ''abcd'', demo_num 4, demo_text ''def'', demo_text ''ghijkl'', demo_num 4, demo_num 2, demo_text ''999'',
         demo_text ''66'', demo_num (- 1), demo_text ''abc''])]"

text \<open>Threads are added until there is no place left; the loop ends when the result is invalid.\<close>

partial_function (option) add_until_full :: "kernel_call \<Rightarrow> size_t \<Rightarrow> size_t \<Rightarrow> kstate \<Rightarrow> unit kresult option" where
  "add_until_full sys fp worker s =
     (case add_thread_from_worker sys fp worker s of
        Ret tid s \<Rightarrow> if tid \<noteq> INVALID_THREAD then add_until_full sys fp worker s else Some (Ret () s)
      | Exit n s \<Rightarrow> Some (Exit n s)
      | Undef \<Rightarrow> Some Undef)"

definition go_to_sleep :: "kernel_call \<Rightarrow> kstate \<Rightarrow> unit kresult" where
  "go_to_sleep sys s = thread_wait sys s"

definition add_sleeper :: "kernel_call \<Rightarrow> size_t \<Rightarrow> size_t \<Rightarrow> u32 \<Rightarrow> kstate \<Rightarrow> unit kresult" where
  "add_sleeper sys fp sleeper ln s =
     obind (add_thread_from_worker sys fp sleeper s) (\<lambda>tid s.
     user_assert sys (tid \<noteq> INVALID_THREAD) ''add_thread_from_worker(go_to_sleep) != INVALID_THREAD'' ''printthreadname.c'' ln ''setup'' s)"

text \<open>The buffer is a local variable; the frames of the functions called are below it.\<close>

definition setup_print :: "kernel_call \<Rightarrow> size_t \<Rightarrow> size_t \<Rightarrow> size_t \<Rightarrow> kstate \<Rightarrow> unit kresult option" where
  "setup_print sys fp sleeper work s =
     (let buf = fp + 32 in
      case obind (print_sprint buf (line ''%% printf/sprintf Demo %%'') [] s) (\<lambda>_ s.
           obind (print_sprint buf unknown_formats [] s) (\<lambda>_ s.
           obind (print_sprints buf known_formats s) (\<lambda>_ s.
           obind (add_sleeper sys fp sleeper 50 s) (\<lambda>_ s.
           obind (add_sleeper sys fp sleeper 51 s) (\<lambda>_ s.
           obind (k_printf (line ''Added 2 threads which are now sleeping.'') [] s) (\<lambda>_ s.
           add_named_thread sys fp work (b_literal (build s) ''name_that_gets_cut_off'') s)))))) of
        Ret _ s \<Rightarrow> add_until_full sys fp work s
      | Exit n s \<Rightarrow> Some (Exit n s)
      | Undef \<Rightarrow> Some Undef)"

section \<open>What it prints\<close>

lemma demo_digits:
  "uint_to_str 0 CHR ''u'' = ''0''" "uint_to_str 1 CHR ''u'' = ''1''" "uint_to_str 2 CHR ''u'' = ''2''"
  "uint_to_str 3 CHR ''u'' = ''3''" "uint_to_str 4 CHR ''u'' = ''4''" "uint_to_str 23456 CHR ''u'' = ''23456''"
  "uint_to_str 12345 CHR ''u'' = ''12345''" "uint_to_str 0xABAB CHR ''X'' = ''ABAB''" "uint_to_str 0xBC CHR ''x'' = ''bc''"
  "uint_to_str 0x1234 CHR ''x'' = ''1234''" "uint_to_str 0xCDEF CHR ''x'' = ''cdef''" "uint_to_str 0xABCD CHR ''X'' = ''ABCD''"
  "uint_to_str 0x3344 CHR ''x'' = ''3344''"
  by code_simp+

definition expected_lines :: "string list" where
  "expected_lines = map line
     [''Signed numbers: -2 -1 0 1 2'', ''Unsigned numbers: 0 1 2 3 4'', ''Null string: (null)'', ''print hex: 0xABAB 0xbc'',
      ''Padding hex 0x1234 0x0000cdef 0x0000ABCD 0x0000003344'', ''Padding decimal -23456 03 -004 -0000012345'',
      ''String padding >   foo< >aardvark< >   < >  11< >bar<'',
      ''Strings with precision >ab< >def< >   ghi< >  99< > < >abc<'']"

lemma formats_expected: "map (\<lambda>(fmt, args). sprintf fmt args) known_formats = map Some expected_lines"
  by (simp add: known_formats_def expected_lines_def sprintf_def format_defs line_def demo_num_def demo_text_def conv_int_def Let_def
      NUM_STR_SIZE_def demo_digits)
    (simp add: pad_def, simp add: eval_nat_numeral)

lemma unknown_formats_undefined: "sprintf unknown_formats [] = None"
  by (simp add: unknown_formats_def sprintf_def format_defs line_def)

lemma unat_of_char: "unat (of_char c :: byte) = of_char c"
proof -
  have "unat (of_nat (of_char c) :: byte) = take_bit 8 (of_char c :: nat)" by (simp add: unsigned_of_nat del: of_nat_of_char)
  also have "\<dots> = of_char c" by (simp add: take_bit_nat_eq_self_iff)
  finally show ?thesis by (simp only: of_nat_of_char)
qed

lemma str_bytes_cstr:
  assumes "CHR 0x00 \<notin> set str" and "length str < 2 ^ 32"
  shows "cstr (store_bytes m p (str_bytes str @ [0])) p (str_bytes str)"
proof -
  have "(0 :: byte) \<notin> set (str_bytes str)"
  proof
    assume "(0 :: byte) \<in> set (str_bytes str)"
    then obtain c where c: "c \<in> set str" "(of_char c :: byte) = 0" by (auto simp: str_bytes_def)
    have "unat (of_char c :: byte) = (of_char c :: nat)" by (simp add: unat_of_char)
    with c(2) have "(of_char c :: nat) = of_char (CHR 0x00)" by simp
    then have "c = CHR 0x00" by (simp only: of_char_eq_iff)
    with c(1) assms(1) show False by simp
  qed
  moreover have "Suc (length (str_bytes str)) = length (str_bytes str @ [0])" by simp
  then have "load_bytes (store_bytes m p (str_bytes str @ [0])) p (Suc (length (str_bytes str))) = str_bytes str @ [0]"
    using assms(2) by (intro load_store_bytes_same) (simp_all add: str_bytes_def)
  ultimately show ?thesis using assms(2) by (simp add: cstr_def str_bytes_def)
qed

lemma print_text: "k_printf ''%s'' [VStr (Some str)] s = Ret () (serial_print str s)"
  by (simp add: k_printf_def sprintf_def format_defs Let_def) (simp add: pad_def)

text \<open>A text that is formatted is printed twice, the second time from the buffer.\<close>

lemma print_sprint_twice:
  assumes "sprintf fmt args = Some str" and "CHR 0x00 \<notin> set str" and "length str < 2 ^ 32"
  shows "print_sprint buf fmt args s =
    Ret () (set_memory (store_bytes (memory s) buf (str_bytes str @ [0])) (serial_print (str @ str) s))"
proof -
  have same: "bytes_str (str_bytes str) = str"
  proof -
    have "char_of (unat (of_char c :: byte)) = c" for c :: char
    proof -
      show ?thesis by (simp add: unat_of_char)
    qed
    then show ?thesis by (simp add: bytes_str_def str_bytes_def comp_def map_idI)
  qed
  show ?thesis
    using assms read_string_cstr [OF str_bytes_cstr [OF assms(2,3), of "memory s" buf]] same
    by (simp add: print_sprint_def print_with_def k_printf_def [of fmt] print_text serial_print_def set_memory_def)
qed

definition fits_buffer :: "string \<Rightarrow> bool" where
  "fits_buffer str \<longleftrightarrow> CHR 0x00 \<notin> set str \<and> length str < 100"

lemma print_sprints_all:
  assumes "map (\<lambda>(fmt, args). sprintf fmt args) items = map Some strs" and "list_all fits_buffer strs"
  shows "\<exists>m. print_sprints buf items s = Ret () (set_memory m (serial_print (concat (map (\<lambda>l. l @ l) strs)) s)) \<and>
    (\<forall>x. x \<notin> region buf 100 \<longrightarrow> m x = memory s x)"
  using assms
proof (induction items arbitrary: strs s)
  case Nil
  then show ?case by (intro exI [of _ "memory s"]) (simp add: serial_print_def set_memory_def)
next
  case (Cons item items)
  obtain fmt args where item: "item = (fmt, args)" by (cases item)
  with Cons.prems obtain str strs' where strs: "strs = str # strs'" "sprintf fmt args = Some str" by (cases strs) auto
  have fit: "fits_buffer str" "list_all fits_buffer strs'" using Cons.prems(2) strs by simp_all
  let ?m = "store_bytes (memory s) buf (str_bytes str @ [0])"
  let ?s = "set_memory ?m (serial_print (str @ str) s)"
  have one: "print_sprint buf fmt args s = Ret () ?s"
    using fit(1) by (intro print_sprint_twice strs(2)) (simp_all add: fits_buffer_def)
  obtain m where m: "print_sprints buf items ?s = Ret () (set_memory m (serial_print (concat (map (\<lambda>l. l @ l) strs')) ?s))"
    "\<forall>x. x \<notin> region buf 100 \<longrightarrow> m x = memory ?s x"
    using Cons.IH [of strs' ?s] Cons.prems(1) strs item fit(2) by auto
  have "?m x = memory s x" if "x \<notin> region buf 100" for x
    using that fit(1) by (simp add: store_bytes_def region_def fits_buffer_def str_bytes_def)
  with m one show ?case
    by (intro exI [of _ m]) (simp add: item strs(1) serial_print_def set_memory_def)
qed

lemma expected_fit: "list_all fits_buffer expected_lines"
  by (simp add: expected_lines_def fits_buffer_def line_def)

text \<open>C32: The demo of formatted output prints every text twice, once directly and once from the buffer it
  was formatted into, exactly as the repository expects them for signed, unsigned and hexadecimal
  numbers, strings, paddings and precisions, also negative and null ones, and writes only to the
  buffer. But before it gets there its behaviour is undefined: the format with unknown conversions
  reads the padding from an argument that is not there.\<close>

theorem print_demo_output:
  "(\<exists>m. print_sprints buf known_formats s = Ret () (set_memory m (serial_print (concat (map (\<lambda>l. l @ l) expected_lines)) s)) \<and>
    (\<forall>x. x \<notin> region buf 100 \<longrightarrow> m x = memory s x)) \<and>
   setup_print sys fp sleeper work s = Some Undef"
proof -
  have first: "sprintf (line ''%% printf/sprintf Demo %%'') [] = Some (line ''% printf/sprintf Demo %'')"
    by (simp add: sprintf_def format_defs line_def)
  have "print_sprint (fp + 32) unknown_formats [] s' = Undef" for s'
    by (simp add: print_sprint_def k_printf_def unknown_formats_undefined)
  then have "setup_print sys fp sleeper work s = Some Undef"
    using print_sprint_twice [OF first, of "fp + 32" s] by (simp add: setup_print_def Let_def line_def)
  then show ?thesis using print_sprints_all [OF formats_expected expected_fit] by blast
qed

theorem print_demo_output_witness:
  "setup_print demo_sys 0x4000 0x8500 0x8510 demo_state = Some Undef \<and>
   (\<exists>m. print_sprints 0x4020 known_formats demo_state
     = Ret () (set_memory m (serial_print (concat (map (\<lambda>l. l @ l) expected_lines)) demo_state)))"
  by (intro conjI) (use print_demo_output in blast)+

end
