(* ===== verification/Exception_Entry.thy ===== *)
theory Exception_Entry
  imports Authority Fiber
begin

text \<open>
  The exception handlers of \<open>src/hw/arm_virt/yield.S\<close>, instruction by instruction: what the processor
  does when a thread makes a supervisor call or the timer interrupts it, how the handlers save its
  registers, call the kernel and resume the next thread. The theory \<open>Machine\<close> has the same events
  as steps of the kernel alone; the last section shows that the handlers refine them.
\<close>

section \<open>The processor\<close>

text \<open>
  The banks of the stack pointer, the link register and the saved status: system mode shares those of
  user mode. A register holds a word, or the address of a kernel object, which is not a word of the
  model: of the two pointer variables, or of a place in an entry of the thread table.
\<close>

datatype bank = Bank_usr | Bank_irq | Bank_svc

datatype val = W size_t | Current_ptr | Next_ptr | Thread_ptr nat size_t

datatype timer_reg = CNTP_CTL | CNTP_TVAL

record board =
  gpr :: "nat \<Rightarrow> val"
  sp_of :: "bank \<Rightarrow> size_t"
  lr_of :: "bank \<Rightarrow> size_t"
  spsr_of :: "bank \<Rightarrow> size_t"
  bank_now :: bank
  zero_flag :: bool
  cpsr_of :: size_t
  pc_at :: size_t
  timer_writes :: "(timer_reg \<times> size_t) list"
  kern :: kstate

datatype areg = Rn nat | Rsp | Rlr

fun read_reg :: "areg \<Rightarrow> board \<Rightarrow> val" where
  "read_reg (Rn n) b = gpr b n"
| "read_reg Rsp b = W (sp_of b (bank_now b))"
| "read_reg Rlr b = W (lr_of b (bank_now b))"

fun write_reg :: "areg \<Rightarrow> val \<Rightarrow> board \<Rightarrow> board option" where
  "write_reg (Rn n) v b = Some (b\<lparr>gpr := (gpr b)(n := v)\<rparr>)"
| "write_reg Rsp (W w) b = Some (b\<lparr>sp_of := (sp_of b)(bank_now b := w)\<rparr>)"
| "write_reg Rlr (W w) b = Some (b\<lparr>lr_of := (lr_of b)(bank_now b := w)\<rparr>)"
| "write_reg _ _ b = None"

fun as_word :: "val \<Rightarrow> size_t option" where
  "as_word (W w) = Some w"
| "as_word _ = None"

definition pointer_val :: "nat option \<Rightarrow> val" where
  "pointer_val t = (case t of None \<Rightarrow> W 0 | Some i \<Rightarrow> Thread_ptr i 0)"

text \<open>
  Loads and stores through an address. The stack pointer is the first field of a thread. \<open>None\<close> is an
  access the model has no value for.
\<close>

fun load_val :: "val \<Rightarrow> size_t \<Rightarrow> board \<Rightarrow> val option" where
  "load_val (W a) off b = Some (W (load32 (memory (kern b)) (a + off)))"
| "load_val Current_ptr off b = (if off = 0 then Some (pointer_val (current_thread (kern b))) else None)"
| "load_val Next_ptr off b = (if off = 0 then Some (pointer_val (next_thread (kern b))) else None)"
| "load_val (Thread_ptr i o') off b = (if o' + off = 0 then Some (W (t_stack_ptr (thread_at (kern b) i))) else None)"

fun as_pointer :: "val \<Rightarrow> nat option option" where
  "as_pointer (W w) = (if w = 0 then Some None else None)"
| "as_pointer (Thread_ptr i off) = (if off = 0 then Some (Some i) else None)"
| "as_pointer _ = None"

fun store_val :: "val \<Rightarrow> val \<Rightarrow> kstate \<Rightarrow> kstate option" where
  "store_val (W a) v k = map_option (\<lambda>w. set_memory (store32 (memory k) a w) k) (as_word v)"
| "store_val Current_ptr v k = map_option (\<lambda>t. k\<lparr>current_thread := t\<rparr>) (as_pointer v)"
| "store_val Next_ptr v k = map_option (\<lambda>t. k\<lparr>next_thread := t\<rparr>) (as_pointer v)"
| "store_val (Thread_ptr i off) v k =
     (if off = 0 then map_option (\<lambda>w. upd_thread i (\<lambda>t. t\<lparr>t_stack_ptr := w\<rparr>) k) (as_word v) else None)"

fun add_val :: "val \<Rightarrow> size_t \<Rightarrow> val option" where
  "add_val (W w) n = Some (W (w + n))"
| "add_val (Thread_ptr i off) n = Some (Thread_ptr i (off + n))"
| "add_val p n = (if n = 0 then Some p else None)"

section \<open>Instructions\<close>

text \<open>
  \<open>Mov\<close> also stands for loading a constant or the address of a variable; \<open>Ldr d b n\<close> is \<open>ldr d, [b, #n]\<close>,
  \<open>Str s b n\<close> is \<open>str s, [b], #n\<close>. \<open>Srsdb\<close> pushes the link register and the saved status of the
  current mode on the stack of another one, \<open>Rfeia\<close> pops both into program counter and status.
\<close>

datatype ainstr = Mov areg val | Ldr areg areg size_t | Str areg areg size_t | Add areg size_t | And_reg areg areg
  | Cmp areg areg | Push "areg list" | Pop "areg list" | Srsdb bank | Cps bank | Mcr timer_reg areg | Rfeia

fun put_regs :: "areg list \<Rightarrow> size_t list \<Rightarrow> board \<Rightarrow> board option" where
  "put_regs (r # rs) (w # ws) b = Option.bind (write_reg r (W w) b) (put_regs rs ws)"
| "put_regs _ _ b = Some b"

definition get_words :: "areg list \<Rightarrow> board \<Rightarrow> size_t list option" where
  "get_words rs b = those (map (\<lambda>r. as_word (read_reg r b)) rs)"

fun astep :: "ainstr \<Rightarrow> board \<Rightarrow> board option" where
  "astep (Mov d v) b = write_reg d v b"
| "astep (Ldr d a n) b = Option.bind (load_val (read_reg a b) n b) (\<lambda>v. write_reg d v b)"
| "astep (Str s a n) b =
     Option.bind (store_val (read_reg a b) (read_reg s b) (kern b)) (\<lambda>k.
     Option.bind (add_val (read_reg a b) n) (\<lambda>v. write_reg a v (b\<lparr>kern := k\<rparr>)))"
| "astep (Add r n) b = Option.bind (add_val (read_reg r b) n) (\<lambda>v. write_reg r v b)"
| "astep (And_reg d a) b =
     Option.bind (as_word (read_reg d b)) (\<lambda>x. Option.bind (as_word (read_reg a b)) (\<lambda>y. write_reg d (W (x AND y)) b))"
| "astep (Cmp x y) b = Some (b\<lparr>zero_flag := (read_reg x b = read_reg y b)\<rparr>)"
| "astep (Push rs) b =
     (let sp = sp_of b (bank_now b) - of_nat (4 * length rs) in
      map_option (\<lambda>ws. b\<lparr>kern := set_memory (store_words (memory (kern b)) sp ws) (kern b),
        sp_of := (sp_of b)(bank_now b := sp)\<rparr>) (get_words rs b))"
| "astep (Pop rs) b =
     (let sp = sp_of b (bank_now b) in
      put_regs rs (load_words (memory (kern b)) sp (length rs))
        (b\<lparr>sp_of := (sp_of b)(bank_now b := sp + of_nat (4 * length rs))\<rparr>))"
| "astep (Srsdb m) b =
     (let sp = sp_of b m - 8 in
      Some (b\<lparr>kern := set_memory (store_words (memory (kern b)) sp [lr_of b (bank_now b), spsr_of b (bank_now b)]) (kern b),
        sp_of := (sp_of b)(m := sp)\<rparr>))"
| "astep (Cps m) b = Some (b\<lparr>bank_now := m\<rparr>)"
| "astep (Mcr c r) b =
     map_option (\<lambda>w. b\<lparr>timer_writes := timer_writes b @ [(c, w)]\<rparr>) (as_word (read_reg r b))"
| "astep Rfeia b =
     (let sp = sp_of b (bank_now b); m = memory (kern b) in
      Some (b\<lparr>pc_at := load32 m sp, cpsr_of := load32 m (sp + 4), sp_of := (sp_of b)(bank_now b := sp + 8),
        bank_now := Bank_usr\<rparr>))"

type_synonym 'a bresult = "('a, board) outcome"

fun arun :: "ainstr list \<Rightarrow> board \<Rightarrow> unit bresult" where
  "arun [] b = Ret () b"
| "arun (i # is) b = (case astep i b of Some b \<Rightarrow> arun is b | None \<Rightarrow> Undef)"

section \<open>The macros\<close>

definition CURRENT_IN_R10_NEXT_IN_R11 :: "ainstr list" where
  "CURRENT_IN_R10_NEXT_IN_R11 = [Mov (Rn 10) Current_ptr, Mov (Rn 11) Next_ptr]"

definition NEXT_EQUAL_CURRENT :: "ainstr list" where
  "NEXT_EQUAL_CURRENT = [Mov (Rn 0) Next_ptr, Mov (Rn 1) Current_ptr, Ldr (Rn 1) (Rn 1) 0, Str (Rn 1) (Rn 0) 0]"

definition pushed_regs :: "areg list" where
  "pushed_regs = map Rn [0..<13] @ [Rlr]"

definition SAVE_CURRENT_THREAD :: "ainstr list" where
  "SAVE_CURRENT_THREAD =
     [Srsdb Bank_usr, Cps Bank_usr, Push pushed_regs] @ CURRENT_IN_R10_NEXT_IN_R11 @
     [Ldr (Rn 1) (Rn 10) 0, Str Rsp (Rn 1) 4]"

definition DISABLE_TIMER :: "ainstr list" where
  "DISABLE_TIMER = [Mov (Rn 0) (W 2), Mcr CNTP_CTL (Rn 0)]"

text \<open>
  A call of a function of the kernel leaves what it likes in the registers the caller has to save:
  \<open>junk\<close>, by number, 13 standing for the flags and 14 for the link register.
\<close>

definition after_call :: "(nat \<Rightarrow> size_t) \<Rightarrow> kstate \<Rightarrow> board \<Rightarrow> board" where
  "after_call junk k b = b\<lparr>kern := k, gpr := (\<lambda>n. if n \<in> {0, 1, 2, 3, 12} then W (junk n) else gpr b n),
     lr_of := (lr_of b)(Bank_svc := junk 14), zero_flag := (junk 13 = 0)\<rparr>"

definition CALL_KERNEL :: "(nat \<Rightarrow> size_t) \<Rightarrow> (kstate \<Rightarrow> unit kresult) \<Rightarrow> board \<Rightarrow> unit bresult" where
  "CALL_KERNEL junk f b =
     (let b = b\<lparr>bank_now := Bank_svc\<rparr> in
      case f (kern b) of Ret _ k \<Rightarrow> Ret () (after_call junk k b) | Exit n k \<Rightarrow> Exit n (b\<lparr>kern := k\<rparr>) | Undef \<Rightarrow> Undef)"

section \<open>The handlers\<close>

definition actually_load_thread :: "ainstr list" where
  "actually_load_thread =
     [Cps Bank_usr, Str (Rn 4) (Rn 10) 0, Mov (Rn 5) (W 0), Str (Rn 5) (Rn 11) 0, Ldr (Rn 10) (Rn 10) 0,
      Ldr Rsp (Rn 10) 0, Pop pushed_regs, Rfeia]"

definition check_next :: "ainstr list" where
  "check_next = CURRENT_IN_R10_NEXT_IN_R11 @ [Ldr (Rn 0) (Rn 11) 0, Mov (Rn 1) (W 0), Cmp (Rn 0) (Rn 1), Ldr (Rn 4) (Rn 11) 0]"

definition load_next_thread_asm :: "(nat \<Rightarrow> size_t) \<Rightarrow> board \<Rightarrow> unit bresult" where
  "load_next_thread_asm junk b =
     obind (arun check_next b) (\<lambda>_ b.
     obind (if \<not> zero_flag b then Ret () b
            else obind (CALL_KERNEL junk do_scheduler b) (\<lambda>_ b. arun [Ldr (Rn 4) (Rn 11) 0] b)) (\<lambda>_ b.
     arun actually_load_thread b))"

definition timer_entry :: "ainstr list" where
  "timer_entry = [Add Rlr (- 4), Srsdb Bank_svc, Cps Bank_svc, Pop [Rlr], Add Rsp 4] @ SAVE_CURRENT_THREAD @
     DISABLE_TIMER @ [Mov (Rn 0) (W 0), Mov (Rn 1) Next_ptr, Str (Rn 0) (Rn 1) 0]"

definition handle_timer :: "(nat \<Rightarrow> size_t) \<Rightarrow> board \<Rightarrow> unit bresult" where
  "handle_timer junk b =
     obind (arun timer_entry b) (\<lambda>_ b. load_next_thread_asm junk b)"

text \<open>\<open>CHECK_SVC\<close> compares the number of the call and branches; \<open>finalise_timer\<close> follows both timer calls.\<close>

definition svc_is :: "size_t \<Rightarrow> board \<Rightarrow> bool bresult" where
  "svc_is code b = obind (arun [Mov (Rn 1) (W code), Cmp (Rn 0) (Rn 1)] b) (\<lambda>_ b. Ret (zero_flag b) b)"

definition svc_thread_switch :: size_t where "svc_thread_switch = 0"
definition svc_enable_timer :: size_t where "svc_enable_timer = 1"
definition svc_disable_timer :: size_t where "svc_disable_timer = 2"
definition svc_syscall :: size_t where "svc_syscall = 21"

definition generic_syscall_asm :: "(nat \<Rightarrow> size_t) \<Rightarrow> (nat \<Rightarrow> size_t) \<Rightarrow> host \<Rightarrow> board \<Rightarrow> unit bresult" where
  "generic_syscall_asm junk1 junk2 h b = obind (CALL_KERNEL junk1 (k_handle_syscall h) b) (\<lambda>_ b. load_next_thread_asm junk2 b)"

definition finalise_timer :: "(nat \<Rightarrow> size_t) \<Rightarrow> board \<Rightarrow> unit bresult" where
  "finalise_timer junk b = obind (arun NEXT_EQUAL_CURRENT b) (\<lambda>_ b. load_next_thread_asm junk b)"

definition enable_timer_asm :: "(nat \<Rightarrow> size_t) \<Rightarrow> board \<Rightarrow> unit bresult" where
  "enable_timer_asm junk b =
     obind (arun [Mov (Rn 0) (W 1000), Mcr CNTP_TVAL (Rn 0), Mov (Rn 0) (W 1), Mcr CNTP_CTL (Rn 0)] b)
       (\<lambda>_ b. finalise_timer junk b)"

definition disable_timer_asm :: "(nat \<Rightarrow> size_t) \<Rightarrow> board \<Rightarrow> unit bresult" where
  "disable_timer_asm junk b = obind (arun DISABLE_TIMER b) (\<lambda>_ b. finalise_timer junk b)"

definition svc_entry :: "ainstr list" where
  "svc_entry = SAVE_CURRENT_THREAD @ [Cps Bank_usr, Ldr (Rn 0) Rsp 56, Add (Rn 0) (- 4), Ldr (Rn 0) (Rn 0) 0,
     Mov (Rn 1) (W 0xFFFFFF), And_reg (Rn 0) (Rn 1)]"

text \<open>An unknown number stays in a loop for ever, the result \<open>None\<close>.\<close>

definition handle_exception ::
  "(nat \<Rightarrow> size_t) \<Rightarrow> (nat \<Rightarrow> size_t) \<Rightarrow> host \<Rightarrow> board \<Rightarrow> unit bresult option" where
  "handle_exception junk1 junk2 h b =
     (case arun svc_entry b of
        Ret _ b \<Rightarrow>
          (case svc_is svc_thread_switch b of Ret y b \<Rightarrow> if y then Some (load_next_thread_asm junk2 b) else
          (case svc_is svc_disable_timer b of Ret y b \<Rightarrow> if y then Some (disable_timer_asm junk2 b) else
          (case svc_is svc_enable_timer b of Ret y b \<Rightarrow> if y then Some (enable_timer_asm junk2 b) else
          (case svc_is svc_syscall b of Ret y b \<Rightarrow> if y then Some (generic_syscall_asm junk1 junk2 h b) else None
           | _ \<Rightarrow> Some Undef) | _ \<Rightarrow> Some Undef) | _ \<Rightarrow> Some Undef) | _ \<Rightarrow> Some Undef)
      | Exit n b \<Rightarrow> Some (Exit n b)
      | Undef \<Rightarrow> Some Undef)"

section \<open>What the processor does at an exception\<close>

text \<open>
  A supervisor call: the link register of supervisor mode gets the address behind the instruction, the
  saved status the current one. An interrupt: the link register of interrupt mode gets the address of
  the next instruction plus four. Both banks keep their values until the next exception of their kind.
\<close>

definition take_svc :: "board \<Rightarrow> board" where
  "take_svc b = b\<lparr>lr_of := (lr_of b)(Bank_svc := pc_at b), spsr_of := (spsr_of b)(Bank_svc := cpsr_of b), bank_now := Bank_svc\<rparr>"

definition take_irq :: "board \<Rightarrow> board" where
  "take_irq b = b\<lparr>lr_of := (lr_of b)(Bank_irq := pc_at b + 4), spsr_of := (spsr_of b)(Bank_irq := cpsr_of b), bank_now := Bank_irq\<rparr>"

section \<open>Sequences of instructions\<close>

lemma arun_append: "arun (is @ js) b = obind (arun is b) (\<lambda>_ b. arun js b)"
  by (induction "is" arbitrary: b) (auto split: option.split)

text \<open>The registers a context holds, in the order of the structure \<open>RegisterContext\<close>.\<close>

definition all_words :: "board \<Rightarrow> bool" where
  "all_words b \<longleftrightarrow> (\<forall>n < 13. as_word (gpr b n) \<noteq> None)"

definition general_words :: "board \<Rightarrow> size_t list" where
  "general_words b = map (\<lambda>n. the (as_word (gpr b n))) [0..<13] @ [lr_of b Bank_usr]"

definition user_regs :: "board \<Rightarrow> size_t list" where
  "user_regs b = general_words b @ [pc_at b, cpsr_of b]"

definition context_bytes :: "size_t list \<Rightarrow> byte list" where
  "context_bytes ws = concat (map bytes32 ws)"

lemma length_general_words [simp]: "length (general_words b) = 14" "length (user_regs b) = 16"
  by (simp_all add: general_words_def user_regs_def)

lemma those_all: "(\<And>x. x \<in> set xs \<Longrightarrow> f x \<noteq> None) \<Longrightarrow> those (map f xs) = Some (map (\<lambda>x. the (f x)) xs)"
proof (induction xs)
  case (Cons a xs)
  then obtain y where "f a = Some y" by fastforce
  with Cons show ?case by simp
qed simp

lemma get_pushed:
  assumes "all_words b" and "bank_now b = Bank_usr"
  shows "get_words pushed_regs b = Some (general_words b)"
  unfolding get_words_def
  by (subst those_all) (use assms in \<open>auto simp: pushed_regs_def all_words_def general_words_def\<close>)

lemma put_gprs:
  assumes "distinct ns" and "length ws = length ns"
  shows "put_regs (map Rn ns @ rs) (ws @ us) (b\<lparr>gpr := g\<rparr>) =
    put_regs rs us (b\<lparr>gpr := (\<lambda>n. case map_of (zip ns ws) n of None \<Rightarrow> g n | Some w \<Rightarrow> W w)\<rparr>)"
  using assms
proof (induction ns arbitrary: ws g)
  case (Cons q ns)
  then obtain w ws' where ws: "ws = w # ws'" by (cases ws) auto
  have "map_of (zip ns ws') q = None" using Cons.prems ws by (simp add: map_of_zip_is_None)
  then have "(\<lambda>n. case map_of (zip ns ws') n of None \<Rightarrow> (g(q := W w)) n | Some w \<Rightarrow> W w) =
      (\<lambda>n. case map_of (zip (q # ns) ws) n of None \<Rightarrow> g n | Some w \<Rightarrow> W w)"
    using ws by (auto simp: fun_eq_iff split: option.split)
  then show ?case using Cons.IH [of ws' "g(q := W w)"] Cons.prems ws by (simp add: fun_upd_def)
qed simp

lemma put_pushed:
  assumes "length ws = 14" and "bank_now b = Bank_usr"
  shows "\<exists>g. put_regs pushed_regs ws b = Some (b\<lparr>gpr := g, lr_of := (lr_of b)(Bank_usr := ws ! 13)\<rparr>) \<and>
    (\<forall>n < 13. g n = W (ws ! n))"
proof -
  obtain vs v where ws: "ws = vs @ [v]" "length vs = 13"
    using assms(1) by (cases ws rule: rev_cases) auto
  let ?g = "\<lambda>n. case map_of (zip [0..<13] vs) n of None \<Rightarrow> gpr b n | Some w \<Rightarrow> W w"
  have "?g n = W (ws ! n)" if "n < 13" for n
    using that map_of_zip_nth [of "[0..<13]" vs n] ws by (simp add: nth_append)
  moreover have "put_regs pushed_regs ws b = Some (b\<lparr>gpr := ?g, lr_of := (lr_of b)(Bank_usr := ws ! 13)\<rparr>)"
    unfolding pushed_regs_def ws(1) using ws(2) assms(2) put_gprs [where ns = "[0..<13]" and ws = vs and rs = "[Rlr]" and us = "[v]" and b = b and g = "gpr b"] by (simp add: nth_append)
  ultimately show ?thesis by blast
qed

section \<open>Saving a thread\<close>

lemma store_words_below:
  assumes "4 * (length ws + length us) < 2 ^ 32" and "ws \<noteq> []" and "us \<noteq> []"
  shows "store_words (store_words m a us) (a - of_nat (4 * length ws)) ws = store_words m (a - of_nat (4 * length ws)) (ws @ us)"
proof -
  let ?b = "a - of_nat (4 * length ws)"
  have "store_words (store_words m ?b ws) a us = store_words m ?b (ws @ us)"
    using store_words_append [of ws us m ?b] assms by simp
  moreover have "apart (?b + of_nat 0) (4 * length ws) (?b + of_nat (4 * length ws)) (4 * length us)"
    using assms by (intro apart_offsets) auto
  then have "apart ?b (4 * length ws) a (4 * length us)" by simp
  then have "store_words (store_words m a us) ?b ws = store_words (store_words m ?b ws) a us"
    unfolding store_words_def by (intro store_bytes_commute) simp
  ultimately show ?thesis by simp
qed

lemma store_context_below:
  assumes "length ws = 14" and "length us = 2"
  shows "store_words (store_words m (a - 8) us) (a - 64) ws = store_words m (a - 64) (ws @ us)"
proof -
  have "ws \<noteq> []" "us \<noteq> []" using assms by auto
  then show ?thesis using store_words_below [of ws us m "a - 8"] assms by (simp add: diff_diff_eq)
qed

lemma save_runs:
  assumes "all_words b" and "bank_now b \<noteq> Bank_usr" and "current_thread (kern b) = Some c"
  shows "arun SAVE_CURRENT_THREAD b =
    Ret () (b\<lparr>kern := save_current_thread (sp_of b Bank_usr - 64)
                (context_bytes (general_words b @ [lr_of b (bank_now b), spsr_of b (bank_now b)])) (kern b),
      sp_of := (sp_of b)(Bank_usr := sp_of b Bank_usr - 64), bank_now := Bank_usr,
      gpr := (gpr b)(10 := Current_ptr, 11 := Next_ptr, 1 := Thread_ptr c 4)\<rparr>)"
proof -
  define b1 where "b1 = b\<lparr>kern := set_memory (store_words (memory (kern b)) (sp_of b Bank_usr - 8)
      [lr_of b (bank_now b), spsr_of b (bank_now b)]) (kern b),
    sp_of := (sp_of b)(Bank_usr := sp_of b Bank_usr - 8), bank_now := Bank_usr\<rparr>"
  have "get_words pushed_regs b1 = Some (general_words b1)"
    using assms(1) by (intro get_pushed) (simp_all add: b1_def all_words_def)
  then have w: "get_words pushed_regs b1 = Some (general_words b)" by (simp add: b1_def general_words_def)
  have "length pushed_regs = 14" by (simp add: pushed_regs_def)
  then have "arun SAVE_CURRENT_THREAD b = arun (CURRENT_IN_R10_NEXT_IN_R11 @ [Ldr (Rn 1) (Rn 10) 0, Str Rsp (Rn 1) 4])
     (b1\<lparr>kern := set_memory (store_words (memory (kern b1)) (sp_of b Bank_usr - 64) (general_words b)) (kern b1),
        sp_of := (sp_of b1)(Bank_usr := sp_of b Bank_usr - 64)\<rparr>)"
    using w by (simp add: SAVE_CURRENT_THREAD_def Let_def b1_def diff_diff_eq)
  also have "\<dots> = Ret () (b\<lparr>kern := save_current_thread (sp_of b Bank_usr - 64)
                (context_bytes (general_words b @ [lr_of b (bank_now b), spsr_of b (bank_now b)])) (kern b),
      sp_of := (sp_of b)(Bank_usr := sp_of b Bank_usr - 64), bank_now := Bank_usr,
      gpr := (gpr b)(10 := Current_ptr, 11 := Next_ptr, 1 := Thread_ptr c 4)\<rparr>)"
    using assms(3)
    by (simp add: CURRENT_IN_R10_NEXT_IN_R11_def b1_def pointer_val_def store_context_below save_current_thread_def context_bytes_def
        store_words_def [of _ _ "general_words b @ _"] set_memory_def upd_thread_def fun_upd_twist)
  finally show ?thesis .
qed

section \<open>Resuming a thread\<close>

text \<open>
  What the board holds when a thread goes on in the kernel state \<open>k\<close>: the context at its saved stack
  pointer in the registers, and the stack pointer behind it.
\<close>

definition resumes :: "board \<Rightarrow> kstate \<Rightarrow> bool" where
  "resumes b k \<longleftrightarrow> kern b = k \<and> bank_now b = Bank_usr \<and> all_words b \<and>
     (case current_thread k of None \<Rightarrow> False
      | Some c \<Rightarrow> user_regs b = load_words (memory k) (t_stack_ptr (thread_at k c)) 16 \<and>
          sp_of b Bank_usr = t_stack_ptr (thread_at k c) + 64)"

lemma load_words_add: "load_words m a (n + k) = load_words m a n @ load_words m (a + of_nat (4 * n)) k"
  by (induction n arbitrary: a) (simp_all add: load_words_def [of _ _ 0] load_words_Suc algebra_simps)

lemma actually_load_resumes:
  assumes "gpr b 4 = Thread_ptr n 0" and "gpr b 10 = Current_ptr" and "gpr b 11 = Next_ptr"
  shows "\<exists>b'. arun actually_load_thread b = Ret () b' \<and>
    resumes b' ((kern b)\<lparr>current_thread := Some n, next_thread := None\<rparr>) \<and> spsr_of b' = spsr_of b"
proof -
  let ?k = "(kern b)\<lparr>current_thread := Some n, next_thread := None\<rparr>"
  let ?sp = "t_stack_ptr (thread_at ?k n)"
  define b1 where "b1 = b\<lparr>bank_now := Bank_usr, kern := ?k, gpr := (gpr b)(5 := W 0, 11 := Next_ptr, 10 := Thread_ptr n 0),
    sp_of := (sp_of b)(Bank_usr := ?sp + 56)\<rparr>"
  let ?ws = "load_words (memory ?k) ?sp 14"
  have len: "length pushed_regs = 14" by (simp add: pushed_regs_def)
  obtain g where g: "put_regs pushed_regs ?ws b1 = Some (b1\<lparr>gpr := g, lr_of := (lr_of b1)(Bank_usr := ?ws ! 13)\<rparr>)"
      "\<forall>i < 13. g i = W (?ws ! i)"
    using put_pushed [of ?ws b1] by (auto simp: b1_def)
  define b' where "b' = b1\<lparr>gpr := g, lr_of := (lr_of b1)(Bank_usr := ?ws ! 13), pc_at := load32 (memory ?k) (?sp + 56),
    cpsr_of := load32 (memory ?k) (?sp + 56 + 4), sp_of := (sp_of b)(Bank_usr := ?sp + 64)\<rparr>"
  have "arun actually_load_thread b = Ret () b'"
    using assms g(1) len
    by (simp add: actually_load_thread_def pointer_val_def Let_def b1_def b'_def add.assoc fun_upd_twist)
  moreover have "general_words b' = ?ws"
  proof (rule nth_equalityI)
    fix i assume "i < length (general_words b')"
    then have "i < 13 \<or> i = 13" by auto
    then show "general_words b' ! i = ?ws ! i"
      using g(2) by (auto simp: general_words_def b'_def nth_append)
  qed simp
  then have "user_regs b' = load_words (memory ?k) ?sp 16"
    using load_words_add [of "memory ?k" ?sp 14 2]
    by (simp add: user_regs_def b'_def load_words_Suc numeral_2_eq_2 add.assoc) (simp add: load_words_def)
  then have "resumes b' ?k"
    using g(2) by (simp add: resumes_def b'_def b1_def all_words_def)
  ultimately show ?thesis by (intro exI [of _ b']) (simp add: b'_def b1_def)
qed

text \<open>A result of a handler follows one of the kernel.\<close>

definition follows :: "unit bresult \<Rightarrow> unit kresult \<Rightarrow> bool" where
  "follows r a \<longleftrightarrow>
     (case a of Ret _ k \<Rightarrow> (\<exists>b. r = Ret () b \<and> resumes b k)
      | Exit n k \<Rightarrow> (\<exists>b. r = Exit n b \<and> kern b = k)
      | Undef \<Rightarrow> r = Undef)"

lemma load_next_follows:
  assumes "ret_state (load_next_thread (kern b)) (\<lambda>k. current_thread k \<noteq> None)"
  shows "follows (load_next_thread_asm junk b) (load_next_thread (kern b))"
proof -
  define b1 where "b1 = b\<lparr>gpr := (gpr b)(10 := Current_ptr, 11 := Next_ptr, 0 := pointer_val (next_thread (kern b)),
    1 := W 0, 4 := pointer_val (next_thread (kern b))), zero_flag := (next_thread (kern b) = None)\<rparr>"
  have first: "arun check_next b = Ret () b1"
    by (simp add: check_next_def CURRENT_IN_R10_NEXT_IN_R11_def b1_def pointer_val_def fun_upd_twist split: option.split)
  show ?thesis
  proof (cases "next_thread (kern b)")
    case (Some n)
    then have "gpr b1 4 = Thread_ptr n 0" "gpr b1 10 = Current_ptr" "gpr b1 11 = Next_ptr" "\<not> zero_flag b1" "kern b1 = kern b"
      by (simp_all add: b1_def pointer_val_def)
    then show ?thesis
      using actually_load_resumes [of b1 n] Some
      by (auto simp: load_next_thread_asm_def first follows_def load_next_thread_def)
  next
    case None
    let ?b = "b1\<lparr>bank_now := Bank_svc\<rparr>"
    show ?thesis
    proof (cases "do_scheduler (kern b)")
      case (Ret u k)
      then obtain n where n: "next_thread k = Some n"
        using assms None by (auto simp: load_next_thread_def)
      define b2 where "b2 = (after_call junk k ?b)\<lparr>gpr := (gpr (after_call junk k ?b))(4 := Thread_ptr n 0)\<rparr>"
      have b2: "gpr b2 4 = Thread_ptr n 0" "gpr b2 10 = Current_ptr" "gpr b2 11 = Next_ptr" "kern b2 = k"
        by (simp_all add: b2_def after_call_def b1_def)
      have "load_next_thread_asm junk b = arun actually_load_thread b2"
        using None Ret n
        by (simp add: load_next_thread_asm_def first CALL_KERNEL_def b1_def after_call_def b2_def pointer_val_def)
      then show ?thesis
        using actually_load_resumes [OF b2(1-3)] b2(4) None Ret n
        by (auto simp: follows_def load_next_thread_def)
    next
      case (Exit m k)
      then show ?thesis using None
        by (simp add: load_next_thread_asm_def first CALL_KERNEL_def b1_def follows_def load_next_thread_def)
    next
      case Undef
      then show ?thesis using None
        by (simp add: load_next_thread_asm_def first CALL_KERNEL_def b1_def follows_def load_next_thread_def)
    qed
  qed
qed

lemma load_next_from:
  assumes "kern b = k" and "ret_state (load_next_thread k) (\<lambda>k. current_thread k \<noteq> None)"
  shows "follows (load_next_thread_asm junk b) (load_next_thread k)"
  using load_next_follows [of b junk] assms by (simp only: assms(1))

section \<open>The handlers refine the events of the machine\<close>

definition in_user :: "board \<Rightarrow> bool" where
  "in_user b \<longleftrightarrow> bank_now b = Bank_usr \<and> all_words b"

definition save_place :: "board \<Rightarrow> size_t" where
  "save_place b = sp_of b Bank_usr - 64"

text \<open>The number of a supervisor call is in its instruction, and selects the event.\<close>

definition call_number :: "board \<Rightarrow> size_t" where
  "call_number b =
     load32 (memory (save_current_thread (save_place b) (context_bytes (user_regs b)) (kern b))) (pc_at b - 4) AND 0xFFFFFF"

definition event_of :: "size_t \<Rightarrow> size_t \<Rightarrow> byte list \<Rightarrow> event option" where
  "event_of code sp ctx =
     (if code = svc_thread_switch then Some (ev_thread_switch sp ctx)
      else if code \<in> {svc_enable_timer, svc_disable_timer} then Some (ev_timer_control sp ctx)
      else if code = svc_syscall then Some (ev_syscall sp ctx)
      else None)"

text \<open>What an interrupted thread leaves: the status word is that of the last supervisor call.\<close>

definition interrupt_regs :: "board \<Rightarrow> size_t list" where
  "interrupt_regs b = general_words b @ [pc_at b, spsr_of b Bank_svc]"

text \<open>The two words that the dance between the modes leaves behind on the stack of the kernel.\<close>

definition dance :: "board \<Rightarrow> kstate" where
  "dance b = set_memory (store_words (memory (kern b)) (sp_of b Bank_svc - 8) [pc_at b, cpsr_of b]) (kern b)"

lemma user_mode_set_memory: "user_mode s \<Longrightarrow> user_mode (set_memory m s)"
  using sane_cong [of "set_memory m s" s] by (simp add: user_mode_entered entered_def)

lemma next_current_follows:
  assumes "user_mode (save_current_thread sp ctx k)" and "kern b = save_current_thread sp ctx k"
    and "bank_now b = Bank_usr"
  shows "follows (finalise_timer junk b) (handle_event h (ev_timer_control sp ctx) k)"
proof -
  let ?k = "save_current_thread sp ctx k"
  obtain c where c: "current_thread ?k = Some c" using assms(1) by (auto simp: user_mode_def)
  have run: "arun NEXT_EQUAL_CURRENT b = Ret () (b\<lparr>kern := (kern b)\<lparr>next_thread := Some c\<rparr>,
      gpr := (gpr b)(1 := Thread_ptr c 0, 0 := Next_ptr)\<rparr>)"
    using assms(2) c by (simp add: NEXT_EQUAL_CURRENT_def pointer_val_def)
  have "ret_state (load_next_thread (?k\<lparr>next_thread := Some c\<rparr>)) (\<lambda>k. current_thread k \<noteq> None)"
    by (simp add: load_next_thread_def)
  then have "follows (load_next_thread_asm junk (b\<lparr>kern := (kern b)\<lparr>next_thread := Some c\<rparr>,
      gpr := (gpr b)(1 := Thread_ptr c 0, 0 := Next_ptr)\<rparr>)) (load_next_thread (?k\<lparr>next_thread := Some c\<rparr>))"
    using assms(2) by (intro load_next_from) simp_all
  moreover have "current_thread k = Some c" using c by (auto simp: save_current_thread_def split: option.splits)
  ultimately show ?thesis by (simp add: finalise_timer_def run assms(2))
qed

lemma has_current: "ret_state m user_mode \<Longrightarrow> ret_state m (\<lambda>k. current_thread k \<noteq> None)"
  by (auto simp: ret_state_iff user_mode_def)

lemma save_user_mode: "user_mode k \<Longrightarrow> user_mode (save_current_thread sp ctx k)"
  using save_entered [of k sp ctx] by (simp add: user_mode_entered)

lemma switch_follows:
  assumes "user_mode k" and "kern b = save_current_thread sp ctx k"
  shows "follows (load_next_thread_asm junk b) (handle_event h (ev_thread_switch sp ctx) k)"
  using load_next_follows [of b junk] has_current [OF handle_event_user_mode [OF assms(1), of h "ev_thread_switch sp ctx"]] assms(2)
  by simp

lemma generic_follows:
  assumes "user_mode k" and "kern b = save_current_thread sp ctx k"
  shows "follows (generic_syscall_asm junk1 junk2 h b) (handle_event h (ev_syscall sp ctx) k)"
proof (cases "k_handle_syscall h (kern b)")
  case (Ret u k')
  let ?b = "after_call junk1 k' (b\<lparr>bank_now := Bank_svc\<rparr>)"
  have "ret_state (load_next_thread k') user_mode"
    using handle_event_user_mode [OF assms(1), of h "ev_syscall sp ctx"] Ret assms(2) by simp
  moreover have "kern ?b = k'" by (simp add: after_call_def)
  ultimately have "follows (load_next_thread_asm junk2 ?b) (load_next_thread k')"
    by (intro load_next_from has_current)
  then show ?thesis using Ret assms(2) by (simp add: generic_syscall_asm_def CALL_KERNEL_def)
next
  case (Exit n k')
  then show ?thesis using assms(2) by (simp add: generic_syscall_asm_def CALL_KERNEL_def follows_def)
next
  case Undef
  then show ?thesis using assms(2) by (simp add: generic_syscall_asm_def CALL_KERNEL_def follows_def)
qed

lemma timer_call_follows:
  assumes "user_mode k" and "kern b = save_current_thread sp ctx k" and "bank_now b = Bank_usr"
  shows "follows (enable_timer_asm junk b) (handle_event h (ev_timer_control sp ctx) k)"
    and "follows (disable_timer_asm junk b) (handle_event h (ev_timer_control sp ctx) k)"
proof -
  have "follows (finalise_timer junk b') (handle_event h (ev_timer_control sp ctx) k)"
    if "kern b' = kern b" "bank_now b' = bank_now b" for b'
    using next_current_follows [OF save_user_mode [OF assms(1)]] assms that by simp
  then show "follows (enable_timer_asm junk b) (handle_event h (ev_timer_control sp ctx) k)"
    "follows (disable_timer_asm junk b) (handle_event h (ev_timer_control sp ctx) k)"
    by (simp_all add: enable_timer_asm_def disable_timer_asm_def DISABLE_TIMER_def)
qed

lemma svc_is_compares:
  "svc_is code b = Ret (gpr b 0 = W code) (b\<lparr>gpr := (gpr b)(1 := W code), zero_flag := (gpr b 0 = W code)\<rparr>)"
  by (simp add: svc_is_def)

lemma exception_saves:
  fixes b :: board
  defines "k \<equiv> save_current_thread (save_place b) (context_bytes (user_regs b)) (kern b)"
  assumes "in_user b" and "current_thread (kern b) = Some c"
  shows "\<exists>b1. arun svc_entry (take_svc b) = Ret () b1 \<and>
    kern b1 = k \<and> bank_now b1 = Bank_usr \<and> gpr b1 0 = W (call_number b)"
proof -
  have w: "all_words (take_svc b)" "general_words (take_svc b) = general_words b"
    using assms(2) by (simp_all add: in_user_def all_words_def take_svc_def general_words_def)
  have save: "arun SAVE_CURRENT_THREAD (take_svc b) = Ret () ((take_svc b)\<lparr>kern := k,
      sp_of := (sp_of b)(Bank_usr := save_place b), bank_now := Bank_usr,
      gpr := (gpr b)(10 := Current_ptr, 11 := Next_ptr, 1 := Thread_ptr c 4)\<rparr>)"
    using save_runs [OF w(1), of c] assms(3) w(2)
    by (simp add: take_svc_def save_place_def user_regs_def k_def)
  have "load32 (memory k) (save_place b + 56) = pc_at b"
  proof -
    have "memory k = store_words (memory (kern b)) (save_place b) (user_regs b)"
      using assms(3) by (simp add: k_def save_current_thread_def context_bytes_def store_words_def)
    then have "load_words (memory k) (save_place b) 16 = user_regs b" by (simp add: load_store_words)
    then have "load_words (memory k) (save_place b) 16 ! 14 = user_regs b ! 14" by simp
    then show ?thesis by (simp add: load_words_def user_regs_def nth_append)
  qed
  then show ?thesis
    using save by (simp add: svc_entry_def arun_append call_number_def k_def [symmetric])
qed

lemma svc_follows:
  assumes "user_mode (kern b)" and "in_user b"
  shows "case event_of (call_number b) (save_place b) (context_bytes (user_regs b)) of
      None \<Rightarrow> handle_exception junk1 junk2 h (take_svc b) = None
    | Some ev \<Rightarrow> \<exists>r. handle_exception junk1 junk2 h (take_svc b) = Some r \<and> follows r (handle_event h ev (kern b))"
proof -
  obtain c where c: "current_thread (kern b) = Some c" using assms(1) by (auto simp: user_mode_def)
  let ?sp = "save_place b" and ?ctx = "context_bytes (user_regs b)"
  obtain b1 where b1: "arun svc_entry (take_svc b) = Ret () b1"
      "kern b1 = save_current_thread ?sp ?ctx (kern b)" "bank_now b1 = Bank_usr" "gpr b1 0 = W (call_number b)"
    using exception_saves [OF assms(2) c] by blast
  have k: "kern (b1\<lparr>gpr := g, zero_flag := z\<rparr>) = save_current_thread ?sp ?ctx (kern b)"
      "bank_now (b1\<lparr>gpr := g, zero_flag := z\<rparr>) = Bank_usr" for g z
    using b1 by simp_all
  note F = switch_follows [OF assms(1) k(1)] timer_call_follows [OF assms(1) k] generic_follows [OF assms(1) k(1)]
  have "call_number b = svc_thread_switch \<or> call_number b = svc_disable_timer \<or> call_number b = svc_enable_timer \<or>
      call_number b = svc_syscall \<or> event_of (call_number b) ?sp ?ctx = None"
    by (auto simp: event_of_def)
  then show ?thesis
    using F b1(4)
    by (elim disjE) (simp_all add: handle_exception_def b1(1) svc_is_compares event_of_def svc_thread_switch_def
        svc_enable_timer_def svc_disable_timer_def svc_syscall_def split: if_splits)
qed

lemma interrupt_saves:
  fixes b :: board
  defines "k \<equiv> save_current_thread (save_place b) (context_bytes (interrupt_regs b)) (dance b)"
  assumes "in_user b" and "current_thread (kern b) = Some c"
  shows "\<exists>b1. arun timer_entry (take_irq b) = Ret () b1 \<and> kern b1 = k\<lparr>next_thread := None\<rparr>"
proof -
  define b0 where "b0 = b\<lparr>kern := dance b, bank_now := Bank_svc, spsr_of := (spsr_of b)(Bank_irq := cpsr_of b),
    lr_of := (lr_of b)(Bank_irq := pc_at b, Bank_svc := pc_at b)\<rparr>"
  have "load_words (store_words (memory (kern b)) a [v, w]) a (Suc 0) = [v]" for a v w
    using load32_within [of 0 "bytes32 v @ bytes32 w" "memory (kern b)" a] by (simp add: load_words_def store_words_def)
  then have first: "arun [Add Rlr (- 4), Srsdb Bank_svc, Cps Bank_svc, Pop [Rlr], Add Rsp 4] (take_irq b) = Ret () b0"
    by (simp add: take_irq_def b0_def dance_def Let_def)
  have w: "all_words b0" "general_words b0 = general_words b"
    using assms(2) by (simp_all add: in_user_def all_words_def b0_def general_words_def)
  have c: "current_thread (kern b0) = Some c" using assms(3) by (simp add: b0_def dance_def)
  have "kern b0 = dance b" "lr_of b0 (bank_now b0) = pc_at b" "spsr_of b0 (bank_now b0) = spsr_of b Bank_svc"
      "sp_of b0 Bank_usr = sp_of b Bank_usr" "bank_now b0 \<noteq> Bank_usr"
    by (simp_all add: b0_def)
  then obtain b1 where b1: "arun SAVE_CURRENT_THREAD b0 = Ret () b1" "kern b1 = k"
    using save_runs [OF w(1) _ c] w(2) by (simp add: save_place_def interrupt_regs_def k_def)
  have "\<exists>b2. arun (DISABLE_TIMER @ [Mov (Rn 0) (W 0), Mov (Rn 1) Next_ptr, Str (Rn 0) (Rn 1) 0]) b1 = Ret () b2 \<and>
      kern b2 = k\<lparr>next_thread := None\<rparr>"
    by (simp add: DISABLE_TIMER_def b1(2))
  then show ?thesis by (simp only: timer_entry_def arun_append [of "[_, _, _, _, _]"] arun_append [of SAVE_CURRENT_THREAD] first b1(1) obind.simps)
qed

lemma interrupt_follows:
  assumes "user_mode (kern b)" and "in_user b"
  shows "follows (handle_timer junk (take_irq b))
    (handle_event h (ev_timer (save_place b) (context_bytes (interrupt_regs b))) (dance b))"
proof -
  obtain c where c: "current_thread (kern b) = Some c" using assms(1) by (auto simp: user_mode_def)
  let ?ev = "ev_timer (save_place b) (context_bytes (interrupt_regs b))"
  have "user_mode (dance b)" using user_mode_set_memory [OF assms(1)] by (simp add: dance_def)
  note cur = has_current [OF handle_event_user_mode [OF this, of h ?ev]]
  obtain b1 where b1: "arun timer_entry (take_irq b) = Ret () b1"
      "kern b1 = (save_current_thread (save_place b) (context_bytes (interrupt_regs b)) (dance b))\<lparr>next_thread := None\<rparr>"
    using interrupt_saves [OF assms(2) c] by blast
  show ?thesis using load_next_from [OF b1(2)] cur by (simp add: handle_timer_def b1(1))
qed

text \<open>C13: The exception handlers of the Arm port, executed instruction by instruction with the banked
  registers of the processor, refine the events of the machine. A supervisor call of a thread saves
  exactly its registers and behaves as the event its number stands for, or stays in a loop when the
  number is unknown; the interrupt of the timer behaves as the event of the timer. Whenever the
  handler returns, the thread that goes on is the current one of the kernel, and has in its
  registers the context that was on its stack.\<close>

theorem exceptions_refine:
  assumes "user_mode (kern b)" and "in_user b"
  shows "(case event_of (call_number b) (save_place b) (context_bytes (user_regs b)) of
      None \<Rightarrow> handle_exception junk1 junk2 h (take_svc b) = None
    | Some ev \<Rightarrow> \<exists>r. handle_exception junk1 junk2 h (take_svc b) = Some r \<and> follows r (handle_event h ev (kern b))) \<and>
    follows (handle_timer junk (take_irq b))
      (handle_event h (ev_timer (save_place b) (context_bytes (interrupt_regs b))) (dance b))"
  using svc_follows [OF assms] interrupt_follows [OF assms] by simp

section \<open>Coming back\<close>

lemma scheduled_back:
  assumes "kinv s" and "next_thread s = None" and "current_thread s = Some c" and "can_schedule_thread (int c) s"
    and "\<And>i. can_schedule_thread (int i) s \<Longrightarrow> i = c" and "CODE_BACKING_PAGES s = 0"
    and "t_pending_signals (thread_at s c) = 0"
    and "load32 (memory s) (t_stack_ptr (thread_at s c) + 56) \<noteq> b_signal_handler_wrapper_end (build s)"
  shows "\<exists>k. do_scheduler s = Ret () k \<and> next_thread k = Some c \<and> memory k = memory s \<and>
    t_stack_ptr (thread_at k c) = t_stack_ptr (thread_at s c)"
proof -
  let ?start = "next_possible_thread_idx (current_thread s) s"
  have c: "c < MAX_THREADS s" using valid_less [OF can_schedule_valid [OF assms(4)]] by simp
  then have "first_from ?start s \<noteq> None" using assms(4) by (subst first_from_None) auto
  then have first: "first_from ?start s = Some c" using first_from_Some(1) assms(5) by fastforce
  let ?s1 = "switch_states c ((chosen_log s)\<lparr>next_thread := Some c\<rparr>)"
  have pick: "pick_next s = Ret c ((chosen_log s)\<lparr>next_thread := Some c\<rparr>)"
    using pick_next_eq [OF assms(1)] assms(2) first by simp
  have s1: "memory ?s1 = memory s" "t_stack_ptr (thread_at ?s1 c) = t_stack_ptr (thread_at s c)"
      "t_pending_signals (thread_at ?s1 c) = 0" "build ?s1 = build s" "next_thread ?s1 = Some c"
      "CODE_BACKING_PAGES ?s1 = 0"
    using assms(3,6,7) by (auto simp: switch_states_def Let_def thread_at_upd CODE_BACKING_PAGES_def split: option.split)
  have "check_signals c ?s1 = ?s1"
    using s1 assms(8) by (simp add: check_signals_def Let_def ctx_defs PC_REMOVE_MODE_def)
  then have "do_scheduler s = Ret () (k_update_user_thread_info c ?s1)"
    using pick s1(6) by (simp add: do_scheduler_def Let_def)
  then show ?thesis
    using s1 by (auto simp: k_update_user_thread_info_def Let_def thread_at_upd split: option.split)
qed

lemma saved_context:
  assumes "current_thread k = Some c" and "length ws = 16"
  shows "load_words (memory (save_current_thread sp (context_bytes ws) k)) sp 16 = ws"
proof -
  have "memory (save_current_thread sp (context_bytes ws) k) = store_words (memory k) sp ws"
    using assms(1) by (simp add: save_current_thread_def context_bytes_def store_words_def)
  then show ?thesis using assms(2) by (simp add: load_store_words)
qed

lemma saved_thread:
  assumes "current_thread k = Some c" and "c < MAX_THREADS k"
  shows "t_stack_ptr (thread_at (save_current_thread sp ctx k) c) = sp"
    and "t_pending_signals (thread_at (save_current_thread sp ctx k) c) = t_pending_signals (thread_at k c)"
    and "can_schedule_thread tid (save_current_thread sp ctx k) = can_schedule_thread tid k"
  using assms
  by (auto simp: save_current_thread_def thread_at_upd MAX_THREADS_def can_schedule_thread_def is_valid_thread_def Let_def)

lemma timer_call_returns:
  assumes "user_mode (kern b)" and "in_user b" and "call_number b \<in> {svc_enable_timer, svc_disable_timer}"
  shows "\<exists>b'. handle_exception junk1 junk2 h (take_svc b) = Some (Ret () b') \<and> user_regs b' = user_regs b \<and>
    sp_of b' Bank_usr = sp_of b Bank_usr \<and> current_thread (kern b') = current_thread (kern b)"
proof -
  obtain c where c: "current_thread (kern b) = Some c" "c < MAX_THREADS (kern b)"
    using assms(1) kinv_current by (auto simp: user_mode_def)
  let ?k = "save_current_thread (save_place b) (context_bytes (user_regs b)) (kern b)"
  have "event_of (call_number b) (save_place b) (context_bytes (user_regs b)) =
      Some (ev_timer_control (save_place b) (context_bytes (user_regs b)))"
    using assms(3) by (auto simp: event_of_def svc_enable_timer_def svc_disable_timer_def svc_thread_switch_def svc_syscall_def)
  then obtain r where r: "handle_exception junk1 junk2 h (take_svc b) = Some r"
      "follows r (handle_event h (ev_timer_control (save_place b) (context_bytes (user_regs b))) (kern b))"
    using svc_follows [OF assms(1,2), of junk1 junk2 h] by auto
  then obtain b' where b': "r = Ret () b'" "resumes b' (?k\<lparr>current_thread := Some c, next_thread := None\<rparr>)"
    using c(1) by (auto simp: follows_def load_next_thread_def)
  then show ?thesis
    using r(1) saved_context [OF c(1), of "user_regs b" "save_place b"] saved_thread(1) [OF c] c(1)
    by (auto simp: resumes_def save_place_def)
qed

lemma only_thread_interrupted:
  assumes "user_mode (kern b)" and "in_user b" and c: "current_thread (kern b) = Some c"
    and "can_schedule_thread (int c) (kern b)" and "\<And>i. can_schedule_thread (int i) (kern b) \<Longrightarrow> i = c"
    and "CODE_BACKING_PAGES (kern b) = 0" and "t_pending_signals (thread_at (kern b) c) = 0"
    and "pc_at b \<noteq> b_signal_handler_wrapper_end (build (kern b))"
  shows "\<exists>b'. handle_timer junk (take_irq b) = Ret () b' \<and> user_regs b' = interrupt_regs b \<and>
    sp_of b' Bank_usr = sp_of b Bank_usr \<and> current_thread (kern b') = Some c"
proof -
  let ?d = "dance b"
  let ?s = "save_current_thread (save_place b) (context_bytes (interrupt_regs b)) ?d"
  have d: "user_mode ?d" "current_thread ?d = Some c" "MAX_THREADS ?d = MAX_THREADS (kern b)"
      "can_schedule_thread tid ?d = can_schedule_thread tid (kern b)" for tid
    using user_mode_set_memory [OF assms(1)] c
    by (simp_all add: dance_def MAX_THREADS_def can_schedule_thread_def is_valid_thread_def)
  have lt: "c < MAX_THREADS ?d" using valid_less [OF can_schedule_valid [OF assms(4)]] d(3) by simp
  note st = saved_thread [OF d(2) lt, where sp = "save_place b" and ctx = "context_bytes (interrupt_regs b)"]
  have ent: "entered ?s" and cur: "current_thread ?s = Some c"
    using save_entered [OF d(1)] d(2) by simp_all
  have words: "load_words (memory ?s) (save_place b) 16 = interrupt_regs b"
    using saved_context [OF d(2), of "interrupt_regs b" "save_place b"] by (simp add: interrupt_regs_def)
  then have "load_words (memory ?s) (save_place b) 16 ! 14 = interrupt_regs b ! 14" by simp
  then have pc: "load32 (memory ?s) (save_place b + 56) = pc_at b"
    by (simp add: load_words_def interrupt_regs_def nth_append)
  have same: "CODE_BACKING_PAGES ?s = 0" "t_pending_signals (thread_at ?d c) = 0"
      "pc_at b \<noteq> b_signal_handler_wrapper_end (build ?s)"
    using d(2) assms(6-8) by (simp_all add: save_current_thread_def dance_def CODE_BACKING_PAGES_def)
  obtain k where k: "do_scheduler ?s = Ret () k" "next_thread k = Some c" "memory k = memory ?s"
      "t_stack_ptr (thread_at k c) = save_place b"
    using scheduled_back [OF enteredD(2) [OF ent] enteredD(3) [OF ent] cur, unfolded st d(4), OF assms(4,5)] same pc by auto
  have "follows (handle_timer junk (take_irq b)) (load_next_thread (?s\<lparr>next_thread := None\<rparr>))"
    using interrupt_follows [OF assms(1,2), of junk] by simp
  moreover have "?s\<lparr>next_thread := None\<rparr> = ?s" using enteredD(3) [OF ent] by simp
  ultimately obtain b' where b': "handle_timer junk (take_irq b) = Ret () b'"
      "resumes b' (k\<lparr>current_thread := Some c, next_thread := None\<rparr>)"
    using k(1,2) enteredD(3) [OF ent] by (auto simp: follows_def load_next_thread_def)
  then show ?thesis using k(3,4) words by (auto simp: resumes_def save_place_def)
qed

text \<open>C14: A thread that turns the timer on or off comes back from the call with every register and the
  status as they were. A thread that is interrupted by the timer and is the only one that can run
  comes back with its registers as well, but with the status of the last supervisor call made on the
  board instead of its own: the handler saves the banked status of the wrong mode, so a condition
  that was computed before the interrupt is lost.\<close>

theorem registers_come_back:
  assumes "user_mode (kern b)" and "in_user b" and "current_thread (kern b) = Some c"
  shows "(call_number b \<in> {svc_enable_timer, svc_disable_timer} \<longrightarrow>
      (\<exists>b'. handle_exception junk1 junk2 h (take_svc b) = Some (Ret () b') \<and> user_regs b' = user_regs b \<and>
        sp_of b' Bank_usr = sp_of b Bank_usr \<and> current_thread (kern b') = Some c)) \<and>
    (can_schedule_thread (int c) (kern b) \<and> (\<forall>i. can_schedule_thread (int i) (kern b) \<longrightarrow> i = c) \<and>
     CODE_BACKING_PAGES (kern b) = 0 \<and> t_pending_signals (thread_at (kern b) c) = 0 \<and>
     pc_at b \<noteq> b_signal_handler_wrapper_end (build (kern b)) \<longrightarrow>
      (\<exists>b'. handle_timer junk2 (take_irq b) = Ret () b' \<and>
        user_regs b' = general_words b @ [pc_at b, spsr_of b Bank_svc] \<and>
        sp_of b' Bank_usr = sp_of b Bank_usr \<and> current_thread (kern b') = Some c))"
proof (intro conjI impI)
  assume "call_number b \<in> {svc_enable_timer, svc_disable_timer}"
  then show "\<exists>b'. handle_exception junk1 junk2 h (take_svc b) = Some (Ret () b') \<and> user_regs b' = user_regs b \<and>
      sp_of b' Bank_usr = sp_of b Bank_usr \<and> current_thread (kern b') = Some c"
    using timer_call_returns [OF assms(1,2)] assms(3) by simp
next
  assume "can_schedule_thread (int c) (kern b) \<and> (\<forall>i. can_schedule_thread (int i) (kern b) \<longrightarrow> i = c) \<and>
     CODE_BACKING_PAGES (kern b) = 0 \<and> t_pending_signals (thread_at (kern b) c) = 0 \<and>
     pc_at b \<noteq> b_signal_handler_wrapper_end (build (kern b))"
  then show "\<exists>b'. handle_timer junk2 (take_irq b) = Ret () b' \<and>
      user_regs b' = general_words b @ [pc_at b, spsr_of b Bank_svc] \<and>
      sp_of b' Bank_usr = sp_of b Bank_usr \<and> current_thread (kern b') = Some c"
    unfolding interrupt_regs_def [symmetric] by (intro only_thread_interrupted [OF assms]) simp_all
qed

section \<open>Properties at a concrete board\<close>

text \<open>
  A thread of the demo state, just behind an instruction that turns the timer on, with the zero flag set;
  the saved status of supervisor mode is from an earlier call with the flag clear.
\<close>

definition lonely_state :: kstate where
  "lonely_state = upd_thread 1 (\<lambda>t. t\<lparr>t_state := finished\<rparr>) (upd_thread 2 (\<lambda>t. t\<lparr>t_state := finished\<rparr>)
     (set_memory (store32 (\<lambda>_. 0) 0x8600 0xEF000001) demo_state))"

definition demo_board :: board where
  "demo_board = \<lparr>gpr = (\<lambda>n. W (of_nat n)), sp_of = (\<lambda>_. 0x10700), lr_of = (\<lambda>_. 0x8700), spsr_of = (\<lambda>_. 0x10),
     bank_now = Bank_usr, zero_flag = True, cpsr_of = 0x40000010, pc_at = 0x8604, timer_writes = [], kern = lonely_state\<rparr>"

definition quiet_host :: host where "quiet_host = (\<lambda>_ m. (- 1, m))"

lemma lonely_user_mode: "user_mode lonely_state"
  unfolding lonely_state_def user_mode_entered entered_def
  using user_mode_set_memory [OF demo_user_mode, of "store32 (\<lambda>_. 0) 0x8600 0xEF000001"]
  by (auto simp: user_mode_entered entered_def intro!: sane_upd)

lemma lonely_schedule: "can_schedule_thread (int i) lonely_state \<longleftrightarrow> i = 0"
proof -
  have "thread_at lonely_state 0 = demo_thread 0 running" "t_state (thread_at lonely_state 1) = finished"
      "t_state (thread_at lonely_state 2) = finished" "MAX_THREADS lonely_state = 3"
    by (simp_all add: lonely_state_def thread_at_upd MAX_THREADS_def)
  then show ?thesis
    by (auto simp: can_schedule_thread_def is_valid_thread_def INVALID_THREAD_def less_Suc_eq numeral_3_eq_3 numeral_2_eq_2)
qed

lemma demo_board_simps [simp]:
  "in_user demo_board" "kern demo_board = lonely_state" "current_thread lonely_state = Some 0"
  "save_place demo_board = 0x106C0" "pc_at demo_board = 0x8604" "spsr_of demo_board Bank_svc = 0x10"
  by (simp_all add: demo_board_def in_user_def all_words_def lonely_state_def save_place_def)

lemma demo_call_number: "call_number demo_board = svc_enable_timer"
proof -
  have "apart (0x106C0 :: size_t) 64 0x8600 4" by (simp add: apart_def)
  moreover have "memory lonely_state = store32 (\<lambda>_. 0) 0x8600 0xEF000001" by (simp add: lonely_state_def)
  ultimately have "load32 (memory (save_current_thread 0x106C0 (context_bytes (user_regs demo_board)) lonely_state)) 0x8600
      = 0xEF000001"
    by (simp add: save_current_thread_def context_bytes_def load32_store_bytes_apart mem_simps)
  then show ?thesis by (simp add: call_number_def svc_enable_timer_def)
qed

theorem exceptions_refine_witness:
  "\<exists>r. handle_exception (\<lambda>_. 1) (\<lambda>_. 2) quiet_host (take_svc demo_board) = Some r \<and>
    follows r (handle_event quiet_host (ev_timer_control 0x106C0 (context_bytes (user_regs demo_board))) lonely_state)"
  using exceptions_refine [of demo_board "\<lambda>_. 1" "\<lambda>_. 2" quiet_host] lonely_user_mode
  by (simp add: demo_call_number event_of_def svc_enable_timer_def svc_thread_switch_def)

theorem registers_come_back_witness:
  "\<exists>b' b''. handle_exception (\<lambda>_. 1) (\<lambda>_. 2) quiet_host (take_svc demo_board) = Some (Ret () b') \<and> cpsr_of b' = 0x40000010 \<and>
    handle_timer (\<lambda>_. 2) (take_irq demo_board) = Ret () b'' \<and> cpsr_of b'' = 0x10"
proof -
  have "CODE_BACKING_PAGES lonely_state = 0" "t_pending_signals (thread_at lonely_state 0) = 0"
      "build lonely_state = demo_build"
    by (simp_all add: lonely_state_def CODE_BACKING_PAGES_def thread_at_upd)
  then obtain b' b'' where "handle_exception (\<lambda>_. 1) (\<lambda>_. 2) quiet_host (take_svc demo_board) = Some (Ret () b')"
      "user_regs b' = user_regs demo_board" "handle_timer (\<lambda>_. 2) (take_irq demo_board) = Ret () b''"
      "user_regs b'' = general_words demo_board @ [0x8604, 0x10]"
    using registers_come_back [of demo_board 0 "\<lambda>_. 1" "\<lambda>_. 2" quiet_host] lonely_user_mode lonely_schedule lonely_schedule [of 0]
    by (auto simp: demo_call_number)
  moreover have "cpsr_of demo_board = 0x40000010" by (simp add: demo_board_def)
  ultimately show ?thesis by (auto simp: user_regs_def)
qed

end
