(* ===== verification/Port_Calls.thy ===== *)
theory Port_Calls
  imports Exception_Entry Property_Access Assertion
begin

text \<open>
  The way from a program into the kernel and back: the calls of \<open>src/hw/arm_common/port.c\<close> that put the
  arguments of a system call into registers and execute a supervisor call, the timer calls of
  \<open>src/user/timer.c\<close>, on the board of \<open>Exception_Entry\<close>.
\<close>

section \<open>Calls of a program\<close>

text \<open>
  Where the compiler puts the instructions is a parameter: \<open>place\<close> is the address behind the supervisor
  call. The link register and the registers a call may change are the business of the compiler; what the
  inline assembly sets is set here.
\<close>

definition syscall_regs :: "size_t \<Rightarrow> size_t \<Rightarrow> size_t \<Rightarrow> size_t \<Rightarrow> size_t \<Rightarrow> size_t \<Rightarrow> board \<Rightarrow> board" where
  "syscall_regs place num arg1 arg2 arg3 arg4 b =
     b\<lparr>gpr := (gpr b)(0 := W arg1, 1 := W arg2, 2 := W arg3, 3 := W arg4, 8 := W num), pc_at := place\<rparr>"

definition generic_syscall :: "(nat \<Rightarrow> size_t) \<Rightarrow> (nat \<Rightarrow> size_t) \<Rightarrow> host \<Rightarrow> size_t \<Rightarrow>
    size_t \<Rightarrow> size_t \<Rightarrow> size_t \<Rightarrow> size_t \<Rightarrow> size_t \<Rightarrow> board \<Rightarrow> size_t bresult option" where
  "generic_syscall junk1 junk2 h place num arg1 arg2 arg3 arg4 b =
     map_option (\<lambda>r. obind r (\<lambda>_ b. case as_word (gpr b 0) of Some reg0 \<Rightarrow> Ret reg0 b | None \<Rightarrow> Undef))
       (handle_exception junk1 junk2 h (take_svc (syscall_regs place num arg1 arg2 arg3 arg4 b)))"

definition on_kernel :: "(kstate \<Rightarrow> 'a kresult) \<Rightarrow> board \<Rightarrow> 'a bresult" where
  "on_kernel f b =
     (case f (kern b) of Ret x k \<Rightarrow> Ret x (b\<lparr>kern := k\<rparr>) | Exit n k \<Rightarrow> Exit n (b\<lparr>kern := k\<rparr>) | Undef \<Rightarrow> Undef)"

text \<open>Only the two calls of the timer are made this way; \<open>place code\<close> is where the instruction of a case is.\<close>

definition do_svc :: "kernel_call \<Rightarrow> (nat \<Rightarrow> size_t) \<Rightarrow> (nat \<Rightarrow> size_t) \<Rightarrow> host \<Rightarrow> (size_t \<Rightarrow> size_t) \<Rightarrow> size_t \<Rightarrow>
    board \<Rightarrow> unit bresult option" where
  "do_svc sys junk1 junk2 h place code b =
     (if code = svc_enable_timer \<or> code = svc_disable_timer
      then handle_exception junk1 junk2 h (take_svc (b\<lparr>pc_at := place code\<rparr>))
      else Some (obind (on_kernel (user_assert sys False ''0'' ''port.c'' 14 ''do_svc'') b) (\<lambda>_ _. Undef)))"

definition enable_timer :: "kernel_call \<Rightarrow> (nat \<Rightarrow> size_t) \<Rightarrow> (nat \<Rightarrow> size_t) \<Rightarrow> host \<Rightarrow> (size_t \<Rightarrow> size_t) \<Rightarrow>
    board \<Rightarrow> unit bresult option" where
  "enable_timer sys junk1 junk2 h place b = do_svc sys junk1 junk2 h place svc_enable_timer b"

definition disable_timer :: "kernel_call \<Rightarrow> (nat \<Rightarrow> size_t) \<Rightarrow> (nat \<Rightarrow> size_t) \<Rightarrow> host \<Rightarrow> (size_t \<Rightarrow> size_t) \<Rightarrow>
    board \<Rightarrow> unit bresult option" where
  "disable_timer sys junk1 junk2 h place b = do_svc sys junk1 junk2 h place svc_disable_timer b"

section \<open>Into the kernel and back\<close>

lemma syscall_regs_in_user:
  assumes "in_user b"
  shows "in_user (syscall_regs place num x1 x2 x3 x4 b)"
  using assms by (simp add: in_user_def all_words_def syscall_regs_def)

lemma syscall_regs_simps [simp]:
  "kern (syscall_regs place num x1 x2 x3 x4 b) = kern b"
  "save_place (syscall_regs place num x1 x2 x3 x4 b) = save_place b"
  "sp_of (syscall_regs place num x1 x2 x3 x4 b) = sp_of b"
  "pc_at (syscall_regs place num x1 x2 x3 x4 b) = place"
  by (simp_all add: syscall_regs_def save_place_def)

lemma load_words_nth: "i < n \<Longrightarrow> load_words m a n ! i = load32 m (a + of_nat (4 * i))"
  by (simp add: load_words_def)

lemma syscall_words:
  fixes b :: board and place num x1 x2 x3 x4 :: size_t
  defines "ws \<equiv> user_regs (syscall_regs place num x1 x2 x3 x4 b)"
  shows "ws ! 0 = x1" "ws ! 1 = x2" "ws ! 2 = x3" "ws ! 3 = x4" "ws ! 8 = num"
  by (simp_all add: ws_def user_regs_def general_words_def nth_append syscall_regs_def)

text \<open>The context a call leaves, read back through the offsets the kernel uses.\<close>

lemma syscall_context:
  fixes b :: board and place num x1 x2 x3 x4 :: size_t
  defines "sp \<equiv> save_place b" and "ws \<equiv> user_regs (syscall_regs place num x1 x2 x3 x4 b)"
  assumes "current_thread k = Some c"
  shows "load32 (memory (save_current_thread sp (context_bytes ws) k)) (sp + CTX_ARG0) = x1"
    "load32 (memory (save_current_thread sp (context_bytes ws) k)) (sp + CTX_ARG1) = x2"
    "load32 (memory (save_current_thread sp (context_bytes ws) k)) (sp + CTX_ARG2) = x3"
    "load32 (memory (save_current_thread sp (context_bytes ws) k)) (sp + CTX_ARG3) = x4"
    "load32 (memory (save_current_thread sp (context_bytes ws) k)) (sp + CTX_SYSCALL_NUM) = num"
proof -
  let ?m = "memory (save_current_thread sp (context_bytes ws) k)"
  have w: "load_words ?m sp 16 = ws" by (rule saved_context [OF assms(3)]) (simp add: ws_def)
  have at: "load32 ?m (sp + of_nat (4 * i)) = ws ! i" if "i < 16" for i
    using load_words_nth [OF that, of ?m sp] w by simp
  note words = syscall_words [of place num x1 x2 x3 x4 b, folded ws_def]
  show "load32 ?m (sp + CTX_ARG0) = x1" using at [of 0] words(1) by (simp add: ctx_defs)
  show "load32 ?m (sp + CTX_ARG1) = x2" using at [of 1] words(2) by (simp add: ctx_defs)
  show "load32 ?m (sp + CTX_ARG2) = x3" using at [of 2] words(3) by (simp add: ctx_defs)
  show "load32 ?m (sp + CTX_ARG3) = x4" using at [of 3] words(4) by (simp add: ctx_defs)
  show "load32 ?m (sp + CTX_SYSCALL_NUM) = num" using at [of 8] words(5) by (simp add: ctx_defs)
qed

lemma user_regs_first: "all_words b \<Longrightarrow> as_word (gpr b 0) = Some (user_regs b ! 0)"
  by (auto simp: all_words_def user_regs_def general_words_def nth_append)

lemma load_words_first:
  assumes "4 * n + 4 \<le> 2 ^ 32"
  shows "load_words (store32 m a v) a (Suc n) = (load_words m a (Suc n))[0 := v]"
  using load_words_ahead [OF assms, of m a v] by (simp add: load_words_Suc load32_store32_same)

lemma update_info_stack_ptr:
  "t_stack_ptr (thread_at (k_update_user_thread_info c s) i) = t_stack_ptr (thread_at s i)"
  by (auto simp: k_update_user_thread_info_def Let_def thread_at_upd split: option.split)

text \<open>C15: A system call made through generic_syscall that does not switch threads is a function call: the
  function of the kernel runs once, with the five values the program passed, on the state in which the
  thread is saved; when it returns the program goes on behind the call with the result in the first
  register, or its first argument there if the call has no result, and every other register, the
  status and the stack pointer as they were.\<close>

theorem generic_syscall_calls:
  fixes b :: board and c :: nat and place num arg1 arg2 arg3 arg4 :: size_t
  defines "b0 \<equiv> syscall_regs place num arg1 arg2 arg3 arg4 b"
  defines "k \<equiv> save_current_thread (save_place b) (context_bytes (user_regs b0)) (kern b)"
  assumes "user_mode (kern b)" and "in_user b" and "current_thread (kern b) = Some c"
    and "load32 (memory k) (place - 4) AND 0xFFFFFF = svc_syscall"
    and "t_top_canary (thread_at (kern b) c) = STACK_CANARY" and "t_bottom_canary (thread_at (kern b) c) = STACK_CANARY"
    and "kernel_config (kern b) AND KCFG_LOG_FAILED_ERRNO = 0"
    and "syscall_of num = Some call" and "call_syscall h call arg1 arg2 arg3 arg4 k = Ret res s1"
    and "next_thread s1 = None" and "current_thread s1 = Some c"
    and "t_stack_ptr (thread_at s1 c) = save_place b"
    and "load_words (memory s1) (save_place b) 16 = load_words (memory k) (save_place b) 16"
  shows "\<exists>b'. generic_syscall junk1 junk2 h place num arg1 arg2 arg3 arg4 b = Some (Ret (if has_result call then res else arg1) b') \<and>
    user_regs b' = (if has_result call then (user_regs b0)[0 := res] else user_regs b0) \<and>
    sp_of b' Bank_usr = sp_of b Bank_usr \<and>
    memory (kern b') = (if has_result call then store32 (memory s1) (save_place b) res else memory s1)"
proof -
  let ?sp = "save_place b" and ?ws = "user_regs b0"
  have lt: "c < MAX_THREADS (kern b)" using assms(3,5) kinv_current by (auto simp: user_mode_def)
  note st = saved_thread [OF assms(5) lt, where sp = ?sp and ctx = "context_bytes ?ws", folded k_def]
  have cur: "current_thread k = Some c" using assms(5) by (simp add: k_def save_current_thread_def)
  have same: "t_top_canary (thread_at k c) = STACK_CANARY" "t_bottom_canary (thread_at k c) = STACK_CANARY"
      "kernel_config k AND KCFG_LOG_FAILED_ERRNO = 0"
    using assms(5,7-9) lt by (auto simp: k_def save_current_thread_def thread_at_upd)
  note regs = syscall_context [OF assms(5), of b place num arg1 arg2 arg3 arg4, folded b0_def k_def]
  let ?s1 = "if has_result call then set_memory (store32 (memory s1) (?sp + CTX_ARG0) res) s1 else s1"
  let ?s2 = "if update_user_thread_info call then k_update_user_thread_info c (?s1\<lparr>next_thread := Some c\<rparr>)
    else ?s1\<lparr>next_thread := Some c\<rparr>"
  let ?s3 = "?s2\<lparr>current_thread := Some c, next_thread := None\<rparr>"
  have "k_handle_syscall h k = Ret () ?s2"
    using handle_syscall_to_caller [OF cur same, of call h res s1] assms(10-13)
    unfolding st(1) regs by (simp add: Let_def)
  moreover have "next_thread ?s2 = Some c" by (simp add: update_info_result)
  ultimately have event: "handle_event h (ev_syscall ?sp (context_bytes ?ws)) (kern b) = Ret () ?s3"
    by (simp add: k_def [symmetric] load_next_thread_def)
  have "call_number b0 = svc_syscall" using assms(6) by (simp add: call_number_def b0_def k_def)
  then obtain r where r: "handle_exception junk1 junk2 h (take_svc b0) = Some r"
      "follows r (handle_event h (ev_syscall ?sp (context_bytes ?ws)) (kern b))"
    using svc_follows [of b0 junk1 junk2 h] assms(3) syscall_regs_in_user [OF assms(4), of place num arg1 arg2 arg3 arg4]
    by (auto simp: b0_def event_of_def svc_syscall_def svc_thread_switch_def svc_enable_timer_def svc_disable_timer_def)
  then obtain b' where b': "r = Ret () b'" "resumes b' ?s3" using event by (auto simp: follows_def)
  have sp: "t_stack_ptr (thread_at ?s3 c) = ?sp" using assms(14) by (simp add: update_info_stack_ptr)
  have mem: "memory ?s3 = (if has_result call then store32 (memory s1) ?sp res else memory s1)"
    by (simp add: update_info_result ctx_defs)
  have kw: "load_words (memory s1) ?sp 16 = ?ws"
    using saved_context [OF assms(5), of ?ws ?sp] assms(15) by (simp add: k_def)
  have words: "user_regs b' = (if has_result call then ?ws[0 := res] else ?ws)"
    using b'(2) sp mem kw load_words_first [of 15 "memory s1" ?sp res] by (simp add: resumes_def)
  have "user_regs b' ! 0 = (if has_result call then res else arg1)"
    using words syscall_words(1) [of place num arg1 arg2 arg3 arg4 b] by (simp add: b0_def)
  moreover have "as_word (gpr b' 0) = Some (user_regs b' ! 0)"
    using b'(2) by (intro user_regs_first) (simp add: resumes_def)
  ultimately have "generic_syscall junk1 junk2 h place num arg1 arg2 arg3 arg4 b =
      Some (Ret (if has_result call then res else arg1) b')"
    using r(1) b'(1) by (simp add: generic_syscall_def b0_def)
  then show ?thesis
    using words b'(2) sp mem by (auto simp: resumes_def save_place_def)
qed

text \<open>The calls that turn the timer on and off come back with every register as it was; other codes fail.\<close>

lemma timer_wrappers:
  assumes "user_mode (kern b)" and "in_user b"
    and "call_number (b\<lparr>pc_at := place svc_enable_timer\<rparr>) = svc_enable_timer"
    and "call_number (b\<lparr>pc_at := place svc_disable_timer\<rparr>) = svc_disable_timer"
  shows "\<exists>b'. enable_timer sys junk1 junk2 h place b = Some (Ret () b') \<and>
      user_regs b' = user_regs (b\<lparr>pc_at := place svc_enable_timer\<rparr>)"
    and "\<exists>b'. disable_timer sys junk1 junk2 h place b = Some (Ret () b') \<and>
      user_regs b' = user_regs (b\<lparr>pc_at := place svc_disable_timer\<rparr>)"
proof -
  have "in_user (b\<lparr>pc_at := p\<rparr>)" for p using assms(2) by (simp add: in_user_def all_words_def)
  then show "\<exists>b'. enable_timer sys junk1 junk2 h place b = Some (Ret () b') \<and>
      user_regs b' = user_regs (b\<lparr>pc_at := place svc_enable_timer\<rparr>)"
    "\<exists>b'. disable_timer sys junk1 junk2 h place b = Some (Ret () b') \<and>
      user_regs b' = user_regs (b\<lparr>pc_at := place svc_disable_timer\<rparr>)"
    using timer_call_returns [of "b\<lparr>pc_at := place svc_enable_timer\<rparr>" junk1 junk2 h]
      timer_call_returns [of "b\<lparr>pc_at := place svc_disable_timer\<rparr>" junk1 junk2 h] assms(1,3,4)
    by (auto simp: enable_timer_def disable_timer_def do_svc_def)
qed

lemma unknown_svc:
  assumes "code \<noteq> svc_enable_timer" and "code \<noteq> svc_disable_timer" and "exits_on_call sys"
  shows "\<exists>b'. do_svc sys junk1 junk2 h place code b = Some (Exit 1 b')"
  using assms by (simp add: do_svc_def on_kernel_def user_assert_def assert_fail_exits)

section \<open>Printing a context\<close>

text \<open>\<open>print_register_context\<close> of \<open>arm_virt/port.c\<close>; the context is in memory at \<open>ctx\<close>.\<close>

definition register_format :: string where
  "register_format =
     ''  r0: 0x%08X r1: 0x%08X  r2: 0x%08X   r3: 0x%08X'' @ [CHR 0x0A] @
     ''  r4: 0x%08X r5: 0x%08X  r6: 0x%08X   r7: 0x%08X'' @ [CHR 0x0A] @
     ''  r8: 0x%08X r9: 0x%08X r10: 0x%08X  r11: 0x%08X'' @ [CHR 0x0A] @
     '' r12: 0x%08X lr: 0x%08X  pc: 0x%08X cpsr: 0x%08X'' @ [CHR 0x0A]"

definition print_register_context :: "size_t \<Rightarrow> kstate \<Rightarrow> unit kresult" where
  "print_register_context ctx s = k_printf register_format (map VNum (load_words (memory s) ctx 16)) s"

lemma print_register_context_prints: "\<exists>str. print_register_context ctx s = Ret () (serial_print str s)"
proof -
  have "load_words (memory s) ctx 16 = map (\<lambda>i. load32 (memory s) (ctx + of_nat (4 * i)))
      [0, 1, 2, 3, 4, 5, 6, 7, 8, 9, 10, 11, 12, 13, 14, 15]"
    by (simp add: load_words_def upt_conv_Cons)
  then have "\<exists>str. sprintf register_format (map VNum (load_words (memory s) ctx 16)) = Some str"
    by (simp add: sprintf_def register_format_def format_defs)
  then show ?thesis by (auto simp: print_register_context_def k_printf_def)
qed

section \<open>A concrete call\<close>

text \<open>The thread of the demo board asks for a message, and there is none.\<close>

definition demo_caller :: board where
  "demo_caller = demo_board\<lparr>kern := set_memory (store32 (\<lambda>_. 0) 0x8600 0xEF000015) lonely_state\<rparr>"

theorem generic_syscall_calls_witness:
  "\<exists>b'. generic_syscall (\<lambda>_. 1) (\<lambda>_. 2) (\<lambda>_ m. (- 1, m)) 0x8604 6 0x300 0x304 0 0 demo_caller = Some (Ret 0 b') \<and>
    user_regs b' ! 1 = 0x304 \<and> pc_at b' = 0x8604 \<and> cpsr_of b' = 0x40000010"
proof -
  let ?h = "\<lambda>_ m. (- 1, m)"
  let ?b0 = "syscall_regs 0x8604 6 0x300 0x304 0 0 demo_caller"
  let ?k = "save_current_thread 0x106C0 (context_bytes (user_regs ?b0)) (kern demo_caller)"
  have user: "user_mode (kern demo_caller)" "in_user demo_caller"
    using user_mode_set_memory [OF lonely_user_mode] by (simp_all add: demo_caller_def demo_board_def in_user_def all_words_def)
  have thread: "current_thread (kern demo_caller) = Some 0" "thread_at (kern demo_caller) 0 = demo_thread 0 running"
      "kernel_config (kern demo_caller) = 0" "save_place demo_caller = 0x106C0" "next_thread (kern demo_caller) = None"
    by (simp_all add: demo_caller_def lonely_state_def demo_board_def save_place_def thread_at_upd)
  then have k: "current_thread ?k = Some 0" "next_thread ?k = None" "t_stack_ptr (thread_at ?k 0) = 0x106C0"
      "t_msgs_full (thread_at ?k 0) = False" "t_next_msg (thread_at ?k 0) = 0" "t_end_msgs (thread_at ?k 0) = 0"
    by (simp_all add: save_current_thread_def thread_at_upd demo_caller_def lonely_state_def MAX_THREADS_def)
  have "apart (0x106C0 :: size_t) 64 0x8600 4" by (simp add: apart_def)
  then have "load32 (memory ?k) 0x8600 = 0xEF000015"
    by (simp add: save_current_thread_def thread(1) context_bytes_def load32_store_bytes_apart)
      (simp add: demo_caller_def load32_store32_same)
  then have svc: "load32 (memory ?k) (0x8604 - 4) AND 0xFFFFFF = svc_syscall" by (simp add: svc_syscall_def)
  have "k_get_msg 0x300 0x304 ?k = Ret False ?k" using k by (simp add: k_get_msg_def on_current_def)
  then have call: "call_syscall ?h syscall_get_msg 0x300 0x304 0 0 ?k = Ret 0 ?k"
    by (simp add: ret_bool_def of_bool32_def)
  have num: "syscall_of 6 = Some syscall_get_msg" "has_result syscall_get_msg"
    by (simp_all add: has_result_def syscall_of_def all_syscalls_def)
  obtain b' where b': "generic_syscall (\<lambda>_. 1) (\<lambda>_. 2) ?h 0x8604 6 0x300 0x304 0 0 demo_caller = Some (Ret 0 b')"
      "user_regs b' = (user_regs ?b0)[0 := 0]"
    using generic_syscall_calls [where b = demo_caller and c = 0 and place = "0x8604" and num = 6 and ?arg1.0 = "0x300" and
        ?arg2.0 = "0x304" and ?arg3.0 = 0 and ?arg4.0 = 0 and call = syscall_get_msg and h = ?h and res = 0 and ?s1.0 = ?k and
        ?junk1.0 = "\<lambda>_. 1" and ?junk2.0 = "\<lambda>_. 2"]
      user thread k svc call num by auto
  have "user_regs b' ! 1 = 0x304" "user_regs b' ! 14 = 0x8604" "user_regs b' ! 15 = 0x40000010"
    using b'(2) syscall_words(2) [of "0x8604" 6 "0x300" "0x304" 0 0 demo_caller]
    by (simp_all add: user_regs_def nth_append) (simp_all add: syscall_regs_def demo_caller_def demo_board_def)
  then show ?thesis using b'(1) by (auto simp: user_regs_def nth_append)
qed

end
