(* ===== verification/Aarch64.thy ===== *)
theory Aarch64
  imports Fiber
begin

text \<open>
  The context switches of the 64 bit ports: the assembly of \<open>src/hw/aarch64_virt/yield.S\<close> (the one of
  \<open>raspi4\<close> is the same) with the structures of \<open>include/port/aarch64.h\<close>.
\<close>

section \<open>The 64 bit processor\<close>

text \<open>
  General registers by number, the stack pointer in use, the system registers the handlers touch, and the
  memory as double words: all accesses are of aligned double words.
\<close>

datatype sysreg = FPSR | SPSR_EL1 | ELR_EL1

datatype xreg = X nat | XSP

record cpu64 =
  xr :: "nat \<Rightarrow> u64"
  xsp :: u64
  sysr :: "sysreg \<Rightarrow> u64"
  ram64 :: "u64 \<Rightarrow> u64"
  pc64 :: u64

fun rd :: "cpu64 \<Rightarrow> xreg \<Rightarrow> u64" where
  "rd c (X n) = xr c n"
| "rd c XSP = xsp c"

fun wr :: "xreg \<Rightarrow> u64 \<Rightarrow> cpu64 \<Rightarrow> cpu64" where
  "wr (X n) v c = c\<lparr>xr := (xr c)(n := v)\<rparr>"
| "wr XSP v c = c\<lparr>xsp := v\<rparr>"

text \<open>
  \<open>STP_pre a b\<close> is \<open>stp a, b, [sp, #-16]!\<close>; \<open>STP_post a b r\<close> and \<open>LDP_post a b r\<close> are \<open>stp\<close> and
  \<open>ldp a, b, [r], #16\<close>; \<open>LDP a b r\<close> leaves the address as it is.
\<close>

datatype xinstr = STP_pre xreg xreg | STP_post xreg xreg xreg | LDP_post xreg xreg xreg | LDP xreg xreg xreg
  | XMOV xreg xreg | MRS xreg sysreg | MSR sysreg xreg | XSUB xreg u64 | XBR xreg

definition store_pair :: "u64 \<Rightarrow> u64 \<Rightarrow> u64 \<Rightarrow> (u64 \<Rightarrow> u64) \<Rightarrow> u64 \<Rightarrow> u64" where
  "store_pair p v w m = m(p + 8 := w, p := v)"

fun xexec1 :: "xinstr \<Rightarrow> cpu64 \<Rightarrow> cpu64" where
  "xexec1 (STP_pre a b) c = (let p = xsp c - 16 in c\<lparr>ram64 := store_pair p (rd c a) (rd c b) (ram64 c), xsp := p\<rparr>)"
| "xexec1 (STP_post a b r) c =
     (let p = rd c r in wr r (p + 16) (c\<lparr>ram64 := store_pair p (rd c a) (rd c b) (ram64 c)\<rparr>))"
| "xexec1 (LDP_post a b r) c = (let p = rd c r in wr b (ram64 c (p + 8)) (wr a (ram64 c p) (wr r (p + 16) c)))"
| "xexec1 (LDP a b r) c = (let p = rd c r in wr b (ram64 c (p + 8)) (wr a (ram64 c p) c))"
| "xexec1 (XMOV d s) c = wr d (rd c s) c"
| "xexec1 (MRS d s) c = wr d (sysr c s) c"
| "xexec1 (MSR d s) c = c\<lparr>sysr := (sysr c)(d := rd c s)\<rparr>"
| "xexec1 (XSUB r n) c = wr r (rd c r - n) c"
| "xexec1 (XBR r) c = c\<lparr>pc64 := rd c r\<rparr>"

definition xexec :: "xinstr list \<Rightarrow> cpu64 \<Rightarrow> cpu64" where
  "xexec is c = fold xexec1 is c"

section \<open>Saving and resuming a thread\<close>

text \<open>The part of \<open>SAVE_CURRENT_THREAD\<close> that pushes the registers, and the part of \<open>actually_load_thread\<close> that pops them.\<close>

definition general_pairs :: "(xreg \<times> xreg) list" where
  "general_pairs = map (\<lambda>n. (X n, X (Suc n))) [1, 3, 5, 7, 9, 11, 13, 15, 17, 19, 21, 23, 25, 27, 29]"

definition push_registers :: "xinstr list" where
  "push_registers = [STP_pre (X 0) (X 1), MRS (X 0) FPSR, MRS (X 1) SPSR_EL1, STP_pre (X 0) (X 1), MRS (X 1) ELR_EL1] @
     map (\<lambda>(a, b). STP_pre a b) general_pairs"

definition pop_registers :: "xinstr list" where
  "pop_registers = map (\<lambda>(a, b). LDP_post a b XSP) (rev general_pairs) @
     [MSR ELR_EL1 (X 1), LDP_post (X 0) (X 1) XSP, MSR FPSR (X 0), MSR SPSR_EL1 (X 1), LDP_post (X 0) (X 1) XSP]"

text \<open>The structure \<open>RegisterContext\<close>, field by field.\<close>

datatype field64 = F_x nat | F_pc | F_fpsr | F_spsr

definition RegisterContext64 :: "field64 list" where
  "RegisterContext64 =
     [F_x 29, F_x 30, F_x 27, F_x 28, F_x 25, F_x 26, F_x 23, F_x 24, F_x 21, F_x 22, F_x 19, F_x 20, F_x 17, F_x 18,
      F_x 15, F_x 16, F_x 13, F_x 14, F_x 11, F_x 12, F_x 9, F_x 10, F_x 7, F_x 8, F_x 5, F_x 6, F_x 3, F_x 4,
      F_pc, F_x 2, F_fpsr, F_spsr, F_x 0, F_x 1]"

fun field_value :: "cpu64 \<Rightarrow> field64 \<Rightarrow> u64" where
  "field_value c (F_x n) = xr c n"
| "field_value c F_pc = sysr c ELR_EL1"
| "field_value c F_fpsr = sysr c FPSR"
| "field_value c F_spsr = sysr c SPSR_EL1"

definition set_field :: "field64 \<Rightarrow> u64 \<Rightarrow> u64 list \<Rightarrow> u64 list" where
  "set_field f v ws = map2 (\<lambda>g w. if g = f then v else w) RegisterContext64 ws"

text \<open>\<open>platform_init_register_context\<close> of \<open>aarch64_virt/port.c\<close>, and a context as the kernel makes it for a new thread.\<close>

definition platform_init_register_context64 :: "u64 list \<Rightarrow> u64 list" where
  "platform_init_register_context64 ws = set_field F_spsr 0 ws"

definition init_register_context64 :: "u64 \<Rightarrow> u64 list" where
  "init_register_context64 thread_start =
     platform_init_register_context64 (set_field F_pc thread_start (replicate (length RegisterContext64) 0))"

definition PC_ADD_MODE64 :: "u64 \<Rightarrow> u64" where "PC_ADD_MODE64 pc = pc"
definition PC_REMOVE_MODE64 :: "u64 \<Rightarrow> u64" where "PC_REMOVE_MODE64 pc = pc"
definition ALIGN_STACK_PTR64 :: "u64 \<Rightarrow> u64" where "ALIGN_STACK_PTR64 p = p AND NOT 0xF"

section \<open>Fibers\<close>

text \<open>The structure \<open>FiberContext\<close>: registers 19 to 29, the link register, stack pointer and program counter.\<close>

datatype fiber_field64 = FF_x nat | FF_lr | FF_sp | FF_pc

definition FiberContext64 :: "fiber_field64 list" where
  "FiberContext64 = [FF_x 19, FF_x 20, FF_x 21, FF_x 22, FF_x 23, FF_x 24, FF_x 25, FF_x 26, FF_x 27, FF_x 28, FF_x 29,
     FF_lr, FF_sp, FF_pc]"

definition get_context64 :: "xinstr list" where
  "get_context64 =
     map (\<lambda>n. STP_post (X n) (X (Suc n)) (X 0)) [19, 21, 23, 25, 27, 29] @ [XMOV (X 1) XSP, STP_post (X 1) (X 30) (X 0), XBR (X 30)]"

definition set_context64 :: "xinstr list" where
  "set_context64 =
     map (\<lambda>n. LDP_post (X n) (X (Suc n)) (X 0)) [19, 21, 23, 25, 27, 29] @ [LDP_post (X 1) (X 2) (X 0), XMOV XSP (X 1), XBR (X 2)]"

definition set_context_from_stack_address64 :: "xinstr list" where
  "set_context_from_stack_address64 = LDP_post (X 0) (X 1) XSP # set_context64"

definition SWAP64 :: "nat \<Rightarrow> xinstr list" where
  "SWAP64 n = [LDP (X 1) (X 2) (X 0), STP_post (X n) (X (Suc n)) (X 0), XMOV (X n) (X 1), XMOV (X (Suc n)) (X 2)]"

definition swap_context64 :: "xinstr list" where
  "swap_context64 = concat (map SWAP64 [19, 21, 23, 25, 27]) @
     [LDP (X 3) (X 4) (X 0), STP_post (X 29) (X 30) (X 0), XMOV (X 29) (X 3),
      LDP (X 1) (X 2) (X 0), XMOV (X 3) XSP, STP_post (X 3) (X 30) (X 0), XMOV (X 30) (X 4), XMOV XSP (X 1),
      XSUB (X 0) 112, XBR (X 2)]"

section \<open>Double words in sequence\<close>

primrec store64 :: "(u64 \<Rightarrow> u64) \<Rightarrow> u64 \<Rightarrow> u64 list \<Rightarrow> u64 \<Rightarrow> u64" where
  "store64 m a [] = m"
| "store64 m a (w # ws) = (store64 m (a + 8) ws)(a := w)"

definition words64 :: "(u64 \<Rightarrow> u64) \<Rightarrow> u64 \<Rightarrow> nat \<Rightarrow> u64 list" where
  "words64 m a n = map (\<lambda>i. m (a + of_nat (8 * i))) [0..<n]"

lemma length_words64 [simp]: "length (words64 m a n) = n"
  by (simp add: words64_def)

lemma words64_0 [simp]: "words64 m a 0 = []"
  by (simp add: words64_def)

lemma words64_Suc: "words64 m a (Suc n) = m a # words64 m (a + 8) n"
  unfolding words64_def
  by (rule nth_equalityI) (auto simp: nth_Cons add.assoc split: nat.splits simp del: upt_Suc)

lemma words64_add: "words64 m a (n + k) = words64 m a n @ words64 m (a + of_nat (8 * n)) k"
  by (induction n arbitrary: a) (simp_all add: words64_Suc algebra_simps)

lemma offset_nonzero:
  assumes "0 < k" and "k < 2 ^ 64"
  shows "(a :: u64) + of_nat k \<noteq> a"
proof -
  have "unat (of_nat k :: u64) = k" using assms by (simp add: unsigned_of_nat take_bit_nat_eq_self_iff)
  then have "(of_nat k :: u64) \<noteq> 0" using assms by auto
  then show ?thesis by simp
qed

lemma words64_upd:
  assumes "8 * n < 2 ^ 64 - 8"
  shows "words64 (f(a := w)) (a + 8) n = words64 f (a + 8) n"
  unfolding words64_def
proof (rule map_cong [OF refl])
  fix i assume "i \<in> set [0..<n]"
  then have "a + of_nat (8 + 8 * i) \<noteq> a" using assms by (intro offset_nonzero) auto
  then show "(f(a := w)) (a + 8 + of_nat (8 * i)) = f (a + 8 + of_nat (8 * i))" by (simp add: add.assoc)
qed

lemma words_stored:
  assumes "8 * length ws < 2 ^ 64"
  shows "words64 (store64 m a ws) a (length ws) = ws"
  using assms by (induction ws arbitrary: a) (simp_all add: words64_Suc words64_upd)

section \<open>Sequences of pairs\<close>

lemma xexec_simps: "xexec [] c = c" "xexec (i # is) c = xexec is (xexec1 i c)"
  "xexec (is @ js) c = xexec js (xexec is c)"
  by (simp_all add: xexec_def)

abbreviation flat :: "(xreg \<times> xreg) list \<Rightarrow> xreg list" where
  "flat ps \<equiv> concat (map (\<lambda>(a, b). [a, b]) ps)"

text \<open>Pushing pairs puts them below what is on the stack, the last one first.\<close>

lemma xexec_pushes:
  assumes "XSP \<notin> set (flat ps)" and "ram64 c = store64 m (xsp c) ws"
  shows "xexec (map (\<lambda>(a, b). STP_pre a b) ps) c =
    c\<lparr>ram64 := store64 m (xsp c - of_nat (16 * length ps)) (map (rd c) (flat (rev ps)) @ ws),
      xsp := xsp c - of_nat (16 * length ps)\<rparr>"
  using assms
proof (induction ps arbitrary: c ws)
  case (Cons p ps)
  obtain a b where p: "p = (a, b)" by (cases p)
  let ?c = "c\<lparr>ram64 := store64 m (xsp c - 16) (rd c a # rd c b # ws), xsp := xsp c - 16\<rparr>"
  have one: "xexec1 (STP_pre a b) c = ?c"
    using Cons.prems(2) by (simp add: Let_def store_pair_def)
  have same: "rd ?c r = rd c r" if "r \<noteq> XSP" for r using that by (cases r) simp_all
  have "XSP \<notin> set (flat (rev ps))" using Cons.prems(1) by simp
  then have regs: "map (rd ?c) (flat (rev ps)) = map (rd c) (flat (rev ps))"
    by (intro map_cong refl same) blast
  have "xexec (map (\<lambda>(a, b). STP_pre a b) ps) ?c =
    ?c\<lparr>ram64 := store64 m (xsp ?c - of_nat (16 * length ps)) (map (rd ?c) (flat (rev ps)) @ (rd c a # rd c b # ws)),
      xsp := xsp ?c - of_nat (16 * length ps)\<rparr>"
    using Cons.prems(1) by (intro Cons.IH) (simp_all add: p)
  note IH = this [unfolded regs]
  have "xexec (map (\<lambda>(a, b). STP_pre a b) (p # ps)) c = xexec (map (\<lambda>(a, b). STP_pre a b) ps) ?c"
    by (simp only: list.map p prod.case xexec_simps(2) one)
  also note IH
  finally show ?case by (simp add: p algebra_simps)
qed (simp add: xexec_simps)

lemma xexec_pops:
  fixes c :: cpu64 and ps :: "(xreg \<times> xreg) list" and base :: xreg
  defines "c' \<equiv> xexec (map (\<lambda>(a, b). LDP_post a b base) ps) c"
  assumes "base \<notin> set (flat ps)" and "distinct (flat ps)"
  shows "ram64 c' = ram64 c \<and> sysr c' = sysr c \<and> map (rd c') (flat ps) = words64 (ram64 c) (rd c base) (2 * length ps) \<and>
    rd c' base = rd c base + of_nat (16 * length ps) \<and> (\<forall>r. r \<notin> set (flat ps) \<longrightarrow> r \<noteq> base \<longrightarrow> rd c' r = rd c r)"
  using assms(2,3) unfolding c'_def
proof (induction ps arbitrary: c)
  case (Cons p ps)
  obtain a b where p: "p = (a, b)" by (cases p)
  let ?c = "xexec1 (LDP_post a b base) c"
  have ne: "a \<noteq> base" "b \<noteq> base" "a \<noteq> b" using Cons.prems by (auto simp: p)
  have keep: "rd (wr r v d) q = (if q = r then v else rd d q)" for r v d q by (cases r; cases q) auto
  have wrs: "ram64 (wr r v d) = ram64 d" "sysr (wr r v d) = sysr d" for r v d by (cases r; simp)+
  have c: "ram64 ?c = ram64 c" "sysr ?c = sysr c" "rd ?c a = ram64 c (rd c base)" "rd ?c b = ram64 c (rd c base + 8)"
      "rd ?c base = rd c base + 16" "\<And>r. r \<noteq> a \<Longrightarrow> r \<noteq> b \<Longrightarrow> r \<noteq> base \<Longrightarrow> rd ?c r = rd c r"
    using ne by (simp_all add: Let_def keep wrs)
  have IH: "base \<notin> set (flat ps)" "distinct (flat ps)" "a \<notin> set (flat ps)" "b \<notin> set (flat ps)"
    using Cons.prems by (auto simp: p)
  show ?case
    using Cons.IH [OF IH(1,2), of ?c] c IH(3,4) ne
    by (auto simp: p xexec_simps words64_Suc algebra_simps)
qed (simp add: xexec_simps)

section \<open>The context of a thread\<close>

lemma general_pairs_facts:
  "XSP \<notin> set (flat general_pairs)" "length general_pairs = 15" "distinct (flat (rev general_pairs))"
  "set (flat (rev general_pairs)) = X ` {1..30}"
proof -
  show "set (flat (rev general_pairs)) = X ` {1..30}"
    by (auto simp: general_pairs_def image_iff) presburger
qed (simp_all add: general_pairs_def)

lemma pushed:
  "xexec push_registers c = c\<lparr>
    ram64 := store64 (ram64 c) (xsp c - 272) (map (field_value c) RegisterContext64),
    xsp := xsp c - 272, xr := (xr c)(0 := sysr c FPSR, 1 := sysr c ELR_EL1)\<rparr>"
proof -
  define c1 where "c1 = c\<lparr>ram64 := store64 (ram64 c) (xsp c - 32) [sysr c FPSR, sysr c SPSR_EL1, xr c 0, xr c 1],
    xsp := xsp c - 32, xr := (xr c)(0 := sysr c FPSR, 1 := sysr c ELR_EL1)\<rparr>"
  have first: "xexec [STP_pre (X 0) (X 1), MRS (X 0) FPSR, MRS (X 1) SPSR_EL1, STP_pre (X 0) (X 1), MRS (X 1) ELR_EL1] c = c1"
    by (simp add: xexec_simps Let_def store_pair_def c1_def fun_upd_twist)
  have "map (rd c1) (flat (rev general_pairs)) @ [sysr c FPSR, sysr c SPSR_EL1, xr c 0, xr c 1] =
      map (field_value c) RegisterContext64"
    by (simp add: general_pairs_def RegisterContext64_def c1_def numeral_2_eq_2)
  moreover have "ram64 c1 = store64 (ram64 c) (xsp c1) [sysr c FPSR, sysr c SPSR_EL1, xr c 0, xr c 1]" by (simp add: c1_def)
  ultimately show ?thesis
    using xexec_pushes [OF general_pairs_facts(1), of c1 "ram64 c" "[sysr c FPSR, sysr c SPSR_EL1, xr c 0, xr c 1]"]
    unfolding push_registers_def xexec_simps(3) first
    by (simp add: general_pairs_facts(2)) (simp add: c1_def)
qed

lemma popped:
  fixes c :: cpu64
  defines "c' \<equiv> xexec pop_registers c"
  shows "map (field_value c') RegisterContext64 = words64 (ram64 c) (xsp c) 34" and "xsp c' = xsp c + 272"
    and "ram64 c' = ram64 c"
proof -
  let ?ps = "rev general_pairs"
  define c1 where "c1 = xexec (map (\<lambda>(a, b). LDP_post a b XSP) ?ps) c"
  let ?tail = "[MSR ELR_EL1 (X 1), LDP_post (X 0) (X 1) XSP, MSR FPSR (X 0), MSR SPSR_EL1 (X 1), LDP_post (X 0) (X 1) XSP]"
  have "XSP \<notin> set (flat ?ps)" using general_pairs_facts(1) by simp
  from xexec_pops [OF this general_pairs_facts(3), of c]
  have c1: "ram64 c1 = ram64 c" "map (rd c1) (flat ?ps) = words64 (ram64 c) (xsp c) 30" "xsp c1 = xsp c + 240"
    by (simp_all add: c1_def general_pairs_facts(2))
  have c': "c' = xexec ?tail c1" by (simp add: c'_def pop_registers_def xexec_simps c1_def)
  then have tail: "ram64 c' = ram64 c1" "xsp c' = xsp c1 + 32" "xr c' 0 = ram64 c1 (xsp c1 + 16)" "xr c' 1 = ram64 c1 (xsp c1 + 24)"
      "sysr c' FPSR = ram64 c1 (xsp c1)" "sysr c' SPSR_EL1 = ram64 c1 (xsp c1 + 8)" "sysr c' ELR_EL1 = xr c1 1"
      "\<And>n. 1 < n \<Longrightarrow> xr c' n = xr c1 n"
    by (simp_all add: xexec_simps Let_def algebra_simps)
  have "map (field_value c') (butlast (butlast (butlast (butlast RegisterContext64)))) = map (rd c1) (flat ?ps)"
    using tail(7,8) by (simp add: RegisterContext64_def general_pairs_def numeral_2_eq_2)
  then have "map (field_value c') RegisterContext64 = words64 (ram64 c) (xsp c) 30 @
      [ram64 c (xsp c + 240), ram64 c (xsp c + 248), ram64 c (xsp c + 256), ram64 c (xsp c + 264)]"
    using c1 tail by (simp add: RegisterContext64_def algebra_simps)
  moreover have "words64 (ram64 c) (xsp c) 34 = words64 (ram64 c) (xsp c) 30 @
      [ram64 c (xsp c + 240), ram64 c (xsp c + 248), ram64 c (xsp c + 256), ram64 c (xsp c + 264)]"
    using words64_add [of "ram64 c" "xsp c" 30 4] by (simp add: words64_def eval_nat_numeral algebra_simps)
  ultimately show "map (field_value c') RegisterContext64 = words64 (ram64 c) (xsp c) 34" by simp
  show "xsp c' = xsp c + 272" "ram64 c' = ram64 c" using c1 tail by simp_all
qed

text \<open>C16: On the 64 bit boards the registers of an interrupted thread are on its stack in the order of the
  structure RegisterContext, below everything that was there, and whatever the kernel does to the
  registers afterwards, the thread has them all back, the stack pointer, the program counter and the
  status included, when it is resumed from that place.\<close>

theorem aarch64_context_round_trip:
  fixes c c2 :: cpu64
  defines "c1 \<equiv> xexec push_registers c"
  assumes "xsp c2 = xsp c1" and "words64 (ram64 c2) (xsp c1) 34 = words64 (ram64 c1) (xsp c1) 34"
  shows "words64 (ram64 c1) (xsp c1) 34 = map (field_value c) RegisterContext64 \<and>
    map (field_value (xexec pop_registers c2)) RegisterContext64 = map (field_value c) RegisterContext64 \<and>
    xsp (xexec pop_registers c2) = xsp c"
proof -
  have "length RegisterContext64 = 34" by (simp add: RegisterContext64_def)
  then have saved: "words64 (ram64 c1) (xsp c1) 34 = map (field_value c) RegisterContext64"
    using words_stored [of "map (field_value c) RegisterContext64" "ram64 c" "xsp c - 272"] by (simp add: c1_def pushed)
  moreover have "xsp c1 = xsp c - 272" by (simp add: c1_def pushed)
  ultimately show ?thesis using popped [of c2] assms(2,3) by simp
qed

text \<open>A new thread starts at the address it was given, with the status of user mode and all registers zero.\<close>

lemma new_thread_starts64:
  assumes "words64 (ram64 c) (xsp c) 34 = init_register_context64 thread_start"
  shows "sysr (xexec pop_registers c) ELR_EL1 = thread_start" and "sysr (xexec pop_registers c) SPSR_EL1 = 0"
    and "n < 31 \<Longrightarrow> xr (xexec pop_registers c) n = 0"
proof -
  have fresh: "init_register_context64 thread_start = map (\<lambda>f. if f = F_pc then thread_start else 0) RegisterContext64"
    by (simp add: init_register_context64_def platform_init_register_context64_def set_field_def RegisterContext64_def
        eval_nat_numeral)
  let ?c = "xexec pop_registers c"
  have "map (field_value ?c) RegisterContext64 = map (\<lambda>f. if f = F_pc then thread_start else 0) RegisterContext64"
    using popped(1) [of c] assms fresh by simp
  then have each: "field_value ?c f = (if f = F_pc then thread_start else 0)" if "f \<in> set RegisterContext64" for f
    using that by (simp only: map_eq_conv)
  show "sysr ?c ELR_EL1 = thread_start" "sysr ?c SPSR_EL1 = 0"
    using each [of F_pc] each [of F_spsr] by (simp_all add: RegisterContext64_def)
  show "xr ?c n = 0" if "n < 31"
  proof -
    have "n \<in> set [0..<31]" using that by simp
    moreover have "[0..<31] = [0, 1, 2, 3, 4, 5, 6, 7, 8, 9, 10, 11, 12, 13, 14, 15, 16, 17, 18, 19, 20, 21, 22, 23, 24, 25, 26,
        27, 28, 29, 30 :: nat]"
      by (simp add: upt_conv_Cons)
    ultimately have "F_x n \<in> set RegisterContext64" by (auto simp: RegisterContext64_def)
    then show ?thesis using each by fastforce
  qed
qed

section \<open>Switching fibers\<close>

text \<open>What a context saves, and what is resumed from one.\<close>

fun saved_field64 :: "cpu64 \<Rightarrow> fiber_field64 \<Rightarrow> u64" where
  "saved_field64 c (FF_x n) = xr c n"
| "saved_field64 c FF_lr = xr c 30"
| "saved_field64 c FF_sp = xsp c"
| "saved_field64 c FF_pc = xr c 30"

definition saved64 :: "cpu64 \<Rightarrow> u64 list" where
  "saved64 c = map (saved_field64 c) FiberContext64"

definition resumed64 :: "cpu64 \<Rightarrow> u64 list" where
  "resumed64 c = map (\<lambda>f. if f = FF_pc then pc64 c else saved_field64 c f) FiberContext64"

lemma context_words64:
  "saved64 c = map (xr c) [19..<31] @ [xsp c, xr c 30]" "resumed64 c = map (xr c) [19..<31] @ [xsp c, pc64 c]"
  by (simp_all add: saved64_def resumed64_def FiberContext64_def upt_conv_Cons)

lemma store64_other:
  assumes "\<And>i. i < length ws \<Longrightarrow> x \<noteq> a + of_nat (8 * i)"
  shows "store64 (m(x := w)) a ws = (store64 m a ws)(x := w)"
  using assms
proof (induction ws arbitrary: a)
  case (Cons v ws)
  have "x \<noteq> a" using Cons.prems [of 0] by simp
  moreover have "store64 (m(x := w)) (a + 8) ws = (store64 m (a + 8) ws)(x := w)"
    using Cons.prems [of "Suc _"] by (intro Cons.IH) (auto simp: algebra_simps)
  ultimately show ?case by (simp only: store64.simps) (rule fun_upd_twist)
qed simp

lemma store64_first:
  assumes "8 * length ws < 2 ^ 64 - 8"
  shows "store64 (m(a := w)) (a + 8) ws = store64 m a (w # ws)"
proof -
  have "a \<noteq> a + 8 + of_nat (8 * i)" if "i < length ws" for i
    using offset_nonzero [of "8 + 8 * i" a] that assms by (simp add: add.assoc)
  then show ?thesis by (simp add: store64_other)
qed

lemma store64_pair:
  assumes "8 * length ws < 2 ^ 64 - 16"
  shows "store64 (store_pair a v w m) (a + 16) ws = store64 m a (v # w # ws)"
proof -
  have "a + 8 \<noteq> a" using offset_nonzero [of 8 a] by simp
  then have "store_pair a v w m = m(a := v, a + 8 := w)" by (simp add: store_pair_def fun_upd_twist)
  then show ?thesis
    using store64_first [of ws "m(a := v)" "a + 8" w] store64_first [of "w # ws" m a v] assms
    by (simp add: algebra_simps)
qed

lemma words64_past:
  assumes "8 * n < 2 ^ 64 - 16"
  shows "words64 (store_pair a v w m) (a + 16) n = words64 m (a + 16) n"
proof -
  have "words64 (store_pair a v w m) (a + 16) n = words64 (m(a + 8 := w)) (a + 8 + 8) n"
    using words64_upd [of "Suc n" "m(a + 8 := w)" a v] assms
    by (simp add: store_pair_def words64_Suc add.assoc)
  then show ?thesis using words64_upd [of n m "a + 8" w] assms by (simp add: add.assoc)
qed

lemma store64_append:
  assumes "8 * length ws < 2 ^ 64 - 16"
  shows "store_pair (a + of_nat (8 * length ws)) v w (store64 m a ws) = store64 m a (ws @ [v, w])"
  using assms
proof (induction ws arbitrary: a)
  case Nil
  then show ?case by (simp add: store_pair_def)
next
  case (Cons u ws)
  let ?p = "a + of_nat (8 * length (u # ws))"
  have ne: "?p \<noteq> a" "?p + 8 \<noteq> a"
    using offset_nonzero [of "8 * length (u # ws)" a] offset_nonzero [of "8 * length (u # ws) + 8" a] Cons.prems
    by (simp_all add: algebra_simps)
  have "store_pair ?p v w (store64 m a (u # ws)) = (store_pair ?p v w (store64 m (a + 8) ws))(a := u)"
    using ne by (simp add: store_pair_def fun_upd_twist)
  also have "store_pair ?p v w (store64 m (a + 8) ws) = store64 m (a + 8) (ws @ [v, w])"
    using Cons.IH [of "a + 8"] Cons.prems by (simp add: algebra_simps)
  finally show ?case by simp
qed

abbreviation pair_regs :: "nat list \<Rightarrow> nat list" where
  "pair_regs ns \<equiv> concat (map (\<lambda>n. [n, Suc n]) ns)"

lemma xexec_stores:
  assumes "0 \<notin> set ns" and "16 * length ns < 2 ^ 64 - 16"
  shows "xexec (map (\<lambda>n. STP_post (X n) (X (Suc n)) (X 0)) ns) c =
    c\<lparr>ram64 := store64 (ram64 c) (xr c 0) (map (xr c) (pair_regs ns)), xr := (xr c)(0 := xr c 0 + of_nat (16 * length ns))\<rparr>"
  using assms
proof (induction ns arbitrary: c)
  case (Cons n ns)
  let ?c = "xexec1 (STP_post (X n) (X (Suc n)) (X 0)) c"
  have len: "length (pair_regs ns) = 2 * length ns" by (induction ns) simp_all
  have c: "ram64 ?c = store_pair (xr c 0) (xr c n) (xr c (Suc n)) (ram64 c)" "xr ?c = (xr c)(0 := xr c 0 + 16)"
    by (simp_all add: Let_def)
  have "0 \<notin> set (pair_regs ns)" using Cons.prems(1) by auto
  then have "map (xr ?c) (pair_regs ns) = map (xr c) (pair_regs ns)"
    unfolding c(2) by (intro map_cong refl) (metis fun_upd_other)
  moreover have "?c\<lparr>ram64 := m, xr := r\<rparr> = c\<lparr>ram64 := m, xr := r\<rparr>" for m r by (simp add: Let_def)
  moreover have "xexec (map (\<lambda>n. STP_post (X n) (X (Suc n)) (X 0)) ns) ?c =
    ?c\<lparr>ram64 := store64 (ram64 ?c) (xr ?c 0) (map (xr ?c) (pair_regs ns)), xr := (xr ?c)(0 := xr ?c 0 + of_nat (16 * length ns))\<rparr>"
    using Cons.prems by (intro Cons.IH) simp_all
  moreover have "store64 (ram64 ?c) (xr ?c 0) (map (xr c) (pair_regs ns)) =
      store64 (ram64 c) (xr c 0) (map (xr c) (pair_regs (n # ns)))"
    using store64_pair [of "map (xr c) (pair_regs ns)" "xr c 0" "xr c n" "xr c (Suc n)" "ram64 c"] Cons.prems(2) len
    unfolding c by simp
  moreover have "(xr ?c)(0 := xr ?c 0 + of_nat (16 * length ns)) = (xr c)(0 := xr c 0 + of_nat (16 * length (n # ns)))"
    unfolding c by (simp add: algebra_simps)
  ultimately show ?case by (simp only: list.map xexec_simps(2))
qed (simp add: xexec_simps)

definition context_pairs :: "nat list" where
  "context_pairs = [19, 21, 23, 25, 27, 29]"

lemma context_pairs_facts:
  "0 \<notin> set context_pairs" "length context_pairs = 6" "pair_regs context_pairs = [19..<31]"
  by (simp_all add: context_pairs_def upt_conv_Cons)

lemma get_context64_saves:
  "ram64 (xexec get_context64 c) = store64 (ram64 c) (xr c 0) (saved64 c)" "pc64 (xexec get_context64 c) = xr c 30"
proof -
  define c1 where "c1 = xexec (map (\<lambda>n. STP_post (X n) (X (Suc n)) (X 0)) context_pairs) c"
  have c1: "ram64 c1 = store64 (ram64 c) (xr c 0) (map (xr c) [19..<31])" "xr c1 = (xr c)(0 := xr c 0 + 96)" "xsp c1 = xsp c"
    by (simp_all add: c1_def xexec_stores context_pairs_facts)
  have code: "xexec get_context64 c = xexec [XMOV (X 1) XSP, STP_post (X 1) (X 30) (X 0), XBR (X 30)] c1"
    by (simp only: get_context64_def xexec_simps(3) c1_def context_pairs_def)
  show "ram64 (xexec get_context64 c) = store64 (ram64 c) (xr c 0) (saved64 c)"
    using store64_append [of "map (xr c) [19..<31]" "xr c 0" "xsp c" "xr c 30" "ram64 c"] c1
    unfolding code by (simp add: xexec_simps Let_def context_words64 del: upt_Suc)
  show "pc64 (xexec get_context64 c) = xr c 30" unfolding code by (simp add: xexec_simps Let_def c1(2))
qed

lemma set_context64_loads:
  "ram64 (xexec set_context64 c) = ram64 c"
  "resumed64 (xexec set_context64 c) = words64 (ram64 c) (xr c 0) 14"
  "xr (xexec set_context64 c) 0 = xr c 0 + 112"
proof -
  let ?ps = "map (\<lambda>n. (X n, X (Suc n))) context_pairs"
  define c1 where "c1 = xexec (map (\<lambda>n. LDP_post (X n) (X (Suc n)) (X 0)) context_pairs) c"
  have flat: "flat ?ps = map X [19..<31]" by (simp add: context_pairs_def upt_conv_Cons)
  have "X 0 \<notin> set (flat ?ps)" "distinct (flat ?ps)" unfolding flat by (auto simp: distinct_map inj_on_def)
  from xexec_pops [OF this, of c] have "ram64 c1 = ram64 c" "map (rd c1) (map X [19..<31]) = words64 (ram64 c) (xr c 0) 12"
      "xr c1 0 = xr c 0 + 96"
    unfolding flat by (simp_all add: c1_def comp_def context_pairs_facts(2) del: upt_Suc)
  then have c1: "ram64 c1 = ram64 c" "map (xr c1) [19..<31] = words64 (ram64 c) (xr c 0) 12" "xr c1 0 = xr c 0 + 96"
    by (simp_all add: comp_def del: upt_Suc)
  have code: "xexec set_context64 c = xexec [LDP_post (X 1) (X 2) (X 0), XMOV XSP (X 1), XBR (X 2)] c1"
    by (simp only: set_context64_def xexec_simps(3) c1_def context_pairs_def)
  have c': "xexec set_context64 c = c1\<lparr>xr := (xr c1)(0 := xr c 0 + 112, 1 := ram64 c (xr c 0 + 96), 2 := ram64 c (xr c 0 + 104)),
      xsp := ram64 c (xr c 0 + 96), pc64 := ram64 c (xr c 0 + 104)\<rparr>"
    unfolding code using c1 by (simp add: xexec_simps Let_def algebra_simps)
  have "words64 (ram64 c) (xr c 0) 14 = words64 (ram64 c) (xr c 0) 12 @ [ram64 c (xr c 0 + 96), ram64 c (xr c 0 + 104)]"
    using words64_add [of "ram64 c" "xr c 0" 12 2] by (simp add: words64_Suc numeral_2_eq_2 add.assoc)
  moreover have "map ((xr c1)(0 := u, 1 := v, 2 := w)) [19..<31] = map (xr c1) [19..<31]" for u v w by (intro map_cong) auto
  ultimately show "ram64 (xexec set_context64 c) = ram64 c" "resumed64 (xexec set_context64 c) = words64 (ram64 c) (xr c 0) 14"
    "xr (xexec set_context64 c) 0 = xr c 0 + 112"
    unfolding c' context_words64 using c1 by (simp_all del: upt_Suc)
qed

lemma store64_past:
  assumes "length ws \<le> k" and "8 * k < 2 ^ 64"
  shows "store64 m a ws (a + of_nat (8 * k)) = m (a + of_nat (8 * k))"
  using assms
proof (induction ws arbitrary: a k)
  case (Cons w ws)
  then obtain j where k: "k = Suc j" by (cases k) auto
  have "a + of_nat (8 * k) \<noteq> a" using Cons.prems k by (intro offset_nonzero) simp_all
  moreover have "store64 m (a + 8) ws (a + 8 + of_nat (8 * j)) = m (a + 8 + of_nat (8 * j))"
    using Cons.prems k by (intro Cons.IH) simp_all
  ultimately show ?case by (simp add: k algebra_simps)
qed simp

lemma xexec_swaps:
  fixes c :: cpu64 and ns :: "nat list"
  defines "c' \<equiv> xexec (concat (map SWAP64 ns)) c"
  assumes "\<forall>r \<in> set (pair_regs ns). 2 < r" and "distinct (pair_regs ns)" and "16 * length ns < 2 ^ 64 - 16"
  shows "ram64 c' = store64 (ram64 c) (xr c 0) (map (xr c) (pair_regs ns)) \<and>
    map (xr c') (pair_regs ns) = words64 (ram64 c) (xr c 0) (2 * length ns) \<and>
    xr c' 0 = xr c 0 + of_nat (16 * length ns) \<and> xsp c' = xsp c \<and>
    (\<forall>r. r \<notin> set (pair_regs ns) \<longrightarrow> 2 < r \<longrightarrow> xr c' r = xr c r)"
  using assms(2-4) unfolding c'_def
proof (induction ns arbitrary: c)
  case (Cons n ns)
  define d where "d = xexec (SWAP64 n) c"
  let ?a = "xr c 0" and ?m = "ram64 c"
  have n: "2 < n" using Cons.prems(1) by simp
  have d: "ram64 d = store_pair ?a (xr c n) (xr c (Suc n)) ?m" "xr d 0 = ?a + 16" "xsp d = xsp c"
      "xr d n = ?m ?a" "xr d (Suc n) = ?m (?a + 8)" "\<And>r. r \<noteq> n \<Longrightarrow> r \<noteq> Suc n \<Longrightarrow> 2 < r \<Longrightarrow> xr d r = xr c r"
    using n by (simp_all add: d_def SWAP64_def xexec_simps Let_def)
  have len: "length (pair_regs ns) = 2 * length ns" by (induction ns) simp_all
  have out: "n \<notin> set (pair_regs ns)" "Suc n \<notin> set (pair_regs ns)" "\<forall>r \<in> set (pair_regs ns). 2 < r" "distinct (pair_regs ns)"
    using Cons.prems by auto
  have same: "map (xr d) (pair_regs ns) = map (xr c) (pair_regs ns)"
    using out by (intro map_cong refl d(6)) blast+
  have IH: "ram64 (xexec (concat (map SWAP64 ns)) d) = store64 (ram64 d) (?a + 16) (map (xr c) (pair_regs ns))"
      "map (xr (xexec (concat (map SWAP64 ns)) d)) (pair_regs ns) = words64 (ram64 d) (?a + 16) (2 * length ns)"
      "xr (xexec (concat (map SWAP64 ns)) d) 0 = ?a + 16 + of_nat (16 * length ns)"
      "xsp (xexec (concat (map SWAP64 ns)) d) = xsp c"
      "\<And>r. r \<notin> set (pair_regs ns) \<Longrightarrow> 2 < r \<Longrightarrow> xr (xexec (concat (map SWAP64 ns)) d) r = xr d r"
    using Cons.IH [OF out(3,4), of d] Cons.prems(3) same d(2,3) by simp_all
  have "store64 (ram64 d) (?a + 16) (map (xr c) (pair_regs ns)) = store64 ?m ?a (map (xr c) (pair_regs (n # ns)))"
    unfolding d(1) using store64_pair [of "map (xr c) (pair_regs ns)" ?a] Cons.prems(3) len by simp
  moreover have "words64 (ram64 d) (?a + 16) (2 * length ns) = words64 ?m (?a + 16) (2 * length ns)"
    unfolding d(1) using Cons.prems(3) by (intro words64_past) simp
  moreover have run: "xexec (concat (map SWAP64 (n # ns))) c = xexec (concat (map SWAP64 ns)) d"
    by (simp add: d_def xexec_simps(3))
  moreover have "xr (xexec (concat (map SWAP64 ns)) d) n = ?m ?a"
      "xr (xexec (concat (map SWAP64 ns)) d) (Suc n) = ?m (?a + 8)"
    using IH(5) [OF out(1)] IH(5) [OF out(2)] d(4,5) n by simp_all
  ultimately show ?case
    unfolding run using IH d n out by (auto simp: words64_Suc algebra_simps)
qed (simp add: xexec_simps)

lemma swap_context64_swaps:
  "ram64 (xexec swap_context64 c) = store64 (ram64 c) (xr c 0) (saved64 c)"
  "resumed64 (xexec swap_context64 c) = words64 (ram64 c) (xr c 0) 14"
  "xr (xexec swap_context64 c) 0 = xr c 0"
proof -
  let ?a = "xr c 0" and ?m = "ram64 c"
  let ?tail = "[LDP (X 3) (X 4) (X 0), STP_post (X 29) (X 30) (X 0), XMOV (X 29) (X 3),
      LDP (X 1) (X 2) (X 0), XMOV (X 3) XSP, STP_post (X 3) (X 30) (X 0), XMOV (X 30) (X 4), XMOV XSP (X 1), XSUB (X 0) 112, XBR (X 2)]"
  define ns :: "nat list" where "ns = [19, 21, 23, 25, 27]"
  have ns: "pair_regs ns = [19..<29]" "length ns = 5" by (simp_all add: ns_def upt_conv_Cons)
  define c1 where "c1 = xexec (concat (map SWAP64 ns)) c"
  have c1: "ram64 c1 = store64 ?m ?a (map (xr c) [19..<29])" "map (xr c1) [19..<29] = words64 ?m ?a 10"
      "xr c1 0 = ?a + 80" "xsp c1 = xsp c" "\<And>r. 2 < r \<Longrightarrow> r < 19 \<or> 29 \<le> r \<Longrightarrow> xr c1 r = xr c r"
    using xexec_swaps [of ns c] by (auto simp: ns c1_def simp del: upt_Suc)
  let ?m1 = "store_pair (?a + 80) (xr c 29) (xr c 30) (ram64 c1)"
  have past: "ram64 c1 (?a + of_nat (8 * k)) = ?m (?a + of_nat (8 * k))" if "10 \<le> k" "k < 14" for k
    unfolding c1(1) using that by (intro store64_past) simp_all
  have m1: "?m1 = store64 ?m ?a (map (xr c) [19..<31])"
    using store64_append [of "map (xr c) [19..<29]" ?a "xr c 29" "xr c 30" ?m] c1(1)
    by (simp add: upt_conv_Cons)
  have past1: "?m1 (?a + of_nat (8 * k)) = ?m (?a + of_nat (8 * k))" if "12 \<le> k" "k < 14" for k
    unfolding m1 using that by (intro store64_past) simp_all
  have code: "xexec swap_context64 c = xexec ?tail c1"
    by (simp only: swap_context64_def xexec_simps(3) c1_def ns_def)
  have c': "ram64 (xexec swap_context64 c) = store_pair (?a + 96) (xsp c) (xr c 30) ?m1"
      "xr (xexec swap_context64 c) 0 = ?a" "xsp (xexec swap_context64 c) = ?m1 (?a + 96)"
      "pc64 (xexec swap_context64 c) = ?m1 (?a + 104)" "xr (xexec swap_context64 c) 29 = ram64 c1 (?a + 80)"
      "xr (xexec swap_context64 c) 30 = ram64 c1 (?a + 88)" "\<And>r. 19 \<le> r \<Longrightarrow> r < 29 \<Longrightarrow> xr (xexec swap_context64 c) r = xr c1 r"
    unfolding code using c1(3,4) c1(5) [of 29] c1(5) [of 30] by (simp_all add: xexec_simps Let_def algebra_simps)
  show "ram64 (xexec swap_context64 c) = store64 ?m ?a (saved64 c)"
    unfolding c'(1) m1 context_words64
    using store64_append [of "map (xr c) [19..<31]" ?a "xsp c" "xr c 30" ?m] by (simp del: upt_Suc)
  show "xr (xexec swap_context64 c) 0 = ?a" by (rule c'(2))
  have "map (xr (xexec swap_context64 c)) [19..<29] = words64 ?m ?a 10"
    unfolding c1(2) [symmetric] using c'(7) by (intro map_cong) auto
  moreover have "[19..<31] = [19..<29] @ [29, 30 :: nat]" by (simp add: upt_conv_Cons)
  moreover have "words64 ?m ?a 14 = words64 ?m ?a 10 @ [?m (?a + 80), ?m (?a + 88), ?m (?a + 96), ?m (?a + 104)]"
    using words64_add [of ?m ?a 10 4] by (simp add: words64_Suc eval_nat_numeral add.assoc)
  ultimately show "resumed64 (xexec swap_context64 c) = words64 ?m ?a 14"
    using c' past [of 10] past [of 11] past1 [of 12] past1 [of 13] by (simp add: context_words64 del: upt_Suc)
qed

text \<open>On the 64 bit boards a context that was saved, or left by a switch, is resumed from the same memory
  with the registers a function keeps, the stack pointer, and the program counter behind the call that
  saved it, whether by setting it or by switching to it.\<close>

theorem aarch64_fiber_round_trip:
  assumes "c1 = xexec get_context64 c \<or> c1 = xexec swap_context64 c"
    and "xr c2 0 = xr c 0" and "words64 (ram64 c2) (xr c 0) 14 = words64 (ram64 c1) (xr c 0) 14"
  shows "resumed64 (xexec set_context64 c2) = saved64 c \<and> resumed64 (xexec swap_context64 c2) = saved64 c"
proof -
  have "ram64 c1 = store64 (ram64 c) (xr c 0) (saved64 c)"
    using assms(1) get_context64_saves(1) swap_context64_swaps(1) by auto
  moreover have "length (saved64 c) = 14" by (simp add: context_words64)
  ultimately have "words64 (ram64 c2) (xr c2 0) 14 = saved64 c"
    using words_stored [of "saved64 c" "ram64 c" "xr c 0"] assms(2,3) by simp
  then show ?thesis using set_context64_loads(2) swap_context64_swaps(2) by simp
qed

section \<open>Concrete contexts\<close>

definition demo_cpu64 :: cpu64 where
  "demo_cpu64 = \<lparr>xr = (\<lambda>n. of_nat n), xsp = 0x10000, sysr = (\<lambda>s. if s = ELR_EL1 then 0x8000 else 1), ram64 = (\<lambda>_. 0), pc64 = 0\<rparr>"

theorem aarch64_context_round_trip_witness:
  "map (field_value (xexec pop_registers (xexec push_registers demo_cpu64))) RegisterContext64 =
     map (field_value demo_cpu64) RegisterContext64 \<and> xsp (xexec pop_registers (xexec push_registers demo_cpu64)) = 0x10000"
  using aarch64_context_round_trip [of "xexec push_registers demo_cpu64" demo_cpu64] by (simp add: demo_cpu64_def)

theorem aarch64_fiber_round_trip_witness:
  "resumed64 (xexec set_context64 (demo_cpu64\<lparr>ram64 := ram64 (xexec get_context64 demo_cpu64)\<rparr>)) = saved64 demo_cpu64"
  using aarch64_fiber_round_trip [of "xexec get_context64 demo_cpu64" demo_cpu64
      "demo_cpu64\<lparr>ram64 := ram64 (xexec get_context64 demo_cpu64)\<rparr>"] by simp

end
