(* ===== verification/Thumb.thy ===== *)
theory Thumb
  imports Exception_Entry
begin

text \<open>
  What is different on the Thumb board, \<open>include/port/thumb.h\<close> with \<open>src/hw/thumb_lm3s6965evb/yield.S\<close>
  and \<open>port.c\<close>: addresses with a mode bit, and a context of which the processor saves one half and the
  handler the other.
\<close>

section \<open>Addresses and contexts\<close>

definition PC_ADD_MODE_thumb :: "size_t \<Rightarrow> size_t" where "PC_ADD_MODE_thumb pc = pc OR 1"
definition PC_REMOVE_MODE_thumb :: "size_t \<Rightarrow> size_t" where "PC_REMOVE_MODE_thumb pc = pc AND NOT 1"

text \<open>The structure \<open>RegisterContext\<close>, field by field.\<close>

datatype thumb_field = T_r nat | T_lr | T_pc | T_xpsr

definition RegisterContext_thumb :: "thumb_field list" where
  "RegisterContext_thumb = [T_r 4, T_r 5, T_r 6, T_r 7, T_r 8, T_r 9, T_r 10, T_r 11,
     T_r 0, T_r 1, T_r 2, T_r 3, T_r 12, T_lr, T_pc, T_xpsr]"

record thumb_cpu =
  th_reg :: "thumb_field \<Rightarrow> size_t"
  th_psp :: size_t
  th_mem :: mem

text \<open>
  The processor pushes the registers a function may change and the program counter at an exception, and
  pops them when the handler returns (the stack is aligned, so it adds no padding); the handler pushes
  and pops the others.
\<close>

definition hardware_fields :: "thumb_field list" where
  "hardware_fields = [T_r 0, T_r 1, T_r 2, T_r 3, T_r 12, T_lr, T_pc, T_xpsr]"

definition handler_fields :: "thumb_field list" where
  "handler_fields = [T_r 4, T_r 5, T_r 6, T_r 7, T_r 8, T_r 9, T_r 10, T_r 11]"

definition push_fields :: "thumb_field list \<Rightarrow> thumb_cpu \<Rightarrow> thumb_cpu" where
  "push_fields fs c =
     (let sp = th_psp c - of_nat (4 * length fs)
      in c\<lparr>th_psp := sp, th_mem := store_words (th_mem c) sp (map (th_reg c) fs)\<rparr>)"

definition pop_fields :: "thumb_field list \<Rightarrow> thumb_cpu \<Rightarrow> thumb_cpu" where
  "pop_fields fs c =
     (let ws = load_words (th_mem c) (th_psp c) (length fs)
      in c\<lparr>th_psp := th_psp c + of_nat (4 * length fs),
           th_reg := (\<lambda>f. case map_of (zip fs ws) f of None \<Rightarrow> th_reg c f | Some w \<Rightarrow> w)\<rparr>)"

definition thumb_save :: "thumb_cpu \<Rightarrow> thumb_cpu" where
  "thumb_save c = push_fields handler_fields (push_fields hardware_fields c)"

definition thumb_load :: "thumb_cpu \<Rightarrow> thumb_cpu" where
  "thumb_load c = pop_fields hardware_fields (pop_fields handler_fields c)"

text \<open>\<open>platform_init_register_context\<close> and \<open>print_register_context\<close>; the context is in memory at \<open>ctx\<close>.\<close>

definition platform_init_register_context_thumb :: "mem \<Rightarrow> size_t \<Rightarrow> mem" where
  "platform_init_register_context_thumb m ctx = store32 m (ctx + 60) (push_bit 24 1)"

definition thumb_field_at :: "mem \<Rightarrow> size_t \<Rightarrow> thumb_field \<Rightarrow> size_t" where
  "thumb_field_at m ctx f = the (map_of (zip RegisterContext_thumb (load_words m ctx 16)) f)"

definition print_register_context_thumb :: "size_t \<Rightarrow> kstate \<Rightarrow> unit kresult" where
  "print_register_context_thumb ctx s =
     k_printf (''  r0: 0x%08X r1: 0x%08X  r2: 0x%08X   r3: 0x%08X'' @ [CHR 0x0A] @
       ''  r4: 0x%08X r5: 0x%08X  r6: 0x%08X   r7: 0x%08X'' @ [CHR 0x0A] @
       ''  r8: 0x%08X r9: 0x%08X r10: 0x%08X  r11: 0x%08X'' @ [CHR 0x0A] @
       '' r12: 0x%08X lr: 0x%08X  pc: 0x%08X xpsr: 0x%08X'' @ [CHR 0x0A])
       (map (VNum \<circ> thumb_field_at (memory s) ctx) (map T_r [0, 1, 2, 3, 4, 5, 6, 7, 8, 9, 10, 11, 12] @ [T_lr, T_pc, T_xpsr])) s"

text \<open>The context functions are those of Arm but for the load of the stack pointer.\<close>

definition set_context_thumb :: "instr list" where
  "set_context_thumb =
     [LDR_post R4 R0, LDR_post R5 R0, LDR_post R6 R0, LDR_post R7 R0, LDR_post R8 R0, LDR_post R9 R0,
      LDR_post R10 R0, LDR_post R11 R0, LDR_post R1 R0, MOV SP R1, LDR_post LR R0, LDR_post R1 R0, BX R1]"

section \<open>What they do\<close>

lemma set_context_thumb_same: "exec set_context_thumb c = exec set_context c"
  by (simp add: set_context_thumb_def set_context_def exec_Cons Let_def fun_upd_twist)

lemma thumb_mode: "\<not> bit pc 0 \<Longrightarrow> PC_REMOVE_MODE_thumb (PC_ADD_MODE_thumb pc) = pc"
proof (rule bit_word_eqI)
  fix n
  assume "\<not> bit pc 0" and "n < LENGTH(32)"
  then show "bit (PC_REMOVE_MODE_thumb (PC_ADD_MODE_thumb pc)) n = bit pc n"
    by (cases "n = 0") (auto simp: PC_REMOVE_MODE_thumb_def PC_ADD_MODE_thumb_def bit_simps)
qed

lemma fields_order: "handler_fields @ hardware_fields = RegisterContext_thumb"
  by (simp add: handler_fields_def hardware_fields_def RegisterContext_thumb_def)

lemma fields_length [simp]: "length handler_fields = 8" "length hardware_fields = 8" "length RegisterContext_thumb = 16"
  by (simp_all add: handler_fields_def hardware_fields_def RegisterContext_thumb_def)

lemma thumb_saved:
  "thumb_save c = c\<lparr>th_psp := th_psp c - 64,
    th_mem := store_words (th_mem c) (th_psp c - 64) (map (th_reg c) RegisterContext_thumb)\<rparr>"
proof -
  have "store_words (store_words (th_mem c) (th_psp c - 32) us) (th_psp c - 64) ws = store_words (th_mem c) (th_psp c - 64) (ws @ us)"
    if "length ws = 8" "length us = 8" for ws us
  proof -
    have "ws \<noteq> []" "us \<noteq> []" using that by auto
    then show ?thesis using store_words_below [of ws us "th_mem c" "th_psp c - 32"] that by (simp add: diff_diff_eq)
  qed
  then show ?thesis
    by (simp add: thumb_save_def push_fields_def Let_def diff_diff_eq fields_order [symmetric])
qed

lemma thumb_loaded:
  "map (th_reg (thumb_load c)) RegisterContext_thumb = load_words (th_mem c) (th_psp c) 16"
  "th_psp (thumb_load c) = th_psp c + 64"
proof -
  have split: "load_words (th_mem c) (th_psp c) 16 = load_words (th_mem c) (th_psp c) 8 @ load_words (th_mem c) (th_psp c + 32) 8"
    using load_words_add [of "th_mem c" "th_psp c" 8 8] by simp
  have zip: "map (\<lambda>f. case map_of (zip fs ws) f of None \<Rightarrow> d f | Some w \<Rightarrow> w) fs = ws" if "distinct fs" "length ws = length fs"
    for fs :: "thumb_field list" and ws and d :: "thumb_field \<Rightarrow> size_t"
    by (rule nth_equalityI) (use that in \<open>simp_all add: map_of_zip_nth\<close>)
  have d: "distinct handler_fields" "distinct hardware_fields" "set handler_fields \<inter> set hardware_fields = {}"
    by (simp_all add: handler_fields_def hardware_fields_def)
  let ?c1 = "pop_fields handler_fields c"
  have c1: "th_mem ?c1 = th_mem c" "th_psp ?c1 = th_psp c + 32" "map (th_reg ?c1) handler_fields = load_words (th_mem c) (th_psp c) 8"
    using zip [OF d(1)] by (simp_all add: pop_fields_def Let_def)
  have "map (th_reg (thumb_load c)) hardware_fields = load_words (th_mem c) (th_psp c + 32) 8"
    using zip [OF d(2)] c1(1,2) by (simp add: thumb_load_def pop_fields_def [of hardware_fields] Let_def)
  moreover have "map (th_reg (thumb_load c)) handler_fields = map (th_reg ?c1) handler_fields"
  proof (intro map_cong refl)
    fix f assume "f \<in> set handler_fields"
    then have "f \<notin> set hardware_fields" using d(3) by auto
    then show "th_reg (thumb_load c) f = th_reg ?c1 f"
      by (simp add: thumb_load_def pop_fields_def [of hardware_fields] Let_def map_of_zip_is_None [THEN iffD2])
  qed
  ultimately show "map (th_reg (thumb_load c)) RegisterContext_thumb = load_words (th_mem c) (th_psp c) 16"
    using c1(3) split by (simp add: fields_order [symmetric])
  show "th_psp (thumb_load c) = th_psp c + 64" using c1(2) by (simp add: thumb_load_def pop_fields_def [of hardware_fields] Let_def)
qed

text \<open>On the Thumb board a thread has its registers back when it is resumed, and until then its stack
  holds them in the order of the structure.\<close>

lemma thumb_context_round_trip:
  assumes "th_psp c2 = th_psp (thumb_save c)"
    and "load_words (th_mem c2) (th_psp c2) 16 = load_words (th_mem (thumb_save c)) (th_psp c2) 16"
  shows "load_words (th_mem (thumb_save c)) (th_psp (thumb_save c)) 16 = map (th_reg c) RegisterContext_thumb"
    and "map (th_reg (thumb_load c2)) RegisterContext_thumb = map (th_reg c) RegisterContext_thumb"
    and "th_psp (thumb_load c2) = th_psp c"
proof -
  show saved: "load_words (th_mem (thumb_save c)) (th_psp (thumb_save c)) 16 = map (th_reg c) RegisterContext_thumb"
    by (simp add: thumb_saved load_store_words)
  then show "map (th_reg (thumb_load c2)) RegisterContext_thumb = map (th_reg c) RegisterContext_thumb"
    "th_psp (thumb_load c2) = th_psp c"
    using assms thumb_loaded [of c2] by (simp_all add: thumb_saved)
qed

end
