(* ===== verification/Spec2Isabelle.thy ===== *)
theory Spec2Isabelle
  imports Authority Fairness Condition_Queue Elf_Properties User_Library Property_Access User_Pointer Permission_Tests Code_Pages
    Fiber Thread_Local Trace Drivers Print_Parse
    Line_Editor Programs Alloc_Test_Results Print_Demo Port_Calls Aarch64 Thumb
begin

text \<open>
  BadgerKernel, a small cooperative and preemptive kernel in C for 32 bit Arm and other boards: its
  model in HOL, built for the 32 bit Arm board, and the theorems that make it correct.

  \<^bold>\<open>The program and how its parts interact.\<close> A fixed number of threads share one address space. A
  thread runs until it makes a system call, is interrupted by the timer, or ends. The assembly at
  the entry of the kernel saves its registers on its stack and calls the handler of
  \<open>kernel/syscall.c\<close>, which checks the canaries around the stack, decodes the number of the call,
  runs the function of the kernel component (\<open>thread.c\<close>, \<open>thread_property.cpp\<close>, \<open>message.c\<close>,
  \<open>mutex.c\<close>, \<open>condition_variable.c\<close>, \<open>alloc.c\<close>, \<open>file.c\<close>), and writes the result into the
  saved registers. When the call asked for a switch the scheduler of \<open>thread.c\<close> chooses the next
  thread, exchanges its code page with the backing page when there is one, and
  \<open>signal_handling.c\<close> puts a pending signal in front of the registers it resumes. User programs
  reach all this through the wrappers of \<open>user/\<close>, the loader \<open>user/elf.c\<close> among them. The C library,
  formatted output and the serial drivers are below everything else.

  \<^bold>\<open>Shape of the model.\<close> The state of the kernel is the record \<open>kstate\<close> (\<open>Kernel_State\<close>): every
  global variable of the kernel, the byte memory all programs share, the characters printed so far
  and the calls made to the debugger host. A function of the kernel is a function from \<open>kstate\<close> to an
  \<open>outcome\<close>: a value with the new state, an exit of the whole system (\<open>k_exit\<close>, a failed
  assertion), or \<open>Undef\<close>, behaviour that C leaves undefined. The names are those of the code; a
  name that clashes with one of HOL has a suffix. Sizes that depend on the build (threads, pages,
  heap) are lengths of lists in the state or fields of \<open>Build\<close>, so all builds are covered.
  Machine integers are words of their width; an \<open>int\<close> that only holds small numbers (thread
  ids, error numbers) is an \<open>int\<close> of HOL. Pointers into the tables of the kernel are indices,
  pointers of user programs are addresses of the memory. Loops that may not end are partial
  functions with an optional result, \<open>None\<close> being a loop that never ends (\<open>broadcast_loop\<close>, \<open>thread_join\<close>, \<open>reloc_loop\<close>, \<open>backtrace_loop\<close>, \<open>wait_clear\<close>,
  \<open>mbox_response\<close>, \<open>strlen\<close>, \<open>strcmp\<close>, \<open>vprintf\<close>); all others are total, with a measure. There is
  no fuel anywhere, so no bound has to be justified.

  \<^bold>\<open>Theories and source files.\<close>
  \<^item> \<open>Prelude\<close>: machine types, outcomes and their sequencing, collections of facts. \<open>Memory\<close>: the
    byte memory, loads and stores of words, regions that are apart. \<open>Libc\<close>: \<open>common/libc.c\<close> loop by
    loop. \<open>Print\<close>: \<open>common/print.cpp\<close>. \<open>Kernel_State\<close>: \<open>include/common/thread.h\<close>,
    \<open>include/kernel/thread.h\<close>, error numbers, the checks on thread ids, logging.
  \<^item> \<open>Alloc\<close>: \<open>kernel/alloc.c\<close>. The invariant of the block tags, allocations as a map from their
    first block to length and owner, and what each operation does to that map. The locale
    \<open>block_heap\<close> states what the operations rely on.
  \<^item> \<open>Ring\<close>: the interface of a bounded queue, the locale \<open>bounded_queue\<close>, and what follows for any
    sequence of its operations. \<open>Messages\<close> (\<open>kernel/message.c\<close>) and \<open>Condition_Queue\<close> (over
    \<open>Condition_Variable\<close>, \<open>kernel/condition_variable.c\<close>) are its two interpretations.
  \<^item> \<open>Mutex\<close>: \<open>kernel/mutex.c\<close> and mutual exclusion over sequences of calls.
  \<^item> \<open>Signals\<close>: \<open>kernel/signal_handling.c\<close> with the register contexts of \<open>include/port/arm.h\<close> and
    the wrapper of \<open>hw/arm_virt/yield.S\<close>.
  \<^item> \<open>Threads\<close>, \<open>Scheduler\<close>: \<open>kernel/thread.c\<close>. \<open>Thread_Property\<close>:
    \<open>kernel/thread_property.cpp\<close>. \<open>File\<close>: \<open>kernel/file.c\<close> and \<open>kernel/semihosting.c\<close>.
    \<open>Syscall\<close>: \<open>kernel/syscall.c\<close>. \<open>Machine\<close>: reset, the assembly handlers, and the system as an
    inductive step relation: a step of user code, a system call, a timer interrupt, the
    scheduler.
  \<^item> \<open>Invariant\<close>, \<open>Preservation\<close>, \<open>Boot\<close>: the invariant of the kernel, that every function of the
    kernel keeps it, and that it holds in every state reachable from reset.
  \<^item> \<open>Scheduling\<close>, \<open>Fairness\<close>: which thread is chosen, and how soon. \<open>Lifecycle\<close>, \<open>Code_Pages\<close>:
    creation, restart, cancelling, waking, and code pages. \<open>Authority\<close>: what permissions bound.
    \<open>Property_Access\<close>: properties and the way of a call through the handler. \<open>User_Pointer\<close>: the
    typed pointers of \<open>kernel/thread_property.cpp\<close>. \<open>Permission_Tests\<close>:
    \<open>demos/permissions/permissions.c\<close>, whose assertions the kernel is shown to satisfy.
  \<^item> \<open>First_Fit\<close>: a reference allocator that looks for a run of free blocks without counters, and
    that the search of the kernel is equivalent to it. \<open>Alloc_Tests\<close>: \<open>demos/alloc/alloc.c\<close>;
    \<open>Alloc_Test_Results\<close>: that the kernel passes it, one test after the other.
    \<open>Print_Demo\<close>: \<open>demos/printthreadname/printthreadname.c\<close> and the lines it prints.
  \<^item> \<open>User_Calls\<close>: \<open>user/thread.c\<close>, \<open>alloc.c\<close>, \<open>mutex.c\<close>, \<open>condition_variable.c\<close>, \<open>file.c\<close>,
    \<open>util.c\<close>, over a kernel that is a parameter. \<open>User_Library\<close>: what they promise when it is the
    kernel of this development and yielding lets other threads do anything.
  \<^item> \<open>Elf\<close>, \<open>Elf_File\<close>, \<open>Elf_Loader\<close>, \<open>Elf_Properties\<close>: \<open>user/elf.c\<close>; the file it reads is the
    locale \<open>elf_file\<close>, which the kernel with a host that serves one file provides.
  \<^item> \<open>Thread_Local\<close>: \<open>user/emutls.c\<close>. \<open>Fiber\<close>: \<open>user/fiber.c\<close> and the context switch of
    \<open>hw/arm_virt/yield.S\<close> instruction by instruction. \<open>Trace\<close>: \<open>common/trace.c\<close>. \<open>Drivers\<close>: serial
    ports, mailbox, interrupt controller and timer. \<open>Print_Parse\<close>: formatted numbers read back.
  \<^item> \<open>Assertion\<close>: \<open>common/assert.c\<close> and \<open>common/ubsan.c\<close>. \<open>Shell\<close>, \<open>Command_Line\<close>, \<open>Line_Editor\<close>,
    \<open>Programs\<close>: the shell of \<open>demos/shell\<close> and its programs, from the keys that are typed to the thread
    that a command starts. \<open>Confined\<close>: where a computation writes, shared with the loader.
  \<^item> \<open>Exception_Entry\<close>: the exception handlers of \<open>hw/arm_virt/yield.S\<close> instruction by instruction over
    banked registers, and that they refine the events of \<open>Machine\<close>. \<open>Port_Calls\<close>:
    \<open>hw/arm_common/port.c\<close>, \<open>user/timer.c\<close>, \<open>hw/arm_virt/port.c\<close>: a system call from the program into
    the kernel and back. \<open>Aarch64\<close>: the context switches of the 64 bit ports with
    \<open>include/port/aarch64.h\<close>; \<open>Thumb\<close>: what is different there with \<open>include/port/thumb.h\<close>.
  \<^item> \<open>Demo\<close>: small concrete states on which the properties are instantiated.

  \<^bold>\<open>Parameters.\<close> What is not code of this repository is an argument: the debugger host
  that executes semihosting calls (\<open>host\<close>: a result and the bytes written, as a function of the
  calls made so far), the devices (\<open>device\<close>), user code between two calls (any change of user
  memory and registers that keeps the kernel's data), other threads while one is not running.

  \<^bold>\<open>Not modelled.\<close> The exception handlers of the Thumb board and, beyond saving and resuming the
  registers, of the 64 bit boards; start-up code and vector tables; debug output of the loader, which
  is compiled out; interrupts that arrive inside the kernel, which runs with interrupts disabled; the
  frames of compiled C code; the demos other than those named above, which make the same calls.
\<close>

end
